(* ===== verification/Prelude.thy ===== *)
theory Prelude
  imports Main "HOL-Library.Char_ord" "HOL-Library.List_Lexorder"
begin

text \<open>
  Shared vocabulary of the development: the collections of facts the component proofs
  draw on, the Rust string functions the sources call, ordered maps (\<open>BTreeMap\<close>) and the
  relational statements (\<open>INSERT\<close>, \<open>UPDATE\<close>, \<open>DELETE\<close>, \<open>SELECT\<close>) of the storage crate.

  A Rust \<open>String\<close> is modelled as a \<^typ>\<open>string\<close>, the list of its bytes. The case and
  white-space functions below are the ASCII ones; they agree with the Unicode functions of
  the standard library on ASCII text, the only text for which the sources rely on them.
\<close>

named_theorems str_defs \<open>definitions of string functions\<close>
named_theorems tbl_simps \<open>rewrite rules for relational statements\<close>

type_synonym ('e, 'a) result = "'e + 'a"

section \<open>Strings\<close>

fun strip_prefix :: "string \<Rightarrow> string \<Rightarrow> string option" where
  "strip_prefix [] s = Some s"
| "strip_prefix (p # ps) [] = None"
| "strip_prefix (p # ps) (c # s) = (if p = c then strip_prefix ps s else None)"

definition starts_with :: "string \<Rightarrow> string \<Rightarrow> bool" where
  "starts_with p s \<longleftrightarrow> strip_prefix p s \<noteq> None"

fun split_on :: "char \<Rightarrow> string \<Rightarrow> string list" where
  "split_on d [] = [[]]"
| "split_on d (c # s) =
     (if c = d then [] # split_on d s
      else (case split_on d s of [] \<Rightarrow> [[c]] | w # ws \<Rightarrow> (c # w) # ws))"

fun split_once :: "char \<Rightarrow> string \<Rightarrow> (string \<times> string) option" where
  "split_once d [] = None"
| "split_once d (c # s) =
     (if c = d then Some ([], s)
      else map_option (\<lambda>(a, b). (c # a, b)) (split_once d s))"

fun rsplit_once :: "char \<Rightarrow> string \<Rightarrow> (string \<times> string) option" where
  "rsplit_once d [] = None"
| "rsplit_once d (c # s) =
     (case rsplit_once d s of
        Some (a, b) \<Rightarrow> Some (c # a, b)
      | None \<Rightarrow> if c = d then Some ([], s) else None)"

definition is_space :: "char \<Rightarrow> bool" where
  "is_space c \<longleftrightarrow> (let n = (of_char c :: nat) in n = 32 \<or> (9 \<le> n \<and> n \<le> 13))"

fun words_acc :: "string \<Rightarrow> string \<Rightarrow> string list" where
  "words_acc w [] = (if w = [] then [] else [rev w])"
| "words_acc w (c # s) =
     (if is_space c then (if w = [] then words_acc [] s else rev w # words_acc [] s)
      else words_acc (c # w) s)"

definition split_whitespace :: "string \<Rightarrow> string list" where
  "split_whitespace s = words_acc [] s"

fun join :: "string \<Rightarrow> string list \<Rightarrow> string" where
  "join sep [] = []"
| "join sep [w] = w"
| "join sep (w # v # ws) = w @ sep @ join sep (v # ws)"

definition trim :: "string \<Rightarrow> string" where
  "trim s = rev (dropWhile is_space (rev (dropWhile is_space s)))"

definition trim_end_matches :: "char \<Rightarrow> string \<Rightarrow> string" where
  "trim_end_matches c s = rev (dropWhile (\<lambda>x. x = c) (rev s))"

definition lower_char :: "char \<Rightarrow> char" where
  "lower_char c = (let n = (of_char c :: nat) in if 65 \<le> n \<and> n \<le> 90 then char_of (n + 32) else c)"

definition upper_char :: "char \<Rightarrow> char" where
  "upper_char c = (let n = (of_char c :: nat) in if 97 \<le> n \<and> n \<le> 122 then char_of (n - 32) else c)"

definition to_lowercase :: "string \<Rightarrow> string" where
  "to_lowercase s = map lower_char s"

definition to_uppercase :: "string \<Rightarrow> string" where
  "to_uppercase s = map upper_char s"

definition eq_ignore_ascii_case :: "string \<Rightarrow> string \<Rightarrow> bool" where
  "eq_ignore_ascii_case s t \<longleftrightarrow> to_lowercase s = to_lowercase t"

definition is_ascii_digit :: "char \<Rightarrow> bool" where
  "is_ascii_digit c \<longleftrightarrow> (let n = (of_char c :: nat) in 48 \<le> n \<and> n \<le> 57)"

definition digit_val :: "char \<Rightarrow> nat" where
  "digit_val c = of_char c - 48"

text \<open>\<open>str::parse\<close> for an unsigned integer with the given exclusive bound: an optional
  \<open>+\<close>, then one or more digits, failing on overflow.\<close>

fun digits_val :: "nat \<Rightarrow> string \<Rightarrow> nat option" where
  "digits_val n [] = Some n"
| "digits_val n (c # s) = (if is_ascii_digit c then digits_val (10 * n + digit_val c) s else None)"

definition parse_unsigned :: "nat \<Rightarrow> string \<Rightarrow> nat option" where
  "parse_unsigned bound s =
     (let t = (case s of c # r \<Rightarrow> if c = CHR ''+'' then r else s | [] \<Rightarrow> s) in
      if t = [] then None
      else (case digits_val 0 t of Some n \<Rightarrow> if n < bound then Some n else None | None \<Rightarrow> None))"

text \<open>Decimal rendering (\<open>to_string\<close> of an unsigned integer).\<close>

fun show_nat :: "nat \<Rightarrow> string" where
  "show_nat n = (if n < 10 then [char_of (48 + n)] else show_nat (n div 10) @ [char_of (48 + n mod 10)])"

declare show_nat.simps [simp del]

definition show_int :: "int \<Rightarrow> string" where
  "show_int i = (if i < 0 then CHR ''-'' # show_nat (nat (- i)) else show_nat (nat i))"

text \<open>\<open>u64 as i64\<close>.\<close>

definition as_i64 :: "nat \<Rightarrow> int" where
  "as_i64 n = (let m = int n mod 2 ^ 64 in if m < 2 ^ 63 then m else m - 2 ^ 64)"

text \<open>\<open>i64 as u64\<close>.\<close>

definition as_u64 :: "int \<Rightarrow> nat" where
  "as_u64 i = nat (i mod 2 ^ 64)"

text \<open>Carriage return and line feed.\<close>

definition CR :: char where "CR = CHR 0x0D"
definition LF :: char where "LF = CHR 0x0A"
definition CRLF :: string where "CRLF = [CR, LF]"

declare starts_with_def [str_defs] split_whitespace_def [str_defs] trim_def [str_defs]
  to_lowercase_def [str_defs] to_uppercase_def [str_defs] lower_char_def [str_defs]
  upper_char_def [str_defs] is_space_def [str_defs] eq_ignore_ascii_case_def [str_defs]
  is_ascii_digit_def [str_defs] digit_val_def [str_defs] parse_unsigned_def [str_defs]
  CR_def [str_defs] LF_def [str_defs] CRLF_def [str_defs] trim_end_matches_def [str_defs]

lemma strip_prefix_Some: "strip_prefix p s = Some t \<longleftrightarrow> s = p @ t"
  by (induction p s rule: strip_prefix.induct) auto

lemma starts_with_append [simp]: "starts_with p (p @ s)"
  by (simp add: starts_with_def strip_prefix_Some)

lemma split_on_not_Nil [simp]: "split_on d s \<noteq> []"
  by (cases s) (auto split: list.splits)

lemma split_on_append: "d \<notin> set s \<Longrightarrow> split_on d (s @ d # t) = s # split_on d t"
  by (induction s) auto

lemma rsplit_once_Some: "rsplit_once d s = Some (a, b) \<Longrightarrow> s = a @ d # b \<and> d \<notin> set b"
proof (induction d s arbitrary: a b rule: rsplit_once.induct)
  case (1 d)
  then show ?case by simp
next
  case (2 d c s)
  show ?case
  proof (cases "rsplit_once d s")
    case None
    have "rsplit_once d s = None \<Longrightarrow> d \<notin> set s"
      by (induction s) (auto split: option.splits if_splits)
    with None 2 show ?thesis by (auto split: if_splits)
  next
    case (Some p)
    then obtain a' b' where "rsplit_once d s = Some (a', b')" by (cases p) auto
    with 2 show ?thesis by auto
  qed
qed

lemma rsplit_once_None: "rsplit_once d s = None \<longleftrightarrow> d \<notin> set s"
  by (induction s) (auto split: option.splits)

lemma to_lowercase_idem [simp]: "to_lowercase (to_lowercase s) = to_lowercase s"
  by (auto simp: to_lowercase_def lower_char_def Let_def)

lemma length_to_lowercase [simp]: "length (to_lowercase s) = length s"
  by (simp add: to_lowercase_def)

section \<open>Ordered maps\<close>

text \<open>A \<open>BTreeMap\<close> is the association list of its entries in increasing key order.\<close>

type_synonym ('k, 'v) btree = "('k \<times> 'v) list"

fun bt_insert :: "'k::linorder \<Rightarrow> 'v \<Rightarrow> ('k, 'v) btree \<Rightarrow> ('k, 'v) btree" where
  "bt_insert k v [] = [(k, v)]"
| "bt_insert k v ((k', v') # m) =
     (if k < k' then (k, v) # (k', v') # m
      else if k = k' then (k, v) # m
      else (k', v') # bt_insert k v m)"

definition bt_wf :: "('k::linorder, 'v) btree \<Rightarrow> bool" where
  "bt_wf m \<longleftrightarrow> sorted_wrt (<) (map fst m)"

definition bt_remove :: "'k::linorder \<Rightarrow> ('k, 'v) btree \<Rightarrow> ('k, 'v) btree" where
  "bt_remove k m = filter (\<lambda>(k', _). k' \<noteq> k) m"

definition bt_contains :: "'k \<Rightarrow> ('k, 'v) btree \<Rightarrow> bool" where
  "bt_contains k m \<longleftrightarrow> k \<in> fst ` set m"

lemma bt_insert_keys [simp]: "fst ` set (bt_insert k v m) = insert k (fst ` set m)"
  by (induction k v m rule: bt_insert.induct) (auto simp: image_iff)

lemma bt_lookup_insert: "bt_wf m \<Longrightarrow> map_of (bt_insert k v m) = (map_of m)(k \<mapsto> v)"
  by (induction k v m rule: bt_insert.induct) (auto simp: bt_wf_def fun_upd_twist)

lemma bt_wf_insert: "bt_wf m \<Longrightarrow> bt_wf (bt_insert k v m)"
proof (induction k v m rule: bt_insert.induct)
  case (2 k v k' v' m)
  have "fst ` set (bt_insert k v m) = insert k (fst ` set m)" by simp
  then have keys: "set (map fst (bt_insert k v m)) = insert k (set (map fst m))" by simp
  show ?case using 2 keys by (auto simp: bt_wf_def)
qed (simp add: bt_wf_def)

lemma bt_wf_Nil [simp]: "bt_wf []"
  by (simp add: bt_wf_def)

lemma bt_wf_distinct: "bt_wf m \<Longrightarrow> distinct (map fst m)"
  unfolding bt_wf_def using strict_sorted_iff by blast

lemma bt_contains_lookup: "bt_contains k m \<longleftrightarrow> map_of m k \<noteq> None"
  unfolding bt_contains_def by (auto simp: map_of_eq_None_iff)

lemma map_of_bt_remove: "map_of (bt_remove k m) = (map_of m)(k := None)"
  unfolding bt_remove_def by (induction m) auto

section \<open>Relational statements\<close>

text \<open>A table is the list of its rows in \<open>rowid\<close> order.\<close>

definition sql_select :: "('r \<Rightarrow> bool) \<Rightarrow> 'r list \<Rightarrow> 'r option" where
  "sql_select p rows = find p rows"

definition sql_update :: "('r \<Rightarrow> bool) \<Rightarrow> ('r \<Rightarrow> 'r) \<Rightarrow> 'r list \<Rightarrow> 'r list" where
  "sql_update p f rows = map (\<lambda>r. if p r then f r else r) rows"

definition sql_delete :: "('r \<Rightarrow> bool) \<Rightarrow> 'r list \<Rightarrow> 'r list" where
  "sql_delete p rows = filter (\<lambda>r. \<not> p r) rows"

definition sql_count :: "('r \<Rightarrow> bool) \<Rightarrow> 'r list \<Rightarrow> nat" where
  "sql_count p rows = length (filter p rows)"

text \<open>\<open>None\<close> when a row with the same value of the unique key is present.\<close>

definition sql_insert :: "('r \<Rightarrow> 'k) \<Rightarrow> 'r \<Rightarrow> 'r list \<Rightarrow> 'r list option" where
  "sql_insert key r rows = (if key r \<in> key ` set rows then None else Some (rows @ [r]))"

text \<open>\<open>ORDER BY key DESC\<close>, ties in \<open>rowid\<close> order.\<close>

definition order_desc :: "('r \<Rightarrow> int) \<Rightarrow> 'r list \<Rightarrow> 'r list" where
  "order_desc key rows = rev (sort_key key (rev rows))"

definition keys_unique :: "('r \<Rightarrow> 'k) \<Rightarrow> 'r list \<Rightarrow> bool" where
  "keys_unique key rows \<longleftrightarrow> distinct (map key rows)"

lemma set_order_desc [simp]: "set (order_desc key rows) = set rows"
  by (simp add: order_desc_def)

lemma set_sql_update [tbl_simps]: "set (sql_update p f rows) = (\<lambda>r. if p r then f r else r) ` set rows"
  by (simp add: sql_update_def)

lemma sql_updateE:
  assumes "x \<in> set (sql_update p f rows)"
  obtains s where "s \<in> set rows" "p s" "x = f s" | "x \<in> set rows" "\<not> p x"
proof -
  obtain s where s: "s \<in> set rows" "x = (if p s then f s else s)" using assms by (auto simp: sql_update_def)
  then show thesis using that by (cases "p s") auto
qed

lemma set_sql_delete [tbl_simps]: "set (sql_delete p rows) = {r \<in> set rows. \<not> p r}"
  by (auto simp: sql_delete_def)

lemma set_sql_insert: "sql_insert key r rows = Some rows' \<Longrightarrow> set rows' = insert r (set rows)"
  by (auto simp: sql_insert_def split: if_splits)

lemma sql_select_Some: "sql_select p rows = Some r \<Longrightarrow> r \<in> set rows \<and> p r"
  unfolding sql_select_def by (induction rows) (auto split: if_splits)

lemma sql_select_None: "sql_select p rows = None \<longleftrightarrow> (\<forall>r \<in> set rows. \<not> p r)"
  unfolding sql_select_def by (auto simp: find_None_iff)

lemma length_sql_update [simp]: "length (sql_update p f rows) = length rows"
  by (simp add: sql_update_def)

lemma map_key_update: "(\<And>r. key (f r) = key r) \<Longrightarrow> map key (sql_update p f rows) = map key rows"
  by (simp add: sql_update_def)

lemma keys_unique_update:
  "(\<And>r. key (f r) = key r) \<Longrightarrow> keys_unique key rows \<Longrightarrow> keys_unique key (sql_update p f rows)"
  by (simp add: keys_unique_def map_key_update)

lemma keys_unique_delete: "keys_unique key rows \<Longrightarrow> keys_unique key (sql_delete p rows)"
  unfolding keys_unique_def sql_delete_def by (simp add: distinct_map_filter)

lemma keys_unique_insert:
  "sql_insert key r rows = Some rows' \<Longrightarrow> keys_unique key rows \<Longrightarrow> keys_unique key rows'"
  by (auto simp: keys_unique_def sql_insert_def split: if_splits)

lemma keys_unique_eq:
  "keys_unique key rows \<Longrightarrow> r \<in> set rows \<Longrightarrow> s \<in> set rows \<Longrightarrow> key r = key s \<Longrightarrow> r = s"
  unfolding keys_unique_def by (auto simp: distinct_map inj_on_def)

lemma sql_select_key:
  assumes "keys_unique key rows" "r \<in> set rows"
  shows "sql_select (\<lambda>s. key s = key r) rows = Some r"
proof -
  have "sql_select (\<lambda>s. key s = key r) rows \<noteq> None"
    using assms(2) by (auto simp: sql_select_None)
  then obtain s where s: "sql_select (\<lambda>s. key s = key r) rows = Some s" by blast
  then have "s \<in> set rows" "key s = key r" using sql_select_Some[OF s] by simp_all
  then have "s = r" using keys_unique_eq[OF assms(1)] assms(2) by metis
  with s show ?thesis by simp
qed

lemmas keys_unique_intros = keys_unique_update keys_unique_delete keys_unique_insert

end
