(* ===== verification/Json.thy ===== *)
theory Json
  imports Prelude
begin

text \<open>
  JSON values (\<open>serde_json::Value\<close>). An object is a \<open>BTreeMap\<close> from keys to values:
  the crate is built without \<open>preserve_order\<close>. Numbers are the integers, the only
  numbers the modelled code produces or inspects.
\<close>

datatype json =
    JNull
  | JBool bool
  | JNum int
  | JStr string
  | JArr "json list"
  | JObj "(string, json) btree"

fun json_wf :: "json \<Rightarrow> bool" where
  "json_wf (JArr xs) = list_all json_wf xs"
| "json_wf (JObj m) = (bt_wf m \<and> list_all (\<lambda>kv. json_wf (snd kv)) m)"
| "json_wf _ = True"

text \<open>\<open>value[key] = v\<close> on an object value; the sources index only objects.\<close>

fun json_set :: "string \<Rightarrow> json \<Rightarrow> json \<Rightarrow> json" where
  "json_set k v (JObj m) = JObj (bt_insert k v m)"
| "json_set k v j = j"

text \<open>\<open>json!({...})\<close> with string keys.\<close>

definition json_obj :: "(string \<times> json) list \<Rightarrow> json" where
  "json_obj kvs = JObj (fold (\<lambda>(k, v) m. bt_insert k v m) kvs [])"

fun json_get :: "json \<Rightarrow> string \<Rightarrow> json option" where
  "json_get (JObj m) k = map_of m k"
| "json_get _ k = None"

lemma bt_wf_fold_insert: "bt_wf m \<Longrightarrow> bt_wf (fold (\<lambda>(k, v) m. bt_insert k v m) kvs m)"
  by (induction kvs arbitrary: m) (auto simp: bt_wf_insert)

lemma set_bt_insert: "set (bt_insert k v m) \<subseteq> insert (k, v) (set m)"
  by (induction k v m rule: bt_insert.induct) auto

lemma json_wf_set: "json_wf v \<Longrightarrow> json_wf j \<Longrightarrow> json_wf (json_set k v j)"
  using set_bt_insert by (cases j) (fastforce simp: bt_wf_insert list_all_iff)+

text \<open>Objects the code builds key by key.\<close>

definition obj_wf :: "json \<Rightarrow> bool" where
  "obj_wf j \<longleftrightarrow> (\<exists>m. j = JObj m \<and> bt_wf m)"

lemma obj_wf_set [simp]: "obj_wf j \<Longrightarrow> obj_wf (json_set k v j)"
  by (auto simp: obj_wf_def bt_wf_insert)

lemma obj_wf_obj [simp]: "obj_wf (json_obj kvs)"
  by (simp add: obj_wf_def json_obj_def bt_wf_fold_insert)

lemma json_get_set [simp]: "obj_wf j \<Longrightarrow> json_get (json_set k v j) k' = (if k' = k then Some v else json_get j k')"
  by (auto simp: obj_wf_def bt_lookup_insert)

lemma json_get_obj1: "json_get (json_obj [(k, v)]) k' = (if k' = k then Some v else None)"
  by (simp add: json_obj_def)

end
