(* ===== verification/Jmap_Envelope.thy ===== *)
theory Jmap_Envelope
  imports Json
begin

text \<open>
  \<open>crates/jmap-core/src/envelope.rs\<close>: the wire types of a JMAP request and response and
  the two error types, request-level and method-level, with their renderings.
\<close>

datatype invocation = Invocation (name: string) (arguments: json) (call_id: string)

record request =
  req_using :: "string list"
  method_calls :: "invocation list"
  req_created_ids :: "(string, string) btree option"

record response =
  method_responses :: "invocation list"
  resp_created_ids :: "(string, string) btree option"
  resp_session_state :: string

datatype request_error =
    UnknownCapability string
  | NotRequest
  | Limit string

fun urn :: "request_error \<Rightarrow> string" where
  "urn (UnknownCapability _) = ''urn:ietf:params:jmap:error:unknownCapability''"
| "urn NotRequest = ''urn:ietf:params:jmap:error:notRequest''"
| "urn (Limit _) = ''urn:ietf:params:jmap:error:limit''"

fun request_error_display :: "request_error \<Rightarrow> string" where
  "request_error_display (UnknownCapability c) = ''unknown capability: '' @ c"
| "request_error_display NotRequest = ''the request did not parse as a valid JMAP request''"
| "request_error_display (Limit l) = ''request exceeds a server limit: '' @ l"

definition problem_details :: "request_error \<Rightarrow> json" where
  "problem_details e =
     (let details = json_obj [(''type'', JStr (urn e)), (''status'', JNum 400),
                              (''detail'', JStr (request_error_display e))]
      in (case e of Limit l \<Rightarrow> json_set ''limit'' (JStr l) details | _ \<Rightarrow> details))"

datatype method_error =
    UnknownMethod
  | InvalidArguments string
  | InvalidResultReference string
  | Forbidden
  | AccountNotFound
  | AccountNotSupportedByMethod
  | AccountReadOnly
  | CannotCalculateChanges
  | StateMismatch
  | ServerFail string

fun type_name :: "method_error \<Rightarrow> string" where
  "type_name UnknownMethod = ''unknownMethod''"
| "type_name (InvalidArguments _) = ''invalidArguments''"
| "type_name (InvalidResultReference _) = ''invalidResultReference''"
| "type_name Forbidden = ''forbidden''"
| "type_name AccountNotFound = ''accountNotFound''"
| "type_name AccountNotSupportedByMethod = ''accountNotSupportedByMethod''"
| "type_name AccountReadOnly = ''accountReadOnly''"
| "type_name CannotCalculateChanges = ''cannotCalculateChanges''"
| "type_name StateMismatch = ''stateMismatch''"
| "type_name (ServerFail _) = ''serverFail''"

fun method_error_display :: "method_error \<Rightarrow> string" where
  "method_error_display UnknownMethod = ''unknown method''"
| "method_error_display (InvalidArguments m) = ''invalid arguments: '' @ m"
| "method_error_display (InvalidResultReference m) = ''invalid result reference: '' @ m"
| "method_error_display Forbidden = ''forbidden''"
| "method_error_display AccountNotFound = ''account not found''"
| "method_error_display AccountNotSupportedByMethod = ''account does not support this method''"
| "method_error_display AccountReadOnly = ''account is read-only''"
| "method_error_display CannotCalculateChanges = ''cannot calculate changes from the given state''"
| "method_error_display StateMismatch = ''requested state does not match current state''"
| "method_error_display (ServerFail m) = ''server failure: '' @ m"

text \<open>\<open>MethodError::invocation\<close>: only three kinds carry a description.\<close>

fun has_description :: "method_error \<Rightarrow> bool" where
  "has_description (InvalidArguments _) = True"
| "has_description (InvalidResultReference _) = True"
| "has_description (ServerFail _) = True"
| "has_description _ = False"

definition error_invocation :: "method_error \<Rightarrow> string \<Rightarrow> invocation" where
  "error_invocation e cid =
     (let args = json_obj [(''type'', JStr (type_name e))];
          description = method_error_display e
      in Invocation ''error''
           (if has_description e then json_set ''description'' (JStr description) args else args)
           cid)"

lemma error_invocation_simps [simp]:
  "name (error_invocation e cid) = ''error''"
  "call_id (error_invocation e cid) = cid"
  by (simp_all add: error_invocation_def Let_def)

lemma error_invocation_type:
  "json_get (arguments (error_invocation e cid)) ''type'' = Some (JStr (type_name e))"
  by (cases e) (simp_all add: error_invocation_def json_obj_def less_list_code less_char_def)

end
