(* ===== verification/Jmap_Refs.thy ===== *)
theory Jmap_Refs
  imports Jmap_Envelope
begin

text \<open>
  \<open>crates/jmap-core/src/refs.rs\<close>: result references. An argument \<open>#key\<close> holding
  \<open>{resultOf, name, path}\<close> is replaced by the value found at \<open>path\<close> in an earlier
  response. The text of a deserialisation error comes from \<open>serde_json\<close>; it is the
  parameter \<open>serde_msg\<close>. A panic of the source (\<open>expect\<close>) is the value \<^term>\<open>None\<close>.
\<close>

section \<open>Definitions\<close>

record result_reference =
  result_of :: string
  ref_name :: string
  ref_path :: string

text \<open>The derived \<open>Deserialize\<close> with \<open>rename_all = "camelCase"\<close> and
  \<open>deny_unknown_fields\<close>: an object with exactly the three string fields, or the array of
  the three strings in field order.\<close>

fun reference_from_value :: "json \<Rightarrow> result_reference option" where
  "reference_from_value (JObj m) =
     (if list_all (\<lambda>kv. fst kv \<in> {''resultOf'', ''name'', ''path''}) m then
        (case (map_of m ''resultOf'', map_of m ''name'', map_of m ''path'') of
           (Some (JStr r), Some (JStr n), Some (JStr p)) \<Rightarrow>
             Some \<lparr>result_of = r, ref_name = n, ref_path = p\<rparr>
         | _ \<Rightarrow> None)
      else None)"
| "reference_from_value (JArr [JStr r, JStr n, JStr p]) =
     Some \<lparr>result_of = r, ref_name = n, ref_path = p\<rparr>"
| "reference_from_value _ = None"

text \<open>\<open>token.replace("ab", "c")\<close> for a two-character pattern.\<close>

fun replace2 :: "char \<Rightarrow> char \<Rightarrow> char \<Rightarrow> string \<Rightarrow> string" where
  "replace2 a b c (x # y # s) = (if x = a \<and> y = b then c # replace2 a b c s else x # replace2 a b c (y # s))"
| "replace2 a b c s = s"

definition unescape_token :: "string \<Rightarrow> string" where
  "unescape_token t = replace2 (CHR ''~'') (CHR ''0'') (CHR ''~'') (replace2 (CHR ''~'') (CHR ''1'') (CHR ''/'') t)"

text \<open>The loop that applies the rest of the path to every element and flattens one level.\<close>

fun flatten_loop :: "(json \<Rightarrow> json option) \<Rightarrow> json list \<Rightarrow> json list \<Rightarrow> json option" where
  "flatten_loop f [] flattened = Some (JArr flattened)"
| "flatten_loop f (item # items) flattened =
     (case f item of
        None \<Rightarrow> None
      | Some (JArr inner) \<Rightarrow> flatten_loop f items (flattened @ inner)
      | Some other \<Rightarrow> flatten_loop f items (flattened @ [other]))"

primrec eval_tokens :: "string list \<Rightarrow> json \<Rightarrow> json option" where
  "eval_tokens [] = (\<lambda>value. Some value)"
| "eval_tokens (t # rest) = (\<lambda>value.
     let token = unescape_token t in
     case value of
       JArr items \<Rightarrow>
         if token = ''*'' then flatten_loop (eval_tokens rest) items []
         else (case parse_unsigned (2 ^ 64) token of
                 None \<Rightarrow> None
               | Some index \<Rightarrow> if index < length items then eval_tokens rest (items ! index) else None)
     | JObj m \<Rightarrow>
         if token = ''*'' then flatten_loop (eval_tokens rest) (map snd m) []
         else (case map_of m token of None \<Rightarrow> None | Some item \<Rightarrow> eval_tokens rest item)
     | _ \<Rightarrow> None)"

definition eval_path :: "json \<Rightarrow> string \<Rightarrow> json option" where
  "eval_path value path =
     (let path = (case strip_prefix ''/'' path of Some p \<Rightarrow> p | None \<Rightarrow> path)
      in eval_tokens (split_on (CHR ''/'') path) value)"

text \<open>One iteration of the first loop of \<open>resolve_references\<close>, after the clash check.\<close>

definition resolve_one :: "(json \<Rightarrow> string) \<Rightarrow> invocation list \<Rightarrow> json \<Rightarrow> (method_error, json) result" where
  "resolve_one serde_msg prior value =
     (case reference_from_value value of
        None \<Rightarrow> Inl (InvalidResultReference (serde_msg value))
      | Some reference \<Rightarrow>
          (case find (\<lambda>inv. call_id inv = result_of reference \<and> name inv = ref_name reference) prior of
             None \<Rightarrow> Inl (InvalidResultReference
               (''no prior response '' @ ref_name reference @ '' with callId '' @ result_of reference))
           | Some source \<Rightarrow>
               (case eval_path (arguments source) (ref_path reference) of
                  None \<Rightarrow> Inl (InvalidResultReference (''path '' @ ref_path reference @ '' not found''))
                | Some extracted \<Rightarrow> Inr extracted)))"

fun resolve_loop :: "(json \<Rightarrow> string) \<Rightarrow> invocation list \<Rightarrow> (string, json) btree \<Rightarrow>
    (string \<times> json) list \<Rightarrow> (string, json) btree \<Rightarrow> (method_error, (string, json) btree) result" where
  "resolve_loop serde_msg prior m [] resolved = Inr resolved"
| "resolve_loop serde_msg prior m ((key, value) # entries) resolved =
     (case strip_prefix ''#'' key of
        None \<Rightarrow> resolve_loop serde_msg prior m entries resolved
      | Some plain_key \<Rightarrow>
          if bt_contains plain_key m
          then Inl (InvalidArguments (''both '' @ key @ '' and '' @ plain_key @ '' present''))
          else (case resolve_one serde_msg prior value of
                  Inl e \<Rightarrow> Inl e
                | Inr extracted \<Rightarrow>
                    resolve_loop serde_msg prior m entries (bt_insert plain_key extracted resolved)))"

text \<open>The second loop; \<^term>\<open>None\<close> is the panic of \<open>expect("resolved above for every # key")\<close>.\<close>

fun assemble_loop :: "(string \<times> json) list \<Rightarrow> (string, json) btree \<Rightarrow> (string, json) btree \<Rightarrow>
    (string, json) btree option" where
  "assemble_loop [] resolved out = Some out"
| "assemble_loop ((key, value) # entries) resolved out =
     (case strip_prefix ''#'' key of
        Some plain_key \<Rightarrow>
          (case map_of resolved plain_key of
             None \<Rightarrow> None
           | Some v \<Rightarrow> assemble_loop entries (bt_remove plain_key resolved) (bt_insert plain_key v out))
      | None \<Rightarrow> assemble_loop entries resolved (bt_insert key value out))"

definition resolve_references ::
    "(json \<Rightarrow> string) \<Rightarrow> json \<Rightarrow> invocation list \<Rightarrow> (method_error, json) result option" where
  "resolve_references serde_msg args prior =
     (case args of
        JObj m \<Rightarrow>
          (case resolve_loop serde_msg prior m m [] of
             Inl e \<Rightarrow> Some (Inl e)
           | Inr resolved \<Rightarrow> map_option (\<lambda>out. Inr (JObj out)) (assemble_loop m resolved []))
      | _ \<Rightarrow> Some (Inl (InvalidArguments ''arguments must be an object'')))"

section \<open>Paths\<close>

text \<open>The RFC 6901 view: escaping of a reference token, and evaluation by single steps. An array index is \<open>0\<close> or a
  string of digits that does not start with \<open>0\<close>.\<close>

definition escape_token :: "string \<Rightarrow> string" where
  "escape_token k = concat (map (\<lambda>c. if c = CHR ''~'' then ''~0'' else if c = CHR ''/'' then ''~1'' else [c]) k)"

definition pointer :: "string list \<Rightarrow> string" where
  "pointer ks = concat (map (\<lambda>k. CHR ''/'' # escape_token k) ks)"

definition rfc_index :: "string \<Rightarrow> bool" where
  "rfc_index k \<longleftrightarrow> k = ''0'' \<or> (k \<noteq> [] \<and> hd k \<noteq> CHR ''0'' \<and> list_all is_ascii_digit k)"

definition decimal :: "string \<Rightarrow> nat" where
  "decimal k = foldl (\<lambda>n c. 10 * n + digit_val c) 0 k"

text \<open>No array has \<open>2 ^ 64\<close> elements.\<close>

fun child :: "json \<Rightarrow> string \<Rightarrow> json option" where
  "child (JObj m) k = map_of m k"
| "child (JArr items) k =
     (if rfc_index k \<and> decimal k < length items \<and> decimal k < 2 ^ 64 then Some (items ! decimal k) else None)"
| "child _ k = None"

fun walk :: "json \<Rightarrow> string list \<Rightarrow> json option" where
  "walk v [] = Some v"
| "walk v (k # ks) = (case child v k of None \<Rightarrow> None | Some w \<Rightarrow> walk w ks)"

text \<open>What \<open>usize::from_str\<close> reads beyond that: leading zeros and a plus sign.\<close>

definition lax_index :: "string \<Rightarrow> bool" where
  "lax_index k \<longleftrightarrow> parse_unsigned (2 ^ 64) k \<noteq> None \<and> \<not> rfc_index k"

lemma digits_val_foldl:
  "digits_val n s = (if list_all is_ascii_digit s then Some (foldl (\<lambda>n c. 10 * n + digit_val c) n s) else None)"
  by (induction s arbitrary: n) auto

lemma parse_rfc_index: "rfc_index k \<Longrightarrow> parse_unsigned b k = (if decimal k < b then Some (decimal k) else None)"
proof -
  assume k: "rfc_index k"
  then obtain c r where c: "k = c # r" "list_all is_ascii_digit k" unfolding rfc_index_def by (cases k) (auto simp: is_ascii_digit_def)
  then have "c \<noteq> CHR ''+''" by (auto simp: is_ascii_digit_def)
  with c show ?thesis by (simp add: parse_unsigned_def digits_val_foldl decimal_def)
qed

lemma replace2_single: "x \<noteq> a \<Longrightarrow> replace2 a b c (x # s) = x # replace2 a b c s"
  by (cases s) auto

lemma unescape_escape: "unescape_token (escape_token k) = k"
proof -
  define esc0 where "esc0 k = concat (map (\<lambda>c. if c = CHR ''~'' then ''~0'' else [c]) k)" for k :: string
  have "replace2 (CHR ''~'') (CHR ''1'') (CHR ''/'') (escape_token k) = esc0 k"
    by (induction k) (auto simp: escape_token_def esc0_def replace2_single)
  moreover have "replace2 (CHR ''~'') (CHR ''0'') (CHR ''~'') (esc0 k) = k"
    by (induction k) (auto simp: esc0_def replace2_single)
  ultimately show ?thesis by (simp add: unescape_token_def)
qed

lemma slash_notin_escape: "CHR ''/'' \<notin> set (escape_token k)"
  by (auto simp: escape_token_def split: if_splits)

lemma split_on_single: "d \<notin> set s \<Longrightarrow> split_on d s = [s]"
  by (induction s) auto

lemma split_on_pointer:
  "split_on (CHR ''/'') (escape_token k @ pointer ks) = map escape_token (k # ks)"
proof (induction ks arbitrary: k)
  case Nil
  then show ?case by (simp add: pointer_def split_on_single slash_notin_escape)
next
  case (Cons k' ks)
  then show ?case
    by (simp add: pointer_def split_on_append slash_notin_escape)
qed

lemma eval_tokens_walk:
  "''*'' \<notin> set ks \<Longrightarrow> eval_tokens (map escape_token ks) v = walk v ks \<or> (walk v ks = None \<and> (\<exists>k \<in> set ks. lax_index k))"
proof (induction ks arbitrary: v)
  case (Cons k ks)
  then have IH: "eval_tokens (map escape_token ks) w = walk w ks \<or> (walk w ks = None \<and> (\<exists>k \<in> set ks. lax_index k))" for w by auto
  have star: "k \<noteq> ''*''" using Cons.prems by auto
  show ?case
  proof (cases v)
    case (JArr items)
    show ?thesis
    proof (cases "rfc_index k")
      case True
      with JArr star IH show ?thesis by (auto simp: unescape_escape parse_rfc_index Let_def)
    next
      case False
      then have w: "walk v (k # ks) = None" using JArr by simp
      show ?thesis
      proof (cases "lax_index k")
        case True
        with w show ?thesis by (intro disjI2) simp
      next
        case no: False
        with False have "parse_unsigned (2 ^ 64) k = None" by (simp add: lax_index_def)
        with w JArr star show ?thesis by (simp add: unescape_escape)
      qed
    qed
  next
    case (JObj m)
    with star IH show ?thesis by (auto simp: unescape_escape Let_def split: option.splits)
  qed (simp_all add: Let_def)
qed simp

lemma eval_path_pointer_aux:
  assumes "ks \<noteq> []" "''*'' \<notin> set ks"
  shows "eval_path v (pointer ks) = walk v ks \<or> (walk v ks = None \<and> (\<exists>k \<in> set ks. lax_index k))"
proof -
  obtain k ks' where ks: "ks = k # ks'" using assms(1) by (cases ks) auto
  have "strip_prefix ''/'' (pointer ks) = Some (escape_token k @ pointer ks')"
    by (simp add: ks pointer_def)
  then have "eval_path v (pointer ks) = eval_tokens (map escape_token ks) v"
    using split_on_pointer[of k ks'] by (simp add: eval_path_def ks)
  with eval_tokens_walk[OF assms(2), of v] show ?thesis by simp
qed

definition spread :: "json \<Rightarrow> json list" where
  "spread v = (case v of JArr inner \<Rightarrow> inner | _ \<Rightarrow> [v])"

lemma flatten_loop_eq:
  "flatten_loop f items acc = map_option (\<lambda>vs. JArr (acc @ concat (map spread vs))) (those (map f items))"
proof (induction items arbitrary: acc)
  case Nil
  then show ?case by simp
next
  case (Cons item items)
  show ?case
  proof (cases "f item")
    case None
    then show ?thesis by simp
  next
    case (Some v)
    then show ?thesis
      by (cases v) (auto simp: Cons.IH spread_def option.map_comp comp_def)
  qed
qed

section \<open>Resolution\<close>

lemma strip_hash: "strip_prefix ''#'' key = Some k \<longleftrightarrow> key = CHR ''#'' # k"
  by (simp add: strip_prefix_Some)

lemma resolve_loop_ok:
  assumes "resolve_loop msg prior m es acc = Inr acc'" "distinct (map fst es)" "bt_wf acc"
  shows "bt_wf acc' \<and>
    (\<forall>k. map_of acc' k =
      (case map_of es (CHR ''#'' # k) of
         None \<Rightarrow> map_of acc k
       | Some r \<Rightarrow> (case resolve_one msg prior r of Inr v \<Rightarrow> Some v | Inl _ \<Rightarrow> None))) \<and>
    (\<forall>k r. (CHR ''#'' # k, r) \<in> set es \<longrightarrow> \<not> bt_contains k m \<and> (\<exists>v. resolve_one msg prior r = Inr v))"
  using assms
proof (induction es arbitrary: acc)
  case Nil
  then show ?case by simp
next
  case (Cons e es)
  obtain key val where e: "e = (key, val)" by (cases e)
  show ?case
  proof (cases "strip_prefix ''#'' key")
    case None
    then have nk: "\<And>k. key \<noteq> CHR ''#'' # k"
      by (metis option.distinct(1) strip_hash)
    from None Cons.prems e have "resolve_loop msg prior m es acc = Inr acc'" by simp
    from Cons.IH[OF this] Cons.prems e nk show ?thesis by auto
  next
    case (Some k0)
    then have key: "key = CHR ''#'' # k0" by (simp add: strip_hash)
    from Some Cons.prems(1) e obtain v where v: "resolve_one msg prior val = Inr v"
      and nc: "\<not> bt_contains k0 m"
      and rl: "resolve_loop msg prior m es (bt_insert k0 v acc) = Inr acc'"
      by (auto split: if_splits sum.splits)
    have fresh: "map_of es (CHR ''#'' # k0) = None"
      using Cons.prems(2) e key by (auto simp: map_of_eq_None_iff)
    have d: "distinct (map fst es)" using Cons.prems(2) by simp
    from Cons.IH[OF rl d bt_wf_insert[OF Cons.prems(3)]]
    show ?thesis using e key v nc fresh
      by (auto simp: bt_lookup_insert[OF Cons.prems(3)] split: option.splits)
  qed
qed

definition hashed :: "string \<Rightarrow> bool" where
  "hashed k \<longleftrightarrow> strip_prefix ''#'' k \<noteq> None"

lemma hashed_Cons [simp]: "hashed (CHR ''#'' # k)"
  by (simp add: hashed_def)

lemma assemble_loop_ok:
  assumes "\<forall>k r. (CHR ''#'' # k, r) \<in> set es \<longrightarrow> map_of res k \<noteq> None"
    and "distinct (map fst es)" "bt_wf out"
    and "\<forall>k r. (CHR ''#'' # k, r) \<in> set es \<longrightarrow> k \<notin> fst ` set es"
  shows "\<exists>out'. assemble_loop es res out = Some out' \<and> bt_wf out' \<and>
    (\<forall>k. map_of out' k =
      (if CHR ''#'' # k \<in> fst ` set es then map_of res k
       else if \<not> hashed k \<and> k \<in> fst ` set es then map_of es k
       else map_of out k))"
  using assms
proof (induction es arbitrary: res out)
  case Nil
  then show ?case by simp
next
  case (Cons e es)
  obtain key val where e: "e = (key, val)" by (cases e)
  show ?case
  proof (cases "strip_prefix ''#'' key")
    case None
    then have nk: "\<not> hashed key" "\<And>k. key \<noteq> CHR ''#'' # k"
      by (auto simp: hashed_def strip_hash)
    have wf: "bt_wf (bt_insert key val out)" by (rule bt_wf_insert[OF Cons.prems(3)])
    have "\<exists>out'. assemble_loop es res (bt_insert key val out) = Some out' \<and> bt_wf out' \<and>
      (\<forall>k. map_of out' k =
        (if CHR ''#'' # k \<in> fst ` set es then map_of res k
         else if \<not> hashed k \<and> k \<in> fst ` set es then map_of es k
         else map_of (bt_insert key val out) k))"
      by (rule Cons.IH) (use Cons.prems e nk wf in auto)
    with None e nk Cons.prems show ?thesis
      by (fastforce simp: bt_lookup_insert)
  next
    case (Some k0)
    then have key: "key = CHR ''#'' # k0" by (simp add: strip_hash)
    obtain v where v: "map_of res k0 = Some v" using Cons.prems(1) e key by fastforce
    have nm: "CHR ''#'' # k0 \<notin> fst ` set es" using Cons.prems(2) e key by auto
    then have nm': "\<And>r. (CHR ''#'' # k0, r) \<notin> set es" by force
    have wf: "bt_wf (bt_insert k0 v out)" by (rule bt_wf_insert[OF Cons.prems(3)])
    have k0: "k0 \<notin> fst ` set es" "k0 \<noteq> key" using Cons.prems(4) e key by auto
    have "\<exists>out'. assemble_loop es (bt_remove k0 res) (bt_insert k0 v out) = Some out' \<and> bt_wf out' \<and>
      (\<forall>k. map_of out' k =
        (if CHR ''#'' # k \<in> fst ` set es then map_of (bt_remove k0 res) k
         else if \<not> hashed k \<and> k \<in> fst ` set es then map_of es k
         else map_of (bt_insert k0 v out) k))"
      by (rule Cons.IH) (use Cons.prems e key nm' wf in \<open>auto simp: map_of_bt_remove\<close>)
    with Some e key v nm k0 Cons.prems(3) show ?thesis
      by (fastforce simp: bt_lookup_insert map_of_bt_remove)
  qed
qed

text \<open>What the handler sees under the plain name \<open>k\<close>.\<close>

definition resolved_arg :: "(json \<Rightarrow> string) \<Rightarrow> invocation list \<Rightarrow> (string, json) btree \<Rightarrow> string \<Rightarrow> json option" where
  "resolved_arg msg prior m k =
     (case map_of m (CHR ''#'' # k) of
        Some r \<Rightarrow> (case resolve_one msg prior r of Inr v \<Rightarrow> Some v | Inl _ \<Rightarrow> None)
      | None \<Rightarrow> if hashed k then None else map_of m k)"

lemma resolve_loop_then_assemble:
  assumes wf: "bt_wf m" and rl: "resolve_loop msg prior m m [] = Inr res"
  shows "\<exists>out. assemble_loop m res [] = Some out \<and> bt_wf out \<and>
    (\<forall>k. map_of out k = resolved_arg msg prior m k)"
proof -
  note d = bt_wf_distinct[OF wf]
  from resolve_loop_ok[OF rl d bt_wf_Nil]
  have look: "\<And>k. map_of res k = (case map_of m (CHR ''#'' # k) of None \<Rightarrow> None
      | Some r \<Rightarrow> (case resolve_one msg prior r of Inr v \<Rightarrow> Some v | Inl _ \<Rightarrow> None))"
    and good: "\<And>k r. (CHR ''#'' # k, r) \<in> set m \<Longrightarrow> \<not> bt_contains k m \<and> (\<exists>v. resolve_one msg prior r = Inr v)"
    by (auto split: option.splits)
  have some: "\<forall>k r. (CHR ''#'' # k, r) \<in> set m \<longrightarrow> map_of res k \<noteq> None"
    using look good d by (fastforce simp: map_of_eq_Some_iff)
  have clash: "\<forall>k r. (CHR ''#'' # k, r) \<in> set m \<longrightarrow> k \<notin> fst ` set m"
    using good by (auto simp: bt_contains_def)
  from assemble_loop_ok[OF some d bt_wf_Nil clash] obtain out where
    out: "assemble_loop m res [] = Some out" "bt_wf out"
    and lk: "\<And>k. map_of out k = (if CHR ''#'' # k \<in> fst ` set m then map_of res k
         else if \<not> hashed k \<and> k \<in> fst ` set m then map_of m k else None)" by auto
  have "map_of out k = resolved_arg msg prior m k" for k
  proof (cases "map_of m (CHR ''#'' # k)")
    case None
    then have "CHR ''#'' # k \<notin> fst ` set m" by (simp add: map_of_eq_None_iff)
    with None show ?thesis
      using map_of_eq_None_iff[of m k] by (auto simp: lk resolved_arg_def)
  next
    case (Some r)
    then have "CHR ''#'' # k \<in> fst ` set m" by (metis map_of_eq_None_iff option.distinct(1))
    with Some show ?thesis by (simp add: lk look resolved_arg_def)
  qed
  with out show ?thesis by blast
qed

section \<open>Properties\<close>

text \<open>C1. A path without wildcard is an RFC 6901 pointer. For every non-empty list of keys other than the wildcard \<open>*\<close>, the
  pointer built by escaping each key and joining with slashes evaluates to what RFC 6901 says: each key selects a member of an
  object by its name, whatever tildes and slashes it contains, or an element of an array by its decimal index. The only
  exception is that the code also takes an index written with leading zeros or a plus sign, where RFC 6901 has no value.\<close>

theorem eval_path_pointer:
  assumes "ks \<noteq> []" and "''*'' \<notin> set ks"
  shows "eval_path v (pointer ks) = walk v ks \<or> (walk v ks = None \<and> (\<exists>k \<in> set ks. lax_index k))"
  using assms by (rule eval_path_pointer_aux)

theorem eval_path_pointer_witness:
  "eval_path (JObj [(''a/b'', JArr [JNum 1, JNum 2])]) (pointer [''a/b'', ''1'']) = Some (JNum 2)"
proof -
  let ?v = "JObj [(''a/b'', JArr [JNum 1, JNum 2])]"
  have "walk ?v [''a/b'', ''1''] = Some (JNum 2)" by (simp add: rfc_index_def decimal_def str_defs)
  moreover have "eval_path ?v (pointer [''a/b'', ''1'']) = walk ?v [''a/b'', ''1''] \<or>
      (walk ?v [''a/b'', ''1''] = None \<and> (\<exists>k \<in> set [''a/b'', ''1'']. lax_index k))"
    by (rule eval_path_pointer) simp_all
  ultimately show ?thesis by simp
qed

text \<open>The key \<open>*\<close> of an object cannot be addressed, and lax indices are taken.\<close>

lemma star_key_not_addressable: "eval_path (JObj [(''*'', JNum 1)]) (pointer [''*'']) = Some (JArr [JNum 1])"
  by (simp add: eval_path_def pointer_def escape_token_def unescape_token_def)

lemma lax_index_taken: "eval_path (JArr [JNum 1, JNum 2]) ''/+01'' = Some (JNum 2)"
  by (simp add: eval_path_def unescape_token_def str_defs)

text \<open>A wildcard token applies the rest of the path to every element of an array, or to
  every value of an object in key order. It fails as soon as one element fails, and otherwise
  returns one array in which each result that is itself an array is spread by one level.\<close>

theorem eval_tokens_wildcard:
  "eval_tokens (''*'' # rest) (JArr items) =
     map_option (\<lambda>vs. JArr (concat (map spread vs))) (those (map (eval_tokens rest) items)) \<and>
   eval_tokens (''*'' # rest) (JObj m) =
     map_option (\<lambda>vs. JArr (concat (map spread vs))) (those (map (\<lambda>kv. eval_tokens rest (snd kv)) m))"
  by (simp add: unescape_token_def flatten_loop_eq Let_def comp_def)

lemma resolve_loop_fails:
  "resolve_loop msg prior m es acc = Inl e \<Longrightarrow>
    \<exists>key r. (CHR ''#'' # key, r) \<in> set es \<and>
      (bt_contains key m \<and> e = InvalidArguments (''both #'' @ key @ '' and '' @ key @ '' present'') \<or> resolve_one msg prior r = Inl e)"
  by (induction msg prior m es acc rule: resolve_loop.induct)
    (fastforce simp: strip_hash split: option.splits if_splits sum.splits)+

text \<open>The arguments that cannot be resolved: a \<open>#key\<close> beside a plain key, or a reference without a value.\<close>

definition unresolvable :: "(json \<Rightarrow> string) \<Rightarrow> invocation list \<Rightarrow> (string, json) btree \<Rightarrow> bool" where
  "unresolvable msg prior m \<longleftrightarrow> (\<exists>key r. (CHR ''#'' # key, r) \<in> set m \<and> (bt_contains key m \<or> (\<exists>e. resolve_one msg prior r = Inl e)))"

text \<open>C2. Resolution of the arguments of a call, for a well-formed object (its keys in strict order): it never panics; it
  fails exactly when some \<open>#key\<close> stands beside a plain key of that name or its reference does not resolve, and the error is that
  of such a key; and otherwise the result is a well-formed object in which each plain name \<open>k\<close> has the extracted value if \<open>#k\<close>
  was given, its own value if it was given plainly, and nothing else is present.\<close>

theorem resolve_references_spec:
  assumes "bt_wf m"
  shows "(\<exists>res. resolve_references msg (JObj m) prior = Some res) \<and>
    ((\<exists>e. resolve_references msg (JObj m) prior = Some (Inl e)) \<longleftrightarrow> unresolvable msg prior m) \<and>
    (\<forall>e. resolve_references msg (JObj m) prior = Some (Inl e) \<longrightarrow>
       (\<exists>key r. (CHR ''#'' # key, r) \<in> set m \<and>
          (bt_contains key m \<and> e = InvalidArguments (''both #'' @ key @ '' and '' @ key @ '' present'') \<or> resolve_one msg prior r = Inl e))) \<and>
    (\<forall>v. resolve_references msg (JObj m) prior = Some (Inr v) \<longrightarrow>
       (\<exists>out. v = JObj out \<and> bt_wf out \<and> (\<forall>k. map_of out k = resolved_arg msg prior m k)))"
proof (cases "resolve_loop msg prior m m []")
  case (Inl e)
  then have r: "resolve_references msg (JObj m) prior = Some (Inl e)" by (simp add: resolve_references_def)
  from resolve_loop_fails[OF Inl] obtain key r' where k: "(CHR ''#'' # key, r') \<in> set m"
    "bt_contains key m \<and> e = InvalidArguments (''both #'' @ key @ '' and '' @ key @ '' present'') \<or> resolve_one msg prior r' = Inl e" by blast
  then have "unresolvable msg prior m" unfolding unresolvable_def by blast
  with r k show ?thesis by auto
next
  case (Inr res)
  from resolve_loop_then_assemble[OF assms Inr] Inr obtain out where out: "resolve_references msg (JObj m) prior = Some (Inr (JObj out))"
    "bt_wf out" "\<forall>k. map_of out k = resolved_arg msg prior m k" by (auto simp: resolve_references_def)
  from resolve_loop_ok[OF Inr bt_wf_distinct[OF assms] bt_wf_Nil] have "\<not> unresolvable msg prior m"
    unfolding unresolvable_def by fastforce
  with out show ?thesis by simp
qed

text \<open>The ids of a query are passed on to the next call.\<close>

definition demo_prior :: "invocation list" where
  "demo_prior = [Invocation ''Email/query'' (JObj [(''ids'', JArr [JStr ''e1''])]) ''q'']"

definition demo_refs :: "string \<Rightarrow> (string, json) btree" where
  "demo_refs p = [(''#ids'', JObj [(''name'', JStr ''Email/query''), (''path'', JStr p), (''resultOf'', JStr ''q'')]), (''a'', JNull)]"

theorem resolve_references_spec_witness:
  "(\<exists>out. resolve_references (\<lambda>_. []) (JObj (demo_refs ''/ids'')) demo_prior = Some (Inr (JObj out)) \<and>
      map_of out ''ids'' = Some (JArr [JStr ''e1'']) \<and> map_of out ''a'' = Some JNull \<and> map_of out ''#ids'' = None) \<and>
   (\<exists>e. resolve_references (\<lambda>_. []) (JObj (demo_refs ''/xs'')) demo_prior = Some (Inl e))"
proof -
  have wf: "bt_wf (demo_refs p)" for p by (simp add: bt_wf_def demo_refs_def less_list_code)
  have one: "resolve_one (\<lambda>_. []) demo_prior (snd (hd (demo_refs ''/ids''))) = Inr (JArr [JStr ''e1''])"
    "isl (resolve_one (\<lambda>_. []) demo_prior (snd (hd (demo_refs ''/xs''))))" by code_simp+
  then have u: "\<not> unresolvable (\<lambda>_. []) demo_prior (demo_refs ''/ids'')" "unresolvable (\<lambda>_. []) demo_prior (demo_refs ''/xs'')"
    by (auto simp: unresolvable_def demo_refs_def bt_contains_def isl_def)
  have a: "resolved_arg (\<lambda>_. []) demo_prior (demo_refs ''/ids'') ''ids'' = Some (JArr [JStr ''e1''])"
    "resolved_arg (\<lambda>_. []) demo_prior (demo_refs ''/ids'') ''a'' = Some JNull" "resolved_arg (\<lambda>_. []) demo_prior (demo_refs ''/ids'') ''#ids'' = None"
    using one(1) by (simp_all add: resolved_arg_def demo_refs_def hashed_def str_defs)
  obtain res where res: "resolve_references (\<lambda>_. []) (JObj (demo_refs ''/ids'')) demo_prior = Some res"
    using resolve_references_spec[OF wf[of "''/ids''"], of "\<lambda>_. []" demo_prior] by blast
  with resolve_references_spec[OF wf[of "''/ids''"], of "\<lambda>_. []" demo_prior] u(1) obtain out where
    "res = Inr (JObj out)" "\<forall>k. map_of out k = resolved_arg (\<lambda>_. []) demo_prior (demo_refs ''/ids'') k" by (cases res) auto
  with res a resolve_references_spec[OF wf[of "''/xs''"], of "\<lambda>_. []" demo_prior] u(2) show ?thesis by auto
qed

end
