(* ===== verification/Jmap_Dispatcher.thy ===== *)
theory Jmap_Dispatcher
  imports Jmap_Refs
begin

text \<open>
  \<open>crates/jmap-core/src/lib.rs\<close> and \<open>session.rs\<close>: the method registry, request
  processing and the session object. A handler is a function of the world \<open>'w\<close> (the
  embedder's context with everything reachable from it) and the resolved arguments. Its run
  says how long it takes in milliseconds, how it ends (a result or a panic) and what the
  world is afterwards, and what the world is when the future is dropped by a timeout.
\<close>

section \<open>Definitions\<close>

definition CORE_CAPABILITY :: string where
  "CORE_CAPABILITY = ''urn:ietf:params:jmap:core''"

record limits =
  max_size_upload :: nat
  max_concurrent_upload :: nat
  max_size_request :: nat
  max_concurrent_requests :: nat
  max_calls_in_request :: nat
  max_objects_in_get :: nat
  max_objects_in_set :: nat
  max_call_duration :: "nat option"

definition default_limits :: limits where
  "default_limits = \<lparr>max_size_upload = 50000000, max_concurrent_upload = 4,
     max_size_request = 10000000, max_concurrent_requests = 4, max_calls_in_request = 16,
     max_objects_in_get = 500, max_objects_in_set = 500, max_call_duration = None\<rparr>"

definition core_capability :: "limits \<Rightarrow> json" where
  "core_capability l = json_obj [
     (''maxSizeUpload'', JNum (int (max_size_upload l))),
     (''maxConcurrentUpload'', JNum (int (max_concurrent_upload l))),
     (''maxSizeRequest'', JNum (int (max_size_request l))),
     (''maxConcurrentRequests'', JNum (int (max_concurrent_requests l))),
     (''maxCallsInRequest'', JNum (int (max_calls_in_request l))),
     (''maxObjectsInGet'', JNum (int (max_objects_in_get l))),
     (''maxObjectsInSet'', JNum (int (max_objects_in_set l))),
     (''collationAlgorithms'', JArr [JStr ''i;ascii-numeric'', JStr ''i;ascii-casemap'',
                                     JStr ''i;unicode-casemap''])]"

datatype panic_payload = PanicStr string | PanicString string | PanicOther

datatype handler_outcome = Returned "(method_error, json) result" | Panicked panic_payload

record 'w handler_run =
  elapsed :: nat
  run_outcome :: handler_outcome
  world_done :: 'w
  world_dropped_at :: "nat \<Rightarrow> 'w"

type_synonym 'w handler = "json \<Rightarrow> 'w \<Rightarrow> 'w handler_run"

record 'w dispatcher =
  limits :: limits
  capabilities :: "(string, json) btree"
  methods :: "string \<Rightarrow> (string \<times> 'w handler) option"
  session_state :: string

definition register :: "string \<Rightarrow> string \<Rightarrow> 'w handler \<Rightarrow> 'w dispatcher \<Rightarrow> 'w dispatcher" where
  "register method cap handler d =
     d\<lparr>capabilities := (if cap \<noteq> CORE_CAPABILITY \<and> \<not> bt_contains cap (capabilities d)
                         then bt_insert cap (JObj []) (capabilities d) else capabilities d),
       methods := (methods d)(method \<mapsto> (cap, handler))\<rparr>"

definition echo_handler :: "'w handler" where
  "echo_handler args w = \<lparr>elapsed = 0, run_outcome = Returned (Inr args), world_done = w,
                         world_dropped_at = (\<lambda>_. w)\<rparr>"

definition new_dispatcher :: "string \<Rightarrow> 'w dispatcher" where
  "new_dispatcher state =
     register ''Core/echo'' CORE_CAPABILITY echo_handler
       \<lparr>limits = default_limits,
        capabilities = bt_insert CORE_CAPABILITY (core_capability default_limits) [],
        methods = Map.empty, session_state = state\<rparr>"

definition with_limits :: "limits \<Rightarrow> 'w dispatcher \<Rightarrow> 'w dispatcher" where
  "with_limits l d = d\<lparr>capabilities := bt_insert CORE_CAPABILITY (core_capability l) (capabilities d),
                       limits := l\<rparr>"

definition set_session_state :: "string \<Rightarrow> 'w dispatcher \<Rightarrow> 'w dispatcher" where
  "set_session_state state d = d\<lparr>session_state := state\<rparr>"

definition add_capability :: "string \<Rightarrow> json \<Rightarrow> 'w dispatcher \<Rightarrow> 'w dispatcher" where
  "add_capability cap obj d = d\<lparr>capabilities := bt_insert cap obj (capabilities d)\<rparr>"

fun panic_message :: "panic_payload \<Rightarrow> string" where
  "panic_message (PanicStr s) = s"
| "panic_message (PanicString s) = s"
| "panic_message PanicOther = ''handler panicked''"

text \<open>The timeout and the panic barrier around a handler. The timeout polls the handler
  first, so a handler that is ready at the deadline still answers.\<close>

definition run_guarded :: "nat option \<Rightarrow> 'w handler_run \<Rightarrow> 'w \<times> (method_error, json) result" where
  "run_guarded limit run =
     (if (case limit of Some l \<Rightarrow> l < elapsed run | None \<Rightarrow> False)
      then (world_dropped_at run (the limit), Inl (ServerFail ''timeout''))
      else (world_done run,
            case run_outcome run of
              Returned r \<Rightarrow> r
            | Panicked p \<Rightarrow> Inl (ServerFail (panic_message p))))"

definition call :: "(json \<Rightarrow> string) \<Rightarrow> 'w dispatcher \<Rightarrow> string \<Rightarrow> json \<Rightarrow> invocation list \<Rightarrow>
    string list \<Rightarrow> 'w \<Rightarrow> ('w \<times> (method_error, json) result) option" where
  "call serde_msg d nm args prior us w =
     (case methods d nm of
        None \<Rightarrow> Some (w, Inl UnknownMethod)
      | Some (capability, handler) \<Rightarrow>
          if capability \<noteq> CORE_CAPABILITY \<and> capability \<notin> set us
          then Some (w, Inl UnknownMethod)
          else (case resolve_references serde_msg args prior of
                  None \<Rightarrow> None
                | Some (Inl e) \<Rightarrow> Some (w, Inl e)
                | Some (Inr resolved) \<Rightarrow>
                    Some (run_guarded (max_call_duration (limits d)) (handler resolved w))))"

text \<open>The loop over \<open>using\<close>, with the set of capabilities already seen.\<close>

fun check_using :: "(string, json) btree \<Rightarrow> string list \<Rightarrow> string list \<Rightarrow> request_error option" where
  "check_using caps seen [] = None"
| "check_using caps seen (c # cs) =
     (if c \<in> set seen then Some NotRequest
      else if \<not> bt_contains c caps then Some (UnknownCapability c)
      else check_using caps (c # seen) cs)"

fun run_calls :: "(json \<Rightarrow> string) \<Rightarrow> 'w dispatcher \<Rightarrow> string list \<Rightarrow> invocation list \<Rightarrow>
    invocation list \<Rightarrow> 'w \<Rightarrow> ('w \<times> invocation list) option" where
  "run_calls serde_msg d us [] responses w = Some (w, responses)"
| "run_calls serde_msg d us (Invocation nm args cid # calls) responses w =
     (case call serde_msg d nm args responses us w of
        None \<Rightarrow> None
      | Some (w', Inr result) \<Rightarrow>
          run_calls serde_msg d us calls (responses @ [Invocation nm result cid]) w'
      | Some (w', Inl err) \<Rightarrow>
          run_calls serde_msg d us calls (responses @ [error_invocation err cid]) w')"

definition process :: "(json \<Rightarrow> string) \<Rightarrow> 'w dispatcher \<Rightarrow> request \<Rightarrow> 'w \<Rightarrow>
    ('w \<times> (request_error, response) result) option" where
  "process serde_msg d req w =
     (if req_using req = [] then Some (w, Inl NotRequest)
      else (case check_using (capabilities d) [] (req_using req) of
              Some e \<Rightarrow> Some (w, Inl e)
            | None \<Rightarrow>
                if length (method_calls req) > max_calls_in_request (limits d)
                then Some (w, Inl (Limit ''maxCallsInRequest''))
                else (case run_calls serde_msg d (req_using req) (method_calls req) [] w of
                        None \<Rightarrow> None
                      | Some (w', responses) \<Rightarrow>
                          Some (w', Inr \<lparr>method_responses = responses,
                                         resp_created_ids = req_created_ids req,
                                         resp_session_state = session_state d\<rparr>))))"

record session_account =
  acct_name :: string
  is_personal :: bool
  is_read_only :: bool
  account_capabilities :: "(string, json) btree"

record session =
  s_capabilities :: "(string, json) btree"
  s_accounts :: "(string, session_account) btree"
  primary_accounts :: "(string, string) btree"
  username :: string
  api_url :: string
  download_url :: string
  upload_url :: string
  event_source_url :: string
  s_state :: string

definition for_account :: "string \<Rightarrow> string \<Rightarrow> string \<Rightarrow> (string, json) btree \<Rightarrow> string \<Rightarrow> session" where
  "for_account base_url user account_id caps state =
     (let base = trim_end_matches (CHR ''/'') base_url;
          acct_caps = map (\<lambda>(u, _). (u, JObj [])) (filter (\<lambda>(u, _). u \<noteq> CORE_CAPABILITY) caps);
          primary = map (\<lambda>(u, _). (u, account_id)) acct_caps
      in \<lparr>s_capabilities = caps,
          s_accounts = bt_insert account_id
            \<lparr>acct_name = user, is_personal = True, is_read_only = False,
             account_capabilities = acct_caps\<rparr> [],
          primary_accounts = primary,
          username = user,
          api_url = base @ ''/jmap/api'',
          download_url = base @ ''/jmap/download/{accountId}/{blobId}/{name}?type={type}'',
          upload_url = base @ ''/jmap/upload/{accountId}'',
          event_source_url = base @ ''/jmap/eventsource?types={types}&closeafter={closeafter}&ping={ping}'',
          s_state = state\<rparr>)"

section \<open>Processing\<close>

fun args_wf :: "json \<Rightarrow> bool" where
  "args_wf (JObj m) = bt_wf m"
| "args_wf _ = True"

lemma resolve_references_total: "args_wf args \<Longrightarrow> resolve_references msg args prior \<noteq> None"
  using resolve_loop_then_assemble
  by (cases args) (force simp: resolve_references_def split: sum.splits)+

lemma call_total: "args_wf args \<Longrightarrow> call msg d nm args prior us w \<noteq> None"
  using resolve_references_total[of args msg prior]
  by (auto simp: call_def split: option.splits sum.splits)

lemma run_calls_total:
  "list_all (\<lambda>c. args_wf (arguments c)) calls \<Longrightarrow> run_calls msg d us calls rs w \<noteq> None"
proof (induction calls arbitrary: rs w)
  case (Cons c calls)
  obtain nm args cid where c: "c = Invocation nm args cid" by (cases c)
  from Cons.prems c call_total obtain w' r where "call msg d nm args rs us w = Some (w', r)"
    by fastforce
  with Cons c show ?case by (cases r) auto
qed simp

text \<open>How one response relates to its call.\<close>

definition answers :: "invocation \<Rightarrow> invocation \<Rightarrow> bool" where
  "answers c r \<longleftrightarrow> call_id r = call_id c \<and> (name r = name c \<or> name r = ''error'')"

lemma run_calls_answers:
  assumes "run_calls msg d us calls rs w = Some (w', rs')"
  shows "\<exists>new. rs' = rs @ new \<and> list_all2 answers calls new"
  using assms
proof (induction calls arbitrary: rs w)
  case (Cons c calls)
  obtain nm args cid where c: "c = Invocation nm args cid" by (cases c)
  from Cons.prems c obtain w1 r where r: "call msg d nm args rs us w = Some (w1, r)"
    by (auto split: option.splits)
  define resp where "resp = (case r of Inr v \<Rightarrow> Invocation nm v cid | Inl e \<Rightarrow> error_invocation e cid)"
  from Cons.prems c r have "run_calls msg d us calls (rs @ [resp]) w1 = Some (w', rs')"
    by (auto simp: resp_def split: sum.splits)
  from Cons.IH[OF this] obtain new where "rs' = (rs @ [resp]) @ new" "list_all2 answers calls new"
    by blast
  moreover have "answers c resp" by (auto simp: answers_def resp_def c split: sum.splits)
  ultimately show ?case by (intro exI[of _ "resp # new"]) simp
qed simp

lemma run_calls_append:
  "run_calls msg d us (xs @ ys) rs w =
    (case run_calls msg d us xs rs w of None \<Rightarrow> None | Some (w', rs') \<Rightarrow> run_calls msg d us ys rs' w')"
proof (induction xs arbitrary: rs w)
  case (Cons c xs)
  then show ?case
    by (cases c) (auto split: option.splits sum.splits)
qed simp

lemma check_using_None:
  "check_using caps seen us = None \<longleftrightarrow>
    distinct us \<and> set us \<inter> set seen = {} \<and> (\<forall>u \<in> set us. bt_contains u caps)"
  by (induction caps seen us rule: check_using.induct) auto

section \<open>Properties\<close>

text \<open>A request whose call arguments are well-formed JSON always gets an answer: no panic
  of the dispatcher's own code is reachable, whatever the handlers do (fail, panic or run past
  the time limit).\<close>

lemma process_no_panic:
  assumes "list_all (\<lambda>c. args_wf (arguments c)) (method_calls req)"
  shows "process msg d req w \<noteq> None"
  using run_calls_total[OF assms, of msg d "req_using req" "[]" w]
  by (auto simp: process_def split: option.splits)

definition demo_request :: request where
  "demo_request = \<lparr>req_using = [CORE_CAPABILITY],
     method_calls = [Invocation ''Core/echo'' (JObj [(''a'', JNum 1)]) ''c1'',
                     Invocation ''Nope/get'' (JObj []) ''c2''],
     req_created_ids = None\<rparr>"

lemma process_no_panic_witness: "process (\<lambda>_. []) (new_dispatcher ''s0'') demo_request () \<noteq> None"
  by (rule process_no_panic) (simp add: demo_request_def bt_wf_def)

text \<open>Request-level validation: a request is refused as a whole exactly when \<open>using\<close> is
  empty, repeats a capability, names an undeclared one, or there are too many calls; then no
  handler has run.\<close>

lemma process_rejects_iff:
  assumes "process msg d req w = Some (w', r)"
  shows "(\<exists>e. r = Inl e \<and> w' = w) \<longleftrightarrow>
    req_using req = [] \<or> \<not> distinct (req_using req) \<or>
    (\<exists>u \<in> set (req_using req). \<not> bt_contains u (capabilities d)) \<or>
    length (method_calls req) > max_calls_in_request (limits d)"
  using assms check_using_None[of "capabilities d" "[]" "req_using req"]
  by (auto simp: process_def split: if_splits option.splits)

lemma process_rejects_iff_witness:
  "(\<exists>e. Inl NotRequest = (Inl e :: (request_error, response) result) \<and> () = ()) \<longleftrightarrow>
    req_using (demo_request\<lparr>req_using := []\<rparr>) = [] \<or>
    \<not> distinct (req_using (demo_request\<lparr>req_using := []\<rparr>)) \<or>
    (\<exists>u \<in> set (req_using (demo_request\<lparr>req_using := []\<rparr>)).
       \<not> bt_contains u (capabilities (new_dispatcher ''s0'' :: unit dispatcher))) \<or>
    length (method_calls (demo_request\<lparr>req_using := []\<rparr>)) >
      max_calls_in_request (limits (new_dispatcher ''s0'' :: unit dispatcher))"
  by (rule process_rejects_iff[where msg = "\<lambda>_. []"]) (simp add: process_def)

text \<open>C3. A processed request has exactly one response per call, in order, each carrying its
  call's id and either its method name or \<open>error\<close>; the client's \<open>createdIds\<close> and the
  session state are echoed.\<close>

theorem process_answers_each_call:
  assumes "process msg d req w = Some (w', Inr resp)"
  shows "list_all2 answers (method_calls req) (method_responses resp) \<and>
    resp_created_ids resp = req_created_ids req \<and> resp_session_state resp = session_state d"
proof -
  from assms obtain rs where rs: "run_calls msg d (req_using req) (method_calls req) [] w = Some (w', rs)"
    and resp: "resp = \<lparr>method_responses = rs, resp_created_ids = req_created_ids req,
                      resp_session_state = session_state d\<rparr>"
    by (auto simp: process_def split: if_splits option.splits)
  from run_calls_answers[OF rs] resp show ?thesis by simp
qed

definition demo_response :: response where
  "demo_response = \<lparr>method_responses =
       [Invocation ''Core/echo'' (JObj [(''a'', JNum 1)]) ''c1'', error_invocation UnknownMethod ''c2''],
     resp_created_ids = None, resp_session_state = ''s0''\<rparr>"

lemma demo_process:
  "process (\<lambda>_. []) (new_dispatcher ''s0'') demo_request () = Some ((), Inr demo_response)"
  by (simp add: process_def demo_request_def demo_response_def new_dispatcher_def register_def
      CORE_CAPABILITY_def bt_contains_def default_limits_def call_def resolve_references_def
      run_guarded_def echo_handler_def)

theorem process_answers_each_call_witness:
  "list_all2 answers (method_calls demo_request) (method_responses demo_response)"
  using process_answers_each_call[OF demo_process] by blast

text \<open>Calls run in order and a later call cannot influence an earlier one: the responses
  to a prefix of the calls are the prefix of the responses.\<close>

lemma process_prefix:
  assumes "process msg d (req\<lparr>method_calls := xs @ ys\<rparr>) w = Some (w', Inr resp)"
  shows "\<exists>w1 resp1. process msg d (req\<lparr>method_calls := xs\<rparr>) w = Some (w1, Inr resp1) \<and>
    method_responses resp1 = take (length xs) (method_responses resp)"
proof -
  from assms obtain w1 rs1 where r1: "run_calls msg d (req_using req) xs [] w = Some (w1, rs1)"
    and r2: "run_calls msg d (req_using req) ys rs1 w1 = Some (w', method_responses resp)"
    by (fastforce simp: process_def run_calls_append split: if_splits option.splits)
  from run_calls_answers[OF r1] have len: "length rs1 = length xs"
    by (auto dest: list_all2_lengthD)
  from run_calls_answers[OF r2] obtain new where "method_responses resp = rs1 @ new" by blast
  with r1 len assms show ?thesis
    by (auto simp: process_def split: if_splits option.splits)
qed

lemma process_prefix_witness:
  "\<exists>w1 resp1. process (\<lambda>_. []) (new_dispatcher ''s0'')
       (demo_request\<lparr>method_calls := [Invocation ''Core/echo'' (JObj [(''a'', JNum 1)]) ''c1'']\<rparr>) () =
       Some (w1, Inr resp1) \<and>
     method_responses resp1 = take (length [Invocation ''Core/echo'' (JObj [(''a'', JNum 1)]) ''c1''])
       (method_responses demo_response)"
proof -
  have "demo_request\<lparr>method_calls := [Invocation ''Core/echo'' (JObj [(''a'', JNum 1)]) ''c1''] @
      [Invocation ''Nope/get'' (JObj []) ''c2'']\<rparr> = demo_request"
    by (simp add: demo_request_def)
  with demo_process have "process (\<lambda>_. []) (new_dispatcher ''s0'')
      (demo_request\<lparr>method_calls := [Invocation ''Core/echo'' (JObj [(''a'', JNum 1)]) ''c1''] @
      [Invocation ''Nope/get'' (JObj []) ''c2'']\<rparr>) () = Some ((), Inr demo_response)" by simp
  then show ?thesis by (rule process_prefix)
qed

definition gated :: "'w dispatcher \<Rightarrow> string list \<Rightarrow> invocation \<Rightarrow> bool" where
  "gated d us c \<longleftrightarrow> (case methods d (name c) of None \<Rightarrow> True
     | Some (cap, h) \<Rightarrow> cap \<noteq> CORE_CAPABILITY \<and> cap \<notin> set us)"

lemma run_calls_gated:
  "list_all (gated d us) calls \<Longrightarrow>
    run_calls msg d us calls rs w =
      Some (w, rs @ map (\<lambda>c. error_invocation UnknownMethod (call_id c)) calls)"
proof (induction calls arbitrary: rs)
  case (Cons c calls)
  obtain nm args cid where c: "c = Invocation nm args cid" by (cases c)
  have "call msg d nm args rs us w = Some (w, Inl UnknownMethod)"
    using Cons.prems by (auto simp: c gated_def call_def split: option.splits)
  with Cons c show ?case by simp
qed simp

text \<open>Capability gate: if every call names a method that is not registered or whose
  capability (other than the core one) is missing from \<open>using\<close>, then no handler runs, the
  world is unchanged and every response is the \<open>unknownMethod\<close> error.\<close>

lemma process_capability_gate:
  assumes "process msg d req w = Some (w', Inr resp)"
    and "list_all (gated d (req_using req)) (method_calls req)"
  shows "w' = w \<and> method_responses resp =
    map (\<lambda>c. error_invocation UnknownMethod (call_id c)) (method_calls req)"
  using assms run_calls_gated[OF assms(2), of msg "[]" w]
  by (auto simp: process_def split: if_splits option.splits)

lemma process_capability_gate_witness:
  "method_responses \<lparr>method_responses = [error_invocation UnknownMethod ''c2''],
      resp_created_ids = None, resp_session_state = ''s0''\<rparr> =
    map (\<lambda>c. error_invocation UnknownMethod (call_id c)) [Invocation ''Nope/get'' (JObj []) ''c2'']"
proof -
  let ?q = "\<lparr>req_using = [CORE_CAPABILITY], method_calls = [Invocation ''Nope/get'' (JObj []) ''c2''],
     req_created_ids = None\<rparr>"
  have p: "process (\<lambda>_. []) (new_dispatcher ''s0'') ?q () = Some ((), Inr
     \<lparr>method_responses = [error_invocation UnknownMethod ''c2''],
      resp_created_ids = None, resp_session_state = ''s0''\<rparr>)"
    by (simp add: process_def new_dispatcher_def register_def
      CORE_CAPABILITY_def bt_contains_def default_limits_def call_def)
  have g: "list_all (gated (new_dispatcher ''s0'' :: unit dispatcher) (req_using ?q)) (method_calls ?q)"
    by (simp add: gated_def new_dispatcher_def register_def)
  show ?thesis using process_capability_gate[OF p g] by simp
qed

text \<open>The session object of an account names this account as the primary account for
  exactly the declared capabilities other than the core one.\<close>

theorem for_account_primary:
  "map_of (primary_accounts (for_account base user acct caps st)) u =
      (if bt_contains u caps \<and> u \<noteq> CORE_CAPABILITY then Some acct else None)"
proof -
  have "map_of (map (\<lambda>(u, _). (u, acct)) (map (\<lambda>(u, _). (u, JObj []))
      (filter (\<lambda>(u, _). u \<noteq> CORE_CAPABILITY) caps))) u =
      (if bt_contains u caps \<and> u \<noteq> CORE_CAPABILITY then Some acct else None)"
    by (induction caps) (auto simp: bt_contains_def)
  then show ?thesis by (simp add: for_account_def Let_def)
qed

end
