(* ===== verification/Smtp_Session.thy ===== *)
theory Smtp_Session
  imports Prelude
begin

text \<open>
  \<open>crates/owney-smtp-in\<close>: the per-connection SMTP state machine of \<open>session.rs\<close> and the
  types of \<open>lib.rs\<close>. The command and \<open>DATA\<close> receivers are the third-party crate
  \<open>smtp_proto\<close>: they are the parameter \<open>P\<close>, a record of their operations. The mail policy
  behind the \<open>MailHandler\<close> trait is the parameter \<open>H\<close>, threading its own state \<open>'h\<close>.
  The \<open>Received:\<close> date is an argument. A socket read with the time since the session
  started and the success of the write that follows it is one element of the input list.
\<close>

section \<open>Definitions\<close>

datatype rcpt_verdict = Accept | UnknownUser | NotLocal | TryAgainLater

record inbound_mail =
  im_remote :: string
  im_helo :: string
  im_mail_from :: string
  im_recipients :: "string list"
  im_raw :: string

datatype deliver_error = DeliverTemporary string | DeliverPermanent string

record 'h mail_handler =
  rcpt :: "string \<Rightarrow> 'h \<Rightarrow> rcpt_verdict \<times> 'h"
  deliver :: "inbound_mail \<Rightarrow> 'h \<Rightarrow> (deliver_error, unit) result \<times> 'h"

record smtp_params =
  hostname :: string
  max_message_size :: nat
  max_recipients :: nat
  max_errors :: nat
  tls :: bool

datatype smtp_request =
    Ehlo string
  | Helo string
  | Mail string nat
  | Rcpt string
  | DataCmd
  | Rset
  | Noop
  | Quit
  | Vrfy
  | Expn
  | StartTls
  | Auth
  | Bdat
  | Lhlo
  | Help
  | Etrn
  | Atrn
  | Burl

datatype smtp_error =
    NeedsMoreData
  | UnknownCommand
  | InvalidSenderAddress
  | InvalidRecipientAddress
  | ResponseTooLong
  | OtherError

text \<open>\<open>RequestReceiver::ingest\<close> and \<open>DataReceiver::ingest\<close>: the receiver, the bytes left in
  the iterator and, for \<open>DATA\<close>, the collected message and whether the terminator was seen.\<close>

record ('r, 'd) smtp_proto =
  cmd_new :: 'r
  cmd_ingest :: "'r \<Rightarrow> string \<Rightarrow> 'r \<times> string \<times> (smtp_error, smtp_request) result"
  data_new :: 'd
  data_ingest :: "'d \<Rightarrow> string \<Rightarrow> string \<Rightarrow> 'd \<times> string \<times> string \<times> bool"

datatype 'd mode = Command | Data 'd (collected: string) (discarding: bool)

datatype flow = Continue | FQuit | FStartTls

record 'd session =
  remote :: string
  mode :: "'d mode"
  helo :: string
  mail_from :: "string option"
  recipients :: "string list"
  errors :: nat
  tls_active :: bool

definition reply :: "string \<Rightarrow> string" where
  "reply line = line @ CRLF"

definition reset_transaction :: "'d session \<Rightarrow> 'd session" where
  "reset_transaction s = s\<lparr>mail_from := None, recipients := []\<rparr>"

definition ehlo_reply :: "smtp_params \<Rightarrow> bool \<Rightarrow> string" where
  "ehlo_reply p tls_on =
     ''250-'' @ hostname p @ '' greets you'' @ CRLF @ ''250-PIPELINING'' @ CRLF @
     ''250-SIZE '' @ show_nat (max_message_size p) @ CRLF @
     (if tls p \<and> \<not> tls_on then ''250-STARTTLS'' @ CRLF else '''') @
     ''250-8BITMIME'' @ CRLF @ ''250-ENHANCEDSTATUSCODES'' @ CRLF @ ''250 SMTPUTF8'' @ CRLF"

text \<open>\<open>Session::apply\<close>: the new session, the reply bytes and the control flow.\<close>

definition apply_request :: "smtp_params \<Rightarrow> 'h mail_handler \<Rightarrow> 'd \<Rightarrow> smtp_request \<Rightarrow> 'd session \<Rightarrow> 'h \<Rightarrow>
    'd session \<times> 'h \<times> string \<times> flow" where
  "apply_request p H dnew req s h =
     (case req of
        Ehlo host \<Rightarrow> (reset_transaction (s\<lparr>helo := host\<rparr>), h, ehlo_reply p (tls_active s), Continue)
      | Helo host \<Rightarrow> (reset_transaction (s\<lparr>helo := host\<rparr>), h, ''250 '' @ hostname p @ CRLF, Continue)
      | Mail addr sz \<Rightarrow>
          if mail_from s \<noteq> None then (s, h, reply ''503 5.5.1 nested MAIL command'', Continue)
          else if sz \<noteq> 0 \<and> sz > max_message_size p
          then (s, h, reply ''552 5.3.4 message size exceeds limit'', Continue)
          else (s\<lparr>mail_from := Some addr\<rparr>, h, reply ''250 2.1.0 OK'', Continue)
      | Rcpt addr \<Rightarrow>
          if mail_from s = None then (s, h, reply ''503 5.5.1 MAIL first'', Continue)
          else if length (recipients s) \<ge> max_recipients p
          then (s, h, reply ''452 4.5.3 too many recipients'', Continue)
          else (case rcpt H addr h of (v, h') \<Rightarrow>
                 (case v of
                    Accept \<Rightarrow> (s\<lparr>recipients := recipients s @ [addr]\<rparr>, h', reply ''250 2.1.5 OK'', Continue)
                  | UnknownUser \<Rightarrow> (s, h', reply ''550 5.1.1 no such user here'', Continue)
                  | NotLocal \<Rightarrow> (s, h', reply ''550 5.7.1 relaying denied'', Continue)
                  | TryAgainLater \<Rightarrow> (s, h', reply ''451 4.3.0 temporary lookup failure, try again'', Continue)))
      | DataCmd \<Rightarrow>
          if recipients s = [] then (s, h, reply ''503 5.5.1 RCPT first'', Continue)
          else (s\<lparr>mode := Data dnew [] False\<rparr>, h, reply ''354 go ahead, end with <CRLF>.<CRLF>'', Continue)
      | Rset \<Rightarrow> (reset_transaction s, h, reply ''250 2.0.0 OK'', Continue)
      | Noop \<Rightarrow> (s, h, reply ''250 2.0.0 OK'', Continue)
      | Quit \<Rightarrow> (s, h, reply ''221 2.0.0 bye'', FQuit)
      | Vrfy \<Rightarrow> (s, h, reply ''252 2.5.2 cannot verify, send some mail and find out'', Continue)
      | Expn \<Rightarrow> (s, h, reply ''252 2.5.2 cannot verify, send some mail and find out'', Continue)
      | StartTls \<Rightarrow>
          if tls_active s then (s, h, reply ''503 5.5.1 already in TLS'', Continue)
          else if tls p then (s, h, reply ''220 2.0.0 ready to start TLS'', FStartTls)
          else (s, h, reply ''502 5.5.1 STARTTLS not available'', Continue)
      | _ \<Rightarrow> (s, h, reply ''502 5.5.1 command not implemented'', Continue))"

text \<open>\<open>Session::protocol_error\<close>: \<^term>\<open>False\<close> when the connection is to be dropped.\<close>

definition protocol_error :: "smtp_params \<Rightarrow> smtp_error \<Rightarrow> 'd session \<Rightarrow> 'd session \<times> string \<times> bool" where
  "protocol_error p err s =
     (if err = ResponseTooLong then (s, reply ''500 5.5.2 line too long, closing'', False)
      else let s' = s\<lparr>errors := errors s + 1\<rparr> in
        if errors s' \<ge> max_errors p then (s', reply ''421 4.7.0 too many errors, closing'', False)
        else (s', (case err of
                 UnknownCommand \<Rightarrow> reply ''500 5.5.2 command not recognized''
               | InvalidSenderAddress \<Rightarrow> reply ''501 5.1.7 invalid sender address''
               | InvalidRecipientAddress \<Rightarrow> reply ''501 5.1.3 invalid recipient address''
               | _ \<Rightarrow> reply ''501 5.5.4 syntax error''), True))"

definition is_ascii_control :: "char \<Rightarrow> bool" where
  "is_ascii_control c \<longleftrightarrow> (let n = (of_char c :: nat) in n < 32 \<or> n = 127)"

definition sanitize_helo :: "string \<Rightarrow> string" where
  "sanitize_helo h =
     (if h = [] then ''unknown''
      else map (\<lambda>c. if c = CR \<or> c = LF \<or> is_ascii_control c then CHR '' '' else c) h)"

definition received_header :: "smtp_params \<Rightarrow> string \<Rightarrow> 'd session \<Rightarrow> string" where
  "received_header p date s =
     ''Received: from '' @ sanitize_helo (helo s) @ '' (['' @ remote s @ ''])'' @ CRLF @
     [CHR 0x09] @ ''by '' @ hostname p @ '' with '' @ (if tls_active s then ''ESMTPS'' else ''ESMTP'') @
     '';'' @ CRLF @ [CHR 0x09] @ date @ CRLF"

definition finish_data :: "smtp_params \<Rightarrow> 'h mail_handler \<Rightarrow> string \<Rightarrow> 'd session \<Rightarrow> 'h \<Rightarrow>
    'd session \<times> 'h \<times> string" where
  "finish_data p H date s h =
     (let s1 = s\<lparr>mode := Command\<rparr> in
      case mode s of
        Command \<Rightarrow> (s1, h, reply ''451 4.3.0 internal error'')
      | Data _ dat disc \<Rightarrow>
          if disc then (reset_transaction s1, h, reply ''552 5.3.4 message size exceeds limit'')
          else
            (let m = \<lparr>im_remote = remote s, im_helo = helo s,
                      im_mail_from = (case mail_from s of Some a \<Rightarrow> a | None \<Rightarrow> []),
                      im_recipients = recipients s,
                      im_raw = received_header p date s @ dat\<rparr>;
                 s2 = s1\<lparr>mail_from := None, recipients := []\<rparr>
             in (case deliver H m h of (r, h') \<Rightarrow>
                   (s2, h', (case r of
                      Inr _ \<Rightarrow> reply ''250 2.0.0 accepted for delivery''
                    | Inl (DeliverTemporary _) \<Rightarrow> reply ''451 4.3.0 temporary delivery failure, try again''
                    | Inl (DeliverPermanent _) \<Rightarrow> reply ''550 5.7.1 message rejected'')))))"

text \<open>The \<open>Mode::Data\<close> arm up to the test of \<open>done\<close>: what was collected is cleared while
  discarding, and discarding starts when it exceeds the size limit.\<close>

definition absorb_data :: "smtp_params \<Rightarrow> 'd \<Rightarrow> string \<Rightarrow> bool \<Rightarrow> 'd mode" where
  "absorb_data p dr dat disc =
     (if disc then Data dr [] True
      else if length dat > max_message_size p then Data dr [] True
      else Data dr dat False)"

datatype drain_end = NeedRead | DClosed | DTls

text \<open>One iteration of the inner loop of \<open>run_protocol\<close>: \<^const>\<open>Inl\<close> the state for the next
  iteration, \<^const>\<open>Inr\<close> the state in which the loop is left and why.\<close>

type_synonym ('r, 'd, 'h) drain_state = "'d session \<times> 'r \<times> string \<times> string \<times> 'h"

definition drain_step :: "smtp_params \<Rightarrow> 'h mail_handler \<Rightarrow> ('r, 'd) smtp_proto \<Rightarrow> string \<Rightarrow>
    ('r, 'd, 'h) drain_state \<Rightarrow> ('r, 'd, 'h) drain_state + ('r, 'd, 'h) drain_state \<times> drain_end" where
  "drain_step p H P date st =
     (case st of (s, r, it, out, h) \<Rightarrow>
       (case mode s of
          Command \<Rightarrow>
            (case cmd_ingest P r it of (r', it', res) \<Rightarrow>
              (case res of
                 Inr req \<Rightarrow>
                   (case apply_request p H (data_new P) req s h of (s', h', o', fl) \<Rightarrow>
                     (let st' = (s', r', it', out @ o', h') in
                      case fl of Continue \<Rightarrow> Inl st' | FQuit \<Rightarrow> Inr (st', DClosed) | FStartTls \<Rightarrow> Inr (st', DTls)))
               | Inl err \<Rightarrow>
                   if err = NeedsMoreData then Inr ((s, r', it', out, h), NeedRead)
                   else (case protocol_error p err s of (s', o', keep) \<Rightarrow>
                     (let st' = (s', r', it', out @ o', h) in
                      if keep then Inl st' else Inr (st', DClosed)))))
        | Data dr dat disc \<Rightarrow>
            (case data_ingest P dr it dat of (dr', it', dat', fin) \<Rightarrow>
              (let s1 = s\<lparr>mode := absorb_data p dr' dat' disc\<rparr> in
               if fin then
                 (case finish_data p H date s1 h of (s2, h', o') \<Rightarrow> Inl (s2, r, it', out @ o', h'))
               else Inr ((s1, r, it', out, h), NeedRead)))))"

text \<open>The loop. Every iteration but the last consumes input, so the fuel used below, one more
  than the number of bytes read, is enough.\<close>

fun drain :: "nat \<Rightarrow> smtp_params \<Rightarrow> 'h mail_handler \<Rightarrow> ('r, 'd) smtp_proto \<Rightarrow> string \<Rightarrow>
    ('r, 'd, 'h) drain_state \<Rightarrow> (('r, 'd, 'h) drain_state \<times> drain_end) option" where
  "drain 0 p H P date st = None"
| "drain (Suc n) p H P date st =
     (case drain_step p H P date st of Inl st' \<Rightarrow> drain n p H P date st' | Inr res \<Rightarrow> Some res)"

datatype socket_read = ReadBytes string | ReadEof | ReadError | ReadTimeout

record io_step =
  io_elapsed :: nat
  io_read :: socket_read
  io_write_ok :: bool

definition session_budget :: nat where
  "session_budget = 5 * 60"

datatype session_end = Closed | EndStartTls | Waiting

text \<open>\<open>run_protocol\<close> over the socket's behaviour; \<^const>\<open>Waiting\<close> when the recorded behaviour
  ends with the connection still open. The output lists the writes in order.\<close>

fun run_protocol :: "smtp_params \<Rightarrow> 'h mail_handler \<Rightarrow> ('r, 'd) smtp_proto \<Rightarrow> string \<Rightarrow>
    'd session \<Rightarrow> 'r \<Rightarrow> 'h \<Rightarrow> io_step list \<Rightarrow> ('d session \<times> 'h \<times> string list \<times> session_end \<times> io_step list) option" where
  "run_protocol p H P date s r h [] = Some (s, h, [], Waiting, [])"
| "run_protocol p H P date s r h (io # ios) =
     (if io_elapsed io > session_budget
      then Some (s, h, [''421 4.4.2 session expired, closing'' @ CRLF], Closed, ios)
      else (case io_read io of
        ReadEof \<Rightarrow> Some (s, h, [], Closed, ios)
      | ReadError \<Rightarrow> Some (s, h, [], Closed, ios)
      | ReadTimeout \<Rightarrow> Some (s, h, [''421 4.4.2 idle timeout, closing'' @ CRLF], Closed, ios)
      | ReadBytes bytes \<Rightarrow>
          if bytes = [] then Some (s, h, [], Closed, ios)
          else (case drain (Suc (length bytes)) p H P date (s, r, bytes, [], h) of
                  None \<Rightarrow> None
                | Some ((s', r', it', out, h'), e) \<Rightarrow>
                    (case e of
                       DClosed \<Rightarrow> Some (s', h', [out], Closed, ios)
                     | DTls \<Rightarrow> Some (s', h', [out], if io_write_ok io then EndStartTls else Closed, ios)
                     | NeedRead \<Rightarrow>
                         if out \<noteq> [] \<and> \<not> io_write_ok io then Some (s', h', [out], Closed, ios)
                         else map_option (\<lambda>(s2, h2, outs, e, rest).
                                (s2, h2, (if out = [] then outs else out # outs), e, rest))
                              (run_protocol p H P date s' r' h' ios)))))"

definition new_session :: "string \<Rightarrow> 'd session" where
  "new_session rem = \<lparr>remote = rem, mode = Command, helo = [], mail_from = None,
     recipients = [], errors = 0, tls_active = False\<rparr>"

text \<open>What \<open>serve_connection\<close> does to the session after a successful handshake.\<close>

definition upgrade_tls :: "'d session \<Rightarrow> 'd session" where
  "upgrade_tls s = (reset_transaction (s\<lparr>helo := []\<rparr>))\<lparr>mode := Command, tls_active := True\<rparr>"

text \<open>\<open>serve_connection\<close>: \<open>greet_ok\<close> is the success of the greeting's write, \<open>tls_ok\<close> that of
  the TLS handshake.\<close>

definition serve_connection :: "smtp_params \<Rightarrow> 'h mail_handler \<Rightarrow> ('r, 'd) smtp_proto \<Rightarrow> string \<Rightarrow>
    string \<Rightarrow> bool \<Rightarrow> bool \<Rightarrow> 'h \<Rightarrow> io_step list \<Rightarrow> ('d session \<times> 'h \<times> string list) option" where
  "serve_connection p H P date rem greet_ok tls_ok h ios =
     (let greeting = ''220 '' @ hostname p @ '' ESMTP ready'' @ CRLF in
      if \<not> greet_ok then Some (new_session rem, h, [greeting])
      else (case run_protocol p H P date (new_session rem) (cmd_new P) h ios of
              None \<Rightarrow> None
            | Some (s, h', outs, e, rest) \<Rightarrow>
                (case e of
                   EndStartTls \<Rightarrow>
                     if \<not> tls p then Some (s, h', greeting # outs)
                     else if tls_ok then
                       map_option (\<lambda>(s2, h2, outs2, _, _). (s2, h2, greeting # outs @ outs2))
                         (run_protocol p H P date (upgrade_tls s) (cmd_new P) h' rest)
                     else Some (s, h', greeting # outs)
                 | _ \<Rightarrow> Some (s, h', greeting # outs))))"

section \<open>The session invariant\<close>

definition mode_ok :: "smtp_params \<Rightarrow> 'd session \<Rightarrow> bool" where
  "mode_ok p s \<longleftrightarrow> (case mode s of Command \<Rightarrow> True
     | Data _ dat disc \<Rightarrow> recipients s \<noteq> [] \<and> length dat \<le> max_message_size p \<and> (disc \<longrightarrow> dat = []))"

definition smtp_inv :: "smtp_params \<Rightarrow> 'd session \<Rightarrow> bool" where
  "smtp_inv p s \<longleftrightarrow>
     (recipients s \<noteq> [] \<longrightarrow> mail_from s \<noteq> None) \<and>
     length (recipients s) \<le> max_recipients p \<and> mode_ok p s"

lemmas smtp_inv_defs = smtp_inv_def mode_ok_def

lemma smtp_inv_new: "smtp_inv p (new_session rem)"
  by (simp add: smtp_inv_defs new_session_def)

lemma smtp_inv_upgrade: "smtp_inv p (upgrade_tls s)"
  by (simp add: smtp_inv_defs upgrade_tls_def reset_transaction_def)

lemma smtp_inv_apply:
  assumes "smtp_inv p s" "mode s = Command" "apply_request p H dn req s h = (s', h', out, fl)"
  shows "smtp_inv p s'"
  using assms
  by (cases req)
    (auto simp: smtp_inv_defs apply_request_def reset_transaction_def
      split: if_splits prod.splits rcpt_verdict.splits)

lemma smtp_inv_protocol_error:
  "smtp_inv p s \<Longrightarrow> protocol_error p err s = (s', out, keep) \<Longrightarrow> smtp_inv p s'"
  by (auto simp: smtp_inv_defs protocol_error_def Let_def split: if_splits mode.splits)

lemma smtp_inv_absorb:
  "smtp_inv p s \<Longrightarrow> mode s = Data dr dat disc \<Longrightarrow> smtp_inv p (s\<lparr>mode := absorb_data p dr' dat' disc\<rparr>)"
  by (auto simp: smtp_inv_defs absorb_data_def)

lemma smtp_inv_finish:
  "finish_data p H date s h = (s', h', out) \<Longrightarrow> smtp_inv p s \<Longrightarrow> smtp_inv p s'"
  by (auto simp: smtp_inv_defs finish_data_def reset_transaction_def Let_def
      split: mode.splits if_splits prod.splits)

text \<open>A mail the session may hand to the policy: its recipients are within the limit, and what follows the trace header
  of the session, the message the client sent, is within the size limit.\<close>

definition trace_of :: "smtp_params \<Rightarrow> string \<Rightarrow> bool \<Rightarrow> inbound_mail \<Rightarrow> string" where
  "trace_of p date over_tls m =
     received_header p date ((new_session (im_remote m) :: unit session)\<lparr>helo := im_helo m, tls_active := over_tls\<rparr>)"

definition good_mail :: "smtp_params \<Rightarrow> string \<Rightarrow> inbound_mail \<Rightarrow> bool" where
  "good_mail p date m \<longleftrightarrow> im_recipients m \<noteq> [] \<and> length (im_recipients m) \<le> max_recipients p \<and>
     (\<exists>over_tls dat. im_raw m = trace_of p date over_tls m @ dat \<and> length dat \<le> max_message_size p)"

section \<open>The policy interface\<close>

text \<open>The contract of a \<open>MailHandler\<close>: \<open>known\<close> addresses are those recipient validation
  has accepted, and they stay known; \<open>hinv\<close> is an invariant of the handler's state that
  validation keeps, and that delivery keeps for the mails a session can submit, those with
  known recipients within the limits. The client lemma is that a whole session keeps it.\<close>

locale mail_policy =
  fixes p :: smtp_params and date :: string and H :: "'h mail_handler"
    and hinv :: "'h \<Rightarrow> bool" and known :: "'h \<Rightarrow> string \<Rightarrow> bool"
  assumes rcpt_inv: "hinv h \<Longrightarrow> hinv (snd (rcpt H a h))"
    and rcpt_accept: "rcpt H a h = (Accept, h') \<Longrightarrow> known h' a"
    and rcpt_known: "known h b \<Longrightarrow> known (snd (rcpt H a h)) b"
    and deliver_inv: "hinv h \<Longrightarrow> good_mail p date m \<Longrightarrow> (\<And>a. a \<in> set (im_recipients m) \<Longrightarrow> known h a) \<Longrightarrow>
      hinv (snd (deliver H m h))"
begin

definition recips_known :: "'d session \<Rightarrow> 'h \<Rightarrow> bool" where
  "recips_known s h \<longleftrightarrow> (\<forall>a \<in> set (recipients s). known h a)"

lemma apply_cases:
  assumes "apply_request p H dn req s h = (s', h', out, fl)"
  shows "(h' = h \<and> set (recipients s') \<subseteq> set (recipients s)) \<or>
    (\<exists>a. h' = snd (rcpt H a h) \<and> (recipients s' = recipients s \<or>
      (recipients s' = recipients s @ [a] \<and> fst (rcpt H a h) = Accept)))"
  using assms
  by (cases req)
    (auto simp: apply_request_def reset_transaction_def split: if_splits prod.splits rcpt_verdict.splits,
      (metis fst_conv snd_conv)+)

lemma apply_policy:
  assumes "apply_request p H dn req s h = (s', h', out, fl)" "hinv h" "recips_known s h"
  shows "hinv h' \<and> recips_known s' h'"
  using apply_cases[OF assms(1)]
proof (elim disjE exE conjE)
  fix a assume h': "h' = snd (rcpt H a h)" and "recipients s' = recipients s @ [a]"
    "fst (rcpt H a h) = Accept"
  moreover have "known h' a" using rcpt_accept[of a h h'] h' calculation(3) by (metis prod.collapse)
  ultimately show ?thesis using assms rcpt_inv rcpt_known by (auto simp: recips_known_def)
qed (use assms rcpt_inv rcpt_known in \<open>auto simp: recips_known_def\<close>)

lemma finish_policy:
  assumes "finish_data p H date s h = (s', h', out)" "hinv h" "smtp_inv p s" "recips_known s h"
  shows "hinv h' \<and> recips_known s' h'"
proof (cases "mode s")
  case Command
  with assms show ?thesis by (auto simp: finish_data_def Let_def recips_known_def)
next
  case (Data dr dat disc)
  define m where "m = \<lparr>im_remote = remote s, im_helo = helo s,
      im_mail_from = (case mail_from s of Some a \<Rightarrow> a | None \<Rightarrow> []),
      im_recipients = recipients s, im_raw = received_header p date s @ dat\<rparr>"
  have "im_raw m = trace_of p date (tls_active s) m @ dat" by (simp add: m_def trace_of_def received_header_def new_session_def)
  then have good: "good_mail p date m"
    using assms(3) Data by (auto simp: good_mail_def m_def smtp_inv_defs)
  have kn: "known h a" if "a \<in> set (im_recipients m)" for a
    using that assms(4) by (simp add: m_def recips_known_def)
  from deliver_inv[OF assms(2) good kn] assms(1,2) Data show ?thesis
    by (auto simp: finish_data_def Let_def m_def recips_known_def reset_transaction_def
        split: if_splits prod.splits)
qed

definition state_ok :: "('r, 'd, 'h) drain_state \<Rightarrow> bool" where
  "state_ok st \<longleftrightarrow> (case st of (s, r, it, out, h) \<Rightarrow> smtp_inv p s \<and> hinv h \<and> recips_known s h)"

lemma protocol_error_recipients:
  "protocol_error p err s = (s', out, keep) \<Longrightarrow> recipients s' = recipients s"
  by (auto simp: protocol_error_def Let_def split: if_splits)

lemma drain_step_inv:
  assumes "state_ok st"
  shows "case drain_step p H P date st of Inl st' \<Rightarrow> state_ok st' | Inr (st', e) \<Rightarrow> state_ok st'"
proof -
  obtain s r it out h where st: "st = (s, r, it, out, h)" by (cases st) auto
  from assms st have inv: "smtp_inv p s" "hinv h" "recips_known s h" by (simp_all add: state_ok_def)
  show ?thesis
  proof (cases "mode s")
    case Command
    have k: "recips_known s' h" if "protocol_error p err s = (s', o', kp)" for err s' o' kp
      using protocol_error_recipients[OF that] inv(3) by (simp add: recips_known_def)
    show ?thesis
      using smtp_inv_apply[OF inv(1) Command] apply_policy[OF _ inv(2,3)]
        smtp_inv_protocol_error[OF inv(1)] k inv Command
      by (auto simp: st state_ok_def drain_step_def Let_def split: prod.splits sum.splits flow.splits)
  next
    case (Data dr dat disc)
    obtain dr' it' dat' fin where c: "data_ingest P dr it dat = (dr', it', dat', fin)"
      by (cases "data_ingest P dr it dat") auto
    let ?s1 = "s\<lparr>mode := absorb_data p dr' dat' disc\<rparr>"
    have i1: "smtp_inv p ?s1" by (rule smtp_inv_absorb[OF inv(1) Data])
    have k1: "recips_known ?s1 h" using inv(3) by (simp add: recips_known_def)
    obtain s2 h2 o2 where f: "finish_data p H date ?s1 h = (s2, h2, o2)"
      by (cases "finish_data p H date ?s1 h") auto
    from smtp_inv_finish[OF f i1] finish_policy[OF f inv(2) i1 k1] i1 k1 inv Data c f show ?thesis
      by (simp add: st state_ok_def drain_step_def Let_def)
  qed
qed

lemma drain_inv:
  "drain n p H P date st = Some (st', e) \<Longrightarrow> state_ok st \<Longrightarrow> state_ok st'"
proof (induction n arbitrary: st)
  case (Suc n)
  from drain_step_inv[OF Suc.prems(2), of P] Suc show ?case
    by (auto split: sum.splits)
qed simp

lemma run_protocol_inv:
  assumes "run_protocol p H P date s r h ios = Some (s', h', outs, e, rest)" "smtp_inv p s" "hinv h" "recips_known s h"
  shows "smtp_inv p s' \<and> hinv h' \<and> recips_known s' h'"
  using assms
proof (induction ios arbitrary: s r h outs)
  case (Cons io ios)
  show ?case
  proof (cases "io_elapsed io > session_budget \<or> (\<forall>b. io_read io \<noteq> ReadBytes b \<or> b = [])")
    case True
    with Cons.prems show ?thesis by (auto split: socket_read.splits if_splits)
  next
    case False
    then obtain b where b: "io_read io = ReadBytes b" "b \<noteq> []" "\<not> io_elapsed io > session_budget" by auto
    from Cons.prems b obtain s1 r1 it1 out1 h1 e1 where
      d: "drain (Suc (length b)) p H P date (s, r, b, [], h) = Some ((s1, r1, it1, out1, h1), e1)"
      by (auto simp del: drain.simps split: option.splits)
    have ok: "smtp_inv p s1 \<and> hinv h1 \<and> recips_known s1 h1"
      using drain_inv[OF d] Cons.prems(2,3,4) by (simp add: state_ok_def)
    show ?thesis
      using Cons.prems(1) b d ok Cons.IH
      by (auto simp del: drain.simps split: drain_end.splits if_splits)
  qed
qed simp

lemma recips_known_empty: "recips_known (new_session rem) h" "recips_known (upgrade_tls s) h"
  by (simp_all add: recips_known_def new_session_def upgrade_tls_def reset_transaction_def)

lemma serve_connection_inv:
  assumes "serve_connection p H P date rem g t h ios = Some (s', h', outs)" "hinv h"
  shows "smtp_inv p s' \<and> hinv h'"
proof (cases g)
  case True
  with assms(1) obtain s1 h1 o1 e1 rest where
    r1: "run_protocol p H P date (new_session rem) (cmd_new P) h ios = Some (s1, h1, o1, e1, rest)"
    by (auto simp: serve_connection_def Let_def split: option.splits)
  from run_protocol_inv[OF r1 smtp_inv_new assms(2) recips_known_empty(1)]
  have i1: "smtp_inv p s1" "hinv h1" by simp_all
  show ?thesis
    using assms(1) True r1 i1
    by (auto simp: serve_connection_def Let_def split: if_splits session_end.splits
        dest!: run_protocol_inv[OF _ smtp_inv_upgrade i1(2) recips_known_empty(2)])
qed (use assms smtp_inv_new in \<open>auto simp: serve_connection_def\<close>)

end

section \<open>Progress\<close>

text \<open>What the session relies on in the receivers: a receiver that reports anything but
  "needs more data" has consumed at least one byte.\<close>

definition proto_progress :: "('r, 'd) smtp_proto \<Rightarrow> bool" where
  "proto_progress P \<longleftrightarrow>
     (\<forall>r it r' it' res. cmd_ingest P r it = (r', it', res) \<longrightarrow> res \<noteq> Inl NeedsMoreData \<longrightarrow> length it' < length it) \<and>
     (\<forall>dr it dat dr' it' dat'. data_ingest P dr it dat = (dr', it', dat', True) \<longrightarrow> length it' < length it)"

lemma drain_step_consumes:
  assumes "proto_progress P" "drain_step p H P date (s, r, it, out, h) = Inl (s', r', it', out', h')"
  shows "length it' < length it"
  using assms
  by (cases "mode s")
    (fastforce simp: drain_step_def proto_progress_def Let_def
      split: prod.splits sum.splits flow.splits if_splits)+

lemma drain_enough_fuel:
  assumes "proto_progress P" "length it < n"
  shows "drain n p H P date (s, r, it, out, h) \<noteq> None"
  using assms(2)
proof (induction n arbitrary: s r it out h)
  case (Suc n)
  show ?case
  proof (cases "drain_step p H P date (s, r, it, out, h)")
    case (Inl st)
    obtain s' r' it' out' h' where st: "st = (s', r', it', out', h')" by (cases st) auto
    from drain_step_consumes[OF assms(1) Inl[unfolded st]] Suc.prems have "length it' < n" by simp
    from Suc.IH[OF this] Inl st show ?thesis by simp
  qed simp
qed simp

lemma run_protocol_total:
  "proto_progress P \<Longrightarrow> run_protocol p H P date s r h ios \<noteq> None"
proof (induction ios arbitrary: s r h)
  case (Cons io ios)
  show ?case
  proof (cases "io_elapsed io > session_budget \<or> (\<forall>b. io_read io \<noteq> ReadBytes b \<or> b = [])")
    case True
    then show ?thesis by (auto split: socket_read.splits if_splits)
  next
    case False
    then obtain b where b: "io_read io = ReadBytes b" "b \<noteq> []" "\<not> io_elapsed io > session_budget" by auto
    have "drain (Suc (length b)) p H P date (s, r, b, [], h) \<noteq> None"
      by (rule drain_enough_fuel[OF Cons.prems]) simp
    then obtain s1 r1 it1 out1 h1 e1 where
      "drain (Suc (length b)) p H P date (s, r, b, [], h) = Some ((s1, r1, it1, out1, h1), e1)"
      by auto
    with b Cons.IH[OF Cons.prems, of s1 r1 h1] show ?thesis
      by (auto simp del: drain.simps split: drain_end.splits)
  qed
qed simp

lemma serve_connection_total:
  "proto_progress P \<Longrightarrow> serve_connection p H P date rem g t h ios \<noteq> None"
  using run_protocol_total[of P p H date "new_session rem" "cmd_new P" h ios]
    run_protocol_total[of P p H date "upgrade_tls s" "cmd_new P" h' rest for s h' rest]
  by (fastforce simp: serve_connection_def Let_def split: option.splits session_end.splits)

section \<open>Recording what a session delivers\<close>

text \<open>Any policy \<open>H\<close> instrumented with the addresses it has accepted and the mails it has been
  handed; it satisfies the contract of \<open>mail_policy\<close> for every \<open>H\<close>.\<close>

definition recording :: "'h mail_handler \<Rightarrow> ('h \<times> string list \<times> inbound_mail list) mail_handler" where
  "recording H =
     \<lparr>rcpt = (\<lambda>a (h, acc, ms). case rcpt H a h of (v, h') \<Rightarrow>
               (v, (h', if v = Accept then acc @ [a] else acc, ms))),
      deliver = (\<lambda>m (h, acc, ms). case deliver H m h of (r, h') \<Rightarrow> (r, (h', acc, ms @ [m])))\<rparr>"

definition record_ok :: "smtp_params \<Rightarrow> string \<Rightarrow> 'h \<times> string list \<times> inbound_mail list \<Rightarrow> bool" where
  "record_ok p date = (\<lambda>(h, acc, ms). \<forall>m \<in> set ms. good_mail p date m \<and> set (im_recipients m) \<subseteq> set acc)"

interpretation rec: mail_policy p date "recording H" "record_ok p date" "\<lambda>(h, acc, ms) a. a \<in> set acc" for p date H
proof unfold_locales
  fix h :: "'a \<times> string list \<times> inbound_mail list" and a
  assume "record_ok p date h"
  then show "record_ok p date (snd (rcpt (recording H) a h))"
    by (fastforce simp: record_ok_def recording_def split: prod.splits)
next
  fix a and h h' :: "'a \<times> string list \<times> inbound_mail list"
  assume "rcpt (recording H) a h = (Accept, h')"
  then show "(case h' of (h, acc, ms) \<Rightarrow> \<lambda>a. a \<in> set acc) a"
    by (auto simp: recording_def split: prod.splits)
next
  fix h :: "'a \<times> string list \<times> inbound_mail list" and b a
  assume "(case h of (h, acc, ms) \<Rightarrow> \<lambda>a. a \<in> set acc) b"
  then show "(case snd (rcpt (recording H) a h) of (h, acc, ms) \<Rightarrow> \<lambda>a. a \<in> set acc) b"
    by (auto simp: recording_def split: prod.splits)
next
  fix h :: "'a \<times> string list \<times> inbound_mail list" and m
  assume "record_ok p date h" "good_mail p date m"
    "\<And>a. a \<in> set (im_recipients m) \<Longrightarrow> (case h of (h, acc, ms) \<Rightarrow> \<lambda>a. a \<in> set acc) a"
  then show "record_ok p date (snd (deliver (recording H) m h))"
    by (fastforce simp: record_ok_def recording_def split: prod.splits)
qed

section \<open>Properties\<close>

text \<open>A minimal pair of receivers for closed examples: commands are single letters, the message
  ends at a full stop.\<close>

definition toy_proto :: "(unit, unit) smtp_proto" where
  "toy_proto = \<lparr>cmd_new = (),
     cmd_ingest = (\<lambda>r it. case it of [] \<Rightarrow> ((), [], Inl NeedsMoreData)
       | c # cs \<Rightarrow> ((), cs, if c = CHR ''M'' then Inr (Mail ''a'' 0)
           else if c = CHR ''R'' then Inr (Rcpt ''b'')
           else if c = CHR ''D'' then Inr DataCmd else Inl UnknownCommand)),
     data_new = (),
     data_ingest = (\<lambda>d it dat. case dropWhile (\<lambda>c. c \<noteq> CHR ''.'') it of
         [] \<Rightarrow> ((), [], dat @ it, False)
       | _ # rest \<Rightarrow> ((), rest, dat @ takeWhile (\<lambda>c. c \<noteq> CHR ''.'') it, True))\<rparr>"

definition toy_handler :: "unit mail_handler" where
  "toy_handler = \<lparr>rcpt = (\<lambda>a h. (Accept, h)), deliver = (\<lambda>m h. (Inr (), h))\<rparr>"

definition toy_params :: smtp_params where
  "toy_params = \<lparr>hostname = ''mx'', max_message_size = 100, max_recipients = 10, max_errors = 3, tls = False\<rparr>"

definition toy_io :: "io_step list" where
  "toy_io = [\<lparr>io_elapsed = 0, io_read = ReadBytes ''MRDx.'', io_write_ok = True\<rparr>,
             \<lparr>io_elapsed = 1, io_read = ReadEof, io_write_ok = True\<rparr>]"

lemma toy_progress: "proto_progress toy_proto"
proof -
  have "length (dropWhile P xs) \<le> length xs" for P and xs :: string
    by (rule length_dropWhile_le)
  then show ?thesis
    unfolding proto_progress_def toy_proto_def
    by (auto split: list.splits) (metis Suc_le_eq length_Cons length_dropWhile_le)+
qed

text \<open>An event that ends a connection: end of file, a failed or timed-out read, an empty one, or the end of the time budget.\<close>

definition closing :: "io_step \<Rightarrow> bool" where
  "closing io \<longleftrightarrow> io_elapsed io > session_budget \<or> (\<forall>b. io_read io = ReadBytes b \<longrightarrow> b = [])"

lemma run_protocol_closing:
  assumes "closing io"
  shows "run_protocol p H P date s r h (pre @ [io]) = Some (s', h', outs, e, rest) \<Longrightarrow>
    e \<noteq> Waiting \<and> run_protocol p H P date s r h (pre @ io # post) = Some (s', h', outs, e, rest @ post) \<and>
    (e = EndStartTls \<longrightarrow> (\<exists>pre'. rest = pre' @ [io]))"
proof (induction pre arbitrary: s r h outs)
  case Nil
  with assms show ?case by (auto simp: closing_def split: socket_read.splits if_splits)
next
  case (Cons i pre)
  show ?case
  proof (cases "closing i")
    case True
    with Cons.prems show ?thesis by (auto simp: closing_def split: socket_read.splits if_splits)
  next
    case False
    then obtain b where b: "io_read i = ReadBytes b" "b \<noteq> []" "\<not> io_elapsed i > session_budget" by (auto simp: closing_def)
    from Cons.prems b obtain s1 r1 it1 out1 h1 e1 where
      d: "drain (Suc (length b)) p H P date (s, r, b, [], h) = Some ((s1, r1, it1, out1, h1), e1)"
      by (auto simp del: drain.simps split: option.splits)
    show ?thesis
    proof (cases "e1 = NeedRead \<and> (out1 = [] \<or> io_write_ok i)")
      case True
      with Cons.prems b d obtain outs2 where o: "run_protocol p H P date s1 r1 h1 (pre @ [io]) = Some (s', h', outs2, e, rest)"
        "outs = (if out1 = [] then outs2 else out1 # outs2)" by (auto simp del: drain.simps split: if_splits)
      from Cons.IH[OF o(1)] o(2) True b d show ?thesis by (auto simp del: drain.simps)
    next
      case no: False
      with Cons.prems b d show ?thesis by (cases e1) (auto simp del: drain.simps split: if_splits)
    qed
  qed
qed

text \<open>C4. Every connection is served to its end. If the receivers consume input whenever they report anything but "needs more
  data", then for every recorded behaviour of the socket, before or after STARTTLS, the session has a result: the inner loop
  ends, and its fuel, one more than the bytes read, never runs out. And once the socket reports end of file, an error, a timeout
  or an empty read, or the session is older than its budget of five minutes, the connection is over: the result is what it is
  when nothing follows, whatever the client still sends.\<close>

theorem serve_connection_returns:
  assumes "proto_progress P" "closing io"
  shows "(\<exists>s h' outs. serve_connection p H P date rem g t h ios = Some (s, h', outs)) \<and>
    serve_connection p H P date rem g t h (pre @ io # post) = serve_connection p H P date rem g t h (pre @ [io])"
proof
  show "\<exists>s h' outs. serve_connection p H P date rem g t h ios = Some (s, h', outs)"
    using serve_connection_total[OF assms(1), of p H date rem g t h ios] by auto
  obtain s1 h1 o1 e1 rest where r1: "run_protocol p H P date (new_session rem) (cmd_new P) h (pre @ [io]) = Some (s1, h1, o1, e1, rest)"
    using run_protocol_total[OF assms(1), of p H date "new_session rem" "cmd_new P" h "pre @ [io]"] by auto
  note c1 = run_protocol_closing[OF assms(2) r1, of post]
  show "serve_connection p H P date rem g t h (pre @ io # post) = serve_connection p H P date rem g t h (pre @ [io])"
  proof (cases "e1 = EndStartTls")
    case False
    with c1 r1 show ?thesis by (cases e1) (simp_all add: serve_connection_def Let_def)
  next
    case True
    with c1 obtain pre' where rest: "rest = pre' @ [io]" by blast
    obtain s2 h2 o2 e2 rest2 where r2: "run_protocol p H P date (upgrade_tls s1) (cmd_new P) h1 (pre' @ [io]) = Some (s2, h2, o2, e2, rest2)"
      using run_protocol_total[OF assms(1), of p H date "upgrade_tls s1" "cmd_new P" h1 "pre' @ [io]"] by auto
    from run_protocol_closing[OF assms(2) r2, of post] c1 r1 r2 rest True show ?thesis by (simp add: serve_connection_def Let_def)
  qed
qed

theorem serve_connection_returns_witness:
  "(\<exists>s h' outs. serve_connection toy_params toy_handler toy_proto ''d'' ''ip'' True True () toy_io = Some (s, h', outs)) \<and>
   serve_connection toy_params toy_handler toy_proto ''d'' ''ip'' True True ()
     ([hd toy_io] @ \<lparr>io_elapsed = 1, io_read = ReadEof, io_write_ok = True\<rparr> # toy_io) =
   serve_connection toy_params toy_handler toy_proto ''d'' ''ip'' True True ()
     ([hd toy_io] @ [\<lparr>io_elapsed = 1, io_read = ReadEof, io_write_ok = True\<rparr>])"
  by (rule serve_connection_returns[OF toy_progress]) (simp add: closing_def)

text \<open>C5. Every mail a session hands to the mail policy, over a whole connection with or without
  STARTTLS, has at least one and at most \<open>max_recipients\<close> recipients, each of which the policy
  accepted earlier in this connection, and consists of the trace header that names this peer and
  greeting, followed by at most \<open>max_message_size\<close> bytes of message. (The policy is
  instrumented to record what it is asked.)\<close>

theorem delivered_mail_good:
  assumes "serve_connection p (recording H) P date rem g t (h, [], []) ios = Some (s, (h', acc, ms), outs)"
    and "m \<in> set ms"
  shows "good_mail p date m \<and> set (im_recipients m) \<subseteq> set acc"
  using rec.serve_connection_inv[OF assms(1)] assms(2) by (auto simp: record_ok_def)

definition toy_mail :: inbound_mail where
  "toy_mail = \<lparr>im_remote = ''ip'', im_helo = [], im_mail_from = ''a'', im_recipients = [''b''],
     im_raw = ''Received: from unknown ([ip])'' @ CRLF @ [CHR 0x09] @ ''by mx with ESMTP;'' @ CRLF @
       [CHR 0x09] @ ''d'' @ CRLF @ ''x''\<rparr>"

lemma toy_run:
  "serve_connection toy_params (recording toy_handler) toy_proto ''d'' ''ip'' True True ((), [], []) toy_io =
    Some (new_session ''ip'', ((), [''b''], [toy_mail]),
      [''220 mx ESMTP ready'' @ CRLF,
       ''250 2.1.0 OK'' @ CRLF @ ''250 2.1.5 OK'' @ CRLF @ ''354 go ahead, end with <CRLF>.<CRLF>'' @ CRLF @
       ''250 2.0.0 accepted for delivery'' @ CRLF])"
  by code_simp

theorem delivered_mail_good_witness:
  "good_mail toy_params ''d'' toy_mail \<and> set (im_recipients toy_mail) \<subseteq> set [''b'']"
  by (rule delivered_mail_good[OF toy_run]) simp

text \<open>The trace header cannot be split by the client: whatever the EHLO name, the
  \<open>Received:\<close> header contains exactly its own three line breaks, provided the server's host
  name, the printed peer address and the date contain none.\<close>

lemma received_header_lines:
  assumes "LF \<notin> set (hostname p)" and "LF \<notin> set (remote s)" and "LF \<notin> set date"
  shows "count_list (received_header p date s) LF = 3"
proof -
  have c0: "count_list xs LF = 0" if "LF \<notin> set xs" for xs :: string
    using that by (simp add: count_list_0_iff)
  have "LF \<notin> set (sanitize_helo (helo s))"
    by (auto simp: sanitize_helo_def LF_def split: if_splits)
  note segs = assms this
  have lits: "LF \<notin> set ''Received: from ''" "LF \<notin> set '' ([''" "LF \<notin> set ''])''" "LF \<notin> set [CHR 0x09]"
    "LF \<notin> set ''by ''" "LF \<notin> set '' with ''" "LF \<notin> set '';''"
    "LF \<notin> set (if tls_active s then ''ESMTPS'' else ''ESMTP'')"
    by (simp_all add: LF_def)
  have crlf: "count_list CRLF LF = 1" by (simp add: CRLF_def CR_def LF_def)
  show ?thesis
    by (simp only: received_header_def count_list_append segs[THEN c0] lits[THEN c0] crlf)
qed

lemma received_header_lines_witness:
  "count_list (received_header toy_params ''d'' ((new_session ''ip'' :: unit session)\<lparr>helo := ''a'' @ CRLF @ ''Bcc: v''\<rparr>)) LF = 3"
  by (rule received_header_lines) (simp_all add: toy_params_def new_session_def LF_def)

lemma tls_preserved:
  "apply_request p H dn req s h = (s', h', out, fl) \<Longrightarrow> tls_active s \<Longrightarrow> tls_active s' \<and> fl \<noteq> FStartTls"
  by (cases req)
    (auto simp: apply_request_def reset_transaction_def split: if_splits prod.splits rcpt_verdict.splits)

lemma protocol_error_tls: "protocol_error p err s = (s', out, k) \<Longrightarrow> tls_active s' = tls_active s"
  by (auto simp: protocol_error_def Let_def split: if_splits)

lemma finish_data_tls: "finish_data p H date s h = (s', h', out) \<Longrightarrow> tls_active s' = tls_active s"
  by (auto simp: finish_data_def Let_def reset_transaction_def split: mode.splits if_splits prod.splits)

lemma drain_step_tls:
  assumes "tls_active s"
  shows "case drain_step p H P date (s, r, it, out, h) of
       Inl (s', _) \<Rightarrow> tls_active s' | Inr ((s', _), e) \<Rightarrow> tls_active s' \<and> e \<noteq> DTls"
proof (cases "mode s")
  case Command
  with assms show ?thesis
    by (auto simp: drain_step_def Let_def split: prod.splits sum.splits flow.splits
        dest: tls_preserved protocol_error_tls)
next
  case (Data dr dat disc)
  with assms show ?thesis
    by (auto simp: drain_step_def Let_def split: prod.splits dest: finish_data_tls)
qed

lemma drain_tls:
  "drain n p H P date st = Some ((s', rest), e) \<Longrightarrow> tls_active (fst st) \<Longrightarrow> tls_active s' \<and> e \<noteq> DTls"
proof (induction n arbitrary: st)
  case (Suc n)
  obtain s r it out h where st: "st = (s, r, it, out, h)" by (cases st) auto
  from drain_step_tls[of s p H P date r it out h] Suc st show ?case
    by (auto split: sum.splits prod.splits)
qed simp

text \<open>STARTTLS happens at most once: a session that is already in TLS never asks for
  another upgrade, whatever the client sends.\<close>

lemma no_second_starttls:
  assumes "run_protocol p H P date s r h ios = Some (s', h', outs, e, rest)" and "tls_active s"
  shows "e \<noteq> EndStartTls \<and> tls_active s'"
  using assms
proof (induction ios arbitrary: s r h outs)
  case (Cons io ios)
  then show ?case
    by (auto simp del: drain.simps split: if_splits socket_read.splits option.splits drain_end.splits
        dest!: drain_tls)
qed simp

lemma no_second_starttls_witness: "Closed \<noteq> EndStartTls \<and> tls_active (upgrade_tls (new_session ''ip'' :: unit session))"
proof -
  have "run_protocol toy_params toy_handler toy_proto ''d'' (upgrade_tls (new_session ''ip'')) () ()
      [\<lparr>io_elapsed = 0, io_read = ReadEof, io_write_ok = True\<rparr>] =
      Some (upgrade_tls (new_session ''ip'' :: unit session), (), [], Closed, [])"
    by (simp add: session_budget_def)
  then show ?thesis by (rule no_second_starttls) (simp add: upgrade_tls_def)
qed

end
