(* ===== verification/Storage_Db.thy ===== *)
theory Storage_Db
  imports Prelude
begin

text \<open>
  \<open>crates/owney-storage\<close>: the database. One record per table row (\<open>migrations.rs\<close>), the
  error type (\<open>error.rs\<close>) and \<open>Db::call\<close> (\<open>db.rs\<close>), which runs one closure on the single
  writer thread. A call that fails for reasons outside the model (the channel is closed, SQLite
  reports an I/O error) has no effect; which calls fail is given by the schedule \<open>faults\<close>, one
  flag per call, so that a theorem about all states covers every pattern of failures. A
  transaction that returns an error is rolled back. Ids, timestamps and random secrets are
  arguments. Foreign keys are enforced where the code inserts.
\<close>

datatype storage_error =
    StIo string
  | StSqlite string
  | StDatabase string
  | StCrypto string
  | StCorrupt string
  | StBadInput string
  | StBlobNotFound string
  | StAccountNotFound
  | StNotAuthorized
  | StConflict string
  | StClosed
  | StWriterPanicked string

record account_row =
  acc_id :: string
  acc_email :: string
  acc_display_name :: "string option"
  acc_created_at :: int
  acc_disabled_at :: "int option"

record mailbox_row =
  mb_id :: string
  mb_account_id :: string
  mb_parent_id :: "string option"
  mb_name :: string
  mb_role :: "string option"
  mb_sort_order :: int
  mb_created_modseq :: int
  mb_updated_modseq :: int

record state_row =
  st_account_id :: string
  st_data_type :: string
  st_modseq :: int

record app_password_row =
  ap_token_hash :: string
  ap_account_id :: string
  ap_name :: string
  ap_created_at :: int
  ap_last_used_at :: "int option"
  ap_expires_at :: "int option"
  ap_scopes :: "string option"
  ap_oauth_client_id :: "string option"

record alias_row =
  al_id :: string
  al_account_id :: string
  al_alias_email :: string
  al_label :: "string option"
  al_created_at :: int
  al_expires_at :: "int option"
  al_active :: bool

datatype queue_status = Queued | Sending | Delivered | Failed

record queue_row =
  q_id :: string
  q_account_id :: string
  q_blob_id :: string
  q_mail_from :: string
  q_recipient :: string
  q_domain :: string
  q_attempts :: nat
  q_next_attempt :: int
  q_status :: queue_status
  q_last_error :: "string option"
  q_priority :: nat
  q_created_at :: int
  q_updated_at :: int

record oauth_client_row =
  oc_id :: string
  oc_name :: string
  oc_redirect_uris :: "string list"
  oc_secret_hash :: "string option"
  oc_disabled :: bool
  oc_created_at :: int

record oauth_grant_row =
  og_id :: string
  og_account_id :: string
  og_client_id :: string
  og_scopes :: string
  og_created_at :: int
  og_updated_at :: int

record refresh_row =
  rt_token_hash :: string
  rt_family_id :: string
  rt_account_id :: string
  rt_client_id :: string
  rt_scopes :: string
  rt_access_token_hash :: "string option"
  rt_expires_at :: int
  rt_used_at :: "int option"
  rt_revoked_at :: "int option"
  rt_created_at :: int

record thread_row =
  th_id :: string
  th_account_id :: string
  th_created_modseq :: int
  th_updated_modseq :: int

record email_row =
  em_id :: string
  em_account_id :: string
  em_thread_id :: string
  em_blob_id :: string
  em_message_id :: "string option"
  em_subject :: "string option"
  em_from_addr :: "string option"
  em_received_at :: int
  em_size :: nat
  em_created_modseq :: int
  em_updated_modseq :: int
  em_auth_results :: "string option"
  em_pgp_status :: "string option"
  em_spam_results :: "string option"
  em_chat_mode :: bool

record email_attribute_row =
  at_id :: string
  at_account_id :: string
  at_email_id :: string
  at_kind :: string
  at_content :: string
  at_dismissed_at :: "int option"
  at_created_at :: int
  at_updated_at :: int

record blob_row =
  bl_id :: string
  bl_size :: nat
  bl_refcount :: int
  bl_created_at :: int

record contact_row =
  ct_id :: string
  ct_account_id :: string
  ct_email :: string
  ct_name :: "string option"
  ct_phone :: "string option"
  ct_created_at :: int
  ct_updated_at :: int

record chat_pref_row =
  cp_account_id :: string
  cp_contact_email :: string
  cp_preference :: string
  cp_created_at :: int
  cp_updated_at :: int

record spam_token_row =
  sp_account_id :: string
  sp_token :: string
  sp_spam_count :: nat
  sp_ham_count :: nat

record calendar_row =
  cal_id :: string
  cal_account_id :: string
  cal_name :: string
  cal_description :: "string option"
  cal_created_at :: int
  cal_updated_at :: int

record calendar_event_row =
  ev_id :: string
  ev_calendar_id :: string
  ev_title :: string
  ev_description :: "string option"
  ev_start :: int
  ev_end :: int
  ev_rrule :: "string option"
  ev_created_at :: int
  ev_updated_at :: int
  ev_origin :: "string option"
  ev_origin_federation :: "string option"

text \<open>The availability document of a booking page. The column holds its JSON text, which is always
  the output of the serializer; the model holds the document.\<close>

record time_window =
  tw_start :: string
  tw_end :: string

record availability =
  av_version :: nat
  av_weekly :: "(string, time_window list) btree"
  av_overrides :: "(string, time_window list) btree"

record page_row =
  pg_id :: string
  pg_account_id :: string
  pg_slug :: string
  pg_title :: string
  pg_description :: "string option"
  pg_calendar_id :: string
  pg_timezone :: string
  pg_availability :: availability
  pg_durations_mins :: "nat list"
  pg_buffer_before_mins :: nat
  pg_buffer_after_mins :: nat
  pg_min_notice_mins :: nat
  pg_max_per_day :: "nat option"
  pg_valid_from :: "string option"
  pg_valid_until :: "string option"
  pg_active :: bool
  pg_created_at :: int
  pg_updated_at :: int

record booking_row =
  bk_id :: string
  bk_page_id :: string
  bk_account_id :: string
  bk_event_id :: string
  bk_visitor_name :: string
  bk_visitor_email :: string
  bk_note :: "string option"
  bk_start :: int
  bk_end :: int
  bk_confirmed :: bool
  bk_cancel_token :: string
  bk_created_at :: int

text \<open>\<open>calendar_sharing.rs\<close>: the kinds of share and what they grant. The permissions column holds the JSON
  text of the record, always written by the serializer.\<close>

datatype sharing_type = Sharing | Delegation

record permissions =
  view_calendar :: bool
  view_events :: bool
  edit_events :: bool
  delete_events :: bool
  change_sharing :: bool
  admin :: bool

record sharing_row =
  cs_id :: string
  cs_calendar_id :: string
  cs_shared_with_account_id :: string
  cs_sharing_type :: sharing_type
  cs_permissions :: permissions
  cs_status :: string
  cs_created_at :: int
  cs_accepted_at :: "int option"

record invitation_row =
  ci_id :: string
  ci_calendar_id :: string
  ci_inviter_account_id :: string
  ci_invitee_email :: string
  ci_invitee_server_url :: "string option"
  ci_sharing_type :: sharing_type
  ci_status :: string
  ci_message :: "string option"
  ci_created_at :: int

record federation_row =
  fd_id :: string
  fd_calendar_id :: string
  fd_target_email :: string
  fd_target_server_url :: string
  fd_sharing_type :: sharing_type
  fd_permissions :: permissions
  fd_status :: string
  fd_sync_token :: "string option"
  fd_last_sync_at :: "int option"
  fd_created_at :: int
  fd_peer_domain :: "string option"
  fd_peer_fingerprint :: "string option"
  fd_capability_secret :: "string option"
  fd_direction :: "string option"

record identity_row =
  si_fingerprint :: string
  si_blob_id :: string
  si_created_at :: int

record peer_row =
  pr_domain :: string
  pr_server_url :: string
  pr_cert :: string
  pr_fingerprint :: string
  pr_pinned_at :: int
  pr_last_seen :: "int option"

record nonce_row =
  nn_sender_fp :: string
  nn_nonce :: string
  nn_expires_at :: int

record event_map_row =
  fm_federation_id :: string
  fm_remote_uid :: string
  fm_local_event_id :: string
  fm_author_email :: string
  fm_updated_at :: int

record outbox_row =
  fo_id :: string
  fo_federation_id :: string
  fo_peer_domain :: string
  fo_payload :: string
  fo_attempts :: int
  fo_next_attempt :: int
  fo_status :: string
  fo_last_error :: "string option"
  fo_created_at :: int
  fo_updated_at :: int

record pgp_own_key_row =
  po_account_id :: string
  po_fingerprint :: string
  po_blob_id :: string
  po_created_at :: int

record pgp_peer_row =
  pp_account_id :: string
  pp_address :: string
  pp_cert :: string
  pp_fingerprint :: string
  pp_prefer_encrypt :: "string option"
  pp_last_seen :: int

record ai_action_row =
  aa_id :: string
  aa_account_id :: string
  aa_email_id :: "string option"
  aa_skill :: string
  aa_description :: string
  aa_inverse_patch :: "string option"
  aa_undone :: bool
  aa_created_at :: int

record ai_cursor_row =
  ac_account_id :: string
  ac_last_modseq :: int

record passkey_row =
  pk_id :: string
  pk_account_id :: string
  pk_device_name :: string
  pk_public_key :: string
  pk_counter :: nat
  pk_backup_eligible :: bool
  pk_backup_state :: bool
  pk_aaguid :: "string option"
  pk_created_at :: int
  pk_last_used_at :: "int option"
  pk_disabled :: bool

record recovery_code_row =
  rc_id :: string
  rc_account_id :: string
  rc_code_hash :: string
  rc_display_code :: string
  rc_used :: bool
  rc_used_at :: "int option"
  rc_created_at :: int

record device_pairing_row =
  dp_id :: string
  dp_account_id :: string
  dp_device_name :: string
  dp_device_type :: string
  dp_public_key :: string
  dp_can_approve :: bool
  dp_push_token :: "string option"
  dp_paired_at :: int
  dp_last_used_at :: "int option"
  dp_disabled :: bool

record approval_request_row =
  aq_id :: string
  aq_account_id :: string
  aq_source_device :: string
  aq_request_type :: string
  aq_challenge :: string
  aq_created_at :: int
  aq_expires_at :: int
  aq_status :: string
  aq_approved_by_device :: "string option"
  aq_approved_at :: "int option"

datatype delivery_status =
    DsQueued
  | DsDelivered string
  | DsTemporaryFailure string string
  | DsPermanentFailure string string

datatype security_event_kind = PeerKeyChanged string | AuthFailure | OtherKind

datatype event =
    StateChange string "(string \<times> int) list"
  | DeliveryEvent string string delivery_status
  | SecurityEvent "string option" security_event_kind string

record db =
  accounts :: "account_row list"
  mailboxes :: "mailbox_row list"
  states :: "state_row list"
  threads :: "thread_row list"
  emails :: "email_row list"
  email_mailbox :: "(string \<times> string) list"
  email_keyword :: "(string \<times> string) list"
  email_attributes :: "email_attribute_row list"
  blobs :: "blob_row list"
  contacts :: "contact_row list"
  chat_preferences :: "chat_pref_row list"
  spam_tokens :: "spam_token_row list"
  app_passwords :: "app_password_row list"
  aliases :: "alias_row list"
  queue :: "queue_row list"
  oauth_clients :: "oauth_client_row list"
  oauth_grants :: "oauth_grant_row list"
  oauth_refresh_tokens :: "refresh_row list"
  calendars :: "calendar_row list"
  calendar_events :: "calendar_event_row list"
  scheduling_pages :: "page_row list"
  bookings :: "booking_row list"
  calendar_sharing :: "sharing_row list"
  calendar_invitations :: "invitation_row list"
  calendar_federation :: "federation_row list"
  server_identity :: "identity_row option"
  federation_peers :: "peer_row list"
  federation_replay_nonce :: "nonce_row list"
  federation_event_map :: "event_map_row list"
  federation_outbox :: "outbox_row list"
  pgp_own_keys :: "pgp_own_key_row list"
  pgp_peers :: "pgp_peer_row list"
  ai_actions :: "ai_action_row list"
  ai_cursors :: "ai_cursor_row list"
  passkey_credentials :: "passkey_row list"
  recovery_codes :: "recovery_code_row list"
  device_pairings :: "device_pairing_row list"
  approval_requests :: "approval_request_row list"
  published :: "event list"
  faults :: "bool list"

definition empty_db :: db where
  "empty_db = \<lparr>accounts = [], mailboxes = [], states = [], threads = [], emails = [],
     email_mailbox = [], email_keyword = [], email_attributes = [], blobs = [], contacts = [], chat_preferences = [],
     spam_tokens = [], app_passwords = [], aliases = [],
     queue = [], oauth_clients = [], oauth_grants = [], oauth_refresh_tokens = [],
     calendars = [], calendar_events = [], scheduling_pages = [], bookings = [],
     calendar_sharing = [], calendar_invitations = [], calendar_federation = [],
     server_identity = None, federation_peers = [], federation_replay_nonce = [],
     federation_event_map = [], federation_outbox = [],
     pgp_own_keys = [], pgp_peers = [], ai_actions = [], ai_cursors = [],
     passkey_credentials = [], recovery_codes = [], device_pairings = [], approval_requests = [],
     published = [], faults = []\<rparr>"

type_synonym 'a op = "db \<Rightarrow> (storage_error, 'a) result \<times> db"

definition db_call :: "'a op \<Rightarrow> 'a op" where
  "db_call f d =
     (case faults d of
        [] \<Rightarrow> f d
      | b # fs \<Rightarrow> if b then (Inl StClosed, d\<lparr>faults := fs\<rparr>) else f (d\<lparr>faults := fs\<rparr>))"

text \<open>A transaction that is not committed is rolled back when it is dropped.\<close>

definition transaction :: "'a op \<Rightarrow> 'a op" where
  "transaction f d = (case f d of (Inl e, _) \<Rightarrow> (Inl e, d) | (Inr a, d') \<Rightarrow> (Inr a, d'))"

definition op_return :: "'a \<Rightarrow> 'a op" where
  "op_return a d = (Inr a, d)"

definition op_fail :: "storage_error \<Rightarrow> 'a op" where
  "op_fail e d = (Inl e, d)"

definition op_bind :: "'a op \<Rightarrow> ('a \<Rightarrow> 'b op) \<Rightarrow> 'b op" where
  "op_bind f g d = (case f d of (Inl e, d') \<Rightarrow> (Inl e, d') | (Inr a, d') \<Rightarrow> g a d')"

text \<open>rusqlite refuses a statement bound with a number of parameters other than the highest
  parameter index the statement mentions.\<close>

definition sql_bind :: "nat \<Rightarrow> nat \<Rightarrow> 'a op \<Rightarrow> 'a op" where
  "sql_bind needed given f = (if given = needed then f else op_fail (StSqlite ''InvalidParameterCount''))"

definition unique_error :: storage_error where
  "unique_error = StSqlite ''UNIQUE constraint failed''"

definition fk_error :: storage_error where
  "fk_error = StSqlite ''FOREIGN KEY constraint failed''"

definition has_account :: "db \<Rightarrow> string \<Rightarrow> bool" where
  "has_account d a \<longleftrightarrow> a \<in> acc_id ` set (accounts d)"

definition has_client :: "db \<Rightarrow> string \<Rightarrow> bool" where
  "has_client d c \<longleftrightarrow> c \<in> oc_id ` set (oauth_clients d)"

section \<open>The call interface\<close>

lemmas op_defs = op_return_def op_fail_def op_bind_def

lemma op_bind_okD: "op_bind f g d = (Inr y, d') \<Longrightarrow> \<exists>x d1. f d = (Inr x, d1) \<and> g x d1 = (Inr y, d')"
  by (auto simp: op_bind_def split: prod.splits sum.splits)

lemma db_call_cases [consumes 1, case_names fault run]:
  assumes "db_call f d = (r, d')"
  obtains fs where "r = Inl StClosed" "d' = d\<lparr>faults := fs\<rparr>"
  | fs where "f (d\<lparr>faults := fs\<rparr>) = (r, d')"
proof (cases "faults d")
  case Nil
  moreover have "d\<lparr>faults := faults d\<rparr> = d" by (cases d) simp
  moreover from Nil assms have "f d = (r, d')" by (simp add: db_call_def)
  ultimately have "f (d\<lparr>faults := faults d\<rparr>) = (r, d')" by metis
  then show ?thesis by (rule that(2))
next
  case (Cons b fs)
  with assms that show ?thesis by (auto simp: db_call_def split: if_splits)
qed

lemma db_call_ok:
  assumes "db_call f d = (Inr a, d')"
  obtains fs where "f (d\<lparr>faults := fs\<rparr>) = (Inr a, d')"
  using assms by (cases rule: db_call_cases) auto

lemma db_call_okD: "db_call f d = (Inr a, d') \<Longrightarrow> \<exists>fs. f (d\<lparr>faults := fs\<rparr>) = (Inr a, d')"
  by (erule db_call_ok) blast

lemma db_call_no_faults [simp]: "faults d = [] \<Longrightarrow> db_call f d = f d"
  by (simp add: db_call_def)

lemma transaction_ok: "transaction f d = (Inr a, d') \<longleftrightarrow> f d = (Inr a, d')"
  by (auto simp: transaction_def split: prod.splits sum.splits)

lemma transaction_okD: "transaction f d = (Inr a, d') \<Longrightarrow> f d = (Inr a, d')"
  by (simp add: transaction_ok)

lemma transaction_err: "transaction f d = (Inl e, d') \<Longrightarrow> d' = d"
  by (auto simp: transaction_def split: prod.splits sum.splits)

text \<open>A property of states that ignores the failure schedule is kept by a call when the closure
  keeps it.\<close>

lemma db_call_preserves:
  assumes "db_call f d = (r, d')" "I d"
    and "\<And>d fs. I (d\<lparr>faults := fs\<rparr>) = I d"
    and "\<And>d r d'. f d = (r, d') \<Longrightarrow> I d \<Longrightarrow> I d'"
  shows "I d'"
  using assms(1)
proof (cases rule: db_call_cases)
  case (fault fs)
  with assms show ?thesis by simp
next
  case (run fs)
  from assms(4)[OF run] assms(2,3) show ?thesis by simp
qed

lemma transaction_preserves:
  assumes "transaction f d = (r, d')" "I d" "\<And>a. f d = (Inr a, d') \<Longrightarrow> I d'"
  shows "I d'"
  using assms by (cases r) (auto simp: transaction_ok dest: transaction_err)

section \<open>What an operation leaves alone\<close>

text \<open>An operation keeps a view of the database when the view is the same afterwards, whatever the
  result. For a view that does not look at the failure schedule this carries over calls, transactions
  and sequences of operations.\<close>

definition keeps :: "(db \<Rightarrow> 'v) \<Rightarrow> 'a op \<Rightarrow> bool" where
  "keeps view f \<longleftrightarrow> (\<forall>d. view (snd (f d)) = view d)"

named_theorems keeps_intros \<open>operations that keep a view\<close>

lemma keepsD: "keeps view f \<Longrightarrow> f d = (r, d') \<Longrightarrow> view d' = view d"
  by (metis keeps_def snd_conv)

locale db_view =
  fixes view :: "db \<Rightarrow> 'v"
  assumes view_faults: "view (d\<lparr>faults := fs\<rparr>) = view d"
begin

lemma keeps_return: "keeps view (op_return a)"
  by (simp add: keeps_def op_return_def)

lemma keeps_fail: "keeps view (op_fail e)"
  by (simp add: keeps_def op_fail_def)

lemma keeps_bind: "keeps view f \<Longrightarrow> (\<And>a. keeps view (g a)) \<Longrightarrow> keeps view (op_bind f g)"
  unfolding keeps_def op_bind_def by (auto split: prod.splits sum.splits) (metis snd_conv)+

lemma keeps_call: "keeps view f \<Longrightarrow> keeps view (db_call f)"
  by (auto simp: keeps_def db_call_def view_faults split: list.splits)

lemma keeps_transaction: "keeps view f \<Longrightarrow> keeps view (transaction f)"
  unfolding keeps_def transaction_def by (auto split: prod.splits sum.splits) (metis snd_conv)

lemma keeps_if: "(c \<Longrightarrow> keeps view f) \<Longrightarrow> (\<not> c \<Longrightarrow> keeps view g) \<Longrightarrow> keeps view (if c then f else g)"
  by simp

end

end
