(* ===== verification/Accounts.thy ===== *)
theory Accounts
  imports Storage_Db
begin

text \<open>
  Accounts of \<open>crates/owney-storage/src/lib.rs\<close>: creation with the default mailboxes, look-up,
  disabling, enabling and deletion.
\<close>

section \<open>Definitions\<close>

record account_t =
  a_id :: string
  a_email :: string
  a_display_name :: "string option"
  a_created_at :: int

definition row_to_account :: "account_row \<Rightarrow> account_t" where
  "row_to_account r = \<lparr>a_id = acc_id r, a_email = acc_email r,
     a_display_name = acc_display_name r, a_created_at = acc_created_at r\<rparr>"

definition DEFAULT_MAILBOXES :: "(string \<times> string \<times> int) list" where
  "DEFAULT_MAILBOXES = [(''Inbox'', ''inbox'', 0), (''Screener'', ''screener'', 1),
     (''Drafts'', ''drafts'', 2), (''Sent'', ''sent'', 3), (''Archive'', ''archive'', 4),
     (''Junk'', ''junk'', 5), (''Trash'', ''trash'', 6)]"

text \<open>\<open>bump\<close>: insert modseq 1 or increment, returning the new value.\<close>

definition bump :: "string \<Rightarrow> string \<Rightarrow> int op" where
  "bump acct dt d =
     (case sql_select (\<lambda>r. st_account_id r = acct \<and> st_data_type r = dt) (states d) of
        None \<Rightarrow> (Inr 1, d\<lparr>states := states d @ [\<lparr>st_account_id = acct, st_data_type = dt, st_modseq = 1\<rparr>]\<rparr>)
      | Some row \<Rightarrow> (Inr (st_modseq row + 1),
          d\<lparr>states := sql_update (\<lambda>r. st_account_id r = acct \<and> st_data_type r = dt)
                        (\<lambda>r. r\<lparr>st_modseq := st_modseq r + 1\<rparr>) (states d)\<rparr>))"

definition account :: "string \<Rightarrow> account_t option op" where
  "account acct = db_call (\<lambda>d. (Inr (map_option row_to_account
     (sql_select (\<lambda>r. acc_id r = acct) (accounts d))), d))"

text \<open>The email columns are \<open>COLLATE NOCASE\<close>.\<close>

definition account_by_email :: "string \<Rightarrow> account_t option op" where
  "account_by_email email =
     (let email = to_lowercase (trim email) in
      db_call (\<lambda>d. (Inr (map_option row_to_account
        (sql_select (\<lambda>r. eq_ignore_ascii_case (acc_email r) email \<and> acc_disabled_at r = None) (accounts d))), d)))"

definition account_by_email_any_state :: "string \<Rightarrow> account_t option op" where
  "account_by_email_any_state email =
     (let email = to_lowercase (trim email) in
      db_call (\<lambda>d. (Inr (map_option row_to_account
        (sql_select (\<lambda>r. eq_ignore_ascii_case (acc_email r) email) (accounts d))), d)))"

text \<open>The transaction of \<open>create_account\<close>, with the ids of the account and its mailboxes.\<close>

definition insert_account :: "int \<Rightarrow> string \<Rightarrow> string list \<Rightarrow> string \<Rightarrow> string option \<Rightarrow> (string \<times> int) list op" where
  "insert_account now acct mb_ids email display d =
     (if acct \<in> acc_id ` set (accounts d) \<or>
         (\<exists>r \<in> set (accounts d). eq_ignore_ascii_case (acc_email r) email)
      then (Inl unique_error, d)
      else
        let d1 = d\<lparr>accounts := accounts d @ [\<lparr>acc_id = acct, acc_email = email,
                    acc_display_name = display, acc_created_at = now, acc_disabled_at = None\<rparr>]\<rparr>
        in op_bind (bump acct ''Mailbox'') (\<lambda>modseq d2.
             (Inr [(''Mailbox'', modseq)],
              d2\<lparr>mailboxes := mailboxes d2 @
                  map (\<lambda>(mid, nm, role, ord). \<lparr>mb_id = mid, mb_account_id = acct, mb_parent_id = None,
                         mb_name = nm, mb_role = Some role, mb_sort_order = ord, mb_created_modseq = modseq,
                         mb_updated_modseq = modseq\<rparr>)
                    (zip mb_ids DEFAULT_MAILBOXES)\<rparr>)) d1)"

definition create_account :: "int \<Rightarrow> string \<Rightarrow> string list \<Rightarrow> string \<Rightarrow> string option \<Rightarrow> account_t op" where
  "create_account now acct mb_ids email display =
     op_bind (db_call (transaction (insert_account now acct mb_ids (to_lowercase (trim email)) display)))
       (\<lambda>changed d. op_bind (account acct)
          (\<lambda>r. case r of Some a \<Rightarrow> op_return a | None \<Rightarrow> op_fail StAccountNotFound)
          (d\<lparr>published := published d @ [StateChange acct changed]\<rparr>))"

definition disable_account :: "int \<Rightarrow> string \<Rightarrow> unit op" where
  "disable_account now acct = db_call (sql_bind 2 2 (\<lambda>d. (Inr (),
     d\<lparr>accounts := sql_update (\<lambda>r. acc_id r = acct) (\<lambda>r. r\<lparr>acc_disabled_at := Some now\<rparr>) (accounts d)\<rparr>)))"

text \<open>\<open>UPDATE accounts SET disabled_at = NULL WHERE id = ?2\<close>, bound with one parameter.\<close>

definition enable_account :: "string \<Rightarrow> unit op" where
  "enable_account acct = db_call (sql_bind 2 1 (\<lambda>d. (Inr (),
     d\<lparr>accounts := sql_update (\<lambda>r. acc_id r = acct) (\<lambda>r. r\<lparr>acc_disabled_at := None\<rparr>) (accounts d)\<rparr>)))"

text \<open>The tables the migrations create, each with whether it has a column \<open>account_id\<close>.\<close>

definition schema :: "(string \<times> bool) list" where
  "schema = [(''accounts'', False), (''mailboxes'', True), (''threads'', True), (''emails'', True),
     (''email_mailbox'', False), (''email_keyword'', False), (''blobs'', False), (''states'', True),
     (''queue'', True), (''app_passwords'', True), (''pgp_own_keys'', True), (''pgp_peers'', True),
     (''ai_annotations'', True), (''ai_actions'', True), (''ai_cursor'', True),
     (''dmarc_reports'', True), (''aliases'', True), (''spam_tokens'', True),
     (''chat_preferences'', True), (''calendars'', True), (''calendar_events'', False),
     (''contacts'', True), (''calendar_sharing'', False), (''calendar_invitations'', False),
     (''calendar_federation'', False), (''passkey_credentials'', True), (''recovery_codes'', True),
     (''device_pairings'', True), (''approval_requests'', True), (''server_identity'', False),
     (''federation_peers'', False), (''federation_replay_nonce'', False),
     (''federation_event_map'', False), (''federation_outbox'', False),
     (''email_attributes'', True), (''scheduling_pages'', True), (''bookings'', True),
     (''oauth_clients'', False), (''oauth_grants'', True), (''oauth_refresh_tokens'', True)]"

definition DELETE_TABLES :: "string list" where
  "DELETE_TABLES = [''oauth_refresh_tokens'', ''oauth_grants'', ''approval_requests'',
     ''device_pairings'', ''passkey_credentials'', ''recovery_codes'', ''bookings'',
     ''scheduling_pages'', ''aliases'', ''submissions'', ''queue'', ''app_passwords'', ''pgp_peers'',
     ''pgp_own_keys'', ''ai_actions'', ''ai_annotations'', ''email_attributes'', ''email_keyword'',
     ''email_mailbox'', ''emails'', ''threads'', ''mailboxes'', ''states'']"

text \<open>\<open>DELETE FROM t WHERE account_id = ?1\<close>; the rows of tables outside the model are not
  tracked.\<close>

definition delete_rows :: "string \<Rightarrow> string \<Rightarrow> db \<Rightarrow> db" where
  "delete_rows t acct d =
     (if t = ''oauth_refresh_tokens'' then d\<lparr>oauth_refresh_tokens := sql_delete (\<lambda>r. rt_account_id r = acct) (oauth_refresh_tokens d)\<rparr>
      else if t = ''oauth_grants'' then d\<lparr>oauth_grants := sql_delete (\<lambda>r. og_account_id r = acct) (oauth_grants d)\<rparr>
      else if t = ''bookings'' then d\<lparr>bookings := sql_delete (\<lambda>r. bk_account_id r = acct) (bookings d)\<rparr>
      else if t = ''scheduling_pages'' then d\<lparr>scheduling_pages := sql_delete (\<lambda>r. pg_account_id r = acct) (scheduling_pages d)\<rparr>
      else if t = ''aliases'' then d\<lparr>aliases := sql_delete (\<lambda>r. al_account_id r = acct) (aliases d)\<rparr>
      else if t = ''queue'' then d\<lparr>queue := sql_delete (\<lambda>r. q_account_id r = acct) (queue d)\<rparr>
      else if t = ''app_passwords'' then d\<lparr>app_passwords := sql_delete (\<lambda>r. ap_account_id r = acct) (app_passwords d)\<rparr>
      else if t = ''passkey_credentials'' then d\<lparr>passkey_credentials := sql_delete (\<lambda>r. pk_account_id r = acct) (passkey_credentials d)\<rparr>
      else if t = ''recovery_codes'' then d\<lparr>recovery_codes := sql_delete (\<lambda>r. rc_account_id r = acct) (recovery_codes d)\<rparr>
      else if t = ''device_pairings'' then d\<lparr>device_pairings := sql_delete (\<lambda>r. dp_account_id r = acct) (device_pairings d)\<rparr>
      else if t = ''approval_requests'' then d\<lparr>approval_requests := sql_delete (\<lambda>r. aq_account_id r = acct) (approval_requests d)\<rparr>
      else if t = ''pgp_peers'' then d\<lparr>pgp_peers := sql_delete (\<lambda>r. pp_account_id r = acct) (pgp_peers d)\<rparr>
      else if t = ''pgp_own_keys'' then d\<lparr>pgp_own_keys := sql_delete (\<lambda>r. po_account_id r = acct) (pgp_own_keys d)\<rparr>
      else if t = ''ai_actions'' then d\<lparr>ai_actions := sql_delete (\<lambda>r. aa_account_id r = acct) (ai_actions d)\<rparr>
      else if t = ''email_attributes'' then d\<lparr>email_attributes := sql_delete (\<lambda>r. at_account_id r = acct) (email_attributes d)\<rparr>
      else if t = ''emails'' then d\<lparr>emails := sql_delete (\<lambda>r. em_account_id r = acct) (emails d)\<rparr>
      else if t = ''threads'' then d\<lparr>threads := sql_delete (\<lambda>r. th_account_id r = acct) (threads d)\<rparr>
      else if t = ''mailboxes'' then d\<lparr>mailboxes := sql_delete (\<lambda>r. mb_account_id r = acct) (mailboxes d)\<rparr>
      else if t = ''states'' then d\<lparr>states := sql_delete (\<lambda>r. st_account_id r = acct) (states d)\<rparr>
      else d)"

definition delete_from :: "string \<Rightarrow> string \<Rightarrow> unit op" where
  "delete_from t acct d =
     (case map_of schema t of
        None \<Rightarrow> (Inl (StSqlite (''no such table: '' @ t)), d)
      | Some False \<Rightarrow> (Inl (StSqlite ''no such column: account_id''), d)
      | Some True \<Rightarrow> (Inr (), delete_rows t acct d))"

fun delete_tables :: "string list \<Rightarrow> string \<Rightarrow> unit op" where
  "delete_tables [] acct = op_return ()"
| "delete_tables (t # ts) acct = op_bind (delete_from t acct) (\<lambda>_. delete_tables ts acct)"

definition delete_account :: "string \<Rightarrow> unit op" where
  "delete_account acct = db_call (transaction (op_bind (delete_tables DELETE_TABLES acct)
     (\<lambda>_ d. (Inr (), d\<lparr>accounts := sql_delete (\<lambda>r. acc_id r = acct) (accounts d)\<rparr>))))"

text \<open>\<open>Storage::state\<close>: zero when the type was never bumped.\<close>

definition state :: "string \<Rightarrow> string \<Rightarrow> int op" where
  "state acct dt = db_call (\<lambda>d. (Inr (case sql_select (\<lambda>r. st_account_id r = acct \<and> st_data_type r = dt) (states d) of
      None \<Rightarrow> 0 | Some r \<Rightarrow> st_modseq r), d))"

section \<open>Lemmas\<close>

lemma account_by_email_enabled:
  assumes "account_by_email email d = (Inr (Some a), d')"
  shows "\<exists>r \<in> set (accounts d). a = row_to_account r \<and> acc_disabled_at r = None \<and>
    eq_ignore_ascii_case (acc_email r) (to_lowercase (trim email))"
  using assms unfolding account_by_email_def Let_def
  by (elim db_call_ok) (auto dest!: sql_select_Some)

lemma delete_tables_missing:
  "t \<in> set ts \<Longrightarrow> map_of schema t \<noteq> Some True \<Longrightarrow> \<exists>e. fst (delete_tables ts acct d) = Inl e"
proof (induction ts arbitrary: d)
  case (Cons u ts)
  then show ?case
    by (auto simp: op_bind_def delete_from_def split: option.splits bool.splits prod.splits sum.splits)
qed simp

lemma bump_cases:
  assumes "bump acct dt d = (r, d')"
  shows "\<exists>m. r = Inr m \<and> (\<exists>rows. d' = d\<lparr>states := rows\<rparr>)"
  using assms by (auto simp: bump_def split: option.splits)

end
