(* ===== verification/Tokens.thy ===== *)
theory Tokens
  imports Accounts
begin

text \<open>
  \<open>crates/owney-storage/src/tokens.rs\<close>: bearer tokens, legacy full-access ones and scoped ones
  minted by the OpenID provider, and \<open>crates/owney-storage/src/aliases.rs\<close>: mail aliases and
  recipient resolution. The hash (BLAKE3) is the parameter \<open>blake3\<close>; a random secret is the
  argument \<open>secret\<close>, its hexadecimal digits or \<^const>\<open>None\<close> when the generator fails.
\<close>

section \<open>Definitions\<close>

definition TOKEN_PREFIX :: string where "TOKEN_PREFIX = ''msk_''"

datatype token_access = Full | Scoped "string list"

fun allows :: "token_access \<Rightarrow> string \<Rightarrow> bool" where
  "allows Full scope = True"
| "allows (Scoped scopes) scope = (scope \<in> set scopes)"

definition insert_app_password :: "app_password_row \<Rightarrow> unit op" where
  "insert_app_password row d =
     (if \<not> has_account d (ap_account_id row) \<or>
         (case ap_oauth_client_id row of None \<Rightarrow> False | Some c \<Rightarrow> \<not> has_client d c)
      then (Inl fk_error, d)
      else (case sql_insert ap_token_hash row (app_passwords d) of
              None \<Rightarrow> (Inl unique_error, d)
            | Some rows \<Rightarrow> (Inr (), d\<lparr>app_passwords := rows\<rparr>)))"

definition create_token :: "(string \<Rightarrow> string) \<Rightarrow> int \<Rightarrow> string option \<Rightarrow> string \<Rightarrow> string \<Rightarrow> string op" where
  "create_token blake3 now secret acct nm =
     (case secret of
        None \<Rightarrow> op_fail (StCrypto ''os rng'')
      | Some hex \<Rightarrow>
          (let token = TOKEN_PREFIX @ hex in
           op_bind (db_call (insert_app_password
             \<lparr>ap_token_hash = blake3 token, ap_account_id = acct, ap_name = nm, ap_created_at = now,
              ap_last_used_at = None, ap_expires_at = None, ap_scopes = None, ap_oauth_client_id = None\<rparr>))
             (\<lambda>_. op_return token)))"

definition create_scoped_token :: "(string \<Rightarrow> string) \<Rightarrow> int \<Rightarrow> string option \<Rightarrow> string \<Rightarrow> string \<Rightarrow>
    string list \<Rightarrow> int \<Rightarrow> string \<Rightarrow> (string \<times> string) op" where
  "create_scoped_token blake3 now secret acct nm scopes expires_at client =
     (case secret of
        None \<Rightarrow> op_fail (StCrypto ''os rng'')
      | Some hex \<Rightarrow>
          (let token = TOKEN_PREFIX @ hex; token_hash = blake3 token in
           op_bind (db_call (insert_app_password
             \<lparr>ap_token_hash = token_hash, ap_account_id = acct, ap_name = nm, ap_created_at = now,
              ap_last_used_at = None, ap_expires_at = Some expires_at,
              ap_scopes = Some (join '' '' scopes), ap_oauth_client_id = Some client\<rparr>))
             (\<lambda>_. op_return (token, token_hash))))"

text \<open>\<open>app_passwords p JOIN accounts a ON a.id = p.account_id\<close>.\<close>

definition token_join :: "db \<Rightarrow> (app_password_row \<times> account_row) list" where
  "token_join d = concat (map (\<lambda>p. map (\<lambda>a. (p, a)) (filter (\<lambda>a. acc_id a = ap_account_id p) (accounts d)))
                              (app_passwords d))"

definition not_expired :: "int \<Rightarrow> int option \<Rightarrow> bool" where
  "not_expired now e \<longleftrightarrow> (case e of None \<Rightarrow> True | Some t \<Rightarrow> t > now)"

definition touch_token :: "int \<Rightarrow> string \<Rightarrow> db \<Rightarrow> db" where
  "touch_token now hash d = d\<lparr>app_passwords :=
     sql_update (\<lambda>p. ap_token_hash p = hash) (\<lambda>p. p\<lparr>ap_last_used_at := Some now\<rparr>) (app_passwords d)\<rparr>"

definition account_by_token :: "(string \<Rightarrow> string) \<Rightarrow> int \<Rightarrow> string \<Rightarrow> account_t option op" where
  "account_by_token blake3 now token =
     (if \<not> starts_with TOKEN_PREFIX token then op_return None
      else let token_hash = blake3 token in
        db_call (\<lambda>d.
          case sql_select (\<lambda>(p, a). ap_token_hash p = token_hash \<and> acc_disabled_at a = None \<and>
                 ap_scopes p = None \<and> not_expired now (ap_expires_at p)) (token_join d) of
            None \<Rightarrow> (Inr None, d)
          | Some (p, a) \<Rightarrow> (Inr (Some (row_to_account a)), touch_token now token_hash d)))"

definition account_and_access_by_token ::
    "(string \<Rightarrow> string) \<Rightarrow> int \<Rightarrow> string \<Rightarrow> (account_t \<times> token_access) option op" where
  "account_and_access_by_token blake3 now token =
     (if \<not> starts_with TOKEN_PREFIX token then op_return None
      else let token_hash = blake3 token in
        db_call (\<lambda>d.
          case sql_select (\<lambda>(p, a). ap_token_hash p = token_hash \<and> acc_disabled_at a = None \<and>
                 not_expired now (ap_expires_at p)) (token_join d) of
            None \<Rightarrow> (Inr None, d)
          | Some (p, a) \<Rightarrow>
              (Inr (Some (row_to_account a,
                 case ap_scopes p of None \<Rightarrow> Full | Some s \<Rightarrow> Scoped (split_whitespace s))),
               touch_token now token_hash d)))"

definition revoke_token_by_hash :: "string \<Rightarrow> unit op" where
  "revoke_token_by_hash token_hash = db_call (\<lambda>d. (Inr (),
     d\<lparr>app_passwords := sql_delete (\<lambda>p. ap_token_hash p = token_hash) (app_passwords d)\<rparr>))"

subsection \<open>Aliases\<close>

definition create_alias :: "int \<Rightarrow> string \<Rightarrow> string \<Rightarrow> string \<Rightarrow> string option \<Rightarrow> int option \<Rightarrow> alias_row op" where
  "create_alias now new_id acct alias_email label expires_at =
     (let row = \<lparr>al_id = new_id, al_account_id = acct, al_alias_email = to_lowercase (trim alias_email),
                 al_label = label, al_created_at = now, al_expires_at = expires_at, al_active = True\<rparr>
      in db_call (\<lambda>d.
        if \<not> has_account d acct then (Inl fk_error, d)
        else if new_id \<in> al_id ` set (aliases d) \<or>
                (\<exists>r \<in> set (aliases d). eq_ignore_ascii_case (al_alias_email r) (al_alias_email row))
        then (Inl unique_error, d)
        else (Inr row, d\<lparr>aliases := aliases d @ [row]\<rparr>)))"

definition list_aliases_for_account :: "int \<Rightarrow> string \<Rightarrow> alias_row list op" where
  "list_aliases_for_account now acct = db_call (\<lambda>d. (Inr (rev (sort_key al_created_at
     (rev (filter (\<lambda>r. al_account_id r = acct \<and> al_active r \<and> not_expired now (al_expires_at r)) (aliases d))))), d))"

definition alias_join :: "db \<Rightarrow> (alias_row \<times> account_row) list" where
  "alias_join d = concat (map (\<lambda>l. map (\<lambda>a. (l, a)) (filter (\<lambda>a. acc_id a = al_account_id l) (accounts d)))
                              (aliases d))"

definition alias_target_account :: "int \<Rightarrow> string \<Rightarrow> account_t option op" where
  "alias_target_account now alias_email =
     (let email = to_lowercase (trim alias_email) in
      db_call (\<lambda>d. (Inr (map_option (\<lambda>(l, a). row_to_account a)
        (sql_select (\<lambda>(l, a). eq_ignore_ascii_case (al_alias_email l) email \<and> al_active l \<and>
            not_expired now (al_expires_at l) \<and> acc_disabled_at a = None) (alias_join d))), d)))"

definition deactivate_alias :: "string \<Rightarrow> unit op" where
  "deactivate_alias aid = db_call (\<lambda>d. (Inr (),
     d\<lparr>aliases := sql_update (\<lambda>r. al_id r = aid) (\<lambda>r. r\<lparr>al_active := False\<rparr>) (aliases d)\<rparr>))"

text \<open>A failing direct look-up falls through to the alias look-up.\<close>

definition resolve_recipient :: "int \<Rightarrow> string \<Rightarrow> account_t option op" where
  "resolve_recipient now email d =
     (case account_by_email email d of
        (Inr (Some a), d') \<Rightarrow> (Inr (Some a), d')
      | (_, d') \<Rightarrow> alias_target_account now email d')"

definition find_alias_id :: "string \<Rightarrow> string option op" where
  "find_alias_id email =
     (let email = to_lowercase (trim email) in
      db_call (\<lambda>d. (Inr (map_option al_id
        (sql_select (\<lambda>r. eq_ignore_ascii_case (al_alias_email r) email) (aliases d))), d)))"

section \<open>Lemmas\<close>

lemma token_join_mem:
  "(p, a) \<in> set (token_join d) \<longleftrightarrow> p \<in> set (app_passwords d) \<and> a \<in> set (accounts d) \<and> acc_id a = ap_account_id p"
  by (auto simp: token_join_def)

lemma alias_join_mem:
  "(l, a) \<in> set (alias_join d) \<longleftrightarrow> l \<in> set (aliases d) \<and> a \<in> set (accounts d) \<and> acc_id a = al_account_id l"
  by (auto simp: alias_join_def)

lemma token_join_faults [simp]: "token_join (d\<lparr>faults := fs\<rparr>) = token_join d"
  by (simp add: token_join_def)

lemma alias_join_faults [simp]: "alias_join (d\<lparr>faults := fs\<rparr>) = alias_join d"
  by (simp add: alias_join_def)

definition scope_ok :: "string \<Rightarrow> bool" where
  "scope_ok w \<longleftrightarrow> w \<noteq> [] \<and> (\<forall>c \<in> set w. \<not> is_space c)"

lemma words_acc_word: "\<forall>c \<in> set v. \<not> is_space c \<Longrightarrow> words_acc w (v @ s) = words_acc (rev v @ w) s"
  by (induction v arbitrary: w) auto

lemma is_space_blank: "is_space (CHR '' '')"
  by (simp add: is_space_def)

lemma split_join: "list_all scope_ok ws \<Longrightarrow> split_whitespace (join '' '' ws) = ws"
proof (induction "'' '' :: string" ws rule: join.induct)
  case (2 w)
  then show ?case
    using words_acc_word[of w "[]" "[]"] by (simp add: split_whitespace_def scope_ok_def)
next
  case (3 w v ws)
  then show ?case
    using words_acc_word[of w "[]" "CHR '' '' # join '' '' (v # ws)"]
    by (simp add: split_whitespace_def scope_ok_def is_space_blank)
qed (simp add: split_whitespace_def)

lemma words_acc_ok: "\<forall>c \<in> set w. \<not> is_space c \<Longrightarrow> list_all scope_ok (words_acc w s)"
  by (induction w s rule: words_acc.induct) (auto simp: scope_ok_def)

lemma split_whitespace_ok: "list_all scope_ok (split_whitespace s)"
  by (simp add: split_whitespace_def words_acc_ok)

end
