(* ===== verification/OAuth_Store.thy ===== *)
theory OAuth_Store
  imports Tokens
begin

text \<open>
  \<open>crates/owney-storage/src/oauth.rs\<close>: registered clients, remembered consent and rotating
  refresh tokens. Redirect URIs are stored as the list their JSON text denotes.
\<close>

section \<open>Definitions\<close>

definition CLIENT_SECRET_PREFIX :: string where "CLIENT_SECRET_PREFIX = ''mcs_''"
definition REFRESH_PREFIX :: string where "REFRESH_PREFIX = ''mrt_''"

record oauth_client_t =
  cl_id :: string
  cl_name :: string
  cl_redirect_uris :: "string list"
  cl_public :: bool
  cl_disabled :: bool
  cl_created_at :: int

record oauth_grant_t =
  gr_account_id :: string
  gr_client_id :: string
  gr_scopes :: "string list"
  gr_created_at :: int
  gr_updated_at :: int

record refresh_token =
  rf_token_hash :: string
  rf_family_id :: string
  rf_account_id :: string
  rf_client_id :: string
  rf_scopes :: "string list"
  rf_access_token_hash :: "string option"
  rf_expires_at :: int
  rf_used_at :: "int option"
  rf_revoked_at :: "int option"
  rf_created_at :: int

definition new_secret :: "(string \<Rightarrow> string) \<Rightarrow> string \<Rightarrow> string option \<Rightarrow> (storage_error, string \<times> string) result" where
  "new_secret blake3 prefix secret =
     (case secret of None \<Rightarrow> Inl (StCrypto ''os rng'')
      | Some hex \<Rightarrow> Inr (prefix @ hex, blake3 (prefix @ hex)))"

definition row_to_client :: "oauth_client_row \<Rightarrow> oauth_client_t" where
  "row_to_client r = \<lparr>cl_id = oc_id r, cl_name = oc_name r, cl_redirect_uris = oc_redirect_uris r,
     cl_public = (oc_secret_hash r = None), cl_disabled = oc_disabled r, cl_created_at = oc_created_at r\<rparr>"

definition row_to_refresh :: "refresh_row \<Rightarrow> refresh_token" where
  "row_to_refresh r = \<lparr>rf_token_hash = rt_token_hash r, rf_family_id = rt_family_id r,
     rf_account_id = rt_account_id r, rf_client_id = rt_client_id r,
     rf_scopes = split_whitespace (rt_scopes r), rf_access_token_hash = rt_access_token_hash r,
     rf_expires_at = rt_expires_at r, rf_used_at = rt_used_at r, rf_revoked_at = rt_revoked_at r,
     rf_created_at = rt_created_at r\<rparr>"

definition uri_ok :: "string \<Rightarrow> bool" where
  "uri_ok uri \<longleftrightarrow> (starts_with ''https://'' uri \<or> starts_with ''http://'' uri) \<and>
     CHR ''#'' \<notin> set uri \<and> length uri \<le> 2000"

definition validate_redirect_uris :: "string list \<Rightarrow> (storage_error, unit) result" where
  "validate_redirect_uris uris =
     (if uris = [] then Inl (StBadInput ''at least one redirect URI is required'')
      else if list_all uri_ok uris then Inr ()
      else Inl (StBadInput ''bad redirect URI: must be absolute http(s) without a fragment''))"

definition create_oauth_client :: "(string \<Rightarrow> string) \<Rightarrow> int \<Rightarrow> string \<Rightarrow> string option \<Rightarrow> string \<Rightarrow>
    string list \<Rightarrow> bool \<Rightarrow> (oauth_client_t \<times> string option) op" where
  "create_oauth_client blake3 now new_id secret nm uris pub =
     (if nm = [] \<or> length nm > 200 then op_fail (StBadInput ''name must be 1-200 chars'')
      else (case validate_redirect_uris uris of
        Inl e \<Rightarrow> op_fail e
      | Inr _ \<Rightarrow>
          (case (if pub then Inr (None, None)
                 else map_sum id (\<lambda>(plain, hash). (Some plain, Some hash))
                        (new_secret blake3 CLIENT_SECRET_PREFIX secret)) of
             Inl e \<Rightarrow> op_fail e
           | Inr (secret_plain, secret_hash) \<Rightarrow>
               (let row = \<lparr>oc_id = new_id, oc_name = nm, oc_redirect_uris = uris,
                           oc_secret_hash = secret_hash, oc_disabled = False, oc_created_at = now\<rparr>
                in db_call (\<lambda>d. case sql_insert oc_id row (oauth_clients d) of
                     None \<Rightarrow> (Inl unique_error, d)
                   | Some rows \<Rightarrow> (Inr (row_to_client row, secret_plain), d\<lparr>oauth_clients := rows\<rparr>))))))"

definition oauth_client :: "string \<Rightarrow> oauth_client_t option op" where
  "oauth_client cid = db_call (\<lambda>d. (Inr (map_option row_to_client
     (sql_select (\<lambda>r. oc_id r = cid) (oauth_clients d))), d))"

definition verify_oauth_client_secret :: "(string \<Rightarrow> string) \<Rightarrow> string \<Rightarrow> string \<Rightarrow> bool op" where
  "verify_oauth_client_secret blake3 cid secret =
     (let candidate = blake3 secret in
      db_call (\<lambda>d. (Inr (case sql_select (\<lambda>r. oc_id r = cid \<and> \<not> oc_disabled r) (oauth_clients d) of
          None \<Rightarrow> False
        | Some r \<Rightarrow> (case oc_secret_hash r of None \<Rightarrow> False | Some h \<Rightarrow> h = candidate)), d)))"

definition list_oauth_clients :: "oauth_client_t list op" where
  "list_oauth_clients = db_call (\<lambda>d. (Inr (map row_to_client (sort_key oc_created_at (oauth_clients d))), d))"

definition revoke_refresh :: "int \<Rightarrow> (refresh_row \<Rightarrow> bool) \<Rightarrow> refresh_row list \<Rightarrow> refresh_row list" where
  "revoke_refresh now p rows =
     sql_update (\<lambda>r. p r \<and> rt_revoked_at r = None) (\<lambda>r. r\<lparr>rt_revoked_at := Some now\<rparr>) rows"

definition disable_oauth_client :: "int \<Rightarrow> string \<Rightarrow> unit op" where
  "disable_oauth_client now cid = db_call (transaction (\<lambda>d.
     if sql_count (\<lambda>r. oc_id r = cid) (oauth_clients d) = 0
     then (Inl (StBadInput ''no such client''), d)
     else (Inr (), d\<lparr>oauth_clients := sql_update (\<lambda>r. oc_id r = cid) (\<lambda>r. r\<lparr>oc_disabled := True\<rparr>) (oauth_clients d),
                     oauth_refresh_tokens := revoke_refresh now (\<lambda>r. rt_client_id r = cid) (oauth_refresh_tokens d),
                     app_passwords := sql_delete (\<lambda>p. ap_oauth_client_id p = Some cid) (app_passwords d)\<rparr>)))"

fun merge_scopes :: "string list \<Rightarrow> string list \<Rightarrow> string list" where
  "merge_scopes merged [] = merged"
| "merge_scopes merged (s # ss) = merge_scopes (if s \<in> set merged then merged else merged @ [s]) ss"

definition grant_key :: "oauth_grant_row \<Rightarrow> string \<times> string" where
  "grant_key r = (og_account_id r, og_client_id r)"

definition upsert_oauth_grant :: "int \<Rightarrow> string \<Rightarrow> string \<Rightarrow> string \<Rightarrow> string list \<Rightarrow> unit op" where
  "upsert_oauth_grant now new_id acct cid scopes = db_call (transaction (\<lambda>d.
     let existing = sql_select (\<lambda>r. og_account_id r = acct \<and> og_client_id r = cid) (oauth_grants d);
         merged = sort (merge_scopes (case existing of None \<Rightarrow> [] | Some r \<Rightarrow> split_whitespace (og_scopes r)) scopes);
         text = join '' '' merged
     in if \<not> has_account d acct \<or> \<not> has_client d cid then (Inl fk_error, d)
        else (case existing of
            Some _ \<Rightarrow> (Inr (), d\<lparr>oauth_grants := sql_update (\<lambda>r. og_account_id r = acct \<and> og_client_id r = cid)
                        (\<lambda>r. r\<lparr>og_scopes := text, og_updated_at := now\<rparr>) (oauth_grants d)\<rparr>)
          | None \<Rightarrow> (case sql_insert og_id \<lparr>og_id = new_id, og_account_id = acct, og_client_id = cid,
                        og_scopes = text, og_created_at = now, og_updated_at = now\<rparr> (oauth_grants d) of
                      None \<Rightarrow> (Inl unique_error, d)
                    | Some rows \<Rightarrow> (Inr (), d\<lparr>oauth_grants := rows\<rparr>)))))"

definition row_to_grant :: "oauth_grant_row \<Rightarrow> oauth_grant_t" where
  "row_to_grant r = \<lparr>gr_account_id = og_account_id r, gr_client_id = og_client_id r,
     gr_scopes = split_whitespace (og_scopes r), gr_created_at = og_created_at r, gr_updated_at = og_updated_at r\<rparr>"

definition oauth_grant :: "string \<Rightarrow> string \<Rightarrow> oauth_grant_t option op" where
  "oauth_grant acct cid = db_call (\<lambda>d. (Inr (map_option row_to_grant
     (sql_select (\<lambda>r. og_account_id r = acct \<and> og_client_id r = cid) (oauth_grants d))), d))"

definition list_oauth_grants :: "string \<Rightarrow> oauth_grant_t list op" where
  "list_oauth_grants acct = db_call (\<lambda>d. (Inr (map row_to_grant
     (sort_key og_created_at (filter (\<lambda>r. og_account_id r = acct) (oauth_grants d)))), d))"

definition revoke_oauth_grant :: "int \<Rightarrow> string \<Rightarrow> string \<Rightarrow> unit op" where
  "revoke_oauth_grant now acct cid = db_call (transaction (\<lambda>d.
     if sql_count (\<lambda>r. og_account_id r = acct \<and> og_client_id r = cid) (oauth_grants d) = 0
     then (Inl (StBadInput ''no such grant''), d)
     else (Inr (), d\<lparr>oauth_grants := sql_delete (\<lambda>r. og_account_id r = acct \<and> og_client_id r = cid) (oauth_grants d),
                     oauth_refresh_tokens := revoke_refresh now (\<lambda>r. rt_account_id r = acct \<and> rt_client_id r = cid) (oauth_refresh_tokens d),
                     app_passwords := sql_delete (\<lambda>p. ap_account_id p = acct \<and> ap_oauth_client_id p = Some cid) (app_passwords d)\<rparr>)))"

definition insert_refresh :: "refresh_row \<Rightarrow> unit op" where
  "insert_refresh row d =
     (if \<not> has_account d (rt_account_id row) \<or> \<not> has_client d (rt_client_id row) then (Inl fk_error, d)
      else (case sql_insert rt_token_hash row (oauth_refresh_tokens d) of
              None \<Rightarrow> (Inl unique_error, d)
            | Some rows \<Rightarrow> (Inr (), d\<lparr>oauth_refresh_tokens := rows\<rparr>)))"

text \<open>\<open>fresh_family\<close> is the id generated when no family is given.\<close>

definition create_refresh_token :: "(string \<Rightarrow> string) \<Rightarrow> int \<Rightarrow> string option \<Rightarrow> string \<Rightarrow> string \<Rightarrow> string \<Rightarrow>
    string list \<Rightarrow> string option \<Rightarrow> string option \<Rightarrow> int \<Rightarrow> string op" where
  "create_refresh_token blake3 now secret fresh_family acct cid scopes family access_hash expires_at =
     (case new_secret blake3 REFRESH_PREFIX secret of
        Inl e \<Rightarrow> op_fail e
      | Inr (plaintext, hash) \<Rightarrow>
          op_bind (db_call (insert_refresh
            \<lparr>rt_token_hash = hash, rt_family_id = (case family of Some f \<Rightarrow> f | None \<Rightarrow> fresh_family),
             rt_account_id = acct, rt_client_id = cid, rt_scopes = join '' '' scopes,
             rt_access_token_hash = access_hash, rt_expires_at = expires_at, rt_used_at = None,
             rt_revoked_at = None, rt_created_at = now\<rparr>))
            (\<lambda>_. op_return plaintext))"

definition refresh_token_by_plaintext :: "(string \<Rightarrow> string) \<Rightarrow> string \<Rightarrow> refresh_token option op" where
  "refresh_token_by_plaintext blake3 token =
     (if \<not> starts_with REFRESH_PREFIX token then op_return None
      else db_call (\<lambda>d. (Inr (map_option row_to_refresh
             (sql_select (\<lambda>r. rt_token_hash r = blake3 token) (oauth_refresh_tokens d))), d)))"

definition live :: "int \<Rightarrow> refresh_row \<Rightarrow> bool" where
  "live now r \<longleftrightarrow> rt_used_at r = None \<and> rt_revoked_at r = None \<and> \<not> rt_expires_at r \<le> now"

text \<open>The transaction of \<open>rotate_refresh_token\<close>.\<close>

definition rotate_tx :: "int \<Rightarrow> string \<Rightarrow> string \<Rightarrow> string option \<Rightarrow> int \<Rightarrow> unit op" where
  "rotate_tx now old_hash new_hash access_hash expires_at d =
     (case sql_select (\<lambda>r. rt_token_hash r = old_hash) (oauth_refresh_tokens d) of
        None \<Rightarrow> (Inl (StBadInput ''no such refresh token''), d)
      | Some old \<Rightarrow>
          if \<not> live now old then (Inl (StConflict ''refresh token not live''), d)
          else insert_refresh
            \<lparr>rt_token_hash = new_hash, rt_family_id = rt_family_id old, rt_account_id = rt_account_id old,
             rt_client_id = rt_client_id old, rt_scopes = join '' '' (split_whitespace (rt_scopes old)),
             rt_access_token_hash = access_hash, rt_expires_at = expires_at, rt_used_at = None,
             rt_revoked_at = None, rt_created_at = now\<rparr>
            (d\<lparr>oauth_refresh_tokens := sql_update (\<lambda>r. rt_token_hash r = old_hash)
                 (\<lambda>r. r\<lparr>rt_used_at := Some now\<rparr>) (oauth_refresh_tokens d)\<rparr>))"

definition rotate_refresh_token :: "(string \<Rightarrow> string) \<Rightarrow> int \<Rightarrow> string option \<Rightarrow> string \<Rightarrow> string option \<Rightarrow> int \<Rightarrow> string op" where
  "rotate_refresh_token blake3 now secret old_hash access_hash expires_at =
     (case new_secret blake3 REFRESH_PREFIX secret of
        Inl e \<Rightarrow> op_fail e
      | Inr (plaintext, new_hash) \<Rightarrow>
          op_bind (db_call (transaction (rotate_tx now old_hash new_hash access_hash expires_at)))
            (\<lambda>_. op_return plaintext))"

definition revoke_refresh_family :: "int \<Rightarrow> string \<Rightarrow> unit op" where
  "revoke_refresh_family now fam = db_call (transaction (\<lambda>d.
     (Inr (), d\<lparr>app_passwords := sql_delete (\<lambda>p. \<exists>r \<in> set (oauth_refresh_tokens d).
                   rt_family_id r = fam \<and> rt_access_token_hash r = Some (ap_token_hash p)) (app_passwords d),
                oauth_refresh_tokens := revoke_refresh now (\<lambda>r. rt_family_id r = fam) (oauth_refresh_tokens d)\<rparr>)))"

section \<open>The refresh token families\<close>

definition unspent :: "refresh_row \<Rightarrow> bool" where
  "unspent r \<longleftrightarrow> rt_used_at r = None \<and> rt_revoked_at r = None"

text \<open>Hashes are unique, all tokens of a family belong to one account and one client, and a family
  has at most one token that was neither used nor revoked.\<close>

definition refresh_inv :: "db \<Rightarrow> bool" where
  "refresh_inv d \<longleftrightarrow> keys_unique rt_token_hash (oauth_refresh_tokens d) \<and>
     (\<forall>r \<in> set (oauth_refresh_tokens d). \<forall>s \<in> set (oauth_refresh_tokens d).
        rt_family_id r = rt_family_id s \<longrightarrow>
          rt_account_id r = rt_account_id s \<and> rt_client_id r = rt_client_id s \<and>
          (unspent r \<longrightarrow> unspent s \<longrightarrow> r = s))"

definition spent :: "string \<Rightarrow> db \<Rightarrow> bool" where
  "spent h d \<longleftrightarrow> (\<exists>r \<in> set (oauth_refresh_tokens d). rt_token_hash r = h \<and> \<not> unspent r)"

text \<open>Everything that can happen to the refresh tokens: the operations of the store, each with any
  arguments, any clock and any failures, and arbitrary changes to the rest of the database. An id
  generated for a new family is one that is not in use.\<close>

inductive oauth_step :: "(string \<Rightarrow> string) \<Rightarrow> db \<Rightarrow> db \<Rightarrow> bool" for blake3 where
  os_create: "create_refresh_token blake3 now secret fam acct cid scopes None ah ex d = (r, d') \<Longrightarrow>
     fam \<notin> rt_family_id ` set (oauth_refresh_tokens d) \<Longrightarrow> oauth_step blake3 d d'"
| os_rotate: "rotate_refresh_token blake3 now secret old ah ex d = (r, d') \<Longrightarrow> oauth_step blake3 d d'"
| os_revoke_family: "revoke_refresh_family now fam d = (u, d') \<Longrightarrow> oauth_step blake3 d d'"
| os_disable: "disable_oauth_client now cid d = (u, d') \<Longrightarrow> oauth_step blake3 d d'"
| os_revoke_grant: "revoke_oauth_grant now acct cid d = (u, d') \<Longrightarrow> oauth_step blake3 d d'"
| os_other: "oauth_refresh_tokens d' = oauth_refresh_tokens d \<Longrightarrow> oauth_step blake3 d d'"

subsection \<open>The operations, seen from the refresh table\<close>

lemma insert_refresh_cases:
  assumes "insert_refresh row d = (r, d')"
  obtains e where "r = Inl e" "d' = d"
  | "r = Inr ()" "rt_token_hash row \<notin> rt_token_hash ` set (oauth_refresh_tokens d)"
    "d' = d\<lparr>oauth_refresh_tokens := oauth_refresh_tokens d @ [row]\<rparr>"
proof (cases r)
  case (Inl e)
  with assms have "d' = d" by (simp add: insert_refresh_def sql_insert_def split: if_splits)
  with Inl show thesis by (rule that(1))
next
  case (Inr u)
  with assms that(2) show thesis by (simp add: insert_refresh_def sql_insert_def split: if_splits)
qed

lemma op_bind_return_state: "op_bind f (\<lambda>_. op_return v) d = (r, d') \<Longrightarrow> \<exists>r'. f d = (r', d')"
  by (auto simp: op_defs split: prod.splits sum.splits)

lemma op_bind_return_ok: "op_bind f (\<lambda>_. op_return v) d = (Inr w, d') \<Longrightarrow> w = v \<and> (\<exists>u. f d = (Inr u, d'))"
  by (auto simp: op_defs split: prod.splits sum.splits)

lemma create_refresh_token_rows:
  assumes "create_refresh_token blake3 now secret fam acct cid scopes None ah ex d = (r, d')"
  shows "oauth_refresh_tokens d' = oauth_refresh_tokens d \<or>
    (\<exists>row. oauth_refresh_tokens d' = oauth_refresh_tokens d @ [row] \<and> rt_family_id row = fam \<and>
       rt_token_hash row \<notin> rt_token_hash ` set (oauth_refresh_tokens d))"
proof (cases "new_secret blake3 REFRESH_PREFIX secret")
  case (Inl e)
  with assms show ?thesis by (simp add: create_refresh_token_def op_defs)
next
  case (Inr p)
  then obtain pl h where p: "new_secret blake3 REFRESH_PREFIX secret = Inr (pl, h)" by (cases p) auto
  with assms obtain u where
    "db_call (insert_refresh \<lparr>rt_token_hash = h, rt_family_id = fam, rt_account_id = acct,
       rt_client_id = cid, rt_scopes = join '' '' scopes, rt_access_token_hash = ah, rt_expires_at = ex,
       rt_used_at = None, rt_revoked_at = None, rt_created_at = now\<rparr>) d = (u, d')"
    unfolding create_refresh_token_def by (auto dest: op_bind_return_state)
  then show ?thesis
    by (cases rule: db_call_cases) (auto elim!: insert_refresh_cases)
qed

text \<open>A rotation that takes effect, as one change of the table.\<close>

definition successor :: "int \<Rightarrow> string \<Rightarrow> string option \<Rightarrow> int \<Rightarrow> refresh_row \<Rightarrow> refresh_row" where
  "successor now h ah ex old =
     \<lparr>rt_token_hash = h, rt_family_id = rt_family_id old, rt_account_id = rt_account_id old,
      rt_client_id = rt_client_id old, rt_scopes = join '' '' (split_whitespace (rt_scopes old)),
      rt_access_token_hash = ah, rt_expires_at = ex, rt_used_at = None, rt_revoked_at = None,
      rt_created_at = now\<rparr>"

definition rotated :: "int \<Rightarrow> string \<Rightarrow> string option \<Rightarrow> int \<Rightarrow> refresh_row \<Rightarrow> refresh_row list \<Rightarrow> refresh_row list" where
  "rotated now h ah ex r rows =
     sql_update (\<lambda>s. rt_token_hash s = rt_token_hash r) (\<lambda>r. r\<lparr>rt_used_at := Some now\<rparr>) rows @
     [successor now h ah ex r]"

lemma rotate_tx_ok:
  assumes "rotate_tx now old h ah ex d = (Inr u, d')"
  obtains r where "r \<in> set (oauth_refresh_tokens d)" "rt_token_hash r = old" "live now r"
    "h \<notin> rt_token_hash ` set (oauth_refresh_tokens d)"
    "d' = d\<lparr>oauth_refresh_tokens := rotated now h ah ex r (oauth_refresh_tokens d)\<rparr>"
proof -
  from assms obtain r where r: "sql_select (\<lambda>r. rt_token_hash r = old) (oauth_refresh_tokens d) = Some r"
    "live now r"
    "insert_refresh (successor now h ah ex r) (d\<lparr>oauth_refresh_tokens := sql_update (\<lambda>r. rt_token_hash r = old)
       (\<lambda>r. r\<lparr>rt_used_at := Some now\<rparr>) (oauth_refresh_tokens d)\<rparr>) = (Inr u, d')"
    by (auto simp: rotate_tx_def successor_def split: option.splits if_splits)
  from sql_select_Some[OF r(1)] have mem: "r \<in> set (oauth_refresh_tokens d)" "rt_token_hash r = old" by simp_all
  have "rt_token_hash ` set (sql_update (\<lambda>r. rt_token_hash r = old) (\<lambda>r. r\<lparr>rt_used_at := Some now\<rparr>)
      (oauth_refresh_tokens d)) = rt_token_hash ` set (oauth_refresh_tokens d)"
    by (metis list.set_map map_key_update refresh_row.select_convs(1) refresh_row.surjective refresh_row.update_convs(8))
  then show thesis using r(3)
    by (elim insert_refresh_cases) (simp, rule that[OF mem r(2)], simp_all add: successor_def rotated_def mem(2))
qed

lemma rotate_refresh_token_rows:
  assumes "rotate_refresh_token blake3 now secret old ah ex d = (res, d')"
  shows "(\<exists>e. res = Inl e) \<and> oauth_refresh_tokens d' = oauth_refresh_tokens d \<or>
    (\<exists>hex r. secret = Some hex \<and> res = Inr (REFRESH_PREFIX @ hex) \<and>
       r \<in> set (oauth_refresh_tokens d) \<and> rt_token_hash r = old \<and> live now r \<and>
       blake3 (REFRESH_PREFIX @ hex) \<notin> rt_token_hash ` set (oauth_refresh_tokens d) \<and>
       oauth_refresh_tokens d' = rotated now (blake3 (REFRESH_PREFIX @ hex)) ah ex r (oauth_refresh_tokens d))"
proof (cases secret)
  case None
  with assms show ?thesis by (auto simp: rotate_refresh_token_def new_secret_def op_defs)
next
  case (Some hex)
  let ?tx = "rotate_tx now old (blake3 (REFRESH_PREFIX @ hex)) ah ex"
  from assms Some have b: "op_bind (db_call (transaction ?tx)) (\<lambda>_. op_return (REFRESH_PREFIX @ hex)) d = (res, d')"
    by (simp add: rotate_refresh_token_def new_secret_def)
  obtain u d1 where u: "db_call (transaction ?tx) d = (u, d1)" by (cases "db_call (transaction ?tx) d")
  with b have res: "d1 = d'" "res = (case u of Inl e \<Rightarrow> Inl e | Inr _ \<Rightarrow> Inr (REFRESH_PREFIX @ hex))"
    by (auto simp: op_defs split: sum.splits)
  from u show ?thesis
  proof (cases rule: db_call_cases)
    case (fault fs)
    with res show ?thesis by auto
  next
    case (run fs)
    show ?thesis
    proof (cases u)
      case (Inl e)
      with run have "d1 = d\<lparr>faults := fs\<rparr>" by (auto dest: transaction_err)
      with Inl res show ?thesis by auto
    next
      case (Inr v)
      with run have "?tx (d\<lparr>faults := fs\<rparr>) = (Inr v, d1)" by (simp add: transaction_ok)
      then show ?thesis by (rule rotate_tx_ok) (use Some Inr res in auto)
    qed
  qed
qed

definition revokes :: "(refresh_row \<Rightarrow> bool) \<Rightarrow> db \<Rightarrow> db \<Rightarrow> bool" where
  "revokes p d d' \<longleftrightarrow> (\<exists>now. oauth_refresh_tokens d' = revoke_refresh now p (oauth_refresh_tokens d))"

lemma revoke_operations:
  "disable_oauth_client now cid d = (u, d') \<Longrightarrow> oauth_refresh_tokens d' = oauth_refresh_tokens d \<or> revokes (\<lambda>r. rt_client_id r = cid) d d'"
  "revoke_oauth_grant now acct cid d = (v, d') \<Longrightarrow>
     oauth_refresh_tokens d' = oauth_refresh_tokens d \<or> revokes (\<lambda>r. rt_account_id r = acct \<and> rt_client_id r = cid) d d'"
  "revoke_refresh_family now fam d = (w, d') \<Longrightarrow> oauth_refresh_tokens d' = oauth_refresh_tokens d \<or> revokes (\<lambda>r. rt_family_id r = fam) d d'"
  unfolding disable_oauth_client_def revoke_oauth_grant_def revoke_refresh_family_def revokes_def
  by ((erule db_call_cases, simp), auto simp: transaction_def split: if_splits)+

lemma set_revoke_refresh [tbl_simps]:
  "set (revoke_refresh now p rows) =
     (\<lambda>r. if p r \<and> rt_revoked_at r = None then r\<lparr>rt_revoked_at := Some now\<rparr> else r) ` set rows"
  by (simp add: revoke_refresh_def tbl_simps)

text \<open>The table after one step: unchanged, a new family, a rotation or a revocation.\<close>

lemma oauth_step_rows:
  assumes "oauth_step blake3 d d'"
  obtains "oauth_refresh_tokens d' = oauth_refresh_tokens d"
  | row where "oauth_refresh_tokens d' = oauth_refresh_tokens d @ [row]"
      "rt_family_id row \<notin> rt_family_id ` set (oauth_refresh_tokens d)"
      "rt_token_hash row \<notin> rt_token_hash ` set (oauth_refresh_tokens d)"
  | now h ah ex r where "r \<in> set (oauth_refresh_tokens d)" "live now r"
      "h \<notin> rt_token_hash ` set (oauth_refresh_tokens d)"
      "oauth_refresh_tokens d' = rotated now h ah ex r (oauth_refresh_tokens d)"
  | p where "revokes p d d'"
  using assms
proof cases
  case os_create
  from create_refresh_token_rows[OF os_create(1)] os_create(2) show thesis
    using that(1,2) by blast
next
  case os_rotate
  from rotate_refresh_token_rows[OF os_rotate(1)] show thesis using that(1,3) by blast
next
  case os_revoke_family
  with revoke_operations(3) show thesis using that(1,4) by metis
next
  case os_disable
  with revoke_operations(1) show thesis using that(1,4) by metis
next
  case os_revoke_grant
  with revoke_operations(2) show thesis using that(1,4) by metis
next
  case os_other
  then show thesis by (rule that(1))
qed

text \<open>The rows after a rotation: the old rows, with the rotated one marked as used, and its
  successor.\<close>

definition mark_used :: "int \<Rightarrow> refresh_row \<Rightarrow> refresh_row \<Rightarrow> refresh_row" where
  "mark_used now r s = (if rt_token_hash s = rt_token_hash r then s\<lparr>rt_used_at := Some now\<rparr> else s)"

lemma mark_used_fields [simp]:
  "rt_token_hash (mark_used now r s) = rt_token_hash s" "rt_family_id (mark_used now r s) = rt_family_id s"
  "rt_account_id (mark_used now r s) = rt_account_id s" "rt_client_id (mark_used now r s) = rt_client_id s"
  by (simp_all add: mark_used_def)

lemma mark_used_unspent: "unspent (mark_used now r s) \<Longrightarrow> mark_used now r s = s"
  by (cases "rt_token_hash s = rt_token_hash r") (simp_all add: unspent_def mark_used_def)

lemma successor_fields [simp]:
  "rt_token_hash (successor now h ah ex r) = h" "rt_family_id (successor now h ah ex r) = rt_family_id r"
  "rt_account_id (successor now h ah ex r) = rt_account_id r" "rt_client_id (successor now h ah ex r) = rt_client_id r"
  by (simp_all add: successor_def)

lemma set_rotated: "set (rotated now h ah ex r rows) = insert (successor now h ah ex r) (mark_used now r ` set rows)"
  by (simp add: rotated_def sql_update_def mark_used_def)

lemma rotated_origin:
  assumes "x \<in> set (rotated now h ah ex r rows)" "r \<in> set rows"
  obtains s where "s \<in> set rows" "rt_family_id x = rt_family_id s" "rt_account_id x = rt_account_id s"
    "rt_client_id x = rt_client_id s" "x = successor now h ah ex r \<and> s = r \<or> x = mark_used now r s"
  using assms(1) unfolding set_rotated
proof (elim insertE imageE)
  assume "x = successor now h ah ex r"
  then show thesis using assms(2) by (intro that[of r]) simp_all
next
  fix s assume "x = mark_used now r s" "s \<in> set rows"
  then show thesis by (intro that[of s]) simp_all
qed

lemma keys_unique_rotated:
  assumes "keys_unique rt_token_hash rows" "h \<notin> rt_token_hash ` set rows"
  shows "keys_unique rt_token_hash (rotated now h ah ex r rows)"
proof -
  have "map rt_token_hash (sql_update (\<lambda>s. rt_token_hash s = rt_token_hash r)
         (\<lambda>r. r\<lparr>rt_used_at := Some now\<rparr>) rows) = map rt_token_hash rows"
    by (rule map_key_update) simp
  with assms show ?thesis by (simp add: rotated_def keys_unique_def)
qed

lemma refresh_invD:
  assumes "refresh_inv d" "r \<in> set (oauth_refresh_tokens d)" "s \<in> set (oauth_refresh_tokens d)"
    and "rt_family_id r = rt_family_id s"
  shows "rt_account_id r = rt_account_id s" "rt_client_id r = rt_client_id s"
    "unspent r \<Longrightarrow> unspent s \<Longrightarrow> r = s"
  using assms(1)[unfolded refresh_inv_def] assms(2-4) by blast+

lemma mark_used_spends_family:
  assumes "refresh_inv d" "r \<in> set (oauth_refresh_tokens d)" "unspent r"
    and "s \<in> set (oauth_refresh_tokens d)" "rt_family_id s = rt_family_id r"
  shows "\<not> unspent (mark_used now r s)"
proof (cases "unspent s")
  case True
  with refresh_invD(3)[OF assms(1,4,2,5)] assms(3) show ?thesis by (simp add: mark_used_def unspent_def)
next
  case False
  then show ?thesis by (simp add: mark_used_def unspent_def)
qed

lemma refresh_inv_rotate:
  assumes inv: "refresh_inv d" and r: "r \<in> set (oauth_refresh_tokens d)" "unspent r"
    and h: "h \<notin> rt_token_hash ` set (oauth_refresh_tokens d)"
    and d': "oauth_refresh_tokens d' = rotated now h ah ex r (oauth_refresh_tokens d)"
  shows "refresh_inv d'"
  unfolding refresh_inv_def d'
proof (intro conjI ballI impI)
  let ?rows = "oauth_refresh_tokens d"
  show "keys_unique rt_token_hash (rotated now h ah ex r ?rows)"
    using inv h by (intro keys_unique_rotated) (simp_all add: refresh_inv_def)
  fix x y assume xy: "x \<in> set (rotated now h ah ex r ?rows)" "y \<in> set (rotated now h ah ex r ?rows)"
    "rt_family_id x = rt_family_id y"
  obtain s where s: "s \<in> set ?rows" "rt_family_id x = rt_family_id s" "rt_account_id x = rt_account_id s"
      "rt_client_id x = rt_client_id s" "x = successor now h ah ex r \<and> s = r \<or> x = mark_used now r s"
    using xy(1) r(1) by (rule rotated_origin)
  obtain t where t: "t \<in> set ?rows" "rt_family_id y = rt_family_id t" "rt_account_id y = rt_account_id t"
      "rt_client_id y = rt_client_id t" "y = successor now h ah ex r \<and> t = r \<or> y = mark_used now r t"
    using xy(2) r(1) by (rule rotated_origin)
  have st: "rt_family_id s = rt_family_id t" using xy(3) s t by simp
  note same = refresh_invD[OF inv s(1) t(1) st]
  show "rt_account_id x = rt_account_id y" "rt_client_id x = rt_client_id y"
    using same(1,2) s t by simp_all
  assume un: "unspent x" "unspent y"
  show "x = y"
  proof (cases "rt_family_id s = rt_family_id r")
    case True
    with st show ?thesis
      using mark_used_spends_family[OF inv r] s(1,5) t(1,5) un by metis
  next
    case False
    then have "x = mark_used now r s" "y = mark_used now r t" using s(5) t(5) st by auto
    then show ?thesis using same(3) un mark_used_unspent by metis
  qed
qed

lemma revoked_row:
  assumes "x \<in> set (revoke_refresh now p rows)"
  obtains s where "s \<in> set rows" "rt_token_hash x = rt_token_hash s" "rt_family_id x = rt_family_id s"
    "rt_account_id x = rt_account_id s" "rt_client_id x = rt_client_id s" "unspent x \<longrightarrow> x = s"
    "rt_access_token_hash x = rt_access_token_hash s"
  using assms unfolding revoke_refresh_def
proof (rule sql_updateE)
  fix s assume "s \<in> set rows" "x = s\<lparr>rt_revoked_at := Some now\<rparr>"
  then show thesis by (intro that[of s]) (simp_all add: unspent_def)
qed (rule that[of x], simp_all)

lemma refresh_inv_revoke:
  assumes inv: "refresh_inv d" and rv: "revokes p d d'"
  shows "refresh_inv d'"
  unfolding refresh_inv_def
proof (intro conjI ballI impI)
  obtain now where d': "oauth_refresh_tokens d' = revoke_refresh now p (oauth_refresh_tokens d)"
    using rv by (auto simp: revokes_def)
  show "keys_unique rt_token_hash (oauth_refresh_tokens d')"
    unfolding d' revoke_refresh_def using inv by (intro keys_unique_update) (simp_all add: refresh_inv_def)
  fix x y assume xy: "x \<in> set (oauth_refresh_tokens d')" "y \<in> set (oauth_refresh_tokens d')"
    "rt_family_id x = rt_family_id y"
  obtain s where s: "s \<in> set (oauth_refresh_tokens d)" "rt_family_id x = rt_family_id s"
    "rt_account_id x = rt_account_id s" "rt_client_id x = rt_client_id s" "unspent x \<longrightarrow> x = s"
    using xy(1) unfolding d' by (rule revoked_row)
  obtain t where t: "t \<in> set (oauth_refresh_tokens d)" "rt_family_id y = rt_family_id t"
    "rt_account_id y = rt_account_id t" "rt_client_id y = rt_client_id t" "unspent y \<longrightarrow> y = t"
    using xy(2) unfolding d' by (rule revoked_row)
  have "rt_family_id s = rt_family_id t" using xy(3) s t by simp
  note same = refresh_invD[OF inv s(1) t(1) this]
  show "rt_account_id x = rt_account_id y" "rt_client_id x = rt_client_id y" using same(1,2) s t by simp_all
  assume "unspent x" "unspent y"
  then show "x = y" using same(3) s(5) t(5) by simp
qed

lemma refresh_inv_create:
  assumes "refresh_inv d" "oauth_refresh_tokens d' = oauth_refresh_tokens d @ [row]"
    and "rt_family_id row \<notin> rt_family_id ` set (oauth_refresh_tokens d)"
    and "rt_token_hash row \<notin> rt_token_hash ` set (oauth_refresh_tokens d)"
  shows "refresh_inv d'"
proof -
  have "keys_unique rt_token_hash (oauth_refresh_tokens d')"
    using assms by (simp add: refresh_inv_def keys_unique_def)
  moreover have "rt_family_id row \<noteq> rt_family_id s" if "s \<in> set (oauth_refresh_tokens d)" for s
    using assms(3) that by (metis imageI)
  moreover have "x = row \<or> x \<in> set (oauth_refresh_tokens d)" if "x \<in> set (oauth_refresh_tokens d')" for x
    using that by (auto simp: assms(2))
  ultimately show ?thesis
    using refresh_invD[OF assms(1)] unfolding refresh_inv_def by metis
qed

lemma refresh_inv_step:
  assumes "oauth_step blake3 d d'" "refresh_inv d"
  shows "refresh_inv d'"
  using assms(1)
proof (cases rule: oauth_step_rows)
  case 1
  from assms(2) show ?thesis unfolding refresh_inv_def 1 .
next
  case (2 row)
  with assms(2) show ?thesis by (rule refresh_inv_create[where d = d])
next
  case (3 now h ah ex r)
  from assms(2) 3(1) _ 3(3,4) show ?thesis
    by (rule refresh_inv_rotate) (use 3(2) in \<open>simp add: live_def unspent_def\<close>)
next
  case (4 p)
  with assms(2) show ?thesis by (rule refresh_inv_revoke)
qed

lemma refresh_inv_empty: "refresh_inv empty_db"
  by (simp add: refresh_inv_def empty_db_def keys_unique_def)

lemma refresh_inv_reachable: "(oauth_step blake3)\<^sup>*\<^sup>* d d' \<Longrightarrow> refresh_inv d \<Longrightarrow> refresh_inv d'"
  by (induction rule: rtranclp_induct) (auto intro: refresh_inv_step)

text \<open>A used or revoked token stays so.\<close>

lemma spent_map:
  assumes "spent h d" "\<And>r. r \<in> set (oauth_refresh_tokens d) \<Longrightarrow> \<not> unspent r \<Longrightarrow>
    \<exists>s \<in> set (oauth_refresh_tokens d'). rt_token_hash s = rt_token_hash r \<and> \<not> unspent s"
  shows "spent h d'"
proof -
  obtain r where "r \<in> set (oauth_refresh_tokens d)" "rt_token_hash r = h" "\<not> unspent r"
    using assms(1) by (auto simp: spent_def)
  with assms(2) show ?thesis unfolding spent_def by metis
qed

lemma spent_step:
  assumes "oauth_step blake3 d d'" "spent h d"
  shows "spent h d'"
  using assms(1)
proof (cases rule: oauth_step_rows)
  case 1
  with assms(2) show ?thesis by (simp add: spent_def)
next
  case (2 row)
  with assms(2) show ?thesis by (auto simp: spent_def)
next
  case (3 now h' ah ex r)
  have "\<not> unspent s \<Longrightarrow> \<not> unspent (mark_used now r s)" for s
    by (simp add: unspent_def mark_used_def)
  then show ?thesis
    using assms(2) by (elim spent_map) (simp add: 3(4) set_rotated, blast intro: mark_used_fields)
next
  case (4 p)
  then obtain now where d': "oauth_refresh_tokens d' = revoke_refresh now p (oauth_refresh_tokens d)"
    by (auto simp: revokes_def)
  show ?thesis
    using assms(2)
  proof (rule spent_map)
    fix r assume "r \<in> set (oauth_refresh_tokens d)" "\<not> unspent r"
    then show "\<exists>s \<in> set (oauth_refresh_tokens d'). rt_token_hash s = rt_token_hash r \<and> \<not> unspent s"
      unfolding d' set_revoke_refresh by (intro bexI[OF _ imageI]) (auto simp: unspent_def)
  qed
qed

lemma spent_reachable: "(oauth_step blake3)\<^sup>*\<^sup>* d d' \<Longrightarrow> spent h d \<Longrightarrow> spent h d'"
  by (induction rule: rtranclp_induct) (auto intro: spent_step)

lemma spent_not_live:
  assumes "spent h d" "keys_unique rt_token_hash (oauth_refresh_tokens d)"
    and "s \<in> set (oauth_refresh_tokens d)" "rt_token_hash s = h"
  shows "\<not> live now s"
proof -
  have "\<not> unspent s" using assms keys_unique_eq by (metis spent_def)
  then show ?thesis unfolding live_def unspent_def by blast
qed

section \<open>Properties of the refresh tokens\<close>

definition demo_oauth_db :: db where
  "demo_oauth_db = empty_db\<lparr>
     accounts := [\<lparr>acc_id = ''a1'', acc_email = ''a@x'', acc_display_name = None, acc_created_at = 0, acc_disabled_at = None\<rparr>],
     oauth_clients := [\<lparr>oc_id = ''c1'', oc_name = ''app'', oc_redirect_uris = [''https://c/cb''], oc_secret_hash = None,
       oc_disabled = False, oc_created_at = 0\<rparr>]\<rparr>"

definition demo_refresh_db :: db where
  "demo_refresh_db = snd (create_refresh_token id 0 (Some ''00'') ''f1'' ''a1'' ''c1'' [''openid''] None (Some ''msk_1'') 100 demo_oauth_db)"

lemma demo_refresh_reachable: "(oauth_step id)\<^sup>*\<^sup>* empty_db demo_refresh_db"
proof -
  have "oauth_step id empty_db demo_oauth_db"
    by (rule os_other) (simp add: demo_oauth_db_def)
  moreover have "oauth_step id demo_oauth_db demo_refresh_db"
    by (rule os_create[where r = "fst (create_refresh_token id 0 (Some ''00'') ''f1'' ''a1'' ''c1'' [''openid''] None (Some ''msk_1'') 100 demo_oauth_db)"])
       (simp_all add: demo_refresh_db_def demo_oauth_db_def empty_db_def)
  ultimately show ?thesis by (meson rtranclp.rtrancl_into_rtrancl rtranclp.rtrancl_refl)
qed

text \<open>What a family of refresh tokens is: one line of descent, of one account and client.\<close>

definition single_lines :: "db \<Rightarrow> bool" where
  "single_lines d \<longleftrightarrow> keys_unique rt_token_hash (oauth_refresh_tokens d) \<and>
     (\<forall>r \<in> set (oauth_refresh_tokens d). \<forall>s \<in> set (oauth_refresh_tokens d). rt_family_id r = rt_family_id s \<longrightarrow>
        rt_account_id r = rt_account_id s \<and> rt_client_id r = rt_client_id s \<and> (unspent r \<and> unspent s \<longrightarrow> r = s))"

lemma single_lines_reachable:
  assumes "(oauth_step blake3)\<^sup>*\<^sup>* empty_db d"
  shows "single_lines d"
proof -
  have inv: "refresh_inv d" using assms(1) refresh_inv_empty by (rule refresh_inv_reachable)
  show ?thesis unfolding single_lines_def
  proof (intro conjI ballI impI)
    show "keys_unique rt_token_hash (oauth_refresh_tokens d)" using inv by (simp add: refresh_inv_def)
  next
    fix r s assume rs: "r \<in> set (oauth_refresh_tokens d)" "s \<in> set (oauth_refresh_tokens d)" "rt_family_id r = rt_family_id s"
    show "rt_account_id r = rt_account_id s" "rt_client_id r = rt_client_id s" using refresh_invD(1,2)[OF inv rs] by simp_all
    show "r = s" if "unspent r \<and> unspent s" using refresh_invD(3)[OF inv rs] that by blast
  qed
qed

text \<open>C6. In every state the store can reach from an empty database, under any interleaving of its
  operations, any clock and any failures, where a new family gets an unused id: no two refresh tokens have the same hash, the
  tokens of a refresh family belong to one account and one client, and at most one of them is neither used nor
  revoked: a family has a single line of descent.\<close>

theorem refresh_family_single_line:
  assumes "(oauth_step blake3)\<^sup>*\<^sup>* empty_db d"
  shows "keys_unique rt_token_hash (oauth_refresh_tokens d) \<and>
     (\<forall>r \<in> set (oauth_refresh_tokens d). \<forall>s \<in> set (oauth_refresh_tokens d). rt_family_id r = rt_family_id s \<longrightarrow>
        rt_account_id r = rt_account_id s \<and> rt_client_id r = rt_client_id s \<and> (unspent r \<and> unspent s \<longrightarrow> r = s))"
  using single_lines_reachable[OF assms] unfolding single_lines_def .

definition demo_rotated_db :: db where
  "demo_rotated_db = snd (rotate_refresh_token id 50 (Some ''01'') ''mrt_00'' None 150 demo_refresh_db)"

lemma demo_rotated_reachable: "(oauth_step id)\<^sup>*\<^sup>* empty_db demo_rotated_db"
proof -
  have "oauth_step id demo_refresh_db demo_rotated_db"
    unfolding demo_rotated_db_def by (rule os_rotate[OF prod.collapse[symmetric]])
  with demo_refresh_reachable show ?thesis by simp
qed

theorem refresh_family_single_line_witness:
  "(let r = oauth_refresh_tokens demo_rotated_db ! 0; s = oauth_refresh_tokens demo_rotated_db ! 1 in
      rt_token_hash r = ''mrt_00'' \<and> rt_token_hash s = ''mrt_01'' \<and> rt_account_id r = rt_account_id s \<and>
      live 60 s \<and> \<not> live 60 r)"
proof -
  let ?r = "oauth_refresh_tokens demo_rotated_db ! 0" and ?s = "oauth_refresh_tokens demo_rotated_db ! 1"
  have rs: "?r \<in> set (oauth_refresh_tokens demo_rotated_db)" "?s \<in> set (oauth_refresh_tokens demo_rotated_db)"
    "rt_family_id ?r = rt_family_id ?s" by code_simp+
  have p: "rt_account_id ?r = rt_account_id ?s" "unspent ?r \<and> unspent ?s \<longrightarrow> ?r = ?s"
    using refresh_family_single_line[OF demo_rotated_reachable] rs by blast+
  then have p2: "live 60 ?r \<and> live 60 ?s \<longrightarrow> ?r = ?s" by (simp add: live_def unspent_def)
  have "rt_token_hash ?r = ''mrt_00''" "rt_token_hash ?s = ''mrt_01''" "live 60 ?s" by code_simp+
  moreover have "rt_token_hash ?r \<noteq> rt_token_hash ?s" by code_simp
  then have "?r \<noteq> ?s" by metis
  ultimately show ?thesis unfolding Let_def using p(1) p2 by blast
qed

text \<open>A refresh token can be rotated at most once: after a successful rotation, and after
  whatever else happens to the store, presenting the same token again is refused and leaves the
  refresh tokens as they are.\<close>

lemma rotation_single_use:
  assumes "(oauth_step blake3)\<^sup>*\<^sup>* empty_db d"
    and rot: "rotate_refresh_token blake3 now secret old ah ex d = (Inr tok, d1)"
    and later: "(oauth_step blake3)\<^sup>*\<^sup>* d1 d2"
  shows "\<exists>e d3. rotate_refresh_token blake3 now' secret' old ah' ex' d2 = (Inl e, d3) \<and>
    oauth_refresh_tokens d3 = oauth_refresh_tokens d2"
proof -
  obtain h r where r: "r \<in> set (oauth_refresh_tokens d)" "rt_token_hash r = old"
    "oauth_refresh_tokens d1 = rotated now h ah ex r (oauth_refresh_tokens d)"
    using rotate_refresh_token_rows[OF rot] by auto
  have "mark_used now r r \<in> set (oauth_refresh_tokens d1)" using r(1) by (simp add: r(3) set_rotated)
  then have "spent old d1"
    unfolding spent_def using r(2) by (intro bexI[of _ "mark_used now r r"]) (simp_all add: mark_used_def unspent_def)
  with later have sp: "spent old d2" by (rule spent_reachable)
  have "oauth_step blake3 d d1" using rot by (rule os_rotate)
  with assms(1) later have "(oauth_step blake3)\<^sup>*\<^sup>* empty_db d2" by simp
  then have u: "keys_unique rt_token_hash (oauth_refresh_tokens d2)"
    using refresh_inv_reachable refresh_inv_empty refresh_inv_def by blast
  obtain res d3 where res: "rotate_refresh_token blake3 now' secret' old ah' ex' d2 = (res, d3)"
    by (meson surj_pair)
  note spent_not_live[OF sp u]
  with rotate_refresh_token_rows[OF res] res show ?thesis by blast
qed

lemma rotation_single_use_witness:
  "\<exists>e d3. rotate_refresh_token id 60 (Some ''02'') ''mrt_00'' None 200
     demo_rotated_db = (Inl e, d3)"
proof -
  have "fst (rotate_refresh_token id 50 (Some ''01'') ''mrt_00'' None 150 demo_refresh_db) = Inr ''mrt_01''"
    by code_simp
  then have "rotate_refresh_token id 50 (Some ''01'') ''mrt_00'' None 150 demo_refresh_db =
      (Inr ''mrt_01'', demo_rotated_db)"
    by (metis prod.collapse demo_rotated_db_def)
  from rotation_single_use[OF demo_refresh_reachable this rtranclp.rtrancl_refl]
  show ?thesis by blast
qed

end
