(* ===== verification/OAuth_Props.thy ===== *)
theory OAuth_Props
  imports OAuth_Store
begin

text \<open>
  Properties of the credential stores: what revocation leaves behind, which bearer tokens are
  honoured, how consent accumulates, and what the two account operations with wrong SQL do.
\<close>

section \<open>Revocation\<close>

lemma revoke_refresh_all:
  "r \<in> set (revoke_refresh now p rows) \<Longrightarrow> (\<And>s t. p (s\<lparr>rt_revoked_at := t\<rparr>) = p s) \<Longrightarrow> p r \<Longrightarrow> rt_revoked_at r \<noteq> None"
  by (auto simp: tbl_simps split: if_splits)

lemma revoke_refresh_others:
  "r \<in> set rows \<Longrightarrow> \<not> p r \<Longrightarrow> r \<in> set (revoke_refresh now p rows)"
  by (auto simp: tbl_simps image_iff intro!: bexI[of _ r])

lemma revoke_family_effect:
  assumes "revoke_refresh_family now fam d = (Inr (), d')"
  shows "(\<forall>r \<in> set (oauth_refresh_tokens d'). rt_family_id r = fam \<longrightarrow>
            rt_revoked_at r \<noteq> None \<and> rt_access_token_hash r \<notin> Some ` ap_token_hash ` set (app_passwords d')) \<and>
    (\<forall>r \<in> set (oauth_refresh_tokens d). rt_family_id r \<noteq> fam \<longrightarrow> r \<in> set (oauth_refresh_tokens d')) \<and>
    (\<forall>p \<in> set (app_passwords d). (\<forall>r \<in> set (oauth_refresh_tokens d). rt_family_id r = fam \<longrightarrow>
       rt_access_token_hash r \<noteq> Some (ap_token_hash p)) \<longrightarrow> p \<in> set (app_passwords d'))"
proof -
  obtain fs where "transaction (\<lambda>d. (Inr (), d\<lparr>app_passwords := sql_delete (\<lambda>p. \<exists>r \<in> set (oauth_refresh_tokens d).
      rt_family_id r = fam \<and> rt_access_token_hash r = Some (ap_token_hash p)) (app_passwords d),
      oauth_refresh_tokens := revoke_refresh now (\<lambda>r. rt_family_id r = fam) (oauth_refresh_tokens d)\<rparr>))
      (d\<lparr>faults := fs\<rparr>) = (Inr (), d')"
    using assms unfolding revoke_refresh_family_def by (rule db_call_ok)
  note run = transaction_okD[OF this, simplified, symmetric]
  have d': "oauth_refresh_tokens d' = revoke_refresh now (\<lambda>r. rt_family_id r = fam) (oauth_refresh_tokens d)"
    "app_passwords d' = sql_delete (\<lambda>p. \<exists>r \<in> set (oauth_refresh_tokens d).
       rt_family_id r = fam \<and> rt_access_token_hash r = Some (ap_token_hash p)) (app_passwords d)"
    by (simp_all add: run)
  have acc: "rt_access_token_hash r \<notin> Some ` ap_token_hash ` set (app_passwords d')"
    if r: "r \<in> set (oauth_refresh_tokens d')" "rt_family_id r = fam" for r
  proof -
    obtain s where s: "s \<in> set (oauth_refresh_tokens d)" "rt_family_id r = rt_family_id s"
        "rt_access_token_hash r = rt_access_token_hash s"
      using r(1) unfolding d'(1) by (rule revoked_row)
    with r(2) show ?thesis by (auto simp: d'(2) tbl_simps)
  qed
  have rev: "rt_revoked_at r \<noteq> None" if "r \<in> set (oauth_refresh_tokens d')" "rt_family_id r = fam" for r
    using revoke_refresh_all[OF that(1)[unfolded d'(1)] _ that(2)] by simp
  have other: "r \<in> set (oauth_refresh_tokens d')" if "r \<in> set (oauth_refresh_tokens d)" "rt_family_id r \<noteq> fam" for r
    unfolding d'(1) using that by (rule revoke_refresh_others)
  have "p \<in> set (app_passwords d')" if "p \<in> set (app_passwords d)"
      "\<forall>r \<in> set (oauth_refresh_tokens d). rt_family_id r = fam \<longrightarrow> rt_access_token_hash r \<noteq> Some (ap_token_hash p)" for p
    unfolding d'(2) set_sql_delete using that by blast
  with acc rev other show ?thesis by blast
qed

text \<open>Revoking a refresh family leaves no token of the family that could be rotated and no
  access token minted with one of them; the tokens of other families and the other bearer tokens
  are untouched.\<close>

lemma revoke_family_kills:
  assumes "revoke_refresh_family now fam d = (Inr (), d')"
  shows "(\<forall>r \<in> set (oauth_refresh_tokens d'). rt_family_id r = fam \<longrightarrow>
            rt_revoked_at r \<noteq> None \<and> rt_access_token_hash r \<notin> Some ` ap_token_hash ` set (app_passwords d')) \<and>
    (\<forall>r \<in> set (oauth_refresh_tokens d). rt_family_id r \<noteq> fam \<longrightarrow> r \<in> set (oauth_refresh_tokens d')) \<and>
    (\<forall>p \<in> set (app_passwords d). (\<forall>r \<in> set (oauth_refresh_tokens d). rt_family_id r = fam \<longrightarrow>
       rt_access_token_hash r \<noteq> Some (ap_token_hash p)) \<longrightarrow> p \<in> set (app_passwords d'))"
  using assms by (rule revoke_family_effect)

definition demo_access_db :: db where
  "demo_access_db = snd (create_scoped_token id 0 (Some ''1'') ''a1'' ''oidc access'' [''openid''] 90 ''c1'' demo_refresh_db)"

lemma revoke_family_kills_witness:
  "fst (revoke_refresh_family 50 ''f1'' demo_access_db) = Inr () \<and>
   app_passwords demo_access_db \<noteq> [] \<and>
   list_all (\<lambda>r. rt_family_id r = ''f1'' \<longrightarrow> rt_revoked_at r \<noteq> None)
     (oauth_refresh_tokens (snd (revoke_refresh_family 50 ''f1'' demo_access_db)))"
proof -
  have "fst (revoke_refresh_family 50 ''f1'' demo_access_db) = Inr ()" "app_passwords demo_access_db \<noteq> []"
    by code_simp+
  moreover from this(1) have run: "revoke_refresh_family 50 ''f1'' demo_access_db = (Inr (), snd (revoke_refresh_family 50 ''f1'' demo_access_db))"
    by (metis prod.collapse)
  ultimately show ?thesis using revoke_family_kills[OF run] unfolding list_all_iff by blast
qed

lemma sql_select_cong_none: "(\<And>r. r \<in> set rows \<Longrightarrow> \<not> p r) \<Longrightarrow> sql_select p rows = None"
  by (simp add: sql_select_None)

text \<open>Disabling a client shuts it out: its secret no longer verifies, none of its refresh tokens
  is live and none of its access tokens is left.\<close>

lemma disable_client_shuts_out:
  assumes "disable_oauth_client now cid d = (Inr (), d')"
  shows "(\<forall>p \<in> set (app_passwords d'). ap_oauth_client_id p \<noteq> Some cid) \<and>
    (\<forall>r \<in> set (oauth_refresh_tokens d'). rt_client_id r = cid \<longrightarrow> \<not> live t r) \<and>
    fst (verify_oauth_client_secret blake3 cid secret d') \<in> {Inr False, Inl StClosed} \<and>
    (\<exists>c. fst (oauth_client cid d') \<in> {Inr (Some c), Inl StClosed} \<and> cl_disabled c)"
proof -
  have d': "oauth_clients d' = sql_update (\<lambda>r. oc_id r = cid) (\<lambda>r. r\<lparr>oc_disabled := True\<rparr>) (oauth_clients d)"
    "oauth_refresh_tokens d' = revoke_refresh now (\<lambda>r. rt_client_id r = cid) (oauth_refresh_tokens d)"
    "app_passwords d' = sql_delete (\<lambda>p. ap_oauth_client_id p = Some cid) (app_passwords d)"
    "sql_count (\<lambda>r. oc_id r = cid) (oauth_clients d) \<noteq> 0"
    using assms unfolding disable_oauth_client_def
    by (auto dest!: db_call_okD transaction_okD split: if_splits)
  have rev: "rt_revoked_at r \<noteq> None" if "r \<in> set (oauth_refresh_tokens d')" "rt_client_id r = cid" for r
    using revoke_refresh_all[OF that(1)[unfolded d'(2)] _ that(2)] by simp
  have dis: "oc_disabled r" if "r \<in> set (oauth_clients d')" "oc_id r = cid" for r
    using that unfolding d'(1) by (elim sql_updateE) simp_all
  then have sel: "sql_select (\<lambda>r. oc_id r = cid \<and> \<not> oc_disabled r) (oauth_clients d') = None"
    by (intro sql_select_cong_none) blast
  have secret: "fst (verify_oauth_client_secret blake3 cid secret d') \<in> {Inr False, Inl StClosed}"
    by (simp add: verify_oauth_client_secret_def Let_def db_call_def sel split: list.splits)
  have "map oc_id (oauth_clients d') = map oc_id (oauth_clients d)"
    unfolding d'(1) by (rule map_key_update) simp
  moreover have "cid \<in> set (map oc_id (oauth_clients d))"
    using d'(4) by (auto simp: sql_count_def filter_empty_conv)
  ultimately have "cid \<in> set (map oc_id (oauth_clients d'))" by simp
  then have "\<exists>r \<in> set (oauth_clients d'). oc_id r = cid" by auto
  then have "sql_select (\<lambda>r. oc_id r = cid) (oauth_clients d') \<noteq> None" by (simp add: sql_select_None)
  then obtain r where r: "sql_select (\<lambda>r. oc_id r = cid) (oauth_clients d') = Some r" by blast
  from sql_select_Some[OF r] dis have "cl_disabled (row_to_client r)" by (simp add: row_to_client_def)
  moreover have "fst (oauth_client cid d') \<in> {Inr (Some (row_to_client r)), Inl StClosed}"
    by (simp add: oauth_client_def db_call_def r split: list.splits)
  moreover have "\<forall>r \<in> set (oauth_refresh_tokens d'). rt_client_id r = cid \<longrightarrow> \<not> live t r"
    using rev unfolding live_def by blast
  moreover have "\<forall>p \<in> set (app_passwords d'). ap_oauth_client_id p \<noteq> Some cid"
    by (simp add: d'(3) tbl_simps)
  ultimately show ?thesis using secret by blast
qed

lemma disable_client_shuts_out_witness:
  "fst (disable_oauth_client 50 ''c1'' demo_access_db) = Inr () \<and>
   list_all (\<lambda>p. ap_oauth_client_id p \<noteq> Some ''c1'') (app_passwords (snd (disable_oauth_client 50 ''c1'' demo_access_db)))"
proof -
  have f: "fst (disable_oauth_client 50 ''c1'' demo_access_db) = Inr ()" by code_simp
  then have "disable_oauth_client 50 ''c1'' demo_access_db = (Inr (), snd (disable_oauth_client 50 ''c1'' demo_access_db))"
    by (metis prod.collapse)
  from disable_client_shuts_out[OF this, of 60 id "''mcs_0''"] f show ?thesis unfolding list_all_iff by blast
qed

section \<open>Consent\<close>

lemma set_merge_scopes: "set (merge_scopes ms ss) = set ms \<union> set ss"
  by (induction ms ss rule: merge_scopes.induct) auto

lemma merge_scopes_ok:
  "list_all scope_ok ms \<Longrightarrow> list_all scope_ok ss \<Longrightarrow> list_all scope_ok (sort (merge_scopes ms ss))"
  by (auto simp: list_all_iff set_merge_scopes)

definition granted :: "db \<Rightarrow> string \<Rightarrow> string \<Rightarrow> string set" where
  "granted d acct cid =
     (case sql_select (\<lambda>r. og_account_id r = acct \<and> og_client_id r = cid) (oauth_grants d) of
        None \<Rightarrow> {} | Some r \<Rightarrow> set (split_whitespace (og_scopes r)))"

lemma sql_select_update_key:
  assumes "sql_select p rows = Some r" "\<And>r. p (f r) = p r"
  shows "sql_select p (sql_update p f rows) = Some (f r)"
  using assms(1) unfolding sql_select_def sql_update_def
  by (induction rows) (auto simp: assms(2) split: if_splits)

lemma sql_select_append_None: "sql_select p rows = None \<Longrightarrow> p r \<Longrightarrow> sql_select p (rows @ [r]) = Some r"
  unfolding sql_select_def by (induction rows) (auto split: if_splits)

text \<open>Remembered consent only grows: after a successful upsert the grant of the account to the
  client covers the scopes granted before and the new ones, and nothing else. Scopes are the words of
  a scope parameter, so they are non-empty and contain no white space.\<close>

lemma upsert_grant_union:
  assumes "list_all scope_ok scopes" "upsert_oauth_grant now new_id acct cid scopes d = (Inr (), d')"
  shows "granted d' acct cid = granted d acct cid \<union> set scopes"
proof -
  let ?p = "\<lambda>r. og_account_id r = acct \<and> og_client_id r = cid"
  let ?old = "\<lambda>ex. case ex of None \<Rightarrow> [] | Some r \<Rightarrow> split_whitespace (og_scopes r)"
  let ?text = "\<lambda>ex. join '' '' (sort (merge_scopes (?old ex) scopes))"
  have words: "set (split_whitespace (?text ex)) = set (?old ex) \<union> set scopes" for ex
  proof -
    have "list_all scope_ok (?old ex)" by (cases ex) (simp_all add: split_whitespace_ok)
    from split_join[OF merge_scopes_ok[OF this assms(1)]] show ?thesis by (simp add: set_merge_scopes)
  qed
  obtain fs where run: "transaction (\<lambda>d. let existing = sql_select ?p (oauth_grants d);
       merged = sort (merge_scopes (?old existing) scopes); text = join '' '' merged
     in if \<not> has_account d acct \<or> \<not> has_client d cid then (Inl fk_error, d)
        else (case existing of
            Some _ \<Rightarrow> (Inr (), d\<lparr>oauth_grants := sql_update ?p (\<lambda>r. r\<lparr>og_scopes := text, og_updated_at := now\<rparr>) (oauth_grants d)\<rparr>)
          | None \<Rightarrow> (case sql_insert og_id \<lparr>og_id = new_id, og_account_id = acct, og_client_id = cid,
                        og_scopes = text, og_created_at = now, og_updated_at = now\<rparr> (oauth_grants d) of
                      None \<Rightarrow> (Inl unique_error, d)
                    | Some rows \<Rightarrow> (Inr (), d\<lparr>oauth_grants := rows\<rparr>)))) (d\<lparr>faults := fs\<rparr>) = (Inr (), d')"
    using assms(2) unfolding upsert_oauth_grant_def by (rule db_call_ok)
  show ?thesis
  proof (cases "sql_select ?p (oauth_grants d)")
    case None
    with transaction_okD[OF run] obtain r where "oauth_grants d' = oauth_grants d @ [r]" "?p r" "og_scopes r = ?text None"
      by (auto simp: Let_def sql_insert_def split: if_splits)
    with None words[of None] show ?thesis by (simp add: granted_def sql_select_append_None)
  next
    case (Some r)
    with transaction_okD[OF run] have "oauth_grants d' = sql_update ?p (\<lambda>s. s\<lparr>og_scopes := ?text (Some r), og_updated_at := now\<rparr>) (oauth_grants d)"
      by (auto simp: Let_def split: if_splits)
    with Some words[of "Some r"] show ?thesis by (simp add: granted_def sql_select_update_key)
  qed
qed

lemma upsert_grant_union_witness:
  "granted (snd (upsert_oauth_grant 2 ''g2'' ''a1'' ''c1'' [''email'']
     (snd (upsert_oauth_grant 1 ''g1'' ''a1'' ''c1'' [''openid''] demo_oauth_db)))) ''a1'' ''c1'' =
   {''openid'', ''email''}"
proof -
  let ?d = "snd (upsert_oauth_grant 1 ''g1'' ''a1'' ''c1'' [''openid''] demo_oauth_db)"
  have run: "upsert_oauth_grant 2 ''g2'' ''a1'' ''c1'' [''email''] ?d = (Inr (), snd (upsert_oauth_grant 2 ''g2'' ''a1'' ''c1'' [''email''] ?d))"
    by (rule prod_eqI) (code_simp, simp)
  have "list_all scope_ok [''email'']" "granted ?d ''a1'' ''c1'' = {''openid''}" by code_simp+
  from upsert_grant_union[OF this(1) run] this(2) show ?thesis by auto
qed

section \<open>Bearer tokens\<close>

text \<open>Which bearer tokens are honoured as full credentials: only an \<open>msk_\<close> token whose hash is
  stored, that carries no scopes and has not expired, of an account that is not disabled. The caller
  gets that account. A scoped access token, of the OpenID provider, is never accepted here.\<close>

lemma account_by_token_sound:
  assumes "account_by_token blake3 now token d = (Inr (Some a), d')"
  shows "starts_with ''msk_'' token \<and>
    (\<exists>p \<in> set (app_passwords d). \<exists>r \<in> set (accounts d).
       ap_token_hash p = blake3 token \<and> ap_scopes p = None \<and> not_expired now (ap_expires_at p) \<and>
       acc_id r = ap_account_id p \<and> acc_disabled_at r = None \<and> a = row_to_account r)"
proof -
  have pre: "starts_with ''msk_'' token"
    using assms by (auto simp: account_by_token_def op_defs TOKEN_PREFIX_def split: if_splits)
  with assms obtain fs p r where
    "sql_select (\<lambda>(p, a). ap_token_hash p = blake3 token \<and> acc_disabled_at a = None \<and>
       ap_scopes p = None \<and> not_expired now (ap_expires_at p)) (token_join d) = Some (p, r)"
    "a = row_to_account r"
    by (auto simp: account_by_token_def TOKEN_PREFIX_def Let_def dest!: db_call_okD split: option.splits)
  with pre sql_select_Some[OF this(1)] show ?thesis by (auto simp: token_join_mem)
qed

definition demo_token_db :: db where
  "demo_token_db = snd (create_token id 0 (Some ''7'') ''a1'' ''laptop'' demo_oauth_db)"

lemma account_by_token_sound_witness:
  "fst (account_by_token id 5 ''msk_7'' demo_token_db) =
     Inr (Some \<lparr>a_id = ''a1'', a_email = ''a@x'', a_display_name = None, a_created_at = 0\<rparr>) \<and>
   (\<exists>p \<in> set (app_passwords demo_token_db). ap_scopes p = None \<and> ap_token_hash p = ''msk_7'')"
proof -
  let ?r = "account_by_token id 5 ''msk_7'' demo_token_db"
  have f: "fst ?r = Inr (Some \<lparr>a_id = ''a1'', a_email = ''a@x'', a_display_name = None, a_created_at = 0\<rparr>)"
    by code_simp
  then have "?r = (Inr (Some \<lparr>a_id = ''a1'', a_email = ''a@x'', a_display_name = None, a_created_at = 0\<rparr>), snd ?r)"
    by (metis prod.collapse)
  from account_by_token_sound[OF this] f show ?thesis by auto
qed

lemma token_row_unique:
  assumes "keys_unique acc_id (accounts d)" "keys_unique ap_token_hash (app_passwords d)"
    and "p \<in> set (app_passwords d)" "r \<in> set (accounts d)" "acc_id r = ap_account_id p"
    and "(q, s) \<in> set (token_join d)" "ap_token_hash q = ap_token_hash p"
  shows "q = p \<and> s = r"
proof -
  have "q = p" using assms(2,3,6,7) keys_unique_eq by (metis token_join_mem)
  moreover from this have "s = r" using assms(1,4-6) keys_unique_eq by (metis token_join_mem)
  ultimately show ?thesis ..
qed

text \<open>A new token works: after \<open>create_token\<close> for an account that is not disabled, the returned
  string is honoured as a full credential of that account at any time (the call itself may still be
  refused by the database). It starts with \<open>msk_\<close> and only its hash is stored.\<close>

lemma create_token_roundtrip:
  assumes uniq: "keys_unique acc_id (accounts d)" "keys_unique ap_token_hash (app_passwords d)"
    and acc: "r \<in> set (accounts d)" "acc_id r = acct" "acc_disabled_at r = None"
    and run: "create_token blake3 t0 secret acct nm d = (Inr token, d')"
  shows "starts_with ''msk_'' token \<and> blake3 token \<notin> ap_token_hash ` set (app_passwords d) \<and>
    fst (account_by_token blake3 now token d') \<in> {Inr (Some (row_to_account r)), Inl StClosed}"
proof -
  obtain hex where hex: "secret = Some hex"
    using run by (cases secret) (auto simp: create_token_def op_defs)
  let ?row = "\<lparr>ap_token_hash = blake3 (TOKEN_PREFIX @ hex), ap_account_id = acct, ap_name = nm, ap_created_at = t0,
      ap_last_used_at = None, ap_expires_at = None, ap_scopes = None, ap_oauth_client_id = None\<rparr>"
  have token: "token = TOKEN_PREFIX @ hex" and "\<exists>fs u. insert_app_password ?row (d\<lparr>faults := fs\<rparr>) = (Inr u, d')"
    using run hex by (auto simp: create_token_def Let_def dest!: op_bind_return_ok db_call_okD)
  then obtain fs u where ins: "insert_app_password ?row (d\<lparr>faults := fs\<rparr>) = (Inr u, d')" by blast
  have fresh: "blake3 token \<notin> ap_token_hash ` set (app_passwords d)"
    and rows: "app_passwords d' = app_passwords d @ [?row]" "accounts d' = accounts d"
    using ins by (auto simp: insert_app_password_def sql_insert_def token split: if_splits)
  have "keys_unique ap_token_hash (app_passwords d')"
    using uniq(2) fresh by (simp add: rows keys_unique_def token)
  with uniq(1) acc have row: "(q, s) \<in> set (token_join d') \<Longrightarrow> ap_token_hash q = blake3 token \<Longrightarrow> q = ?row \<and> s = r" for q s
    using token_row_unique[of d' ?row r q s] by (simp add: rows token)
  let ?sel = "\<lambda>(p, a). ap_token_hash p = blake3 token \<and> acc_disabled_at a = None \<and> ap_scopes p = None \<and>
      not_expired now (ap_expires_at p)"
  have "(?row, r) \<in> set (token_join d')" using acc by (simp add: token_join_mem rows)
  then have "sql_select ?sel (token_join d') \<noteq> None"
    using acc(3) by (auto simp: sql_select_None token not_expired_def intro!: bexI[of _ "(?row, r)"])
  then obtain q s where qs: "sql_select ?sel (token_join d') = Some (q, s)" by auto
  with sql_select_Some[OF qs] row have "sql_select ?sel (token_join d') = Some (?row, r)" by auto
  moreover have pre: "starts_with TOKEN_PREFIX token" by (simp add: token)
  ultimately have "fst (account_by_token blake3 now token d') \<in> {Inr (Some (row_to_account r)), Inl StClosed}"
    by (simp add: account_by_token_def Let_def db_call_def split: list.splits)
  with pre fresh show ?thesis by (simp add: TOKEN_PREFIX_def)
qed

lemma create_token_roundtrip_witness:
  "fst (account_by_token id 9 ''msk_7'' demo_token_db) \<in>
     {Inr (Some (row_to_account (hd (accounts demo_oauth_db)))), Inl StClosed}"
proof -
  have run: "create_token id 0 (Some ''7'') ''a1'' ''laptop'' demo_oauth_db = (Inr ''msk_7'', demo_token_db)"
    by (rule prod_eqI) (code_simp, simp add: demo_token_db_def)
  have "keys_unique acc_id (accounts demo_oauth_db)" "keys_unique ap_token_hash (app_passwords demo_oauth_db)"
    "hd (accounts demo_oauth_db) \<in> set (accounts demo_oauth_db)" "acc_id (hd (accounts demo_oauth_db)) = ''a1''"
    "acc_disabled_at (hd (accounts demo_oauth_db)) = None" by code_simp+
  from create_token_roundtrip[OF this run, of 9] show ?thesis by blast
qed

section \<open>Accounts\<close>

text \<open>Deleting an account never succeeds and never changes anything: the statement list names a
  table that no migration creates, so the transaction fails and is rolled back, whatever the
  account.\<close>

lemma delete_account_never_works:
  "\<exists>e fs. delete_account acct d = (Inl e, d\<lparr>faults := fs\<rparr>)"
proof -
  obtain res d' where call: "delete_account acct d = (res, d')" by (meson surj_pair)
  from call[unfolded delete_account_def] show ?thesis
  proof (cases rule: db_call_cases)
    case (fault fs)
    with call show ?thesis by blast
  next
    case (run fs)
    have "''submissions'' \<in> set DELETE_TABLES" "map_of schema ''submissions'' \<noteq> Some True" by code_simp+
    from delete_tables_missing[OF this, of acct "d\<lparr>faults := fs\<rparr>"]
    have "\<exists>e. fst (op_bind (delete_tables DELETE_TABLES acct)
        (\<lambda>_ d. (Inr (), d\<lparr>accounts := sql_delete (\<lambda>r. acc_id r = acct) (accounts d)\<rparr>)) (d\<lparr>faults := fs\<rparr>)) = Inl e"
      by (auto simp: op_bind_def split: prod.splits sum.splits)
    with run have "\<exists>e. res = Inl e \<and> d' = d\<lparr>faults := fs\<rparr>"
      by (auto simp: transaction_def split: prod.splits sum.splits)
    with call show ?thesis by blast
  qed
qed

text \<open>A disabled account can never be enabled again: \<open>enable_account\<close> binds one parameter to a
  statement that mentions the second, so it always fails and the accounts stay as they are.\<close>

theorem enable_account_never_works:
  "\<exists>e fs. enable_account acct d = (Inl e, d\<lparr>faults := fs\<rparr>)"
proof -
  obtain res d' where call: "enable_account acct d = (res, d')" by (meson surj_pair)
  from call[unfolded enable_account_def] show ?thesis
  proof (cases rule: db_call_cases)
    case (run fs)
    with call show ?thesis by (simp add: sql_bind_def op_fail_def) metis
  qed (use call in blast)
qed

end
