(* ===== verification/Challenge_Store.thy ===== *)
theory Challenge_Store
  imports Prelude
begin

text \<open>
  \<open>crates/owney-api/src/challenge_store.rs\<close>: the in-memory store of challenges, pairing codes and
  authorization codes, and the session tokens. An entry is consumed by reading it and lives until its
  expiry. The clock is an argument, in seconds; a generated id or token secret is an argument. The
  store is polymorphic in its data, the bytes of the source.
\<close>

section \<open>Definitions\<close>

record 'b challenge_entry =
  ce_data :: 'b
  ce_expires_at :: int

type_synonym 'b challenge_store = "string \<rightharpoonup> 'b challenge_entry"

definition new_store :: "'b challenge_store" where
  "new_store = Map.empty"

text \<open>\<open>chrono::Duration::from_std\<close> fails beyond the range of a signed 64-bit number of
  milliseconds.\<close>

definition ttl_secs :: "nat \<Rightarrow> int" where
  "ttl_secs ttl = (if int ttl \<le> 9223372036854775 then int ttl else 600)"

definition store_keyed :: "int \<Rightarrow> string \<Rightarrow> 'b \<Rightarrow> nat \<Rightarrow> 'b challenge_store \<Rightarrow> 'b challenge_store" where
  "store_keyed now key dat ttl s = s(key \<mapsto> \<lparr>ce_data = dat, ce_expires_at = now + ttl_secs ttl\<rparr>)"

definition store_with_ttl :: "int \<Rightarrow> string \<Rightarrow> 'b \<Rightarrow> nat \<Rightarrow> 'b challenge_store \<Rightarrow> string \<times> 'b challenge_store" where
  "store_with_ttl now session_id dat ttl s =
     (session_id, s(session_id \<mapsto> \<lparr>ce_data = dat, ce_expires_at = now + ttl_secs ttl\<rparr>))"

definition store_challenge :: "int \<Rightarrow> string \<Rightarrow> 'b \<Rightarrow> 'b challenge_store \<Rightarrow> (string, string) result \<times> 'b challenge_store" where
  "store_challenge now session_id challenge s =
     (Inr session_id, s(session_id \<mapsto> \<lparr>ce_data = challenge, ce_expires_at = now + 600\<rparr>))"

definition peek :: "int \<Rightarrow> string \<Rightarrow> 'b challenge_store \<Rightarrow> 'b option \<times> 'b challenge_store" where
  "peek now k s =
     (case s k of
        Some entry \<Rightarrow> if now \<le> ce_expires_at entry then (Some (ce_data entry), s) else (None, s(k := None))
      | None \<Rightarrow> (None, s))"

definition retrieve_challenge :: "int \<Rightarrow> string \<Rightarrow> 'b challenge_store \<Rightarrow> (string, 'b) result \<times> 'b challenge_store" where
  "retrieve_challenge now k s =
     (case s k of
        Some entry \<Rightarrow>
          (if now > ce_expires_at entry then Inl ''Challenge expired'' else Inr (ce_data entry), s(k := None))
      | None \<Rightarrow> (Inl ''Challenge not found'', s))"

definition store_pairing_code :: "int \<Rightarrow> string \<Rightarrow> 'b \<Rightarrow> 'b challenge_store \<Rightarrow> (string, string) result \<times> 'b challenge_store" where
  "store_pairing_code now code_id code s =
     (Inr code_id, s(code_id \<mapsto> \<lparr>ce_data = code, ce_expires_at = now + 120\<rparr>))"

text \<open>\<open>from_utf8\<close> decodes the bytes of an entry.\<close>

definition retrieve_pairing_code ::
    "('b \<Rightarrow> string option) \<Rightarrow> int \<Rightarrow> string \<Rightarrow> 'b challenge_store \<Rightarrow> (string, string) result \<times> 'b challenge_store" where
  "retrieve_pairing_code from_utf8 now code_id s =
     (case s code_id of
        Some entry \<Rightarrow>
          (if now > ce_expires_at entry then Inl ''Pairing code expired''
           else (case from_utf8 (ce_data entry) of Some c \<Rightarrow> Inr c | None \<Rightarrow> Inl ''Invalid pairing code''),
           s(code_id := None))
      | None \<Rightarrow> (Inl ''Pairing code not found'', s))"

definition cleanup_expired :: "int \<Rightarrow> 'b challenge_store \<Rightarrow> 'b challenge_store" where
  "cleanup_expired now s = (\<lambda>k. case s k of
     Some entry \<Rightarrow> if ce_expires_at entry > now then Some entry else None
   | None \<Rightarrow> None)"

subsection \<open>Session tokens\<close>

record session_token_entry =
  te_account_id :: string
  te_expires_at :: int

type_synonym session_tokens = "string \<rightharpoonup> session_token_entry"

text \<open>\<open>sha256_hex\<close> is the hexadecimal digest; the random bytes are an argument.\<close>

definition generate_token ::
    "(string \<Rightarrow> string) \<Rightarrow> int \<Rightarrow> string \<Rightarrow> string \<Rightarrow> session_tokens \<Rightarrow> (string, string) result \<times> session_tokens" where
  "generate_token sha256_hex now random account_id s =
     (let token = ''owk_'' @ sha256_hex (random @ account_id @ show_int now)
      in (Inr token, s(token \<mapsto> \<lparr>te_account_id = account_id, te_expires_at = now + 86400\<rparr>)))"

definition validate_token :: "int \<Rightarrow> string \<Rightarrow> session_tokens \<Rightarrow> (string, string) result \<times> session_tokens" where
  "validate_token now token s =
     (case s token of
        Some entry \<Rightarrow>
          if now > te_expires_at entry then (Inl ''Token expired'', s(token := None))
          else (Inr (te_account_id entry), s)
      | None \<Rightarrow> (Inl ''Invalid token'', s))"

definition revoke_token :: "string \<Rightarrow> session_tokens \<Rightarrow> (string, unit) result \<times> session_tokens" where
  "revoke_token token s =
     (case s token of
        Some _ \<Rightarrow> (Inr (), s(token := None))
      | None \<Rightarrow> (Inl ''Token not found'', s))"

definition cleanup_expired_tokens :: "int \<Rightarrow> session_tokens \<Rightarrow> session_tokens" where
  "cleanup_expired_tokens now s = (\<lambda>k. case s k of
     Some entry \<Rightarrow> if te_expires_at entry > now then Some entry else None
   | None \<Rightarrow> None)"

section \<open>Single-use stores\<close>

text \<open>What clients see of the store: an entry written under a key, a look, a consuming read and the
  sweep of expired entries.\<close>

datatype ('k, 'v) store_event = Put int 'k 'v nat | Look int 'k | Take int 'k | Sweep int

text \<open>The interface the authorization-code flow relies on. \<open>valid t k s\<close> is what a consuming read of
  \<open>k\<close> at time \<open>t\<close> returns.\<close>

locale single_use_store =
  fixes put :: "int \<Rightarrow> 'k \<Rightarrow> 'v \<Rightarrow> nat \<Rightarrow> 's \<Rightarrow> 's"
    and look :: "int \<Rightarrow> 'k \<Rightarrow> 's \<Rightarrow> 's"
    and take_at :: "int \<Rightarrow> 'k \<Rightarrow> 's \<Rightarrow> 'w option \<times> 's"
    and sweep :: "int \<Rightarrow> 's \<Rightarrow> 's"
    and dead :: "'k \<Rightarrow> 's \<Rightarrow> bool"
  assumes dead_take: "dead k s \<Longrightarrow> fst (take_at t k s) = None"
    and take_kills: "dead k (snd (take_at t k s))"
    and dead_take_other: "dead k s \<Longrightarrow> dead k (snd (take_at t k' s))"
    and dead_put_other: "dead k s \<Longrightarrow> k' \<noteq> k \<Longrightarrow> dead k (put t k' v n s)"
    and dead_look: "dead k s \<Longrightarrow> dead k (look t k' s)"
    and dead_sweep: "dead k s \<Longrightarrow> dead k (sweep t s)"
begin

text \<open>The values the consuming reads of one key return, over a sequence of events.\<close>

fun taken :: "'k \<Rightarrow> ('k, 'v) store_event list \<Rightarrow> 's \<Rightarrow> 'w list" where
  "taken k [] s = []"
| "taken k (Put t k' v n # es) s = taken k es (put t k' v n s)"
| "taken k (Look t k' # es) s = taken k es (look t k' s)"
| "taken k (Sweep t # es) s = taken k es (sweep t s)"
| "taken k (Take t k' # es) s =
     (if k' = k then (case fst (take_at t k s) of Some w \<Rightarrow> [w] | None \<Rightarrow> []) else []) @
     taken k es (snd (take_at t k' s))"

definition puts :: "'k \<Rightarrow> ('k, 'v) store_event list \<Rightarrow> bool" where
  "puts k es \<longleftrightarrow> (\<exists>t v n. Put t k v n \<in> set es)"

lemma taken_dead: "dead k s \<Longrightarrow> \<not> puts k es \<Longrightarrow> taken k es s = []"
proof (induction k es s rule: taken.induct)
  case (2 k t k' v n es s)
  then have "k' \<noteq> k" "\<not> puts k es" by (auto simp: puts_def)
  with 2 dead_put_other show ?case by simp
next
  case (5 k t k' es s)
  then have "\<not> puts k es" by (auto simp: puts_def)
  with 5 show ?case using dead_take[of k s t] dead_take_other[of k s t k'] by auto
qed (auto simp: puts_def dead_look dead_sweep)

lemma single_use: "\<not> puts k es \<Longrightarrow> length (taken k es s) \<le> 1"
proof (induction k es s rule: taken.induct)
  case (5 k t k' es s)
  then have np: "\<not> puts k es" by (auto simp: puts_def)
  show ?case
  proof (cases "k' = k")
    case True
    have "taken k es (snd (take_at t k s)) = []" using take_kills np by (rule taken_dead)
    with True show ?thesis by (simp split: option.splits)
  next
    case False
    with 5 np show ?thesis by simp
  qed
qed (auto simp: puts_def)

end

definition take_challenge :: "int \<Rightarrow> string \<Rightarrow> 'b challenge_store \<Rightarrow> 'b option \<times> 'b challenge_store" where
  "take_challenge t k s = (case retrieve_challenge t k s of (Inr v, s') \<Rightarrow> (Some v, s') | (Inl _, s') \<Rightarrow> (None, s'))"

definition take_pairing :: "('b \<Rightarrow> string option) \<Rightarrow> int \<Rightarrow> string \<Rightarrow> 'b challenge_store \<Rightarrow> string option \<times> 'b challenge_store" where
  "take_pairing u t k s = (case retrieve_pairing_code u t k s of (Inr v, s') \<Rightarrow> (Some v, s') | (Inl _, s') \<Rightarrow> (None, s'))"

lemmas store_defs = store_keyed_def peek_def retrieve_challenge_def retrieve_pairing_code_def cleanup_expired_def
  take_challenge_def take_pairing_def

interpretation ch: single_use_store store_keyed "\<lambda>t k s. snd (peek t k s)" take_challenge cleanup_expired "\<lambda>k s. s k = None"
  by unfold_locales (auto simp: store_defs split: option.splits)

interpretation pair: single_use_store "\<lambda>t k v n s. snd (store_pairing_code t k v s)" "\<lambda>t k s. snd (peek t k s)"
    "take_pairing u" cleanup_expired "\<lambda>k s. s k = None" for u
  by unfold_locales (auto simp: store_defs store_pairing_code_def split: option.splits)

section \<open>Properties\<close>

text \<open>What the consuming reads of a key return, run on the store itself.\<close>

fun retrieved :: "string \<Rightarrow> (string, 'b) store_event list \<Rightarrow> 'b challenge_store \<Rightarrow> 'b list" where
  "retrieved k [] s = []"
| "retrieved k (Put t k' v n # es) s = retrieved k es (store_keyed t k' v n s)"
| "retrieved k (Look t k' # es) s = retrieved k es (snd (peek t k' s))"
| "retrieved k (Sweep t # es) s = retrieved k es (cleanup_expired t s)"
| "retrieved k (Take t k' # es) s =
     (case retrieve_challenge t k' s of
        (Inr v, s') \<Rightarrow> (if k' = k then v # retrieved k es s' else retrieved k es s')
      | (Inl _, s') \<Rightarrow> retrieved k es s')"

lemma take_challenge_Inr: "retrieve_challenge t k s = (Inr v, s') \<Longrightarrow> take_challenge t k s = (Some v, s')"
  by (simp add: take_challenge_def)

lemma take_challenge_Inl: "retrieve_challenge t k s = (Inl e, s') \<Longrightarrow> take_challenge t k s = (None, s')"
  by (simp add: take_challenge_def)

lemma retrieved_taken: "retrieved k es s = ch.taken k es s"
proof (induction k es s rule: retrieved.induct)
  case (5 k t k' es s)
  then show ?case
    by (cases "retrieve_challenge t k' s") (auto simp: take_challenge_Inl take_challenge_Inr split: sum.splits)
qed simp_all

definition stores_key :: "string \<Rightarrow> (string, 'b) store_event list \<Rightarrow> bool" where
  "stores_key k es \<longleftrightarrow> (\<exists>t v n. Put t k v n \<in> set es)"

text \<open>Along events with a clock that does not go back and no other write to the key, a consuming read
  returns the value written, and only before the expiry.\<close>

lemma retrieved_value:
  assumes "\<not> stores_key k es" "v \<in> set (retrieved k es s)"
  shows "\<exists>e. s k = Some e \<and> ce_data e = v"
  using assms
proof (induction k es s rule: retrieved.induct)
  case (2 k t k' v' n es s)
  then show ?case by (fastforce simp: stores_key_def store_keyed_def split: if_splits)
next
  case (3 k t k' es s)
  then show ?case by (fastforce simp: stores_key_def peek_def split: option.splits if_splits)
next
  case (4 k t es s)
  then show ?case by (fastforce simp: stores_key_def cleanup_expired_def split: option.splits if_splits)
next
  case (5 k t k' es s)
  then show ?case by (fastforce simp: stores_key_def retrieve_challenge_def split: option.splits if_splits)
qed simp

text \<open>C7. Challenges and authorization codes are single use: after a value is stored under a key,
  whatever sequence of reads, look-ups, sweeps and writes to other keys follows, at any times, at most
  one consuming read of the key succeeds, and it returns the value that was stored.\<close>

theorem challenge_single_use:
  assumes "\<not> stores_key k es"
  shows "length (retrieved k es (store_keyed now k v ttl s)) \<le> 1 \<and>
    set (retrieved k es (store_keyed now k v ttl s)) \<subseteq> {v}"
proof -
  have "\<not> ch.puts k es" using assms by (simp add: ch.puts_def stores_key_def)
  from ch.single_use[OF this] have "length (retrieved k es (store_keyed now k v ttl s)) \<le> 1"
    by (simp add: retrieved_taken)
  moreover have "set (retrieved k es (store_keyed now k v ttl s)) \<subseteq> {v}"
    using retrieved_value[OF assms] by (fastforce simp: store_keyed_def)
  ultimately show ?thesis ..
qed

theorem challenge_single_use_witness:
  "retrieved ''moc_1'' [Look 3 ''moc_1'', Put 4 ''x'' (2::nat) 60, Take 5 ''moc_1'', Take 6 ''moc_1'']
     (store_keyed 0 ''moc_1'' 1 60 new_store) = [1] \<and>
   length (retrieved ''moc_1'' [Look 3 ''moc_1'', Put 4 ''x'' (2::nat) 60, Take 5 ''moc_1'', Take 6 ''moc_1'']
     (store_keyed 0 ''moc_1'' 1 60 new_store)) \<le> 1"
proof -
  let ?es = "[Look 3 ''moc_1'', Put 4 ''x'' (2::nat) 60, Take 5 ''moc_1'', Take 6 ''moc_1'']"
  have "\<not> stores_key ''moc_1'' ?es" by (auto simp: stores_key_def)
  from challenge_single_use[OF this, of 0 1 60 new_store]
  show ?thesis by (simp add: store_defs new_store_def ttl_secs_def)
qed

text \<open>An entry can be read exactly until its expiry, and it is gone after a consuming read whatever the
  outcome. A sweep removes an entry only when it can no longer be read, save at the very second of
  its expiry.\<close>

lemma retrieve_until_expiry:
  "retrieve_challenge t k (store_keyed now k v ttl s) =
     (if t \<le> now + ttl_secs ttl then Inr v else Inl ''Challenge expired'', s(k := None))"
  "fst (peek t k (store_keyed now k v ttl s)) = (if t \<le> now + ttl_secs ttl then Some v else None)"
  "t \<noteq> now + ttl_secs ttl \<Longrightarrow>
     fst (take_challenge t k (cleanup_expired t (store_keyed now k v ttl s))) =
     fst (take_challenge t k (store_keyed now k v ttl s))"
  by (auto simp: store_defs)

text \<open>A generated session token validates to its account for 24 hours and not after it is revoked.\<close>

lemma session_token_lifecycle:
  assumes "generate_token sha now random acct s = (Inr token, s')"
  shows "fst (validate_token t token s') = (if t \<le> now + 86400 then Inr acct else Inl ''Token expired'')"
    and "fst (validate_token t token (snd (revoke_token token s'))) = Inl ''Invalid token''"
    and "other \<noteq> token \<Longrightarrow> fst (validate_token t other s') = fst (validate_token t other s)"
proof -
  have "s' = s(token \<mapsto> \<lparr>te_account_id = acct, te_expires_at = now + 86400\<rparr>)"
    using assms by (auto simp: generate_token_def Let_def)
  then show "fst (validate_token t token s') = (if t \<le> now + 86400 then Inr acct else Inl ''Token expired'')"
    "fst (validate_token t token (snd (revoke_token token s'))) = Inl ''Invalid token''"
    "other \<noteq> token \<Longrightarrow> fst (validate_token t other s') = fst (validate_token t other s)"
    by (simp_all add: validate_token_def revoke_token_def split: option.splits)
qed

end
