(* ===== verification/Oidc_Session.thy ===== *)
theory Oidc_Session
  imports OAuth_Props Challenge_Store Json
begin

text \<open>
  \<open>crates/owney-api/src/oidc/session.rs\<close> and \<open>mod.rs\<close>: the state of the OpenID provider, the parked
  authorization request, the code payload, code minting and redemption, redirects and PKCE.

  Code outside the repository is a field of the record \<open>oidc_env\<close>: the UUID parser (which returns the
  canonical text of the id), BLAKE3, base64 followed by UTF-8 decoding, the S256 transform of PKCE,
  percent-encoding, and the ID token signature. What a store entry holds is the value that was
  serialized; \<open>from_slice\<close> on the bytes of another type succeeds exactly when its fields cover the
  expected ones, unknown fields being ignored and absent optional fields read as \<^const>\<open>None\<close>.
\<close>

section \<open>Definitions\<close>

definition SCOPE_OPENID :: string where "SCOPE_OPENID = ''openid''"
definition SCOPE_EMAIL :: string where "SCOPE_EMAIL = ''email''"
definition SCOPE_PROFILE :: string where "SCOPE_PROFILE = ''profile''"
definition SCOPE_OFFLINE :: string where "SCOPE_OFFLINE = ''offline_access''"
definition SCOPE_MAIL :: string where "SCOPE_MAIL = ''owney:mail''"
definition SCOPE_MCP :: string where "SCOPE_MCP = ''owney:mcp''"

definition SUPPORTED_SCOPES :: "string list" where
  "SUPPORTED_SCOPES = [SCOPE_OPENID, SCOPE_EMAIL, SCOPE_PROFILE, SCOPE_OFFLINE, SCOPE_MAIL, SCOPE_MCP]"

definition CODE_PREFIX :: string where "CODE_PREFIX = ''moc_''"
definition AUTH_REQUEST_TTL :: nat where "AUTH_REQUEST_TTL = 600"
definition AUTHOK_TTL :: nat where "AUTHOK_TTL = 300"
definition CODE_TTL :: nat where "CODE_TTL = 60"

record auth_request =
  ar_client_id :: string
  ar_redirect_uri :: string
  ar_scopes :: "string list"
  ar_state :: "string option"
  ar_nonce :: "string option"
  ar_code_challenge :: string

record code_grant_t =
  cg_account_id :: string
  cg_client_id :: string
  cg_redirect_uri :: string
  cg_code_challenge :: string
  cg_nonce :: "string option"
  cg_scopes :: "string list"

record 'p login_ceremony =
  lc_req_id :: string
  lc_account_id :: string
  lc_auth :: 'p

record 'p enroll_state =
  en_account_id :: string
  en_reg :: 'p

text \<open>The contents of the challenge store. \<open>'p\<close> stands for the opaque ceremony state of the WebAuthn
  library.\<close>

datatype 'p payload = PRequest auth_request | PCode code_grant_t | PCeremony "'p login_ceremony" | PEnroll "'p enroll_state" | PText string

fun request_from_slice :: "'p payload \<Rightarrow> auth_request option" where
  "request_from_slice (PRequest r) = Some r"
| "request_from_slice (PCode g) =
     Some \<lparr>ar_client_id = cg_client_id g, ar_redirect_uri = cg_redirect_uri g, ar_scopes = cg_scopes g,
           ar_state = None, ar_nonce = cg_nonce g, ar_code_challenge = cg_code_challenge g\<rparr>"
| "request_from_slice _ = None"

fun code_from_slice :: "'p payload \<Rightarrow> code_grant_t option" where
  "code_from_slice (PCode g) = Some g"
| "code_from_slice _ = None"

fun ceremony_from_slice :: "'p payload \<Rightarrow> 'p login_ceremony option" where
  "ceremony_from_slice (PCeremony c) = Some c"
| "ceremony_from_slice _ = None"

fun enroll_from_slice :: "'p payload \<Rightarrow> 'p enroll_state option" where
  "enroll_from_slice (PEnroll e) = Some e"
| "enroll_from_slice _ = None"

record oidc_config =
  access_token_ttl_secs :: nat
  id_token_ttl_secs :: nat
  refresh_token_ttl_secs :: nat

record 'p oidc_state =
  config :: oidc_config
  issuer :: string
  challenges :: "'p payload challenge_store"

record 'p api_state =
  storage :: db
  oidc :: "'p oidc_state option"

record id_claims =
  iss :: string
  sub_claim :: string
  aud :: string
  exp_claim :: int
  iat :: int
  auth_time :: "int option"
  nonce_claim :: "string option"
  email_claim :: "string option"
  email_verified :: "bool option"
  name_claim :: "string option"

record oidc_env =
  parse_uuid :: "string \<Rightarrow> string option"
  blake3_hex :: "string \<Rightarrow> string"
  decode_basic :: "string \<Rightarrow> string option"
  s256 :: "string \<Rightarrow> string"
  url_encode :: "string \<Rightarrow> string"
  sign :: "id_claims \<Rightarrow> string option"

datatype body = NoBody | JsonBody json | HtmlBody string | TextBody string

record response =
  status :: nat
  headers :: "(string \<times> string) list"
  resp_body :: body

definition status_only :: "nat \<Rightarrow> response" where
  "status_only s = \<lparr>status = s, headers = [], resp_body = NoBody\<rparr>"

text \<open>A nested field update of the provider state.\<close>

definition with_challenges :: "'p payload challenge_store \<Rightarrow> 'p api_state \<Rightarrow> 'p api_state" where
  "with_challenges ch st = st\<lparr>oidc := map_option (\<lambda>p. p\<lparr>challenges := ch\<rparr>) (oidc st)\<rparr>"

definition challenges_of :: "'p api_state \<Rightarrow> 'p payload challenge_store" where
  "challenges_of st = (case oidc st of None \<Rightarrow> Map.empty | Some p \<Rightarrow> challenges p)"

text \<open>\<open>random_hex\<close>: the 32 random bytes in lower-case hexadecimal.\<close>

definition mint_code :: "int \<Rightarrow> string \<Rightarrow> code_grant_t \<Rightarrow> 'p payload challenge_store \<Rightarrow> string \<times> 'p payload challenge_store" where
  "mint_code now random_hex grant ch =
     (let code = CODE_PREFIX @ random_hex in (code, store_keyed now code (PCode grant) CODE_TTL ch))"

definition take_code :: "int \<Rightarrow> string \<Rightarrow> 'p payload challenge_store \<Rightarrow> code_grant_t option \<times> 'p payload challenge_store" where
  "take_code now code ch =
     (if \<not> starts_with CODE_PREFIX code then (None, ch)
      else (case retrieve_challenge now code ch of
              (Inl _, ch') \<Rightarrow> (None, ch')
            | (Inr bytes, ch') \<Rightarrow> (code_from_slice bytes, ch')))"

definition redirect_with :: "oidc_env \<Rightarrow> string \<Rightarrow> (string \<times> string) list \<Rightarrow> string" where
  "redirect_with env base params =
     (let sep = (if CHR ''?'' \<in> set base then ''&'' else ''?'');
          query = join ''&'' (map (\<lambda>(k, v). k @ ''='' @ url_encode env v) params)
      in base @ sep @ query)"

definition error_redirect :: "oidc_env \<Rightarrow> string \<Rightarrow> string \<Rightarrow> string option \<Rightarrow> string" where
  "error_redirect env redirect_uri error st =
     redirect_with env redirect_uri
       ((''error'', error) # (case st of Some s \<Rightarrow> [(''state'', s)] | None \<Rightarrow> []))"

definition verify_pkce_s256 :: "oidc_env \<Rightarrow> string \<Rightarrow> string \<Rightarrow> bool" where
  "verify_pkce_s256 env challenge verifier \<longleftrightarrow> s256 env verifier = challenge"

definition issuer_host :: "string \<Rightarrow> string option" where
  "issuer_host url =
     (case (case strip_prefix ''https://'' url of Some r \<Rightarrow> Some r | None \<Rightarrow> strip_prefix ''http://'' url) of
        None \<Rightarrow> None
      | Some rest \<Rightarrow>
          (let host = hd (split_on (CHR '':'') (hd (split_on (CHR ''/'') rest)))
           in if host = [] then None else Some host))"

section \<open>Lemmas\<close>

lemma challenges_of_with [simp]:
  "oidc st \<noteq> None \<Longrightarrow> challenges_of (with_challenges ch st) = ch"
  by (auto simp: challenges_of_def with_challenges_def)

lemma storage_with_challenges [simp]: "storage (with_challenges ch st) = storage st"
  by (simp add: with_challenges_def)

lemma oidc_with_challenges [simp]: "(oidc (with_challenges ch st) = None) = (oidc st = None)"
  by (simp add: with_challenges_def)

lemma take_code_Some:
  assumes "take_code now code ch = (Some g, ch')"
  shows "starts_with CODE_PREFIX code \<and>
    (\<exists>e. ch code = Some e \<and> now \<le> ce_expires_at e \<and> ce_data e = PCode g) \<and> ch' = ch(code := None)"
proof -
  have "code_from_slice p = Some g \<longleftrightarrow> p = PCode g" for p :: "'a payload" by (cases p) auto
  with assms show ?thesis
    by (auto simp: take_code_def retrieve_challenge_def split: if_splits option.splits)
qed

lemma take_code_gone: "starts_with CODE_PREFIX code \<Longrightarrow> snd (take_code now code ch) code = None"
  by (auto simp: take_code_def retrieve_challenge_def split: option.splits if_splits)

lemma take_code_None: "ch code = None \<Longrightarrow> take_code now code ch = (None, ch)"
  by (simp add: take_code_def retrieve_challenge_def)

lemma mint_take:
  "t \<le> now + 60 \<Longrightarrow> fst (take_code t (fst (mint_code now hex g ch)) (snd (mint_code now hex g ch))) = Some g"
  by (simp add: mint_code_def take_code_def Let_def CODE_TTL_def retrieve_until_expiry ttl_secs_def)

lemma redirect_prefix: "\<exists>q. redirect_with env base ps = base @ q"
  by (simp add: redirect_with_def Let_def)

lemma error_redirect_prefix: "\<exists>q. error_redirect env base e st = base @ q"
  by (simp add: error_redirect_def redirect_prefix)

end
