(* ===== verification/Oidc_Token.thy ===== *)
theory Oidc_Token
  imports Oidc_Session
begin

text \<open>
  \<open>crates/owney-api/src/oidc/token.rs\<close>: the token, revocation and userinfo endpoints. One request
  reads the clock once. The randomness a request consumes is the record \<open>randomness\<close>: the secrets of
  the access and the refresh token (\<^const>\<open>None\<close> when the generator fails) and the id of a new
  refresh family. Log output is left out.
\<close>

section \<open>Definitions\<close>

record token_form =
  grant_type :: "string option"
  tf_code :: "string option"
  tf_redirect_uri :: "string option"
  code_verifier :: "string option"
  tf_refresh_token :: "string option"
  tf_scope :: "string option"
  tf_client_id :: "string option"
  tf_client_secret :: "string option"

record randomness =
  access_secret :: "string option"
  refresh_secret :: "string option"
  family_id :: string

definition oauth_error :: "string \<Rightarrow> response" where
  "oauth_error code =
     \<lparr>status = (if code = ''invalid_client'' then 401 else 400),
      headers = (if code = ''invalid_client'' then [(''WWW-Authenticate'', ''Basic'')] else []),
      resp_body = JsonBody (json_obj [(''error'', JStr code)])\<rparr>"

text \<open>The value of the \<open>Authorization\<close> header, when it is present and readable as a string.\<close>

definition parse_basic_auth :: "oidc_env \<Rightarrow> string option \<Rightarrow> (string \<times> string) option" where
  "parse_basic_auth env authorization =
     (case authorization of None \<Rightarrow> None
      | Some raw \<Rightarrow> (case strip_prefix ''Basic '' raw of None \<Rightarrow> None
        | Some encoded \<Rightarrow> (case decode_basic env encoded of None \<Rightarrow> None
          | Some decoded \<Rightarrow> split_once (CHR '':'') decoded)))"

definition authenticate_client ::
    "oidc_env \<Rightarrow> string option \<Rightarrow> string option \<Rightarrow> string option \<Rightarrow> db \<Rightarrow> (response, oauth_client_t) result \<times> db" where
  "authenticate_client env authorization form_id form_secret d =
     (case (case parse_basic_auth env authorization of
              Some (i, secret) \<Rightarrow> Some (i, Some secret)
            | None \<Rightarrow> map_option (\<lambda>i. (i, form_secret)) form_id) of
        None \<Rightarrow> (Inl (oauth_error ''invalid_client''), d)
      | Some (client_id_raw, secret) \<Rightarrow>
          (case parse_uuid env client_id_raw of
             None \<Rightarrow> (Inl (oauth_error ''invalid_client''), d)
           | Some client_id \<Rightarrow>
               (case oauth_client client_id d of
                  (Inl _, d1) \<Rightarrow> (Inl (status_only 500), d1)
                | (Inr None, d1) \<Rightarrow> (Inl (oauth_error ''invalid_client''), d1)
                | (Inr (Some client), d1) \<Rightarrow>
                    if cl_disabled client then (Inl (oauth_error ''invalid_client''), d1)
                    else if cl_public client then (Inr client, d1)
                    else (case secret of
                            None \<Rightarrow> (Inl (oauth_error ''invalid_client''), d1)
                          | Some sec \<Rightarrow>
                              (case verify_oauth_client_secret (blake3_hex env) client_id sec d1 of
                                 (Inr ok, d2) \<Rightarrow> (if ok then Inr client else Inl (oauth_error ''invalid_client''), d2)
                               | (Inl _, d2) \<Rightarrow> (Inl (status_only 500), d2))))))"

definition id_token_claims :: "'p oidc_state \<Rightarrow> int \<Rightarrow> account_t \<Rightarrow> string \<Rightarrow> string \<Rightarrow> string list \<Rightarrow> string option \<Rightarrow> id_claims" where
  "id_token_claims o' issued acc account_id client_id scopes nonce =
     \<lparr>iss = issuer o', sub_claim = account_id, aud = client_id,
      exp_claim = issued + as_i64 (id_token_ttl_secs (config o')), iat = issued, auth_time = Some issued,
      nonce_claim = nonce,
      email_claim = (if SCOPE_EMAIL \<in> set scopes then Some (a_email acc) else None),
      email_verified = (if SCOPE_EMAIL \<in> set scopes then Some True else None),
      name_claim = (if SCOPE_PROFILE \<in> set scopes then a_display_name acc else None)\<rparr>"

text \<open>\<open>issue_tokens\<close>, from the body that carries the access token on: the ID token, the refresh token
  and the response.\<close>

definition finish_tokens :: "oidc_env \<Rightarrow> int \<Rightarrow> randomness \<Rightarrow> 'p oidc_state \<Rightarrow> account_t \<Rightarrow> string \<Rightarrow> string \<Rightarrow> string list \<Rightarrow>
    string option \<Rightarrow> string option \<Rightarrow> string \<Rightarrow> json \<Rightarrow> db \<Rightarrow> response \<times> db" where
  "finish_tokens env now rnd o' acc account_id client_id scopes nonce rotate_from access_hash body0 d =
     (case (if SCOPE_OPENID \<in> set scopes
            then map_option (\<lambda>t. json_set ''id_token'' (JStr t) body0)
                   (sign env (id_token_claims o' now acc account_id client_id scopes nonce))
            else Some body0) of
        None \<Rightarrow> (status_only 500, d)
      | Some body1 \<Rightarrow>
          let ok = (\<lambda>b. \<lparr>status = 200, headers = [(''Cache-Control'', ''no-store''), (''Pragma'', ''no-cache'')],
                         resp_body = JsonBody b\<rparr>)
          in if SCOPE_OFFLINE \<in> set scopes then
               (let refresh_expires = now + as_i64 (refresh_token_ttl_secs (config o'))
                in case (case rotate_from of
                     Some old_hash \<Rightarrow> rotate_refresh_token (blake3_hex env) now (refresh_secret rnd) old_hash (Some access_hash) refresh_expires d
                   | None \<Rightarrow> create_refresh_token (blake3_hex env) now (refresh_secret rnd) (family_id rnd) account_id client_id
                               scopes None (Some access_hash) refresh_expires d) of
                     (Inr refresh_token, d1) \<Rightarrow> (ok (json_set ''refresh_token'' (JStr refresh_token) body1), d1)
                   | (Inl _, d1) \<Rightarrow> (status_only 500, d1))
             else (case rotate_from of
                     Some old_hash \<Rightarrow> (ok body1, snd (revoke_token_by_hash old_hash d))
                   | None \<Rightarrow> (ok body1, d)))"

definition issue_tokens :: "oidc_env \<Rightarrow> int \<Rightarrow> randomness \<Rightarrow> 'p oidc_state \<Rightarrow> string \<Rightarrow> string \<Rightarrow> string list \<Rightarrow>
    string option \<Rightarrow> string option \<Rightarrow> db \<Rightarrow> response \<times> db" where
  "issue_tokens env now rnd o' account_id client_id scopes nonce rotate_from d =
     (case account account_id d of
        (Inl _, d1) \<Rightarrow> (status_only 500, d1)
      | (Inr None, d1) \<Rightarrow> (oauth_error ''invalid_grant'', d1)
      | (Inr (Some acc), d1) \<Rightarrow>
          let access_ttl = as_i64 (access_token_ttl_secs (config o')); access_expires = now + access_ttl in
          (case create_scoped_token (blake3_hex env) now (access_secret rnd) account_id ''oidc access'' scopes
                  access_expires client_id d1 of
             (Inl _, d2) \<Rightarrow> (status_only 500, d2)
           | (Inr (access_token, access_hash), d2) \<Rightarrow>
               finish_tokens env now rnd o' acc account_id client_id scopes nonce rotate_from access_hash
                 (json_obj [(''access_token'', JStr access_token), (''token_type'', JStr ''Bearer''),
                            (''expires_in'', JNum access_ttl), (''scope'', JStr (join '' '' scopes))]) d2))"

definition code_grant :: "oidc_env \<Rightarrow> int \<Rightarrow> randomness \<Rightarrow> 'p oidc_state \<Rightarrow> oauth_client_t \<Rightarrow> token_form \<Rightarrow>
    'p api_state \<Rightarrow> response \<times> 'p api_state" where
  "code_grant env now rnd o' client form st =
     (case tf_code form of
        None \<Rightarrow> (oauth_error ''invalid_request'', st)
      | Some code \<Rightarrow>
      (case code_verifier form of
        None \<Rightarrow> (oauth_error ''invalid_request'', st)
      | Some verifier \<Rightarrow>
      (case take_code now code (challenges o') of
        (None, ch) \<Rightarrow> (oauth_error ''invalid_grant'', with_challenges ch st)
      | (Some grant, ch) \<Rightarrow>
          (let st1 = with_challenges ch st in
           if cg_client_id grant \<noteq> cl_id client then (oauth_error ''invalid_grant'', st1)
           else if tf_redirect_uri form \<noteq> Some (cg_redirect_uri grant) then (oauth_error ''invalid_grant'', st1)
           else if \<not> verify_pkce_s256 env (cg_code_challenge grant) verifier then (oauth_error ''invalid_grant'', st1)
           else (case parse_uuid env (cg_account_id grant) of
                   None \<Rightarrow> (status_only 500, st1)
                 | Some account_id \<Rightarrow>
                     (case issue_tokens env now rnd o' account_id (cl_id client) (cg_scopes grant) (cg_nonce grant) None (storage st1) of
                        (r, d) \<Rightarrow> (r, st1\<lparr>storage := d\<rparr>)))))))"

text \<open>Down-scoping: the request may only narrow the scopes of the presented token.\<close>

definition narrow_scopes :: "token_form \<Rightarrow> refresh_token \<Rightarrow> string list option" where
  "narrow_scopes form row =
     (case tf_scope form of
        Some requested \<Rightarrow>
          (let requested = split_whitespace requested
           in if set requested \<subseteq> set (rf_scopes row) then Some requested else None)
      | None \<Rightarrow> Some (rf_scopes row))"

text \<open>\<open>refresh_grant\<close> once the presented token is known to belong to the client: reuse detection,
  revocation and expiry, down-scoping, and the new tokens.\<close>

definition refresh_with_row :: "oidc_env \<Rightarrow> int \<Rightarrow> randomness \<Rightarrow> 'p oidc_state \<Rightarrow> oauth_client_t \<Rightarrow> token_form \<Rightarrow>
    refresh_token \<Rightarrow> db \<Rightarrow> response \<times> db" where
  "refresh_with_row env now rnd o' client form row d =
     (if rf_used_at row \<noteq> None then
        (oauth_error ''invalid_grant'', snd (revoke_refresh_family now (rf_family_id row) d))
      else if rf_revoked_at row \<noteq> None \<or> rf_expires_at row \<le> now then (oauth_error ''invalid_grant'', d)
      else (case narrow_scopes form row of
              None \<Rightarrow> (oauth_error ''invalid_scope'', d)
            | Some scopes \<Rightarrow>
                issue_tokens env now rnd o' (rf_account_id row) (cl_id client) scopes None (Some (rf_token_hash row)) d))"

definition refresh_grant :: "oidc_env \<Rightarrow> int \<Rightarrow> randomness \<Rightarrow> 'p oidc_state \<Rightarrow> oauth_client_t \<Rightarrow> token_form \<Rightarrow>
    db \<Rightarrow> response \<times> db" where
  "refresh_grant env now rnd o' client form d =
     (case tf_refresh_token form of
        None \<Rightarrow> (oauth_error ''invalid_request'', d)
      | Some token \<Rightarrow>
      (case refresh_token_by_plaintext (blake3_hex env) token d of
        (Inl _, d1) \<Rightarrow> (status_only 500, d1)
      | (Inr None, d1) \<Rightarrow> (oauth_error ''invalid_grant'', d1)
      | (Inr (Some row), d1) \<Rightarrow>
          if rf_client_id row \<noteq> cl_id client then (oauth_error ''invalid_grant'', d1)
          else refresh_with_row env now rnd o' client form row d1))"

definition token :: "oidc_env \<Rightarrow> int \<Rightarrow> randomness \<Rightarrow> string option \<Rightarrow> token_form \<Rightarrow> 'p api_state \<Rightarrow> response \<times> 'p api_state" where
  "token env now rnd authorization form st =
     (case oidc st of
        None \<Rightarrow> (status_only 404, st)
      | Some o' \<Rightarrow>
          (case authenticate_client env authorization (tf_client_id form) (tf_client_secret form) (storage st) of
             (Inl r, d) \<Rightarrow> (r, st\<lparr>storage := d\<rparr>)
           | (Inr client, d) \<Rightarrow>
               (let st1 = st\<lparr>storage := d\<rparr> in
                if grant_type form = Some ''authorization_code'' then code_grant env now rnd o' client form st1
                else if grant_type form = Some ''refresh_token'' then
                  (case refresh_grant env now rnd o' client form d of (r, d') \<Rightarrow> (r, st1\<lparr>storage := d'\<rparr>))
                else (oauth_error ''unsupported_grant_type'', st1))))"

record revoke_form =
  rv_token :: "string option"
  rv_client_id :: "string option"
  rv_client_secret :: "string option"

definition revoke :: "oidc_env \<Rightarrow> int \<Rightarrow> string option \<Rightarrow> revoke_form \<Rightarrow> 'p api_state \<Rightarrow> response \<times> 'p api_state" where
  "revoke env now authorization form st =
     (case oidc st of
        None \<Rightarrow> (status_only 404, st)
      | Some o' \<Rightarrow>
          (case authenticate_client env authorization (rv_client_id form) (rv_client_secret form) (storage st) of
             (Inl r, d) \<Rightarrow> (r, st\<lparr>storage := d\<rparr>)
           | (Inr client, d) \<Rightarrow>
               (case rv_token form of
                  None \<Rightarrow> (status_only 200, st\<lparr>storage := d\<rparr>)
                | Some tok \<Rightarrow>
                    if starts_with ''mrt_'' tok then
                      (case refresh_token_by_plaintext (blake3_hex env) tok d of
                         (Inr (Some row), d1) \<Rightarrow>
                           (status_only 200, st\<lparr>storage := (if rf_client_id row = cl_id client
                              then snd (revoke_refresh_family now (rf_family_id row) d1) else d1)\<rparr>)
                       | (_, d1) \<Rightarrow> (status_only 200, st\<lparr>storage := d1\<rparr>))
                    else if starts_with ''msk_'' tok then
                      (status_only 200, st\<lparr>storage := snd (revoke_token_by_hash (blake3_hex env tok) d)\<rparr>)
                    else (status_only 200, st\<lparr>storage := d\<rparr>))))"

text \<open>The claims \<open>userinfo\<close> builds.\<close>

definition userinfo_claims :: "account_t \<Rightarrow> token_access \<Rightarrow> json" where
  "userinfo_claims acc access =
     (let claims = json_obj [(''sub'', JStr (a_id acc))];
          claims = (if allows access SCOPE_EMAIL
                    then json_set ''email_verified'' (JBool True) (json_set ''email'' (JStr (a_email acc)) claims)
                    else claims)
      in if allows access SCOPE_PROFILE
         then (case a_display_name acc of Some n \<Rightarrow> json_set ''name'' (JStr n) claims | None \<Rightarrow> claims)
         else claims)"

definition userinfo :: "oidc_env \<Rightarrow> int \<Rightarrow> string option \<Rightarrow> 'p api_state \<Rightarrow> response \<times> 'p api_state" where
  "userinfo env now authorization st =
     (if oidc st = None then (status_only 404, st)
      else let unauthorized = \<lparr>status = 401, headers = [(''WWW-Authenticate'', ''Bearer'')], resp_body = NoBody\<rparr> in
      (case Option.bind authorization (strip_prefix ''Bearer '') of
         None \<Rightarrow> (unauthorized, st)
       | Some tok \<Rightarrow>
           (case account_and_access_by_token (blake3_hex env) now tok (storage st) of
              (Inl _, d) \<Rightarrow> (status_only 500, st\<lparr>storage := d\<rparr>)
            | (Inr None, d) \<Rightarrow> (unauthorized, st\<lparr>storage := d\<rparr>)
            | (Inr (Some (acc, access)), d) \<Rightarrow>
                if \<not> allows access SCOPE_OPENID then
                  (\<lparr>status = 403, headers = [(''WWW-Authenticate'', ''Bearer error=\"insufficient_scope\", scope=\"openid\"'')],
                    resp_body = NoBody\<rparr>, st\<lparr>storage := d\<rparr>)
                else
                  (\<lparr>status = 200, headers = [], resp_body = JsonBody (userinfo_claims acc access)\<rparr>, st\<lparr>storage := d\<rparr>))))"

section \<open>Frame lemmas\<close>

text \<open>A read changes nothing but the failure schedule.\<close>

definition reads :: "'a op \<Rightarrow> bool" where
  "reads f \<longleftrightarrow> (\<forall>d r d'. f d = (r, d') \<longrightarrow> (\<exists>fs. d' = d\<lparr>faults := fs\<rparr>))"

lemma readsD: "reads f \<Longrightarrow> f d = (r, d') \<Longrightarrow> \<exists>fs. d' = d\<lparr>faults := fs\<rparr>"
  by (auto simp: reads_def)

lemma reads_same:
  assumes "reads f" "f d = (r, d')"
  shows "app_passwords d' = app_passwords d" "oauth_refresh_tokens d' = oauth_refresh_tokens d"
    "oauth_clients d' = oauth_clients d" "accounts d' = accounts d"
  using readsD[OF assms] by auto

lemma reads_query: "reads (db_call (\<lambda>d. (Inr (q d), d)))"
  unfolding reads_def by (auto elim!: db_call_cases)

lemma reads_faults: "d\<lparr>faults := faults d\<rparr> = d"
  by simp

lemma reads_return: "reads (op_return v)"
  unfolding reads_def op_return_def using reads_faults by (metis prod.inject)

lemma storage_reads [simp]:
  "reads (oauth_client cid)" "reads (verify_oauth_client_secret h cid s)" "reads (account acct)"
  "reads (refresh_token_by_plaintext h tok)"
  unfolding oauth_client_def verify_oauth_client_secret_def account_def refresh_token_by_plaintext_def Let_def
  by (auto intro: reads_query reads_return)

lemma rotate_refresh_passwords:
  assumes "rotate_refresh_token h now secret old ah ex d = (r, d')"
  shows "app_passwords d' = app_passwords d"
proof (cases secret)
  case None
  with assms show ?thesis by (simp add: rotate_refresh_token_def new_secret_def op_defs)
next
  case (Some hex)
  then obtain u where "db_call (transaction (rotate_tx now old (h (REFRESH_PREFIX @ hex)) ah ex)) d = (u, d')"
    using assms by (auto simp: rotate_refresh_token_def new_secret_def dest: op_bind_return_state)
  then show ?thesis
    by (rule db_call_preserves[where I = "\<lambda>x. app_passwords x = app_passwords d"])
       (auto elim!: transaction_preserves rotate_tx_ok)
qed

lemma create_refresh_passwords:
  assumes "create_refresh_token h now secret fam acct cid scopes f ah ex d = (r, d')"
  shows "app_passwords d' = app_passwords d"
proof (cases secret)
  case None
  with assms show ?thesis by (simp add: create_refresh_token_def new_secret_def op_defs)
next
  case (Some hex)
  then obtain u row where "db_call (insert_refresh row) d = (u, d')"
    using assms by (auto simp: create_refresh_token_def new_secret_def dest: op_bind_return_state)
  then show ?thesis
    by (rule db_call_preserves[where I = "\<lambda>x. app_passwords x = app_passwords d"])
       (auto elim!: insert_refresh_cases)
qed

text \<open>The row of a freshly minted access token.\<close>

definition access_row :: "string \<Rightarrow> string \<Rightarrow> string list \<Rightarrow> int \<Rightarrow> string \<Rightarrow> app_password_row \<Rightarrow> bool" where
  "access_row hash acct scopes ex cid p \<longleftrightarrow> ap_token_hash p = hash \<and> ap_account_id p = acct \<and>
     ap_expires_at p = Some ex \<and> ap_scopes p = Some (join '' '' scopes) \<and> ap_oauth_client_id p = Some cid"

lemma create_scoped_token_rows:
  assumes "create_scoped_token h now secret acct nm scopes ex cid d = (r, d')"
  shows "oauth_refresh_tokens d' = oauth_refresh_tokens d \<and>
    ((\<exists>e. r = Inl e) \<and> app_passwords d' = app_passwords d \<or>
     (\<exists>tok p. r = Inr (tok, h tok) \<and> app_passwords d' = app_passwords d @ [p] \<and> access_row (h tok) acct scopes ex cid p))"
proof (cases secret)
  case None
  with assms show ?thesis by (auto simp: create_scoped_token_def op_defs)
next
  case (Some hex)
  let ?row = "\<lparr>ap_token_hash = h (TOKEN_PREFIX @ hex), ap_account_id = acct, ap_name = nm, ap_created_at = now,
     ap_last_used_at = None, ap_expires_at = Some ex, ap_scopes = Some (join '' '' scopes), ap_oauth_client_id = Some cid\<rparr>"
  obtain u d1 where u: "db_call (insert_app_password ?row) d = (u, d1)" by (meson surj_pair)
  with assms Some have r: "d1 = d'" "r = (case u of Inl e \<Rightarrow> Inl e | Inr _ \<Rightarrow> Inr (TOKEN_PREFIX @ hex, h (TOKEN_PREFIX @ hex)))"
    by (auto simp: create_scoped_token_def op_defs Let_def split: sum.splits)
  from u show ?thesis
  proof (cases rule: db_call_cases)
    case (fault fs)
    with r show ?thesis by auto
  next
    case (run fs)
    with r show ?thesis
      by (auto simp: insert_app_password_def sql_insert_def access_row_def split: if_splits)
  qed
qed

lemma revoke_by_hash_frame:
  assumes "revoke_token_by_hash h d = (r, d')"
  shows "set (app_passwords d') \<subseteq> set (app_passwords d)" "oauth_refresh_tokens d' = oauth_refresh_tokens d"
proof -
  have "set (app_passwords d') \<subseteq> set (app_passwords d) \<and> oauth_refresh_tokens d' = oauth_refresh_tokens d"
    using assms unfolding revoke_token_by_hash_def
    by (cases rule: db_call_cases) (auto simp: tbl_simps)
  then show "set (app_passwords d') \<subseteq> set (app_passwords d)" "oauth_refresh_tokens d' = oauth_refresh_tokens d" by blast+
qed

section \<open>What a token request does to the store\<close>

lemma authenticate_client_reads:
  assumes "authenticate_client env au fid fsec d = (r, d')"
  shows "\<exists>fs. d' = d\<lparr>faults := fs\<rparr>"
proof -
  have "d' = d \<or> (\<exists>c x. oauth_client c d = (x, d')) \<or>
      (\<exists>c x d1 h s y. oauth_client c d = (x, d1) \<and> verify_oauth_client_secret h c s d1 = (y, d'))"
    using assms unfolding authenticate_client_def
    by (fastforce split: option.splits prod.splits sum.splits if_splits)
  then show ?thesis
  proof (elim disjE exE conjE)
    assume "d' = d"
    then show ?thesis using reads_faults by metis
  next
    fix c x assume "oauth_client c d = (x, d')"
    then show ?thesis by (rule readsD[OF storage_reads(1)])
  next
    fix c x d1 h s y assume "oauth_client c d = (x, d1)" "verify_oauth_client_secret h c s d1 = (y, d')"
    from readsD[OF storage_reads(1) this(1)] readsD[OF storage_reads(2) this(2)] show ?thesis by auto
  qed
qed

text \<open>The credentials of a request, from its Basic header or else from the form, and what they prove: the request names
  the client, which is enabled, and unless the client is public carries a secret whose hash is stored for it.\<close>

definition presented_credentials :: "oidc_env \<Rightarrow> string option \<Rightarrow> string option \<Rightarrow> string option \<Rightarrow> (string \<times> string option) option" where
  "presented_credentials env authorization form_id form_secret =
     (case parse_basic_auth env authorization of Some (i, secret) \<Rightarrow> Some (i, Some secret) | None \<Rightarrow> map_option (\<lambda>i. (i, form_secret)) form_id)"

definition client_proved :: "oidc_env \<Rightarrow> string option \<Rightarrow> string option \<Rightarrow> string option \<Rightarrow> db \<Rightarrow> oauth_client_row \<Rightarrow> bool" where
  "client_proved env au fid fsec d c \<longleftrightarrow> c \<in> set (oauth_clients d) \<and> \<not> oc_disabled c \<and>
     (\<exists>raw secret. presented_credentials env au fid fsec = Some (raw, secret) \<and> parse_uuid env raw = Some (oc_id c) \<and>
       (oc_secret_hash c = None \<or>
        (\<exists>c' sec. secret = Some sec \<and> c' \<in> set (oauth_clients d) \<and> oc_id c' = oc_id c \<and> \<not> oc_disabled c' \<and>
           oc_secret_hash c' = Some (blake3_hex env sec))))"

lemma authenticate_client_proved:
  assumes "authenticate_client env au fid fsec d = (Inr client, d')"
  obtains c where "client = row_to_client c" "client_proved env au fid fsec d c"
proof -
  have "\<exists>raw secret cid d1. presented_credentials env au fid fsec = Some (raw, secret) \<and> parse_uuid env raw = Some cid \<and>
      oauth_client cid d = (Inr (Some client), d1) \<and> \<not> cl_disabled client \<and>
      (cl_public client \<or> (\<exists>sec d2. secret = Some sec \<and> verify_oauth_client_secret (blake3_hex env) cid sec d1 = (Inr True, d2)))"
    using assms unfolding authenticate_client_def presented_credentials_def[symmetric]
    by (fastforce split: option.splits prod.splits sum.splits if_splits)
  then obtain raw secret cid d1 where raw: "presented_credentials env au fid fsec = Some (raw, secret)" "parse_uuid env raw = Some cid"
    and c: "oauth_client cid d = (Inr (Some client), d1)" "\<not> cl_disabled client"
    and v: "cl_public client \<or> (\<exists>sec d2. secret = Some sec \<and> verify_oauth_client_secret (blake3_hex env) cid sec d1 = (Inr True, d2))"
    by blast
  obtain row where row: "row \<in> set (oauth_clients d)" "oc_id row = cid" "client = row_to_client row"
    using c(1) unfolding oauth_client_def by (auto dest!: db_call_okD sql_select_Some)
  have same: "oauth_clients d1 = oauth_clients d" using reads_same(3)[OF storage_reads(1) c(1)] .
  have "\<exists>c' \<in> set (oauth_clients d). oc_id c' = cid \<and> \<not> oc_disabled c' \<and> oc_secret_hash c' = Some (blake3_hex env sec)"
    if "verify_oauth_client_secret (blake3_hex env) cid sec d1 = (Inr True, d2)" for sec d2
    using that same unfolding verify_oauth_client_secret_def Let_def
    by (fastforce dest!: db_call_okD sql_select_Some split: option.splits)
  moreover have "cl_public client = (oc_secret_hash row = None)" "cl_disabled client = oc_disabled row"
    by (simp_all add: row(3) row_to_client_def)
  ultimately have "client_proved env au fid fsec d row" using v row c(2) raw unfolding client_proved_def by metis
  with row(3) show thesis by (rule that)
qed

lemma finish_tokens_cases:
  assumes "finish_tokens env now rnd p acc aid cid scopes nonce rot ah b d = (r, d')"
  obtains "d' = d"
  | old res e where "rot = Some old" "SCOPE_OFFLINE \<in> set scopes"
      "rotate_refresh_token (blake3_hex env) now (refresh_secret rnd) old (Some ah) e d = (res, d')"
  | res e where "SCOPE_OFFLINE \<in> set scopes"
      "create_refresh_token (blake3_hex env) now (refresh_secret rnd) (family_id rnd) aid cid scopes None (Some ah) e d = (res, d')"
  | h u where "SCOPE_OFFLINE \<notin> set scopes" "revoke_token_by_hash h d = (u, d')"
proof (cases "SCOPE_OFFLINE \<in> set scopes")
  case True
  show thesis
  proof (cases rot)
    case None
    then show thesis using assms True that(1,3)
      by (auto simp: finish_tokens_def Let_def split: option.splits prod.splits sum.splits)
  next
    case (Some old)
    then show thesis using assms True that(1,2)
      by (auto simp: finish_tokens_def Let_def split: option.splits prod.splits sum.splits)
  qed
next
  case False
  have rv: "snd (revoke_token_by_hash h d) = d' \<Longrightarrow> thesis" for h
    using that(4)[OF False] by (metis prod.collapse)
  from False show thesis using assms that(1) rv
    by (auto simp: finish_tokens_def Let_def split: option.splits)
qed

lemma finish_tokens_frame:
  assumes "finish_tokens env now rnd p acc aid cid scopes nonce rot ah b d = (r, d')"
  shows "set (app_passwords d') \<subseteq> set (app_passwords d)"
    and "SCOPE_OFFLINE \<notin> set scopes \<Longrightarrow> oauth_refresh_tokens d' = oauth_refresh_tokens d"
    and "family_id rnd \<notin> rt_family_id ` set (oauth_refresh_tokens d) \<Longrightarrow> oauth_step (blake3_hex env) d d'"
proof -
  show "set (app_passwords d') \<subseteq> set (app_passwords d)"
    using assms by (rule finish_tokens_cases)
      (auto dest: rotate_refresh_passwords create_refresh_passwords revoke_by_hash_frame(1))
  show "oauth_refresh_tokens d' = oauth_refresh_tokens d" if "SCOPE_OFFLINE \<notin> set scopes"
    using assms by (rule finish_tokens_cases) (use that in \<open>auto dest: revoke_by_hash_frame(2)\<close>)
  show "oauth_step (blake3_hex env) d d'" if "family_id rnd \<notin> rt_family_id ` set (oauth_refresh_tokens d)"
    using assms by (rule finish_tokens_cases)
      (use that revoke_by_hash_frame(2) os_rotate os_create os_other in metis)+
qed

lemma issue_tokens_cases:
  assumes "issue_tokens env now rnd p aid cid scopes nonce rot d = (r, d')"
  obtains x where "account aid d = (x, d')" "status r \<noteq> 200"
  | x d1 y where "account aid d = (x, d1)" "status r \<noteq> 200"
      "create_scoped_token (blake3_hex env) now (access_secret rnd) aid ''oidc access'' scopes
         (now + as_i64 (access_token_ttl_secs (config p))) cid d1 = (Inl y, d')"
  | acc d1 tok h d2 where "account aid d = (Inr (Some acc), d1)"
      "create_scoped_token (blake3_hex env) now (access_secret rnd) aid ''oidc access'' scopes
         (now + as_i64 (access_token_ttl_secs (config p))) cid d1 = (Inr (tok, h), d2)"
      "finish_tokens env now rnd p acc aid cid scopes nonce rot h
         (json_obj [(''access_token'', JStr tok), (''token_type'', JStr ''Bearer''),
            (''expires_in'', JNum (as_i64 (access_token_ttl_secs (config p)))), (''scope'', JStr (join '' '' scopes))]) d2 = (r, d')"
  using assms unfolding issue_tokens_def Let_def
  by (auto simp: status_only_def oauth_error_def split: prod.splits sum.splits option.splits)

lemma issue_tokens_new:
  assumes "issue_tokens env now rnd p aid cid scopes nonce rot d = (r, d')"
    and "q \<in> set (app_passwords d') - set (app_passwords d)"
  shows "\<exists>h. access_row h aid scopes (now + as_i64 (access_token_ttl_secs (config p))) cid q"
  using assms(1)
proof (rule issue_tokens_cases)
  fix x assume "account aid d = (x, d')"
  with assms(2) show ?thesis by (simp add: reads_same(1)[OF storage_reads(3)])
next
  fix x d1 y assume "account aid d = (x, d1)" "create_scoped_token (blake3_hex env) now (access_secret rnd) aid
    ''oidc access'' scopes (now + as_i64 (access_token_ttl_secs (config p))) cid d1 = (Inl y, d')"
  with assms(2) show ?thesis by (auto simp: reads_same(1)[OF storage_reads(3)] dest!: create_scoped_token_rows)
next
  fix acc d1 tok h d2 assume a: "account aid d = (Inr (Some acc), d1)"
    and c: "create_scoped_token (blake3_hex env) now (access_secret rnd) aid ''oidc access'' scopes
         (now + as_i64 (access_token_ttl_secs (config p))) cid d1 = (Inr (tok, h), d2)"
    and f: "finish_tokens env now rnd p acc aid cid scopes nonce rot h
         (json_obj [(''access_token'', JStr tok), (''token_type'', JStr ''Bearer''),
            (''expires_in'', JNum (as_i64 (access_token_ttl_secs (config p)))), (''scope'', JStr (join '' '' scopes))]) d2 = (r, d')"
  have "q \<in> set (app_passwords d2)" using finish_tokens_frame(1)[OF f] assms(2) by blast
  with create_scoped_token_rows[OF c] reads_same(1)[OF storage_reads(3) a] assms(2) show ?thesis by auto
qed

lemma issue_tokens_steps:
  assumes "issue_tokens env now rnd p aid cid scopes nonce rot d = (r, d')"
    and fresh: "family_id rnd \<notin> rt_family_id ` set (oauth_refresh_tokens d)"
  shows "(oauth_step (blake3_hex env))\<^sup>*\<^sup>* d d'"
  using assms(1)
proof (rule issue_tokens_cases)
  fix x assume "account aid d = (x, d')"
  then show ?thesis by (intro r_into_rtranclp os_other) (rule reads_same(2)[OF storage_reads(3)])
next
  fix x d1 y assume a: "account aid d = (x, d1)" and c: "create_scoped_token (blake3_hex env) now (access_secret rnd) aid
    ''oidc access'' scopes (now + as_i64 (access_token_ttl_secs (config p))) cid d1 = (Inl y, d')"
  have "oauth_refresh_tokens d' = oauth_refresh_tokens d"
    using conjunct1[OF create_scoped_token_rows[OF c]] reads_same(2)[OF storage_reads(3) a] by simp
  then show ?thesis by (intro r_into_rtranclp os_other)
next
  fix acc d1 tok h d2 b assume a: "account aid d = (Inr (Some acc), d1)"
    and c: "create_scoped_token (blake3_hex env) now (access_secret rnd) aid ''oidc access'' scopes
         (now + as_i64 (access_token_ttl_secs (config p))) cid d1 = (Inr (tok, h), d2)"
    and f: "finish_tokens env now rnd p acc aid cid scopes nonce rot h
         (json_obj [(''access_token'', JStr tok), (''token_type'', JStr ''Bearer''),
            (''expires_in'', JNum (as_i64 (access_token_ttl_secs (config p)))), (''scope'', JStr (join '' '' scopes))]) d2 = (r, d')"
  have same: "oauth_refresh_tokens d2 = oauth_refresh_tokens d"
    using conjunct1[OF create_scoped_token_rows[OF c]] reads_same(2)[OF storage_reads(3) a] by simp
  then have "oauth_step (blake3_hex env) d d2" by (rule os_other)
  moreover have "oauth_step (blake3_hex env) d2 d'"
    by (rule finish_tokens_frame(3)[OF f]) (use fresh same in simp)
  ultimately show ?thesis by (meson converse_rtranclp_into_rtranclp r_into_rtranclp)
qed

subsection \<open>The two grants\<close>

lemma refresh_lookup:
  assumes "refresh_token_by_plaintext h tok d = (Inr (Some row), d1)"
  shows "\<exists>r \<in> set (oauth_refresh_tokens d). rt_token_hash r = h tok \<and> row = row_to_refresh r"
  using assms unfolding refresh_token_by_plaintext_def
  by (auto simp: op_defs dest!: db_call_okD sql_select_Some split: if_splits)

text \<open>A row of the access token a refresh may mint.\<close>

definition refreshed :: "oidc_env \<Rightarrow> int \<Rightarrow> token_form \<Rightarrow> string \<Rightarrow> db \<Rightarrow> app_password_row \<Rightarrow> bool" where
  "refreshed env now form cid d q \<longleftrightarrow> (\<exists>tok. tf_refresh_token form = Some tok \<and>
     (\<exists>r \<in> set (oauth_refresh_tokens d). rt_token_hash r = blake3_hex env tok \<and> rt_client_id r = cid \<and> live now r \<and>
        ap_account_id q = rt_account_id r \<and>
        (\<exists>scopes. ap_scopes q = Some (join '' '' scopes) \<and> set scopes \<subseteq> set (split_whitespace (rt_scopes r)))))"

text \<open>A row of the access token a code may mint.\<close>

definition redeemed :: "oidc_env \<Rightarrow> int \<Rightarrow> token_form \<Rightarrow> string \<Rightarrow> 'p payload challenge_store \<Rightarrow> app_password_row \<Rightarrow> bool" where
  "redeemed env now form cid ch q \<longleftrightarrow> (\<exists>code. tf_code form = Some code \<and>
     (\<exists>e g. ch code = Some e \<and> now \<le> ce_expires_at e \<and> ce_data e = PCode g \<and> cg_client_id g = cid \<and>
        tf_redirect_uri form = Some (cg_redirect_uri g) \<and>
        (\<exists>v. code_verifier form = Some v \<and> s256 env v = cg_code_challenge g) \<and>
        parse_uuid env (cg_account_id g) = Some (ap_account_id q) \<and> ap_scopes q = Some (join '' '' (cg_scopes g))))"

lemma refused_status [simp]: "status (oauth_error c) \<noteq> 200" "status (status_only 500) \<noteq> 200"
  by (simp_all add: oauth_error_def status_only_def)

text \<open>How a refresh request ends: refused with no effect, or carried out for a row of the client.\<close>

lemma refresh_grant_cases:
  assumes "refresh_grant env now rnd p client form d = (resp, d')"
  obtains "status resp \<noteq> 200" "\<exists>fs. d' = d\<lparr>faults := fs\<rparr>"
  | tok row d1 where "tf_refresh_token form = Some tok" "rf_client_id row = cl_id client"
      "refresh_token_by_plaintext (blake3_hex env) tok d = (Inr (Some row), d1)"
      "refresh_with_row env now rnd p client form row d1 = (resp, d')"
proof (cases "tf_refresh_token form")
  case None
  with assms have "d' = d" "status resp \<noteq> 200" by (auto simp: refresh_grant_def)
  then show thesis using that(1) reads_faults by metis
next
  case (Some tok)
  obtain x d1 where x: "refresh_token_by_plaintext (blake3_hex env) tok d = (x, d1)" by (meson surj_pair)
  have d1: "\<exists>fs. d1 = d\<lparr>faults := fs\<rparr>" by (rule readsD[OF storage_reads(4) x])
  show thesis
  proof (cases "\<exists>row. x = Inr (Some row) \<and> rf_client_id row = cl_id client")
    case False
    with assms Some x have "d' = d1 \<and> status resp \<noteq> 200"
      by (auto simp: refresh_grant_def split: sum.splits option.splits if_splits)
    with d1 that(1) show thesis by blast
  next
    case True
    then obtain row where row: "x = Inr (Some row)" "rf_client_id row = cl_id client" by blast
    with assms Some x have "refresh_with_row env now rnd p client form row d1 = (resp, d')"
      by (simp add: refresh_grant_def)
    with Some x row that(2) show thesis by simp
  qed
qed

lemma refresh_with_row_cases:
  assumes "refresh_with_row env now rnd p client form row d = (resp, d')"
  obtains "status resp \<noteq> 200" "d' = d"
  | "rf_used_at row \<noteq> None" "resp = oauth_error ''invalid_grant''" "d' = snd (revoke_refresh_family now (rf_family_id row) d)"
  | scopes where "rf_used_at row = None" "rf_revoked_at row = None" "\<not> rf_expires_at row \<le> now"
      "narrow_scopes form row = Some scopes"
      "issue_tokens env now rnd p (rf_account_id row) (cl_id client) scopes None (Some (rf_token_hash row)) d = (resp, d')"
proof (cases "rf_used_at row = None")
  case False
  with assms that(2) show thesis by (simp add: refresh_with_row_def)
next
  case True
  with assms that(1,3) show thesis
    by (auto simp: refresh_with_row_def split: option.splits if_splits)
qed

lemma narrow_scopes_subset: "narrow_scopes form row = Some scopes \<Longrightarrow> set scopes \<subseteq> set (rf_scopes row)"
  by (auto simp: narrow_scopes_def Let_def split: option.splits if_splits)

lemma revoke_family_passwords:
  assumes "d' = snd (revoke_refresh_family now fam d)"
  shows "set (app_passwords d') \<subseteq> set (app_passwords d)"
proof -
  obtain r where "revoke_refresh_family now fam d = (r, d')" using assms by (metis prod.collapse)
  then show ?thesis unfolding revoke_refresh_family_def
    by (cases rule: db_call_cases) (auto simp: transaction_def tbl_simps)
qed

lemma refresh_grant_new:
  assumes "refresh_grant env now rnd p client form d = (resp, d')"
    and q: "q \<in> set (app_passwords d') - set (app_passwords d)"
  shows "refreshed env now form (cl_id client) d q \<and> ap_oauth_client_id q = Some (cl_id client)"
  using assms(1)
proof (rule refresh_grant_cases)
  assume "\<exists>fs. d' = d\<lparr>faults := fs\<rparr>"
  with q show ?thesis by auto
next
  fix tok row d1 assume tok: "tf_refresh_token form = Some tok" "rf_client_id row = cl_id client"
    and look: "refresh_token_by_plaintext (blake3_hex env) tok d = (Inr (Some row), d1)"
    and run: "refresh_with_row env now rnd p client form row d1 = (resp, d')"
  have same: "app_passwords d1 = app_passwords d" by (rule reads_same(1)[OF storage_reads(4) look])
  obtain r where r: "r \<in> set (oauth_refresh_tokens d)" "rt_token_hash r = blake3_hex env tok" "row = row_to_refresh r"
    using refresh_lookup[OF look] by blast
  from run show ?thesis
  proof (rule refresh_with_row_cases)
    assume "d' = d1"
    with q same show ?thesis by simp
  next
    assume "d' = snd (revoke_refresh_family now (rf_family_id row) d1)"
    from revoke_family_passwords[OF this] q same show ?thesis by auto
  next
    fix scopes assume s: "rf_used_at row = None" "rf_revoked_at row = None" "\<not> rf_expires_at row \<le> now"
      "narrow_scopes form row = Some scopes"
      "issue_tokens env now rnd p (rf_account_id row) (cl_id client) scopes None (Some (rf_token_hash row)) d1 = (resp, d')"
    have "live now r" using s(1-3) by (simp add: r(3) row_to_refresh_def live_def)
    moreover have "set scopes \<subseteq> set (split_whitespace (rt_scopes r))"
      using narrow_scopes_subset[OF s(4)] by (simp add: r(3) row_to_refresh_def)
    moreover have "ap_account_id q = rt_account_id r" "ap_scopes q = Some (join '' '' scopes)"
        "ap_oauth_client_id q = Some (cl_id client)"
      using issue_tokens_new[OF s(5)] q same by (auto simp: access_row_def r(3) row_to_refresh_def)
    moreover have "rt_client_id r = cl_id client" using tok(2) by (simp add: r(3) row_to_refresh_def)
    ultimately show ?thesis unfolding refreshed_def using tok(1) r(1,2) by blast
  qed
qed

lemma code_grant_new:
  assumes "code_grant env now rnd p client form st = (resp, st')" "oidc st = Some p"
    and q: "q \<in> set (app_passwords (storage st')) - set (app_passwords (storage st))"
  shows "redeemed env now form (cl_id client) (challenges p) q \<and> ap_oauth_client_id q = Some (cl_id client)"
proof -
  obtain code v ch g aid d where c: "tf_code form = Some code" "code_verifier form = Some v"
      "take_code now code (challenges p) = (Some g, ch)" "cg_client_id g = cl_id client"
      "tf_redirect_uri form = Some (cg_redirect_uri g)" "s256 env v = cg_code_challenge g"
      "parse_uuid env (cg_account_id g) = Some aid"
      "issue_tokens env now rnd p aid (cl_id client) (cg_scopes g) (cg_nonce g) None (storage st) = (resp, d)"
      "storage st' = d"
    using assms(1) q unfolding code_grant_def Let_def
    by (auto simp: verify_pkce_s256_def split: option.splits prod.splits if_splits)
  have "ap_account_id q = aid" "ap_scopes q = Some (join '' '' (cg_scopes g))" "ap_oauth_client_id q = Some (cl_id client)"
    using issue_tokens_new[OF c(8)] q c(9) by (auto simp: access_row_def)
  with c take_code_Some[OF c(3)] show ?thesis unfolding redeemed_def by blast
qed

end
