(* ===== verification/Passwordless.thy ===== *)
theory Passwordless
  imports Accounts
begin

text \<open>
  \<open>crates/owney-storage/src/passwordless.rs\<close>: passkeys, recovery codes, paired devices and approval
  requests. Times are whole seconds, as the columns store them. The statements of
  \<open>save_recovery_codes\<close> run one by one, outside a transaction.
\<close>

section \<open>Definitions\<close>

subsection \<open>Passkeys\<close>

definition save_passkey_credential :: "passkey_row \<Rightarrow> unit op" where
  "save_passkey_credential cred = db_call (\<lambda>d.
     if \<not> has_account d (pk_account_id cred) then (Inl (StCorrupt ''FOREIGN KEY constraint failed''), d)
     else (case sql_insert pk_id cred (passkey_credentials d) of
             None \<Rightarrow> (Inl (StCorrupt ''UNIQUE constraint failed''), d)
           | Some rows \<Rightarrow> (Inr (), d\<lparr>passkey_credentials := rows\<rparr>)))"

definition get_passkey_credential :: "string \<Rightarrow> passkey_row option op" where
  "get_passkey_credential cid = db_call (\<lambda>d. (Inr (sql_select (\<lambda>r. pk_id r = cid) (passkey_credentials d)), d))"

definition list_passkeys_for_account :: "string \<Rightarrow> passkey_row list op" where
  "list_passkeys_for_account acct = db_call (\<lambda>d. (Inr (order_desc pk_created_at
     (filter (\<lambda>r. pk_account_id r = acct \<and> \<not> pk_disabled r) (passkey_credentials d))), d))"

definition update_passkey_counter :: "int \<Rightarrow> string \<Rightarrow> nat \<Rightarrow> unit op" where
  "update_passkey_counter now cid new_counter = db_call (\<lambda>d. (Inr (),
     d\<lparr>passkey_credentials := sql_update (\<lambda>r. pk_id r = cid)
         (\<lambda>r. r\<lparr>pk_counter := new_counter, pk_last_used_at := Some now\<rparr>) (passkey_credentials d)\<rparr>))"

definition disable_passkey :: "string \<Rightarrow> unit op" where
  "disable_passkey cid = db_call (\<lambda>d. (Inr (),
     d\<lparr>passkey_credentials := sql_update (\<lambda>r. pk_id r = cid) (\<lambda>r. r\<lparr>pk_disabled := True\<rparr>) (passkey_credentials d)\<rparr>))"

subsection \<open>Recovery codes\<close>

fun insert_recovery_codes :: "string \<Rightarrow> recovery_code_row list \<Rightarrow> unit op" where
  "insert_recovery_codes acct [] d = (Inr (), d)"
| "insert_recovery_codes acct (code # codes) d =
     (if \<not> has_account d acct then (Inl (StDatabase ''FOREIGN KEY constraint failed''), d)
      else (case sql_insert rc_id (code\<lparr>rc_account_id := acct, rc_used_at := None\<rparr>) (recovery_codes d) of
              None \<Rightarrow> (Inl (StDatabase ''UNIQUE constraint failed''), d)
            | Some rows \<Rightarrow> insert_recovery_codes acct codes (d\<lparr>recovery_codes := rows\<rparr>)))"

definition save_recovery_codes :: "string \<Rightarrow> recovery_code_row list \<Rightarrow> unit op" where
  "save_recovery_codes acct codes = db_call (insert_recovery_codes acct codes)"

definition get_recovery_codes :: "string \<Rightarrow> recovery_code_row list op" where
  "get_recovery_codes acct = db_call (\<lambda>d. (Inr (order_desc rc_created_at
     (filter (\<lambda>r. rc_account_id r = acct) (recovery_codes d))), d))"

definition get_recovery_code_by_hash :: "string \<Rightarrow> recovery_code_row option op" where
  "get_recovery_code_by_hash h = db_call (\<lambda>d.
     (Inr (sql_select (\<lambda>r. rc_code_hash r = h \<and> \<not> rc_used r) (recovery_codes d)), d))"

definition mark_recovery_code_used :: "int \<Rightarrow> string \<Rightarrow> unit op" where
  "mark_recovery_code_used now cid = db_call (\<lambda>d. (Inr (),
     d\<lparr>recovery_codes := sql_update (\<lambda>r. rc_id r = cid)
         (\<lambda>r. r\<lparr>rc_used := True, rc_used_at := Some now\<rparr>) (recovery_codes d)\<rparr>))"

subsection \<open>Paired devices\<close>

definition save_device_pairing :: "device_pairing_row \<Rightarrow> unit op" where
  "save_device_pairing device = db_call (\<lambda>d.
     if \<not> has_account d (dp_account_id device) then (Inl (StDatabase ''FOREIGN KEY constraint failed''), d)
     else (case sql_insert dp_id device (device_pairings d) of
             None \<Rightarrow> (Inl (StDatabase ''UNIQUE constraint failed''), d)
           | Some rows \<Rightarrow> (Inr (), d\<lparr>device_pairings := rows\<rparr>)))"

definition get_device_pairing :: "string \<Rightarrow> device_pairing_row option op" where
  "get_device_pairing did = db_call (\<lambda>d. (Inr (sql_select (\<lambda>r. dp_id r = did) (device_pairings d)), d))"

definition list_devices_for_account :: "string \<Rightarrow> device_pairing_row list op" where
  "list_devices_for_account acct = db_call (\<lambda>d. (Inr (order_desc dp_paired_at
     (filter (\<lambda>r. dp_account_id r = acct \<and> \<not> dp_disabled r) (device_pairings d))), d))"

definition update_device_last_used :: "int \<Rightarrow> string \<Rightarrow> unit op" where
  "update_device_last_used now did = db_call (\<lambda>d. (Inr (),
     d\<lparr>device_pairings := sql_update (\<lambda>r. dp_id r = did) (\<lambda>r. r\<lparr>dp_last_used_at := Some now\<rparr>) (device_pairings d)\<rparr>))"

definition disable_device :: "string \<Rightarrow> unit op" where
  "disable_device did = db_call (\<lambda>d. (Inr (),
     d\<lparr>device_pairings := sql_update (\<lambda>r. dp_id r = did) (\<lambda>r. r\<lparr>dp_disabled := True\<rparr>) (device_pairings d)\<rparr>))"

subsection \<open>Approval requests\<close>

definition known_device :: "db \<Rightarrow> string option \<Rightarrow> bool" where
  "known_device d dev \<longleftrightarrow> (case dev of None \<Rightarrow> True | Some i \<Rightarrow> i \<in> dp_id ` set (device_pairings d))"

definition save_approval_request :: "approval_request_row \<Rightarrow> unit op" where
  "save_approval_request req = db_call (\<lambda>d.
     if \<not> has_account d (aq_account_id req) \<or> \<not> known_device d (aq_approved_by_device req)
     then (Inl (StDatabase ''FOREIGN KEY constraint failed''), d)
     else (case sql_insert aq_id req (approval_requests d) of
             None \<Rightarrow> (Inl (StDatabase ''UNIQUE constraint failed''), d)
           | Some rows \<Rightarrow> (Inr (), d\<lparr>approval_requests := rows\<rparr>)))"

definition get_approval_request :: "string \<Rightarrow> approval_request_row option op" where
  "get_approval_request rid = db_call (\<lambda>d. (Inr (sql_select (\<lambda>r. aq_id r = rid) (approval_requests d)), d))"

definition get_pending_approval_requests :: "int \<Rightarrow> string \<Rightarrow> approval_request_row list op" where
  "get_pending_approval_requests now acct = db_call (\<lambda>d. (Inr (order_desc aq_created_at
     (filter (\<lambda>r. aq_account_id r = acct \<and> aq_status r = ''pending'' \<and> aq_expires_at r > now) (approval_requests d))), d))"

text \<open>An update that matches no row checks no foreign key.\<close>

definition update_approval_request_status :: "int \<Rightarrow> string \<Rightarrow> string \<Rightarrow> string option \<Rightarrow> unit op" where
  "update_approval_request_status now rid st device = db_call (\<lambda>d.
     if \<not> known_device d device \<and> rid \<in> aq_id ` set (approval_requests d)
     then (Inl (StDatabase ''FOREIGN KEY constraint failed''), d)
     else (Inr (), d\<lparr>approval_requests := sql_update (\<lambda>r. aq_id r = rid)
         (\<lambda>r. r\<lparr>aq_status := st, aq_approved_by_device := device, aq_approved_at := Some now\<rparr>) (approval_requests d)\<rparr>))"

section \<open>Lemmas\<close>

text \<open>Only passkeys of the account that are enabled are offered for a login.\<close>

lemma list_passkeys_enabled:
  assumes "list_passkeys_for_account acct d = (Inr ks, d')"
  shows "set ks = {r \<in> set (passkey_credentials d). pk_account_id r = acct \<and> \<not> pk_disabled r}"
  using assms unfolding list_passkeys_for_account_def by (auto dest!: db_call_okD)

text \<open>A recovery code that was marked is not found again.\<close>

lemma marked_recovery_code_spent:
  assumes "mark_recovery_code_used now cid d = (Inr (), d')"
  shows "\<forall>r \<in> set (recovery_codes d'). rc_id r = cid \<longrightarrow> rc_used r"
proof -
  have d': "recovery_codes d' = sql_update (\<lambda>r. rc_id r = cid) (\<lambda>r. r\<lparr>rc_used := True, rc_used_at := Some now\<rparr>) (recovery_codes d)"
    using assms unfolding mark_recovery_code_used_def by (auto dest!: db_call_okD)
  show ?thesis unfolding d' by (intro ballI impI) (erule sql_updateE, simp_all)
qed

end
