(* ===== verification/Oidc_Authorize.thy ===== *)
theory Oidc_Authorize
  imports Oidc_Token Passwordless
begin

text \<open>
  \<open>crates/owney-api/src/oidc/authorize.rs\<close>, \<open>consent.rs\<close> and \<open>enroll.rs\<close>, with the passkey manager of
  \<open>crates/owney-authn-v2/src/passkey.rs\<close> and \<open>authenticate\<close> of \<open>crates/owney-api/src/lib.rs\<close>: the
  authorization endpoint, the login ceremony, the consent screen and passkey enrollment.

  The WebAuthn library is the record \<open>webauthn\<close>. Its values are opaque: a stored passkey is its
  serialized text and a ceremony state is of type \<open>'p\<close>. The two HTML templates are arguments. The
  generated ids and the random part of a code are arguments; one request reads the clock once.
\<close>

section \<open>Definitions\<close>

record auth_result =
  res_cred_id :: string
  res_counter :: nat

record 'p webauthn =
  wa_start_registration :: "string \<Rightarrow> string \<Rightarrow> string \<Rightarrow> string list option \<Rightarrow> (json \<times> 'p) option"
  wa_finish_registration :: "json \<Rightarrow> 'p \<Rightarrow> string option"
  wa_start_authentication :: "string list \<Rightarrow> (json \<times> 'p) option"
  wa_finish_authentication :: "json \<Rightarrow> 'p \<Rightarrow> auth_result option"
  wa_raw_id :: "json \<Rightarrow> string option"
  wa_register_ok :: "json \<Rightarrow> bool"
  wa_passkey_ok :: "string \<Rightarrow> bool"
  wa_cred_id :: "string \<Rightarrow> string"

subsection \<open>The passkey manager\<close>

record passkey_credential =
  cr_id :: string
  cr_account_id :: string
  cr_device_name :: string
  cr_passkey :: string
  cr_counter :: nat
  cr_disabled :: bool

definition convert_cred :: "'p webauthn \<Rightarrow> passkey_row \<Rightarrow> passkey_credential option" where
  "convert_cred w stored =
     (if wa_passkey_ok w (pk_public_key stored)
      then Some \<lparr>cr_id = pk_id stored, cr_account_id = pk_account_id stored, cr_device_name = pk_device_name stored,
                 cr_passkey = pk_public_key stored, cr_counter = pk_counter stored, cr_disabled = pk_disabled stored\<rparr>
      else None)"

fun convert_all :: "'p webauthn \<Rightarrow> passkey_row list \<Rightarrow> passkey_credential list option" where
  "convert_all w [] = Some []"
| "convert_all w (r # rs) =
     (case convert_cred w r of None \<Rightarrow> None
      | Some c \<Rightarrow> map_option ((#) c) (convert_all w rs))"

definition start_authentication :: "'p webauthn \<Rightarrow> passkey_credential list \<Rightarrow> (json \<times> 'p) option" where
  "start_authentication w credentials =
     (let passkeys = map cr_passkey (filter (\<lambda>c. \<not> cr_disabled c) credentials)
      in if passkeys = [] then None else wa_start_authentication w passkeys)"

text \<open>The counter to persist, when the assertion is accepted for this credential.\<close>

definition finish_authentication :: "'p webauthn \<Rightarrow> json \<Rightarrow> 'p \<Rightarrow> passkey_credential \<Rightarrow> nat option" where
  "finish_authentication w response st credential =
     (if cr_disabled credential then None
      else (case wa_finish_authentication w response st of
              None \<Rightarrow> None
            | Some result \<Rightarrow>
                if res_cred_id result \<noteq> wa_cred_id w (cr_passkey credential) then None
                else Some (res_counter result)))"

definition finish_registration :: "'p webauthn \<Rightarrow> string \<Rightarrow> string \<Rightarrow> json \<Rightarrow> 'p \<Rightarrow> passkey_credential option" where
  "finish_registration w account_id device_name response st =
     (case wa_finish_registration w response st of
        None \<Rightarrow> None
      | Some passkey \<Rightarrow> Some \<lparr>cr_id = wa_cred_id w passkey, cr_account_id = account_id, cr_device_name = device_name,
                              cr_passkey = passkey, cr_counter = 0, cr_disabled = False\<rparr>)"

subsection \<open>Pages\<close>

definition replace_char :: "char \<Rightarrow> string \<Rightarrow> string \<Rightarrow> string" where
  "replace_char c rep s = concat (map (\<lambda>x. if x = c then rep else [x]) s)"

definition html_escape :: "string \<Rightarrow> string" where
  "html_escape s = replace_char (CHR 0x22) ''&quot;'' (replace_char (CHR ''>'') ''&gt;''
     (replace_char (CHR ''<'') ''&lt;'' (replace_char (CHR ''&'') ''&amp;'' s)))"

lemma strip_prefix_shorter: "strip_prefix p (c # s) = Some t \<Longrightarrow> p \<noteq> [] \<Longrightarrow> length t < Suc (length s)"
proof -
  assume "strip_prefix p (c # s) = Some t" "p \<noteq> []"
  then have "length (c # s) = length p + length t" by (metis length_append strip_prefix_Some)
  with \<open>p \<noteq> []\<close> show ?thesis by (cases p) auto
qed

text \<open>\<open>str::replace\<close> with a non-empty pattern.\<close>

function str_replace :: "string \<Rightarrow> string \<Rightarrow> string \<Rightarrow> string" where
  "str_replace pat rep [] = []"
| "str_replace pat rep (c # s) =
     (case strip_prefix pat (c # s) of
        Some t \<Rightarrow> if pat = [] then c # str_replace pat rep s else rep @ str_replace pat rep t
      | None \<Rightarrow> c # str_replace pat rep s)"
  by pat_completeness auto
termination
  by (relation "measure (\<lambda>(p, r, s). length s)") (auto dest: strip_prefix_shorter)

definition error_page :: "nat \<Rightarrow> string \<Rightarrow> response" where
  "error_page st message =
     \<lparr>status = st, headers = [(''Content-Type'', ''text/html; charset=utf-8'')],
      resp_body = HtmlBody (''<!doctype html><html><head><meta charset=\"utf-8\"><title>Authorization error</title>'' @
        ''<style>body{font-family:system-ui,sans-serif;max-width:32rem;margin:3rem auto;padding:0 1rem}'' @
        ''.err{background:#fce8e6;color:#c5221f;padding:1rem;border-radius:4px}</style></head>'' @
        ''<body><h1>Authorization error</h1><p class=\"err\">'' @ html_escape message @ ''</p></body></html>'')\<rparr>"

definition redirect_response :: "string \<Rightarrow> response" where
  "redirect_response location = \<lparr>status = 303, headers = [(''Location'', location)], resp_body = NoBody\<rparr>"

definition json_error :: "nat \<Rightarrow> string \<Rightarrow> response" where
  "json_error st message = \<lparr>status = st, headers = [], resp_body = JsonBody (json_obj [(''error'', JStr message)])\<rparr>"

definition html_page :: "string \<Rightarrow> response" where
  "html_page b = \<lparr>status = 200, headers = [(''Content-Type'', ''text/html; charset=utf-8'')], resp_body = HtmlBody b\<rparr>"

definition json_ok :: "json \<Rightarrow> response" where
  "json_ok j = \<lparr>status = 200, headers = [], resp_body = JsonBody j\<rparr>"

definition text_response :: "nat \<Rightarrow> string \<Rightarrow> response" where
  "text_response st t = \<lparr>status = st, headers = [], resp_body = TextBody t\<rparr>"

definition login_page :: "string \<Rightarrow> string \<Rightarrow> string \<Rightarrow> string" where
  "login_page login_html req_id client_name =
     str_replace ''{{CLIENT}}'' (html_escape client_name) (str_replace ''{{REQ_ID}}'' (html_escape req_id) login_html)"

subsection \<open>The authorization endpoint\<close>

record authorize_params =
  response_type :: "string option"
  ap_client_id :: "string option"
  ap_redirect_uri :: "string option"
  ap_scope :: "string option"
  ap_state :: "string option"
  ap_nonce :: "string option"
  code_challenge :: "string option"
  code_challenge_method :: "string option"

text \<open>The checks of \<open>authorize\<close> after the redirect URI is trusted: an OAuth error to redirect with, or
  the request to park.\<close>

definition check_request :: "authorize_params \<Rightarrow> string \<Rightarrow> string \<Rightarrow> (string, auth_request) result" where
  "check_request params client_id redirect_uri =
     (if response_type params \<noteq> Some ''code'' then Inl ''unsupported_response_type''
      else (case code_challenge params of
              None \<Rightarrow> Inl ''invalid_request''
            | Some challenge \<Rightarrow>
                if challenge = [] then Inl ''invalid_request''
                else if code_challenge_method params \<noteq> Some ''S256'' then Inl ''invalid_request''
                else (let scopes = split_whitespace (case ap_scope params of Some s \<Rightarrow> s | None \<Rightarrow> [])
                      in if scopes = [] \<or> \<not> set scopes \<subseteq> set SUPPORTED_SCOPES \<or> SCOPE_OPENID \<notin> set scopes
                         then Inl ''invalid_scope''
                         else Inr \<lparr>ar_client_id = client_id, ar_redirect_uri = redirect_uri, ar_scopes = scopes,
                                   ar_state = ap_state params, ar_nonce = ap_nonce params, ar_code_challenge = challenge\<rparr>)))"

definition authorize :: "oidc_env \<Rightarrow> string \<Rightarrow> int \<Rightarrow> string \<Rightarrow> authorize_params \<Rightarrow> 'p api_state \<Rightarrow> response \<times> 'p api_state" where
  "authorize env login_html now new_id params st =
     (case oidc st of
        None \<Rightarrow> (status_only 404, st)
      | Some o' \<Rightarrow>
      (case ap_client_id params of
        None \<Rightarrow> (error_page 400 ''missing client_id'', st)
      | Some client_id_raw \<Rightarrow>
      (case parse_uuid env client_id_raw of
        None \<Rightarrow> (error_page 400 ''invalid client_id'', st)
      | Some client_id \<Rightarrow>
      (case oauth_client client_id (storage st) of
        (Inl _, d) \<Rightarrow> (status_only 500, st\<lparr>storage := d\<rparr>)
      | (Inr None, d) \<Rightarrow> (error_page 400 ''unknown or disabled client'', st\<lparr>storage := d\<rparr>)
      | (Inr (Some client), d) \<Rightarrow>
          let st1 = st\<lparr>storage := d\<rparr> in
          if cl_disabled client then (error_page 400 ''unknown or disabled client'', st1)
          else (case ap_redirect_uri params of
                  None \<Rightarrow> (error_page 400 ''missing redirect_uri'', st1)
                | Some redirect_uri \<Rightarrow>
                    if redirect_uri \<notin> set (cl_redirect_uris client)
                    then (error_page 400 ''redirect_uri not registered for this client'', st1)
                    else (case check_request params client_id redirect_uri of
                            Inl err \<Rightarrow> (redirect_response (error_redirect env redirect_uri err (ap_state params)), st1)
                          | Inr request \<Rightarrow>
                              (case store_with_ttl now new_id (PRequest request) AUTH_REQUEST_TTL (challenges o') of
                                 (req_id, ch) \<Rightarrow> (html_page (login_page login_html req_id (cl_name client)),
                                                    with_challenges ch st1))))))))"

text \<open>\<open>POST /oidc/authorize/login/start\<close>.\<close>

definition login_start :: "'p webauthn \<Rightarrow> int \<Rightarrow> string \<Rightarrow> string \<Rightarrow> string \<Rightarrow> 'p api_state \<Rightarrow> response \<times> 'p api_state" where
  "login_start w now new_id req email st =
     (case oidc st of
        None \<Rightarrow> (status_only 404, st)
      | Some o' \<Rightarrow>
      (case peek now req (challenges o') of
        (None, ch) \<Rightarrow> (json_error 400 ''authorization request expired'', with_challenges ch st)
      | (Some _, ch) \<Rightarrow>
      (case account_by_email (to_lowercase (trim email)) (storage st) of
        (Inr (Some acc), d1) \<Rightarrow>
          (case list_passkeys_for_account (a_id acc) d1 of
             (Inl _, d2) \<Rightarrow> (json_error 400 ''no passkey for that account'', with_challenges ch st\<lparr>storage := d2\<rparr>)
           | (Inr stored, d2) \<Rightarrow>
               let st2 = with_challenges ch st\<lparr>storage := d2\<rparr> in
               if stored = [] then (json_error 400 ''no passkey for that account'', st2)
               else (case convert_all w stored of
                       None \<Rightarrow> (status_only 500, st2)
                     | Some credentials \<Rightarrow>
                         (case start_authentication w credentials of
                            None \<Rightarrow> (json_error 400 ''no passkey for that account'', st2)
                          | Some (options, auth) \<Rightarrow>
                              (case store_with_ttl now new_id
                                  (PCeremony \<lparr>lc_req_id = req, lc_account_id = a_id acc, lc_auth = auth\<rparr>)
                                  AUTH_REQUEST_TTL ch of
                                 (ceremony_id, ch') \<Rightarrow>
                                   (json_ok (json_obj [(''ceremony'', JStr ceremony_id), (''options'', options)]),
                                    with_challenges ch' st2)))))
      | (_, d1) \<Rightarrow> (json_error 400 ''no passkey for that account'', with_challenges ch st\<lparr>storage := d1\<rparr>))))"

subsection \<open>Finishing a login\<close>

definition code_params :: "string \<Rightarrow> string option \<Rightarrow> (string \<times> string) list" where
  "code_params code st = (''code'', code) # (case st of Some s \<Rightarrow> [(''state'', s)] | None \<Rightarrow> [])"

definition grant_of :: "string \<Rightarrow> auth_request \<Rightarrow> code_grant_t" where
  "grant_of account_id request =
     \<lparr>cg_account_id = account_id, cg_client_id = ar_client_id request, cg_redirect_uri = ar_redirect_uri request,
      cg_code_challenge = ar_code_challenge request, cg_nonce = ar_nonce request, cg_scopes = ar_scopes request\<rparr>"

text \<open>The part of \<open>login_finish\<close> that resolves the credential and verifies the assertion: a response,
  or the account that is logged in.\<close>

definition verify_assertion :: "'p webauthn \<Rightarrow> int \<Rightarrow> 'p login_ceremony \<Rightarrow> json \<Rightarrow> db \<Rightarrow> (response, string) result \<times> db" where
  "verify_assertion w now ceremony credential d =
     (case wa_raw_id w credential of
        None \<Rightarrow> (Inl (json_error 400 ''invalid assertion''), d)
      | Some cred_id \<Rightarrow>
      (case get_passkey_credential cred_id d of
        (Inr (Some stored), d1) \<Rightarrow>
          if pk_account_id stored \<noteq> lc_account_id ceremony
          then (Inl (json_error 403 ''credential does not belong to this account''), d1)
          else (case convert_cred w stored of
                  None \<Rightarrow> (Inl (status_only 500), d1)
                | Some auth_cred \<Rightarrow>
                    (case finish_authentication w credential (lc_auth ceremony) auth_cred of
                       None \<Rightarrow> (Inl (json_error 401 ''assertion verification failed''), d1)
                     | Some counter \<Rightarrow>
                         (case update_passkey_counter now cred_id counter d1 of
                            (Inl _, d2) \<Rightarrow> (Inl (status_only 500), d2)
                          | (Inr _, d2) \<Rightarrow> (Inr (lc_account_id ceremony), d2))))
      | (_, d1) \<Rightarrow> (Inl (json_error 400 ''credential not recognized''), d1)))"

text \<open>The last part of \<open>login_finish\<close>: a code when consent is on file, the consent page otherwise.\<close>

definition conclude_login :: "oidc_env \<Rightarrow> int \<Rightarrow> string \<Rightarrow> string \<Rightarrow> string \<Rightarrow> string \<Rightarrow> auth_request \<Rightarrow>
    'p oidc_state \<Rightarrow> 'p api_state \<Rightarrow> response \<times> 'p api_state" where
  "conclude_login env now new_id random_hex req account_key request o' st =
     (case (parse_uuid env account_key, parse_uuid env (ar_client_id request)) of
        (Some account_id, Some client_id) \<Rightarrow>
          (case oauth_grant account_id client_id (storage st) of
             (Inl _, d) \<Rightarrow> (status_only 500, st\<lparr>storage := d\<rparr>)
           | (Inr g, d) \<Rightarrow>
               let st1 = st\<lparr>storage := d\<rparr>; ch = challenges_of st;
                   already_granted = (case g of Some grant \<Rightarrow> set (ar_scopes request) \<subseteq> set (gr_scopes grant) | None \<Rightarrow> False)
               in if already_granted then
                    (case mint_code now random_hex (grant_of account_key request) (snd (retrieve_challenge now req ch)) of
                       (code, ch') \<Rightarrow>
                         (json_ok (json_obj [(''redirect'', JStr (redirect_with env (ar_redirect_uri request) (code_params code (ar_state request))))]),
                          with_challenges ch' st1))
                  else
                    (case store_with_ttl now new_id (PText account_key) AUTHOK_TTL ch of
                       (authok, ch') \<Rightarrow>
                         (json_ok (json_obj [(''redirect'', JStr (redirect_with env (issuer o' @ ''/oidc/consent'')
                            [(''req'', req), (''auth'', authok)]))]), with_challenges ch' st1)))
      | _ \<Rightarrow> (status_only 500, st))"

definition login_finish :: "oidc_env \<Rightarrow> 'p webauthn \<Rightarrow> int \<Rightarrow> string \<Rightarrow> string \<Rightarrow> string \<Rightarrow> string \<Rightarrow> json \<Rightarrow>
    'p api_state \<Rightarrow> response \<times> 'p api_state" where
  "login_finish env w now new_id random_hex req ceremony_id credential st =
     (case oidc st of
        None \<Rightarrow> (status_only 404, st)
      | Some o' \<Rightarrow>
      (case retrieve_challenge now ceremony_id (challenges o') of
        (Inl _, ch) \<Rightarrow> (json_error 400 ''login session expired'', with_challenges ch st)
      | (Inr bytes, ch) \<Rightarrow>
      (case ceremony_from_slice bytes of
        None \<Rightarrow> (json_error 400 ''corrupt login session'', with_challenges ch st)
      | Some ceremony \<Rightarrow>
          if lc_req_id ceremony \<noteq> req then (json_error 400 ''login session mismatch'', with_challenges ch st)
          else (case peek now req ch of
                  (None, ch1) \<Rightarrow> (json_error 400 ''authorization request expired'', with_challenges ch1 st)
                | (Some rbytes, ch1) \<Rightarrow>
                    let st1 = with_challenges ch1 st in
                    (case request_from_slice rbytes of
                       None \<Rightarrow> (json_error 400 ''corrupt authorization request'', st1)
                     | Some request \<Rightarrow>
                         (case verify_assertion w now ceremony credential (storage st1) of
                            (Inl r, d) \<Rightarrow> (r, st1\<lparr>storage := d\<rparr>)
                          | (Inr account_key, d) \<Rightarrow>
                              conclude_login env now new_id random_hex req account_key request o' (st1\<lparr>storage := d\<rparr>)))))))"

subsection \<open>Consent\<close>

definition scope_label :: "string \<Rightarrow> string" where
  "scope_label scope =
     (if scope = SCOPE_OPENID then ''Confirm your identity''
      else if scope = SCOPE_EMAIL then ''See your email address''
      else if scope = SCOPE_PROFILE then ''See your display name''
      else if scope = SCOPE_OFFLINE then ''Stay signed in (refresh access without re-login)''
      else if scope = SCOPE_MAIL then ''Access your mail and calendar data''
      else if scope = SCOPE_MCP then ''Use AI tools on your behalf''
      else ''Unknown permission'')"

definition parked_request :: "int \<Rightarrow> string \<Rightarrow> 'p payload challenge_store \<Rightarrow> auth_request option \<times> 'p payload challenge_store" where
  "parked_request now req_id ch =
     (case peek now req_id ch of (None, ch') \<Rightarrow> (None, ch') | (Some bytes, ch') \<Rightarrow> (request_from_slice bytes, ch'))"

definition consent_page :: "oidc_env \<Rightarrow> string \<Rightarrow> int \<Rightarrow> string \<Rightarrow> string \<Rightarrow> 'p api_state \<Rightarrow> response \<times> 'p api_state" where
  "consent_page env consent_html now req auth st =
     (case oidc st of
        None \<Rightarrow> (status_only 404, st)
      | Some o' \<Rightarrow>
      (case peek now auth (challenges o') of
        (None, ch) \<Rightarrow> (text_response 400 ''login expired; start over'', with_challenges ch st)
      | (Some _, ch) \<Rightarrow>
      (case parked_request now req ch of
        (None, ch1) \<Rightarrow> (text_response 400 ''authorization request expired'', with_challenges ch1 st)
      | (Some request, ch1) \<Rightarrow>
          (case (case parse_uuid env (ar_client_id request) of
                   None \<Rightarrow> (ar_client_id request, storage st)
                 | Some i \<Rightarrow> (case oauth_client i (storage st) of
                     (Inr (Some client), d) \<Rightarrow> (cl_name client, d)
                   | (_, d) \<Rightarrow> (ar_client_id request, d))) of
             (client_name, d) \<Rightarrow>
               (html_page (str_replace ''{{AUTH}}'' (html_escape auth) (str_replace ''{{REQ}}'' (html_escape req)
                  (str_replace ''{{SCOPES}}'' (concat (map (\<lambda>s. ''<li>'' @ html_escape (scope_label s) @ ''</li>'') (ar_scopes request)))
                    (str_replace ''{{CLIENT}}'' (html_escape client_name) consent_html)))),
                with_challenges ch1 st\<lparr>storage := d\<rparr>)))))"

text \<open>The login proof as text. Every entry is valid UTF-8; the entries that are not a login proof are
  JSON objects, whose text is not an account id, so the first component is then \<^const>\<open>None\<close>.\<close>

definition proof_account :: "oidc_env \<Rightarrow> 'p payload \<Rightarrow> (string \<times> string) option" where
  "proof_account env bytes =
     (case bytes of PText s \<Rightarrow> map_option (\<lambda>account_id. (s, account_id)) (parse_uuid env s) | _ \<Rightarrow> None)"

definition consent_submit :: "oidc_env \<Rightarrow> int \<Rightarrow> string \<Rightarrow> string \<Rightarrow> string \<Rightarrow> string \<Rightarrow> string \<Rightarrow>
    'p api_state \<Rightarrow> response \<times> 'p api_state" where
  "consent_submit env now new_id random_hex req auth decision st =
     (case oidc st of
        None \<Rightarrow> (status_only 404, st)
      | Some o' \<Rightarrow>
      (case retrieve_challenge now auth (challenges o') of
        (Inl _, ch) \<Rightarrow> (text_response 400 ''login expired; start over'', with_challenges ch st)
      | (Inr account_bytes, ch) \<Rightarrow>
      (case parked_request now req ch of
        (None, ch1) \<Rightarrow> (text_response 400 ''authorization request expired'', with_challenges ch1 st)
      | (Some request, ch1) \<Rightarrow>
          let ch2 = snd (retrieve_challenge now req ch1); st2 = with_challenges ch2 st in
          if decision \<noteq> ''approve'' then
            (redirect_response (error_redirect env (ar_redirect_uri request) ''access_denied'' (ar_state request)), st2)
          else (case (proof_account env account_bytes, parse_uuid env (ar_client_id request)) of
                  (Some (account_str, account_id), Some client_id) \<Rightarrow>
                    (case upsert_oauth_grant now new_id account_id client_id (ar_scopes request) (storage st2) of
                       (Inl _, d) \<Rightarrow> (status_only 500, st2\<lparr>storage := d\<rparr>)
                     | (Inr _, d) \<Rightarrow>
                         (case mint_code now random_hex (grant_of account_str request) ch2 of
                            (code, ch3) \<Rightarrow>
                              (redirect_response (redirect_with env (ar_redirect_uri request) (code_params code (ar_state request))),
                               with_challenges ch3 (st2\<lparr>storage := d\<rparr>))))
                | _ \<Rightarrow> (status_only 500, st2)))))"

subsection \<open>Passkey enrollment\<close>

definition unauthorized :: response where
  "unauthorized = \<lparr>status = 401, headers = [(''WWW-Authenticate'', ''Bearer'')], resp_body = TextBody ''authentication required''\<rparr>"

definition authenticate :: "oidc_env \<Rightarrow> int \<Rightarrow> string option \<Rightarrow> db \<Rightarrow> (response, account_t) result \<times> db" where
  "authenticate env now authorization d =
     (case Option.bind authorization (strip_prefix ''Bearer '') of
        None \<Rightarrow> (Inl unauthorized, d)
      | Some tok \<Rightarrow>
          (case account_by_token (blake3_hex env) now tok d of
             (Inr (Some acc), d1) \<Rightarrow> (Inr acc, d1)
           | (Inr None, d1) \<Rightarrow> (Inl unauthorized, d1)
           | (Inl _, d1) \<Rightarrow> (Inl (status_only 500), d1)))"

definition authenticate_scoped :: "oidc_env \<Rightarrow> int \<Rightarrow> string option \<Rightarrow> string \<Rightarrow> db \<Rightarrow> (response, account_t) result \<times> db" where
  "authenticate_scoped env now authorization scope d =
     (case Option.bind authorization (strip_prefix ''Bearer '') of
        None \<Rightarrow> (Inl unauthorized, d)
      | Some tok \<Rightarrow>
          (case account_and_access_by_token (blake3_hex env) now tok d of
             (Inr (Some (acc, access)), d1) \<Rightarrow>
               if allows access scope then (Inr acc, d1)
               else (Inl \<lparr>status = 403,
                          headers = [(''WWW-Authenticate'', ''Bearer error=\"insufficient_scope\", scope=\"'' @ scope @ ''\"'')],
                          resp_body = TextBody ''insufficient scope''\<rparr>, d1)
           | (Inr None, d1) \<Rightarrow> (Inl unauthorized, d1)
           | (Inl _, d1) \<Rightarrow> (Inl (status_only 500), d1)))"

definition enroll_start :: "oidc_env \<Rightarrow> 'p webauthn \<Rightarrow> int \<Rightarrow> string \<Rightarrow> string \<Rightarrow> string option \<Rightarrow> 'p api_state \<Rightarrow> response \<times> 'p api_state" where
  "enroll_start env w now new_id user_id authorization st =
     (case authenticate env now authorization (storage st) of
        (Inl r, d) \<Rightarrow> (r, st\<lparr>storage := d\<rparr>)
      | (Inr acc, d) \<Rightarrow>
      (case oidc st of
        None \<Rightarrow> (status_only 404, st\<lparr>storage := d\<rparr>)
      | Some o' \<Rightarrow>
      (case list_passkeys_for_account (a_id acc) d of
        (Inl _, d1) \<Rightarrow> (status_only 500, st\<lparr>storage := d1\<rparr>)
      | (Inr existing, d1) \<Rightarrow>
          let exclude = map pk_id existing; st1 = st\<lparr>storage := d1\<rparr> in
          (case wa_start_registration w user_id (a_email acc)
                  (case a_display_name acc of Some n \<Rightarrow> n | None \<Rightarrow> a_email acc) (if exclude = [] then None else Some exclude) of
             None \<Rightarrow> (status_only 500, st1)
           | Some (options, reg) \<Rightarrow>
               (case store_with_ttl now new_id (PEnroll \<lparr>en_account_id = a_id acc, en_reg = reg\<rparr>) 300 (challenges o') of
                  (session_id, ch) \<Rightarrow>
                    (json_ok (json_obj [(''session_id'', JStr session_id), (''options'', options)]), with_challenges ch st1))))))"

definition enroll_finish :: "oidc_env \<Rightarrow> 'p webauthn \<Rightarrow> int \<Rightarrow> string option \<Rightarrow> string \<Rightarrow> string option \<Rightarrow> json \<Rightarrow>
    'p api_state \<Rightarrow> response \<times> 'p api_state" where
  "enroll_finish env w now authorization session_id device credential st =
     (case authenticate env now authorization (storage st) of
        (Inl r, d) \<Rightarrow> (r, st\<lparr>storage := d\<rparr>)
      | (Inr acc, d) \<Rightarrow>
      let st0 = st\<lparr>storage := d\<rparr> in
      (case oidc st of
        None \<Rightarrow> (status_only 404, st0)
      | Some o' \<Rightarrow>
      (case retrieve_challenge now session_id (challenges o') of
        (Inl _, ch) \<Rightarrow> (json_error 400 ''unknown or expired session'', with_challenges ch st0)
      | (Inr bytes, ch) \<Rightarrow>
          let st1 = with_challenges ch st0 in
          (case enroll_from_slice bytes of
             None \<Rightarrow> (json_error 400 ''corrupt session state'', st1)
           | Some stored \<Rightarrow>
               if en_account_id stored \<noteq> a_id acc then (json_error 403 ''session belongs to another account'', st1)
               else if \<not> wa_register_ok w credential then (json_error 400 ''invalid credential'', st1)
               else
                 let device_name = (case device of Some n \<Rightarrow> if trim n = [] then ''Passkey'' else n | None \<Rightarrow> ''Passkey'') in
                 (case finish_registration w (a_id acc) device_name credential (en_reg stored) of
                    None \<Rightarrow> (json_error 400 ''registration verification failed'', st1)
                  | Some cred \<Rightarrow>
                      (case save_passkey_credential
                         \<lparr>pk_id = cr_id cred, pk_account_id = a_id acc, pk_device_name = cr_device_name cred,
                          pk_public_key = cr_passkey cred, pk_counter = cr_counter cred, pk_backup_eligible = False,
                          pk_backup_state = False, pk_aaguid = None, pk_created_at = now, pk_last_used_at = None,
                          pk_disabled = cr_disabled cred\<rparr> (storage st1) of
                         (Inl _, d1) \<Rightarrow> (status_only 500, st1\<lparr>storage := d1\<rparr>)
                       | (Inr _, d1) \<Rightarrow>
                           (json_ok (json_obj [(''enrolled'', JBool True), (''device_name'', JStr (cr_device_name cred))]),
                            st1\<lparr>storage := d1\<rparr>)))))))"

end
