(* ===== verification/Oidc_Props.thy ===== *)
theory Oidc_Props
  imports Oidc_Token
begin

text \<open>
  Properties of the token and userinfo endpoints: which requests mint an access token, that a code is
  spent by one exchange, that reuse of a refresh token burns its family, and that every request is a
  run of the refresh token store.
\<close>

lemma token_cases:
  assumes "token env now rnd au form st = (resp, st')"
  obtains "oidc st = None" "resp = status_only 404" "st' = st"
  | p d where "oidc st = Some p" "\<exists>fs. d = (storage st)\<lparr>faults := fs\<rparr>" "st' = st\<lparr>storage := d\<rparr>"
      "(\<exists>r. authenticate_client env au (tf_client_id form) (tf_client_secret form) (storage st) = (Inl resp, d)) \<or>
       resp = oauth_error ''unsupported_grant_type''"
  | p client d where "oidc st = Some p" "\<exists>fs. d = (storage st)\<lparr>faults := fs\<rparr>"
      "authenticate_client env au (tf_client_id form) (tf_client_secret form) (storage st) = (Inr client, d)"
      "grant_type form = Some ''authorization_code''" "code_grant env now rnd p client form (st\<lparr>storage := d\<rparr>) = (resp, st')"
  | p client d d' where "oidc st = Some p" "\<exists>fs. d = (storage st)\<lparr>faults := fs\<rparr>"
      "authenticate_client env au (tf_client_id form) (tf_client_secret form) (storage st) = (Inr client, d)"
      "grant_type form = Some ''refresh_token''" "refresh_grant env now rnd p client form d = (resp, d')" "st' = st\<lparr>storage := d'\<rparr>"
proof (cases "oidc st")
  case None
  with assms have "resp = status_only 404" "st' = st" by (simp_all add: token_def)
  with None that(1) show thesis by blast
next
  case (Some p)
  obtain a d where a: "authenticate_client env au (tf_client_id form) (tf_client_secret form) (storage st) = (a, d)"
    by (meson surj_pair)
  note fs = authenticate_client_reads[OF a]
  show thesis
  proof (cases a)
    case (Inl r)
    with assms Some a have "resp = r" "st' = st\<lparr>storage := d\<rparr>" by (simp_all add: token_def)
    with Inl Some a fs that(2) show thesis by blast
  next
    case (Inr client)
    consider "grant_type form = Some ''authorization_code''" | "grant_type form = Some ''refresh_token''"
      | "grant_type form \<noteq> Some ''authorization_code''" "grant_type form \<noteq> Some ''refresh_token''" by blast
    then show thesis
    proof cases
      case 1
      with assms Some a Inr have "code_grant env now rnd p client form (st\<lparr>storage := d\<rparr>) = (resp, st')"
        by (simp add: token_def Let_def)
      with 1 that(3)[OF Some fs a[unfolded Inr]] show thesis by blast
    next
      case 2
      obtain r d' where g: "refresh_grant env now rnd p client form d = (r, d')" by (meson surj_pair)
      with 2 assms Some a Inr have "resp = r" "st' = st\<lparr>storage := d'\<rparr>"
        by (simp_all add: token_def Let_def)
      with 2 g that(4)[OF Some fs a[unfolded Inr]] show thesis by blast
    next
      case 3
      with assms Some a Inr have "resp = oauth_error ''unsupported_grant_type''" "st' = st\<lparr>storage := d\<rparr>"
        by (simp_all add: token_def Let_def)
      with Some fs that(2) show thesis by blast
    qed
  qed
qed

lemma authenticate_status: "authenticate_client env au fid fsec d = (Inl r, d') \<Longrightarrow> status r \<noteq> 200"
  unfolding authenticate_client_def
  by (auto split: option.splits prod.splits sum.splits if_splits)

text \<open>C8. Every access token the token endpoint mints has a reason. If a request makes a new bearer token appear in the store,
  the request authenticated as an enabled client: its credentials name the client and, unless the client is public, carry a
  secret whose hash is stored for it. The token is bound to that
  client, and either the request presented an unexpired authorization code that was issued to this
  client, with the redirect URI of the code and a verifier matching its PKCE challenge, and the token
  carries exactly the account and scopes of the code; or it presented a refresh token of this client
  that is neither used nor revoked nor expired, and the token is for the account of that refresh token
  with no scope beyond those it grants.\<close>

theorem token_mints_for_grants_only:
  assumes run: "token env now rnd au form st = (resp, st')"
    and q: "q \<in> set (app_passwords (storage st')) - set (app_passwords (storage st))"
  shows "\<exists>c. client_proved env au (tf_client_id form) (tf_client_secret form) (storage st) c \<and> ap_oauth_client_id q = Some (oc_id c) \<and>
    (grant_type form = Some ''authorization_code'' \<and> redeemed env now form (oc_id c) (challenges_of st) q \<or>
     grant_type form = Some ''refresh_token'' \<and> refreshed env now form (oc_id c) (storage st) q)"
proof -
  have cid: "cl_id (row_to_client c) = oc_id c" for c by (simp add: row_to_client_def)
  from run show ?thesis
  proof (rule token_cases)
    assume "st' = st"
    with q show ?thesis by simp
  next
    fix d assume "\<exists>fs. d = (storage st)\<lparr>faults := fs\<rparr>" "st' = st\<lparr>storage := d\<rparr>"
    with q show ?thesis by auto
  next
    fix p client d assume p: "oidc st = Some p" and d: "\<exists>fs. d = (storage st)\<lparr>faults := fs\<rparr>"
      and a: "authenticate_client env au (tf_client_id form) (tf_client_secret form) (storage st) = (Inr client, d)"
      and g: "grant_type form = Some ''authorization_code''" "code_grant env now rnd p client form (st\<lparr>storage := d\<rparr>) = (resp, st')"
    obtain c where c: "client = row_to_client c" "client_proved env au (tf_client_id form) (tf_client_secret form) (storage st) c"
      using a by (rule authenticate_client_proved)
    have "redeemed env now form (cl_id client) (challenges p) q \<and> ap_oauth_client_id q = Some (cl_id client)"
      by (rule code_grant_new[OF g(2)]) (use p q d in auto)
    with c g(1) p cid show ?thesis by (auto simp: challenges_of_def)
  next
    fix p client d d' assume d: "\<exists>fs. d = (storage st)\<lparr>faults := fs\<rparr>"
      and a: "authenticate_client env au (tf_client_id form) (tf_client_secret form) (storage st) = (Inr client, d)"
      and g: "grant_type form = Some ''refresh_token''" "refresh_grant env now rnd p client form d = (resp, d')" "st' = st\<lparr>storage := d'\<rparr>"
    obtain c where c: "client = row_to_client c" "client_proved env au (tf_client_id form) (tf_client_secret form) (storage st) c"
      using a by (rule authenticate_client_proved)
    have "refreshed env now form (cl_id client) d q \<and> ap_oauth_client_id q = Some (cl_id client)"
      by (rule refresh_grant_new[OF g(2)]) (use q d g(3) in auto)
    moreover have "refreshed env now form x d q = refreshed env now form x (storage st) q" for x
    proof -
      have "oauth_refresh_tokens d = oauth_refresh_tokens (storage st)" using d by auto
      then show ?thesis unfolding refreshed_def by (rule arg_cong)
    qed
    ultimately show ?thesis using c g(1) cid by auto
  qed
qed

section \<open>Demonstration state\<close>

definition demo_env :: oidc_env where
  "demo_env = \<lparr>parse_uuid = Some, blake3_hex = id, decode_basic = (\<lambda>_. None), s256 = id, url_encode = id,
     sign = (\<lambda>_. Some ''jwt'')\<rparr>"

definition demo_grant :: code_grant_t where
  "demo_grant = \<lparr>cg_account_id = ''a1'', cg_client_id = ''c1'', cg_redirect_uri = ''https://c/cb'',
     cg_code_challenge = ''v'', cg_nonce = None, cg_scopes = [''openid'', ''offline_access'']\<rparr>"

definition demo_state :: "db \<Rightarrow> unit api_state" where
  "demo_state d = \<lparr>storage = d, oidc = Some \<lparr>config = \<lparr>access_token_ttl_secs = 20, id_token_ttl_secs = 20,
     refresh_token_ttl_secs = 90\<rparr>, issuer = ''https://x'',
     challenges = snd (mint_code 0 ''1'' demo_grant new_store)\<rparr>\<rparr>"

definition demo_rnd :: randomness where
  "demo_rnd = \<lparr>access_secret = Some ''9'', refresh_secret = Some ''8'', family_id = ''f9''\<rparr>"

definition demo_code_form :: token_form where
  "demo_code_form = \<lparr>grant_type = Some ''authorization_code'', tf_code = Some ''moc_1'',
     tf_redirect_uri = Some ''https://c/cb'', code_verifier = Some ''v'', tf_refresh_token = None,
     tf_scope = None, tf_client_id = Some ''c1'', tf_client_secret = None\<rparr>"

definition demo_refresh_form :: "string \<Rightarrow> string option \<Rightarrow> token_form" where
  "demo_refresh_form tok scope = \<lparr>grant_type = Some ''refresh_token'', tf_code = None,
     tf_redirect_uri = None, code_verifier = None, tf_refresh_token = Some tok,
     tf_scope = scope, tf_client_id = Some ''c1'', tf_client_secret = None\<rparr>"

definition demo_exchange :: "response \<times> unit api_state" where
  "demo_exchange = token demo_env 30 demo_rnd None demo_code_form (demo_state demo_oauth_db)"

lemma demo_exchange_run: "token demo_env 30 demo_rnd None demo_code_form (demo_state demo_oauth_db) = (fst demo_exchange, snd demo_exchange)"
  by (simp add: demo_exchange_def)

lemma demo_exchange_new:
  "hd (app_passwords (storage (snd demo_exchange))) \<in> set (app_passwords (storage (snd demo_exchange))) -
     set (app_passwords (storage (demo_state demo_oauth_db)))"
  by code_simp

theorem token_mints_for_grants_only_witness:
  "status (fst demo_exchange) = 200 \<and>
   (\<exists>c. client_proved demo_env None (Some ''c1'') None demo_oauth_db c \<and>
      redeemed demo_env 30 demo_code_form (oc_id c) (challenges_of (demo_state demo_oauth_db))
        (hd (app_passwords (storage (snd demo_exchange)))))"
proof -
  have "status (fst demo_exchange) = 200" "grant_type demo_code_form = Some ''authorization_code''"
    "tf_client_id demo_code_form = Some ''c1''" "tf_client_secret demo_code_form = None" "storage (demo_state demo_oauth_db) = demo_oauth_db"
    by (code_simp, simp_all add: demo_code_form_def demo_state_def)
  with token_mints_for_grants_only[OF demo_exchange_run demo_exchange_new] show ?thesis by auto
qed

lemma code_grant_spends:
  assumes "code_grant env now rnd p client form st = (resp, st')" "oidc st = Some p" "status resp = 200"
    and "tf_code form = Some code"
  shows "challenges_of st' code = None"
proof -
  obtain ch g where t: "take_code now code (challenges p) = (Some g, ch)" and st': "challenges_of st' = ch"
    using assms unfolding code_grant_def Let_def
    by (auto simp: with_challenges_def challenges_of_def split: option.splits prod.splits if_splits)
  from take_code_Some[OF t] st' show ?thesis by simp
qed

lemma code_grant_refused:
  assumes "code_grant env now rnd p client form st = (resp, st')" "tf_code form = Some code" "challenges p code = None"
  shows "status resp \<noteq> 200 \<and> storage st' = storage st"
  using assms by (auto simp: code_grant_def take_code_None split: option.splits)

text \<open>A successful exchange leaves no entry under its code, and a request for a code that has none is refused and writes
  nothing.\<close>

lemma exchange_spends:
  assumes "token env now rnd au form st = (resp, st1)" "status resp = 200"
    "grant_type form = Some ''authorization_code''" "tf_code form = Some code"
  shows "challenges_of st1 code = None"
  using assms(1)
proof (rule token_cases)
  fix p client d
  assume "oidc st = Some p" "code_grant env now rnd p client form (st\<lparr>storage := d\<rparr>) = (resp, st1)"
  with code_grant_spends[OF this(2)] assms(2,4) show ?thesis by simp
qed (use assms(2-4) authenticate_status in \<open>auto simp: status_only_def\<close>)

lemma spent_code_refused:
  assumes "token env now rnd au form st = (resp, st')" "challenges_of st code = None"
    "grant_type form = Some ''authorization_code''" "tf_code form = Some code"
  shows "status resp \<noteq> 200 \<and> (\<exists>fs. storage st' = (storage st)\<lparr>faults := fs\<rparr>)"
  using assms(1)
proof (rule token_cases)
  assume "resp = status_only 404" "st' = st"
  then show ?thesis by (auto simp: status_only_def intro: exI[of _ "faults (storage st)"])
next
  fix p client d
  assume g: "oidc st = Some p" "\<exists>fs. d = (storage st)\<lparr>faults := fs\<rparr>"
    "code_grant env now rnd p client form (st\<lparr>storage := d\<rparr>) = (resp, st')"
  have "challenges p code = None" using assms(2) g(1) by (simp add: challenges_of_def)
  from code_grant_refused[OF g(3) assms(4) this] g(2) show ?thesis by auto
qed (use assms(3) authenticate_status in \<open>auto simp: status_only_def oauth_error_def\<close>)


lemma select_refresh:
  assumes "keys_unique rt_token_hash rows" "r \<in> set rows" "rt_token_hash r = h"
  shows "sql_select (\<lambda>s. rt_token_hash s = h) rows = Some r"
  using sql_select_key[OF assms(1,2)] assms(3) by simp

text \<open>C10. Reuse detection: when an authenticated client presents one of its refresh tokens that was already used, the
  answer is \<open>invalid_grant\<close> and, with a database that does not fail and unique token hashes, every refresh token of the family is
  revoked and no access token is left whose hash one of them records as minted with it. That is the whole reach of the
  revocation: an access token from a refresh that dropped \<open>offline_access\<close> is recorded in no refresh token and outlives it
  (\<open>unrecorded_token_survives\<close>).\<close>

theorem refresh_reuse_burns_family:
  assumes st: "oidc st = Some p" "faults (storage st) = []"
    and auth: "authenticate_client env au (tf_client_id form) (tf_client_secret form) (storage st) = (Inr client, d)"
    and form: "grant_type form = Some ''refresh_token''" "tf_refresh_token form = Some tok" "starts_with REFRESH_PREFIX tok"
    and row: "keys_unique rt_token_hash (oauth_refresh_tokens (storage st))" "r \<in> set (oauth_refresh_tokens (storage st))"
      "rt_token_hash r = blake3_hex env tok" "rt_client_id r = cl_id client" "rt_used_at r \<noteq> None"
    and run: "token env now rnd au form st = (resp, st')"
  shows "resp = oauth_error ''invalid_grant'' \<and>
    (\<forall>s \<in> set (oauth_refresh_tokens (storage st')). rt_family_id s = rt_family_id r \<longrightarrow>
       rt_revoked_at s \<noteq> None \<and> rt_access_token_hash s \<notin> Some ` ap_token_hash ` set (app_passwords (storage st')))"
proof -
  have d: "d = storage st"
    using auth st(2) unfolding authenticate_client_def oauth_client_def verify_oauth_client_secret_def
    by (auto split: option.splits if_splits)
  have "refresh_token_by_plaintext (blake3_hex env) tok d = (Inr (Some (row_to_refresh r)), d)"
    using form(3) st(2) select_refresh[OF row(1-3)] by (simp add: refresh_token_by_plaintext_def d)
  then have "refresh_grant env now rnd p client form d = (oauth_error ''invalid_grant'', snd (revoke_refresh_family now (rt_family_id r) d))"
    using form(2) row(4,5) by (simp add: refresh_grant_def refresh_with_row_def row_to_refresh_def)
  with run auth st(1) form(1) have resp: "resp = oauth_error ''invalid_grant''"
    and st': "storage st' = snd (revoke_refresh_family now (rt_family_id r) d)"
    by (simp_all add: token_def Let_def) auto
  have "revoke_refresh_family now (rt_family_id r) d = (Inr (), storage st')"
    using st(2) unfolding st' by (simp add: revoke_refresh_family_def d transaction_def)
  from revoke_family_effect[OF this] resp show ?thesis by blast
qed

text \<open>The refresh token of the exchange, rotated once: presenting it again is reuse.\<close>

definition demo_rotated :: "response \<times> unit api_state" where
  "demo_rotated = token demo_env 40 \<lparr>access_secret = Some ''7'', refresh_secret = Some ''6'', family_id = ''f8''\<rparr>
     None (demo_refresh_form ''mrt_8'' None) (snd demo_exchange)"

theorem refresh_reuse_burns_family_witness:
  "status (fst demo_rotated) = 200 \<and>
   fst (token demo_env 50 demo_rnd None (demo_refresh_form ''mrt_8'' None) (snd demo_rotated)) = oauth_error ''invalid_grant''"
proof -
  let ?st = "snd demo_rotated" and ?form = "demo_refresh_form ''mrt_8'' None"
  let ?r = "hd (oauth_refresh_tokens (storage ?st))"
  let ?auth = "authenticate_client demo_env None (tf_client_id ?form) (tf_client_secret ?form) (storage ?st)"
  have ok: "status (fst demo_rotated) = 200" "faults (storage ?st) = []" by code_simp+
  have "oidc ?st \<noteq> None" by code_simp
  then obtain p where p: "oidc ?st = Some p" by blast
  have "fst ?auth = Inr \<lparr>cl_id = ''c1'', cl_name = ''app'', cl_redirect_uris = [''https://c/cb''], cl_public = True,
      cl_disabled = False, cl_created_at = 0\<rparr>" by code_simp
  then have a: "?auth = (Inr \<lparr>cl_id = ''c1'', cl_name = ''app'', cl_redirect_uris = [''https://c/cb''], cl_public = True,
      cl_disabled = False, cl_created_at = 0\<rparr>, snd ?auth)" by (metis prod.collapse)
  have f: "grant_type ?form = Some ''refresh_token''" "tf_refresh_token ?form = Some ''mrt_8''"
    "starts_with REFRESH_PREFIX ''mrt_8''" by code_simp+
  have r: "keys_unique rt_token_hash (oauth_refresh_tokens (storage ?st))" "?r \<in> set (oauth_refresh_tokens (storage ?st))"
    "rt_token_hash ?r = blake3_hex demo_env ''mrt_8''" "rt_used_at ?r \<noteq> None" by code_simp+
  have c: "rt_client_id ?r = ''c1''" by code_simp
  from refresh_reuse_burns_family[OF p ok(2) a f r(1-3) _ r(4) prod.collapse[symmetric]] c ok(1) show ?thesis by simp
qed

text \<open>A refresh that drops \<open>offline_access\<close>, then one that rotates the token, then its reuse: the family is dead, but the access
  token of the first is still there.\<close>

definition demo_dropped :: "unit api_state" where
  "demo_dropped = snd (token demo_env 35 (demo_rnd\<lparr>access_secret := Some ''5''\<rparr>) None (demo_refresh_form ''mrt_8'' (Some ''openid'')) (snd demo_exchange))"

definition demo_burnt :: "response \<times> unit api_state" where
  "demo_burnt = token demo_env 50 demo_rnd None (demo_refresh_form ''mrt_8'' None)
     (snd (token demo_env 40 \<lparr>access_secret = Some ''7'', refresh_secret = Some ''6'', family_id = ''f8''\<rparr> None
        (demo_refresh_form ''mrt_8'' None) demo_dropped))"

lemma unrecorded_token_survives:
  "status (fst demo_burnt) = 400 \<and> list_all (\<lambda>r. rt_revoked_at r \<noteq> None) (oauth_refresh_tokens (storage (snd demo_burnt))) \<and>
   map ap_token_hash (app_passwords (storage (snd demo_burnt))) = [''msk_5'']"
  by code_simp

section \<open>Dropping \<open>offline_access\<close>\<close>

lemma issue_tokens_no_offline:
  assumes "issue_tokens env now rnd p aid cid scopes nonce rot d = (r, d')" "SCOPE_OFFLINE \<notin> set scopes"
  shows "oauth_refresh_tokens d' = oauth_refresh_tokens d"
  using assms(1)
proof (rule issue_tokens_cases)
  fix x assume "account aid d = (x, d')"
  then show ?thesis by (rule reads_same(2)[OF storage_reads(3)])
next
  fix x d1 y assume "account aid d = (x, d1)" and c: "create_scoped_token (blake3_hex env) now (access_secret rnd) aid
    ''oidc access'' scopes (now + as_i64 (access_token_ttl_secs (config p))) cid d1 = (Inl y, d')"
  from conjunct1[OF create_scoped_token_rows[OF c]] reads_same(2)[OF storage_reads(3) this(1)] show ?thesis by simp
next
  fix acc d1 tok h d2 assume a: "account aid d = (Inr (Some acc), d1)"
    and c: "create_scoped_token (blake3_hex env) now (access_secret rnd) aid ''oidc access'' scopes
         (now + as_i64 (access_token_ttl_secs (config p))) cid d1 = (Inr (tok, h), d2)"
    and f: "finish_tokens env now rnd p acc aid cid scopes nonce rot h
         (json_obj [(''access_token'', JStr tok), (''token_type'', JStr ''Bearer''),
            (''expires_in'', JNum (as_i64 (access_token_ttl_secs (config p)))), (''scope'', JStr (join '' '' scopes))]) d2 = (r, d')"
  from finish_tokens_frame(2)[OF f assms(2)] conjunct1[OF create_scoped_token_rows[OF c]]
    reads_same(2)[OF storage_reads(3) a] show ?thesis by simp
qed

text \<open>A refresh whose requested scopes drop \<open>offline_access\<close> does not retire the presented token:
  when such a request succeeds, the refresh tokens are exactly as before, so the presented token is
  still live and can be presented again. The comment at this branch says the token is retired; the
  code deletes from the bearer tokens instead, with the hash of the refresh token.\<close>

lemma dropped_offline_keeps_token_live:
  assumes run: "token env now rnd au form st = (resp, st')" "status resp = 200"
    and form: "grant_type form = Some ''refresh_token''" "tf_refresh_token form = Some tok" "tf_scope form = Some req"
      "SCOPE_OFFLINE \<notin> set (split_whitespace req)"
  shows "oauth_refresh_tokens (storage st') = oauth_refresh_tokens (storage st) \<and>
    (\<exists>r \<in> set (oauth_refresh_tokens (storage st')). rt_token_hash r = blake3_hex env tok \<and> live now r)"
  using run(1)
proof (rule token_cases)
  fix p client d d'
  assume d: "\<exists>fs. d = (storage st)\<lparr>faults := fs\<rparr>"
    and g: "refresh_grant env now rnd p client form d = (resp, d')" "st' = st\<lparr>storage := d'\<rparr>"
  have same0: "oauth_refresh_tokens d = oauth_refresh_tokens (storage st)" using d by auto
  from g(1) show ?thesis
  proof (rule refresh_grant_cases)
    assume "status resp \<noteq> 200"
    with run(2) show ?thesis by simp
  next
    fix tok' row d1
    assume tok': "tf_refresh_token form = Some tok'"
      and look: "refresh_token_by_plaintext (blake3_hex env) tok' d = (Inr (Some row), d1)"
      and w: "refresh_with_row env now rnd p client form row d1 = (resp, d')"
    have same1: "oauth_refresh_tokens d1 = oauth_refresh_tokens d" by (rule reads_same(2)[OF storage_reads(4) look])
    obtain r where r: "r \<in> set (oauth_refresh_tokens d)" "rt_token_hash r = blake3_hex env tok'" "row = row_to_refresh r"
      using refresh_lookup[OF look] by blast
    from w show ?thesis
    proof (rule refresh_with_row_cases)
      fix scopes assume s: "rf_used_at row = None" "rf_revoked_at row = None" "\<not> rf_expires_at row \<le> now"
        "narrow_scopes form row = Some scopes"
        "issue_tokens env now rnd p (rf_account_id row) (cl_id client) scopes None (Some (rf_token_hash row)) d1 = (resp, d')"
      have "SCOPE_OFFLINE \<notin> set scopes"
        using s(4) form(3,4) by (auto simp: narrow_scopes_def Let_def split: if_splits)
      from issue_tokens_no_offline[OF s(5) this] same1 same0 g(2)
      have same: "oauth_refresh_tokens (storage st') = oauth_refresh_tokens (storage st)" by simp
      have "live now r" using s(1-3) by (simp add: r(3) row_to_refresh_def live_def)
      with same r same0 form(2) tok' show ?thesis by (intro conjI bexI[of _ r]) simp_all
    qed (use run(2) in simp_all)
  qed
qed (use run(2) form(1) authenticate_status in \<open>auto simp: status_only_def\<close>)

lemma dropped_offline_keeps_token_live_witness:
  "let r = token demo_env 40 (demo_rnd\<lparr>access_secret := Some ''5''\<rparr>) None (demo_refresh_form ''mrt_8'' (Some ''openid'')) (snd demo_exchange) in
   status (fst r) = 200 \<and> (\<exists>s \<in> set (oauth_refresh_tokens (storage (snd r))). rt_token_hash s = ''mrt_8'' \<and> live 40 s)"
proof -
  let ?f = "demo_refresh_form ''mrt_8'' (Some ''openid'')"
  let ?r = "token demo_env 40 (demo_rnd\<lparr>access_secret := Some ''5''\<rparr>) None ?f (snd demo_exchange)"
  have "status (fst ?r) = 200" "grant_type ?f = Some ''refresh_token''" "tf_refresh_token ?f = Some ''mrt_8''"
    "tf_scope ?f = Some ''openid''" "SCOPE_OFFLINE \<notin> set (split_whitespace ''openid'')"
    "blake3_hex demo_env ''mrt_8'' = ''mrt_8''" by code_simp+
  note p = dropped_offline_keeps_token_live[OF prod.collapse[symmetric] this(1-5), unfolded this(6)]
  show ?thesis unfolding Let_def using p \<open>status (fst ?r) = 200\<close> by blast
qed

section \<open>The endpoint as a run of the refresh token store\<close>

lemma steps_other: "\<exists>fs. d' = d\<lparr>faults := fs\<rparr> \<Longrightarrow> (oauth_step h)\<^sup>*\<^sup>* d d'"
  by (intro r_into_rtranclp os_other) auto

lemma refresh_grant_steps:
  assumes "refresh_grant env now rnd p client form d = (resp, d')"
    and fresh: "family_id rnd \<notin> rt_family_id ` set (oauth_refresh_tokens d)"
  shows "(oauth_step (blake3_hex env))\<^sup>*\<^sup>* d d'"
  using assms(1)
proof (rule refresh_grant_cases)
  assume "\<exists>fs. d' = d\<lparr>faults := fs\<rparr>"
  then show ?thesis by (rule steps_other)
next
  fix tok row d1
  assume look: "refresh_token_by_plaintext (blake3_hex env) tok d = (Inr (Some row), d1)"
    and w: "refresh_with_row env now rnd p client form row d1 = (resp, d')"
  have "(oauth_step (blake3_hex env))\<^sup>*\<^sup>* d d1" by (rule steps_other[OF readsD[OF storage_reads(4) look]])
  moreover have "(oauth_step (blake3_hex env))\<^sup>*\<^sup>* d1 d'"
    using w
  proof (rule refresh_with_row_cases)
    assume "d' = snd (revoke_refresh_family now (rf_family_id row) d1)"
    then show ?thesis using os_revoke_family by (metis prod.collapse r_into_rtranclp)
  next
    fix scopes
    assume "issue_tokens env now rnd p (rf_account_id row) (cl_id client) scopes None (Some (rf_token_hash row)) d1 = (resp, d')"
    then show ?thesis by (rule issue_tokens_steps) (use fresh reads_same(2)[OF storage_reads(4) look] in simp)
  qed simp
  ultimately show ?thesis by (rule rtranclp_trans)
qed

lemma code_grant_steps:
  assumes "code_grant env now rnd p client form st = (resp, st')"
    and fresh: "family_id rnd \<notin> rt_family_id ` set (oauth_refresh_tokens (storage st))"
  shows "(oauth_step (blake3_hex env))\<^sup>*\<^sup>* (storage st) (storage st')"
proof (cases "storage st' = storage st")
  case False
  with assms(1) obtain aid scopes nonce where
    "issue_tokens env now rnd p aid (cl_id client) scopes nonce None (storage st) = (resp, storage st')"
    unfolding code_grant_def Let_def by (auto split: option.splits prod.splits if_splits)
  then show ?thesis using fresh by (rule issue_tokens_steps)
qed simp

text \<open>C11. Whatever a request to the token endpoint does to the database is a run of the refresh token
  store, provided the generated family id is not in use. So what holds of every run of the store holds of the server: if the
  store was reached from an empty one, then after the request token hashes are unique and every family of refresh tokens belongs
  to one account and client and has at most one token that is neither used nor revoked.\<close>

theorem token_is_store_run:
  assumes "token env now rnd au form st = (resp, st')"
    and fresh: "family_id rnd \<notin> rt_family_id ` set (oauth_refresh_tokens (storage st))"
  shows "(oauth_step (blake3_hex env))\<^sup>*\<^sup>* (storage st) (storage st') \<and>
    ((oauth_step (blake3_hex env))\<^sup>*\<^sup>* empty_db (storage st) \<longrightarrow> single_lines (storage st'))"
proof -
  have run: "(oauth_step (blake3_hex env))\<^sup>*\<^sup>* (storage st) (storage st')"
    using assms(1)
  proof (rule token_cases)
    fix p d assume "\<exists>fs. d = (storage st)\<lparr>faults := fs\<rparr>" "st' = st\<lparr>storage := d\<rparr>"
    then show ?thesis by (simp add: steps_other)
  next
    fix p client d assume d: "\<exists>fs. d = (storage st)\<lparr>faults := fs\<rparr>"
      and g: "code_grant env now rnd p client form (st\<lparr>storage := d\<rparr>) = (resp, st')"
    have "(oauth_step (blake3_hex env))\<^sup>*\<^sup>* (storage (st\<lparr>storage := d\<rparr>)) (storage st')"
      by (rule code_grant_steps[OF g]) (use fresh d in auto)
    with steps_other[OF d, of "blake3_hex env"] show ?thesis by simp
  next
    fix p client d d' assume d: "\<exists>fs. d = (storage st)\<lparr>faults := fs\<rparr>"
      and g: "refresh_grant env now rnd p client form d = (resp, d')" "st' = st\<lparr>storage := d'\<rparr>"
    have "(oauth_step (blake3_hex env))\<^sup>*\<^sup>* d d'" by (rule refresh_grant_steps[OF g(1)]) (use fresh d in auto)
    with steps_other[OF d, of "blake3_hex env"] g(2) show ?thesis by simp
  qed simp
  with single_lines_reachable[OF rtranclp_trans[OF _ run]] show ?thesis by blast
qed

theorem token_is_store_run_witness:
  "(oauth_step id)\<^sup>*\<^sup>* demo_oauth_db (storage (snd demo_exchange)) \<and> oauth_refresh_tokens (storage (snd demo_exchange)) \<noteq> [] \<and>
   single_lines (storage (snd demo_exchange))"
proof -
  have f: "family_id demo_rnd \<notin> rt_family_id ` set (oauth_refresh_tokens (storage (demo_state demo_oauth_db)))"
    "oauth_refresh_tokens (storage (snd demo_exchange)) \<noteq> []" by code_simp+
  have e: "blake3_hex demo_env = id" "storage (demo_state demo_oauth_db) = demo_oauth_db" by (simp_all add: demo_env_def demo_state_def)
  have "(oauth_step id)\<^sup>*\<^sup>* empty_db demo_oauth_db"
    by (intro r_into_rtranclp os_other) (simp add: demo_oauth_db_def)
  with token_is_store_run[OF demo_exchange_run f(1)] f(2) show ?thesis unfolding e by blast
qed

section \<open>Userinfo\<close>

lemma access_by_token_ok:
  assumes "account_and_access_by_token h now tok d = (Inr (Some (acc, access)), d')"
  shows "\<exists>p \<in> set (app_passwords d). \<exists>a \<in> set (accounts d). ap_token_hash p = h tok \<and> acc_id a = ap_account_id p \<and>
    acc_disabled_at a = None \<and> not_expired now (ap_expires_at p) \<and> acc = row_to_account a \<and>
    access = (case ap_scopes p of None \<Rightarrow> Full | Some s \<Rightarrow> Scoped (split_whitespace s))"
proof -
  obtain p a where s: "sql_select (\<lambda>(p, a). ap_token_hash p = h tok \<and> acc_disabled_at a = None \<and>
      not_expired now (ap_expires_at p)) (token_join d) = Some (p, a)" "acc = row_to_account a"
      "access = (case ap_scopes p of None \<Rightarrow> Full | Some s \<Rightarrow> Scoped (split_whitespace s))"
    using assms by (auto simp: account_and_access_by_token_def op_defs Let_def dest!: db_call_okD split: option.splits if_splits)
  with sql_select_Some[OF s(1)] show ?thesis by (auto simp: token_join_mem)
qed

text \<open>The userinfo endpoint releases claims only to a valid bearer token of an enabled account: on
  success the token is stored, unexpired and grants \<open>openid\<close>; \<open>sub\<close> is its account, and the email
  address is released only if the token is a full credential or carries the \<open>email\<close> scope.\<close>

lemma userinfo_releases_by_scope:
  assumes "userinfo env now au st = (resp, st')" "status resp = 200" "resp_body resp = JsonBody claims"
  shows "\<exists>tok p a. au = Some (''Bearer '' @ tok) \<and> p \<in> set (app_passwords (storage st)) \<and> a \<in> set (accounts (storage st)) \<and>
    ap_token_hash p = blake3_hex env tok \<and> acc_id a = ap_account_id p \<and> acc_disabled_at a = None \<and>
    not_expired now (ap_expires_at p) \<and> json_get claims ''sub'' = Some (JStr (acc_id a)) \<and>
    (let granted = (\<lambda>s. case ap_scopes p of None \<Rightarrow> True | Some ss \<Rightarrow> s \<in> set (split_whitespace ss)) in
       granted ''openid'' \<and>
       json_get claims ''email'' = (if granted ''email'' then Some (JStr (acc_email a)) else None))"
proof -
  obtain tok acc access d where u: "Option.bind au (strip_prefix ''Bearer '') = Some tok"
      "account_and_access_by_token (blake3_hex env) now tok (storage st) = (Inr (Some (acc, access)), d)"
      "allows access SCOPE_OPENID" and c: "claims = userinfo_claims acc access"
    using assms unfolding userinfo_def Let_def
    by (auto simp: status_only_def split: option.splits prod.splits sum.splits if_splits)
  have sub: "json_get claims ''sub'' = Some (JStr (a_id acc))"
    and email: "json_get claims ''email'' = (if allows access SCOPE_EMAIL then Some (JStr (a_email acc)) else None)"
    by (simp_all add: c userinfo_claims_def Let_def json_get_obj1 split: option.splits)
  from u(1) have au: "au = Some (''Bearer '' @ tok)" by (auto simp: strip_prefix_Some split: Option.bind_splits)
  obtain p a where p: "p \<in> set (app_passwords (storage st))" "a \<in> set (accounts (storage st))"
      "ap_token_hash p = blake3_hex env tok" "acc_id a = ap_account_id p" "acc_disabled_at a = None"
      "not_expired now (ap_expires_at p)" "acc = row_to_account a"
      "access = (case ap_scopes p of None \<Rightarrow> Full | Some s \<Rightarrow> Scoped (split_whitespace s))"
    using access_by_token_ok[OF u(2)] by blast
  have al: "allows access s = (case ap_scopes p of None \<Rightarrow> True | Some ss \<Rightarrow> s \<in> set (split_whitespace ss))" for s
    by (simp add: p(8) split: option.splits)
  have "a_id acc = acc_id a" "a_email acc = acc_email a" by (simp_all add: p(7) row_to_account_def)
  then show ?thesis
    using au p(1-6) sub email[unfolded al SCOPE_EMAIL_def] u(3)[unfolded al SCOPE_OPENID_def]
    unfolding Let_def by (intro exI[of _ tok] exI[of _ p] exI[of _ a] conjI) simp_all
qed

definition demo_userinfo :: "response \<times> unit api_state" where
  "demo_userinfo = userinfo demo_env 31 (Some ''Bearer msk_9'') (snd demo_exchange)"

lemma userinfo_releases_by_scope_witness:
  "resp_body (fst demo_userinfo) = JsonBody (json_obj [(''sub'', JStr ''a1'')]) \<and>
   (\<exists>p a. p \<in> set (app_passwords (storage (snd demo_exchange))) \<and> a \<in> set (accounts (storage (snd demo_exchange))) \<and>
     acc_id a = ap_account_id p \<and> not_expired 31 (ap_expires_at p))"
proof -
  have b: "status (fst demo_userinfo) = 200" "resp_body (fst demo_userinfo) = JsonBody (json_obj [(''sub'', JStr ''a1'')])"
    by code_simp+
  have "userinfo demo_env 31 (Some ''Bearer msk_9'') (snd demo_exchange) = (fst demo_userinfo, snd demo_userinfo)"
    by (simp add: demo_userinfo_def)
  from userinfo_releases_by_scope[OF this b] b(2) show ?thesis by blast
qed

end
