(* ===== verification/Oidc_Flow.thy ===== *)
theory Oidc_Flow
  imports Oidc_Authorize Oidc_Props
begin

text \<open>
  Properties of the authorization-code flow: where the provider redirects, which logins put a code or
  a login proof in the store, and the invariant of the store over all requests.
\<close>

section \<open>Redirects of the authorization endpoint\<close>

definition registered :: "db \<Rightarrow> string \<Rightarrow> string \<Rightarrow> bool" where
  "registered d cid uri \<longleftrightarrow> (\<exists>c \<in> set (oauth_clients d). oc_id c = cid \<and> uri \<in> set (oc_redirect_uris c))"

lemma oauth_client_ok:
  assumes "oauth_client cid d = (Inr (Some client), d')"
  shows "\<exists>c \<in> set (oauth_clients d). oc_id c = cid \<and> client = row_to_client c"
  using assms unfolding oauth_client_def by (auto dest!: db_call_okD sql_select_Some)

text \<open>How an authorization request ends: a page, or a redirect or a parked request for a registered
  URI of an enabled client.\<close>

lemma authorize_cases:
  assumes "authorize env html now new_id params st = (resp, st')"
  obtains d where "\<exists>fs. d = (storage st)\<lparr>faults := fs\<rparr>" "st' = st\<lparr>storage := d\<rparr>" "''Location'' \<notin> fst ` set (headers resp)"
  | p d raw c uri err where "oidc st = Some p" "\<exists>fs. d = (storage st)\<lparr>faults := fs\<rparr>" "st' = st\<lparr>storage := d\<rparr>"
      "ap_client_id params = Some raw" "parse_uuid env raw = Some (oc_id c)" "c \<in> set (oauth_clients (storage st))"
      "\<not> oc_disabled c" "uri \<in> set (oc_redirect_uris c)" "ap_redirect_uri params = Some uri"
      "check_request params (oc_id c) uri = Inl err" "resp = redirect_response (error_redirect env uri err (ap_state params))"
  | p d raw c uri request where "oidc st = Some p" "\<exists>fs. d = (storage st)\<lparr>faults := fs\<rparr>"
      "c \<in> set (oauth_clients (storage st))" "\<not> oc_disabled c" "uri \<in> set (oc_redirect_uris c)"
      "check_request params (oc_id c) uri = Inr request" "''Location'' \<notin> fst ` set (headers resp)"
      "st' = with_challenges (snd (store_with_ttl now new_id (PRequest request) AUTH_REQUEST_TTL (challenges p))) (st\<lparr>storage := d\<rparr>)"
proof (cases "oidc st = None \<or> ap_client_id params = None \<or> parse_uuid env (the (ap_client_id params)) = None")
  case True
  with assms have "st' = st" "''Location'' \<notin> fst ` set (headers resp)"
    by (auto simp: authorize_def status_only_def error_page_def split: option.splits)
  moreover have "st\<lparr>storage := (storage st)\<lparr>faults := faults (storage st)\<rparr>\<rparr> = st" by simp
  ultimately show thesis using that(1) by metis
next
  case False
  then obtain p raw cid where p: "oidc st = Some p" "ap_client_id params = Some raw" "parse_uuid env raw = Some cid" by auto
  obtain x d where x: "oauth_client cid (storage st) = (x, d)" by (meson surj_pair)
  have fs: "\<exists>fs. d = (storage st)\<lparr>faults := fs\<rparr>" by (rule readsD[OF storage_reads(1) x])
  show thesis
  proof (cases "\<exists>client uri. x = Inr (Some client) \<and> \<not> cl_disabled client \<and> ap_redirect_uri params = Some uri \<and> uri \<in> set (cl_redirect_uris client)")
    case False
    with assms p x have "st' = st\<lparr>storage := d\<rparr> \<and> ''Location'' \<notin> fst ` set (headers resp)"
      by (auto simp: authorize_def status_only_def error_page_def Let_def split: option.splits sum.splits if_splits)
    with fs that(1) show thesis by blast
  next
    case True
    then obtain client uri where c: "x = Inr (Some client)" "\<not> cl_disabled client" "ap_redirect_uri params = Some uri"
      "uri \<in> set (cl_redirect_uris client)" by blast
    from oauth_client_ok[OF x[unfolded c(1)]] obtain c0 where c0: "c0 \<in> set (oauth_clients (storage st))" "oc_id c0 = cid"
      "client = row_to_client c0" by blast
    have c0': "\<not> oc_disabled c0" "uri \<in> set (oc_redirect_uris c0)" using c c0(3) by (simp_all add: row_to_client_def)
    show thesis
    proof (cases "check_request params cid uri")
      case (Inl err)
      with assms p x c have "st' = st\<lparr>storage := d\<rparr>" "resp = redirect_response (error_redirect env uri err (ap_state params))"
        by (simp_all add: authorize_def Let_def)
      with that(2) p fs c0 c0' c(3) Inl show thesis by blast
    next
      case (Inr request)
      with assms p x c have "st' = with_challenges (snd (store_with_ttl now new_id (PRequest request) AUTH_REQUEST_TTL (challenges p))) (st\<lparr>storage := d\<rparr>)"
        "''Location'' \<notin> fst ` set (headers resp)"
        by (auto simp: authorize_def Let_def html_page_def store_with_ttl_def)
      with that(3) p fs c0 c0' Inr show thesis by blast
    qed
  qed
qed

text \<open>The address an answer is sent to: the redirect URI, a separator, the answer, and the state of the
  request. The separator keeps the query apart from what precedes it: without a query in the URI it is \<open>?\<close>.\<close>

definition answer_url :: "oidc_env \<Rightarrow> string \<Rightarrow> string \<Rightarrow> string \<Rightarrow> string option \<Rightarrow> string" where
  "answer_url env uri name v s0 = uri @ (if CHR ''?'' \<in> set uri then ''&'' else ''?'') @ name @ ''='' @ url_encode env v @
     (case s0 of None \<Rightarrow> [] | Some s \<Rightarrow> ''&state='' @ url_encode env s)"

lemma error_redirect_url: "error_redirect env uri err s0 = answer_url env uri ''error'' err s0"
  by (simp add: error_redirect_def redirect_with_def answer_url_def Let_def split: option.splits)

lemma code_redirect_url: "redirect_with env uri (code_params code s0) = answer_url env uri ''code'' code s0"
  by (simp add: code_params_def redirect_with_def answer_url_def Let_def split: option.splits)

text \<open>C12. No open redirect: the authorization endpoint sends the browser elsewhere only to a redirect
  URI that is registered, character for character, for the enabled client the request names, and what
  follows it is a separator that opens or extends the query, the error the checks of the request give,
  and the state of the request, both URL-encoded. For an unknown or disabled client or an unregistered
  URI it never redirects.\<close>

theorem authorize_redirects_to_registered:
  assumes "authorize env html now new_id params st = (resp, st')" "(''Location'', loc) \<in> set (headers resp)"
  shows "\<exists>c \<in> set (oauth_clients (storage st)). \<exists>raw uri err. ap_client_id params = Some raw \<and>
    parse_uuid env raw = Some (oc_id c) \<and> \<not> oc_disabled c \<and> ap_redirect_uri params = Some uri \<and>
    uri \<in> set (oc_redirect_uris c) \<and> check_request params (oc_id c) uri = Inl err \<and>
    loc = answer_url env uri ''error'' err (ap_state params)"
  using assms(1)
proof (rule authorize_cases)
  fix p d raw c uri err
  assume c: "ap_client_id params = Some raw" "parse_uuid env raw = Some (oc_id c)" "c \<in> set (oauth_clients (storage st))"
    "\<not> oc_disabled c" "uri \<in> set (oc_redirect_uris c)" "ap_redirect_uri params = Some uri" "check_request params (oc_id c) uri = Inl err"
    and r: "resp = redirect_response (error_redirect env uri err (ap_state params))"
  have "loc = answer_url env uri ''error'' err (ap_state params)"
    using assms(2) r by (simp add: redirect_response_def error_redirect_url)
  with c show ?thesis by blast
qed (use assms(2) in \<open>force+\<close>)

definition demo_params :: authorize_params where
  "demo_params = \<lparr>response_type = Some ''token'', ap_client_id = Some ''c1'', ap_redirect_uri = Some ''https://c/cb'',
     ap_scope = Some ''openid'', ap_state = Some ''s'', ap_nonce = None, code_challenge = Some ''v'', code_challenge_method = Some ''S256''\<rparr>"

theorem authorize_redirects_to_registered_witness:
  "headers (fst (authorize demo_env [] 0 ''r1'' demo_params (demo_state demo_oauth_db))) =
     [(''Location'', ''https://c/cb?error=unsupported_response_type&state=s'')] \<and>
   (\<exists>c \<in> set (oauth_clients demo_oauth_db). ''https://c/cb'' \<in> set (oc_redirect_uris c))"
proof -
  let ?r = "authorize demo_env [] 0 ''r1'' demo_params (demo_state demo_oauth_db)"
  have h: "headers (fst ?r) = [(''Location'', ''https://c/cb?error=unsupported_response_type&state=s'')]" by code_simp
  then have "(''Location'', ''https://c/cb?error=unsupported_response_type&state=s'') \<in> set (headers (fst ?r))" by simp
  from authorize_redirects_to_registered[OF prod.collapse[symmetric] this] h
  show ?thesis by (auto simp: demo_params_def demo_state_def)
qed

section \<open>Logins\<close>

lemma more_reads [simp]: "reads (get_passkey_credential cid)" "reads (list_passkeys_for_account acct)"
  "reads (oauth_grant acct cid)" "reads (account_by_email e)"
  unfolding get_passkey_credential_def list_passkeys_for_account_def oauth_grant_def account_by_email_def Let_def
  by (rule reads_query)+

text \<open>What it takes to be logged in: a stored passkey of the account, not disabled, for which the
  WebAuthn library accepts the assertion.\<close>

definition asserted :: "'p webauthn \<Rightarrow> 'p login_ceremony \<Rightarrow> json \<Rightarrow> db \<Rightarrow> string \<Rightarrow> bool" where
  "asserted w ceremony credential d account_key \<longleftrightarrow> lc_account_id ceremony = account_key \<and>
     (\<exists>k \<in> set (passkey_credentials d). \<exists>res. pk_account_id k = account_key \<and> \<not> pk_disabled k \<and>
        wa_raw_id w credential = Some (pk_id k) \<and>
        wa_finish_authentication w credential (lc_auth ceremony) = Some res \<and>
        res_cred_id res = wa_cred_id w (pk_public_key k))"

lemma verify_assertion_ok:
  assumes "verify_assertion w now ceremony credential d = (Inr account_key, d')"
  shows "asserted w ceremony credential d account_key"
proof -
  obtain cred_id where r: "wa_raw_id w credential = Some cred_id"
    using assms by (cases "wa_raw_id w credential") (simp_all add: verify_assertion_def)
  obtain x d1 where x: "get_passkey_credential cred_id d = (x, d1)" by (meson surj_pair)
  obtain k where xk: "x = Inr (Some k)" "pk_account_id k = lc_account_id ceremony"
    using assms r x by (auto simp: verify_assertion_def split: sum.splits option.splits if_splits)
  obtain c where c: "convert_cred w k = Some c"
    using assms r x xk by (cases "convert_cred w k") (simp_all add: verify_assertion_def)
  obtain n where n: "finish_authentication w credential (lc_auth ceremony) c = Some n"
    using assms r x xk c by (cases "finish_authentication w credential (lc_auth ceremony) c") (simp_all add: verify_assertion_def)
  have key: "account_key = lc_account_id ceremony"
    using assms r x xk c n by (simp add: verify_assertion_def split: prod.splits sum.splits)
  note v = r x[unfolded xk(1)] xk(2) c n key
  have k: "k \<in> set (passkey_credentials d)" "pk_id k = cred_id"
    using v(2) unfolding get_passkey_credential_def by (auto dest!: db_call_okD sql_select_Some)
  have "c = \<lparr>cr_id = pk_id k, cr_account_id = pk_account_id k, cr_device_name = pk_device_name k,
      cr_passkey = pk_public_key k, cr_counter = pk_counter k, cr_disabled = pk_disabled k\<rparr>"
    using v(4) by (auto simp: convert_cred_def split: if_splits)
  with v(5) have "\<not> pk_disabled k" "\<exists>res. wa_finish_authentication w credential (lc_auth ceremony) = Some res \<and>
      res_cred_id res = wa_cred_id w (pk_public_key k)"
    by (auto simp: finish_authentication_def split: option.splits if_splits)
  with k v show ?thesis unfolding asserted_def by auto
qed

lemma update_counter_frame:
  assumes "update_passkey_counter now cid n d = (r, d')"
  shows "oauth_grants d' = oauth_grants d \<and> oauth_clients d' = oauth_clients d"
  using assms unfolding update_passkey_counter_def by (cases rule: db_call_cases) auto

lemma get_passkey_frame:
  assumes "get_passkey_credential cid d = (r, d')"
  shows "oauth_grants d' = oauth_grants d \<and> oauth_clients d' = oauth_clients d"
  using readsD[OF more_reads(1) assms] by auto

lemma verify_assertion_frame:
  assumes "verify_assertion w now ceremony credential d = (r, d')"
  shows "oauth_grants d' = oauth_grants d \<and> oauth_clients d' = oauth_clients d"
proof -
  have "d' = d \<or> (\<exists>c x. get_passkey_credential c d = (x, d')) \<or>
     (\<exists>c x d1 n y. get_passkey_credential c d = (x, d1) \<and> update_passkey_counter now c n d1 = (y, d'))"
    using assms unfolding verify_assertion_def
    by (fastforce split: option.splits prod.splits sum.splits if_splits)
  then show ?thesis using update_counter_frame get_passkey_frame by metis
qed

lemma peek_shrinks: "snd (peek t k ch) \<subseteq>\<^sub>m ch"
  by (auto simp: peek_def map_le_def split: option.splits)

lemma retrieve_shrinks: "snd (retrieve_challenge t k ch) \<subseteq>\<^sub>m ch"
  by (auto simp: retrieve_challenge_def map_le_def split: option.splits)

lemma map_leD: "m \<subseteq>\<^sub>m m' \<Longrightarrow> m k = Some v \<Longrightarrow> m' k = Some v"
  by (force simp: map_le_def)

lemma peek_Some:
  assumes "peek t k ch = (Some v, ch')"
  shows "ch' = ch \<and> (\<exists>e. ch k = Some e \<and> ce_data e = v \<and> t \<le> ce_expires_at e)"
  using assms by (auto simp: peek_def split: option.splits if_splits)

lemma retrieve_Inr:
  assumes "retrieve_challenge t k ch = (Inr v, ch')"
  shows "ch' = ch(k := None) \<and> (\<exists>e. ch k = Some e \<and> ce_data e = v \<and> t \<le> ce_expires_at e)"
  using assms by (auto simp: retrieve_challenge_def split: option.splits if_splits)

text \<open>How a login ends: with nothing new in the store, or with an accepted assertion and a parked
  request.\<close>

lemma login_finish_cases:
  assumes "login_finish env w now new_id hex req cer credential st = (resp, st')"
  obtains "challenges_of st' \<subseteq>\<^sub>m challenges_of st"
  | p ce ceremony re request account_key d st1 where "oidc st = Some p"
      "challenges_of st cer = Some ce" "ce_data ce = PCeremony ceremony" "lc_req_id ceremony = req" "now \<le> ce_expires_at ce"
      "challenges_of st req = Some re" "request_from_slice (ce_data re) = Some request"
      "asserted w ceremony credential (storage st) account_key"
      "oauth_grants d = oauth_grants (storage st)" "oauth_clients d = oauth_clients (storage st)"
      "st1 = (with_challenges ((challenges p)(cer := None)) st)\<lparr>storage := d\<rparr>"
      "conclude_login env now new_id hex req account_key request p st1 = (resp, st')"
proof (cases "oidc st")
  case None
  with assms that(1) show thesis by (simp add: login_finish_def)
next
  case (Some p)
  have ch: "challenges_of st = challenges p" using Some by (simp add: challenges_of_def)
  have keep: "challenges_of ((with_challenges m st)\<lparr>storage := d\<rparr>) = m" "challenges_of (with_challenges m st) = m" for m d
    using Some by (simp_all add: challenges_of_def with_challenges_def)
  obtain x c1 where x: "retrieve_challenge now cer (challenges p) = (x, c1)" by (meson surj_pair)
  have c1: "c1 \<subseteq>\<^sub>m challenges p" using retrieve_shrinks[of now cer "challenges p"] x by simp
  obtain y c2 where y: "peek now req c1 = (y, c2)" by (meson surj_pair)
  have c2: "c2 \<subseteq>\<^sub>m challenges p" using peek_shrinks[of now req c1] y c1 map_le_trans by fastforce
  show thesis
  proof (cases "\<exists>v ceremony rb request key d. x = Inr v \<and> ceremony_from_slice v = Some ceremony \<and> lc_req_id ceremony = req \<and>
      y = Some rb \<and> request_from_slice rb = Some request \<and> verify_assertion w now ceremony credential (storage st) = (Inr key, d)")
    case False
    with assms Some x y c1 c2 have "challenges_of st' \<subseteq>\<^sub>m challenges p"
      by (auto simp: login_finish_def Let_def keep split: sum.splits option.splits prod.splits if_splits)
    with that(1) ch show thesis by simp
  next
    case True
    then obtain v ceremony rb request key d where t: "x = Inr v" "ceremony_from_slice v = Some ceremony" "lc_req_id ceremony = req"
      "y = Some rb" "request_from_slice rb = Some request" "verify_assertion w now ceremony credential (storage st) = (Inr key, d)" by blast
    obtain ce where ce: "challenges p cer = Some ce" "ce_data ce = v" "now \<le> ce_expires_at ce" "c1 = (challenges p)(cer := None)"
      using retrieve_Inr[OF x[unfolded t(1)]] by blast
    obtain re where re: "c1 req = Some re" "ce_data re = rb" "c2 = c1" using peek_Some[OF y[unfolded t(4)]] by blast
    have "v = PCeremony ceremony" using t(2) by (cases v) auto
    moreover have "conclude_login env now new_id hex req key request p ((with_challenges c2 st)\<lparr>storage := d\<rparr>) = (resp, st')"
      using assms Some x y t by (simp add: login_finish_def Let_def)
    ultimately show thesis
      using ce re t(5) map_leD[OF c1 re(1)] ch verify_assertion_frame[OF t(6)] verify_assertion_ok[OF t(6)] t(3)
      by (intro that(2)[OF Some, of ce ceremony re request key d "(with_challenges c1 st)\<lparr>storage := d\<rparr>"]) simp_all
  qed
qed

lemma oauth_grant_granted:
  assumes "oauth_grant acct cid d = (Inr g, d')"
  shows "granted d acct cid = (case g of None \<Rightarrow> {} | Some x \<Rightarrow> set (gr_scopes x))"
  using assms unfolding oauth_grant_def granted_def
  by (auto dest!: db_call_okD simp: row_to_grant_def split: option.splits)

text \<open>What the end of a login may add to the store: a code when consent is on file, or the login
  proof.\<close>

lemma conclude_login_new:
  assumes "conclude_login env now new_id hex req key request p st = (resp, st')" "oidc st \<noteq> None"
    and k: "challenges_of st' k = Some e" "challenges_of st k \<noteq> Some e"
  shows "ce_data e = PText key \<or> ce_data e = PCode (grant_of key request) \<and>
    (\<exists>acct cid. parse_uuid env key = Some acct \<and> parse_uuid env (ar_client_id request) = Some cid \<and>
       set (ar_scopes request) \<subseteq> granted (storage st) acct cid)"
proof -
  obtain acct where a: "parse_uuid env key = Some acct"
    using assms(1) k by (cases "parse_uuid env key") (auto simp: conclude_login_def)
  obtain cid where c: "parse_uuid env (ar_client_id request) = Some cid"
    using assms(1) k a by (cases "parse_uuid env (ar_client_id request)") (auto simp: conclude_login_def)
  obtain x d where x: "oauth_grant acct cid (storage st) = (x, d)" by (meson surj_pair)
  have keep: "challenges_of (with_challenges m (st\<lparr>storage := d\<rparr>)) = m" for m
    using assms(2) by (auto simp: challenges_of_def with_challenges_def)
  obtain g where g: "x = Inr g"
    using assms(1) k a c x by (cases x) (auto simp: conclude_login_def challenges_of_def)
  let ?granted = "case g of Some grant \<Rightarrow> set (ar_scopes request) \<subseteq> set (gr_scopes grant) | None \<Rightarrow> False"
  show ?thesis
  proof (cases ?granted)
    case True
    then have "set (ar_scopes request) \<subseteq> granted (storage st) acct cid"
      using oauth_grant_granted[OF x[unfolded g]] by (simp split: option.splits)
    moreover have st': "challenges_of st' = store_keyed now (CODE_PREFIX @ hex) (PCode (grant_of key request)) CODE_TTL
        (snd (retrieve_challenge now req (challenges_of st)))"
      using assms(1) a c x g True keep by (auto simp: conclude_login_def Let_def mint_code_def)
    moreover have "ce_data e = PCode (grant_of key request)"
      using k map_leD[OF retrieve_shrinks[of now req "challenges_of st"]]
      unfolding st' by (auto simp: store_keyed_def split: if_splits)
    ultimately show ?thesis using a c by blast
  next
    case False
    then have st': "challenges_of st' = snd (store_with_ttl now new_id (PText key) AUTHOK_TTL (challenges_of st))"
      using assms(1) a c x g keep by (auto simp: conclude_login_def Let_def store_with_ttl_def)
    show ?thesis using k unfolding st' by (auto simp: store_with_ttl_def split: if_splits)
  qed
qed

text \<open>C13. A login puts something into the store only for a real passkey holder. If
  \<open>POST /oidc/authorize/login/finish\<close> adds an entry, the ceremony it presented was live and bound to
  this authorization request, the WebAuthn library accepted the assertion for a stored, enabled passkey
  of the account the ceremony was started for, and the entry is either the login proof of that account
  or an authorization code for that account and the parked request, the latter only if consent on file
  already covers every requested scope.\<close>

theorem login_needs_passkey:
  assumes run: "login_finish env w now new_id hex req cer credential st = (resp, st')"
    and k: "challenges_of st' k = Some e" "challenges_of st k \<noteq> Some e"
  shows "\<exists>ce ceremony key re request. challenges_of st cer = Some ce \<and> ce_data ce = PCeremony ceremony \<and>
    now \<le> ce_expires_at ce \<and> lc_req_id ceremony = req \<and> challenges_of st req = Some re \<and>
    request_from_slice (ce_data re) = Some request \<and> asserted w ceremony credential (storage st) key \<and>
    (ce_data e = PText key \<or> ce_data e = PCode (grant_of key request) \<and>
       (\<exists>acct cid. parse_uuid env key = Some acct \<and> parse_uuid env (ar_client_id request) = Some cid \<and>
          set (ar_scopes request) \<subseteq> granted (storage st) acct cid))"
  using run
proof (rule login_finish_cases)
  assume "challenges_of st' \<subseteq>\<^sub>m challenges_of st"
  from map_leD[OF this k(1)] k(2) show ?thesis by simp
next
  fix p ce ceremony re request key d st1
  assume c: "oidc st = Some p" "challenges_of st cer = Some ce" "ce_data ce = PCeremony ceremony" "lc_req_id ceremony = req"
    "now \<le> ce_expires_at ce" "challenges_of st req = Some re" "request_from_slice (ce_data re) = Some request"
    "asserted w ceremony credential (storage st) key" "oauth_grants d = oauth_grants (storage st)"
    and st1: "st1 = (with_challenges ((challenges p)(cer := None)) st)\<lparr>storage := d\<rparr>"
    and l: "conclude_login env now new_id hex req key request p st1 = (resp, st')"
  have "challenges_of st1 = (challenges p)(cer := None)" "oidc st1 \<noteq> None" "storage st1 = d"
    using c(1) by (simp_all add: st1 challenges_of_def with_challenges_def)
  moreover from this(1) have "challenges_of st1 k \<noteq> Some e"
    using k(2) c(1) by (simp add: challenges_of_def)
  ultimately have "ce_data e = PText key \<or> ce_data e = PCode (grant_of key request) \<and>
      (\<exists>acct cid. parse_uuid env key = Some acct \<and> parse_uuid env (ar_client_id request) = Some cid \<and>
         set (ar_scopes request) \<subseteq> granted d acct cid)"
    using conclude_login_new[OF l _ k(1)] by simp
  moreover have "granted d = granted (storage st)" using c(9) by (simp add: granted_def fun_eq_iff)
  ultimately show ?thesis using c(2-8) by metis
qed

definition demo_webauthn :: "unit webauthn" where
  "demo_webauthn = \<lparr>wa_start_registration = (\<lambda>_ _ _ _. None), wa_finish_registration = (\<lambda>_ _. None),
     wa_start_authentication = (\<lambda>_. Some (JNull, ())), wa_finish_authentication = (\<lambda>_ _. Some \<lparr>res_cred_id = ''pub'', res_counter = 1\<rparr>),
     wa_raw_id = (\<lambda>_. Some ''k1''), wa_register_ok = (\<lambda>_. True), wa_passkey_ok = (\<lambda>_. True), wa_cred_id = id\<rparr>"

definition demo_start_state :: "unit api_state" where
  "demo_start_state = with_challenges new_store (demo_state (demo_oauth_db\<lparr>passkey_credentials :=
     [\<lparr>pk_id = ''k1'', pk_account_id = ''a1'', pk_device_name = ''d'', pk_public_key = ''pub'', pk_counter = 0,
       pk_backup_eligible = False, pk_backup_state = False, pk_aaguid = None, pk_created_at = 0, pk_last_used_at = None,
       pk_disabled = False\<rparr>]\<rparr>))"

definition demo_parked_state :: "unit api_state" where
  "demo_parked_state = snd (authorize demo_env [] 0 ''r1'' (demo_params\<lparr>response_type := Some ''code''\<rparr>) demo_start_state)"

definition demo_login_state :: "unit api_state" where
  "demo_login_state = snd (login_start demo_webauthn 5 ''l1'' ''r1'' ''A@x '' demo_parked_state)"

definition demo_login :: "response \<times> unit api_state" where
  "demo_login = login_finish demo_env demo_webauthn 9 ''p1'' ''ff'' ''r1'' ''l1'' JNull demo_login_state"

theorem login_needs_passkey_witness:
  "\<exists>e. challenges_of (snd demo_login) ''p1'' = Some e \<and> ce_data e = PText ''a1'' \<and>
     (\<exists>ceremony. asserted demo_webauthn ceremony JNull (storage demo_login_state) ''a1'')"
proof -
  have "map_option ce_data (challenges_of (snd demo_login) ''p1'') = Some (PText ''a1'')"
    "challenges_of demo_login_state ''p1'' = None" by code_simp+
  then obtain e where e: "challenges_of (snd demo_login) ''p1'' = Some e" "ce_data e = PText ''a1''"
    "challenges_of demo_login_state ''p1'' \<noteq> Some e" by auto
  have run: "login_finish demo_env demo_webauthn 9 ''p1'' ''ff'' ''r1'' ''l1'' JNull demo_login_state = (fst demo_login, snd demo_login)"
    by (simp add: demo_login_def)
  from login_needs_passkey[OF run e(1,3)] e(1,2) show ?thesis by auto
qed

section \<open>The invariant of the flow\<close>

text \<open>A request in the store, parked or inside a code, was validated: its redirect URI is registered for
  its client and its scopes are supported ones that include \<open>openid\<close>.\<close>

definition request_ok :: "db \<Rightarrow> auth_request \<Rightarrow> bool" where
  "request_ok d r \<longleftrightarrow> registered d (ar_client_id r) (ar_redirect_uri r) \<and>
     set (ar_scopes r) \<subseteq> set SUPPORTED_SCOPES \<and> SCOPE_OPENID \<in> set (ar_scopes r)"

definition payload_ok :: "db \<Rightarrow> 'p payload \<Rightarrow> bool" where
  "payload_ok d pl \<longleftrightarrow> (\<forall>r. request_from_slice pl = Some r \<longrightarrow> request_ok d r)"

definition store_ok :: "'p api_state \<Rightarrow> bool" where
  "store_ok st \<longleftrightarrow> (\<forall>k e. challenges_of st k = Some e \<longrightarrow> payload_ok (storage st) (ce_data e))"

text \<open>The requests of the flow, and anything else that adds no request to the store and unregisters no
  redirect URI (the token endpoint, enrollment, the sweeper, registering or disabling a client).\<close>

inductive oidc_step :: "oidc_env \<Rightarrow> 'p webauthn \<Rightarrow> 'p api_state \<Rightarrow> 'p api_state \<Rightarrow> bool" for env w where
  st_authorize: "authorize env html now new_id params st = (resp, st') \<Longrightarrow> oidc_step env w st st'"
| st_login_start: "login_start w now new_id req email st = (resp, st') \<Longrightarrow> oidc_step env w st st'"
| st_login_finish: "login_finish env w now new_id hex req cer credential st = (resp, st') \<Longrightarrow> oidc_step env w st st'"
| st_consent_page: "consent_page env html now req auth st = (resp, st') \<Longrightarrow> oidc_step env w st st'"
| st_consent_submit: "consent_submit env now new_id hex req auth decision st = (resp, st') \<Longrightarrow> oidc_step env w st st'"
| st_other: "(\<And>k e. challenges_of st' k = Some e \<Longrightarrow> challenges_of st k = Some e \<or> request_from_slice (ce_data e) = None) \<Longrightarrow>
     (\<And>cid uri. registered (storage st) cid uri \<Longrightarrow> registered (storage st') cid uri) \<Longrightarrow> oidc_step env w st st'"

lemma store_okI:
  assumes "store_ok st" "oauth_clients (storage st') = oauth_clients (storage st)"
    and "\<And>k e. challenges_of st' k = Some e \<Longrightarrow> challenges_of st k = Some e \<or> payload_ok (storage st) (ce_data e)"
  shows "store_ok st'"
proof -
  have "payload_ok (storage st') = payload_ok (storage st)"
    by (intro ext) (simp add: payload_ok_def request_ok_def registered_def assms(2))
  with assms(1,3) show ?thesis unfolding store_ok_def by metis
qed

lemma payload_ok_grant: "request_ok d r \<Longrightarrow> payload_ok d (PCode (grant_of key r))"
  by (simp add: payload_ok_def request_ok_def grant_of_def)

lemma payload_ok_other [simp]: "payload_ok d (PText s)" "payload_ok d (PCeremony c)"
  by (simp_all add: payload_ok_def)

lemma store_ok_request:
  "store_ok st \<Longrightarrow> challenges_of st k = Some e \<Longrightarrow> request_from_slice (ce_data e) = Some r \<Longrightarrow> request_ok (storage st) r"
  by (auto simp: store_ok_def payload_ok_def)

lemma check_request_ok:
  assumes "check_request params cid uri = Inr request" "registered d cid uri"
  shows "request_ok d request"
  using assms by (auto simp: check_request_def request_ok_def Let_def split: if_splits option.splits)

lemma authorize_keeps:
  assumes "authorize env html now new_id params st = (resp, st')" "store_ok st"
  shows "store_ok st'"
  using assms(1)
proof (rule authorize_cases)
  fix d assume d: "\<exists>fs. d = (storage st)\<lparr>faults := fs\<rparr>" "st' = st\<lparr>storage := d\<rparr>"
  with assms(2) show ?thesis by (intro store_okI[OF assms(2)]) (auto simp: challenges_of_def)
next
  fix p d raw c uri err assume "\<exists>fs. d = (storage st)\<lparr>faults := fs\<rparr>" "st' = st\<lparr>storage := d\<rparr>"
  with assms(2) show ?thesis by (intro store_okI[OF assms(2)]) (auto simp: challenges_of_def)
next
  fix p d raw c uri request
  assume p: "oidc st = Some p" "\<exists>fs. d = (storage st)\<lparr>faults := fs\<rparr>" "c \<in> set (oauth_clients (storage st))"
    "uri \<in> set (oc_redirect_uris c)" "check_request params (oc_id c) uri = Inr request"
    and st': "st' = with_challenges (snd (store_with_ttl now new_id (PRequest request) AUTH_REQUEST_TTL (challenges p))) (st\<lparr>storage := d\<rparr>)"
  have "request_ok (storage st) request" using p(3-5) by (intro check_request_ok) (auto simp: registered_def)
  then have "payload_ok (storage st) (PRequest request)" by (simp add: payload_ok_def)
  then show ?thesis
    using p(1,2) by (intro store_okI[OF assms(2)])
      (auto simp: st' with_challenges_def challenges_of_def store_with_ttl_def split: if_splits)
qed

lemma login_start_frame:
  assumes "login_start w now new_id req email st = (resp, st')"
  shows "(\<exists>fs. storage st' = (storage st)\<lparr>faults := fs\<rparr>) \<and>
    (\<forall>k e. challenges_of st' k = Some e \<longrightarrow> challenges_of st k = Some e \<or> (\<exists>c. ce_data e = PCeremony c))"
proof (cases "oidc st")
  case None
  with assms have "st' = st" by (simp add: login_start_def)
  then show ?thesis using reads_faults by metis
next
  case (Some p)
  obtain y ch where y: "peek now req (challenges p) = (y, ch)" by (meson surj_pair)
  have sub: "challenges p k = Some e" if "ch k = Some e" for k e
    using map_leD[OF peek_shrinks[of now req "challenges p"], of k e] y that by simp
  obtain x d1 where x: "account_by_email (to_lowercase (trim email)) (storage st) = (x, d1)" by (meson surj_pair)
  have d1: "\<exists>fs. d1 = (storage st)\<lparr>faults := fs\<rparr>" by (rule readsD[OF more_reads(4) x])
  have d2: "\<exists>fs. d2 = (storage st)\<lparr>faults := fs\<rparr>" if "list_passkeys_for_account a d1 = (z, d2)" for a z d2
    using readsD[OF more_reads(2) that] d1 by auto
  have "storage st' = storage st \<or> storage st' = d1 \<or> (\<exists>a z. list_passkeys_for_account a d1 = (z, storage st'))"
    using assms Some y x
    by (auto simp: login_start_def Let_def with_challenges_def store_with_ttl_def split: option.splits sum.splits prod.splits if_splits)
  moreover have "\<forall>k e. challenges_of st' k = Some e \<longrightarrow> ch k = Some e \<or> (\<exists>c. ce_data e = PCeremony c)"
    using assms Some y x
    by (auto simp: login_start_def Let_def with_challenges_def challenges_of_def store_with_ttl_def split: option.splits sum.splits prod.splits if_splits)
  ultimately show ?thesis using d1 d2 sub Some reads_faults[of "storage st"] by (metis challenges_of_def option.simps(5))
qed

lemma login_start_keeps:
  assumes "login_start w now new_id req email st = (resp, st')" "store_ok st"
  shows "store_ok st'"
proof -
  note f = login_start_frame[OF assms(1)]
  show ?thesis
  proof (rule store_okI[OF assms(2)])
    show "oauth_clients (storage st') = oauth_clients (storage st)" using f by auto
    fix k e assume "challenges_of st' k = Some e"
    with f show "challenges_of st k = Some e \<or> payload_ok (storage st) (ce_data e)" by (metis payload_ok_other(2))
  qed
qed

lemma conclude_login_clients:
  assumes "conclude_login env now new_id hex req key request p st = (resp, st')"
  shows "oauth_clients (storage st') = oauth_clients (storage st)"
proof -
  have "storage st' = storage st \<or> (\<exists>a c x. oauth_grant a c (storage st) = (x, storage st'))"
    using assms by (auto simp: conclude_login_def Let_def mint_code_def store_with_ttl_def
        split: option.splits prod.splits sum.splits if_splits)
  then show ?thesis using reads_same(3)[OF more_reads(3)] by metis
qed

lemma login_finish_clients:
  assumes "login_finish env w now new_id hex req cer credential st = (resp, st')"
  shows "oauth_clients (storage st') = oauth_clients (storage st)"
proof (cases "storage st' = storage st")
  case False
  obtain p where p: "oidc st = Some p" using assms False by (cases "oidc st") (auto simp: login_finish_def)
  obtain x c1 where x: "retrieve_challenge now cer (challenges p) = (x, c1)" by (meson surj_pair)
  note s = p x
  obtain v where v: "x = Inr v" using assms False s by (cases x) (auto simp: login_finish_def)
  obtain ceremony where c: "ceremony_from_slice v = Some ceremony" "lc_req_id ceremony = req"
    using assms False s v by (cases "ceremony_from_slice v") (auto simp: login_finish_def split: if_splits)
  obtain y c2 where y: "peek now req c1 = (y, c2)" by (meson surj_pair)
  obtain rb request where r: "y = Some rb" "request_from_slice rb = Some request"
    using assms False s v c y by (cases y) (auto simp: login_finish_def Let_def split: option.splits)
  obtain z d where z: "verify_assertion w now ceremony credential (storage st) = (z, d)" by (meson surj_pair)
  have "oauth_clients (storage st') = oauth_clients d"
  proof (cases z)
    case (Inl e)
    with assms s v c y r z show ?thesis by (auto simp: login_finish_def Let_def)
  next
    case (Inr key)
    with assms s v c y r z have "conclude_login env now new_id hex req key request p ((with_challenges c2 st)\<lparr>storage := d\<rparr>) = (resp, st')"
      by (simp add: login_finish_def Let_def)
    from conclude_login_clients[OF this] show ?thesis by simp
  qed
  with verify_assertion_frame[OF z] show ?thesis by simp
qed simp

lemma login_finish_keeps:
  assumes run: "login_finish env w now new_id hex req cer credential st = (resp, st')" and ok: "store_ok st"
  shows "store_ok st'"
proof (rule store_okI[OF ok login_finish_clients[OF run]])
  fix k e assume k: "challenges_of st' k = Some e"
  show "challenges_of st k = Some e \<or> payload_ok (storage st) (ce_data e)"
    using run
  proof (rule login_finish_cases)
    assume "challenges_of st' \<subseteq>\<^sub>m challenges_of st"
    from map_leD[OF this k] show ?thesis ..
  next
    fix p ce ceremony re request key d st1
    assume p: "oidc st = Some p" "challenges_of st req = Some re" "request_from_slice (ce_data re) = Some request"
      and st1: "st1 = (with_challenges ((challenges p)(cer := None)) st)\<lparr>storage := d\<rparr>"
      and l: "conclude_login env now new_id hex req key request p st1 = (resp, st')"
    have ch: "challenges_of st1 = (challenges p)(cer := None)" "oidc st1 \<noteq> None"
      using p(1) by (simp_all add: st1 challenges_of_def with_challenges_def)
    show ?thesis
    proof (cases "challenges_of st1 k = Some e")
      case True
      then show ?thesis using ch p(1) by (auto simp: challenges_of_def split: if_splits)
    next
      case False
      have "request_ok (storage st) request" by (rule store_ok_request[OF ok p(2,3)])
      with conclude_login_new[OF l ch(2) k False] show ?thesis by (auto intro: payload_ok_grant)
    qed
  qed
qed

lemma parked_request_ok:
  assumes "parked_request now req ch = (Some request, ch')"
  shows "ch' = ch \<and> (\<exists>e. ch req = Some e \<and> request_from_slice (ce_data e) = Some request)"
proof -
  obtain y c where y: "peek now req ch = (y, c)" by (meson surj_pair)
  with assms obtain b where "y = Some b" "request_from_slice b = Some request" "ch' = c"
    by (auto simp: parked_request_def split: option.splits)
  with peek_Some[of now req ch b c] y show ?thesis by auto
qed

lemma parked_shrinks: "snd (parked_request now req ch) \<subseteq>\<^sub>m ch"
  using peek_shrinks[of now req ch] by (auto simp: parked_request_def split: prod.splits option.splits)

lemma upsert_clients:
  assumes "upsert_oauth_grant now new_id acct cid scopes d = (r, d')"
  shows "oauth_clients d' = oauth_clients d"
  using assms unfolding upsert_oauth_grant_def
  by (rule db_call_preserves[where I = "\<lambda>x. oauth_clients x = oauth_clients d"])
     (auto elim!: transaction_preserves simp: Let_def split: if_splits option.splits)

text \<open>How a consent decision ends: an error, or a redirect for a parked request, with a code only when
  the user approved and the login proof names an account.\<close>

lemma consent_submit_cases:
  assumes "consent_submit env now new_id hex req auth decision st = (resp, st')"
  obtains "challenges_of st' \<subseteq>\<^sub>m challenges_of st" "oauth_clients (storage st') = oauth_clients (storage st)"
      "''Location'' \<notin> fst ` set (headers resp) \<or> decision \<noteq> ''approve'' \<and> (\<exists>re request. challenges_of st req = Some re \<and>
         request_from_slice (ce_data re) = Some request \<and>
         resp = redirect_response (error_redirect env (ar_redirect_uri request) ''access_denied'' (ar_state request)))"
  | ae key acct re request ch where "decision = ''approve''" "challenges_of st auth = Some ae" "ce_data ae = PText key"
      "now \<le> ce_expires_at ae" "parse_uuid env key = Some acct" "challenges_of st req = Some re"
      "request_from_slice (ce_data re) = Some request" "oauth_clients (storage st') = oauth_clients (storage st)"
      "ch \<subseteq>\<^sub>m challenges_of st"
      "challenges_of st' = store_keyed now (CODE_PREFIX @ hex) (PCode (grant_of key request)) CODE_TTL ch"
      "resp = redirect_response (redirect_with env (ar_redirect_uri request) (code_params (CODE_PREFIX @ hex) (ar_state request)))"
proof (cases "oidc st")
  case None
  with assms that(1) show thesis by (auto simp: consent_submit_def status_only_def)
next
  case (Some p)
  have ch: "challenges_of st = challenges p" using Some by (simp add: challenges_of_def)
  have keep: "challenges_of ((with_challenges m st)\<lparr>storage := d\<rparr>) = m" "challenges_of (with_challenges m st) = m"
    "challenges_of (with_challenges m (with_challenges m' st\<lparr>storage := d\<rparr>)) = m"
    "challenges_of (with_challenges m ((with_challenges m' st)\<lparr>storage := d\<rparr>)) = m" for m m' d
    using Some by (simp_all add: challenges_of_def with_challenges_def)
  obtain x c1 where x: "retrieve_challenge now auth (challenges p) = (x, c1)" by (meson surj_pair)
  have c1: "c1 \<subseteq>\<^sub>m challenges p" using retrieve_shrinks[of now auth "challenges p"] x by simp
  obtain y c2 where y: "parked_request now req c1 = (y, c2)" by (meson surj_pair)
  have c2: "c2 \<subseteq>\<^sub>m challenges p" using parked_shrinks[of now req c1] y c1 map_le_trans by fastforce
  define c3 where "c3 = snd (retrieve_challenge now req c2)"
  have c3: "c3 \<subseteq>\<^sub>m challenges p" using retrieve_shrinks[of now req c2] c2 map_le_trans unfolding c3_def by blast
  show thesis
  proof (cases "\<exists>v request. x = Inr v \<and> y = Some request")
    case False
    with assms Some x y c1 c2 that(1) ch show thesis
      by (auto simp: consent_submit_def Let_def keep text_response_def split: sum.splits option.splits)
  next
    case True
    then obtain v request where v: "x = Inr v" "y = Some request" by blast
    obtain ae where ae: "challenges p auth = Some ae" "ce_data ae = v" "now \<le> ce_expires_at ae"
      using retrieve_Inr[OF x[unfolded v(1)]] by blast
    obtain re where re: "c1 req = Some re" "request_from_slice (ce_data re) = Some request"
      using parked_request_ok[OF y[unfolded v(2)]] by blast
    have re': "challenges p req = Some re" by (rule map_leD[OF c1 re(1)])
    show thesis
    proof (cases "decision = ''approve'' \<and> (\<exists>key acct cid d. proof_account env v = Some (key, acct) \<and> parse_uuid env (ar_client_id request) = Some cid \<and>
        upsert_oauth_grant now new_id acct cid (ar_scopes request) (storage st) = (Inr (), d))")
      case False
      have "challenges_of st' = c3 \<and> (storage st' = storage st \<or> (\<exists>a c x. upsert_oauth_grant now new_id a c (ar_scopes request) (storage st) = (x, storage st'))) \<and>
          (''Location'' \<notin> fst ` set (headers resp) \<or> decision \<noteq> ''approve'' \<and> resp = redirect_response (error_redirect env (ar_redirect_uri request) ''access_denied'' (ar_state request)))"
        using assms Some x y v False
        by (auto simp: consent_submit_def Let_def keep c3_def[symmetric] status_only_def split: sum.splits option.splits if_splits prod.splits)
      with c3 ch re' re(2) upsert_clients that(1) show thesis by metis
    next
      case True
      then obtain key acct cid d where t: "decision = ''approve''" "proof_account env v = Some (key, acct)"
        "parse_uuid env (ar_client_id request) = Some cid" "upsert_oauth_grant now new_id acct cid (ar_scopes request) (storage st) = (Inr (), d)" by blast
      have "v = PText key" "parse_uuid env key = Some acct" using t(2) by (auto simp: proof_account_def split: payload.splits)
      moreover have "challenges_of st' = store_keyed now (CODE_PREFIX @ hex) (PCode (grant_of key request)) CODE_TTL c3"
        "resp = redirect_response (redirect_with env (ar_redirect_uri request) (code_params (CODE_PREFIX @ hex) (ar_state request)))"
        "storage st' = d"
        using assms Some x y v t by (auto simp: consent_submit_def Let_def keep c3_def[symmetric] mint_code_def)
      ultimately show thesis
        using that(2)[OF t(1), of ae key acct re request c3] ae re' re(2) ch c3 upsert_clients[OF t(4)] by simp
    qed
  qed
qed

lemma consent_submit_keeps:
  assumes run: "consent_submit env now new_id hex req auth decision st = (resp, st')" and ok: "store_ok st"
  shows "store_ok st'"
  using run
proof (rule consent_submit_cases)
  assume "challenges_of st' \<subseteq>\<^sub>m challenges_of st" "oauth_clients (storage st') = oauth_clients (storage st)"
  then show ?thesis by (intro store_okI[OF ok]) (auto dest: map_leD)
next
  fix ae key acct re request ch
  assume re: "challenges_of st req = Some re" "request_from_slice (ce_data re) = Some request"
    and st': "oauth_clients (storage st') = oauth_clients (storage st)" "ch \<subseteq>\<^sub>m challenges_of st"
      "challenges_of st' = store_keyed now (CODE_PREFIX @ hex) (PCode (grant_of key request)) CODE_TTL ch"
  have "payload_ok (storage st) (PCode (grant_of key request))"
    by (rule payload_ok_grant[OF store_ok_request[OF ok re]])
  then show ?thesis
    using map_leD[OF st'(2)] by (intro store_okI[OF ok st'(1)]) (auto simp: st'(3) store_keyed_def split: if_splits)
qed

lemma consent_page_frame:
  assumes "consent_page env html now req auth st = (resp, st')"
  shows "oauth_clients (storage st') = oauth_clients (storage st) \<and> challenges_of st' \<subseteq>\<^sub>m challenges_of st"
proof (cases "oidc st")
  case None
  with assms show ?thesis by (simp add: consent_page_def)
next
  case (Some p)
  obtain x c1 where x: "peek now auth (challenges p) = (x, c1)" by (meson surj_pair)
  have c1: "c1 \<subseteq>\<^sub>m challenges p" using peek_shrinks[of now auth "challenges p"] x by simp
  obtain y c2 where y: "parked_request now req c1 = (y, c2)" by (meson surj_pair)
  have c2: "c2 \<subseteq>\<^sub>m challenges p" using parked_shrinks[of now req c1] y c1 map_le_trans by fastforce
  have "challenges_of st' = c1 \<or> challenges_of st' = c2"
    using assms Some x y
    by (auto simp: consent_page_def with_challenges_def challenges_of_def split: option.splits prod.splits sum.splits)
  moreover have "storage st' = storage st \<or> (\<exists>i z. oauth_client i (storage st) = (z, storage st'))"
    using assms Some x y
    by (auto simp: consent_page_def with_challenges_def split: option.splits prod.splits sum.splits)
  ultimately show ?thesis using c1 c2 Some reads_same(3)[OF storage_reads(1)] by (metis challenges_of_def option.simps(5))
qed

lemma oidc_step_keeps: "oidc_step env w st st' \<Longrightarrow> store_ok st \<Longrightarrow> store_ok st'"
proof (induction rule: oidc_step.induct)
  case (st_consent_page html now req auth st resp st')
  note f = consent_page_frame[OF st_consent_page(1)]
  show ?case
    by (rule store_okI[OF st_consent_page(2)]) (use f map_leD[OF conjunct2[OF f]] in simp_all)
next
  case (st_other st' st)
  have "payload_ok (storage st') (ce_data e)" if "challenges_of st' k = Some e" for k e
    using st_other(1)[OF that]
  proof
    assume "challenges_of st k = Some e"
    with st_other(3) have "payload_ok (storage st) (ce_data e)" by (auto simp: store_ok_def)
    with st_other(2) show ?thesis by (auto simp: payload_ok_def request_ok_def)
  qed (simp add: payload_ok_def)
  then show ?case by (simp add: store_ok_def)
qed (auto intro: authorize_keeps login_start_keeps login_finish_keeps consent_submit_keeps)

lemma oidc_reachable_ok: "(oidc_step env w)\<^sup>*\<^sup>* st st' \<Longrightarrow> store_ok st \<Longrightarrow> store_ok st'"
  by (induction rule: rtranclp_induct) (auto intro: oidc_step_keeps)

lemma store_ok_request_fields:
  "store_ok st \<Longrightarrow> challenges_of st k = Some re \<Longrightarrow> request_from_slice (ce_data re) = Some request \<Longrightarrow>
    registered (storage st) (ar_client_id request) (ar_redirect_uri request) \<and>
    set (ar_scopes request) \<subseteq> set SUPPORTED_SCOPES \<and> SCOPE_OPENID \<in> set (ar_scopes request)"
  using store_ok_request unfolding request_ok_def .

text \<open>C14. Over the whole flow, starting with an empty store and under any interleaving of requests of
  any users: a consent decision sends the browser only to the redirect URI of the request it decides,
  which is registered for the client of that request, with a query that is either the refusal, when the
  user did not approve, or the new code, and the state of the request. It mints a code only if the user
  approved and the login proof it consumes names an account; the code is for that account and for the
  client, the URI and the scopes of the request, which are supported ones that include \<open>openid\<close>.\<close>

theorem consent_flow_safe:
  assumes reach: "(oidc_step env w)\<^sup>*\<^sup>* st0 st" "challenges_of st0 = Map.empty"
    and run: "consent_submit env now new_id hex req auth decision st = (resp, st')"
  shows "(\<forall>loc. (''Location'', loc) \<in> set (headers resp) \<longrightarrow>
            (\<exists>re request. challenges_of st req = Some re \<and> request_from_slice (ce_data re) = Some request \<and>
               registered (storage st) (ar_client_id request) (ar_redirect_uri request) \<and>
               loc = (if decision = ''approve'' then answer_url env (ar_redirect_uri request) ''code'' (CODE_PREFIX @ hex) (ar_state request)
                      else answer_url env (ar_redirect_uri request) ''error'' ''access_denied'' (ar_state request)))) \<and>
    (\<forall>k e g. challenges_of st' k = Some e \<and> challenges_of st k \<noteq> Some e \<and> ce_data e = PCode g \<longrightarrow>
        k = CODE_PREFIX @ hex \<and> decision = ''approve'' \<and> map_option ce_data (challenges_of st auth) = Some (PText (cg_account_id g)) \<and>
        (\<exists>re request. challenges_of st req = Some re \<and> request_from_slice (ce_data re) = Some request \<and>
           g = grant_of (cg_account_id g) request) \<and>
        registered (storage st) (cg_client_id g) (cg_redirect_uri g) \<and>
        set (cg_scopes g) \<subseteq> set SUPPORTED_SCOPES \<and> SCOPE_OPENID \<in> set (cg_scopes g))"
proof -
  have ok: "store_ok st" by (rule oidc_reachable_ok[OF reach(1)]) (simp add: store_ok_def reach(2))
  note req_ok = store_ok_request_fields[OF ok]
  from run show ?thesis
  proof (rule consent_submit_cases)
    assume sub: "challenges_of st' \<subseteq>\<^sub>m challenges_of st"
      and l: "''Location'' \<notin> fst ` set (headers resp) \<or> decision \<noteq> ''approve'' \<and> (\<exists>re request. challenges_of st req = Some re \<and>
         request_from_slice (ce_data re) = Some request \<and>
         resp = redirect_response (error_redirect env (ar_redirect_uri request) ''access_denied'' (ar_state request)))"
    have "challenges_of st k = Some e" if "challenges_of st' k = Some e" for k e by (rule map_leD[OF sub that])
    moreover have "\<exists>re request. challenges_of st req = Some re \<and> request_from_slice (ce_data re) = Some request \<and>
        registered (storage st) (ar_client_id request) (ar_redirect_uri request) \<and> decision \<noteq> ''approve'' \<and>
        loc = answer_url env (ar_redirect_uri request) ''error'' ''access_denied'' (ar_state request)"
      if h: "(''Location'', loc) \<in> set (headers resp)" for loc
    proof -
      from h have "''Location'' \<in> fst ` set (headers resp)" by force
      with l obtain re request where r: "decision \<noteq> ''approve''" "challenges_of st req = Some re" "request_from_slice (ce_data re) = Some request"
        "resp = redirect_response (error_redirect env (ar_redirect_uri request) ''access_denied'' (ar_state request))" by blast
      from h have "loc = answer_url env (ar_redirect_uri request) ''error'' ''access_denied'' (ar_state request)"
        by (simp add: r(4) redirect_response_def error_redirect_url)
      with r req_ok[OF r(2,3)] show ?thesis by blast
    qed
    ultimately show ?thesis by fastforce
  next
    fix ae key acct re request ch
    assume a: "decision = ''approve''" "challenges_of st auth = Some ae" "ce_data ae = PText key"
      and re: "challenges_of st req = Some re" "request_from_slice (ce_data re) = Some request" and sub: "ch \<subseteq>\<^sub>m challenges_of st"
      and st': "challenges_of st' = store_keyed now (CODE_PREFIX @ hex) (PCode (grant_of key request)) CODE_TTL ch"
      and resp: "resp = redirect_response (redirect_with env (ar_redirect_uri request) (code_params (CODE_PREFIX @ hex) (ar_state request)))"
    have "k = CODE_PREFIX @ hex \<and> g = grant_of key request"
      if "challenges_of st' k = Some e" "challenges_of st k \<noteq> Some e" "ce_data e = PCode g" for k e g
      using that map_leD[OF sub] by (auto simp: st' store_keyed_def split: if_splits)
    moreover have "cg_account_id (grant_of key request) = key" "cg_client_id (grant_of key request) = ar_client_id request"
      "cg_redirect_uri (grant_of key request) = ar_redirect_uri request" "cg_scopes (grant_of key request) = ar_scopes request"
      by (simp_all add: grant_of_def)
    moreover have "\<forall>loc. (''Location'', loc) \<in> set (headers resp) \<longrightarrow>
        loc = answer_url env (ar_redirect_uri request) ''code'' (CODE_PREFIX @ hex) (ar_state request)"
      by (simp add: resp redirect_response_def code_redirect_url)
    ultimately show ?thesis using a re req_ok[OF re] by fastforce
  qed
qed

definition demo_consent :: "response \<times> unit api_state" where
  "demo_consent = consent_submit demo_env 10 ''g1'' ''ee'' ''r1'' ''p1'' ''approve'' (snd demo_login)"

lemma demo_login_reachable: "(oidc_step demo_env demo_webauthn)\<^sup>*\<^sup>* demo_start_state (snd demo_login)"
proof -
  have "oidc_step demo_env demo_webauthn demo_start_state demo_parked_state"
    unfolding demo_parked_state_def by (rule st_authorize[OF prod.collapse[symmetric]])
  moreover have "oidc_step demo_env demo_webauthn demo_parked_state demo_login_state"
    unfolding demo_login_state_def by (rule st_login_start[OF prod.collapse[symmetric]])
  moreover have "oidc_step demo_env demo_webauthn demo_login_state (snd demo_login)"
    unfolding demo_login_def by (rule st_login_finish[OF prod.collapse[symmetric]])
  ultimately show ?thesis by simp
qed

theorem consent_flow_safe_witness:
  "headers (fst demo_consent) = [(''Location'', ''https://c/cb?code=moc_ee&state=s'')] \<and>
   (\<exists>re request. challenges_of (snd demo_login) ''r1'' = Some re \<and> request_from_slice (ce_data re) = Some request \<and>
      registered (storage (snd demo_login)) (ar_client_id request) (ar_redirect_uri request))"
proof -
  have h: "headers (fst demo_consent) = [(''Location'', ''https://c/cb?code=moc_ee&state=s'')]" by code_simp
  have e: "challenges_of demo_start_state = Map.empty"
    by (simp add: demo_start_state_def demo_state_def with_challenges_def challenges_of_def new_store_def)
  have run: "consent_submit demo_env 10 ''g1'' ''ee'' ''r1'' ''p1'' ''approve'' (snd demo_login) = (fst demo_consent, snd demo_consent)"
    by (simp add: demo_consent_def)
  from conjunct1[OF consent_flow_safe[OF demo_login_reachable e run]] h show ?thesis by fastforce
qed

end
