(* ===== verification/Oidc_Codes.thy ===== *)
theory Oidc_Codes
  imports Oidc_Flow
begin

text \<open>
  An authorization code over the whole life of the provider: whatever requests the endpoints serve after a
  successful exchange, the code stays spent.
\<close>

section \<open>The requests the provider serves\<close>

text \<open>One request to an endpoint of the provider, or a change elsewhere in the server, which may do anything to the database
  but only removes entries of the challenge store (the sweeper; every other subsystem leaves it alone). The random
  keys a request draws differ from the code.\<close>

inductive server_step :: "oidc_env \<Rightarrow> 'p webauthn \<Rightarrow> string \<Rightarrow> 'p api_state \<Rightarrow> 'p api_state \<Rightarrow> bool" for env w code where
  sv_authorize: "authorize env html now new_id params st = (resp, st') \<Longrightarrow> new_id \<noteq> code \<Longrightarrow> server_step env w code st st'"
| sv_login_start: "login_start w now new_id req email st = (resp, st') \<Longrightarrow> new_id \<noteq> code \<Longrightarrow> server_step env w code st st'"
| sv_login_finish: "login_finish env w now new_id hex req cer credential st = (resp, st') \<Longrightarrow> new_id \<noteq> code \<Longrightarrow>
     CODE_PREFIX @ hex \<noteq> code \<Longrightarrow> server_step env w code st st'"
| sv_consent_page: "consent_page env html now req auth st = (resp, st') \<Longrightarrow> server_step env w code st st'"
| sv_consent_submit: "consent_submit env now new_id hex req auth decision st = (resp, st') \<Longrightarrow> CODE_PREFIX @ hex \<noteq> code \<Longrightarrow>
     server_step env w code st st'"
| sv_token: "token env now rnd au form st = (resp, st') \<Longrightarrow> server_step env w code st st'"
| sv_revoke: "revoke env now au rform st = (resp, st') \<Longrightarrow> server_step env w code st st'"
| sv_userinfo: "userinfo env now au st = (resp, st') \<Longrightarrow> server_step env w code st st'"
| sv_enroll_start: "enroll_start env w now new_id user_id au st = (resp, st') \<Longrightarrow> new_id \<noteq> code \<Longrightarrow> server_step env w code st st'"
| sv_enroll_finish: "enroll_finish env w now au sid device credential st = (resp, st') \<Longrightarrow> server_step env w code st st'"
| sv_other: "challenges_of st' \<subseteq>\<^sub>m challenges_of st \<Longrightarrow> server_step env w code st st'"

section \<open>A spent code stays spent\<close>

text \<open>What the endpoints that only shrink the store, or add under one key, do to the entry of another key.\<close>

lemma shrinks_gone: "m \<subseteq>\<^sub>m m' \<Longrightarrow> m' k = None \<Longrightarrow> m k = None"
  by (metis map_leD not_None_eq option.simps(3))

lemma challenges_of_storage [simp]: "challenges_of (st\<lparr>storage := d\<rparr>) = challenges_of st"
  by (simp add: challenges_of_def)

lemma challenges_of_put: "oidc st \<noteq> None \<Longrightarrow> challenges_of (with_challenges m st) = m"
  by (auto simp: challenges_of_def with_challenges_def)

lemma authorize_gone:
  assumes "authorize env html now new_id params st = (resp, st')" "new_id \<noteq> k" "challenges_of st k = None"
  shows "challenges_of st' k = None"
  using assms(1) by (rule authorize_cases)
    (use assms(2,3) in \<open>auto simp: store_with_ttl_def with_challenges_def challenges_of_def\<close>)

lemma login_start_gone:
  assumes "login_start w now new_id req email st = (resp, st')" "new_id \<noteq> k" "challenges_of st k = None"
  shows "challenges_of st' k = None"
proof (cases "oidc st")
  case None
  with assms show ?thesis by (simp add: login_start_def)
next
  case (Some p)
  obtain y ch where y: "peek now req (challenges p) = (y, ch)" by (meson surj_pair)
  have "ch k = None" using shrinks_gone[OF peek_shrinks[of now req "challenges p"], of k] y assms(3) Some
    by (simp add: challenges_of_def)
  with assms Some y show ?thesis
    by (auto simp: login_start_def Let_def with_challenges_def challenges_of_def store_with_ttl_def
        split: option.splits sum.splits prod.splits if_splits)
qed

lemma conclude_login_gone:
  assumes "conclude_login env now new_id hex req key request p st = (resp, st')" "oidc st \<noteq> None"
    and "new_id \<noteq> k" "CODE_PREFIX @ hex \<noteq> k" "challenges_of st k = None"
  shows "challenges_of st' k = None"
proof -
  have keep: "challenges_of (with_challenges m (st\<lparr>storage := d\<rparr>)) = m" for m d
    using assms(2) by (simp add: challenges_of_put)
  have "snd (retrieve_challenge now req (challenges_of st)) k = None" by (rule shrinks_gone[OF retrieve_shrinks[of now req "challenges_of st"] assms(5)])
  with assms(1,3-5) keep show ?thesis
    by (auto simp: conclude_login_def Let_def mint_code_def store_with_ttl_def store_keyed_def
        split: option.splits prod.splits sum.splits if_splits)
qed

lemma login_finish_gone:
  assumes "login_finish env w now new_id hex req cer credential st = (resp, st')"
    and k: "new_id \<noteq> k" "CODE_PREFIX @ hex \<noteq> k" "challenges_of st k = None"
  shows "challenges_of st' k = None"
  using assms(1)
proof (rule login_finish_cases)
  assume "challenges_of st' \<subseteq>\<^sub>m challenges_of st"
  from shrinks_gone[OF this k(3)] show ?thesis .
next
  fix p ce ceremony re request key d st1
  assume p: "oidc st = Some p" and st1: "st1 = (with_challenges ((challenges p)(cer := None)) st)\<lparr>storage := d\<rparr>"
    and l: "conclude_login env now new_id hex req key request p st1 = (resp, st')"
  have "oidc st1 \<noteq> None" "challenges_of st1 k = None"
    using p k(3) by (simp_all add: st1 with_challenges_def challenges_of_def)
  from conclude_login_gone[OF l this(1) k(1,2) this(2)] show ?thesis .
qed

lemma consent_submit_gone:
  assumes "consent_submit env now new_id hex req auth decision st = (resp, st')" "CODE_PREFIX @ hex \<noteq> k" "challenges_of st k = None"
  shows "challenges_of st' k = None"
  using assms(1) by (rule consent_submit_cases) (use assms(2,3) in \<open>auto simp: store_keyed_def dest: shrinks_gone\<close>)

lemma take_code_shrinks: "snd (take_code now code ch) \<subseteq>\<^sub>m ch"
  using retrieve_shrinks[of now code ch] by (auto simp: take_code_def split: prod.splits sum.splits)

lemma code_grant_shrinks:
  assumes "code_grant env now rnd p client form st = (resp, st')" "oidc st = Some p"
  shows "challenges_of st' \<subseteq>\<^sub>m challenges_of st"
proof -
  have "challenges_of st' = challenges p \<or> (\<exists>code g ch. take_code now code (challenges p) = (g, ch) \<and> challenges_of st' = ch)"
    using assms unfolding code_grant_def Let_def
    by (auto simp: with_challenges_def challenges_of_def split: option.splits prod.splits if_splits)
  with take_code_shrinks assms(2) show ?thesis by (metis challenges_of_def map_le_refl option.simps(5) snd_conv)
qed

lemma token_shrinks:
  assumes "token env now rnd au form st = (resp, st')"
  shows "challenges_of st' \<subseteq>\<^sub>m challenges_of st"
  using assms
proof (rule token_cases)
  fix p client d
  assume "oidc st = Some p" "code_grant env now rnd p client form (st\<lparr>storage := d\<rparr>) = (resp, st')"
  with code_grant_shrinks[OF this(2)] show ?thesis by simp
qed simp_all

lemma storage_only:
  "revoke env now au rform st = (resp, st') \<Longrightarrow> challenges_of st' = challenges_of st"
  "userinfo env now au st = (resp, st') \<Longrightarrow> challenges_of st' = challenges_of st"
  unfolding revoke_def userinfo_def Let_def by (auto split: option.splits prod.splits sum.splits if_splits)

lemma enroll_start_gone:
  assumes "enroll_start env w now new_id user_id au st = (resp, st')" "new_id \<noteq> k" "challenges_of st k = None"
  shows "challenges_of st' k = None"
  using assms unfolding enroll_start_def Let_def
  by (auto simp: challenges_of_put challenges_of_def store_with_ttl_def with_challenges_def
      split: option.splits prod.splits sum.splits if_splits)

lemma enroll_finish_shrinks:
  assumes "enroll_finish env w now au sid device credential st = (resp, st')"
  shows "challenges_of st' \<subseteq>\<^sub>m challenges_of st"
proof -
  have "challenges_of st' = challenges_of st \<or>
      (\<exists>p x. oidc st = Some p \<and> retrieve_challenge now sid (challenges p) = (x, challenges_of st'))"
    using assms unfolding enroll_finish_def Let_def
    by (auto simp: challenges_of_def with_challenges_def split: option.splits prod.splits sum.splits if_splits)
  with retrieve_shrinks show ?thesis by (metis challenges_of_def map_le_refl option.simps(5) snd_conv)
qed

lemma server_step_gone: "server_step env w code st st' \<Longrightarrow> challenges_of st code = None \<Longrightarrow> challenges_of st' code = None"
  by (induction rule: server_step.induct)
    (auto dest: authorize_gone login_start_gone login_finish_gone consent_submit_gone enroll_start_gone storage_only
      shrinks_gone[OF conjunct2[OF consent_page_frame]] shrinks_gone[OF token_shrinks]
      shrinks_gone[OF enroll_finish_shrinks] shrinks_gone)

lemma server_run_gone:
  "(server_step env w code)\<^sup>*\<^sup>* st st' \<Longrightarrow> challenges_of st code = None \<Longrightarrow> challenges_of st' code = None"
  by (induction rule: rtranclp_induct) (auto intro: server_step_gone)

text \<open>C9. A code is exchanged at most once: after a request that exchanged it, whatever requests the provider serves
  in between, to any of its endpoints and by anyone, and whatever the rest of the server does to the database, a later
  request with the same code is refused and changes nothing in the database: it mints neither an access nor
  a refresh token. It is assumed that no random key drawn in between repeats the code.\<close>

theorem code_exchanged_once:
  assumes "token env now rnd au form st = (resp, st1)" "status resp = 200"
    "grant_type form = Some ''authorization_code''" "tf_code form = Some code"
    and "(server_step env w code)\<^sup>*\<^sup>* st1 st2"
    and "token env now' rnd' au' form' st2 = (resp', st3)"
    "grant_type form' = Some ''authorization_code''" "tf_code form' = Some code"
  shows "status resp' \<noteq> 200 \<and> (\<exists>fs. storage st3 = (storage st2)\<lparr>faults := fs\<rparr>)"
  by (rule spent_code_refused[OF assms(6) server_run_gone[OF assms(5) exchange_spends[OF assms(1-4)]] assms(7,8)])

definition demo_later :: "unit api_state" where
  "demo_later = snd (authorize demo_env [] 31 ''r1'' demo_params (snd demo_exchange))"

theorem code_exchanged_once_witness:
  "status (fst demo_exchange) = 200 \<and> status (fst (token demo_env 32 demo_rnd None demo_code_form demo_later)) \<noteq> 200"
proof -
  have ok: "status (fst demo_exchange) = 200" by code_simp
  have f: "grant_type demo_code_form = Some ''authorization_code''" "tf_code demo_code_form = Some ''moc_1''"
    by (simp_all add: demo_code_form_def)
  have "server_step demo_env demo_webauthn ''moc_1'' (snd demo_exchange) demo_later"
    unfolding demo_later_def by (rule sv_authorize[OF prod.collapse[symmetric]]) simp
  then have "(server_step demo_env demo_webauthn ''moc_1'')\<^sup>*\<^sup>* (snd demo_exchange) demo_later" by simp
  from code_exchanged_once[OF demo_exchange_run ok f this prod.collapse[symmetric] f] ok show ?thesis by simp
qed

end
