(* ===== verification/Queue_Store.thy ===== *)
theory Queue_Store
  imports Accounts
begin

text \<open>
  \<open>crates/owney-storage/src/queue.rs\<close>: the durable outbound queue, one row per message and recipient.
  A claim turns due rows from queued to sending. SQLite leaves the order of the rows a \<open>RETURNING\<close>
  clause yields open; the model returns them in table order, as it does ties of an \<open>ORDER BY\<close>.
\<close>

section \<open>Definitions\<close>

record queue_item =
  qi_id :: string
  qi_account_id :: string
  qi_blob_id :: string
  qi_mail_from :: string
  qi_recipient :: string
  qi_domain :: string
  qi_attempts :: nat
  qi_next_attempt :: int
  qi_priority :: nat

datatype attempt_outcome = OutDelivered | OutRetry string int | OutFailed string

definition row_to_item :: "queue_row \<Rightarrow> queue_item" where
  "row_to_item r = \<lparr>qi_id = q_id r, qi_account_id = q_account_id r, qi_blob_id = q_blob_id r,
     qi_mail_from = q_mail_from r, qi_recipient = q_recipient r, qi_domain = q_domain r,
     qi_attempts = q_attempts r, qi_next_attempt = q_next_attempt r, qi_priority = min (q_priority r) 1\<rparr>"

definition enqueue_with_priority :: "int \<Rightarrow> string \<Rightarrow> string \<Rightarrow> string \<Rightarrow> string \<Rightarrow> string \<Rightarrow> nat \<Rightarrow> queue_item op" where
  "enqueue_with_priority now new_id acct blob mail_from recipient priority =
     (case rsplit_once (CHR ''@'') recipient of
        None \<Rightarrow> op_fail (StBadInput (''recipient '' @ recipient @ '' has no domain''))
      | Some (_, domain) \<Rightarrow>
          let item = \<lparr>qi_id = new_id, qi_account_id = acct, qi_blob_id = blob, qi_mail_from = mail_from,
                      qi_recipient = recipient, qi_domain = to_lowercase domain, qi_attempts = 0,
                      qi_next_attempt = now, qi_priority = min priority 1\<rparr>
          in op_bind (db_call (\<lambda>d.
               if \<not> has_account d acct then (Inl fk_error, d)
               else (case sql_insert q_id \<lparr>q_id = new_id, q_account_id = acct, q_blob_id = blob,
                         q_mail_from = mail_from, q_recipient = recipient, q_domain = to_lowercase domain,
                         q_attempts = 0, q_next_attempt = now, q_status = Queued, q_last_error = None,
                         q_priority = min priority 1, q_created_at = now, q_updated_at = now\<rparr> (queue d) of
                       None \<Rightarrow> (Inl unique_error, d)
                     | Some rows \<Rightarrow> (Inr (), d\<lparr>queue := rows\<rparr>))))
               (\<lambda>_. op_return item))"

definition enqueue :: "int \<Rightarrow> string \<Rightarrow> string \<Rightarrow> string \<Rightarrow> string \<Rightarrow> string \<Rightarrow> queue_item op" where
  "enqueue now new_id acct blob mail_from recipient = enqueue_with_priority now new_id acct blob mail_from recipient 0"

text \<open>\<open>WHERE status = 'queued' AND next_attempt <= now ORDER BY priority DESC, next_attempt LIMIT n\<close>.\<close>

definition due :: "int \<Rightarrow> queue_row \<Rightarrow> bool" where
  "due now r \<longleftrightarrow> q_status r = Queued \<and> q_next_attempt r \<le> now"

definition due_rows :: "int \<Rightarrow> nat \<Rightarrow> queue_row list \<Rightarrow> queue_row list" where
  "due_rows now limit rows =
     take limit (sort_key (\<lambda>r. - int (q_priority r)) (sort_key q_next_attempt (filter (due now) rows)))"

definition due_queue_items :: "int \<Rightarrow> nat \<Rightarrow> queue_item list op" where
  "due_queue_items now limit = db_call (\<lambda>d.
     let ids = map q_id (due_rows now limit (queue d))
     in (Inr (map row_to_item (filter (\<lambda>r. q_id r \<in> set ids) (queue d))),
         d\<lparr>queue := sql_update (\<lambda>r. q_id r \<in> set ids) (\<lambda>r. r\<lparr>q_status := Sending, q_updated_at := now\<rparr>) (queue d)\<rparr>))"

definition coalesce :: "'a option \<Rightarrow> 'a option \<Rightarrow> 'a option" where
  "coalesce a b = (case a of None \<Rightarrow> b | Some _ \<Rightarrow> a)"

fun outcome_columns :: "attempt_outcome \<Rightarrow> queue_status \<times> string option \<times> int option" where
  "outcome_columns OutDelivered = (Delivered, None, None)"
| "outcome_columns (OutRetry e t) = (Queued, Some e, Some t)"
| "outcome_columns (OutFailed e) = (Failed, Some e, None)"

definition record_attempt :: "int \<Rightarrow> string \<Rightarrow> attempt_outcome \<Rightarrow> unit op" where
  "record_attempt now qid outcome =
     (case outcome_columns outcome of (st, err, next) \<Rightarrow>
        db_call (\<lambda>d. (Inr (), d\<lparr>queue := sql_update (\<lambda>r. q_id r = qid)
          (\<lambda>r. r\<lparr>q_status := st, q_attempts := q_attempts r + 1,
                 q_last_error := coalesce err (q_last_error r),
                 q_next_attempt := (case next of Some t \<Rightarrow> t | None \<Rightarrow> q_next_attempt r),
                 q_updated_at := now\<rparr>) (queue d)\<rparr>)))"

definition reset_stale_claims :: "int \<Rightarrow> nat op" where
  "reset_stale_claims now = db_call (\<lambda>d. (Inr (sql_count (\<lambda>r. q_status r = Sending) (queue d)),
     d\<lparr>queue := sql_update (\<lambda>r. q_status r = Sending) (\<lambda>r. r\<lparr>q_status := Queued, q_updated_at := now\<rparr>) (queue d)\<rparr>))"

definition queue_overview :: "(string \<times> string \<times> queue_status \<times> nat \<times> int \<times> string option) list op" where
  "queue_overview = db_call (\<lambda>d. (Inr (map (\<lambda>r. (q_id r, q_recipient r, q_status r, q_attempts r, q_next_attempt r, q_last_error r))
     (sort_key q_next_attempt (filter (\<lambda>r. q_status r = Queued \<or> q_status r = Sending) (queue d)))), d))"

definition queue_status_of :: "string \<Rightarrow> (queue_status \<times> nat \<times> string option) option op" where
  "queue_status_of qid = db_call (\<lambda>d. (Inr (map_option (\<lambda>r. (q_status r, q_attempts r, q_last_error r))
     (sql_select (\<lambda>r. q_id r = qid) (queue d))), d))"

section \<open>Lemmas\<close>

lemma due_rows_due: "r \<in> set (due_rows now limit rows) \<Longrightarrow> r \<in> set rows \<and> due now r"
  by (auto simp: due_rows_def dest: in_set_takeD)

lemma length_due_rows: "length (due_rows now limit rows) \<le> limit"
  by (simp add: due_rows_def)

text \<open>The claim, as a step on the queue.\<close>

definition claim :: "int \<Rightarrow> nat \<Rightarrow> queue_row list \<Rightarrow> queue_item list \<times> queue_row list" where
  "claim now limit rows =
     (let ids = q_id ` set (due_rows now limit rows)
      in (map row_to_item (filter (\<lambda>r. q_id r \<in> ids) rows),
          sql_update (\<lambda>r. q_id r \<in> ids) (\<lambda>r. r\<lparr>q_status := Sending, q_updated_at := now\<rparr>) rows))"

lemma due_queue_items_ok:
  assumes "due_queue_items now limit d = (Inr items, d')"
  shows "claim now limit (queue d) = (items, queue d')"
  using assms unfolding due_queue_items_def by (auto simp: claim_def Let_def dest!: db_call_okD)

lemma keys_unique_claim: "keys_unique q_id rows \<Longrightarrow> keys_unique q_id (snd (claim now limit rows))"
  by (simp add: claim_def Let_def keys_unique_update)

lemma claim_keys: "map q_id (snd (claim now limit rows)) = map q_id rows"
  by (simp add: claim_def Let_def map_key_update)

text \<open>Claimed rows were queued and are sending afterwards; the others are untouched.\<close>

lemma claimed_due:
  assumes "keys_unique q_id rows" "i \<in> set (fst (claim now limit rows))"
  obtains r where "r \<in> set rows" "i = row_to_item r" "due now r"
proof -
  obtain r s where r: "r \<in> set rows" "i = row_to_item r" "q_id r = q_id s" "s \<in> set (due_rows now limit rows)"
    using assms(2) by (auto simp: claim_def Let_def)
  have "s = r" using keys_unique_eq[OF assms(1)] r due_rows_due[OF r(4)] by metis
  with r due_rows_due[OF r(4)] that show thesis by blast
qed

lemma claim_sending:
  assumes "r \<in> set (snd (claim now limit rows))" "q_id r \<in> qi_id ` set (fst (claim now limit rows))"
  shows "q_status r = Sending"
proof -
  have "q_id r \<in> q_id ` set (due_rows now limit rows)"
    using assms(2) by (auto simp: claim_def Let_def row_to_item_def)
  then show ?thesis using assms(1) unfolding claim_def Let_def snd_conv
    by (elim sql_updateE) simp_all
qed

lemma claim_keeps:
  assumes "keys_unique q_id rows" "r \<in> set rows" "q_status r \<noteq> Queued"
  shows "r \<in> set (snd (claim now limit rows)) \<and> q_id r \<notin> qi_id ` set (fst (claim now limit rows))"
proof -
  have "q_id r \<notin> q_id ` set (due_rows now limit rows)"
  proof
    assume "q_id r \<in> q_id ` set (due_rows now limit rows)"
    then obtain s where "s \<in> set (due_rows now limit rows)" "q_id r = q_id s" by blast
    with due_rows_due have s: "s \<in> set rows" "due now s" by blast+
    with keys_unique_eq[OF assms(1,2) s(1)] \<open>q_id r = q_id s\<close> assms(3) show False by (simp add: due_def)
  qed
  then show ?thesis
    using assms(2) by (auto simp: claim_def Let_def sql_update_def row_to_item_def image_iff intro!: bexI[of _ r])
qed

text \<open>The claimed rows are the due ones.\<close>

lemma claimed_iff:
  assumes "keys_unique q_id rows" "r \<in> set rows"
  shows "q_id r \<in> q_id ` set (due_rows now limit rows) \<longleftrightarrow> r \<in> set (due_rows now limit rows)"
  using keys_unique_eq[OF assms] due_rows_due by blast

lemma length_claimed:
  assumes "keys_unique q_id rows"
  shows "length (fst (claim now limit rows)) = length (due_rows now limit rows)"
proof -
  let ?due = "due_rows now limit rows" and ?c = "filter (\<lambda>r. q_id r \<in> q_id ` set (due_rows now limit rows)) rows"
  have "distinct rows" using assms by (simp add: keys_unique_def distinct_map)
  then have "distinct ?due" "distinct ?c" by (simp_all add: due_rows_def)
  moreover have "set ?c = set ?due" using claimed_iff[OF assms] due_rows_due by fastforce
  ultimately have "length ?c = length ?due" by (metis distinct_card)
  then show ?thesis by (simp add: claim_def Let_def)
qed

text \<open>A run of claims, by any workers at any times.\<close>

fun claims :: "(int \<times> nat) list \<Rightarrow> queue_row list \<Rightarrow> queue_item list" where
  "claims [] rows = []"
| "claims ((now, limit) # cs) rows = fst (claim now limit rows) @ claims cs (snd (claim now limit rows))"

lemma distinct_claimed: "keys_unique q_id rows \<Longrightarrow> distinct (map qi_id (fst (claim now limit rows)))"
proof -
  have "map qi_id (fst (claim now limit rows)) = map q_id (filter (\<lambda>r. q_id r \<in> q_id ` set (due_rows now limit rows)) rows)"
    by (simp add: claim_def Let_def row_to_item_def)
  then show "keys_unique q_id rows \<Longrightarrow> ?thesis" by (simp add: keys_unique_def distinct_map_filter)
qed

lemma claims_avoid:
  "keys_unique q_id rows \<Longrightarrow> r \<in> set rows \<Longrightarrow> q_status r \<noteq> Queued \<Longrightarrow> q_id r \<notin> qi_id ` set (claims cs rows)"
proof (induction cs rows rule: claims.induct)
  case (2 now limit cs rows)
  note k = claim_keeps[OF 2(2-4), of now limit]
  have "q_id r \<notin> qi_id ` set (claims cs (snd (claim now limit rows)))"
    by (rule 2(1)[OF keys_unique_claim[OF 2(2)] conjunct1[OF k] 2(4)])
  with k show ?case by (simp add: image_Un)
qed simp

lemma claims_distinct: "keys_unique q_id rows \<Longrightarrow> distinct (map qi_id (claims cs rows))"
proof (induction cs rows rule: claims.induct)
  case (2 now limit cs rows)
  let ?rows = "snd (claim now limit rows)"
  have u: "keys_unique q_id ?rows" by (rule keys_unique_claim[OF 2(2)])
  have "qi_id i \<notin> qi_id ` set (claims cs ?rows)" if i: "i \<in> set (fst (claim now limit rows))" for i
  proof -
    obtain r where "r \<in> set rows" "i = row_to_item r" using claimed_due[OF 2(2) i] by blast
    then have "qi_id i \<in> set (map q_id rows)" by (auto simp: row_to_item_def)
    then obtain s where s: "s \<in> set ?rows" "q_id s = qi_id i" unfolding claim_keys[of now limit rows, symmetric] by auto
    have "q_status s = Sending" by (rule claim_sending[OF s(1)]) (use s(2) i in auto)
    with claims_avoid[OF u s(1)] s(2) show ?thesis by simp
  qed
  with 2(1)[OF u] distinct_claimed[OF 2(2)] show ?case by auto
qed simp

text \<open>A row that is due and not claimed leaves the claim full, with rows of at least its priority.\<close>

lemma sorted_take_drop:
  assumes "sorted (map f xs)" "x \<in> set (take n xs)" "y \<in> set (drop n xs)"
  shows "f x \<le> f y"
proof -
  have "sorted (map f (take n xs) @ map f (drop n xs))" using assms(1) by (metis append_take_drop_id map_append)
  with assms(2,3) show ?thesis by (auto simp: sorted_append)
qed

lemma claim_fair:
  assumes "r \<in> set rows" "due now r" "r \<notin> set (due_rows now limit rows)"
  shows "length (due_rows now limit rows) = limit \<and> (\<forall>s \<in> set (due_rows now limit rows). q_priority r \<le> q_priority s)"
proof -
  let ?xs = "sort_key (\<lambda>r. - int (q_priority r)) (sort_key q_next_attempt (filter (due now) rows))"
  have "r \<in> set ?xs" using assms(1,2) by simp
  then have "r \<in> set (take limit ?xs) \<union> set (drop limit ?xs)" by (metis append_take_drop_id set_append)
  then have "r \<in> set (drop limit ?xs)" using assms(3) by (simp add: due_rows_def)
  moreover have "sorted (map (\<lambda>r. - int (q_priority r)) ?xs)" by simp
  ultimately have "\<forall>s \<in> set (take limit ?xs). - int (q_priority s) \<le> - int (q_priority r)"
    using sorted_take_drop[of "\<lambda>r. - int (q_priority r)" ?xs] by simp
  moreover have "limit < length ?xs" using \<open>r \<in> set (drop limit ?xs)\<close> by (metis drop_all empty_iff leI list.set(1))
  ultimately show ?thesis by (simp add: due_rows_def)
qed

section \<open>Properties\<close>

text \<open>The items handed out by a sequence of polls, by any workers, at any times and with any
  failures.\<close>

fun poll_all :: "(int \<times> nat) list \<Rightarrow> db \<Rightarrow> queue_item list" where
  "poll_all [] d = []"
| "poll_all ((now, limit) # cs) d =
     (case due_queue_items now limit d of
        (Inr items, d') \<Rightarrow> items @ poll_all cs d'
      | (Inl _, d') \<Rightarrow> poll_all cs d')"

lemma due_queue_items_err: "due_queue_items now limit d = (Inl e, d') \<Longrightarrow> queue d' = queue d"
  unfolding due_queue_items_def by (auto elim!: db_call_cases simp: Let_def)

lemma poll_all_claims: "\<exists>cs'. poll_all cs d = claims cs' (queue d)"
proof (induction cs d rule: poll_all.induct)
  case (1 d)
  have "poll_all [] d = claims [] (queue d)" by simp
  then show ?case ..
next
  case (2 now limit cs d)
  obtain x d' where x: "due_queue_items now limit d = (x, d')" by (meson surj_pair)
  show ?case
  proof (cases x)
    case (Inl e)
    with x 2 due_queue_items_err show ?thesis by fastforce
  next
    case (Inr items)
    with x 2 obtain cs' where "poll_all cs d' = claims cs' (queue d')" by fastforce
    with Inr x due_queue_items_ok[of now limit d items d']
    have "poll_all ((now, limit) # cs) d = claims ((now, limit) # cs') (queue d)" by simp
    then show ?thesis ..
  qed
qed

text \<open>Polling hands a queued delivery to one worker only: over any sequence of polls by any number
  of workers, with no outcome recorded in between, no item is handed out twice. Each poll returns only
  items that are queued and due, at most as many as asked for, and when it leaves out a due item it is
  full and every item it returns has at least the priority of the one left out, so chat mail goes
  first.\<close>

lemma claims_exclusive:
  assumes "keys_unique q_id (queue d)"
  shows "distinct (map qi_id (poll_all cs d)) \<and>
    (\<forall>now limit items d'. due_queue_items now limit d = (Inr items, d') \<longrightarrow>
       length items \<le> limit \<and> (\<forall>i \<in> set items. \<exists>r \<in> set (queue d). i = row_to_item r \<and> due now r) \<and>
       (\<forall>r \<in> set (queue d). due now r \<and> row_to_item r \<notin> set items \<longrightarrow>
          length items = limit \<and> (\<forall>s \<in> set (queue d). row_to_item s \<in> set items \<longrightarrow> q_priority r \<le> q_priority s)))"
proof -
  have "distinct (map qi_id (poll_all cs d))" using poll_all_claims claims_distinct[OF assms] by metis
  moreover have "length items \<le> limit \<and> (\<forall>i \<in> set items. \<exists>r \<in> set (queue d). i = row_to_item r \<and> due now r) \<and>
       (\<forall>r \<in> set (queue d). due now r \<and> row_to_item r \<notin> set items \<longrightarrow>
          length items = limit \<and> (\<forall>s \<in> set (queue d). row_to_item s \<in> set items \<longrightarrow> q_priority r \<le> q_priority s))"
    if "due_queue_items now limit d = (Inr items, d')" for now limit items d'
  proof -
    let ?rows = "queue d" and ?due = "due_rows now limit (queue d)"
    have items: "items = map row_to_item (filter (\<lambda>r. q_id r \<in> q_id ` set ?due) ?rows)"
      using due_queue_items_ok[OF that] by (simp add: claim_def Let_def)
    note mem = claimed_iff[OF assms]
    have len: "length items = length ?due" using length_claimed[OF assms, of now limit] by (simp add: items claim_def Let_def)
    have in_items: "row_to_item r \<in> set items \<longleftrightarrow> r \<in> set ?due" if "r \<in> set ?rows" for r
    proof
      assume "row_to_item r \<in> set items"
      then obtain s where "s \<in> set ?rows" "q_id s \<in> q_id ` set ?due" "row_to_item r = row_to_item s" by (auto simp: items)
      then show "r \<in> set ?due" using mem that keys_unique_eq[OF assms that] by (metis queue_item.select_convs(1) row_to_item_def)
    qed (use that in \<open>auto simp: items\<close>)
    have "\<exists>r \<in> set ?rows. i = row_to_item r \<and> due now r" if "i \<in> set items" for i
      using that mem due_rows_due by (fastforce simp: items)
    with len in_items claim_fair length_due_rows[of now limit ?rows] show ?thesis by metis
  qed
  ultimately show ?thesis by blast
qed

definition demo_row :: "string \<Rightarrow> int \<Rightarrow> nat \<Rightarrow> queue_row" where
  "demo_row i t p = \<lparr>q_id = i, q_account_id = ''a1'', q_blob_id = ''b'', q_mail_from = ''a@x'', q_recipient = ''r@y'',
     q_domain = ''y'', q_attempts = 0, q_next_attempt = t, q_status = Queued, q_last_error = None, q_priority = p,
     q_created_at = 0, q_updated_at = 0\<rparr>"

definition demo_queue_db :: db where
  "demo_queue_db = empty_db\<lparr>queue := [demo_row ''1'' 3 0, demo_row ''2'' 5 1, demo_row ''3'' 90 0]\<rparr>"

lemma claims_exclusive_witness:
  "map qi_id (poll_all [(10, 1), (10, 16), (10, 16)] demo_queue_db) = [''2'', ''1''] \<and>
   distinct (map qi_id (poll_all [(10, 1), (10, 16), (10, 16)] demo_queue_db))"
proof -
  have "keys_unique q_id (queue demo_queue_db)" by code_simp
  note p = claims_exclusive[OF this, of "[(10, 1), (10, 16), (10, 16)]"]
  have "map qi_id (poll_all [(10, 1), (10, 16), (10, 16)] demo_queue_db) = [''2'', ''1'']" by code_simp
  with p show ?thesis by blast
qed

end
