(* ===== verification/Core_Time.thy ===== *)
theory Core_Time
  imports Prelude
begin

text \<open>
  \<open>crates/owney-core/src/time.rs\<close>: dates of mail headers and of JMAP, from seconds since the epoch. Rust's
  \<open>/\<close> on numbers that are not negative is \<open>div\<close>, as is \<open>div_euclid\<close>.
\<close>

section \<open>Definitions\<close>

definition civil_from_days :: "int \<Rightarrow> int \<times> int \<times> int" where
  "civil_from_days z0 =
     (let z = z0 + 719468;
          era = z div 146097;
          doe = z mod 146097;
          yoe = (doe - doe div 1460 + doe div 36524 - doe div 146096) div 365;
          y = yoe + era * 400;
          doy = doe - (365 * yoe + yoe div 4 - yoe div 100);
          mp = (5 * doy + 2) div 153;
          d = doy - (153 * mp + 2) div 5 + 1;
          m = (if mp < 10 then mp + 3 else mp - 9)
      in (if m \<le> 2 then y + 1 else y, m, d))"

definition WEEKDAYS :: "string list" where
  "WEEKDAYS = [''Sun'', ''Mon'', ''Tue'', ''Wed'', ''Thu'', ''Fri'', ''Sat'']"

definition MONTHS :: "string list" where
  "MONTHS = [''Jan'', ''Feb'', ''Mar'', ''Apr'', ''May'', ''Jun'', ''Jul'', ''Aug'', ''Sep'', ''Oct'', ''Nov'', ''Dec'']"

text \<open>\<open>{:0w}\<close>.\<close>

definition pad :: "nat \<Rightarrow> int \<Rightarrow> string" where
  "pad w n = (let s = show_nat (nat \<bar>n\<bar>)
     in (if n < 0 then [CHR ''-''] else []) @ replicate (w - length s - (if n < 0 then 1 else 0)) (CHR ''0'') @ s)"

definition rfc2822_utc :: "int \<Rightarrow> string" where
  "rfc2822_utc unix =
     (let days = unix div 86400; secs = unix mod 86400;
          (year, month, day) = civil_from_days days;
          weekday = nat ((days + 4) mod 7)
      in WEEKDAYS ! weekday @ '', '' @ pad 2 day @ '' '' @ MONTHS ! nat (month - 1) @ '' '' @ show_int year @ '' '' @
         pad 2 (secs div 3600) @ '':'' @ pad 2 (secs mod 3600 div 60) @ '':'' @ pad 2 (secs mod 60) @ '' +0000'')"

definition iso8601_utc :: "int \<Rightarrow> string" where
  "iso8601_utc unix =
     (let days = unix div 86400; secs = unix mod 86400; (year, month, day) = civil_from_days days
      in pad 4 year @ ''-'' @ pad 2 month @ ''-'' @ pad 2 day @ ''T'' @
         pad 2 (secs div 3600) @ '':'' @ pad 2 (secs mod 3600 div 60) @ '':'' @ pad 2 (secs mod 60) @ ''Z'')"

section \<open>The Gregorian calendar\<close>

definition leap :: "int \<Rightarrow> bool" where
  "leap y \<longleftrightarrow> y mod 4 = 0 \<and> y mod 100 \<noteq> 0 \<or> y mod 400 = 0"

definition month_length :: "int \<Rightarrow> int \<Rightarrow> int" where
  "month_length y m = (if m = 2 then if leap y then 29 else 28 else if m \<in> {4, 6, 9, 11} then 30 else 31)"

definition days_before_month :: "int \<Rightarrow> int \<Rightarrow> int" where
  "days_before_month y m = sum_list (map (month_length y) [1..m - 1])"

text \<open>The number of the day since 1 January 1970.\<close>

definition day_number :: "int \<Rightarrow> int \<Rightarrow> int \<Rightarrow> int" where
  "day_number y m d = 365 * (y - 1) + (y - 1) div 4 - (y - 1) div 100 + (y - 1) div 400 + days_before_month y m + (d - 1) - 719162"

text \<open>Years counted from March: the day a year of the 400-year cycle starts on.\<close>

definition year_start :: "int \<Rightarrow> int" where
  "year_start y = 365 * y + y div 4 - y div 100"

definition spread :: "int \<Rightarrow> int" where
  "spread doe = doe - doe div 1460 + doe div 36524 - doe div 146096"

definition year_last :: "int \<Rightarrow> int" where
  "year_last y = (if y = 399 then 146096 else year_start (y + 1) - 1)"

lemma spread_step:
  assumes "0 \<le> a" "a < 146096"
  shows "spread a \<le> spread (a + 1)"
proof (cases "a = 146095")
  case True
  then show ?thesis by (simp add: spread_def)
next
  case False
  have "(a + 1) div 1460 \<le> (a + 1460) div 1460" by (rule zdiv_mono1) simp_all
  then have "(a + 1) div 1460 \<le> a div 1460 + 1" by simp
  moreover have "a div 36524 \<le> (a + 1) div 36524" by (rule zdiv_mono1) simp_all
  moreover have "a div 146096 = 0" "(a + 1) div 146096 = 0" using assms False by simp_all
  ultimately show ?thesis unfolding spread_def by linarith
qed

lemma spread_mono: "0 \<le> a \<Longrightarrow> a \<le> b \<Longrightarrow> b \<le> 146096 \<Longrightarrow> spread a \<le> spread b"
proof (induction "nat (b - a)" arbitrary: b)
  case 0
  then show ?case by simp
next
  case (Suc n)
  then have "spread a \<le> spread (b - 1)" by simp
  also have "\<dots> \<le> spread b" using spread_step[of "b - 1"] Suc by simp
  finally show ?case .
qed

lemma years_ok: "list_all (\<lambda>y. spread (year_start y) div 365 = y \<and> spread (year_last y) div 365 = y \<and>
    year_start y \<le> year_last y \<and> year_last y \<le> year_start y + (if leap (y + 1) then 365 else 364)) [0..399]"
  by code_simp

lemma months_ok: "list_all (\<lambda>doy. let mp = (5 * doy + 2) div 153; d = doy - (153 * mp + 2) div 5 + 1;
      m = (if mp < 10 then mp + 3 else mp - 9) in 1 \<le> m \<and> m \<le> 12 \<and> 1 \<le> d \<and>
      d \<le> (if m = 2 then if doy = 365 then 29 else 28 else if m = 4 \<or> m = 6 \<or> m = 9 \<or> m = 11 then 30 else 31)) [0..365]"
  by code_simp

lemma year_ok:
  assumes "0 \<le> y" "y \<le> 399"
  shows "spread (year_start y) div 365 = y" "spread (year_last y) div 365 = y" "year_last y \<le> 146096"
    "year_last y \<le> year_start y + (if leap (y + 1) then 365 else 364)" "0 \<le> year_start y"
proof -
  have y: "y \<in> set [0..399]" using assms by simp
  show "spread (year_start y) div 365 = y" "spread (year_last y) div 365 = y"
    "year_last y \<le> year_start y + (if leap (y + 1) then 365 else 364)"
    using years_ok y unfolding list_all_iff by blast+
  show "year_last y \<le> 146096" "0 \<le> year_start y" using assms by (auto simp: year_last_def year_start_def)
qed

lemma year_of_day:
  assumes "0 \<le> doe" "doe \<le> 146096"
  obtains y where "0 \<le> y" "y \<le> 399" "year_start y \<le> doe" "doe \<le> year_last y"
proof -
  have "\<exists>y. 0 \<le> y \<and> y \<le> 399 \<and> year_start y \<le> doe \<and> doe \<le> year_last y" if "n \<le> 400" "doe < (if n = 400 then 146097 else year_start (int n))" for n
    using that
  proof (induction n)
    case 0
    then show ?case using assms by (simp add: year_start_def)
  next
    case (Suc n)
    show ?case
    proof (cases "doe < year_start (int n)")
      case True
      then show ?thesis using Suc by auto
    next
      case False
      then show ?thesis using Suc.prems by (intro exI[of _ "int n"]) (auto simp: year_last_def add.commute split: if_splits)
    qed
  qed
  from this[of 400] show thesis using assms that by auto
qed

lemma year_of_doe:
  assumes "0 \<le> doe" "doe \<le> 146096" "yoe = spread doe div 365"
  shows "0 \<le> yoe \<and> yoe \<le> 399 \<and> year_start yoe \<le> doe \<and> doe \<le> year_last yoe"
proof -
  obtain y where y: "0 \<le> y" "y \<le> 399" "year_start y \<le> doe" "doe \<le> year_last y" using year_of_day[OF assms(1,2)] .
  note ok = year_ok[OF y(1,2)]
  have "spread (year_start y) \<le> spread doe" "spread doe \<le> spread (year_last y)"
    using spread_mono y assms ok by simp_all
  then have "spread (year_start y) div 365 \<le> spread doe div 365" "spread doe div 365 \<le> spread (year_last y) div 365"
    by (simp_all add: zdiv_mono1)
  then have "yoe = y" using ok assms(3) by simp
  then show ?thesis using y by simp
qed

text \<open>The month and day of a day of a year that starts in March, as a day of the calendar year.\<close>

lemma days_before_month_simps:
  "days_before_month y 1 = 0" "days_before_month y 2 = 31" "m \<ge> 3 \<Longrightarrow> m \<le> 12 \<Longrightarrow>
   days_before_month y m = (if leap y then 60 else 59) + (153 * (m - 3) + 2) div 5"
proof -
  show "days_before_month y 1 = 0" "days_before_month y 2 = 31" by (simp_all add: days_before_month_def month_length_def)
  assume "m \<ge> 3" "m \<le> 12"
  then have "m = 3 \<or> m = 4 \<or> m = 5 \<or> m = 6 \<or> m = 7 \<or> m = 8 \<or> m = 9 \<or> m = 10 \<or> m = 11 \<or> m = 12" by presburger
  then show "days_before_month y m = (if leap y then 60 else 59) + (153 * (m - 3) + 2) div 5"
    by (elim disjE) (simp_all add: days_before_month_def month_length_def upto_rec1)
qed

lemma div_pred: "0 < k \<Longrightarrow> (y - 1) div k = y div k - (if y mod k = 0 then 1 else 0)" for y k :: int
proof -
  assume k: "0 < k"
  have y: "y = k * (y div k) + y mod k" by simp
  show ?thesis
  proof (cases "y mod k = 0")
    case True
    then have "y - 1 = k * (y div k - 1) + (k - 1)" using y by (simp add: algebra_simps)
    then have "(y - 1) div k = y div k - 1" by (rule int_div_pos_eq) (use k in auto)
    then show ?thesis using True by simp
  next
    case False
    then have "y mod k > 0" using k pos_mod_sign[of k y] by linarith
    moreover have "y - 1 = k * (y div k) + (y mod k - 1)" using y by linarith
    ultimately have "(y - 1) div k = y div k" using pos_mod_bound[OF k, of y] by (intro int_div_pos_eq[of "y - 1" k "y div k" "y mod k - 1"]) linarith+
    then show ?thesis using False by simp
  qed
qed

lemma leap_days: "y div 4 - y div 100 + y div 400 = (y - 1) div 4 - (y - 1) div 100 + (y - 1) div 400 + (if leap y then 1 else 0)"
proof -
  have "y mod 100 = 0 \<Longrightarrow> y mod 4 = 0" "y mod 400 = 0 \<Longrightarrow> y mod 100 = 0" by presburger+
  then show ?thesis by (auto simp: div_pred leap_def)
qed

lemma leap_cycle: "leap (y + era * 400) = leap y"
proof -
  have "(y + era * 400) mod 4 = y mod 4" "(y + era * 400) mod 100 = y mod 100" "(y + era * 400) mod 400 = y mod 400"
    using mod_mult_self1[of y "era * 100" 4] mod_mult_self1[of y "era * 4" 100] by (simp_all add: mult.assoc)
  then show ?thesis by (simp add: leap_def)
qed

lemma year_days_cycle:
  assumes "0 \<le> y" "y < 400"
  shows "365 * (y + era * 400) + (y + era * 400) div 4 - (y + era * 400) div 100 + (y + era * 400) div 400 = 146097 * era + year_start y"
proof -
  have "(y + era * 400) div 4 = y div 4 + era * 100" "(y + era * 400) div 100 = y div 100 + era * 4"
    using div_mult_self1[of 4 y "era * 100"] div_mult_self1[of 100 y "era * 4"] by (simp_all add: mult.assoc)
  moreover have "(y + era * 400) div 400 = era" using assms by simp
  ultimately show ?thesis by (simp add: year_start_def)
qed

lemma month_ok:
  fixes doy :: int
  assumes "0 \<le> doy" "doy \<le> 365" "mp = (5 * doy + 2) div 153" "d = doy - (153 * mp + 2) div 5 + 1" "m = (if mp < 10 then mp + 3 else mp - 9)"
  shows "1 \<le> m" "m \<le> 12" "1 \<le> d" "d \<le> (if m = 2 then if doy = 365 then 29 else 28 else if m = 4 \<or> m = 6 \<or> m = 9 \<or> m = 11 then 30 else 31)"
    "doy = (if m \<le> 2 then 306 + 31 * (m - 1) else (153 * (m - 3) + 2) div 5) + d - 1"
proof -
  have "doy \<in> set [0..365]" using assms by simp
  then have *: "1 \<le> m \<and> m \<le> 12 \<and> 1 \<le> d \<and> d \<le> (if m = 2 then if doy = 365 then 29 else 28 else if m = 4 \<or> m = 6 \<or> m = 9 \<or> m = 11 then 30 else 31)"
    using months_ok unfolding list_all_iff Let_def assms(3-5) by blast
  then show "1 \<le> m" "m \<le> 12" "1 \<le> d" "d \<le> (if m = 2 then if doy = 365 then 29 else 28 else if m = 4 \<or> m = 6 \<or> m = 9 \<or> m = 11 then 30 else 31)" by blast+
  have "(5 * doy + 2) div 153 \<le> (5 * 365 + 2) div 153" "0 \<le> (5 * doy + 2) div 153"
    using assms(1,2) by (intro zdiv_mono1, simp_all add: pos_imp_zdiv_nonneg_iff)
  then have "0 \<le> mp" "mp \<le> 11" using assms(3) by simp_all
  then have "mp = m + 9 \<and> m \<le> 2 \<or> mp = m - 3 \<and> m \<ge> 3" using assms(5) by (auto split: if_splits)
  then have "(153 * mp + 2) div 5 = (if m \<le> 2 then 306 + 31 * (m - 1) else (153 * (m - 3) + 2) div 5)"
  proof (elim disjE conjE)
    assume "mp = m + 9" "m \<le> 2"
    moreover have "m = 1 \<or> m = 2" using \<open>m \<le> 2\<close> * by linarith
    ultimately show ?thesis by auto
  qed simp
  then show "doy = (if m \<le> 2 then 306 + 31 * (m - 1) else (153 * (m - 3) + 2) div 5) + d - 1" using assms(4) by simp
qed

lemma civil_from_days_ok:
  "case civil_from_days z of (y, m, d) \<Rightarrow>
     1 \<le> m \<and> m \<le> 12 \<and> 1 \<le> d \<and> d \<le> month_length y m \<and> day_number y m d = z"
proof -
  define era where "era = (z + 719468) div 146097"
  define doe where "doe = (z + 719468) mod 146097"
  define yoe where "yoe = spread doe div 365"
  define doy where "doy = doe - year_start yoe"
  define mp where "mp = (5 * doy + 2) div 153"
  define d where "d = doy - (153 * mp + 2) div 5 + 1"
  define m where "m = (if mp < 10 then mp + 3 else mp - 9)"
  define y where "y = (if m \<le> 2 then yoe + era * 400 + 1 else yoe + era * 400)"
  have civil: "civil_from_days z = (y, m, d)"
    by (simp only: civil_from_days_def Let_def y_def m_def d_def mp_def doy_def yoe_def spread_def year_start_def doe_def era_def)
  have "0 \<le> doe" "doe \<le> 146096" by (simp_all add: doe_def)
  note yr = year_of_doe[OF this yoe_def]
  have z: "z + 719468 = 146097 * era + doe" by (simp add: era_def doe_def)
  have doy: "0 \<le> doy" "doy \<le> 365" "doy = 365 \<Longrightarrow> leap (yoe + 1)"
    using yr year_ok(4)[of yoe] by (auto simp: doy_def split: if_splits)
  note mo = month_ok[OF doy(1,2) mp_def d_def m_def]
  have lp: "leap (yoe + era * 400 + 1) = leap (yoe + 1)" using leap_cycle[of "yoe + 1" era] by (simp add: algebra_simps)
  have "d \<le> month_length y m"
    using mo(4) doy(3) lp unfolding month_length_def y_def by (auto split: if_splits)
  moreover have "day_number y m d = z"
  proof (cases "m \<le> 2")
    case True
    then have "m = 1 \<or> m = 2" using mo(1) by linarith
    then have b: "days_before_month y m = 31 * (m - 1)" by (auto simp: days_before_month_simps)
    have "y - 1 = yoe + era * 400" using True by (simp add: y_def)
    then have "365 * (y - 1) + (y - 1) div 4 - (y - 1) div 100 + (y - 1) div 400 = 146097 * era + year_start yoe"
      using year_days_cycle[of yoe era] yr by simp
    moreover have "doy = 306 + 31 * (m - 1) + d - 1" using mo(5) True by simp
    ultimately show ?thesis using z b unfolding day_number_def doy_def by linarith
  next
    case False
    then have b: "days_before_month y m = (if leap y then 60 else 59) + (153 * (m - 3) + 2) div 5" using mo(2) by (simp add: days_before_month_simps)
    have "y = yoe + era * 400" using False by (simp add: y_def)
    then have "365 * y + y div 4 - y div 100 + y div 400 = 146097 * era + year_start yoe"
      using year_days_cycle[of yoe era] yr by simp
    moreover have "doy = (153 * (m - 3) + 2) div 5 + d - 1" using mo(5) False by simp
    moreover have "365 * (y - 1) = 365 * y - 365" by simp
    moreover have "days_before_month y m - (if leap y then 1 else 0) = 59 + (153 * (m - 3) + 2) div 5" using b by simp
    ultimately show ?thesis using z leap_days[of y] unfolding day_number_def doy_def by linarith
  qed
  ultimately show ?thesis unfolding civil using mo by simp
qed

text \<open>C22. The date of a day number is right: \<open>civil_from_days\<close> gives, for every day, a valid date of the
  Gregorian calendar, and it is the date of that day, counted by years of 365 days, leap years and month
  lengths from 1 January 1970.\<close>

theorem civil_from_days_correct:
  "case civil_from_days z of (y, m, d) \<Rightarrow>
     1 \<le> m \<and> m \<le> 12 \<and> 1 \<le> d \<and> d \<le> month_length y m \<and> day_number y m d = z"
  by (rule civil_from_days_ok)

text \<open>A date is one line.\<close>

lemma show_nat_digits: "set (show_nat n) \<subseteq> {c. is_ascii_digit c}"
proof (induction n rule: less_induct)
  case (less n)
  have d: "is_ascii_digit (char_of (48 + k :: nat))" if "k < 10" for k
    using that by (auto simp: is_ascii_digit_def Let_def of_char_mod_256)
  show ?case
  proof (cases "n < 10")
    case True
    then show ?thesis using d by (simp add: show_nat.simps[of n])
  next
    case False
    then have "n div 10 < n" by simp
    from less[OF this] False show ?thesis using d[of "n mod 10"] by (subst show_nat.simps) auto
  qed
qed

definition date_char :: "char \<Rightarrow> bool" where
  "date_char c \<longleftrightarrow> is_ascii_digit c \<or> c \<in> set (''-, :+TZ'' @ concat WEEKDAYS @ concat MONTHS)"

lemma date_char_pad: "list_all date_char (pad w n)" "list_all date_char (show_int n)"
  using show_nat_digits[of "nat \<bar>n\<bar>"] show_nat_digits[of "nat n"] show_nat_digits[of "nat (- n)"]
  by (auto simp: pad_def show_int_def list_all_iff date_char_def Let_def is_ascii_digit_def)

lemma date_char_rfc2822: "list_all date_char (rfc2822_utc t)"
proof -
  obtain y m d where c: "civil_from_days (t div 86400) = (y, m, d)" by (metis prod_cases3)
  then have "1 \<le> m" "m \<le> 12" using civil_from_days_ok[of "t div 86400"] by simp_all
  then have m: "nat (m - 1) < length MONTHS" by (simp add: MONTHS_def)
  have w: "nat ((t div 86400 + 4) mod 7) < length WEEKDAYS" by (simp add: WEEKDAYS_def nat_less_iff)
  have "list_all date_char (MONTHS ! nat (m - 1))" "list_all date_char (WEEKDAYS ! nat ((t div 86400 + 4) mod 7))"
    using nth_mem[OF m] nth_mem[OF w] by (auto simp: list_all_iff date_char_def)
  then show ?thesis using c by (simp add: rfc2822_utc_def Let_def date_char_pad) (simp add: date_char_def is_ascii_digit_def)
qed

end
