(* ===== verification/Delivery_Worker.thy ===== *)
theory Delivery_Worker
  imports Queue_Store Core_Time
begin

text \<open>
  \<open>crates/owney-delivery/src\<close>: routing (\<open>router.rs\<close>), one delivery attempt, the retry decision, the
  bounce and the worker loop (\<open>worker.rs\<close>), and submission (\<open>lib.rs\<close>).

  Code outside the repository is a parameter: the DNS answers (record \<open>dns\<close>) and the SMTP client
  (record \<open>smtp_net\<close>), whose errors carry their rendered text. Parts of the repository that the model
  does not cover are parameters too (record \<open>mail_env\<close>): reading a blob, ingesting a message, the
  outbound PGP pipeline, the DKIM signature and the hash of an id.
\<close>

section \<open>Definitions\<close>

datatype delivery_error =
    DIo string
  | DDkim string
  | DDns string
  | DStorage storage_error
  | DPermanent string
  | DTemporary string

subsection \<open>Routing\<close>

record relay =
  host :: string
  port :: nat

record mx =
  preference :: nat
  exchange :: string
  is_root :: bool

datatype mx_lookup = MxAnswers "mx list" | NoRecordsFound | DnsFailure string

definition mx_resolve :: "(string \<Rightarrow> mx_lookup) \<Rightarrow> string \<Rightarrow> (delivery_error, relay list) result" where
  "mx_resolve dns domain =
     (case dns domain of
        MxAnswers records \<Rightarrow>
          if length records = 1 \<and> preference (records ! 0) = 0 \<and> is_root (records ! 0)
          then Inl (DPermanent (domain @ '' publishes a null MX (does not accept mail)''))
          else if records = [] then Inr [\<lparr>host = domain, port = 25\<rparr>]
          else Inr (map (\<lambda>m. \<lparr>host = trim_end_matches (CHR ''.'') (exchange m), port = 25\<rparr>) (sort_key preference records))
      | NoRecordsFound \<Rightarrow> Inr [\<lparr>host = domain, port = 25\<rparr>]
      | DnsFailure e \<Rightarrow> Inl (DDns e))"

definition static_resolve :: "relay \<Rightarrow> string \<Rightarrow> (delivery_error, relay list) result" where
  "static_resolve r domain = Inr [r]"

datatype any_router = Mx "string \<Rightarrow> mx_lookup" | Static relay

fun resolve :: "any_router \<Rightarrow> string \<Rightarrow> (delivery_error, relay list) result" where
  "resolve (Mx dns) domain = mx_resolve dns domain"
| "resolve (Static r) domain = static_resolve r domain"

subsection \<open>One attempt\<close>

datatype mail_error =
    AuthenticationFailed string
  | UnexpectedReply nat string string
  | OtherMailError string

fun rendered :: "mail_error \<Rightarrow> string" where
  "rendered (AuthenticationFailed s) = s"
| "rendered (UnexpectedReply code s dbg) = s"
| "rendered (OtherMailError s) = s"

record smtp_net =
  net_builder :: "relay \<Rightarrow> string option"
  net_connect :: "relay \<Rightarrow> (mail_error, unit) result"
  net_connect_plain :: "relay \<Rightarrow> (mail_error, unit) result"
  net_send :: "relay \<Rightarrow> bool \<Rightarrow> string \<Rightarrow> string \<Rightarrow> string \<Rightarrow> (mail_error, unit) result"

record mail_env =
  get_blob :: "string \<Rightarrow> (storage_error, string) result"
  ingest_email :: "string \<Rightarrow> string \<Rightarrow> string \<Rightarrow> string op"
  pgp_outbound :: "string \<Rightarrow> string \<Rightarrow> string list \<Rightarrow> string \<Rightarrow> (string, string) result"
  dkim_sign :: "string \<Rightarrow> (delivery_error, string) result"
  id_hash :: "string \<Rightarrow> nat"

text \<open>The first token shaped \<open>N.N.N\<close>.\<close>

definition enhanced_token :: "string \<Rightarrow> bool" where
  "enhanced_token tok \<longleftrightarrow> length tok = 5 \<and> is_ascii_digit (tok ! 0) \<and> tok ! 1 = CHR ''.'' \<and>
     is_ascii_digit (tok ! 2) \<and> tok ! 3 = CHR ''.'' \<and> is_ascii_digit (tok ! 4)"

definition parse_enhanced_status :: "string \<Rightarrow> string option" where
  "parse_enhanced_status err = find enhanced_token (split_whitespace err)"

definition map_send_error :: "mail_error \<Rightarrow> delivery_error" where
  "map_send_error err =
     (let r = rendered err;
          fallback = (case err of
                        UnexpectedReply code _ _ \<Rightarrow> if code \<ge> 500 then DPermanent r else DTemporary r
                      | _ \<Rightarrow> DTemporary r)
      in case err of
           AuthenticationFailed _ \<Rightarrow> DPermanent r
         | _ \<Rightarrow>
             (case parse_enhanced_status r of
                Some code \<Rightarrow>
                  if code ! 0 = CHR ''5'' then (if code ! 2 = CHR ''2'' then DTemporary r else DPermanent r)
                  else if code ! 0 = CHR ''4'' then DTemporary r
                  else fallback
              | None \<Rightarrow> fallback))"

definition deliver_to :: "smtp_net \<Rightarrow> relay \<Rightarrow> queue_item \<Rightarrow> string \<Rightarrow> (delivery_error, unit) result" where
  "deliver_to net r item raw =
     (case net_builder net r of
        Some e \<Rightarrow> Inl (DDns e)
      | None \<Rightarrow>
          let send = (\<lambda>tls. map_sum map_send_error id (net_send net r tls (qi_mail_from item) (qi_recipient item) raw))
          in case net_connect net r of
               Inr _ \<Rightarrow> send True
             | Inl (UnexpectedReply code rend dbg) \<Rightarrow>
                 if code \<ge> 500 then Inl (DPermanent (''rejected: '' @ dbg))
                 else (case net_connect_plain net r of Inl e \<Rightarrow> Inl (map_send_error e) | Inr _ \<Rightarrow> send False)
             | Inl _ \<Rightarrow> (case net_connect_plain net r of Inl e \<Rightarrow> Inl (map_send_error e) | Inr _ \<Rightarrow> send False))"

fun try_relays :: "smtp_net \<Rightarrow> queue_item \<Rightarrow> string \<Rightarrow> delivery_error option \<Rightarrow> relay list \<Rightarrow> (delivery_error, unit) result" where
  "try_relays net item raw last_error [] =
     Inl (case last_error of Some e \<Rightarrow> e | None \<Rightarrow> DTemporary ''no relay reachable'')"
| "try_relays net item raw last_error (r # rs) =
     (case deliver_to net r item raw of
        Inr _ \<Rightarrow> Inr ()
      | Inl (DPermanent e) \<Rightarrow> Inl (DPermanent e)
      | Inl e \<Rightarrow> try_relays net item raw (Some e) rs)"

definition attempt :: "mail_env \<Rightarrow> smtp_net \<Rightarrow> (string \<Rightarrow> (delivery_error, relay list) result) \<Rightarrow> queue_item \<Rightarrow> (delivery_error, unit) result" where
  "attempt env net router item =
     (case get_blob env (qi_blob_id item) of
        Inl e \<Rightarrow> Inl (DStorage e)
      | Inr raw \<Rightarrow>
          (case router (qi_domain item) of
             Inl e \<Rightarrow> Inl e
           | Inr relays \<Rightarrow>
               if relays = [] then Inl (DTemporary (''no relays for '' @ qi_domain item))
               else try_relays net item raw None relays))"

subsection \<open>The retry decision\<close>

definition BACKOFF :: "int list" where
  "BACKOFF = [60, 300, 1800, 7200, 14400, 14400, 28800, 43200, 61200]"

definition CHAT_BACKOFF :: "int list" where
  "CHAT_BACKOFF = [30, 120, 600, 3600, 3600, 3600, 3600, 3600, 3600]"

text \<open>\<open>Display\<close> of the error; \<open>show_st\<close> renders a storage error.\<close>

fun show_error :: "(storage_error \<Rightarrow> string) \<Rightarrow> delivery_error \<Rightarrow> string" where
  "show_error show_st (DIo p) = ''io error on '' @ p"
| "show_error show_st (DDkim e) = ''dkim: '' @ e"
| "show_error show_st (DDns e) = ''dns: '' @ e"
| "show_error show_st (DStorage e) = ''storage: '' @ show_st e"
| "show_error show_st (DPermanent e) = ''permanent failure: '' @ e"
| "show_error show_st (DTemporary e) = ''temporary failure: '' @ e"

text \<open>Division of signed integers truncates towards zero.\<close>

definition tdiv :: "int \<Rightarrow> int \<Rightarrow> int" where
  "tdiv a b = (if a < 0 then - ((- a) div b) else a div b)"

definition jitter :: "nat \<Rightarrow> int \<Rightarrow> int" where
  "jitter h delay = (let frac = int (h mod 21) - 10 in tdiv (delay * frac) 100)"

definition schedule :: "queue_item \<Rightarrow> int list" where
  "schedule item = (if qi_priority item = 1 then CHAT_BACKOFF else BACKOFF)"

definition decide :: "(storage_error \<Rightarrow> string) \<Rightarrow> nat \<Rightarrow> int \<Rightarrow> queue_item \<Rightarrow> (delivery_error, unit) result \<Rightarrow> attempt_outcome" where
  "decide show_st h now item result =
     (case result of
        Inr _ \<Rightarrow> OutDelivered
      | Inl (DPermanent e) \<Rightarrow> OutFailed e
      | Inl err \<Rightarrow>
          if qi_attempts item < length (schedule item)
          then (let delay = schedule item ! qi_attempts item
                in OutRetry (show_error show_st err) (now + delay + jitter h delay))
          else OutFailed (''retries exhausted: '' @ show_error show_st err))"

subsection \<open>The bounce\<close>

definition strip_breaks :: "string \<Rightarrow> string \<Rightarrow> string" where
  "strip_breaks rep s = concat (map (\<lambda>c. if c = CR \<or> c = LF then rep else [c]) s)"

definition dsn_lines :: "string \<Rightarrow> string \<Rightarrow> int \<Rightarrow> queue_item \<Rightarrow> string \<Rightarrow> string \<Rightarrow> string list" where
  "dsn_lines hostname date now item error status_code =
     (let boundary = ''--MS_DSN_'' @ show_int now @ ''_--'';
          safe_error = strip_breaks '' '' error;
          safe_sender = strip_breaks [] (qi_mail_from item);
          safe_recipient = strip_breaks [] (qi_recipient item)
      in [''From: Mail Delivery System <MAILER-DAEMON@'' @ hostname @ ''>'',
          ''To: <'' @ safe_sender @ ''>'',
          ''Subject: Undelivered Mail Returned to Sender'',
          ''Date: '' @ date,
          ''MIME-Version: 1.0'',
          ''Auto-Submitted: auto-replied'',
          ''Content-Type: multipart/report; report-type=delivery-status;'',
          CHR 0x09 # ''boundary='' @ [CHR 0x22] @ boundary @ [CHR 0x22],
          [],
          ''--'' @ boundary,
          ''Content-Type: text/plain; charset=UTF-8'',
          ''Content-Transfer-Encoding: 8bit'',
          [],
          ''Your message to <'' @ safe_recipient @ ''> could not be delivered.'',
          [],
          ''SMTP status: '' @ status_code,
          ''Final reason: '' @ safe_error,
          ''Attempts made: '' @ show_nat (qi_attempts item + 1),
          [],
          ''--'' @ boundary,
          ''Content-Type: message/delivery-status'',
          [],
          ''Reporting-MTA: dns; '' @ hostname,
          ''Final-Recipient: rfc822; '' @ safe_recipient,
          ''Action: failed'',
          ''Status: '' @ status_code,
          ''Diagnostic-Code: smtp; '' @ safe_error,
          [],
          ''--'' @ boundary,
          ''Content-Type: text/rfc822-headers'',
          [],
          ''From: '' @ safe_sender,
          ''To: '' @ safe_recipient,
          ''Subject: (original subject preserved by client)'',
          ''Date: '' @ date,
          [],
          ''--'' @ boundary @ ''--''])"

definition build_dsn :: "string \<Rightarrow> string \<Rightarrow> int \<Rightarrow> queue_item \<Rightarrow> string \<Rightarrow> string \<Rightarrow> string" where
  "build_dsn hostname date now item error status_code =
     concat (map (\<lambda>l. l @ CRLF) (dsn_lines hostname date now item error status_code))"

definition bounce :: "mail_env \<Rightarrow> string \<Rightarrow> int \<Rightarrow> queue_item \<Rightarrow> string \<Rightarrow> db \<Rightarrow> db" where
  "bounce env hostname now item error d =
     (let status_code = (case parse_enhanced_status error of Some c \<Rightarrow> c | None \<Rightarrow> ''5.0.0'');
          dsn = build_dsn hostname (rfc2822_utc now) now item error status_code
      in snd (ingest_email env (qi_account_id item) dsn ''inbox'' d))"

subsection \<open>The worker\<close>

definition process_item :: "mail_env \<Rightarrow> smtp_net \<Rightarrow> (string \<Rightarrow> (delivery_error, relay list) result) \<Rightarrow> (storage_error \<Rightarrow> string) \<Rightarrow>
    string \<Rightarrow> int \<Rightarrow> queue_item \<Rightarrow> db \<Rightarrow> db" where
  "process_item env net router show_st hostname now item d =
     (let outcome = decide show_st (id_hash env (qi_id item)) now item (attempt env net router item) in
      case record_attempt now (qi_id item) outcome d of
        (Inl _, d1) \<Rightarrow> d1
      | (Inr _, d1) \<Rightarrow>
          (case (case outcome of
                   OutDelivered \<Rightarrow> (DsDelivered (qi_recipient item), d1)
                 | OutRetry e _ \<Rightarrow> (DsTemporaryFailure (qi_recipient item) e, d1)
                 | OutFailed e \<Rightarrow> (DsPermanentFailure (qi_recipient item) e, bounce env hostname now item e d1)) of
             (st, d2) \<Rightarrow> d2\<lparr>published := published d2 @ [DeliveryEvent (qi_account_id item) (qi_id item) st]\<rparr>))"

definition BATCH :: nat where "BATCH = 16"

text \<open>One turn of the loop of \<open>spawn_worker\<close>; a turn that finds nothing waits for the next one.\<close>

definition worker_turn :: "mail_env \<Rightarrow> smtp_net \<Rightarrow> (string \<Rightarrow> (delivery_error, relay list) result) \<Rightarrow> (storage_error \<Rightarrow> string) \<Rightarrow>
    string \<Rightarrow> int \<Rightarrow> db \<Rightarrow> db" where
  "worker_turn env net router show_st hostname now d =
     (case due_queue_items now BATCH d of
        (Inl _, d1) \<Rightarrow> d1
      | (Inr items, d1) \<Rightarrow> fold (process_item env net router show_st hostname now) items d1)"

text \<open>The worker from its start, for a given number of turns, each with its clock reading.\<close>

definition worker_run :: "mail_env \<Rightarrow> smtp_net \<Rightarrow> (string \<Rightarrow> (delivery_error, relay list) result) \<Rightarrow> (storage_error \<Rightarrow> string) \<Rightarrow>
    string \<Rightarrow> int \<Rightarrow> int list \<Rightarrow> db \<Rightarrow> db" where
  "worker_run env net router show_st hostname start clocks d =
     fold (worker_turn env net router show_st hostname) clocks (snd (reset_stale_claims start d))"

subsection \<open>Submission\<close>

fun enqueue_all :: "int \<Rightarrow> (string \<times> string) list \<Rightarrow> string \<Rightarrow> string \<Rightarrow> string \<Rightarrow> nat \<Rightarrow> string list op" where
  "enqueue_all now [] acct blob mail_from priority = op_return []"
| "enqueue_all now ((new_id, recipient) # rs) acct blob mail_from priority =
     op_bind (enqueue_with_priority now new_id acct blob mail_from recipient priority)
       (\<lambda>item d. op_bind (enqueue_all now rs acct blob mail_from priority) (\<lambda>ids. op_return (qi_id item # ids))
          (d\<lparr>published := published d @ [DeliveryEvent acct (qi_id item) DsQueued]\<rparr>))"

text \<open>\<open>ids\<close> are the generated queue ids, one per recipient.\<close>

definition submit_with_priority :: "mail_env \<Rightarrow> int \<Rightarrow> string list \<Rightarrow> string \<Rightarrow> string \<Rightarrow> string list \<Rightarrow> string \<Rightarrow> bool \<Rightarrow>
    db \<Rightarrow> (delivery_error, string list) result \<times> db" where
  "submit_with_priority env now ids acct mail_from recipients raw chat_mode d =
     (case pgp_outbound env acct mail_from recipients raw of
        Inl e \<Rightarrow> (Inl (DTemporary (''pgp: '' @ e)), d)
      | Inr raw1 \<Rightarrow>
          (case dkim_sign env raw1 of
             Inl e \<Rightarrow> (Inl e, d)
           | Inr sig \<Rightarrow>
               (case ingest_email env acct (sig @ raw1) ''sent'' d of
                  (Inl e, d1) \<Rightarrow> (Inl (DStorage e), d1)
                | (Inr blob, d1) \<Rightarrow>
                    (case enqueue_all now (zip ids recipients) acct blob mail_from (if chat_mode then 1 else 0) d1 of
                       (Inl e, d2) \<Rightarrow> (Inl (DStorage e), d2)
                     | (Inr queued, d2) \<Rightarrow> (Inr queued, d2)))))"

definition submit :: "mail_env \<Rightarrow> int \<Rightarrow> string list \<Rightarrow> string \<Rightarrow> string \<Rightarrow> string list \<Rightarrow> string \<Rightarrow>
    db \<Rightarrow> (delivery_error, string list) result \<times> db" where
  "submit env now ids acct mail_from recipients raw = submit_with_priority env now ids acct mail_from recipients raw False"

datatype submit_error = Transport string | Refused string

fun to_submit_error :: "(storage_error \<Rightarrow> string) \<Rightarrow> delivery_error \<Rightarrow> submit_error" where
  "to_submit_error show_st (DPermanent m) = Refused m"
| "to_submit_error show_st (DTemporary m) = Transport m"
| "to_submit_error show_st (DDkim m) = Transport m"
| "to_submit_error show_st (DDns m) = Transport m"
| "to_submit_error show_st (DStorage e) = Transport (show_st e)"
| "to_submit_error show_st (DIo p) = Transport (''io error on '' @ p)"

section \<open>Routers\<close>

text \<open>What the worker expects of a router: a successful answer names at least one relay.\<close>

locale mail_router =
  fixes route :: "string \<Rightarrow> (delivery_error, relay list) result"
  assumes route_nonempty: "route domain = Inr rs \<Longrightarrow> rs \<noteq> []"
begin

lemma attempt_reaches_relay:
  assumes "get_blob env (qi_blob_id item) = Inr raw" "route (qi_domain item) = Inr rs"
  shows "attempt env net route item = try_relays net item raw None rs"
  using assms route_nonempty[OF assms(2)] by (simp add: attempt_def)

lemma attempt_accepted:
  assumes "get_blob env (qi_blob_id item) = Inr raw" "route (qi_domain item) = Inr rs"
    and "\<forall>r \<in> set rs. deliver_to net r item raw = Inr ()"
  shows "attempt env net route item = Inr ()"
proof -
  obtain r rs' where "rs = r # rs'" using route_nonempty[OF assms(2)] by (cases rs) auto
  with attempt_reaches_relay[OF assms(1,2)] assms(3) show ?thesis by simp
qed

end

lemma sort_key_Nil: "sort_key f xs = [] \<longleftrightarrow> xs = []"
  by (metis length_0_conv length_sort)

lemma mx_resolve_nonempty: "mx_resolve dns domain = Inr rs \<Longrightarrow> rs \<noteq> []"
  by (auto simp: mx_resolve_def sort_key_Nil split: mx_lookup.splits if_splits)

interpretation mx_router: mail_router "mx_resolve dns" for dns
  by unfold_locales (rule mx_resolve_nonempty)

interpretation static_router: mail_router "static_resolve r" for r
  by unfold_locales (simp add: static_resolve_def)

interpretation router: mail_router "resolve rt" for rt
  by unfold_locales (cases rt; auto dest: mx_resolve_nonempty simp: static_resolve_def)

section \<open>The retry decision\<close>

lemma length_schedule [simp]: "length (schedule item) = 9"
  by (simp add: schedule_def BACKOFF_def CHAT_BACKOFF_def)

lemma schedule_positive: "\<forall>x \<in> set (schedule item). 30 \<le> x"
  by (simp add: schedule_def BACKOFF_def CHAT_BACKOFF_def)

lemma tdiv_abs: "0 < b \<Longrightarrow> \<bar>tdiv a b\<bar> * b \<le> \<bar>a\<bar>"
  by (auto simp: tdiv_def minus_mod_eq_div_mult[symmetric] pos_imp_zdiv_nonneg_iff div_times_less_eq_dividend
      simp flip: minus_mult_left)

lemma jitter_bound:
  assumes "0 \<le> delay"
  shows "\<bar>jitter h delay\<bar> * 10 \<le> delay"
proof -
  let ?frac = "int (h mod 21) - 10"
  have "\<bar>?frac\<bar> \<le> 10" using mod_less_divisor[of 21 h] by linarith
  then have "\<bar>delay * ?frac\<bar> \<le> delay * 10" using assms by (simp add: abs_mult mult_left_mono)
  moreover have "\<bar>jitter h delay\<bar> * 100 \<le> \<bar>delay * ?frac\<bar>"
    unfolding jitter_def Let_def by (rule tdiv_abs) simp
  ultimately show ?thesis by linarith
qed

lemma decide_retry:
  assumes "decide show_st h now item result = OutRetry e t"
  shows "qi_attempts item < 9 \<and> \<bar>(t - now) - schedule item ! qi_attempts item\<bar> * 10 \<le> schedule item ! qi_attempts item"
proof -
  have a: "qi_attempts item < 9" and t: "t = now + schedule item ! qi_attempts item + jitter h (schedule item ! qi_attempts item)"
    using assms by (auto simp: decide_def Let_def split: sum.splits delivery_error.splits if_splits)
  have "30 \<le> schedule item ! qi_attempts item" using schedule_positive a by (metis length_schedule nth_mem)
  with jitter_bound[of "schedule item ! qi_attempts item" h] t a show ?thesis by simp
qed

section \<open>The worker and the queue\<close>

definition mark :: "int \<Rightarrow> attempt_outcome \<Rightarrow> queue_row \<Rightarrow> queue_row" where
  "mark now outcome r = (case outcome_columns outcome of (st, err, next) \<Rightarrow>
     r\<lparr>q_status := st, q_attempts := q_attempts r + 1, q_last_error := coalesce err (q_last_error r),
       q_next_attempt := (case next of Some t \<Rightarrow> t | None \<Rightarrow> q_next_attempt r), q_updated_at := now\<rparr>)"

lemma mark_simps [simp]: "q_id (mark now out r) = q_id r" "q_attempts (mark now out r) = q_attempts r + 1"
  "q_status (mark now out r) = fst (outcome_columns out)" "q_priority (mark now out r) = q_priority r"
  by (cases out; simp add: mark_def)+

lemma record_attempt_mark:
  "record_attempt now qid out = db_call (\<lambda>d. (Inr (), d\<lparr>queue := sql_update (\<lambda>r. q_id r = qid) (mark now out) (queue d)\<rparr>))"
  by (cases out) (simp_all add: record_attempt_def mark_def[abs_def])

lemma record_attempt_queue:
  assumes "record_attempt now qid out d = (res, d')"
  shows "queue d' = queue d \<or> queue d' = sql_update (\<lambda>r. q_id r = qid) (mark now out) (queue d)"
  using assms unfolding record_attempt_mark by (cases rule: db_call_cases) auto

text \<open>Ingesting a message does not touch the queue.\<close>

definition ingest_keeps_queue :: "mail_env \<Rightarrow> bool" where
  "ingest_keeps_queue env \<longleftrightarrow> (\<forall>acct raw role d. queue (snd (ingest_email env acct raw role d)) = queue d)"

lemma process_item_queue:
  assumes "ingest_keeps_queue env"
  shows "queue (process_item env net router show_st hostname now item d) = queue d \<or>
    queue (process_item env net router show_st hostname now item d) = sql_update (\<lambda>r. q_id r = qi_id item)
      (mark now (decide show_st (id_hash env (qi_id item)) now item (attempt env net router item))) (queue d)"
proof -
  let ?out = "decide show_st (id_hash env (qi_id item)) now item (attempt env net router item)"
  obtain res d1 where r: "record_attempt now (qi_id item) ?out d = (res, d1)" by (meson surj_pair)
  have "queue (process_item env net router show_st hostname now item d) = queue d1"
    using assms r by (auto simp: process_item_def Let_def bounce_def ingest_keeps_queue_def
        split: sum.splits attempt_outcome.splits)
  with record_attempt_queue[OF r] show ?thesis by simp
qed

text \<open>A delivery that is still to be made has at most nine attempts behind it, any delivery at most
  ten.\<close>

definition attempts_ok :: "queue_row list \<Rightarrow> bool" where
  "attempts_ok rows \<longleftrightarrow> (\<forall>r \<in> set rows. q_attempts r \<le> 10 \<and> (q_status r \<in> {Queued, Sending} \<longrightarrow> q_attempts r \<le> 9))"

definition in_step :: "queue_item list \<Rightarrow> queue_row list \<Rightarrow> bool" where
  "in_step items rows \<longleftrightarrow> (\<forall>i \<in> set items. \<forall>r \<in> set rows. q_id r = qi_id i \<longrightarrow> q_attempts r = qi_attempts i \<and> qi_attempts i \<le> 9)"

lemma attempts_ok_mark:
  assumes "attempts_ok rows" "in_step [item] rows" and out: "out = decide show_st h now item result"
  shows "attempts_ok (sql_update (\<lambda>r. q_id r = qi_id item) (mark now out) rows)"
  unfolding attempts_ok_def
proof
  fix x assume "x \<in> set (sql_update (\<lambda>r. q_id r = qi_id item) (mark now out) rows)"
  then show "q_attempts x \<le> 10 \<and> (q_status x \<in> {Queued, Sending} \<longrightarrow> q_attempts x \<le> 9)"
  proof (rule sql_updateE)
    fix s assume s: "s \<in> set rows" "q_id s = qi_id item" "x = mark now out s"
    have a: "q_attempts s = qi_attempts item" "qi_attempts item \<le> 9" using assms(2) s by (auto simp: in_step_def)
    show ?thesis
    proof (cases out)
      case (OutRetry e t)
      with decide_retry[of show_st h now item result e t] out a s(3) show ?thesis by simp
    qed (use s(3) a in simp_all)
  next
    assume "x \<in> set rows"
    with assms(1) show ?thesis by (simp add: attempts_ok_def)
  qed
qed

lemma in_step_mark:
  assumes "in_step (item # items) rows" "qi_id item \<notin> qi_id ` set items"
  shows "in_step items (sql_update (\<lambda>r. q_id r = qi_id item) (mark now out) rows)"
  unfolding in_step_def
proof (intro ballI impI)
  fix i x assume i: "i \<in> set items" "q_id x = qi_id i" and x: "x \<in> set (sql_update (\<lambda>r. q_id r = qi_id item) (mark now out) rows)"
  from x show "q_attempts x = qi_attempts i \<and> qi_attempts i \<le> 9"
  proof (rule sql_updateE)
    fix s assume "q_id s = qi_id item" "x = mark now out s"
    with i assms(2) show ?thesis by (metis imageI mark_simps(1))
  qed (use assms(1) i in \<open>auto simp: in_step_def\<close>)
qed

lemma process_items_attempts:
  assumes "ingest_keeps_queue env"
  shows "attempts_ok (queue d) \<Longrightarrow> in_step items (queue d) \<Longrightarrow> distinct (map qi_id items) \<Longrightarrow>
    attempts_ok (queue (fold (process_item env net router show_st hostname now) items d))"
proof (induction items arbitrary: d)
  case (Cons item items)
  let ?d = "process_item env net router show_st hostname now item d"
  have one: "in_step [item] (queue d)" "in_step items (queue d)" using Cons(3) by (auto simp: in_step_def)
  have nd: "qi_id item \<notin> qi_id ` set items" using Cons(4) by simp
  have "attempts_ok (queue ?d) \<and> in_step items (queue ?d)"
    using process_item_queue[OF assms, of net router show_st hostname now item d]
  proof
    assume q: "queue ?d = sql_update (\<lambda>r. q_id r = qi_id item)
      (mark now (decide show_st (id_hash env (qi_id item)) now item (attempt env net router item))) (queue d)"
    show ?thesis unfolding q using attempts_ok_mark[OF Cons(2) one(1) refl] in_step_mark[OF Cons(3) nd] by blast
  qed (use Cons(2) one(2) in simp)
  with Cons show ?case by simp
qed simp

lemma claim_attempts:
  assumes "attempts_ok rows" "keys_unique q_id rows"
  shows "attempts_ok (snd (claim now limit rows)) \<and> in_step (fst (claim now limit rows)) (snd (claim now limit rows))"
proof
  have "attempts_ok (sql_update p (\<lambda>r. r\<lparr>q_status := Sending, q_updated_at := now\<rparr>) rows)" if "\<And>r. r \<in> set rows \<Longrightarrow> p r \<Longrightarrow> q_attempts r \<le> 9" for p
    unfolding attempts_ok_def
  proof
    fix x assume "x \<in> set (sql_update p (\<lambda>r. r\<lparr>q_status := Sending, q_updated_at := now\<rparr>) rows)"
    then show "q_attempts x \<le> 10 \<and> (q_status x \<in> {Queued, Sending} \<longrightarrow> q_attempts x \<le> 9)"
    proof (rule sql_updateE)
      fix s assume "s \<in> set rows" "p s" "x = s\<lparr>q_status := Sending, q_updated_at := now\<rparr>"
      with that[of s] show ?thesis by simp
    qed (use assms(1) in \<open>simp add: attempts_ok_def\<close>)
  qed
  moreover have "q_attempts r \<le> 9" if "r \<in> set rows" "q_id r \<in> q_id ` set (due_rows now limit rows)" for r
  proof -
    have "r \<in> set (due_rows now limit rows)" using that due_rows_due keys_unique_eq[OF assms(2) that(1)] by blast
    with due_rows_due assms(1) show ?thesis by (fastforce simp: attempts_ok_def due_def)
  qed
  ultimately show ok: "attempts_ok (snd (claim now limit rows))" by (simp add: claim_def Let_def)
  show "in_step (fst (claim now limit rows)) (snd (claim now limit rows))"
    unfolding in_step_def
  proof (intro ballI impI)
    fix i x assume i: "i \<in> set (fst (claim now limit rows))" "x \<in> set (snd (claim now limit rows))" "q_id x = qi_id i"
    obtain r where r: "r \<in> set rows" "i = row_to_item r" "due now r" using claimed_due[OF assms(2) i(1)] .
    obtain s where s: "s \<in> set rows" "q_id s = q_id x" "q_attempts s = q_attempts x"
      using i(2) unfolding claim_def Let_def snd_conv by (elim sql_updateE) auto
    have "q_id s = q_id r" using s(2) i(3) r(2) by (simp add: row_to_item_def)
    then have "s = r" using keys_unique_eq[OF assms(2) s(1) r(1)] by blast
    with s(3) have "q_attempts x = q_attempts r" by simp
    moreover have "q_attempts r \<le> 9" using assms(1) r by (auto simp: attempts_ok_def due_def)
    ultimately show "q_attempts x = qi_attempts i \<and> qi_attempts i \<le> 9" using r(2) by (simp add: row_to_item_def)
  qed
qed

text \<open>Rows keep their ids, and a delivery that is over is never touched again.\<close>

lemma process_items_ids:
  assumes "ingest_keeps_queue env"
  shows "map q_id (queue (fold (process_item env net router show_st hostname now) items d)) = map q_id (queue d)"
proof (induction items arbitrary: d)
  case (Cons item items)
  then show ?case using process_item_queue[OF assms, of net router show_st hostname now item d]
    by (auto simp: map_key_update)
qed simp

lemma process_items_others:
  assumes "ingest_keeps_queue env" "r \<in> set (queue d)" "q_id r \<notin> qi_id ` set items"
  shows "r \<in> set (queue (fold (process_item env net router show_st hostname now) items d))"
  using assms(2,3)
proof (induction items arbitrary: d)
  case (Cons item items)
  have "r \<in> set (queue (process_item env net router show_st hostname now item d))"
    using process_item_queue[OF assms(1), of net router show_st hostname now item d] Cons(2,3)
    by (auto simp: sql_update_def intro!: image_eqI[of r _ r])
  with Cons show ?case by simp
qed simp

lemma worker_turn_keeps:
  assumes "ingest_keeps_queue env" "keys_unique q_id (queue d)" "attempts_ok (queue d)"
    and d': "d' = worker_turn env net router show_st hostname now d"
  shows "map q_id (queue d') = map q_id (queue d) \<and> attempts_ok (queue d') \<and>
    (\<forall>r \<in> set (queue d). q_status r \<in> {Delivered, Failed} \<longrightarrow> r \<in> set (queue d'))"
proof -
  obtain res d1 where r: "due_queue_items now BATCH d = (res, d1)" by (meson surj_pair)
  show ?thesis
  proof (cases res)
    case (Inl e)
    with r d' due_queue_items_err[of now BATCH d e d1] assms(3) show ?thesis by (simp add: worker_turn_def)
  next
    case (Inr items)
    have c: "items = fst (claim now BATCH (queue d))" "queue d1 = snd (claim now BATCH (queue d))"
      using due_queue_items_ok[of now BATCH d items d1] r Inr by simp_all
    have q': "d' = fold (process_item env net router show_st hostname now) items d1"
      using r Inr d' by (simp add: worker_turn_def)
    note a = claim_attempts[OF assms(3,2), of now BATCH] and di = distinct_claimed[OF assms(2), of now BATCH]
    have "attempts_ok (queue d')" unfolding q'
      by (rule process_items_attempts[OF assms(1)]) (use a di c in simp_all)
    moreover have "map q_id (queue d') = map q_id (queue d)"
      unfolding q' process_items_ids[OF assms(1)] by (simp add: c claim_keys)
    moreover have "s \<in> set (queue d')" if s: "s \<in> set (queue d)" "q_status s \<in> {Delivered, Failed}" for s
    proof -
      have "q_status s \<noteq> Queued" using s(2) by auto
      from claim_keeps[OF assms(2) s(1) this, of now BATCH] show ?thesis
        unfolding q' using process_items_others[OF assms(1), of s d1 items] c by simp
    qed
    ultimately show ?thesis by blast
  qed
qed

lemma reset_keeps:
  assumes "attempts_ok (queue d)" and d': "d' = snd (reset_stale_claims now d)"
  shows "map q_id (queue d') = map q_id (queue d) \<and> attempts_ok (queue d') \<and>
    (\<forall>r \<in> set (queue d). q_status r \<in> {Delivered, Failed} \<longrightarrow> r \<in> set (queue d'))"
proof -
  obtain res where r: "reset_stale_claims now d = (res, d')" using d' by (metis prod.collapse)
  from r[unfolded reset_stale_claims_def] show ?thesis
  proof (cases rule: db_call_cases)
    case (run fs)
    then have q: "queue d' = sql_update (\<lambda>r. q_status r = Sending) (\<lambda>r. r\<lparr>q_status := Queued, q_updated_at := now\<rparr>) (queue d)"
      by auto
    have "attempts_ok (queue d')" using assms(1) unfolding q attempts_ok_def by (auto elim!: sql_updateE)
    then show ?thesis unfolding q by (auto simp: map_key_update sql_update_def intro!: image_eqI)
  qed (use assms(1) in auto)
qed

lemma worker_run_keeps:
  assumes "ingest_keeps_queue env" "keys_unique q_id (queue d)" "attempts_ok (queue d)"
    and d': "d' = worker_run env net router show_st hostname start clocks d"
  shows "map q_id (queue d') = map q_id (queue d) \<and> attempts_ok (queue d') \<and>
    (\<forall>r \<in> set (queue d). q_status r \<in> {Delivered, Failed} \<longrightarrow> r \<in> set (queue d'))"
proof -
  have turns: "map q_id (queue (fold (worker_turn env net router show_st hostname) clocks x)) = map q_id (queue x) \<and>
      attempts_ok (queue (fold (worker_turn env net router show_st hostname) clocks x)) \<and>
      (\<forall>r \<in> set (queue x). q_status r \<in> {Delivered, Failed} \<longrightarrow> r \<in> set (queue (fold (worker_turn env net router show_st hostname) clocks x)))"
    if "keys_unique q_id (queue x)" "attempts_ok (queue x)" for x
    using that
  proof (induction clocks arbitrary: x)
    case (Cons t ts)
    let ?y = "worker_turn env net router show_st hostname t x"
    note y = worker_turn_keeps[OF assms(1) Cons(2,3) refl, of net router show_st hostname t]
    have "keys_unique q_id (queue ?y)" using Cons(2) y by (simp add: keys_unique_def)
    from Cons(1)[OF this] y show ?case by simp
  qed simp
  let ?x = "snd (reset_stale_claims start d)"
  note x = reset_keeps[OF assms(3) refl, of start]
  have "keys_unique q_id (queue ?x)" using assms(2) x by (simp add: keys_unique_def)
  from turns[OF this] x show ?thesis unfolding d' worker_run_def by simp
qed

section \<open>Counting the attempts of a run\<close>

text \<open>The attempts a run makes, in order, by queue id: \<^const>\<open>process_item\<close> calls \<^const>\<open>attempt\<close> once, for each item a
  turn claims.\<close>

definition turn_attempts :: "int \<Rightarrow> db \<Rightarrow> string list" where
  "turn_attempts now d = (case due_queue_items now BATCH d of (Inl _, _) \<Rightarrow> [] | (Inr items, _) \<Rightarrow> map qi_id items)"

fun turns_attempts :: "mail_env \<Rightarrow> smtp_net \<Rightarrow> (string \<Rightarrow> (delivery_error, relay list) result) \<Rightarrow> (storage_error \<Rightarrow> string) \<Rightarrow>
    string \<Rightarrow> int list \<Rightarrow> db \<Rightarrow> string list" where
  "turns_attempts env net router show_st hostname [] d = []"
| "turns_attempts env net router show_st hostname (c # cs) d =
     turn_attempts c d @ turns_attempts env net router show_st hostname cs (worker_turn env net router show_st hostname c d)"

definition run_attempts :: "mail_env \<Rightarrow> smtp_net \<Rightarrow> (string \<Rightarrow> (delivery_error, relay list) result) \<Rightarrow> (storage_error \<Rightarrow> string) \<Rightarrow>
    string \<Rightarrow> int \<Rightarrow> int list \<Rightarrow> db \<Rightarrow> string list" where
  "run_attempts env net router show_st hostname start clocks d =
     turns_attempts env net router show_st hostname clocks (snd (reset_stale_claims start d))"

text \<open>How many attempts are left to a row while the worker runs: none unless it is queued.\<close>

definition allowance :: "queue_row \<Rightarrow> nat" where
  "allowance r = (if q_status r = Queued then 10 - q_attempts r else 0)"

lemma count_distinct: "distinct xs \<Longrightarrow> x \<in> set xs \<Longrightarrow> count_list xs x = 1"
  by (induction xs) auto

text \<open>A row between the start and the end of a turn's work on the items with the given ids: untouched, or, once at most,
  marked.\<close>

definition worked :: "string list \<Rightarrow> queue_row \<Rightarrow> queue_row \<Rightarrow> bool" where
  "worked ids r r' \<longleftrightarrow> q_id r' = q_id r \<and> (r' = r \<or> q_id r \<in> set ids \<and> q_attempts r' = q_attempts r + 1)"

lemma worked_Cons: "worked [i] a b \<Longrightarrow> worked is b c \<Longrightarrow> i \<notin> set is \<Longrightarrow> worked (i # is) a c"
  by (auto simp: worked_def)

lemma process_items_worked:
  assumes "ingest_keeps_queue env"
  shows "distinct (map qi_id items) \<Longrightarrow>
    list_all2 (worked (map qi_id items)) (queue d) (queue (fold (process_item env net router show_st hostname now) items d))"
proof (induction items arbitrary: d)
  case Nil
  show ?case by (simp add: list_all2_refl worked_def)
next
  case (Cons item items)
  let ?d = "process_item env net router show_st hostname now item d"
  have w1: "list_all2 (worked [qi_id item]) (queue d) (queue ?d)"
    using process_item_queue[OF assms, of net router show_st hostname now item d]
  proof
    assume "queue ?d = queue d"
    then show ?thesis by (simp add: list_all2_refl worked_def)
  next
    assume q: "queue ?d = sql_update (\<lambda>r. q_id r = qi_id item)
      (mark now (decide show_st (id_hash env (qi_id item)) now item (attempt env net router item))) (queue d)"
    show ?thesis unfolding q sql_update_def list_all2_map2 by (rule list_all2_refl) (simp add: worked_def)
  qed
  have w2: "list_all2 (worked (map qi_id items)) (queue ?d) (queue (fold (process_item env net router show_st hostname now) items ?d))"
    by (rule Cons(1)) (use Cons(2) in simp)
  have nd: "qi_id item \<notin> set (map qi_id items)" using Cons(2) by simp
  have "list_all2 (worked (qi_id item # map qi_id items)) (queue d)
      (queue (fold (process_item env net router show_st hostname now) items ?d))"
    by (rule list_all2_trans[of "worked [qi_id item]" "worked (map qi_id items)", OF _ w1 w2]) (rule worked_Cons[OF _ _ nd])
  then show ?case by simp
qed

definition spends :: "string list \<Rightarrow> queue_row \<Rightarrow> queue_row \<Rightarrow> bool" where
  "spends log r r' \<longleftrightarrow> q_id r' = q_id r \<and> count_list log (q_id r) + allowance r' \<le> allowance r"

lemma spends_trans:
  "list_all2 (spends xs) as bs \<Longrightarrow> list_all2 (spends ys) bs cs \<Longrightarrow> list_all2 (spends (xs @ ys)) as cs"
  by (rule list_all2_trans[of "spends xs" "spends ys" "spends (xs @ ys)"]) (auto simp: spends_def)

lemma worker_turn_spends:
  assumes "ingest_keeps_queue env" "keys_unique q_id (queue d)" "attempts_ok (queue d)"
    and d': "d' = worker_turn env net router show_st hostname now d"
  shows "list_all2 (spends (turn_attempts now d)) (queue d) (queue d') \<and> set (turn_attempts now d) \<subseteq> q_id ` set (queue d)"
proof -
  obtain res d1 where r: "due_queue_items now BATCH d = (res, d1)" by (meson surj_pair)
  show ?thesis
  proof (cases res)
    case (Inl e)
    with r d' due_queue_items_err[of now BATCH d e d1] show ?thesis
      by (simp add: worker_turn_def turn_attempts_def list_all2_refl spends_def)
  next
    case (Inr items)
    let ?due = "due_rows now BATCH (queue d)" and ?log = "turn_attempts now d"
    let ?claim = "\<lambda>r. if q_id r \<in> q_id ` set ?due then r\<lparr>q_status := Sending, q_updated_at := now\<rparr> else r"
    have c: "claim now BATCH (queue d) = (items, queue d1)" using due_queue_items_ok r Inr by blast
    have log: "?log = map qi_id items" using r Inr by (simp add: turn_attempts_def)
    have items: "items = map row_to_item (filter (\<lambda>r. q_id r \<in> q_id ` set ?due) (queue d))" and d1: "queue d1 = map ?claim (queue d)"
      using c by (simp_all add: claim_def Let_def sql_update_def)
    have di: "distinct ?log" using distinct_claimed[OF assms(2), of now BATCH] c log by simp
    have ids: "set ?log = q_id ` set ?due" using due_rows_due unfolding log items by (force simp: row_to_item_def)
    have "list_all2 (worked ?log) (map ?claim (queue d)) (queue d')"
      using process_items_worked[OF assms(1), of items d1 net router show_st hostname now] di log d1 r Inr d'
      by (simp add: worker_turn_def)
    then have "list_all2 (\<lambda>r r'. r \<in> set (queue d) \<and> worked ?log (?claim r) r') (queue d) (queue d')"
      unfolding list_all2_map1 by (auto simp: list_all2_conv_all_nth)
    then have "list_all2 (spends ?log) (queue d) (queue d')"
    proof (rule list_all2_mono)
      fix r r' assume w: "r \<in> set (queue d) \<and> worked ?log (?claim r) r'"
      show "spends ?log r r'"
      proof (cases "q_id r \<in> set ?log")
        case True
        then have "r \<in> set ?due" using ids claimed_iff[OF assms(2)] w by blast
        then have "q_status r = Queued" using due_rows_due by (force simp: due_def)
        moreover from this w assms(3) have "q_attempts r \<le> 9" by (auto simp: attempts_ok_def)
        moreover have "count_list ?log (q_id r) = 1" using True di by (simp add: count_distinct)
        ultimately show ?thesis using w True ids by (auto simp: spends_def worked_def allowance_def)
      next
        case False
        with w ids show ?thesis by (auto simp: spends_def worked_def)
      qed
    qed
    with ids due_rows_due show ?thesis by fastforce
  qed
qed

lemma turns_spend:
  assumes "ingest_keeps_queue env"
  shows "keys_unique q_id (queue d) \<Longrightarrow> attempts_ok (queue d) \<Longrightarrow>
    list_all2 (spends (turns_attempts env net router show_st hostname clocks d)) (queue d)
      (queue (fold (worker_turn env net router show_st hostname) clocks d)) \<and>
    set (turns_attempts env net router show_st hostname clocks d) \<subseteq> q_id ` set (queue d)"
proof (induction clocks arbitrary: d)
  case Nil
  show ?case by (simp add: list_all2_refl spends_def)
next
  case (Cons c cs)
  let ?d = "worker_turn env net router show_st hostname c d"
  note k = worker_turn_keeps[OF assms Cons(2,3) refl, of net router show_st hostname c]
  note one = worker_turn_spends[OF assms Cons(2,3) refl, of c net router show_st hostname]
  have "keys_unique q_id (queue ?d)" using Cons(2) k by (simp add: keys_unique_def)
  note rest = Cons(1)[OF this conjunct1[OF conjunct2[OF k]]]
  have ids: "q_id ` set (queue ?d) = q_id ` set (queue d)" using conjunct1[OF k] by (metis list.set_map)
  have "list_all2 (spends (turns_attempts env net router show_st hostname (c # cs) d)) (queue d)
      (queue (fold (worker_turn env net router show_st hostname) (c # cs) d))"
    using spends_trans[OF conjunct1[OF one] conjunct1[OF rest]] by simp
  moreover have "set (turns_attempts env net router show_st hostname (c # cs) d) \<subseteq> q_id ` set (queue d)"
    using conjunct2[OF one] conjunct2[OF rest] unfolding ids by simp
  ultimately show ?case ..
qed

lemma run_attempts_bounded:
  assumes "ingest_keeps_queue env" "keys_unique q_id (queue d)" "attempts_ok (queue d)"
  shows "set (run_attempts env net router show_st hostname start clocks d) \<subseteq> q_id ` set (queue d) \<and>
    (\<forall>r \<in> set (queue d). count_list (run_attempts env net router show_st hostname start clocks d) (q_id r) \<le>
       (if q_status r \<in> {Queued, Sending} then 10 - q_attempts r else 0))"
proof -
  let ?log = "run_attempts env net router show_st hostname start clocks d" and ?x = "snd (reset_stale_claims start d)"
  note x = reset_keeps[OF assms(3) refl, of start]
  have u: "keys_unique q_id (queue ?x)" using assms(2) x by (simp add: keys_unique_def)
  note t = turns_spend[OF assms(1) u conjunct1[OF conjunct2[OF x]], of net router show_st hostname clocks, folded run_attempts_def]
  have ids: "q_id ` set (queue ?x) = q_id ` set (queue d)" using x by (metis list.set_map)
  let ?left = "\<lambda>r r'. q_id r' = q_id r \<and> allowance r' \<le> (if q_status r \<in> {Queued, Sending} then 10 - q_attempts r else 0)"
  have l: "list_all2 ?left (queue d) (queue ?x)"
  proof -
    obtain res x where r: "reset_stale_claims start d = (res, x)" by (meson surj_pair)
    then have "queue x = queue d \<or>
        queue x = sql_update (\<lambda>r. q_status r = Sending) (\<lambda>r. r\<lparr>q_status := Queued, q_updated_at := start\<rparr>) (queue d)"
      unfolding reset_stale_claims_def by (cases rule: db_call_cases) auto
    then obtain f where f: "queue x = map f (queue d)"
        "f = id \<or> f = (\<lambda>r. if q_status r = Sending then r\<lparr>q_status := Queued, q_updated_at := start\<rparr> else r)"
      unfolding sql_update_def by (metis list.map_id)
    from f(2) have "?left y (f y)" for y by (auto simp: allowance_def)
    then have "list_all2 ?left (queue d) (map f (queue d))" unfolding list_all2_map2 by (rule list_all2_refl)
    with r f(1) show ?thesis by simp
  qed
  have "count_list ?log (q_id r) \<le> (if q_status r \<in> {Queued, Sending} then 10 - q_attempts r else 0)" if mem: "r \<in> set (queue d)" for r
  proof -
    obtain i where i: "i < length (queue d)" "queue d ! i = r" using mem[unfolded in_set_conv_nth] by blast
    define r' where "r' = queue ?x ! i"
    have r': "q_id r' = q_id r" "allowance r' \<le> (if q_status r \<in> {Queued, Sending} then 10 - q_attempts r else 0)"
      using list_all2_nthD[OF l i(1)] unfolding i(2) r'_def by simp_all
    have "i < length (queue ?x)" using l i(1) by (simp add: list_all2_lengthD)
    from list_all2_nthD[OF conjunct1[OF t] this] have "count_list ?log (q_id r') \<le> allowance r'" by (simp add: spends_def r'_def)
    with r' show ?thesis by simp
  qed
  with t ids show ?thesis by blast
qed

section \<open>Properties of the worker\<close>

text \<open>A network that never answers, one that accepts everything, and an environment with one message.\<close>

definition demo_dead_net :: smtp_net where
  "demo_dead_net = \<lparr>net_builder = (\<lambda>_. None), net_connect = (\<lambda>_. Inl (OtherMailError ''down'')),
     net_connect_plain = (\<lambda>_. Inl (OtherMailError ''down'')), net_send = (\<lambda>_ _ _ _ _. Inr ())\<rparr>"

definition demo_good_net :: smtp_net where
  "demo_good_net = \<lparr>net_builder = (\<lambda>_. None), net_connect = (\<lambda>_. Inr ()),
     net_connect_plain = (\<lambda>_. Inr ()), net_send = (\<lambda>_ _ _ _ _. Inr ())\<rparr>"

definition demo_mail_env :: mail_env where
  "demo_mail_env = \<lparr>get_blob = (\<lambda>_. Inr ''mail''), ingest_email = (\<lambda>_ _ _. op_return ''b''),
     pgp_outbound = (\<lambda>_ _ _ raw. Inr raw), dkim_sign = (\<lambda>_. Inr []), id_hash = (\<lambda>_. 0)\<rparr>"

lemma demo_mail_env_keeps_queue: "ingest_keeps_queue demo_mail_env"
  by (simp add: ingest_keeps_queue_def demo_mail_env_def op_return_def)

text \<open>C15. Whatever the network answers and whatever database calls fail, a run of the worker, from its start on and for
  any number of turns, makes at most ten attempts at a delivery: those already counted when it starts included, and none
  at one that was delivered or given up, which it never touches. It attempts only what is in the queue, and neither adds
  nor removes deliveries; one still pending has at most nine attempts counted. A retry is granted only before the ninth
  step of its schedule is used up, and is due within a tenth of the scheduled delay. It is assumed that ingesting a
  bounce leaves the queue alone, that queue ids are unique and that the counters are within these limits at the start.
  Attempts are counted in \<open>run_attempts\<close>, the items the turns claim.\<close>

theorem worker_bounded_retries:
  assumes "ingest_keeps_queue env" "keys_unique q_id (queue d)" "attempts_ok (queue d)"
  shows "set (run_attempts env net router show_st hostname start clocks d) \<subseteq> q_id ` set (queue d) \<and>
    (\<forall>r \<in> set (queue d). count_list (run_attempts env net router show_st hostname start clocks d) (q_id r) \<le>
       (if q_status r \<in> {Queued, Sending} then 10 - q_attempts r else 0)) \<and>
    map q_id (queue (worker_run env net router show_st hostname start clocks d)) = map q_id (queue d) \<and>
    attempts_ok (queue (worker_run env net router show_st hostname start clocks d)) \<and>
    (\<forall>r \<in> set (queue d). q_status r \<in> {Delivered, Failed} \<longrightarrow>
       r \<in> set (queue (worker_run env net router show_st hostname start clocks d))) \<and>
    (\<forall>h now item result e t. decide show_st h now item result = OutRetry e t \<longrightarrow>
       qi_attempts item < 9 \<and> \<bar>(t - now) - schedule item ! qi_attempts item\<bar> * 10 \<le> schedule item ! qi_attempts item)"
  using run_attempts_bounded[OF assms, of net router show_st hostname start clocks]
    worker_run_keeps[OF assms refl, of net router show_st hostname start clocks] decide_retry
  by (intro conjI allI impI) blast+

theorem worker_bounded_retries_witness:
  "attempts_ok (queue (worker_run demo_mail_env demo_dead_net (resolve (Static \<lparr>host = ''mx'', port = 25\<rparr>)) (\<lambda>_. ''st'') ''h'' 0 [10, 100] demo_queue_db)) \<and>
   map q_attempts (queue (worker_run demo_mail_env demo_dead_net (resolve (Static \<lparr>host = ''mx'', port = 25\<rparr>)) (\<lambda>_. ''st'') ''h'' 0 [10, 100] demo_queue_db)) = [2, 2, 1]"
proof -
  have "keys_unique q_id (queue demo_queue_db)" "attempts_ok (queue demo_queue_db)" by code_simp+
  note p = worker_bounded_retries[OF demo_mail_env_keeps_queue this]
  have "map q_attempts (queue (worker_run demo_mail_env demo_dead_net (resolve (Static \<lparr>host = ''mx'', port = 25\<rparr>)) (\<lambda>_. ''st'') ''h'' 0 [10, 100] demo_queue_db)) = [2, 2, 1]"
    by code_simp
  with p show ?thesis by blast
qed

text \<open>A relay that fails without settling the matter.\<close>

definition transient :: "smtp_net \<Rightarrow> queue_item \<Rightarrow> string \<Rightarrow> relay \<Rightarrow> bool" where
  "transient net item raw r \<longleftrightarrow> (case deliver_to net r item raw of Inr _ \<Rightarrow> False | Inl (DPermanent _) \<Rightarrow> False | Inl _ \<Rightarrow> True)"

text \<open>The first relay that settles the matter, and its answer.\<close>

definition settled_by :: "smtp_net \<Rightarrow> queue_item \<Rightarrow> string \<Rightarrow> relay list \<Rightarrow> (delivery_error, unit) result \<Rightarrow> bool" where
  "settled_by net item raw rs res \<longleftrightarrow> (case dropWhile (transient net item raw) rs of [] \<Rightarrow> False | r # _ \<Rightarrow> deliver_to net r item raw = res)"

lemma try_relays_settled:
  assumes "case res of Inl e \<Rightarrow> (\<exists>m. e = DPermanent m) | Inr _ \<Rightarrow> True"
    and "\<And>m. last_error \<noteq> Some (DPermanent m)"
  shows "try_relays net item raw last_error rs = res \<longleftrightarrow> settled_by net item raw rs res"
  using assms(2)
proof (induction rs arbitrary: last_error)
  case Nil
  then show ?case using assms(1) by (auto simp: settled_by_def split: sum.splits option.splits)
next
  case (Cons r rs)
  show ?case
  proof (cases "transient net item raw r")
    case True
    then obtain e where e: "deliver_to net r item raw = Inl e" "\<And>m. e \<noteq> DPermanent m"
      by (auto simp: transient_def split: sum.splits delivery_error.splits)
    then have "try_relays net item raw last_error (r # rs) = try_relays net item raw (Some e) rs"
      by (auto split: delivery_error.splits)
    with Cons(1)[of "Some e"] e(2) True show ?thesis by (simp add: settled_by_def)
  next
    case False
    then show ?thesis
      by (auto simp: settled_by_def transient_def split: sum.splits delivery_error.splits)
  qed
qed

lemma attempt_settled:
  assumes "case res of Inl e \<Rightarrow> (\<exists>m. e = DPermanent m) | Inr _ \<Rightarrow> True"
    and "get_blob env (qi_blob_id item) = Inr raw" "router (qi_domain item) = Inr relays"
  shows "attempt env net router item = res \<longleftrightarrow> settled_by net item raw relays res"
  using assms try_relays_settled[OF assms(1), of None net item raw relays]
  by (cases "relays = []") (auto simp: attempt_def settled_by_def split: sum.splits)

text \<open>An attempt whose message and relays are at hand tries the relays in order of preference and
  stops at the first one that accepts or refuses for good: it succeeds exactly if that relay accepts,
  and fails for good exactly if that relay refuses for good. If no relay settles it, the error is not
  permanent, so the delivery is retried.\<close>

lemma attempt_first_settling_relay:
  assumes "get_blob env (qi_blob_id item) = Inr raw" "router (qi_domain item) = Inr relays"
  shows "(attempt env net router item = Inr () \<longleftrightarrow> settled_by net item raw relays (Inr ())) \<and>
    (\<forall>m. attempt env net router item = Inl (DPermanent m) \<longleftrightarrow> settled_by net item raw relays (Inl (DPermanent m))) \<and>
    ((\<forall>r \<in> set relays. transient net item raw r) \<longrightarrow> qi_attempts item < 9 \<longrightarrow>
       (\<exists>e t. decide show_st h now item (attempt env net router item) = OutRetry e t))"
proof -
  have s: "attempt env net router item = Inr () \<longleftrightarrow> settled_by net item raw relays (Inr ())"
    by (rule attempt_settled[of "Inr ()"]) (use assms in simp_all)
  have p: "attempt env net router item = Inl (DPermanent m) \<longleftrightarrow> settled_by net item raw relays (Inl (DPermanent m))" for m
    by (rule attempt_settled[of "Inl (DPermanent m)"]) (use assms in simp_all)
  have "\<exists>e t. decide show_st h now item (attempt env net router item) = OutRetry e t"
    if a: "\<forall>r \<in> set relays. transient net item raw r" "qi_attempts item < 9"
  proof -
    have "dropWhile (transient net item raw) relays = []" using a(1) by (simp add: dropWhile_eq_Nil_conv)
    with s p have "attempt env net router item \<noteq> Inr ()" "\<And>m. attempt env net router item \<noteq> Inl (DPermanent m)"
      by (simp_all add: settled_by_def)
    then show ?thesis using a(2)
      by (cases "attempt env net router item") (auto simp: decide_def Let_def split: delivery_error.splits)
  qed
  with s p show ?thesis by blast
qed

definition demo_two_net :: smtp_net where
  "demo_two_net = demo_good_net\<lparr>net_connect := (\<lambda>r. if host r = ''mx1'' then Inl (OtherMailError ''tls'') else Inr ()),
     net_connect_plain := (\<lambda>_. Inl (UnexpectedReply 550 ''550 5.2.2 mailbox full'' ''dbg''))\<rparr>"

definition demo_dns :: "string \<Rightarrow> mx_lookup" where
  "demo_dns _ = MxAnswers [\<lparr>preference = 20, exchange = ''mx2.'', is_root = False\<rparr>, \<lparr>preference = 10, exchange = ''mx1.'', is_root = False\<rparr>]"

lemma attempt_first_settling_relay_witness:
  "attempt demo_mail_env demo_two_net (resolve (Mx demo_dns)) (row_to_item (demo_row ''1'' 3 0)) = Inr ()"
proof -
  let ?item = "row_to_item (demo_row ''1'' 3 0)" and ?rs = "[\<lparr>host = ''mx1'', port = 25\<rparr>, \<lparr>host = ''mx2'', port = 25\<rparr>]"
  have "get_blob demo_mail_env (qi_blob_id ?item) = Inr ''mail''" by code_simp
  moreover have "resolve (Mx demo_dns) (qi_domain ?item) = Inr ?rs" by code_simp
  moreover have "settled_by demo_two_net ?item ''mail'' ?rs (Inr ())" by code_simp
  ultimately show ?thesis using attempt_first_settling_relay[of demo_mail_env ?item "''mail''" "resolve (Mx demo_dns)" ?rs demo_two_net] by blast
qed

subsection \<open>Progress\<close>

text \<open>Every message is stored, every domain resolves and every relay named for it accepts the mail.\<close>

definition accepting :: "mail_env \<Rightarrow> smtp_net \<Rightarrow> any_router \<Rightarrow> bool" where
  "accepting env net rt \<longleftrightarrow> (\<forall>item. \<exists>raw rs. get_blob env (qi_blob_id item) = Inr raw \<and>
     resolve rt (qi_domain item) = Inr rs \<and> (\<forall>r \<in> set rs. deliver_to net r item raw = Inr ()))"

lemma accepting_attempt: "accepting env net rt \<Longrightarrow> attempt env net (resolve rt) item = Inr ()"
  unfolding accepting_def using router.attempt_accepted by blast

lemma process_item_accepted:
  assumes "accepting env net rt" "faults d = []" and d': "d' = process_item env net (resolve rt) show_st hostname now item d"
  shows "faults d' = [] \<and> queue d' = sql_update (\<lambda>r. q_id r = qi_id item) (mark now OutDelivered) (queue d)"
  using assms(2) unfolding d' process_item_def accepting_attempt[OF assms(1)] record_attempt_mark Let_def
  by (simp add: decide_def)

lemma process_items_accepted:
  assumes "accepting env net rt"
  shows "faults d = [] \<Longrightarrow> distinct (map qi_id items) \<Longrightarrow>
    faults (fold (process_item env net (resolve rt) show_st hostname now) items d) = [] \<and>
    queue (fold (process_item env net (resolve rt) show_st hostname now) items d) =
      sql_update (\<lambda>r. q_id r \<in> qi_id ` set items) (mark now OutDelivered) (queue d)"
proof (induction items arbitrary: d)
  case Nil
  then show ?case by (simp add: sql_update_def)
next
  case (Cons item items)
  let ?d = "process_item env net (resolve rt) show_st hostname now item d"
  note p = process_item_accepted[OF assms Cons(2) refl, of show_st hostname now item]
  have "qi_id item \<notin> qi_id ` set items" "distinct (map qi_id items)" using Cons(3) by simp_all
  then have "sql_update (\<lambda>r. q_id r \<in> qi_id ` set items) (mark now OutDelivered)
      (sql_update (\<lambda>r. q_id r = qi_id item) (mark now OutDelivered) (queue d)) =
      sql_update (\<lambda>r. q_id r \<in> qi_id ` set (item # items)) (mark now OutDelivered) (queue d)"
    by (auto simp: sql_update_def)
  with Cons(1)[of ?d] p \<open>distinct (map qi_id items)\<close> show ?case by simp
qed

lemma mark_sending: "mark now OutDelivered (r\<lparr>q_status := Sending, q_updated_at := now\<rparr>) = mark now OutDelivered r"
  by (simp add: mark_def coalesce_def)

lemma worker_turn_accepted:
  assumes "accepting env net rt" "faults d = []" "keys_unique q_id (queue d)"
    and d': "d' = worker_turn env net (resolve rt) show_st hostname now d"
  shows "faults d' = [] \<and>
    queue d' = sql_update (\<lambda>r. r \<in> set (due_rows now BATCH (queue d))) (mark now OutDelivered) (queue d)"
proof -
  let ?due = "due_rows now BATCH (queue d)"
  obtain items d1 where r: "due_queue_items now BATCH d = (Inr items, d1)" and f: "faults d1 = []"
    using assms(2) by (simp add: due_queue_items_def Let_def)
  have c: "items = fst (claim now BATCH (queue d))" "queue d1 = snd (claim now BATCH (queue d))"
    using due_queue_items_ok[OF r] by simp_all
  have q: "d' = fold (process_item env net (resolve rt) show_st hostname now) items d1"
    unfolding d' by (simp add: worker_turn_def r)
  have "distinct (map qi_id items)" using distinct_claimed[OF assms(3)] c by simp
  from process_items_accepted[OF assms(1) f this] have fin: "faults d' = []"
    "queue d' = sql_update (\<lambda>r. q_id r \<in> qi_id ` set items) (mark now OutDelivered) (queue d1)" unfolding q by simp_all
  have ids: "q_id x \<in> qi_id ` set items \<longleftrightarrow> x \<in> set ?due" if "x \<in> set (queue d)" for x
  proof -
    have "qi_id ` set items = q_id ` set ?due"
      unfolding c(1) claim_def Let_def fst_conv using due_rows_due[of _ now BATCH "queue d"]
      by (force simp: row_to_item_def image_iff)
    with claimed_iff[OF assms(3) that] show ?thesis by simp
  qed
  have "queue d1 = map (\<lambda>x. if x \<in> set ?due then x\<lparr>q_status := Sending, q_updated_at := now\<rparr> else x) (queue d)"
    unfolding c(2) claim_def Let_def snd_conv sql_update_def using claimed_iff[OF assms(3)] by simp
  then have "queue d' = map (\<lambda>x. if x \<in> set ?due then mark now OutDelivered (x\<lparr>q_status := Sending, q_updated_at := now\<rparr>) else x) (queue d)"
    unfolding fin(2) sql_update_def using ids by (auto simp: comp_def)
  with fin(1) show ?thesis by (simp add: sql_update_def mark_sending)
qed

text \<open>What a turn does to each row when mail is accepted.\<close>

definition progress :: "queue_row \<Rightarrow> queue_row \<Rightarrow> bool" where
  "progress r r' \<longleftrightarrow> q_id r' = q_id r \<and> q_next_attempt r' = q_next_attempt r \<and>
     (q_status r' = q_status r \<or> q_status r = Queued \<and> q_status r' = Delivered)"

lemma progress_trans: "list_all2 progress xs ys \<Longrightarrow> list_all2 progress ys zs \<Longrightarrow> list_all2 progress xs zs"
  by (rule list_all2_trans[of progress progress]) (auto simp: progress_def)

lemma progress_ids: "list_all2 progress xs ys \<Longrightarrow> map q_id ys = map q_id xs"
  by (induction rule: list_all2_induct) (simp_all add: progress_def)

lemma mark_delivered_next [simp]: "q_next_attempt (mark now OutDelivered r) = q_next_attempt r"
  by (simp add: mark_def)

definition waiting :: "queue_row list \<Rightarrow> nat" where
  "waiting rows = length (filter (\<lambda>r. q_status r = Queued) rows)"

lemma turn_progress:
  assumes "keys_unique q_id rows" "\<forall>r \<in> set rows. q_status r = Queued \<longrightarrow> q_next_attempt r \<le> now"
    and rows': "rows' = sql_update (\<lambda>r. r \<in> set (due_rows now BATCH rows)) (mark now OutDelivered) rows"
  shows "list_all2 progress rows rows' \<and> waiting rows' = waiting rows - 16"
proof
  let ?due = "due_rows now BATCH rows"
  have due: "x \<in> set ?due \<Longrightarrow> q_status x = Queued" for x using due_rows_due[of x] by (simp add: due_def)
  show "list_all2 progress rows rows'"
    unfolding rows' sql_update_def list_all2_map2 by (rule list_all2_refl) (simp add: progress_def due)
  have "filter (due now) rows = filter (\<lambda>r. q_status r = Queued) rows"
    by (rule filter_cong[OF refl]) (use assms(2) in \<open>auto simp: due_def\<close>)
  then have len: "length ?due = min (waiting rows) 16" by (simp add: due_rows_def waiting_def BATCH_def min.commute)
  have "length (filter (\<lambda>r. r \<in> set ?due) rows) = length ?due"
    using length_claimed[OF assms(1), of now BATCH] claimed_iff[OF assms(1)]
    by (simp add: claim_def Let_def cong: filter_cong)
  moreover have "filter (\<lambda>r. r \<in> set ?due) rows = filter (\<lambda>r. r \<in> set ?due) (filter (\<lambda>r. q_status r = Queued) rows)"
    by (simp add: due conj_commute cong: filter_cong conj_cong) (rule filter_cong, auto simp: due)
  moreover have "waiting rows' = length (filter (\<lambda>r. r \<notin> set ?due) (filter (\<lambda>r. q_status r = Queued) rows))"
    unfolding waiting_def rows' sql_update_def by (auto simp: filter_map comp_def intro!: arg_cong[of _ _ length] filter_cong)
  moreover have "waiting rows = length (filter (\<lambda>r. r \<in> set ?due) (filter (\<lambda>r. q_status r = Queued) rows)) +
      length (filter (\<lambda>r. r \<notin> set ?due) (filter (\<lambda>r. q_status r = Queued) rows))"
    unfolding waiting_def by (rule sum_length_filter_compl[symmetric])
  ultimately have "waiting rows = length ?due + waiting rows'" by metis
  with len show "waiting rows' = waiting rows - 16" by (simp add: min_def split: if_splits)
qed

lemma turns_progress:
  assumes "accepting env net rt" "\<forall>c \<in> set clocks. t \<le> c"
    and "d' = fold (worker_turn env net (resolve rt) show_st hostname) clocks d"
    and "faults d = []" "keys_unique q_id (queue d)" "\<forall>r \<in> set (queue d). q_status r = Queued \<longrightarrow> q_next_attempt r \<le> t"
  shows "list_all2 progress (queue d) (queue d') \<and> waiting (queue d') = waiting (queue d) - 16 * length clocks"
  using assms(2-)
proof (induction clocks arbitrary: d)
  case Nil
  then show ?case by (simp add: list_all2_refl progress_def)
next
  case (Cons c clocks)
  let ?d = "worker_turn env net (resolve rt) show_st hostname c d"
  note w = worker_turn_accepted[OF assms(1) Cons(4,5) refl, of show_st hostname c]
  have c: "t \<le> c" using Cons(2) by simp
  have due: "\<forall>r \<in> set (queue d). q_status r = Queued \<longrightarrow> q_next_attempt r \<le> c" using Cons(6) c by fastforce
  note p = turn_progress[OF Cons(5) due, of "queue ?d"]
  have one: "list_all2 progress (queue d) (queue ?d)" "waiting (queue ?d) = waiting (queue d) - 16" using p w by blast+
  have u: "keys_unique q_id (queue ?d)" using Cons(5) progress_ids[OF one(1)] by (simp add: keys_unique_def)
  have "\<forall>r \<in> set (queue ?d). q_status r = Queued \<longrightarrow> q_next_attempt r \<le> t"
  proof (intro ballI impI)
    fix r assume r: "r \<in> set (queue ?d)" "q_status r = Queued"
    then obtain s where "s \<in> set (queue d)" "progress s r" using one(1) by (metis list_all2_conv_all_nth in_set_conv_nth)
    with r(2) Cons(6) show "q_next_attempt r \<le> t" by (auto simp: progress_def)
  qed
  with Cons(1)[of ?d] Cons(2,3) w u have "list_all2 progress (queue ?d) (queue d') \<and> waiting (queue d') = waiting (queue ?d) - 16 * length clocks"
    by simp
  with one progress_trans show ?case by fastforce
qed

text \<open>C16. When the database works, mail is accepted and the clock has passed every pending delivery's
  next attempt, the worker delivers everything that was queued, and what an earlier worker had claimed
  and left behind, within as many turns as batches of sixteen are needed.\<close>

theorem worker_delivers_all:
  assumes "accepting env net rt" "faults d = []" "keys_unique q_id (queue d)"
    and "\<forall>r \<in> set (queue d). q_status r \<in> {Queued, Sending} \<longrightarrow> q_next_attempt r \<le> t"
    and "\<forall>c \<in> set clocks. t \<le> c" "length (queue d) \<le> 16 * length clocks"
  shows "list_all2 (\<lambda>r r'. q_id r' = q_id r \<and> q_status r' = (if q_status r = Failed then Failed else Delivered))
    (queue d) (queue (worker_run env net (resolve rt) show_st hostname start clocks d))"
proof -
  define d1 where "d1 = snd (reset_stale_claims start d)"
  define d' where "d' = fold (worker_turn env net (resolve rt) show_st hostname) clocks d1"
  let ?reset = "\<lambda>r. if q_status r = Sending then r\<lparr>q_status := Queued, q_updated_at := start\<rparr> else r"
  have d1: "faults d1 = []" "queue d1 = map ?reset (queue d)"
    using assms(2) by (simp_all add: d1_def reset_stale_claims_def sql_update_def)
  have u: "keys_unique q_id (queue d1)"
  proof -
    have "map q_id (queue d1) = map q_id (queue d)" unfolding d1(2) by simp
    with assms(3) show ?thesis by (simp add: keys_unique_def)
  qed
  have due: "\<forall>r \<in> set (queue d1). q_status r = Queued \<longrightarrow> q_next_attempt r \<le> t" using assms(4) unfolding d1(2) by auto
  note p = turns_progress[OF assms(1,5) d'_def d1(1) u due]
  have "waiting (queue d1) \<le> length (queue d1)" by (simp add: waiting_def)
  then have "waiting (queue d') = 0" using p assms(6) d1(2) by simp
  then have fin: "r \<in> set (queue d') \<Longrightarrow> q_status r \<noteq> Queued" for r by (auto simp: waiting_def filter_empty_conv)
  have "list_all2 (\<lambda>r r'. progress (?reset r) r' \<and> r' \<in> set (queue d')) (queue d) (queue d')"
    using p unfolding d1(2) list_all2_map1 by (auto simp: list_all2_conv_all_nth)
  then have "list_all2 (\<lambda>r r'. q_id r' = q_id r \<and> q_status r' = (if q_status r = Failed then Failed else Delivered)) (queue d) (queue d')"
    by (rule list_all2_mono) (use fin in \<open>auto simp: progress_def split: if_splits; metis queue_status.exhaust\<close>)
  then show ?thesis by (simp add: worker_run_def d'_def d1_def)
qed

theorem worker_delivers_all_witness:
  "list_all2 (\<lambda>r r'. q_id r' = q_id r \<and> q_status r' = (if q_status r = Failed then Failed else Delivered)) (queue demo_queue_db)
    (queue (worker_run demo_mail_env demo_good_net (resolve (Static \<lparr>host = ''mx'', port = 25\<rparr>)) (\<lambda>_. ''st'') ''h'' 0 [100] demo_queue_db))"
proof -
  have "accepting demo_mail_env demo_good_net (Static \<lparr>host = ''mx'', port = 25\<rparr>)"
    by (simp add: accepting_def demo_mail_env_def demo_good_net_def static_resolve_def deliver_to_def)
  moreover have "faults demo_queue_db = []" "keys_unique q_id (queue demo_queue_db)"
    "\<forall>r \<in> set (queue demo_queue_db). q_status r \<in> {Queued, Sending} \<longrightarrow> q_next_attempt r \<le> 100"
    "\<forall>c \<in> set [100::int]. 100 \<le> c" "length (queue demo_queue_db) \<le> 16 * length [100::int]" by code_simp+
  ultimately show ?thesis by (rule worker_delivers_all)
qed

subsection \<open>The bounce\<close>

definition no_break :: "string \<Rightarrow> bool" where
  "no_break s \<longleftrightarrow> CR \<notin> set s \<and> LF \<notin> set s"

lemma no_break_append [simp]: "no_break (a @ b) \<longleftrightarrow> no_break a \<and> no_break b"
  by (auto simp: no_break_def)

lemma no_break_Cons [simp]: "no_break (c # s) \<longleftrightarrow> c \<noteq> CR \<and> c \<noteq> LF \<and> no_break s"
  by (auto simp: no_break_def)

lemma no_break_Nil [simp]: "no_break []"
  by (simp add: no_break_def)

lemma no_break_strip: "no_break rep \<Longrightarrow> no_break (strip_breaks rep s)"
  by (induction s) (auto simp: strip_breaks_def)

lemma digit_no_break:
  assumes "n < 10"
  shows "char_of (48 + n :: nat) \<noteq> CR \<and> char_of (48 + n :: nat) \<noteq> LF"
proof -
  have "of_char CR = (13 :: nat)" "of_char LF = (10 :: nat)" by (simp_all add: CR_def LF_def)
  moreover have "of_char (char_of (48 + n :: nat)) = 48 + n" using assms by simp
  moreover have "48 + n \<noteq> 13" "48 + n \<noteq> 10" by simp_all
  ultimately show ?thesis by metis
qed

lemma no_break_show_nat: "no_break (show_nat n)"
proof (induction n rule: show_nat.induct)
  case (1 n)
  then show ?case using digit_no_break[of n] digit_no_break[of "n mod 10"] by (subst show_nat.simps) simp
qed

lemma no_break_show_int: "no_break (show_int i)"
  by (simp add: show_int_def no_break_show_nat CR_def LF_def)

lemma words_no_space: "w \<in> set (words_acc acc s) \<Longrightarrow> (\<forall>c \<in> set acc. \<not> is_space c) \<Longrightarrow> c \<in> set w \<Longrightarrow> \<not> is_space c"
  by (induction acc s rule: words_acc.induct) (auto split: if_splits)

lemma parse_enhanced_status_no_break: "parse_enhanced_status err = Some code \<Longrightarrow> no_break code"
proof -
  assume "parse_enhanced_status err = Some code"
  then have "code \<in> set (words_acc [] err)"
    by (auto simp: parse_enhanced_status_def split_whitespace_def find_Some_iff)
  then have "c \<in> set code \<Longrightarrow> \<not> is_space c" for c using words_no_space[of code "[]" err c] by simp
  moreover have "is_space CR" "is_space LF" by (simp_all add: is_space_def CR_def LF_def)
  ultimately show ?thesis unfolding no_break_def by blast
qed

text \<open>The lines of a message, as a reader splits them.\<close>

definition message_lines :: "string \<Rightarrow> string list" where
  "message_lines s = map (\<lambda>l. if l \<noteq> [] \<and> last l = CR then butlast l else l) (split_on LF s)"

lemma message_lines_concat:
  assumes "\<forall>l \<in> set ls. no_break l"
  shows "message_lines (concat (map (\<lambda>l. l @ CRLF) ls)) = ls @ [[]]"
  using assms
proof (induction ls)
  case (Cons l ls)
  have "LF \<notin> set (l @ [CR])" using Cons(2) by (simp add: no_break_def CR_def LF_def)
  from split_on_append[OF this] Cons show ?case by (simp add: message_lines_def CRLF_def)
qed (simp add: message_lines_def)

lemma dsn_lines_no_break:
  assumes "no_break hostname" "no_break date" "no_break status_code"
  shows "\<forall>l \<in> set (dsn_lines hostname date now item error status_code). no_break l"
proof -
  have "no_break (strip_breaks '' '' error)" "no_break (strip_breaks [] s)" for s
    by (rule no_break_strip; simp add: CR_def LF_def)+
  with assms show ?thesis
    by (simp add: dsn_lines_def Let_def no_break_show_int no_break_show_nat) (simp add: CR_def LF_def)
qed

lemma no_break_rfc2822: "no_break (rfc2822_utc t)"
proof -
  have "\<not> date_char CR" "\<not> date_char LF"
    by (simp_all add: date_char_def is_ascii_digit_def CR_def LF_def WEEKDAYS_def MONTHS_def)
  then show ?thesis using date_char_rfc2822[of t] by (auto simp: no_break_def list_all_iff)
qed

text \<open>C17. A bounce cannot be forged into: whatever the sender and recipient addresses and the relay's
  error text contain, line breaks included, the message a bounce stores reads back as its thirty-seven
  lines, with exactly the eight header lines the code writes before the first empty line.\<close>

theorem bounce_no_injection:
  assumes "no_break hostname"
    and code: "status_code = (case parse_enhanced_status error of Some c \<Rightarrow> c | None \<Rightarrow> ''5.0.0'')"
  shows "message_lines (build_dsn hostname (rfc2822_utc now) now item error status_code) =
      dsn_lines hostname (rfc2822_utc now) now item error status_code @ [[]] \<and>
    length (dsn_lines hostname (rfc2822_utc now) now item error status_code) = 37 \<and>
    length (takeWhile (\<lambda>l. l \<noteq> []) (message_lines (build_dsn hostname (rfc2822_utc now) now item error status_code))) = 8"
proof -
  have "no_break status_code"
    using code parse_enhanced_status_no_break[of error] by (auto simp: CR_def LF_def split: option.splits)
  note l = message_lines_concat[OF dsn_lines_no_break[OF assms(1) no_break_rfc2822 this, of now now item error]]
  moreover have "length (dsn_lines hostname (rfc2822_utc now) now item error status_code) = 37"
    and "length (takeWhile (\<lambda>l. l \<noteq> []) (dsn_lines hostname (rfc2822_utc now) now item error status_code @ [[]])) = 8"
    by (simp_all add: dsn_lines_def Let_def)
  ultimately show ?thesis by (simp add: build_dsn_def)
qed

theorem bounce_no_injection_witness:
  "length (message_lines (build_dsn ''h'' (rfc2822_utc 5) 5 (row_to_item (demo_row ''1'' 3 0)\<lparr>qi_mail_from := ''a@b'' @ CRLF @ ''Bcc: c@d''\<rparr>)
      (''550 5.1.1 no'' @ CRLF @ CRLF @ ''body'') ''5.1.1'')) = 38"
proof -
  have "no_break ''h''"
    "''5.1.1'' = (case parse_enhanced_status (''550 5.1.1 no'' @ CRLF @ CRLF @ ''body'') of Some c \<Rightarrow> c | None \<Rightarrow> ''5.0.0'')"
    by code_simp+
  from bounce_no_injection[OF this, of 5 "row_to_item (demo_row ''1'' 3 0)\<lparr>qi_mail_from := ''a@b'' @ CRLF @ ''Bcc: c@d''\<rparr>"]
  show ?thesis by simp
qed

end
