(* ===== verification/Calendar_Store.thy ===== *)
theory Calendar_Store
  imports Storage_Db
begin

text \<open>
  \<open>crates/owney-storage/src/calendar.rs\<close>: calendars, their events, the events synchronized in from another
  server, and the pages in which events are served to it. New ids and the clock are arguments.
\<close>

section \<open>Definitions\<close>

definition has_calendar :: "db \<Rightarrow> string \<Rightarrow> bool" where
  "has_calendar d c \<longleftrightarrow> c \<in> cal_id ` set (calendars d)"

definition owns_calendar :: "db \<Rightarrow> string \<Rightarrow> string \<Rightarrow> bool" where
  "owns_calendar d acct c \<longleftrightarrow> (\<exists>r \<in> set (calendars d). cal_id r = c \<and> cal_account_id r = acct)"

definition create_calendar :: "string \<Rightarrow> int \<Rightarrow> string \<Rightarrow> string \<Rightarrow> string option \<Rightarrow> calendar_row op" where
  "create_calendar new_id now acct name description = db_call (\<lambda>d.
     (let row = \<lparr>cal_id = new_id, cal_account_id = acct, cal_name = name, cal_description = description,
                 cal_created_at = now, cal_updated_at = now\<rparr>
      in case sql_insert cal_id row (calendars d) of
           None \<Rightarrow> (Inl unique_error, d)
         | Some rows \<Rightarrow> if has_account d acct then (Inr row, d\<lparr>calendars := rows\<rparr>) else (Inl fk_error, d)))"

definition get_calendar :: "string \<Rightarrow> string \<Rightarrow> calendar_row option op" where
  "get_calendar acct c = db_call (\<lambda>d. (Inr (sql_select (\<lambda>r. cal_id r = c \<and> cal_account_id r = acct) (calendars d)), d))"

definition get_calendar_by_id :: "string \<Rightarrow> calendar_row option op" where
  "get_calendar_by_id c = db_call (\<lambda>d. (Inr (sql_select (\<lambda>r. cal_id r = c) (calendars d)), d))"

definition list_calendars :: "string \<Rightarrow> calendar_row list op" where
  "list_calendars acct = db_call (\<lambda>d. (Inr (sort_key cal_created_at (filter (\<lambda>r. cal_account_id r = acct) (calendars d))), d))"

text \<open>\<open>INSERT INTO calendar_events\<close>.\<close>

definition insert_event :: "calendar_event_row \<Rightarrow> unit op" where
  "insert_event row d =
     (case sql_insert ev_id row (calendar_events d) of
        None \<Rightarrow> (Inl unique_error, d)
      | Some rows \<Rightarrow> if has_calendar d (ev_calendar_id row) then (Inr (), d\<lparr>calendar_events := rows\<rparr>) else (Inl fk_error, d))"

definition new_event :: "string \<Rightarrow> int \<Rightarrow> string \<Rightarrow> string \<Rightarrow> string option \<Rightarrow> int \<Rightarrow> int \<Rightarrow> string option \<Rightarrow> calendar_event_row" where
  "new_event new_id now c title description start fin rrule =
     \<lparr>ev_id = new_id, ev_calendar_id = c, ev_title = title, ev_description = description, ev_start = start,
      ev_end = fin, ev_rrule = rrule, ev_created_at = now, ev_updated_at = now, ev_origin = None, ev_origin_federation = None\<rparr>"

definition create_calendar_event :: "string \<Rightarrow> int \<Rightarrow> string \<Rightarrow> string \<Rightarrow> string option \<Rightarrow> int \<Rightarrow> int \<Rightarrow> string option \<Rightarrow> calendar_event_row op" where
  "create_calendar_event new_id now c title description start fin rrule =
     (let row = new_event new_id now c title description start fin rrule
      in db_call (op_bind (insert_event row) (\<lambda>_. op_return row)))"

definition get_calendar_event :: "string \<Rightarrow> calendar_event_row option op" where
  "get_calendar_event eid = db_call (\<lambda>d. (Inr (sql_select (\<lambda>r. ev_id r = eid) (calendar_events d)), d))"

definition list_calendar_events :: "string \<Rightarrow> calendar_event_row list op" where
  "list_calendar_events c = db_call (\<lambda>d. (Inr (sort_key ev_start (filter (\<lambda>r. ev_calendar_id r = c) (calendar_events d))), d))"

text \<open>The events of an account that overlap the half-open interval from \<open>lo\<close> to \<open>hi\<close>.\<close>

definition overlaps :: "db \<Rightarrow> string \<Rightarrow> int \<Rightarrow> int \<Rightarrow> calendar_event_row \<Rightarrow> bool" where
  "overlaps d acct lo hi e \<longleftrightarrow> owns_calendar d acct (ev_calendar_id e) \<and> ev_start e < hi \<and> ev_end e > lo"

definition events_overlapping :: "string \<Rightarrow> int \<Rightarrow> int \<Rightarrow> (int \<times> int) list op" where
  "events_overlapping acct lo hi = db_call (\<lambda>d.
     (Inr (map (\<lambda>e. (ev_start e, ev_end e)) (sort_key ev_start (filter (overlaps d acct lo hi) (calendar_events d)))), d))"

definition patch :: "'a option \<Rightarrow> 'a \<Rightarrow> 'a" where
  "patch new old = (case new of Some v \<Rightarrow> v | None \<Rightarrow> old)"

definition update_calendar_event :: "int \<Rightarrow> string \<Rightarrow> string option \<Rightarrow> string option \<Rightarrow> int option \<Rightarrow> int option \<Rightarrow> string option \<Rightarrow> unit op" where
  "update_calendar_event now eid title description start fin rrule = db_call (\<lambda>d. (Inr (),
     d\<lparr>calendar_events := sql_update (\<lambda>r. ev_id r = eid) (\<lambda>r. r\<lparr>
        ev_updated_at := now,
        ev_title := patch title (ev_title r),
        ev_description := (case description of Some x \<Rightarrow> Some x | None \<Rightarrow> ev_description r),
        ev_start := patch start (ev_start r),
        ev_end := patch fin (ev_end r),
        ev_rrule := (case rrule of Some x \<Rightarrow> Some x | None \<Rightarrow> ev_rrule r)\<rparr>) (calendar_events d)\<rparr>))"

text \<open>An event of a booking or of a federation's mapping cannot be deleted: the foreign keys have no
  action.\<close>

definition delete_calendar_event :: "string \<Rightarrow> unit op" where
  "delete_calendar_event eid = db_call (\<lambda>d.
     if eid \<in> ev_id ` set (calendar_events d) \<and>
        (eid \<in> bk_event_id ` set (bookings d) \<or> eid \<in> fm_local_event_id ` set (federation_event_map d))
     then (Inl fk_error, d)
     else (Inr (), d\<lparr>calendar_events := sql_delete (\<lambda>r. ev_id r = eid) (calendar_events d)\<rparr>))"

definition list_calendar_events_since :: "string \<Rightarrow> int \<Rightarrow> calendar_event_row list op" where
  "list_calendar_events_since c since = db_call (\<lambda>d.
     (Inr (sort_key ev_updated_at (filter (\<lambda>r. ev_calendar_id r = c \<and> ev_updated_at r > since) (calendar_events d))), d))"

text \<open>The keyset cursor: the position after a pair of update time and id, in the order of these pairs.\<close>

definition after_cursor :: "int \<Rightarrow> string \<Rightarrow> calendar_event_row \<Rightarrow> bool" where
  "after_cursor t i r \<longleftrightarrow> ev_updated_at r > t \<or> ev_updated_at r = t \<and> ev_id r > i"

definition page_order :: "calendar_event_row list \<Rightarrow> calendar_event_row list" where
  "page_order rows = sort_key ev_updated_at (sort_key ev_id rows)"

definition served :: "string \<Rightarrow> bool \<Rightarrow> calendar_event_row \<Rightarrow> bool" where
  "served c exclude_remote r \<longleftrightarrow> ev_calendar_id r = c \<and> (\<not> exclude_remote \<or> ev_origin r = None \<or> ev_origin r \<noteq> Some ''remote'')"

definition list_calendar_events_page :: "string \<Rightarrow> int \<Rightarrow> string \<Rightarrow> nat \<Rightarrow> bool \<Rightarrow> calendar_event_row list op" where
  "list_calendar_events_page c after_updated_at after_id limit exclude_remote = db_call (\<lambda>d.
     (Inr (take limit (page_order
        (filter (\<lambda>r. served c exclude_remote r \<and> after_cursor after_updated_at after_id r) (calendar_events d)))), d))"

definition create_remote_calendar_event :: "string \<Rightarrow> int \<Rightarrow> string \<Rightarrow> string \<Rightarrow> string \<Rightarrow> string option \<Rightarrow> int \<Rightarrow> int \<Rightarrow> string option \<Rightarrow> string op" where
  "create_remote_calendar_event new_id now c fed title description start fin rrule =
     db_call (op_bind (insert_event ((new_event new_id now c title description start fin rrule)
        \<lparr>ev_origin := Some ''remote'', ev_origin_federation := Some fed\<rparr>)) (\<lambda>_. op_return new_id))"

definition update_remote_calendar_event :: "int \<Rightarrow> string \<Rightarrow> string \<Rightarrow> string option \<Rightarrow> int \<Rightarrow> int \<Rightarrow> string option \<Rightarrow> unit op" where
  "update_remote_calendar_event now eid title description start fin rrule = db_call (\<lambda>d. (Inr (),
     d\<lparr>calendar_events := sql_update (\<lambda>r. ev_id r = eid \<and> ev_origin r = Some ''remote'') (\<lambda>r. r\<lparr>
        ev_title := title, ev_description := description, ev_start := start, ev_end := fin, ev_rrule := rrule,
        ev_updated_at := now\<rparr>) (calendar_events d)\<rparr>))"

definition get_calendar_events_by_ids :: "string \<Rightarrow> string list \<Rightarrow> calendar_event_row list op" where
  "get_calendar_events_by_ids c ids =
     (if ids = [] then op_return []
      else db_call (\<lambda>d. (Inr (filter (\<lambda>r. ev_calendar_id r = c \<and> ev_id r \<in> set ids) (calendar_events d)), d)))"

end
