(* ===== verification/Scheduling_Store.thy ===== *)
theory Scheduling_Store
  imports Calendar_Store
begin

text \<open>
  \<open>crates/owney-storage/src/scheduling.rs\<close>: booking pages, their validation, and the transaction that books
  a slot. Which time zone names exist is a parameter; new ids, the clock and the cancel token are
  arguments.
\<close>

section \<open>Definitions\<close>

subsection \<open>Validation\<close>

text \<open>\<open>{:?}\<close> of a string.\<close>

fun show_hex :: "nat \<Rightarrow> string" where
  "show_hex n = (let c = char_of (if n mod 16 < 10 then 48 + n mod 16 else 87 + n mod 16)
                 in if n < 16 then [c] else show_hex (n div 16) @ [c])"

declare show_hex.simps [simp del]

definition debug_char :: "char \<Rightarrow> string" where
  "debug_char c = (let n = (of_char c :: nat) in
     if c = CHR 0x22 then [CHR 0x5C, CHR 0x22]
     else if c = CHR 0x5C then [CHR 0x5C, CHR 0x5C]
     else if n = 9 then [CHR 0x5C, CHR ''t'']
     else if n = 10 then [CHR 0x5C, CHR ''n'']
     else if n = 13 then [CHR 0x5C, CHR ''r'']
     else if n = 0 then [CHR 0x5C, CHR ''0'']
     else if n < 32 \<or> n = 127 then [CHR 0x5C] @ ''u{'' @ show_hex n @ ''}''
     else [c])"

definition debug_str :: "string \<Rightarrow> string" where
  "debug_str s = [CHR 0x22] @ concat (map debug_char s) @ [CHR 0x22]"

definition WEEKDAY_KEYS :: "string list" where
  "WEEKDAY_KEYS = [''mon'', ''tue'', ''wed'', ''thu'', ''fri'', ''sat'', ''sun'']"

definition parse_time :: "string \<Rightarrow> (storage_error, nat) result" where
  "parse_time v =
     (case split_once (CHR '':'') v of
        None \<Rightarrow> Inl (StBadInput (''bad time '' @ debug_str v))
      | Some (h, m) \<Rightarrow>
          (case (parse_unsigned (2 ^ 32) h, parse_unsigned (2 ^ 32) m) of
             (Some h, Some m) \<Rightarrow> if h < 24 \<and> m < 60 \<and> h < 100 then Inr (h * 60 + m) else Inl (StBadInput (''bad time '' @ debug_str v))
           | _ \<Rightarrow> Inl (StBadInput (''bad time '' @ debug_str v))))"

definition parse_minutes :: "time_window \<Rightarrow> (storage_error, nat \<times> nat) result" where
  "parse_minutes w =
     (case parse_time (tw_start w) of
        Inl e \<Rightarrow> Inl e
      | Inr s \<Rightarrow> (case parse_time (tw_end w) of Inl e \<Rightarrow> Inl e | Inr t \<Rightarrow> Inr (s, t)))"

definition default_business_hours :: availability where
  "default_business_hours =
     (let window = [\<lparr>tw_start = ''09:00'', tw_end = ''17:00''\<rparr>]
      in \<lparr>av_version = 1,
          av_weekly = foldr (\<lambda>day m. bt_insert day window m) [''mon'', ''tue'', ''wed'', ''thu'', ''fri''] [],
          av_overrides = []\<rparr>)"

text \<open>\<open>str::parse\<close> for \<open>i32\<close>.\<close>

definition parse_i32 :: "string \<Rightarrow> int option" where
  "parse_i32 s = (case s of
      c # r \<Rightarrow> if c = CHR ''-'' then (case r of [] \<Rightarrow> None | _ \<Rightarrow> (case digits_val 0 r of Some n \<Rightarrow> if n \<le> 2 ^ 31 then Some (- int n) else None | None \<Rightarrow> None))
               else map_option int (parse_unsigned (2 ^ 31) s)
    | [] \<Rightarrow> None)"

definition parse_date :: "string \<Rightarrow> (int \<times> nat \<times> nat) option" where
  "parse_date v =
     (if length v \<noteq> 10 \<or> v ! 4 \<noteq> CHR ''-'' \<or> v ! 7 \<noteq> CHR ''-'' then None
      else (case (parse_i32 (take 4 v), parse_unsigned (2 ^ 32) (take 2 (drop 5 v)), parse_unsigned (2 ^ 32) (take 2 (drop 8 v))) of
              (Some y, Some m, Some d) \<Rightarrow> if 1 \<le> m \<and> m \<le> 12 \<and> 1 \<le> d \<and> d \<le> 31 then Some (y, m, d) else None
            | _ \<Rightarrow> None))"

fun check_windows :: "nat \<Rightarrow> time_window list \<Rightarrow> (storage_error, unit) result" where
  "check_windows previous_end [] = Inr ()"
| "check_windows previous_end (w # ws) =
     (case parse_minutes w of
        Inl e \<Rightarrow> Inl e
      | Inr (s, t) \<Rightarrow>
          if s \<ge> t then Inl (StBadInput (''window '' @ tw_start w @ ''-'' @ tw_end w @ '' is empty or reversed''))
          else if s < previous_end then Inl (StBadInput ''windows must be sorted and non-overlapping'')
          else check_windows t ws)"

fun check_all_windows :: "time_window list list \<Rightarrow> (storage_error, unit) result" where
  "check_all_windows [] = Inr ()"
| "check_all_windows (ws # rest) = (case check_windows 0 ws of Inl e \<Rightarrow> Inl e | Inr _ \<Rightarrow> check_all_windows rest)"

definition validate :: "availability \<Rightarrow> (storage_error, unit) result" where
  "validate a =
     (if av_version a \<noteq> 1 then Inl (StBadInput (''unsupported availability version '' @ show_nat (av_version a)))
      else (case find (\<lambda>day. day \<notin> set WEEKDAY_KEYS) (map fst (av_weekly a)) of
              Some day \<Rightarrow> Inl (StBadInput (''unknown weekday '' @ debug_str day))
            | None \<Rightarrow>
                (case find (\<lambda>date. parse_date date = None) (map fst (av_overrides a)) of
                   Some date \<Rightarrow> Inl (StBadInput (''bad override date '' @ debug_str date @ '' (want YYYY-MM-DD)''))
                 | None \<Rightarrow> check_all_windows (map snd (av_weekly a) @ map snd (av_overrides a)))))"

definition slug_char :: "char \<Rightarrow> bool" where
  "slug_char c \<longleftrightarrow> (let n = (of_char c :: nat) in 97 \<le> n \<and> n \<le> 122) \<or> is_ascii_digit c \<or> c = CHR ''-''"

definition validate_slug :: "string \<Rightarrow> (storage_error, unit) result" where
  "validate_slug slug =
     (if \<not> (2 \<le> length slug \<and> length slug \<le> 64) \<or> \<not> list_all slug_char slug \<or>
         (slug \<noteq> [] \<and> (hd slug = CHR ''-'' \<or> last slug = CHR ''-''))
      then Inl (StBadInput (''slug '' @ debug_str slug @ '' must be 2-64 chars of [a-z0-9-], not edged with '' @ [CHR 0x27, CHR ''-'', CHR 0x27]))
      else Inr ())"

definition some_list :: "'a option list \<Rightarrow> 'a list" where
  "some_list xs = concat (map (\<lambda>x. case x of None \<Rightarrow> [] | Some y \<Rightarrow> [y]) xs)"

definition validate_common :: "(string \<Rightarrow> bool) \<Rightarrow> string \<Rightarrow> availability \<Rightarrow> nat list \<Rightarrow> nat \<Rightarrow> nat \<Rightarrow> nat \<Rightarrow>
    string option \<Rightarrow> string option \<Rightarrow> (storage_error, unit) result" where
  "validate_common tz_known timezone availability durations buffer_before buffer_after min_notice valid_from valid_until =
     (if \<not> tz_known timezone then Inl (StBadInput (''unknown IANA timezone '' @ debug_str timezone))
      else (case validate availability of
        Inl e \<Rightarrow> Inl e
      | Inr _ \<Rightarrow>
          if durations = [] \<or> \<not> list_all (\<lambda>m. 5 \<le> m \<and> m \<le> 480) durations
          then Inl (StBadInput ''durations must be 1+ values between 5 and 480 minutes'')
          else if buffer_before > 24 * 60 \<or> buffer_after > 24 * 60 \<or> min_notice > 90 * 24 * 60
          then Inl (StBadInput ''buffers must be <= 24h and notice <= 90 days'')
          else (case find (\<lambda>date. parse_date date = None) (some_list [valid_from, valid_until]) of
                  Some date \<Rightarrow> Inl (StBadInput (''bad date '' @ debug_str date @ '' (want YYYY-MM-DD)''))
                | None \<Rightarrow>
                    (case (valid_from, valid_until) of
                       (Some f, Some u) \<Rightarrow> if f > u then Inl (StBadInput ''validFrom must not be after validUntil'') else Inr ()
                     | _ \<Rightarrow> Inr ()))))"

subsection \<open>Pages\<close>

record new_page =
  np_slug :: string
  np_title :: string
  np_description :: "string option"
  np_calendar_id :: string
  np_timezone :: string
  np_availability :: availability
  np_durations_mins :: "nat list"
  np_buffer_before_mins :: nat
  np_buffer_after_mins :: nat
  np_min_notice_mins :: nat
  np_max_per_day :: "nat option"
  np_valid_from :: "string option"
  np_valid_until :: "string option"

definition bad_title :: "string \<Rightarrow> bool" where
  "bad_title t \<longleftrightarrow> t = [] \<or> length t > 200"

definition page_of :: "string \<Rightarrow> int \<Rightarrow> string \<Rightarrow> new_page \<Rightarrow> page_row" where
  "page_of i now acct n =
     \<lparr>pg_id = i, pg_account_id = acct, pg_slug = np_slug n, pg_title = np_title n, pg_description = np_description n,
      pg_calendar_id = np_calendar_id n, pg_timezone = np_timezone n, pg_availability = np_availability n,
      pg_durations_mins = np_durations_mins n, pg_buffer_before_mins = np_buffer_before_mins n,
      pg_buffer_after_mins = np_buffer_after_mins n, pg_min_notice_mins = np_min_notice_mins n,
      pg_max_per_day = np_max_per_day n, pg_valid_from = np_valid_from n, pg_valid_until = np_valid_until n,
      pg_active = True, pg_created_at = now, pg_updated_at = now\<rparr>"

definition create_page_tx :: "string \<Rightarrow> int \<Rightarrow> string \<Rightarrow> new_page \<Rightarrow> page_row op" where
  "create_page_tx i now acct n d =
     (if \<not> owns_calendar d acct (np_calendar_id n) then (Inl StNotAuthorized, d)
      else if np_slug n \<in> pg_slug ` set (scheduling_pages d)
      then (Inl (StBadInput (''slug '' @ debug_str (np_slug n) @ '' is already in use'')), d)
      else (case sql_insert pg_id (page_of i now acct n) (scheduling_pages d) of
              None \<Rightarrow> (Inl unique_error, d)
            | Some rows \<Rightarrow> if has_account d acct then (Inr (page_of i now acct n), d\<lparr>scheduling_pages := rows\<rparr>) else (Inl fk_error, d)))"

definition create_scheduling_page :: "(string \<Rightarrow> bool) \<Rightarrow> string \<Rightarrow> int \<Rightarrow> string \<Rightarrow> new_page \<Rightarrow> page_row op" where
  "create_scheduling_page tz_known i now acct n =
     (case validate_slug (np_slug n) of
        Inl e \<Rightarrow> op_fail e
      | Inr _ \<Rightarrow>
          (case validate_common tz_known (np_timezone n) (np_availability n) (np_durations_mins n) (np_buffer_before_mins n)
                  (np_buffer_after_mins n) (np_min_notice_mins n) (np_valid_from n) (np_valid_until n) of
             Inl e \<Rightarrow> op_fail e
           | Inr _ \<Rightarrow>
               if bad_title (np_title n) then op_fail (StBadInput ''title must be 1-200 chars'')
               else db_call (transaction (create_page_tx i now acct n))))"

record page_patch =
  pp_title :: "string option"
  pp_description :: "string option option"
  pp_timezone :: "string option"
  pp_availability :: "availability option"
  pp_durations_mins :: "nat list option"
  pp_buffer_before_mins :: "nat option"
  pp_buffer_after_mins :: "nat option"
  pp_min_notice_mins :: "nat option"
  pp_max_per_day :: "nat option option"
  pp_valid_from :: "string option option"
  pp_valid_until :: "string option option"
  pp_active :: "bool option"

definition apply_patch :: "int \<Rightarrow> page_patch \<Rightarrow> page_row \<Rightarrow> page_row" where
  "apply_patch now p r = r\<lparr>
     pg_title := patch (pp_title p) (pg_title r),
     pg_description := patch (pp_description p) (pg_description r),
     pg_timezone := patch (pp_timezone p) (pg_timezone r),
     pg_availability := patch (pp_availability p) (pg_availability r),
     pg_durations_mins := patch (pp_durations_mins p) (pg_durations_mins r),
     pg_buffer_before_mins := patch (pp_buffer_before_mins p) (pg_buffer_before_mins r),
     pg_buffer_after_mins := patch (pp_buffer_after_mins p) (pg_buffer_after_mins r),
     pg_min_notice_mins := patch (pp_min_notice_mins p) (pg_min_notice_mins r),
     pg_max_per_day := patch (pp_max_per_day p) (pg_max_per_day r),
     pg_valid_from := patch (pp_valid_from p) (pg_valid_from r),
     pg_valid_until := patch (pp_valid_until p) (pg_valid_until r),
     pg_active := patch (pp_active p) (pg_active r),
     pg_updated_at := now\<rparr>"

definition update_page_tx :: "(string \<Rightarrow> bool) \<Rightarrow> int \<Rightarrow> string \<Rightarrow> string \<Rightarrow> page_patch \<Rightarrow> page_row op" where
  "update_page_tx tz_known now acct page_id p d =
     (case sql_select (\<lambda>r. pg_id r = page_id \<and> pg_account_id r = acct) (scheduling_pages d) of
        None \<Rightarrow> (Inl StNotAuthorized, d)
      | Some current \<Rightarrow>
          (let new = apply_patch now p current in
           if bad_title (pg_title new) then (Inl (StBadInput ''title must be 1-200 chars''), d)
           else (case validate_common tz_known (pg_timezone new) (pg_availability new) (pg_durations_mins new)
                        (pg_buffer_before_mins new) (pg_buffer_after_mins new) (pg_min_notice_mins new)
                        (pg_valid_from new) (pg_valid_until new) of
                   Inl e \<Rightarrow> (Inl e, d)
                 | Inr _ \<Rightarrow> (Inr new, d\<lparr>scheduling_pages := sql_update (\<lambda>r. pg_id r = page_id) (\<lambda>_. new) (scheduling_pages d)\<rparr>))))"

definition update_scheduling_page :: "(string \<Rightarrow> bool) \<Rightarrow> int \<Rightarrow> string \<Rightarrow> string \<Rightarrow> page_patch \<Rightarrow> page_row op" where
  "update_scheduling_page tz_known now acct page_id p = db_call (transaction (update_page_tx tz_known now acct page_id p))"

definition get_scheduling_page :: "string \<Rightarrow> string \<Rightarrow> page_row option op" where
  "get_scheduling_page acct page_id = db_call (\<lambda>d. (Inr (sql_select (\<lambda>r. pg_id r = page_id \<and> pg_account_id r = acct) (scheduling_pages d)), d))"

definition get_scheduling_page_by_slug :: "string \<Rightarrow> page_row option op" where
  "get_scheduling_page_by_slug slug = db_call (\<lambda>d. (Inr (sql_select (\<lambda>r. pg_slug r = slug) (scheduling_pages d)), d))"

definition list_scheduling_pages :: "string \<Rightarrow> page_row list op" where
  "list_scheduling_pages acct = db_call (\<lambda>d. (Inr (sort_key pg_created_at (filter (\<lambda>r. pg_account_id r = acct) (scheduling_pages d))), d))"

subsection \<open>Bookings\<close>

definition list_bookings :: "string \<Rightarrow> string option \<Rightarrow> booking_row list op" where
  "list_bookings acct page_id = db_call (\<lambda>d. (Inr (sort_key bk_start (filter (\<lambda>b. bk_account_id b = acct \<and>
     (case page_id of None \<Rightarrow> True | Some p \<Rightarrow> bk_page_id b = p)) (bookings d))), d))"

definition confirmed_between :: "string \<Rightarrow> int \<Rightarrow> int \<Rightarrow> booking_row \<Rightarrow> bool" where
  "confirmed_between page_id lo hi b \<longleftrightarrow> bk_page_id b = page_id \<and> bk_confirmed b \<and> bk_start b \<ge> lo \<and> bk_start b < hi"

definition list_confirmed_bookings_in_range :: "string \<Rightarrow> int \<Rightarrow> int \<Rightarrow> booking_row list op" where
  "list_confirmed_bookings_in_range page_id lo hi = db_call (\<lambda>d.
     (Inr (sort_key bk_start (filter (confirmed_between page_id lo hi) (bookings d))), d))"

record book_slot_request =
  bs_page_id :: string
  bs_visitor_name :: string
  bs_visitor_email :: string
  bs_note :: "string option"
  bs_start :: int
  bs_end :: int
  bs_busy_from :: int
  bs_busy_to :: int
  bs_event_title :: string
  bs_event_description :: "string option"
  bs_day_bounds :: "int \<times> int"

record booking_ids =
  bi_event :: string
  bi_booking :: string
  bi_token :: string

definition day_full :: "book_slot_request \<Rightarrow> nat option \<Rightarrow> db \<Rightarrow> bool" where
  "day_full req max_per_day d =
     (case max_per_day of
        None \<Rightarrow> False
      | Some limit \<Rightarrow> sql_count (confirmed_between (bs_page_id req) (fst (bs_day_bounds req)) (snd (bs_day_bounds req))) (bookings d) \<ge> limit)"

definition busy_event :: "string \<Rightarrow> book_slot_request \<Rightarrow> db \<Rightarrow> bool" where
  "busy_event acct req d \<longleftrightarrow> (\<exists>e \<in> set (calendar_events d). overlaps d acct (bs_busy_from req) (bs_busy_to req) e)"

definition busy_booking :: "string \<Rightarrow> book_slot_request \<Rightarrow> db \<Rightarrow> bool" where
  "busy_booking acct req d \<longleftrightarrow> (\<exists>b \<in> set (bookings d). bk_account_id b = acct \<and> bk_confirmed b \<and>
     bk_start b < bs_busy_to req \<and> bk_end b > bs_busy_from req)"

definition insert_booking :: "booking_row \<Rightarrow> booking_row op" where
  "insert_booking row d =
     (case sql_insert bk_id row (bookings d) of
        None \<Rightarrow> (Inl unique_error, d)
      | Some rows \<Rightarrow> if has_account d (bk_account_id row) then (Inr row, d\<lparr>bookings := rows\<rparr>) else (Inl fk_error, d))"

definition book_tx :: "int \<Rightarrow> booking_ids \<Rightarrow> book_slot_request \<Rightarrow> booking_row op" where
  "book_tx now ids req d =
     (case sql_select (\<lambda>r. pg_id r = bs_page_id req \<and> pg_active r) (scheduling_pages d) of
        None \<Rightarrow> (Inl (StConflict ''page unavailable''), d)
      | Some page \<Rightarrow>
          if busy_event (pg_account_id page) req d then (Inl (StConflict ''slot no longer available''), d)
          else if busy_booking (pg_account_id page) req d then (Inl (StConflict ''slot no longer available''), d)
          else if day_full req (pg_max_per_day page) d then (Inl (StConflict ''no more bookings that day''), d)
          else op_bind (insert_event (new_event (bi_event ids) now (pg_calendar_id page) (bs_event_title req)
                         (bs_event_description req) (bs_start req) (bs_end req) None)) (\<lambda>_.
               insert_booking \<lparr>bk_id = bi_booking ids, bk_page_id = bs_page_id req, bk_account_id = pg_account_id page,
                 bk_event_id = bi_event ids, bk_visitor_name = bs_visitor_name req, bk_visitor_email = bs_visitor_email req,
                 bk_note = bs_note req, bk_start = bs_start req, bk_end = bs_end req, bk_confirmed = True,
                 bk_cancel_token = bi_token ids, bk_created_at = now\<rparr>) d)"

definition book_slot :: "int \<Rightarrow> booking_ids \<Rightarrow> book_slot_request \<Rightarrow> booking_row op" where
  "book_slot now ids req =
     (if bs_end req \<le> bs_start req then op_fail (StBadInput ''slot must end after start'')
      else db_call (transaction (book_tx now ids req)))"

end
