(* ===== verification/Slots.thy ===== *)
theory Slots
  imports Scheduling_Store
begin

text \<open>
  \<open>crates/owney-api/src/schedule/slots.rs\<close>: the slots a booking page offers. The calendar library is a
  parameter: a \<open>time_zone\<close> maps wall-clock times to instants and back, a \<open>chrono\<close> knows the zones, the
  names and formats of dates and the last date it can represent. A date is its day number, a wall-clock
  time the number of seconds since day 0. A computation that does not return, because a date overflows
  or a loop never ends, has the value \<open>None\<close>.
\<close>

section \<open>Definitions\<close>

datatype 'a local_result = LSingle 'a | LAmbiguous 'a 'a | LNone

datatype weekday = Mon | Tue | Wed | Thu | Fri | Sat | Sun

record time_zone =
  tz_from_local :: "int \<Rightarrow> int local_result"
  tz_timestamp :: "int \<Rightarrow> int local_result"
  tz_rfc3339 :: "int \<Rightarrow> string"
  tz_display :: "int \<Rightarrow> string"

record chrono =
  ch_zone :: "string \<Rightarrow> time_zone option"
  ch_utc_timestamp :: "int \<Rightarrow> int option"
  ch_utc_stamp :: "int \<Rightarrow> string"
  ch_weekday :: "int \<Rightarrow> weekday"
  ch_format_date :: "int \<Rightarrow> string"
  ch_parse_date :: "string \<Rightarrow> int option"
  ch_max_date :: int

fun probe :: "time_zone \<Rightarrow> nat \<Rightarrow> int \<Rightarrow> int option" where
  "probe tz 0 t = None"
| "probe tz (Suc n) t =
     (case tz_from_local tz (t + 15 * 60) of
        LSingle dt \<Rightarrow> Some dt
      | LAmbiguous dt _ \<Rightarrow> Some dt
      | LNone \<Rightarrow> probe tz n (t + 15 * 60))"

definition resolve_local :: "time_zone \<Rightarrow> int \<Rightarrow> int" where
  "resolve_local tz t =
     (case tz_from_local tz t of
        LSingle dt \<Rightarrow> dt
      | LAmbiguous earliest _ \<Rightarrow> earliest
      | LNone \<Rightarrow> (case probe tz 16 t of Some dt \<Rightarrow> dt | None \<Rightarrow> t))"

definition date_plus :: "chrono \<Rightarrow> int \<Rightarrow> int \<Rightarrow> int option" where
  "date_plus ch date n = (if date + n > ch_max_date ch then None else Some (date + n))"

definition local_day_bounds :: "chrono \<Rightarrow> time_zone \<Rightarrow> int \<Rightarrow> (int \<times> int) option" where
  "local_day_bounds ch tz date =
     map_option (\<lambda>next. (resolve_local tz (date * 86400), resolve_local tz (next * 86400))) (date_plus ch date 1)"

fun weekday_key :: "weekday \<Rightarrow> string" where
  "weekday_key Mon = ''mon''"
| "weekday_key Tue = ''tue''"
| "weekday_key Wed = ''wed''"
| "weekday_key Thu = ''thu''"
| "weekday_key Fri = ''fri''"
| "weekday_key Sat = ''sat''"
| "weekday_key Sun = ''sun''"

definition windows_for_date :: "chrono \<Rightarrow> availability \<Rightarrow> int \<Rightarrow> (nat \<times> nat) list" where
  "windows_for_date ch av date =
     (let windows = (case map_of (av_overrides av) (ch_format_date ch date) of
                       Some ws \<Rightarrow> Some ws
                     | None \<Rightarrow> map_of (av_weekly av) (weekday_key (ch_weekday ch date)))
      in case windows of
           None \<Rightarrow> []
         | Some ws \<Rightarrow> List.map_filter (\<lambda>w. case parse_minutes w of Inr m \<Rightarrow> Some m | Inl _ \<Rightarrow> None) ws)"

definition overlaps_slot :: "int \<times> int \<Rightarrow> int \<times> int \<Rightarrow> bool" where
  "overlaps_slot a b \<longleftrightarrow> fst a < snd b \<and> fst b < snd a"

record slot_params =
  sp_tz :: time_zone
  sp_availability :: availability
  sp_duration_mins :: nat
  sp_buffer_before_mins :: nat
  sp_buffer_after_mins :: nat
  sp_min_notice_mins :: nat
  sp_max_per_day :: "nat option"
  sp_valid_from :: "int option"
  sp_valid_until :: "int option"
  sp_now :: int

text \<open>The instant of a minute of a day; a minute that is no time of day counts as midnight.\<close>

definition minutes_to_local :: "int \<Rightarrow> nat \<Rightarrow> int" where
  "minutes_to_local date mins = date * 86400 + (if mins * 60 < 86400 then int mins * 60 else 0)"

definition instant :: "slot_params \<Rightarrow> int \<Rightarrow> nat \<Rightarrow> int" where
  "instant p date mins = resolve_local (sp_tz p) (minutes_to_local date mins)"

definition slot_end :: "slot_params \<Rightarrow> int \<Rightarrow> int" where
  "slot_end p start = start + int (sp_duration_mins p) * 60"

definition slot_free :: "slot_params \<Rightarrow> (int \<times> int) list \<Rightarrow> int \<Rightarrow> bool" where
  "slot_free p busy start \<longleftrightarrow>
     \<not> list_ex (overlaps_slot (start - int (sp_buffer_before_mins p) * 60, slot_end p start + int (sp_buffer_after_mins p) * 60)) busy"

text \<open>The inner loop: step through a window by the duration. It does not end for a duration of 0.\<close>

partial_function (option) window_slots :: "slot_params \<Rightarrow> int \<Rightarrow> (int \<times> int) list \<Rightarrow> nat \<Rightarrow> int option \<Rightarrow> nat \<Rightarrow> (int \<times> int) list option" where
  "window_slots p date busy window_end_min last_start wall =
     (if wall + sp_duration_mins p \<le> window_end_min then
        (let slot_start = instant p date wall;
             next_wall = wall + sp_duration_mins p
         in if last_start = Some slot_start then window_slots p date busy window_end_min last_start next_wall
            else Option.bind (window_slots p date busy window_end_min (Some slot_start) next_wall) (\<lambda>rest.
              Some (if slot_end p slot_start \<le> instant p date window_end_min \<and>
                       slot_start \<ge> sp_now p + int (sp_min_notice_mins p) * 60 \<and> slot_free p busy slot_start
                    then (slot_start, slot_end p slot_start) # rest
                    else rest)))
      else Some [])"

declare window_slots.simps [code]

fun windows_slots :: "slot_params \<Rightarrow> int \<Rightarrow> (int \<times> int) list \<Rightarrow> (nat \<times> nat) list \<Rightarrow> (int \<times> int) list option" where
  "windows_slots p date busy [] = Some []"
| "windows_slots p date busy ((s, t) # ws) =
     Option.bind (window_slots p date busy t None s) (\<lambda>xs.
     Option.bind (windows_slots p date busy ws) (\<lambda>ys. Some (xs @ ys)))"

definition day_open :: "slot_params \<Rightarrow> (int \<Rightarrow> nat option) \<Rightarrow> int \<Rightarrow> bool" where
  "day_open p booked date \<longleftrightarrow>
     \<not> ((case sp_valid_from p of Some v \<Rightarrow> date < v | None \<Rightarrow> False) \<or> (case sp_valid_until p of Some v \<Rightarrow> date > v | None \<Rightarrow> False)) \<and>
     \<not> (case sp_max_per_day p of Some limit \<Rightarrow> (case booked date of Some n \<Rightarrow> n | None \<Rightarrow> 0) \<ge> limit | None \<Rightarrow> False)"

function dates_slots :: "chrono \<Rightarrow> slot_params \<Rightarrow> (int \<times> int) list \<Rightarrow> (int \<Rightarrow> nat option) \<Rightarrow> int \<Rightarrow> int \<Rightarrow> (int \<times> int) list option" where
  "dates_slots ch p busy booked until date =
     (if date \<le> until then
        Option.bind (if day_open p booked date then windows_slots p date busy (windows_for_date ch (sp_availability p) date) else Some []) (\<lambda>xs.
        Option.bind (date_plus ch date 1) (\<lambda>_.
        Option.bind (dates_slots ch p busy booked until (date + 1)) (\<lambda>ys. Some (xs @ ys))))
      else Some [])"
  by pat_completeness auto
termination by (relation "measure (\<lambda>(ch, p, busy, booked, until, date). nat (until + 1 - date))") auto

declare dates_slots.simps [simp del]

definition compute_slots :: "chrono \<Rightarrow> slot_params \<Rightarrow> int \<Rightarrow> int \<Rightarrow> (int \<times> int) list \<Rightarrow> (int \<Rightarrow> nat option) \<Rightarrow> (int \<times> int) list option" where
  "compute_slots ch p from until busy booked = dates_slots ch p busy booked until from"

section \<open>What is offered\<close>

text \<open>The starts a window has on its grid, a repeated instant once, and those that are offered.\<close>

definition grid :: "slot_params \<Rightarrow> int \<Rightarrow> nat \<Rightarrow> nat \<Rightarrow> int list" where
  "grid p date s t = map (\<lambda>k. instant p date (s + k * sp_duration_mins p)) [0 ..< (t - s) div sp_duration_mins p]"

definition offered :: "slot_params \<Rightarrow> int \<Rightarrow> (int \<times> int) list \<Rightarrow> nat \<Rightarrow> int \<Rightarrow> bool" where
  "offered p date busy t start \<longleftrightarrow> slot_end p start \<le> instant p date t \<and>
     start \<ge> sp_now p + int (sp_min_notice_mins p) * 60 \<and> slot_free p busy start"

lemma grid_step:
  assumes "sp_duration_mins p > 0"
  shows "grid p date s t = (if s + sp_duration_mins p \<le> t then instant p date s # grid p date (s + sp_duration_mins p) t else [])"
proof (cases "s + sp_duration_mins p \<le> t")
  case True
  let ?d = "sp_duration_mins p"
  have "t - s = (t - (s + ?d)) + ?d" using True by simp
  then have "(t - s) div ?d = Suc ((t - (s + ?d)) div ?d)" using assms by (metis add.commute div_add_self1 less_numeral_extra(3) plus_1_eq_Suc)
  then have "[0 ..< (t - s) div ?d] = 0 # map Suc [0 ..< (t - (s + ?d)) div ?d]" by (simp add: upt_conv_Cons map_Suc_upt)
  then show ?thesis using True by (simp add: grid_def algebra_simps)
next
  case False
  then have "(t - s) div sp_duration_mins p = 0" using assms by simp
  then show ?thesis using False by (simp add: grid_def)
qed

text \<open>The loop computes the offered starts of the grid, repetitions of the previous instant removed.\<close>

fun after_last :: "int option \<Rightarrow> int list \<Rightarrow> int list" where
  "after_last l [] = []"
| "after_last l (x # xs) = (if l = Some x then after_last l xs else x # after_last (Some x) xs)"

lemma set_after_last: "set (after_last None xs) = set xs"
proof -
  have "set (after_last l xs) \<union> set_option l = set xs \<union> set_option l" for l
    by (induction l xs rule: after_last.induct) auto
  from this[of None] show ?thesis by simp
qed

lemma window_slots_grid:
  assumes "sp_duration_mins p > 0"
  shows "window_slots p date busy t l s =
    Some (map (\<lambda>x. (x, slot_end p x)) (filter (offered p date busy t) (after_last l (grid p date s t))))"
proof (induction "t - s" arbitrary: s l rule: less_induct)
  case less
  show ?case
  proof (cases "s + sp_duration_mins p \<le> t")
    case True
    then have "t - (s + sp_duration_mins p) < t - s" using assms by simp
    note IH = less[OF this]
    show ?thesis using True
      by (subst window_slots.simps, subst grid_step[OF assms]) (auto simp: Let_def IH offered_def)
  next
    case False
    then show ?thesis by (subst window_slots.simps, subst grid_step[OF assms]) simp
  qed
qed

lemma windows_slots_grid:
  assumes "sp_duration_mins p > 0"
  shows "windows_slots p date busy ws = Some (concat (map (\<lambda>(s, t).
    map (\<lambda>x. (x, slot_end p x)) (filter (offered p date busy t) (after_last None (grid p date s t)))) ws))"
  by (induction ws) (auto simp: window_slots_grid[OF assms])

definition day_slots :: "chrono \<Rightarrow> slot_params \<Rightarrow> (int \<times> int) list \<Rightarrow> (int \<Rightarrow> nat option) \<Rightarrow> int \<Rightarrow> (int \<times> int) list" where
  "day_slots ch p busy booked date = (if day_open p booked date then concat (map (\<lambda>(s, t).
     map (\<lambda>x. (x, slot_end p x)) (filter (offered p date busy t) (after_last None (grid p date s t))))
     (windows_for_date ch (sp_availability p) date)) else [])"

lemma compute_slots_days:
  assumes "sp_duration_mins p > 0" "until < ch_max_date ch"
  shows "compute_slots ch p from until busy booked = Some (concat (map (day_slots ch p busy booked) [from..until]))"
proof -
  have "dates_slots ch p busy booked until date = Some (concat (map (day_slots ch p busy booked) [date..until]))" for date
  proof (induction "nat (until + 1 - date)" arbitrary: date rule: less_induct)
    case less
    show ?case
    proof (cases "date \<le> until")
      case True
      then have "nat (until + 1 - (date + 1)) < nat (until + 1 - date)" by simp
      note IH = less[OF this]
      have "[date..until] = date # [date + 1..until]" using True by (rule upto_rec1)
      then show ?thesis using True assms(2) IH
        by (subst dates_slots.simps) (auto simp: date_plus_def day_slots_def windows_slots_grid[OF assms(1)])
    qed (subst dates_slots.simps, simp)
  qed
  then show ?thesis by (simp add: compute_slots_def)
qed

lemma set_grid:
  assumes "sp_duration_mins p > 0"
  shows "x \<in> set (grid p date s t) \<longleftrightarrow> (\<exists>k. s + (k + 1) * sp_duration_mins p \<le> t \<and> x = instant p date (s + k * sp_duration_mins p))"
proof -
  have "k < (t - s) div sp_duration_mins p \<longleftrightarrow> s + (k + 1) * sp_duration_mins p \<le> t" for k
  proof -
    have "k < (t - s) div sp_duration_mins p \<longleftrightarrow> (k + 1) * sp_duration_mins p \<le> t - s"
      using less_eq_div_iff_mult_less_eq[OF assms, of "k + 1" "t - s"] by (simp add: Suc_le_eq)
    also have "\<dots> \<longleftrightarrow> s + (k + 1) * sp_duration_mins p \<le> t"
      using assms by (cases "s \<le> t") (auto simp: le_diff_conv2 add.commute)
    finally show ?thesis .
  qed
  then show ?thesis by (auto simp: grid_def image_iff)
qed

text \<open>C21. The slots a page offers are exactly the right ones: for a positive duration and a range
  that ends before the last date of the calendar the computation returns, and an interval is offered iff it starts, in the page's time zone, on the grid of a window of an
  open date of the range, ends within the window, respects the notice, and with its buffers overlaps no
  busy interval.\<close>

theorem compute_slots_spec:
  assumes "sp_duration_mins p > 0" "until < ch_max_date ch"
  shows "\<exists>slots. compute_slots ch p from until busy booked = Some slots \<and> (\<forall>a b. (a, b) \<in> set slots \<longleftrightarrow>
    (\<exists>date s t k. from \<le> date \<and> date \<le> until \<and> day_open p booked date \<and>
       (s, t) \<in> set (windows_for_date ch (sp_availability p) date) \<and>
       s + (k + 1) * sp_duration_mins p \<le> t \<and> a = instant p date (s + k * sp_duration_mins p) \<and>
       b = a + int (sp_duration_mins p) * 60 \<and> b \<le> instant p date t \<and> a \<ge> sp_now p + int (sp_min_notice_mins p) * 60 \<and>
       (\<forall>(x, y) \<in> set busy. y \<le> a - int (sp_buffer_before_mins p) * 60 \<or> b + int (sp_buffer_after_mins p) * 60 \<le> x)))"
proof -
  have off: "offered p date busy t a \<longleftrightarrow> a + int (sp_duration_mins p) * 60 \<le> instant p date t \<and> a \<ge> sp_now p + int (sp_min_notice_mins p) * 60 \<and>
      (\<forall>(x, y) \<in> set busy. y \<le> a - int (sp_buffer_before_mins p) * 60 \<or> a + int (sp_duration_mins p) * 60 + int (sp_buffer_after_mins p) * 60 \<le> x)" for date t a
    by (fastforce simp: offered_def slot_free_def slot_end_def list_ex_iff overlaps_slot_def not_less)
  have day: "(a, b) \<in> set (day_slots ch p busy booked date) \<longleftrightarrow> day_open p booked date \<and> (\<exists>s t. (s, t) \<in> set (windows_for_date ch (sp_availability p) date) \<and>
      a \<in> set (grid p date s t) \<and> offered p date busy t a \<and> b = a + int (sp_duration_mins p) * 60)" for a b date
    by (auto simp: day_slots_def set_after_last slot_end_def)
  have main: "(a, b) \<in> set (concat (map (day_slots ch p busy booked) [from..until])) \<longleftrightarrow>
      (\<exists>date s t k. from \<le> date \<and> date \<le> until \<and> day_open p booked date \<and>
       (s, t) \<in> set (windows_for_date ch (sp_availability p) date) \<and>
       s + (k + 1) * sp_duration_mins p \<le> t \<and> a = instant p date (s + k * sp_duration_mins p) \<and>
       b = a + int (sp_duration_mins p) * 60 \<and> offered p date busy t a)" for a b
  proof -
    have "(a, b) \<in> set (concat (map (day_slots ch p busy booked) [from..until])) \<longleftrightarrow>
        (\<exists>date. (from \<le> date \<and> date \<le> until) \<and> (a, b) \<in> set (day_slots ch p busy booked date))" by auto
    then show ?thesis unfolding day set_grid[OF assms(1)] by blast
  qed
  have tail: "b = a + int (sp_duration_mins p) * 60 \<and> offered p date busy t a \<longleftrightarrow>
      b = a + int (sp_duration_mins p) * 60 \<and> b \<le> instant p date t \<and> a \<ge> sp_now p + int (sp_min_notice_mins p) * 60 \<and>
       (\<forall>(x, y) \<in> set busy. y \<le> a - int (sp_buffer_before_mins p) * 60 \<or> b + int (sp_buffer_after_mins p) * 60 \<le> x)" for a b date t
    unfolding off by auto
  show ?thesis unfolding compute_slots_days[OF assms] by (rule exI, rule conjI, rule refl, intro allI, rule main[unfolded tail])
qed

definition w_utc :: time_zone where
  "w_utc = \<lparr>tz_from_local = LSingle, tz_timestamp = LSingle, tz_rfc3339 = show_int, tz_display = show_int\<rparr>"

definition w_chrono :: chrono where
  "w_chrono = \<lparr>ch_zone = (\<lambda>n. if n = ''UTC'' then Some w_utc else None), ch_utc_timestamp = Some, ch_utc_stamp = show_int,
     ch_weekday = (\<lambda>_. Mon), ch_format_date = show_int, ch_parse_date = (\<lambda>_. None), ch_max_date = 95026236\<rparr>"

definition w_params :: slot_params where
  "w_params = \<lparr>sp_tz = w_utc, sp_availability = \<lparr>av_version = 1, av_weekly = [(''mon'', [\<lparr>tw_start = ''09:00'', tw_end = ''10:10''\<rparr>])],
     av_overrides = []\<rparr>, sp_duration_mins = 30, sp_buffer_before_mins = 0, sp_buffer_after_mins = 0, sp_min_notice_mins = 0,
     sp_max_per_day = None, sp_valid_from = None, sp_valid_until = None, sp_now = 0\<rparr>"

lemma some_iff: "\<exists>xs. f = Some xs \<and> (\<forall>a b. (a, b) \<in> set xs \<longleftrightarrow> Q a b) \<Longrightarrow> f = Some ys \<Longrightarrow> (a, b) \<in> set ys \<Longrightarrow> Q a b"
  by simp

theorem compute_slots_spec_witness:
  "compute_slots w_chrono w_params 0 0 [(32400, 33000)] (\<lambda>_. None) = Some [(34200, 36000)] \<and>
   (\<exists>date s t k. 0 \<le> date \<and> date \<le> 0 \<and> (s, t) \<in> set (windows_for_date w_chrono (sp_availability w_params) date) \<and>
      s + (k + 1) * 30 \<le> t \<and> 34200 = instant w_params date (s + k * 30))"
proof -
  have p: "sp_duration_mins w_params = 30" "ch_max_date w_chrono = 95026236" by (simp_all add: w_params_def w_chrono_def)
  have w: "windows_for_date w_chrono (sp_availability w_params) 0 = [(540, 610)]"
    by (simp add: windows_for_date_def w_chrono_def w_params_def parse_minutes_def parse_time_def str_defs List.map_filter_def)
  have i: "instant w_params 0 m = (if m * 60 < 86400 then int m * 60 else 0)" for m
    by (simp add: instant_def minutes_to_local_def resolve_local_def w_params_def w_utc_def)
  have "grid w_params 0 540 610 = [32400, 34200]" by (simp add: grid_def p i upt_rec)
  then have c: "compute_slots w_chrono w_params 0 0 [(32400, 33000)] (\<lambda>_. None) = Some [(34200, 36000)]"
    by (simp add: compute_slots_days p day_slots_def w day_open_def offered_def slot_free_def slot_end_def overlaps_slot_def i)
      (simp add: w_params_def)
  have "0 < sp_duration_mins w_params" "0 < ch_max_date w_chrono" using p by simp_all
  note spec = some_iff[OF compute_slots_spec[OF this, of 0 "[(32400, 33000)]" "\<lambda>_. None"] c]
  have "(34200, 36000) \<in> set [(34200 :: int, 36000 :: int)]" by simp
  from spec[OF this] obtain date s t k where "0 \<le> date" "date \<le> 0" "(s, t) \<in> set (windows_for_date w_chrono (sp_availability w_params) date)"
      "s + (k + 1) * sp_duration_mins w_params \<le> t" "34200 = instant w_params date (s + k * sp_duration_mins w_params)"
    by blast
  then show ?thesis unfolding p(1) using c by blast
qed

end
