(* ===== verification/Mail_Store.thy ===== *)
theory Mail_Store
  imports Accounts
begin

text \<open>
  \<open>crates/owney-storage/src/ingest.rs\<close> and \<open>mail_queries.rs\<close>: storing a message (blob, thread, email,
  mailbox) and the queries and updates behind the JMAP mail types, with the change counters
  (\<open>modseq\<close>) they keep. The MIME parser and the encrypted blob directory are parameters (record
  \<open>ingest_env\<close>); new ids are arguments. Indexing for full-text search is a detached task and is left
  out.
\<close>

section \<open>Definitions\<close>

subsection \<open>Ingesting a message\<close>

text \<open>What the MIME parser reports of a message.\<close>

record parsed_message =
  ms_references :: "string list option"
  ms_in_reply_to :: "string option"
  ms_message_id :: "string option"
  ms_subject :: "string option"
  ms_from :: "string option"

record parsed_meta =
  message_id :: "string option"
  subject :: "string option"
  from_addr :: "string option"
  references :: "string list"

record ingest_env =
  ie_parse :: "string \<Rightarrow> parsed_message option"
  ie_put :: "string \<Rightarrow> (storage_error, string) result"

definition parse_meta :: "ingest_env \<Rightarrow> string \<Rightarrow> parsed_meta" where
  "parse_meta env raw =
     (case ie_parse env raw of
        None \<Rightarrow> \<lparr>message_id = None, subject = None, from_addr = None, references = []\<rparr>
      | Some m \<Rightarrow> \<lparr>message_id = ms_message_id m, subject = ms_subject m, from_addr = ms_from m,
          references = (case ms_references m of Some rs \<Rightarrow> rs | None \<Rightarrow> []) @
                       (case ms_in_reply_to m of Some r \<Rightarrow> [r] | None \<Rightarrow> [])\<rparr>)"

datatype mailbox_target = TRole string | TId string

record ingested_email =
  ig_id :: string
  ig_thread_id :: string
  ig_blob_id :: string

record ingest_ids =
  new_email :: string
  new_thread :: string
  new_contact :: string

definition put_blob :: "ingest_env \<Rightarrow> int \<Rightarrow> string \<Rightarrow> string op" where
  "put_blob env now plaintext =
     (case ie_put env plaintext of
        Inl e \<Rightarrow> op_fail e
      | Inr bid \<Rightarrow> op_bind (db_call (\<lambda>d. (Inr (),
            case sql_insert bl_id \<lparr>bl_id = bid, bl_size = length plaintext, bl_refcount = 0, bl_created_at = now\<rparr> (blobs d) of
              None \<Rightarrow> d | Some rows \<Rightarrow> d\<lparr>blobs := rows\<rparr>)))
          (\<lambda>_. op_return bid))"

definition find_mailbox :: "string \<Rightarrow> mailbox_target \<Rightarrow> string op" where
  "find_mailbox acct target d =
     (case target of
        TRole role \<Rightarrow>
          (case sql_select (\<lambda>r. mb_account_id r = acct \<and> mb_role r = Some role) (mailboxes d) of
             Some r \<Rightarrow> (Inr (mb_id r), d)
           | None \<Rightarrow> (Inl (StCorrupt (''account '' @ acct @ '' has no '' @ role @ '' mailbox'')), d))
      | TId i \<Rightarrow>
          (case sql_select (\<lambda>r. mb_account_id r = acct \<and> mb_id r = i) (mailboxes d) of
             Some r \<Rightarrow> (Inr (mb_id r), d)
           | None \<Rightarrow> (Inl (StCorrupt (''no mailbox '' @ i)), d)))"

text \<open>The thread of the first reference that is the message id of a stored email of the account.\<close>

fun resolve_thread :: "string \<Rightarrow> string list \<Rightarrow> db \<Rightarrow> string option" where
  "resolve_thread acct [] d = None"
| "resolve_thread acct (reference # rest) d =
     (case order_desc em_received_at (filter (\<lambda>r. em_account_id r = acct \<and> em_message_id r = Some reference) (emails d)) of
        r # _ \<Rightarrow> Some (em_thread_id r)
      | [] \<Rightarrow> resolve_thread acct rest d)"

definition place_thread :: "string \<Rightarrow> string option \<Rightarrow> string \<Rightarrow> int \<Rightarrow> string op" where
  "place_thread acct found fresh seq d =
     (case found of
        Some t \<Rightarrow> (Inr t, d\<lparr>threads := sql_update (\<lambda>r. th_id r = t) (\<lambda>r. r\<lparr>th_updated_modseq := seq\<rparr>) (threads d)\<rparr>)
      | None \<Rightarrow>
          (case sql_insert th_id \<lparr>th_id = fresh, th_account_id = acct, th_created_modseq = seq, th_updated_modseq = seq\<rparr> (threads d) of
             None \<Rightarrow> (Inl unique_error, d)
           | Some rows \<Rightarrow> (Inr fresh, d\<lparr>threads := rows\<rparr>)))"

definition store_email :: "email_row \<Rightarrow> string \<Rightarrow> unit op" where
  "store_email row mailbox_id d =
     (case sql_insert em_id row (emails d) of
        None \<Rightarrow> (Inl unique_error, d)
      | Some rows \<Rightarrow>
          if (em_id row, mailbox_id) \<in> set (email_mailbox d) then (Inl unique_error, d)
          else (Inr (), d\<lparr>emails := rows, email_mailbox := email_mailbox d @ [(em_id row, mailbox_id)],
                  blobs := sql_update (\<lambda>b. bl_id b = em_blob_id row) (\<lambda>b. b\<lparr>bl_refcount := bl_refcount b + 1\<rparr>) (blobs d)\<rparr>))"

text \<open>The transaction of \<open>ingest_email_into\<close>.\<close>

definition ingest_tx :: "int \<Rightarrow> ingest_ids \<Rightarrow> string \<Rightarrow> mailbox_target \<Rightarrow> parsed_meta \<Rightarrow> nat \<Rightarrow> string \<Rightarrow>
    string option \<Rightarrow> bool \<Rightarrow> (ingested_email \<times> (string \<times> int) list) op" where
  "ingest_tx now ids acct target meta sz blob_id auth_results chat =
     op_bind (find_mailbox acct target) (\<lambda>mailbox_id d0.
     (let found = resolve_thread acct (references meta) d0 in
      op_bind (bump acct ''Email'') (\<lambda>email_seq.
      op_bind (bump acct ''Thread'') (\<lambda>thread_seq.
      op_bind (bump acct ''Mailbox'') (\<lambda>mailbox_seq.
      op_bind (place_thread acct found (new_thread ids) thread_seq) (\<lambda>thread_id.
      op_bind (store_email \<lparr>em_id = new_email ids, em_account_id = acct, em_thread_id = thread_id,
                 em_blob_id = blob_id, em_message_id = message_id meta, em_subject = subject meta,
                 em_from_addr = from_addr meta, em_received_at = now, em_size = sz,
                 em_created_modseq = email_seq, em_updated_modseq = email_seq,
                 em_auth_results = auth_results, em_pgp_status = None, em_spam_results = None,
                 em_chat_mode = chat\<rparr> mailbox_id) (\<lambda>_.
      op_return (\<lparr>ig_id = new_email ids, ig_thread_id = thread_id, ig_blob_id = blob_id\<rparr>,
                 [(''Email'', email_seq), (''Thread'', thread_seq), (''Mailbox'', mailbox_seq)])))))) d0))"

text \<open>\<open>INSERT OR IGNORE\<close>: an existing contact, or an id that is taken, makes it do nothing.\<close>

definition link_contact :: "int \<Rightarrow> string \<Rightarrow> string \<Rightarrow> string \<Rightarrow> unit op" where
  "link_contact now new_id acct from = db_call (\<lambda>d. (Inr (),
     if new_id \<in> ct_id ` set (contacts d) \<or>
        (\<exists>c \<in> set (contacts d). ct_account_id c = acct \<and> eq_ignore_ascii_case (ct_email c) (to_lowercase from))
     then d
     else d\<lparr>contacts := contacts d @ [\<lparr>ct_id = new_id, ct_account_id = acct, ct_email = to_lowercase from,
              ct_name = None, ct_phone = None, ct_created_at = now, ct_updated_at = now\<rparr>]\<rparr>))"

definition ingest_email_into :: "ingest_env \<Rightarrow> int \<Rightarrow> ingest_ids \<Rightarrow> string \<Rightarrow> string \<Rightarrow> mailbox_target \<Rightarrow>
    string option \<Rightarrow> bool \<Rightarrow> ingested_email op" where
  "ingest_email_into env now ids acct raw target auth_results chat =
     (let meta = parse_meta env raw in
      op_bind (put_blob env now raw) (\<lambda>blob_id.
      op_bind (db_call (transaction (ingest_tx now ids acct target meta (length raw) blob_id auth_results chat)))
        (\<lambda>(ingested, changed) d.
           (let d1 = d\<lparr>published := published d @ [StateChange acct changed]\<rparr>
            in (Inr ingested, case from_addr meta of
                  None \<Rightarrow> d1
                | Some from \<Rightarrow> snd (link_contact now (new_contact ids) acct from d1))))))"

definition ingest_email :: "ingest_env \<Rightarrow> int \<Rightarrow> ingest_ids \<Rightarrow> string \<Rightarrow> string \<Rightarrow> string \<Rightarrow> string option \<Rightarrow> ingested_email op" where
  "ingest_email env now ids acct raw role auth_results = ingest_email_into env now ids acct raw (TRole role) auth_results False"

definition ingest_email_with_chat :: "ingest_env \<Rightarrow> int \<Rightarrow> ingest_ids \<Rightarrow> string \<Rightarrow> string \<Rightarrow> string \<Rightarrow> string option \<Rightarrow> bool \<Rightarrow> ingested_email op" where
  "ingest_email_with_chat env now ids acct raw role auth_results chat = ingest_email_into env now ids acct raw (TRole role) auth_results chat"

definition set_pgp_status :: "string \<Rightarrow> string \<Rightarrow> unit op" where
  "set_pgp_status eid status = db_call (\<lambda>d. (Inr (),
     d\<lparr>emails := sql_update (\<lambda>r. em_id r = eid) (\<lambda>r. r\<lparr>em_pgp_status := Some status\<rparr>) (emails d)\<rparr>))"

definition set_spam_verdict :: "string \<Rightarrow> string \<Rightarrow> unit op" where
  "set_spam_verdict eid verdict = db_call (\<lambda>d. (Inr (),
     d\<lparr>emails := sql_update (\<lambda>r. em_id r = eid) (\<lambda>r. r\<lparr>em_spam_results := Some verdict\<rparr>) (emails d)\<rparr>))"

subsection \<open>Queries\<close>

record mailbox_info =
  mi_row :: mailbox_row
  mi_total :: nat
  mi_unread :: nat

definition mailbox_list :: "string \<Rightarrow> mailbox_info list op" where
  "mailbox_list acct = db_call (\<lambda>d. (Inr (map (\<lambda>m.
       \<lparr>mi_row = m, mi_total = sql_count (\<lambda>(e, b). b = mb_id m) (email_mailbox d),
        mi_unread = sql_count (\<lambda>(e, b). b = mb_id m \<and> (e, ''$seen'') \<notin> set (email_keyword d)) (email_mailbox d)\<rparr>)
     (sort_key mb_sort_order (sort_key mb_name (filter (\<lambda>m. mb_account_id m = acct) (mailboxes d))))), d))"

record email_info =
  ei_row :: email_row
  ei_mailbox_ids :: "string list"
  ei_keywords :: "string list"

definition emails_by_ids :: "string \<Rightarrow> string list \<Rightarrow> email_info list op" where
  "emails_by_ids acct ids = db_call (\<lambda>d. (Inr (List.map_filter (\<lambda>i.
       map_option (\<lambda>r. \<lparr>ei_row = r, ei_mailbox_ids = map snd (filter (\<lambda>(e, b). e = i) (email_mailbox d)),
                        ei_keywords = map snd (filter (\<lambda>(e, k). e = i) (email_keyword d))\<rparr>)
         (sql_select (\<lambda>r. em_account_id r = acct \<and> em_id r = i) (emails d))) ids), d))"

text \<open>\<open>ORDER BY received_at DESC, id DESC\<close>.\<close>

definition newest_first :: "email_row list \<Rightarrow> email_row list" where
  "newest_first rows = rev (sort_key em_received_at (sort_key em_id rows))"

definition email_state :: "string \<Rightarrow> string \<Rightarrow> db \<Rightarrow> int" where
  "email_state acct dt d = (case sql_select (\<lambda>r. st_account_id r = acct \<and> st_data_type r = dt) (states d) of
      None \<Rightarrow> 0 | Some r \<Rightarrow> st_modseq r)"

definition query_emails :: "string \<Rightarrow> string option \<Rightarrow> nat \<Rightarrow> nat \<Rightarrow> (string list \<times> nat \<times> int) op" where
  "query_emails acct in_mailbox position limit = db_call (\<lambda>d.
     (let found = filter (\<lambda>r. em_account_id r = acct \<and>
            (case in_mailbox of None \<Rightarrow> True | Some b \<Rightarrow> (em_id r, b) \<in> set (email_mailbox d))) (emails d)
      in (Inr (map em_id (take limit (drop position (newest_first found))), length found, email_state acct ''Email'' d), d)))"

record changes_result =
  cr_created :: "string list"
  cr_updated :: "string list"
  cr_new_state :: int
  cr_has_more :: bool

text \<open>The rows of a synchronized type: id, account, \<open>created_modseq\<close> and \<open>updated_modseq\<close>. Only emails,
  mailboxes and threads are tracked.\<close>

definition tracked :: "string \<Rightarrow> db \<Rightarrow> (string \<times> string \<times> int \<times> int) list option" where
  "tracked dt d =
     (if dt = ''Email'' then Some (map (\<lambda>r. (em_id r, em_account_id r, em_created_modseq r, em_updated_modseq r)) (emails d))
      else if dt = ''Mailbox'' then Some (map (\<lambda>r. (mb_id r, mb_account_id r, mb_created_modseq r, mb_updated_modseq r)) (mailboxes d))
      else if dt = ''Thread'' then Some (map (\<lambda>r. (th_id r, th_account_id r, th_created_modseq r, th_updated_modseq r)) (threads d))
      else None)"

definition changes_since :: "string \<Rightarrow> string \<Rightarrow> nat \<Rightarrow> nat \<Rightarrow> changes_result op" where
  "changes_since acct dt since max_changes =
     (if dt = ''EmailSubmission'' then op_fail (StCorrupt ''submission changes not tracked yet'')
      else if dt \<notin> {''Email'', ''Mailbox'', ''Thread''} then op_fail (StCorrupt (''changes_since not implemented for '' @ dt))
      else db_call (\<lambda>d.
        (let all_rows = (case tracked dt d of Some rs \<Rightarrow> rs | None \<Rightarrow> []);
             changed = sort_key (\<lambda>(i, a, c, u). u) (filter (\<lambda>(i, a, c, u). a = acct \<and> u > as_i64 since) all_rows);
             rows = take (max_changes + 1) changed;
             page = take max_changes rows
         in (Inr \<lparr>cr_created = map fst (filter (\<lambda>(i, a, c, u). as_u64 c > since) page),
                  cr_updated = map fst (filter (\<lambda>(i, a, c, u). \<not> as_u64 c > since) page),
                  cr_new_state = email_state acct dt d, cr_has_more = length rows > max_changes\<rparr>, d))))"

definition thread_emails :: "string \<Rightarrow> string list \<Rightarrow> (string \<times> string list) list op" where
  "thread_emails acct tids = db_call (\<lambda>d. (Inr (filter (\<lambda>(t, ids). ids \<noteq> []) (map (\<lambda>t.
     (t, map em_id (sort_key em_received_at (sort_key em_id
            (filter (\<lambda>r. em_account_id r = acct \<and> em_thread_id r = t) (emails d)))))) tids)), d))"

subsection \<open>Updating a message\<close>

fun insert_ignore :: "('a \<times> 'b) list \<Rightarrow> ('a \<times> 'b) list \<Rightarrow> ('a \<times> 'b) list" where
  "insert_ignore rows [] = rows"
| "insert_ignore rows (x # xs) = insert_ignore (if x \<in> set rows then rows else rows @ [x]) xs"

definition set_keywords :: "string \<Rightarrow> string list option \<Rightarrow> unit op" where
  "set_keywords eid kws d = (Inr (), case kws of
     None \<Rightarrow> d
   | Some ks \<Rightarrow> d\<lparr>email_keyword := insert_ignore (sql_delete (\<lambda>(e, k). e = eid) (email_keyword d))
       (map (\<lambda>k. (eid, to_lowercase k)) ks)\<rparr>)"

definition set_mailboxes :: "string \<Rightarrow> string \<Rightarrow> string list option \<Rightarrow> unit op" where
  "set_mailboxes acct eid mbs d =
     (case mbs of
        None \<Rightarrow> (Inr (), d)
      | Some ms \<Rightarrow>
          if ms = [] then (Inl (StCorrupt ''an email must belong to at least one mailbox''), d)
          else (case find (\<lambda>m. \<not> (\<exists>r \<in> set (mailboxes d). mb_account_id r = acct \<and> mb_id r = m)) ms of
                  Some m \<Rightarrow> (Inl (StCorrupt (''no mailbox '' @ m)), d)
                | None \<Rightarrow>
                    if \<not> distinct ms then (Inl unique_error, d)
                    else (Inr (), d\<lparr>email_mailbox := sql_delete (\<lambda>(e, b). e = eid) (email_mailbox d) @ map (Pair eid) ms\<rparr>)))"

definition update_tx :: "string \<Rightarrow> string \<Rightarrow> string list option \<Rightarrow> string list option \<Rightarrow> (string \<times> int) list op" where
  "update_tx acct eid kws mbs d =
     (if \<not> (\<exists>r \<in> set (emails d). em_account_id r = acct \<and> em_id r = eid) then (Inl (StCorrupt (''no email '' @ eid)), d)
      else op_bind (set_keywords eid kws) (\<lambda>_.
           op_bind (set_mailboxes acct eid mbs) (\<lambda>_.
           op_bind (bump acct ''Email'') (\<lambda>email_seq.
           op_bind (bump acct ''Mailbox'') (\<lambda>mailbox_seq d'.
             (Inr [(''Email'', email_seq), (''Mailbox'', mailbox_seq)],
              d'\<lparr>emails := sql_update (\<lambda>r. em_id r = eid) (\<lambda>r. r\<lparr>em_updated_modseq := email_seq\<rparr>) (emails d')\<rparr>))))) d)"

definition update_email :: "string \<Rightarrow> string \<Rightarrow> string list option \<Rightarrow> string list option \<Rightarrow> unit op" where
  "update_email acct eid kws mbs =
     op_bind (db_call (transaction (update_tx acct eid kws mbs)))
       (\<lambda>changed d. (Inr (), d\<lparr>published := published d @ [StateChange acct changed]\<rparr>))"

subsection \<open>Attributes of a message\<close>

text \<open>\<open>attributes.rs\<close>: data that detectors attach to a message. The common end of the two mutations:
  the email gets the next \<open>modseq\<close>.\<close>

definition owned_email_check :: "string \<Rightarrow> string \<Rightarrow> unit op" where
  "owned_email_check acct eid d =
     (if \<exists>r \<in> set (emails d). em_account_id r = acct \<and> em_id r = eid then (Inr (), d) else (Inl StNotAuthorized, d))"

definition touch_email :: "string \<Rightarrow> string \<Rightarrow> (string \<times> int) list op" where
  "touch_email acct eid = op_bind (bump acct ''Email'') (\<lambda>seq d.
     (Inr [(''Email'', seq)], d\<lparr>emails := sql_update (\<lambda>r. em_id r = eid) (\<lambda>r. r\<lparr>em_updated_modseq := seq\<rparr>) (emails d)\<rparr>))"

definition upsert_attribute :: "int \<Rightarrow> string \<Rightarrow> string \<Rightarrow> string \<Rightarrow> string \<Rightarrow> string \<Rightarrow> unit op" where
  "upsert_attribute now new_id acct eid kind content d =
     (if \<exists>a \<in> set (email_attributes d). at_email_id a = eid \<and> at_kind a = kind
      then (Inr (), d\<lparr>email_attributes := sql_update (\<lambda>a. at_email_id a = eid \<and> at_kind a = kind)
             (\<lambda>a. a\<lparr>at_content := content, at_updated_at := now\<rparr>) (email_attributes d)\<rparr>)
      else (case sql_insert at_id \<lparr>at_id = new_id, at_account_id = acct, at_email_id = eid, at_kind = kind,
                    at_content = content, at_dismissed_at = None, at_created_at = now, at_updated_at = now\<rparr> (email_attributes d) of
              None \<Rightarrow> (Inl unique_error, d)
            | Some rows \<Rightarrow> (Inr (), d\<lparr>email_attributes := rows\<rparr>)))"

definition set_email_attribute :: "int \<Rightarrow> string \<Rightarrow> string \<Rightarrow> string \<Rightarrow> string \<Rightarrow> string \<Rightarrow> unit op" where
  "set_email_attribute now new_id acct eid kind content =
     op_bind (db_call (transaction (op_bind (owned_email_check acct eid) (\<lambda>_.
        op_bind (upsert_attribute now new_id acct eid kind content) (\<lambda>_. touch_email acct eid)))))
       (\<lambda>changed d. (Inr (), d\<lparr>published := published d @ [StateChange acct changed]\<rparr>))"

definition list_email_attributes :: "string \<Rightarrow> string \<Rightarrow> email_attribute_row list op" where
  "list_email_attributes acct eid = db_call (\<lambda>d. (Inr (sort_key at_kind
     (filter (\<lambda>a. at_account_id a = acct \<and> at_email_id a = eid) (email_attributes d))), d))"

definition dismiss_rows :: "int \<Rightarrow> string \<Rightarrow> string \<Rightarrow> string \<Rightarrow> unit op" where
  "dismiss_rows now acct eid kind d =
     (let active = (\<lambda>a. at_account_id a = acct \<and> at_email_id a = eid \<and> at_kind a = kind \<and> at_dismissed_at a = None)
      in if sql_count active (email_attributes d) = 0
         then (Inl (StBadInput (''no active attribute '' @ kind @ '' on email '' @ eid)), d)
         else (Inr (), d\<lparr>email_attributes := sql_update active
                (\<lambda>a. a\<lparr>at_dismissed_at := Some now, at_updated_at := now\<rparr>) (email_attributes d)\<rparr>))"

definition dismiss_email_attribute :: "int \<Rightarrow> string \<Rightarrow> string \<Rightarrow> string \<Rightarrow> unit op" where
  "dismiss_email_attribute now acct eid kind =
     op_bind (db_call (transaction (op_bind (owned_email_check acct eid) (\<lambda>_.
        op_bind (dismiss_rows now acct eid kind) (\<lambda>_. touch_email acct eid)))))
       (\<lambda>changed d. (Inr (), d\<lparr>published := published d @ [StateChange acct changed]\<rparr>))"

subsection \<open>Filtered queries\<close>

text \<open>The values of \<open>in_mailbox\<close>, \<open>has_keyword\<close>, \<open>not_keyword\<close> and \<open>all_in_thread\<close> are spliced into the
  statement between single quotes. When one contains a single quote, the statement is another one;
  its result is then the parameter \<open>other_sql\<close>.\<close>

record email_filter =
  ef_in_mailbox :: "string option"
  ef_has_keyword :: "string option"
  ef_not_keyword :: "string option"
  ef_after :: "int option"
  ef_before :: "int option"
  ef_in_thread :: "string option"
  ef_flagged :: "bool option"
  ef_unread :: "bool option"

definition spliced_ok :: "email_filter \<Rightarrow> bool" where
  "spliced_ok f \<longleftrightarrow> list_all (\<lambda>v. case v of None \<Rightarrow> True | Some s \<Rightarrow> CHR 0x27 \<notin> set s)
     [ef_in_mailbox f, ef_has_keyword f, ef_not_keyword f, ef_in_thread f]"

definition opt_all :: "'a option \<Rightarrow> ('a \<Rightarrow> bool) \<Rightarrow> bool" where
  "opt_all v p = (case v of None \<Rightarrow> True | Some x \<Rightarrow> p x)"

definition matches :: "email_filter \<Rightarrow> db \<Rightarrow> email_row \<Rightarrow> bool" where
  "matches f d r \<longleftrightarrow>
     opt_all (ef_in_mailbox f) (\<lambda>b. (em_id r, b) \<in> set (email_mailbox d)) \<and>
     opt_all (ef_has_keyword f) (\<lambda>k. (em_id r, k) \<in> set (email_keyword d)) \<and>
     opt_all (ef_not_keyword f) (\<lambda>k. (em_id r, k) \<notin> set (email_keyword d)) \<and>
     opt_all (ef_after f) (\<lambda>t. em_received_at r > t) \<and>
     opt_all (ef_before f) (\<lambda>t. em_received_at r < t) \<and>
     opt_all (ef_in_thread f) (\<lambda>t. em_thread_id r = t) \<and>
     opt_all (ef_flagged f) (\<lambda>b. (em_id r, ''$Flagged'') \<in> set (email_keyword d) \<longleftrightarrow> b) \<and>
     opt_all (ef_unread f) (\<lambda>b. (em_id r, ''$Seen'') \<notin> set (email_keyword d) \<longleftrightarrow> b)"

definition filter_emails :: "(email_filter \<Rightarrow> string list op) \<Rightarrow> string \<Rightarrow> string list \<Rightarrow> email_filter \<Rightarrow> string list op" where
  "filter_emails other_sql acct ids f =
     (if ids = [] then op_return []
      else if \<not> spliced_ok f then other_sql f
      else db_call (\<lambda>d. (Inr (map em_id (newest_first
        (filter (\<lambda>r. em_account_id r = acct \<and> em_id r \<in> set ids \<and> matches f d r) (emails d)))), d)))"

definition query_emails_with_filters :: "(email_filter \<Rightarrow> (string list \<times> nat \<times> int) op) \<Rightarrow> string \<Rightarrow> email_filter \<Rightarrow> nat \<Rightarrow> nat \<Rightarrow>
    (string list \<times> nat \<times> int) op" where
  "query_emails_with_filters other_sql acct f position limit =
     (let f = f\<lparr>ef_has_keyword := None, ef_not_keyword := None\<rparr> in
      if \<not> spliced_ok f then other_sql f
      else db_call (\<lambda>d.
        (let found = filter (\<lambda>r. em_account_id r = acct \<and> matches f d r) (emails d)
         in (Inr (map em_id (take limit (drop position (newest_first found))), length found, email_state acct ''Email'' d), d))))"

text \<open>Recent messages of a role mailbox; a message in two mailboxes of that role is listed twice.\<close>

definition list_mailbox :: "string \<Rightarrow> string \<Rightarrow> nat \<Rightarrow> email_row list op" where
  "list_mailbox acct role limit = db_call (\<lambda>d. (Inr (take limit (order_desc em_received_at
     (concat (map (\<lambda>r. map (\<lambda>_. r) (filter (\<lambda>m. mb_role m = Some role \<and> (em_id r, mb_id m) \<in> set (email_mailbox d)) (mailboxes d)))
        (filter (\<lambda>r. em_account_id r = acct) (emails d)))))), d))"

definition email_raw :: "(string \<Rightarrow> (storage_error, string) result) \<Rightarrow> string \<Rightarrow> string option op" where
  "email_raw get eid =
     op_bind (db_call (\<lambda>d. (Inr (map_option em_blob_id (sql_select (\<lambda>r. em_id r = eid) (emails d))), d)))
       (\<lambda>b d. case b of
          None \<Rightarrow> (Inr None, d)
        | Some bid \<Rightarrow> (case get bid of Inl e \<Rightarrow> (Inl e, d) | Inr raw \<Rightarrow> (Inr (Some raw), d)))"

section \<open>The counters\<close>

lemma sql_select_update_same:
  assumes "\<And>r. p r \<Longrightarrow> p (f r)"
  shows "sql_select p (sql_update p f rows) = map_option f (sql_select p rows)"
  unfolding sql_select_def sql_update_def by (induction rows) (auto simp: assms)

lemma sql_select_update_other:
  assumes "\<And>r. p r \<Longrightarrow> \<not> q r \<and> \<not> q (f r)"
  shows "sql_select q (sql_update p f rows) = sql_select q rows"
  unfolding sql_select_def sql_update_def by (induction rows) (auto simp: assms)

lemma bump_effect:
  assumes "bump acct dt d = (r, d')"
  shows "r = Inr (email_state acct dt d + 1) \<and> (\<exists>rows. d' = d\<lparr>states := rows\<rparr>) \<and>
    email_state a t d' = (if (a, t) = (acct, dt) then email_state acct dt d + 1 else email_state a t d)"
proof (cases "sql_select (\<lambda>r. st_account_id r = acct \<and> st_data_type r = dt) (states d)")
  case None
  let ?new = "\<lparr>st_account_id = acct, st_data_type = dt, st_modseq = 1\<rparr>"
  have "r = Inr 1" "d' = d\<lparr>states := states d @ [?new]\<rparr>" using assms None by (simp_all add: bump_def)
  moreover have "sql_select q (xs @ [?new]) = (case sql_select q xs of Some y \<Rightarrow> Some y | None \<Rightarrow> if q ?new then Some ?new else None)" for q xs
    unfolding sql_select_def by (induction xs) auto
  ultimately show ?thesis using None by (auto simp: email_state_def split: option.splits)
next
  case (Some row)
  let ?p = "\<lambda>r. st_account_id r = acct \<and> st_data_type r = dt"
  let ?rows = "sql_update ?p (\<lambda>r. r\<lparr>st_modseq := st_modseq r + 1\<rparr>) (states d)"
  have d': "r = Inr (st_modseq row + 1)" "d' = d\<lparr>states := ?rows\<rparr>" using assms Some by (simp_all add: bump_def)
  have same: "sql_select ?p ?rows = Some (row\<lparr>st_modseq := st_modseq row + 1\<rparr>)"
    using Some sql_select_update_same[of ?p "\<lambda>r. r\<lparr>st_modseq := st_modseq r + 1\<rparr>" "states d"] by simp
  have other: "sql_select (\<lambda>r. st_account_id r = a \<and> st_data_type r = t) ?rows = sql_select (\<lambda>r. st_account_id r = a \<and> st_data_type r = t) (states d)"
    if "(a, t) \<noteq> (acct, dt)" using that by (intro sql_select_update_other) auto
  show ?thesis using d' Some same other by (auto simp: email_state_def)
qed

lemma bumpE:
  assumes "op_bind (bump acct dt) f d = (r, d')"
  obtains d1 where "f (email_state acct dt d + 1) d1 = (r, d')" "\<exists>rows. d1 = d\<lparr>states := rows\<rparr>"
    "\<And>a t. email_state a t d1 = (if (a, t) = (acct, dt) then email_state acct dt d + 1 else email_state a t d)"
proof -
  obtain x d1 where b: "bump acct dt d = (x, d1)" by (meson surj_pair)
  note e = bump_effect[OF b]
  then have "f (email_state acct dt d + 1) d1 = (r, d')" using assms b by (auto simp: op_bind_def)
  with e that show thesis by blast
qed

text \<open>The tables an email client sees, and what it sees of one email besides its row.\<close>

definition mail_part :: "db \<Rightarrow> email_row list \<times> state_row list \<times> (string \<times> string) list \<times> (string \<times> string) list \<times> email_attribute_row list" where
  "mail_part d = (emails d, states d, email_mailbox d, email_keyword d, email_attributes d)"

definition email_view :: "db \<Rightarrow> string \<Rightarrow> (string \<times> string) list \<times> (string \<times> string) list \<times> email_attribute_row list" where
  "email_view d e = (filter (\<lambda>x. fst x = e) (email_mailbox d), filter (\<lambda>x. fst x = e) (email_keyword d),
     filter (\<lambda>a. at_email_id a = e) (email_attributes d))"

definition email_key :: "email_row \<Rightarrow> string \<times> string \<times> int \<times> int" where
  "email_key r = (em_id r, em_account_id r, em_created_modseq r, em_updated_modseq r)"

text \<open>What an operation does to the emails and their counter: nothing a client is told of, a new
  email, or a new \<open>updated_modseq\<close> on one email.\<close>

inductive mail_change :: "db \<Rightarrow> db \<Rightarrow> bool" where
  quiet: "mail_change d d'"
    if "map email_key (emails d') = map email_key (emails d)" "\<And>a. email_state a ''Email'' d' = email_state a ''Email'' d"
      "\<And>e. email_view d' e = email_view d e"
| stored: "mail_change d d'"
    if "map email_key (emails d') = map email_key (emails d) @ [(i, acct, email_state acct ''Email'' d + 1, email_state acct ''Email'' d + 1)]"
      "i \<notin> em_id ` set (emails d)"
      "\<And>a. email_state a ''Email'' d' = (if a = acct then email_state acct ''Email'' d + 1 else email_state a ''Email'' d)"
      "\<And>e. e \<noteq> i \<Longrightarrow> email_view d' e = email_view d e"
| touched: "mail_change d d'"
    if "\<exists>r \<in> set (emails d). em_id r = i \<and> em_account_id r = acct"
      "map email_key (emails d') = map (\<lambda>(j, a, c, u). (j, a, c, if j = i then email_state acct ''Email'' d + 1 else u)) (map email_key (emails d))"
      "\<And>a. email_state a ''Email'' d' = (if a = acct then email_state acct ''Email'' d + 1 else email_state a ''Email'' d)"
      "\<And>e. e \<noteq> i \<Longrightarrow> email_view d' e = email_view d e"

lemma mail_part_view:
  assumes "mail_part d' = mail_part d"
  shows "emails d' = emails d" "email_state a t d' = email_state a t d" "email_view d' e = email_view d e"
  using assms by (simp_all add: mail_part_def email_state_def email_view_def)

lemma mail_change_same: "mail_part d' = mail_part d \<Longrightarrow> mail_change d d'"
  by (rule quiet) (simp_all add: mail_part_def email_state_def email_view_def)

lemma find_mailbox_frame: "find_mailbox acct target d = (r, d') \<Longrightarrow> d' = d"
  by (auto simp: find_mailbox_def split: mailbox_target.splits option.splits)

lemma place_thread_frame: "place_thread acct found fresh seq d = (r, d') \<Longrightarrow> mail_part d' = mail_part d"
  by (auto simp: place_thread_def mail_part_def split: option.splits)

lemma store_email_ok:
  "store_email row mb d = (Inr x, d') \<Longrightarrow> em_id row \<notin> em_id ` set (emails d) \<and> emails d' = emails d @ [row] \<and> states d' = states d \<and>
    (\<forall>e. e \<noteq> em_id row \<longrightarrow> email_view d' e = email_view d e)"
  by (auto simp: store_email_def sql_insert_def email_view_def split: option.splits if_splits)

lemma ingest_tx_ok:
  assumes "ingest_tx now ids acct target meta sz b auth chat d = (Inr x, d')"
  shows "mail_change d d'"
proof -
  obtain mb d0 where f: "find_mailbox acct target d = (Inr mb, d0)"
    using assms by (auto simp: ingest_tx_def op_bind_def split: prod.splits sum.splits)
  then have d0: "d0 = d" by (rule find_mailbox_frame)
  let ?found = "resolve_thread acct (references meta) d"
  have "op_bind (bump acct ''Email'') (\<lambda>email_seq.
      op_bind (bump acct ''Thread'') (\<lambda>thread_seq.
      op_bind (bump acct ''Mailbox'') (\<lambda>mailbox_seq.
      op_bind (place_thread acct ?found (new_thread ids) thread_seq) (\<lambda>thread_id.
      op_bind (store_email \<lparr>em_id = new_email ids, em_account_id = acct, em_thread_id = thread_id,
                 em_blob_id = b, em_message_id = message_id meta, em_subject = subject meta,
                 em_from_addr = from_addr meta, em_received_at = now, em_size = sz,
                 em_created_modseq = email_seq, em_updated_modseq = email_seq,
                 em_auth_results = auth, em_pgp_status = None, em_spam_results = None,
                 em_chat_mode = chat\<rparr> mb) (\<lambda>_.
      op_return (\<lparr>ig_id = new_email ids, ig_thread_id = thread_id, ig_blob_id = b\<rparr>,
                 [(''Email'', email_seq), (''Thread'', thread_seq), (''Mailbox'', mailbox_seq)])))))) d = (Inr x, d')"
    using assms f d0 by (simp add: ingest_tx_def op_bind_def[of "find_mailbox acct target"] Let_def)
  then obtain d1 d2 d3 seq seq' where
    b1: "\<exists>rows. d1 = d\<lparr>states := rows\<rparr>" "\<And>a t. email_state a t d1 = (if (a, t) = (acct, ''Email'') then email_state acct ''Email'' d + 1 else email_state a t d)" and
    b2: "\<exists>rows. d2 = d1\<lparr>states := rows\<rparr>" "\<And>a t. email_state a t d2 = (if (a, t) = (acct, ''Thread'') then seq else email_state a t d1)" and
    b3: "\<exists>rows. d3 = d2\<lparr>states := rows\<rparr>" "\<And>a t. email_state a t d3 = (if (a, t) = (acct, ''Mailbox'') then seq' else email_state a t d2)" and
    rest: "op_bind (place_thread acct ?found (new_thread ids) seq) (\<lambda>thread_id.
      op_bind (store_email \<lparr>em_id = new_email ids, em_account_id = acct, em_thread_id = thread_id,
                 em_blob_id = b, em_message_id = message_id meta, em_subject = subject meta,
                 em_from_addr = from_addr meta, em_received_at = now, em_size = sz,
                 em_created_modseq = email_state acct ''Email'' d + 1, em_updated_modseq = email_state acct ''Email'' d + 1,
                 em_auth_results = auth, em_pgp_status = None, em_spam_results = None,
                 em_chat_mode = chat\<rparr> mb) (\<lambda>_.
      op_return (\<lparr>ig_id = new_email ids, ig_thread_id = thread_id, ig_blob_id = b\<rparr>,
                 [(''Email'', email_state acct ''Email'' d + 1), (''Thread'', seq), (''Mailbox'', seq')]))) d3 = (Inr x, d')"
    by (elim bumpE) blast
  have v3: "email_view d3 e = email_view d e" for e using b1(1) b2(1) b3(1) by (auto simp: email_view_def)
  have d3: "emails d3 = emails d" "\<And>a. email_state a ''Email'' d3 = (if a = acct then email_state acct ''Email'' d + 1 else email_state a ''Email'' d)"
    using b1 b2 b3 by auto
  obtain thread_id d4 where p: "place_thread acct ?found (new_thread ids) seq d3 = (Inr thread_id, d4)"
    using rest by (auto simp: op_bind_def split: prod.splits sum.splits)
  obtain row where s: "store_email row mb d4 = (Inr (), d')" "em_id row = new_email ids" "em_account_id row = acct"
      "em_created_modseq row = email_state acct ''Email'' d + 1" "em_updated_modseq row = email_state acct ''Email'' d + 1"
    using rest p by (auto simp: op_bind_def op_return_def split: prod.splits sum.splits)
  note d4 = mail_part_view[OF place_thread_frame[OF p]] and e = store_email_ok[OF s(1)]
  show ?thesis
  proof (rule stored)
    show "map email_key (emails d') = map email_key (emails d) @ [(new_email ids, acct, email_state acct ''Email'' d + 1, email_state acct ''Email'' d + 1)]"
      using e s d4(1) d3(1) by (simp add: email_key_def)
    show "new_email ids \<notin> em_id ` set (emails d)" using e s(2) d4(1) d3(1) by simp
    have "email_state a ''Email'' d' = email_state a ''Email'' d4" for a using e by (simp add: email_state_def)
    then show "email_state a ''Email'' d' = (if a = acct then email_state acct ''Email'' d + 1 else email_state a ''Email'' d)" for a
      using d4(2) d3(2) by metis
    show "email_view d' j = email_view d j" if "j \<noteq> new_email ids" for j
      using that e s(2) d4(3) v3 by metis
  qed
qed

lemma mail_change_cong:
  assumes "mail_change d1 d2" "mail_part d1 = mail_part d" "mail_part d3 = mail_part d2"
  shows "mail_change d d3"
proof -
  note eq = mail_part_view[OF assms(2)] mail_part_view[OF assms(3)]
  show ?thesis using assms(1)
  proof cases
    case quiet
    then show ?thesis by (intro mail_change.quiet) (simp_all add: eq)
  next
    case (stored i acct)
    then show ?thesis by (intro mail_change.stored[of _ _ i acct]) (simp_all add: eq)
  next
    case (touched i acct)
    then show ?thesis by (intro mail_change.touched[of _ i acct]) (simp_all add: eq split: prod.splits)
  qed
qed

lemma mail_change_call:
  assumes "db_call f d = (r, d')" "\<And>d r d'. f d = (r, d') \<Longrightarrow> mail_change d d'"
  shows "mail_change d d'"
  using assms(1)
proof (cases rule: db_call_cases)
  case (fault fs)
  then show ?thesis by (simp add: mail_change_same mail_part_def)
next
  case (run fs)
  show ?thesis by (rule mail_change_cong[OF assms(2)[OF run]]) (simp_all add: mail_part_def)
qed

lemma mail_change_transaction:
  assumes "transaction f d = (r, d')" "\<And>x. f d = (Inr x, d') \<Longrightarrow> mail_change d d'"
  shows "mail_change d d'"
  using assms by (cases r) (auto simp: transaction_ok mail_change_same dest: transaction_err)

text \<open>A transaction followed by the publication of what it changed.\<close>

lemma mail_change_published:
  assumes "op_bind (db_call (transaction f)) (\<lambda>changed d. (Inr (), d\<lparr>published := published d @ [StateChange acct changed]\<rparr>)) d = (r, d')"
    and "\<And>d x d'. f d = (Inr x, d') \<Longrightarrow> mail_change d d'"
  shows "mail_change d d'"
proof -
  obtain x d1 where t: "db_call (transaction f) d = (x, d1)" by (meson surj_pair)
  have c: "mail_change d d1"
    by (rule mail_change_call[OF t]) (auto elim!: mail_change_transaction intro: assms(2))
  have "mail_part d' = mail_part d1"
    using assms(1) t by (cases x) (auto simp: op_bind_def mail_part_def)
  then show ?thesis by (intro mail_change_cong[OF c]) simp_all
qed

lemma put_blob_frame: "put_blob env now raw d = (r, d') \<Longrightarrow> mail_part d' = mail_part d"
  by (auto simp: put_blob_def op_defs db_call_def mail_part_def split: sum.splits option.splits prod.splits list.splits if_splits)

lemma link_contact_frame: "mail_part (snd (link_contact now i acct from d)) = mail_part d"
  by (auto simp: link_contact_def db_call_def mail_part_def split: list.splits)

lemma published_frame: "mail_part (d\<lparr>published := p\<rparr>) = mail_part d"
  by (simp add: mail_part_def)

lemma ingest_email_into_change:
  assumes "ingest_email_into env now ids acct raw target auth chat d = (r, d')"
  shows "mail_change d d'"
proof -
  obtain b d1 where p: "put_blob env now raw d = (b, d1)" by (meson surj_pair)
  note f = put_blob_frame[OF p]
  show ?thesis
  proof (cases b)
    case (Inl e)
    with assms p have "d' = d1" by (simp add: ingest_email_into_def op_bind_def Let_def)
    with f show ?thesis by (simp add: mail_change_same)
  next
    case (Inr blob)
    obtain x d2 where t: "db_call (transaction (ingest_tx now ids acct target (parse_meta env raw) (length raw) blob auth chat)) d1 = (x, d2)"
      by (meson surj_pair)
    have c: "mail_change d1 d2"
      by (rule mail_change_call[OF t]) (auto elim!: mail_change_transaction intro: ingest_tx_ok)
    have "mail_part d' = mail_part d2"
      using assms p Inr t
      by (cases x) (auto simp: ingest_email_into_def op_bind_def Let_def link_contact_frame published_frame split: option.splits)
    then show ?thesis using f by (intro mail_change_cong[OF c]) simp_all
  qed
qed

text \<open>Ingest leaves alone every view that does not look at the tables of mail.\<close>

locale mail_free = db_view view for view :: "db \<Rightarrow> 'v" +
  assumes mail_tables: "view (d\<lparr>blobs := x1\<rparr>) = view d" "view (d\<lparr>contacts := x2\<rparr>) = view d" "view (d\<lparr>threads := x3\<rparr>) = view d"
    "view (d\<lparr>states := x4\<rparr>) = view d" "view (d\<lparr>emails := x5, email_mailbox := x6\<rparr>) = view d"
    "view (d\<lparr>published := x7\<rparr>) = view d" "view (d\<lparr>emails := x5\<rparr>) = view d"
begin

lemma mail_ops:
  "keeps view (put_blob env now raw)" "keeps view (link_contact now i acct from)"
  "keeps view (place_thread acct found fresh seq)" "keeps view (store_email row mb)"
  "keeps view (bump acct dt)" "keeps view (find_mailbox acct target)"
  by (auto simp: keeps_def put_blob_def link_contact_def place_thread_def store_email_def bump_def find_mailbox_def op_defs db_call_def
      mail_tables view_faults split: sum.splits option.splits prod.splits list.splits if_splits mailbox_target.splits)

lemma keeps_ingest_tx: "keeps view (ingest_tx now ids acct target meta sz b auth chat)"
  unfolding ingest_tx_def
  by (rule keeps_bind[OF mail_ops(6)])
    (simp only: keeps_def Let_def, intro allI, rule keepsD[OF _ surjective_pairing], intro keeps_bind mail_ops keeps_return)

lemma keeps_ingest: "keeps view (ingest_email_into env now ids acct raw target auth chat)"
proof -
  have "keeps view (\<lambda>d. (let d1 = d\<lparr>published := published d @ [StateChange acct changed]\<rparr>
            in (Inr ingested, case from_addr meta of
                  None \<Rightarrow> d1
                | Some from \<Rightarrow> snd (link_contact now i acct from d1))))" for changed ingested meta i
    using mail_ops(2) mail_tables(6) by (auto simp: keeps_def Let_def split: option.splits)
  then show ?thesis unfolding ingest_email_into_def Let_def
    by (intro keeps_bind mail_ops keeps_call keeps_transaction keeps_ingest_tx) (auto simp: case_prod_beta)
qed

lemma keeps_verdicts: "keeps view (set_pgp_status eid st)" "keeps view (set_spam_verdict eid st)"
  unfolding set_pgp_status_def set_spam_verdict_def by (rule keeps_call, simp add: keeps_def mail_tables)+

end

lemma filter_fst_pairs: "e \<noteq> i \<Longrightarrow> filter (\<lambda>x. fst x = e) (map (Pair i) xs) = []"
  "e \<noteq> i \<Longrightarrow> filter (\<lambda>x. fst x \<noteq> i \<and> fst x = e) rows = filter (\<lambda>x. fst x = e) rows"
  by (induction xs) (auto intro!: filter_cong)

lemma filter_insert_ignore:
  "e \<noteq> i \<Longrightarrow> filter (\<lambda>x. fst x = e) (insert_ignore rows (map (\<lambda>k. (i, f k)) xs)) = filter (\<lambda>x. fst x = e) rows"
  by (induction xs arbitrary: rows) auto

lemma set_mailboxes_frame:
  "set_mailboxes acct eid mbs d = (r, d') \<Longrightarrow> emails d' = emails d \<and> states d' = states d \<and>
    (\<forall>e. e \<noteq> eid \<longrightarrow> email_view d' e = email_view d e)"
  by (auto simp: set_mailboxes_def email_view_def sql_delete_def split_beta filter_fst_pairs split: option.splits if_splits)

lemma set_keywords_frame:
  "set_keywords eid kws d = (r, d') \<Longrightarrow> emails d' = emails d \<and> states d' = states d \<and>
    (\<forall>e. e \<noteq> eid \<longrightarrow> email_view d' e = email_view d e)"
  by (auto simp: set_keywords_def email_view_def sql_delete_def split_beta filter_fst_pairs filter_insert_ignore split: option.splits)

text \<open>The common end of the updates: the counter goes up, the email gets the new value.\<close>

lemma touch_change:
  assumes own: "\<exists>r \<in> set (emails d). em_id r = eid \<and> em_account_id r = acct"
    and d1: "emails d1 = emails d" "states d1 = states d" "\<And>e. e \<noteq> eid \<Longrightarrow> email_view d1 e = email_view d e"
    and b: "\<exists>rows. d2 = d1\<lparr>states := rows\<rparr>"
      "\<And>a. email_state a ''Email'' d2 = (if a = acct then email_state acct ''Email'' d1 + 1 else email_state a ''Email'' d1)"
    and e: "d' = d2\<lparr>emails := sql_update (\<lambda>r. em_id r = eid) (\<lambda>r. r\<lparr>em_updated_modseq := email_state acct ''Email'' d1 + 1\<rparr>) (emails d2)\<rparr>"
  shows "mail_change d d'"
proof (rule touched[OF own])
  have st: "email_state a ''Email'' d1 = email_state a ''Email'' d" for a using d1(2) by (simp add: email_state_def)
  have e2: "emails d2 = emails d" using b(1) d1(1) by auto
  show "map email_key (emails d') = map (\<lambda>(j, a, c, u). (j, a, c, if j = eid then email_state acct ''Email'' d + 1 else u)) (map email_key (emails d))"
    using e e2 st by (simp add: sql_update_def email_key_def)
  have "email_state a ''Email'' d' = email_state a ''Email'' d2" for a using e by (simp add: email_state_def)
  then show "email_state a ''Email'' d' = (if a = acct then email_state acct ''Email'' d + 1 else email_state a ''Email'' d)" for a
    using b(2) st by simp
  show "email_view d' j = email_view d j" if "j \<noteq> eid" for j
    using that b(1) e d1(3) by (auto simp: email_view_def)
qed

lemma update_tx_ok:
  assumes "update_tx acct eid kws mbs d = (Inr x, d')"
  shows "mail_change d d'"
proof -
  have own: "\<exists>r \<in> set (emails d). em_id r = eid \<and> em_account_id r = acct"
    using assms by (auto simp: update_tx_def split: if_splits)
  obtain d0 where k: "set_keywords eid kws d = (Inr (), d0)" by (simp add: set_keywords_def)
  obtain y d1 where m: "set_mailboxes acct eid mbs d0 = (y, d1)" by (meson surj_pair)
  have d1: "emails d1 = emails d" "states d1 = states d" "\<And>e. e \<noteq> eid \<Longrightarrow> email_view d1 e = email_view d e"
    using set_keywords_frame[OF k] set_mailboxes_frame[OF m] by simp_all
  from assms k m own have "op_bind (bump acct ''Email'') (\<lambda>email_seq.
           op_bind (bump acct ''Mailbox'') (\<lambda>mailbox_seq d'.
             (Inr [(''Email'', email_seq), (''Mailbox'', mailbox_seq)],
              d'\<lparr>emails := sql_update (\<lambda>r. em_id r = eid) (\<lambda>r. r\<lparr>em_updated_modseq := email_seq\<rparr>) (emails d')\<rparr>))) d1 = (Inr x, d')"
    by (cases y) (auto simp: update_tx_def op_bind_def[of "set_keywords eid kws"] op_bind_def[of "set_mailboxes acct eid mbs"] split: if_splits)
  then obtain d2 d3 s where
    b: "\<exists>rows. d2 = d1\<lparr>states := rows\<rparr>" "\<exists>rows. d3 = d2\<lparr>states := rows\<rparr>"
      "\<And>a t. email_state a t d2 = (if (a, t) = (acct, ''Email'') then email_state acct ''Email'' d1 + 1 else email_state a t d1)"
      "\<And>a t. email_state a t d3 = (if (a, t) = (acct, ''Mailbox'') then s else email_state a t d2)"
    and e: "d' = d3\<lparr>emails := sql_update (\<lambda>r. em_id r = eid) (\<lambda>r. r\<lparr>em_updated_modseq := email_state acct ''Email'' d1 + 1\<rparr>) (emails d3)\<rparr>"
    by (elim bumpE) auto
  show ?thesis by (rule touch_change[OF own d1 _ _ e]) (use b in auto)
qed

lemma touch_email_ok:
  assumes own: "\<exists>r \<in> set (emails d). em_id r = eid \<and> em_account_id r = acct"
    and d1: "emails d1 = emails d" "states d1 = states d" "\<And>e. e \<noteq> eid \<Longrightarrow> email_view d1 e = email_view d e"
    and t: "touch_email acct eid d1 = (r, d')"
  shows "mail_change d d'"
proof -
  obtain d2 where b: "\<exists>rows. d2 = d1\<lparr>states := rows\<rparr>"
      "\<And>a t. email_state a t d2 = (if (a, t) = (acct, ''Email'') then email_state acct ''Email'' d1 + 1 else email_state a t d1)"
    and e: "d' = d2\<lparr>emails := sql_update (\<lambda>r. em_id r = eid) (\<lambda>r. r\<lparr>em_updated_modseq := email_state acct ''Email'' d1 + 1\<rparr>) (emails d2)\<rparr>"
    using t unfolding touch_email_def by (elim bumpE) auto
  show ?thesis by (rule touch_change[OF own d1 b(1) _ e]) (use b(2) in auto)
qed

lemma filter_attr_update:
  assumes "\<And>a. p a \<Longrightarrow> at_email_id a \<noteq> e \<and> at_email_id (f a) \<noteq> e"
  shows "filter (\<lambda>a. at_email_id a = e) (sql_update p f rows) = filter (\<lambda>a. at_email_id a = e) rows"
  unfolding sql_update_def by (induction rows) (auto simp: assms)

lemma upsert_frame:
  assumes "upsert_attribute now i acct eid kind content d = (r, d')"
  shows "emails d' = emails d \<and> states d' = states d \<and> (\<forall>e. e \<noteq> eid \<longrightarrow> email_view d' e = email_view d e)"
proof -
  have "filter (\<lambda>a. at_email_id a = e) (sql_update (\<lambda>a. at_email_id a = eid \<and> at_kind a = kind)
      (\<lambda>a. a\<lparr>at_content := content, at_updated_at := now\<rparr>) rows) = filter (\<lambda>a. at_email_id a = e) rows" if "e \<noteq> eid" for e rows
    using that by (intro filter_attr_update) auto
  then show ?thesis using assms
    by (auto simp: upsert_attribute_def email_view_def sql_insert_def split: option.splits if_splits)
qed

lemma dismiss_frame:
  assumes "dismiss_rows now acct eid kind d = (r, d')"
  shows "emails d' = emails d \<and> states d' = states d \<and> (\<forall>e. e \<noteq> eid \<longrightarrow> email_view d' e = email_view d e)"
proof -
  have "filter (\<lambda>a. at_email_id a = e) (sql_update (\<lambda>a. at_account_id a = acct \<and> at_email_id a = eid \<and> at_kind a = kind \<and> at_dismissed_at a = None)
      (\<lambda>a. a\<lparr>at_dismissed_at := Some now, at_updated_at := now\<rparr>) rows) = filter (\<lambda>a. at_email_id a = e) rows" if "e \<noteq> eid" for e rows
    using that by (intro filter_attr_update) auto
  then show ?thesis using assms by (auto simp: dismiss_rows_def email_view_def Let_def split: if_splits)
qed

lemma attribute_tx_ok:
  assumes "op_bind (owned_email_check acct eid) (\<lambda>_. op_bind f (\<lambda>_. touch_email acct eid)) d = (Inr x, d')"
    and "\<And>d r d'. f d = (r, d') \<Longrightarrow> emails d' = emails d \<and> states d' = states d \<and> (\<forall>e. e \<noteq> eid \<longrightarrow> email_view d' e = email_view d e)"
  shows "mail_change d d'"
proof -
  have own: "\<exists>r \<in> set (emails d). em_id r = eid \<and> em_account_id r = acct"
    using assms(1) by (auto simp: op_bind_def owned_email_check_def split: if_splits)
  obtain y d1 where f: "f d = (y, d1)" by (meson surj_pair)
  have t: "touch_email acct eid d1 = (Inr x, d')"
    using assms(1) own f by (cases y) (auto simp: op_bind_def owned_email_check_def split: if_splits)
  show ?thesis by (rule touch_email_ok[OF own _ _ _ t]) (use assms(2)[OF f] in auto)
qed

lemma verdict_change:
  assumes "set_pgp_status eid s d = (r, d') \<or> set_spam_verdict eid s d = (r, d')"
  shows "mail_change d d'"
proof -
  have "mail_change d (d\<lparr>emails := sql_update p f (emails d)\<rparr>)" if "\<And>r. email_key (f r) = email_key r" for p f d
    using that by (intro quiet) (simp_all add: map_key_update email_state_def email_view_def)
  then show ?thesis using assms unfolding set_pgp_status_def set_spam_verdict_def
    by (elim disjE mail_change_call) (auto simp: email_key_def)
qed

section \<open>Runs of the mail store\<close>

text \<open>A step is one call of the store that writes emails, or any other operation of the program: none of
  them writes the tables an email client sees, or the counter of the emails.\<close>

inductive mail_step :: "db \<Rightarrow> db \<Rightarrow> bool" where
  step_ingest: "mail_step d d'" if "ingest_email_into env now ids acct raw target auth chat d = (r, d')"
| step_update: "mail_step d d'" if "update_email acct eid kws mbs d = (r', d')"
| step_pgp: "mail_step d d'" if "set_pgp_status eid s d = (r', d')"
| step_spam: "mail_step d d'" if "set_spam_verdict eid s d = (r', d')"
| step_attribute: "mail_step d d'" if "set_email_attribute now i acct eid kind content d = (r', d')"
| step_dismiss: "mail_step d d'" if "dismiss_email_attribute now acct eid kind d = (r', d')"
| step_other: "mail_step d d'" if "emails d' = emails d" "\<And>a. email_state a ''Email'' d' = email_state a ''Email'' d"
    "\<And>e. email_view d' e = email_view d e"

lemma mail_step_change:
  assumes "mail_step d d'"
  shows "mail_change d d'"
  using assms
proof cases
  case (step_update acct eid kws mbs r')
  then show ?thesis unfolding update_email_def by (elim mail_change_published update_tx_ok)
next
  case (step_attribute now i acct eid kind content r')
  then show ?thesis unfolding set_email_attribute_def
    by (elim mail_change_published attribute_tx_ok upsert_frame)
next
  case (step_dismiss now acct eid kind r')
  then show ?thesis unfolding dismiss_email_attribute_def
    by (elim mail_change_published attribute_tx_ok dismiss_frame)
next
  case step_other
  then show ?thesis by (intro quiet) simp_all
qed (auto intro: ingest_email_into_change verdict_change)

text \<open>The counters of every email: ids are distinct, and \<open>1 \<le> created \<le> updated \<le>\<close> the state of the account.\<close>

definition mail_inv :: "db \<Rightarrow> bool" where
  "mail_inv d \<longleftrightarrow> distinct (map fst (map email_key (emails d))) \<and> (\<forall>a. email_state a ''Email'' d \<ge> 0) \<and>
     (\<forall>(i, a, c, u) \<in> set (map email_key (emails d)). 1 \<le> c \<and> c \<le> u \<and> u \<le> email_state a ''Email'' d)"

lemma fst_email_key [simp]: "fst (email_key r) = em_id r"
  by (simp add: email_key_def)

lemma touched_key:
  assumes "(j, a, c, u) \<in> set (map (\<lambda>(j, a, c, u). (j, a, c, if j = i then v else u)) keys)"
  obtains u0 where "(j, a, c, u0) \<in> set keys" "u = (if j = i then v else u0)"
  using assms by auto

lemma mail_inv_change:
  assumes "mail_change d d'" "mail_inv d"
  shows "mail_inv d'"
  using assms(1)
proof cases
  case quiet
  then show ?thesis using assms(2) unfolding mail_inv_def by simp
next
  case (stored i acct)
  define keys where "keys = map email_key (emails d)"
  have "i \<notin> fst ` set keys" using stored(2) by (simp add: image_image keys_def)
  then show ?thesis using assms(2) unfolding mail_inv_def stored(1,3) keys_def[symmetric] by fastforce
next
  case (touched i acct)
  let ?f = "\<lambda>(j, a, c, u). (j, a, c, if j = i then email_state acct ''Email'' d + 1 else u)"
  let ?keys = "map email_key (emails d)"
  have fst: "map fst (map ?f ks) = map fst ks" for ks :: "(string \<times> string \<times> int \<times> int) list"
    by (induction ks) auto
  obtain r where r: "r \<in> set (emails d)" "em_id r = i" "em_account_id r = acct" using touched(1) by blast
  have own: "a = acct" if "(i, a, c, u) \<in> set ?keys" for a c u
  proof -
    have "inj_on fst (set ?keys)" using assms(2) by (simp add: mail_inv_def distinct_map del: map_map)
    moreover have "email_key r \<in> set ?keys" "fst (email_key r) = fst (i, a, c, u)" using r by simp_all
    ultimately have "email_key r = (i, a, c, u)" using that unfolding inj_on_def by blast
    then show ?thesis using r(3) by (simp add: email_key_def)
  qed
  have st: "email_state a ''Email'' d \<le> email_state a ''Email'' d'" for a unfolding touched(3) by simp
  have "1 \<le> c \<and> c \<le> u \<and> u \<le> email_state a ''Email'' d'" if k: "(j, a, c, u) \<in> set (map email_key (emails d'))" for j a c u
  proof -
    obtain u0 where k: "(j, a, c, u0) \<in> set ?keys" "u = (if j = i then email_state acct ''Email'' d + 1 else u0)"
      using k unfolding touched(2) by (rule touched_key)
    then have "1 \<le> c" "c \<le> u0" "u0 \<le> email_state a ''Email'' d" using assms(2) by (auto simp: mail_inv_def)
    then show ?thesis using k own st[of a] touched(3)[of acct] by (cases "j = i") (auto simp del: set_map)
  qed
  moreover have "email_state a ''Email'' d' \<ge> 0" for a using assms(2) st[of a] order_trans unfolding mail_inv_def by blast
  moreover have "distinct (map fst (map email_key (emails d')))" using assms(2) unfolding touched(2) fst mail_inv_def by blast
  ultimately show ?thesis unfolding mail_inv_def by blast
qed

text \<open>What has happened to the emails since an earlier state: an email of then is still there, with the
  same view unless its \<open>updated_modseq\<close> is above the state of then, and every other email was created
  above it.\<close>

definition advanced :: "db \<Rightarrow> db \<Rightarrow> bool" where
  "advanced d1 d2 \<longleftrightarrow>
     (\<forall>a. email_state a ''Email'' d1 \<le> email_state a ''Email'' d2) \<and>
     (\<forall>(i, a, c, u) \<in> set (map email_key (emails d1)). \<exists>u'. (i, a, c, u') \<in> set (map email_key (emails d2)) \<and>
        (u' > email_state a ''Email'' d1 \<or> u' = u \<and> email_view d2 i = email_view d1 i)) \<and>
     (\<forall>(i, a, c, u) \<in> set (map email_key (emails d2)). i \<notin> em_id ` set (emails d1) \<longrightarrow> c > email_state a ''Email'' d1)"

lemma advanced_refl: "advanced d d"
  by (auto simp: advanced_def email_key_def)

lemma advancedD:
  assumes "advanced d1 d2"
  shows "email_state a ''Email'' d1 \<le> email_state a ''Email'' d2"
    and "(i, a, c, u) \<in> set (map email_key (emails d1)) \<Longrightarrow> \<exists>u'. (i, a, c, u') \<in> set (map email_key (emails d2)) \<and>
        (u' > email_state a ''Email'' d1 \<or> u' = u \<and> email_view d2 i = email_view d1 i)"
    and "(i, a, c, u) \<in> set (map email_key (emails d2)) \<Longrightarrow> i \<notin> em_id ` set (emails d1) \<Longrightarrow> c > email_state a ''Email'' d1"
  using assms unfolding advanced_def by blast+

lemma advanced_change:
  assumes a: "advanced d1 d2" and i: "mail_inv d2" and c: "mail_change d2 d3"
  shows "advanced d1 d3"
  using c
proof cases
  case quiet
  then show ?thesis using a unfolding advanced_def by simp
next
  case (stored i acct)
  have st: "email_state a ''Email'' d1 \<le> email_state a ''Email'' d3" for a
    using advancedD(1)[OF a, of a] unfolding stored(3) by auto
  have "\<exists>u'. (j, a', c, u') \<in> set (map email_key (emails d3)) \<and> (u' > email_state a' ''Email'' d1 \<or> u' = u \<and> email_view d3 j = email_view d1 j)"
    if k: "(j, a', c, u) \<in> set (map email_key (emails d1))" for j a' c u
  proof -
    obtain u' where u: "(j, a', c, u') \<in> set (map email_key (emails d2))" "u' > email_state a' ''Email'' d1 \<or> u' = u \<and> email_view d2 j = email_view d1 j"
      using advancedD(2)[OF a k] by blast
    then have "j \<noteq> i" using stored(2) by (auto simp: email_key_def)
    then show ?thesis using u stored(1,4) by auto
  qed
  moreover have "c > email_state a' ''Email'' d1" if "(j, a', c, u) \<in> set (map email_key (emails d3))" "j \<notin> em_id ` set (emails d1)" for j a' c u
    using that advancedD(3)[OF a, of j a' c u] advancedD(1)[OF a, of acct] unfolding stored(1) by auto
  ultimately show ?thesis using st unfolding advanced_def by blast
next
  case (touched i acct)
  have st: "email_state a ''Email'' d1 \<le> email_state a ''Email'' d3" for a
    using advancedD(1)[OF a, of a] unfolding touched(3) by auto
  have own: "a' = acct" if k: "(i, a', c, u) \<in> set (map email_key (emails d2))" for a' c u
  proof -
    obtain r where r: "r \<in> set (emails d2)" "em_id r = i" "em_account_id r = acct" using touched(1) by blast
    obtain r' where r': "r' \<in> set (emails d2)" "(i, a', c, u) = email_key r'" using k by auto
    have "inj_on em_id (set (emails d2))" using i by (simp add: mail_inv_def distinct_map comp_def)
    then have "r' = r" using r r' unfolding inj_on_def email_key_def by auto
    then show ?thesis using r r' by (simp add: email_key_def)
  qed
  have "\<exists>u'. (j, a', c, u') \<in> set (map email_key (emails d3)) \<and> (u' > email_state a' ''Email'' d1 \<or> u' = u \<and> email_view d3 j = email_view d1 j)"
    if k: "(j, a', c, u) \<in> set (map email_key (emails d1))" for j a' c u
  proof -
    obtain u' where u: "(j, a', c, u') \<in> set (map email_key (emails d2))" "u' > email_state a' ''Email'' d1 \<or> u' = u \<and> email_view d2 j = email_view d1 j"
      using advancedD(2)[OF a k] by blast
    let ?u = "if j = i then email_state acct ''Email'' d2 + 1 else u'"
    have "(j, a', c, ?u) \<in> set (map email_key (emails d3))" unfolding touched(2) set_map[of _ "map email_key (emails d2)"] by (rule rev_image_eqI[OF u(1)]) simp
    moreover have "?u > email_state a' ''Email'' d1 \<or> ?u = u \<and> email_view d3 j = email_view d1 j"
      using u touched(4)[of j] own[of a' c u'] advancedD(1)[OF a, of acct] by auto
    ultimately show ?thesis by blast
  qed
  moreover have "c > email_state a' ''Email'' d1" if k: "(j, a', c, u) \<in> set (map email_key (emails d3))" "j \<notin> em_id ` set (emails d1)" for j a' c u
  proof -
    obtain u' where "(j, a', c, u') \<in> set (map email_key (emails d2))" using k(1) unfolding touched(2) by (rule touched_key)
    then show ?thesis using advancedD(3)[OF a] k(2) by blast
  qed
  ultimately show ?thesis using st unfolding advanced_def by blast
qed

lemma mail_inv_run: "mail_step\<^sup>*\<^sup>* d1 d2 \<Longrightarrow> mail_inv d1 \<Longrightarrow> mail_inv d2"
  by (induction rule: rtranclp_induct) (auto intro: mail_inv_change mail_step_change)

lemma mail_inv_empty: "mail_inv empty_db"
  by (simp add: mail_inv_def empty_db_def email_state_def sql_select_def)

lemma advanced_run: "mail_step\<^sup>*\<^sup>* d1 d2 \<Longrightarrow> mail_inv d1 \<Longrightarrow> advanced d1 d2"
  by (induction rule: rtranclp_induct) (auto intro: advanced_refl advanced_change mail_step_change mail_inv_run)

section \<open>Synchronization\<close>

lemma as_i64_nat: "0 \<le> n \<Longrightarrow> n < 2 ^ 63 \<Longrightarrow> as_i64 (nat n) = n"
  by (simp add: as_i64_def Let_def)

lemma as_u64_less: "0 \<le> n \<Longrightarrow> n < 2 ^ 63 \<Longrightarrow> as_u64 n > nat m \<longleftrightarrow> n > m \<and> n > 0"
  by (auto simp: as_u64_def)

definition changed_keys :: "string \<Rightarrow> int \<Rightarrow> db \<Rightarrow> (string \<times> string \<times> int \<times> int) list" where
  "changed_keys acct since d = sort_key (\<lambda>(i, a, c, u). u)
     (filter (\<lambda>(i, a, c, u). a = acct \<and> u > since) (map email_key (emails d)))"

lemma set_changed_keys: "set (changed_keys acct since d) = {(i, a, c, u) \<in> set (map email_key (emails d)). a = acct \<and> u > since}"
  by (auto simp: changed_keys_def)

lemma length_changed_keys: "length (changed_keys acct since d) \<le> length (emails d)"
  unfolding changed_keys_def length_sort by (rule le_trans[OF length_filter_le]) simp

lemma changes_since_email:
  assumes "mail_inv d" "email_state acct ''Email'' d < 2 ^ 63" "0 \<le> since" "since < 2 ^ 63" "faults d = []"
  shows "changes_since acct ''Email'' (nat since) mx d = (let page = take mx (changed_keys acct since d) in
    (Inr \<lparr>cr_created = map fst (filter (\<lambda>(i, a, c, u). c > since) page), cr_updated = map fst (filter (\<lambda>(i, a, c, u). \<not> c > since) page),
          cr_new_state = email_state acct ''Email'' d, cr_has_more = length (changed_keys acct since d) > mx\<rparr>, d))"
proof -
  let ?page = "take mx (changed_keys acct since d)"
  have keys: "map (\<lambda>r. (em_id r, em_account_id r, em_created_modseq r, em_updated_modseq r)) (emails d) = map email_key (emails d)"
    by (simp add: email_key_def)
  have k: "(as_u64 c > nat since) = (c > since)" if "(i, a, c, u) \<in> set ?page" for i a c u
  proof -
    have "(i, a, c, u) \<in> set (map email_key (emails d))" "a = acct"
      using that set_take_subset[of mx "changed_keys acct since d"] unfolding set_changed_keys by blast+
    then have "1 \<le> c" "c \<le> u" "u \<le> email_state acct ''Email'' d" using assms(1) by (auto simp: mail_inv_def)
    then show ?thesis using assms(2) by (subst as_u64_less) auto
  qed
  have "filter (\<lambda>(i, a, c, u). as_u64 c > nat since) ?page = filter (\<lambda>(i, a, c, u). c > since) ?page"
       "filter (\<lambda>(i, a, c, u). \<not> as_u64 c > nat since) ?page = filter (\<lambda>(i, a, c, u). \<not> c > since) ?page"
    using k by (auto intro!: filter_cong)
  moreover have "sort_key (\<lambda>(i, a, c, u). u) (filter (\<lambda>(i, a, c, u). a = acct \<and> u > as_i64 (nat since))
      (case tracked ''Email'' d of Some rs \<Rightarrow> rs | None \<Rightarrow> [])) = changed_keys acct since d"
    using as_i64_nat[OF assms(3,4)] by (simp only: tracked_def simp_thms if_True keys changed_keys_def option.case)
  moreover have "take mx (take (mx + 1) ks) = take mx ks" "(length (take (mx + 1) ks) > mx) = (length ks > mx)"
    for ks :: "(string \<times> string \<times> int \<times> int) list" by (auto simp: min_def)
  moreover have "changes_since acct ''Email'' (nat since) mx d = (let all_rows = (case tracked ''Email'' d of Some rs \<Rightarrow> rs | None \<Rightarrow> []);
             changed = sort_key (\<lambda>(i, a, c, u). u) (filter (\<lambda>(i, a, c, u). a = acct \<and> u > as_i64 (nat since)) all_rows);
             rows = take (mx + 1) changed;
             page = take mx rows
         in (Inr \<lparr>cr_created = map fst (filter (\<lambda>(i, a, c, u). as_u64 c > nat since) page),
                  cr_updated = map fst (filter (\<lambda>(i, a, c, u). \<not> as_u64 c > nat since) page),
                  cr_new_state = email_state acct ''Email'' d, cr_has_more = length rows > mx\<rparr>, d))"
    using assms(5) unfolding changes_since_def by simp
  ultimately show ?thesis by (simp only: Let_def)
qed

lemma mail_key_unique: "mail_inv d \<Longrightarrow> r \<in> set (emails d) \<Longrightarrow> s \<in> set (emails d) \<Longrightarrow> em_id r = em_id s \<Longrightarrow> r = s"
  by (auto simp: mail_inv_def distinct_map inj_on_def)

lemma mail_inv_row:
  assumes "mail_inv d" "r \<in> set (emails d)"
  shows "1 \<le> em_created_modseq r" "em_created_modseq r \<le> em_updated_modseq r" "em_updated_modseq r \<le> email_state (em_account_id r) ''Email'' d"
  using assms by (auto simp: mail_inv_def email_key_def)

lemma advanced_old:
  assumes adv: "advanced d1 d2" and inv: "mail_inv d2"
    and r: "r \<in> set (emails d2)" "r0 \<in> set (emails d1)" "em_id r0 = em_id r"
  shows "em_account_id r0 = em_account_id r" "em_created_modseq r0 = em_created_modseq r"
    "em_updated_modseq r > email_state (em_account_id r) ''Email'' d1 \<or>
     em_updated_modseq r = em_updated_modseq r0 \<and> email_view d2 (em_id r) = email_view d1 (em_id r)"
proof -
  have "email_key r0 \<in> set (map email_key (emails d1))" using r(2) by simp
  then obtain u where u: "(em_id r0, em_account_id r0, em_created_modseq r0, u) \<in> set (map email_key (emails d2))"
      "u > email_state (em_account_id r0) ''Email'' d1 \<or> u = em_updated_modseq r0 \<and> email_view d2 (em_id r0) = email_view d1 (em_id r0)"
    using advancedD(2)[OF adv] unfolding email_key_def by blast
  then obtain r' where r': "r' \<in> set (emails d2)" "email_key r' = (em_id r0, em_account_id r0, em_created_modseq r0, u)" by auto
  then have "r' = r" using mail_key_unique[OF inv] r by (auto simp: email_key_def)
  then show "em_account_id r0 = em_account_id r" "em_created_modseq r0 = em_created_modseq r"
    "em_updated_modseq r > email_state (em_account_id r) ''Email'' d1 \<or>
     em_updated_modseq r = em_updated_modseq r0 \<and> email_view d2 (em_id r) = email_view d1 (em_id r)"
    using u(2) r'(2) r(3) by (auto simp: email_key_def)
qed

lemma advanced_new:
  assumes "advanced d1 d2" "r \<in> set (emails d2)" "em_id r \<notin> em_id ` set (emails d1)"
  shows "em_created_modseq r > email_state (em_account_id r) ''Email'' d1"
  using advancedD(3)[OF assms(1), of "em_id r" "em_account_id r" "em_created_modseq r" "em_updated_modseq r"] assms(2,3)
  by (auto simp: email_key_def)

text \<open>The two sets a client is told of, by the counters and by the rows.\<close>

lemma created_since:
  assumes "advanced d1 d2" "mail_inv d1" "mail_inv d2" "r \<in> set (emails d2)"
  shows "em_created_modseq r > email_state (em_account_id r) ''Email'' d1 \<longleftrightarrow> em_id r \<notin> em_id ` set (emails d1)"
proof
  assume gt: "em_created_modseq r > email_state (em_account_id r) ''Email'' d1"
  show "em_id r \<notin> em_id ` set (emails d1)"
  proof
    assume "em_id r \<in> em_id ` set (emails d1)"
    then obtain r0 where r0: "r0 \<in> set (emails d1)" "em_id r0 = em_id r" by auto
    note advanced_old(1,2)[OF assms(1,3,4) r0] mail_inv_row[OF assms(2) r0(1)]
    with gt show False by simp
  qed
qed (rule advanced_new[OF assms(1,4)])

lemma updated_since:
  assumes "advanced d1 d2" "mail_inv d1" "mail_inv d2" "r \<in> set (emails d2)"
  shows "em_updated_modseq r > email_state (em_account_id r) ''Email'' d1 \<and> \<not> em_created_modseq r > email_state (em_account_id r) ''Email'' d1 \<longleftrightarrow>
    (\<exists>r0 \<in> set (emails d1). em_id r0 = em_id r \<and> em_updated_modseq r0 \<noteq> em_updated_modseq r)"
proof
  assume l: "em_updated_modseq r > email_state (em_account_id r) ''Email'' d1 \<and> \<not> em_created_modseq r > email_state (em_account_id r) ''Email'' d1"
  then obtain r0 where r0: "r0 \<in> set (emails d1)" "em_id r0 = em_id r" using created_since[OF assms] by auto
  have "em_updated_modseq r0 \<noteq> em_updated_modseq r"
    using l mail_inv_row(3)[OF assms(2) r0(1)] advanced_old(1)[OF assms(1,3,4) r0] by auto
  then show "\<exists>r0 \<in> set (emails d1). em_id r0 = em_id r \<and> em_updated_modseq r0 \<noteq> em_updated_modseq r" using r0 by blast
next
  assume "\<exists>r0 \<in> set (emails d1). em_id r0 = em_id r \<and> em_updated_modseq r0 \<noteq> em_updated_modseq r"
  then obtain r0 where r0: "r0 \<in> set (emails d1)" "em_id r0 = em_id r" "em_updated_modseq r0 \<noteq> em_updated_modseq r" by blast
  then show "em_updated_modseq r > email_state (em_account_id r) ''Email'' d1 \<and> \<not> em_created_modseq r > email_state (em_account_id r) ''Email'' d1"
    using advanced_old(3)[OF assms(1,3,4) r0(1,2)] created_since[OF assms] by (metis image_eqI)
qed

lemma changed_keys_rows: "set (changed_keys acct s d) = email_key ` {r \<in> set (emails d). em_account_id r = acct \<and> em_updated_modseq r > s}"
  by (auto simp: set_changed_keys email_key_def)

lemma set_created_keys:
  "set (map fst (filter (\<lambda>(i, a, c, u). c > s) (changed_keys acct s d))) =
    {em_id r |r. r \<in> set (emails d) \<and> em_account_id r = acct \<and> em_updated_modseq r > s \<and> em_created_modseq r > s}"
  "set (map fst (filter (\<lambda>(i, a, c, u). \<not> c > s) (changed_keys acct s d))) =
    {em_id r |r. r \<in> set (emails d) \<and> em_account_id r = acct \<and> em_updated_modseq r > s \<and> \<not> em_created_modseq r > s}"
proof -
  have image: "fst ` {x \<in> email_key ` A. P x} = em_id ` {r \<in> A. P (email_key r)}" for A P by force
  show "set (map fst (filter (\<lambda>(i, a, c, u). c > s) (changed_keys acct s d))) =
      {em_id r |r. r \<in> set (emails d) \<and> em_account_id r = acct \<and> em_updated_modseq r > s \<and> em_created_modseq r > s}"
    "set (map fst (filter (\<lambda>(i, a, c, u). \<not> c > s) (changed_keys acct s d))) =
      {em_id r |r. r \<in> set (emails d) \<and> em_account_id r = acct \<and> em_updated_modseq r > s \<and> \<not> em_created_modseq r > s}"
    unfolding set_map set_filter changed_keys_rows image by (auto simp: email_key_def)
qed

lemma advanced_keeps: "advanced d1 d2 \<Longrightarrow> r0 \<in> set (emails d1) \<Longrightarrow> \<exists>r \<in> set (emails d2). em_id r = em_id r0"
  using advancedD(2)[of d1 d2 "em_id r0" "em_account_id r0" "em_created_modseq r0" "em_updated_modseq r0"]
  by (fastforce simp: email_key_def)

lemma length_changed_keys_eq:
  "length (changed_keys acct s d) = length (filter (\<lambda>r. em_account_id r = acct \<and> em_updated_modseq r > s) (emails d))"
  by (simp add: changed_keys_def filter_map comp_def email_key_def)

text \<open>C18. A client that synchronizes misses nothing as long as what changed fits in one answer: from any state the store
  can reach, after any further calls (ingest, keyword, mailbox, attribute and verdict updates, failures and roll-backs
  included), asking for the changes since the earlier state answers with exactly the emails of the account that are
  new as created, exactly the earlier ones whose counter moved as updated, every email whose mailboxes,
  keywords or attributes differ among them, and the current state to ask from next time. The conditions: at most
  \<open>max_changes\<close> emails of the account changed since (beyond that changes are lost, see \<open>changes_truncated_lost\<close>),
  the counter is below \<open>2 ^ 63\<close>, and the database calls of the request do not fail.\<close>

theorem changes_complete:
  assumes "mail_step\<^sup>*\<^sup>* empty_db d1" "mail_step\<^sup>*\<^sup>* d1 d2" "email_state acct ''Email'' d2 < 2 ^ 63"
    "length (filter (\<lambda>r. em_account_id r = acct \<and> em_updated_modseq r > email_state acct ''Email'' d1) (emails d2)) \<le> max_changes"
    "faults d2 = []"
  shows "\<exists>c. changes_since acct ''Email'' (nat (email_state acct ''Email'' d1)) max_changes d2 = (Inr c, d2) \<and>
    \<not> cr_has_more c \<and> cr_new_state c = email_state acct ''Email'' d2 \<and>
    set (cr_created c) = {em_id r |r. r \<in> set (emails d2) \<and> em_account_id r = acct \<and> em_id r \<notin> em_id ` set (emails d1)} \<and>
    set (cr_updated c) = {em_id r |r r0. r \<in> set (emails d2) \<and> em_account_id r = acct \<and> r0 \<in> set (emails d1) \<and>
       em_id r0 = em_id r \<and> em_updated_modseq r0 \<noteq> em_updated_modseq r} \<and>
    {em_id r0 |r0. r0 \<in> set (emails d1) \<and> em_account_id r0 = acct \<and> email_view d2 (em_id r0) \<noteq> email_view d1 (em_id r0)} \<subseteq> set (cr_updated c)"
proof -
  let ?s = "email_state acct ''Email'' d1"
  have inv: "mail_inv d1" "mail_inv d2" using assms(1,2) mail_inv_empty mail_inv_run by blast+
  have adv: "advanced d1 d2" using assms(2) inv(1) by (rule advanced_run)
  have s: "0 \<le> ?s" "?s < 2 ^ 63" using inv(1) advancedD(1)[OF adv, of acct] assms(3) by (auto simp: mail_inv_def)
  have "length (changed_keys acct ?s d2) \<le> max_changes" using assms(4) by (simp add: length_changed_keys_eq)
  then have c: "changes_since acct ''Email'' (nat ?s) max_changes d2 =
    (Inr \<lparr>cr_created = map fst (filter (\<lambda>(i, a, c, u). c > ?s) (changed_keys acct ?s d2)),
          cr_updated = map fst (filter (\<lambda>(i, a, c, u). \<not> c > ?s) (changed_keys acct ?s d2)),
          cr_new_state = email_state acct ''Email'' d2, cr_has_more = False\<rparr>, d2)"
    using changes_since_email[OF inv(2) assms(3) s assms(5), of max_changes] by (simp add: Let_def)
  have cre: "set (map fst (filter (\<lambda>(i, a, c, u). c > ?s) (changed_keys acct ?s d2))) =
      {em_id r |r. r \<in> set (emails d2) \<and> em_account_id r = acct \<and> em_id r \<notin> em_id ` set (emails d1)}"
    unfolding set_created_keys using created_since[OF adv inv] mail_inv_row(2)[OF inv(2)] by fastforce
  have upd: "set (map fst (filter (\<lambda>(i, a, c, u). \<not> c > ?s) (changed_keys acct ?s d2))) =
      {em_id r |r r0. r \<in> set (emails d2) \<and> em_account_id r = acct \<and> r0 \<in> set (emails d1) \<and>
       em_id r0 = em_id r \<and> em_updated_modseq r0 \<noteq> em_updated_modseq r}"
    unfolding set_created_keys using updated_since[OF adv inv] by blast
  have "\<exists>r. r \<in> set (emails d2) \<and> em_account_id r = acct \<and> em_id r0 = em_id r \<and> em_updated_modseq r0 \<noteq> em_updated_modseq r"
    if "r0 \<in> set (emails d1)" "em_account_id r0 = acct" "email_view d2 (em_id r0) \<noteq> email_view d1 (em_id r0)" for r0
    using that advanced_keeps[OF adv] advanced_old[OF adv inv(2)] mail_inv_row(3)[OF inv(1)] by (metis not_less)
  then have "{em_id r0 |r0. r0 \<in> set (emails d1) \<and> em_account_id r0 = acct \<and> email_view d2 (em_id r0) \<noteq> email_view d1 (em_id r0)}
      \<subseteq> set (map fst (filter (\<lambda>(i, a, c, u). \<not> c > ?s) (changed_keys acct ?s d2)))"
    unfolding upd by blast
  then show ?thesis using c cre upd by (intro exI[of _ "\<lparr>cr_created = map fst (filter (\<lambda>(i, a, c, u). c > ?s) (changed_keys acct ?s d2)),
          cr_updated = map fst (filter (\<lambda>(i, a, c, u). \<not> c > ?s) (changed_keys acct ?s d2)),
          cr_new_state = email_state acct ''Email'' d2, cr_has_more = False\<rparr>"]) (simp only: changes_result.simps simp_thms)
qed

lemma changed_keys_current: "mail_inv d \<Longrightarrow> changed_keys acct (email_state acct ''Email'' d) d = []"
  unfolding set_empty[symmetric] set_changed_keys mail_inv_def by fastforce

lemma distinct_changed_keys: "mail_inv d \<Longrightarrow> distinct (map fst (changed_keys acct s d))"
proof -
  assume "mail_inv d"
  then have "distinct (map fst (filter (\<lambda>(i, a, c, u). a = acct \<and> u > s) (map email_key (emails d))))"
    unfolding mail_inv_def by (intro distinct_map_filter) blast
  then show ?thesis unfolding changed_keys_def by (simp add: distinct_map distinct_sort del: filter_map)
qed

lemma drop_not_taken:
  assumes "distinct (map f xs)" "n < length xs"
  shows "f (xs ! n) \<notin> f ` set (take n xs)"
proof
  assume "f (xs ! n) \<in> f ` set (take n xs)"
  then obtain m where "m < n" "f (xs ! n) = f (xs ! m)" using assms(2) by (auto simp: in_set_conv_nth)
  then show False using assms nth_eq_iff_index_eq[of "map f xs" n m] by simp
qed

text \<open>C19. A truncated answer loses changes: when there are more changes than asked for, the answer
  carries the current state all the same, and a client that goes on from it, as it is told to, is
  answered that nothing changed, although an email that did change was in neither answer.\<close>

theorem changes_truncated_lost:
  assumes "mail_step\<^sup>*\<^sup>* empty_db d" "email_state acct ''Email'' d < 2 ^ 63" "faults d = []" "since < 2 ^ 63"
    "changes_since acct ''Email'' since mx d = (Inr c, d')" "cr_has_more c"
  shows "\<exists>r \<in> set (emails d). em_account_id r = acct \<and> em_updated_modseq r > int since \<and>
    em_id r \<notin> set (cr_created c) \<union> set (cr_updated c) \<and>
    changes_since acct ''Email'' (nat (cr_new_state c)) mx d =
      (Inr \<lparr>cr_created = [], cr_updated = [], cr_new_state = cr_new_state c, cr_has_more = False\<rparr>, d)"
proof -
  have inv: "mail_inv d" using assms(1) mail_inv_empty mail_inv_run by blast
  let ?ks = "changed_keys acct (int since) d"
  have c: "c = \<lparr>cr_created = map fst (filter (\<lambda>(i, a, c, u). c > int since) (take mx ?ks)), cr_updated = map fst (filter (\<lambda>(i, a, c, u). \<not> c > int since) (take mx ?ks)),
          cr_new_state = email_state acct ''Email'' d, cr_has_more = length ?ks > mx\<rparr>"
    using changes_since_email[OF inv assms(2) _ _ assms(3), of "int since" mx] assms(4,5) by (simp add: Let_def)
  then have n: "mx < length ?ks" using assms(6) by simp
  then have "?ks ! mx \<in> set ?ks" by simp
  then obtain r where r: "r \<in> set (emails d)" "?ks ! mx = email_key r" "em_account_id r = acct" "em_updated_modseq r > int since"
    unfolding set_changed_keys by (auto simp: email_key_def)
  have "em_id r \<notin> fst ` set (take mx ?ks)"
    using drop_not_taken[OF distinct_changed_keys[OF inv] n] r(2) by (simp add: email_key_def)
  moreover have "set (cr_created c) \<union> set (cr_updated c) \<subseteq> fst ` set (take mx ?ks)" unfolding c by auto
  moreover have "0 \<le> email_state acct ''Email'' d" using inv by (simp add: mail_inv_def)
  then have "changes_since acct ''Email'' (nat (cr_new_state c)) mx d =
      (Inr \<lparr>cr_created = [], cr_updated = [], cr_new_state = cr_new_state c, cr_has_more = False\<rparr>, d)"
    using changes_since_email[OF inv assms(2) _ assms(2,3), of mx] changed_keys_current[OF inv, of acct] c by (simp add: Let_def)
  ultimately show ?thesis using r by blast
qed

section \<open>Witnesses\<close>

definition w_env :: ingest_env where
  "w_env = \<lparr>ie_parse = (\<lambda>_. None), ie_put = (\<lambda>raw. Inr (''blob-'' @ raw))\<rparr>"

definition w_ingest :: "string \<Rightarrow> db \<Rightarrow> db" where
  "w_ingest i d = snd (ingest_email_into w_env 100 \<lparr>new_email = i, new_thread = ''t-'' @ i, new_contact = ''c-'' @ i\<rparr>
     ''acct'' i (TRole ''inbox'') None False d)"

definition w_store0 :: db where
  "w_store0 = empty_db\<lparr>mailboxes := [\<lparr>mb_id = ''m'', mb_account_id = ''acct'', mb_parent_id = None, mb_name = ''Inbox'',
     mb_role = Some ''inbox'', mb_sort_order = 0, mb_created_modseq = 1, mb_updated_modseq = 1\<rparr>]\<rparr>"

definition w_store1 :: db where
  "w_store1 = w_ingest ''e1'' w_store0"

definition w_store2 :: db where
  "w_store2 = w_ingest ''e2'' (snd (update_email ''acct'' ''e1'' (Some [''$seen'']) None w_store1))"

lemma w_ingest_step: "mail_step d (w_ingest i d)"
  unfolding w_ingest_def by (rule step_ingest) (rule surjective_pairing)

lemma w_store1_run: "mail_step\<^sup>*\<^sup>* empty_db w_store1"
proof -
  have "mail_step empty_db w_store0"
    by (rule step_other) (simp_all add: w_store0_def email_state_def email_view_def)
  then show ?thesis unfolding w_store1_def using w_ingest_step by (meson rtranclp.rtrancl_into_rtrancl r_into_rtranclp)
qed

lemma w_store2_run: "mail_step\<^sup>*\<^sup>* w_store1 w_store2"
proof -
  have "mail_step w_store1 (snd (update_email ''acct'' ''e1'' (Some [''$seen'']) None w_store1))"
    by (rule step_update) (rule surjective_pairing)
  then show ?thesis unfolding w_store2_def using w_ingest_step by (meson rtranclp.rtrancl_into_rtrancl r_into_rtranclp)
qed

theorem changes_complete_witness:
  "map em_id (emails w_store1) = [''e1''] \<and> email_state ''acct'' ''Email'' w_store1 = 1 \<and>
   (\<exists>c. changes_since ''acct'' ''Email'' (nat (email_state ''acct'' ''Email'' w_store1)) 10 w_store2 = (Inr c, w_store2) \<and>
    \<not> cr_has_more c \<and> cr_new_state c = email_state ''acct'' ''Email'' w_store2 \<and>
    set (cr_created c) = {em_id r |r. r \<in> set (emails w_store2) \<and> em_account_id r = ''acct'' \<and> em_id r \<notin> em_id ` set (emails w_store1)})"
proof -
  have "email_state ''acct'' ''Email'' w_store2 < 2 ^ 63"
    "length (filter (\<lambda>r. em_account_id r = ''acct'' \<and> em_updated_modseq r > email_state ''acct'' ''Email'' w_store1) (emails w_store2)) \<le> 10"
    "faults w_store2 = []" by code_simp+
  note p = changes_complete[OF w_store1_run w_store2_run this]
  have "map em_id (emails w_store1) = [''e1'']" "email_state ''acct'' ''Email'' w_store1 = 1" by code_simp+
  with p show ?thesis by blast
qed

theorem changes_truncated_lost_witness:
  "\<exists>r \<in> set (emails w_store2). em_account_id r = ''acct'' \<and> em_updated_modseq r > int 0 \<and>
    em_id r \<notin> set [''e1''] \<and>
    changes_since ''acct'' ''Email'' 3 1 w_store2 =
      (Inr \<lparr>cr_created = [], cr_updated = [], cr_new_state = 3, cr_has_more = False\<rparr>, w_store2)"
proof -
  have run: "mail_step\<^sup>*\<^sup>* empty_db w_store2" using w_store1_run w_store2_run by (rule rtranclp_trans)
  have st: "email_state ''acct'' ''Email'' w_store2 = 3" "faults w_store2 = []" by code_simp+
  have c: "changes_since ''acct'' ''Email'' 0 1 w_store2 =
     (Inr \<lparr>cr_created = [''e1''], cr_updated = [], cr_new_state = 3, cr_has_more = True\<rparr>, w_store2)" by code_simp
  show ?thesis using changes_truncated_lost[OF run _ st(2) _ c] st(1) by simp
qed

end
