(* ===== verification/Schedule_Api.thy ===== *)
theory Schedule_Api
  imports Slots Mail_Store Delivery_Worker Json
begin

text \<open>
  \<open>crates/owney-api/src/schedule\<close>: the public booking endpoints (\<open>mod.rs\<close>), the invitation (\<open>ics.rs\<close>), the
  confirmation mail (\<open>mail.rs\<close>) and the rate limiter (\<open>rate_limit.rs\<close>). A handler that does not return,
  because it panics, has the value \<open>None\<close>. The HTML of the page is left out. Random values and the clock
  are arguments; a request reads the clock once.
\<close>

section \<open>Definitions\<close>

subsection \<open>The rate limiter\<close>

text \<open>A \<open>HashMap\<close> as an association list with one entry per key.\<close>

type_synonym buckets = "((string \<times> string) \<times> (nat \<times> nat)) list"

definition allow :: "nat \<Rightarrow> string \<Rightarrow> string \<Rightarrow> nat \<Rightarrow> nat \<Rightarrow> buckets \<Rightarrow> bool \<times> buckets" where
  "allow now ip action limit window_secs buckets =
     (let window = now - now mod window_secs;
          buckets = (if length buckets > 10000 then filter (\<lambda>(k, (start, hits)). start + window_secs > now) buckets else buckets);
          entry = (case map_of buckets (ip, action) of
                     None \<Rightarrow> (window, 0)
                   | Some e \<Rightarrow> if fst e \<noteq> window then (window, 0) else e);
          hits = snd entry + 1
      in (hits \<le> limit, ((ip, action), (fst entry, hits)) # filter (\<lambda>(k, _). k \<noteq> (ip, action)) buckets))"

subsection \<open>The invitation\<close>

text \<open>\<open>str::chars\<close>: a byte with the continuation bytes that follow it.\<close>

definition continuation :: "char \<Rightarrow> bool" where
  "continuation c \<longleftrightarrow> (let n = (of_char c :: nat) in 128 \<le> n \<and> n < 192)"

fun chars :: "string \<Rightarrow> string list" where
  "chars [] = []"
| "chars (c # s) = (case s of
      [] \<Rightarrow> [[c]]
    | c' # _ \<Rightarrow> if continuation c' then (case chars s of [] \<Rightarrow> [[c]] | w # ws \<Rightarrow> (c # w) # ws) else [c] # chars s)"

definition escape_char :: "char \<Rightarrow> string" where
  "escape_char c =
     (if c = CHR 0x5C then [CHR 0x5C, CHR 0x5C]
      else if c = CHR '';'' then [CHR 0x5C, CHR '';'']
      else if c = CHR '','' then [CHR 0x5C, CHR '','']
      else if c = LF then [CHR 0x5C, CHR ''n'']
      else if c = CR then []
      else [c])"

definition escape_text :: "string \<Rightarrow> string" where
  "escape_text s = concat (map escape_char s)"

definition quote_param :: "string \<Rightarrow> string" where
  "quote_param v =
     (let cleaned = filter (\<lambda>c. c \<noteq> CHR 0x22) v
      in if list_ex (\<lambda>c. c = CHR '';'' \<or> c = CHR '':'' \<or> c = CHR '','') cleaned then [CHR 0x22] @ cleaned @ [CHR 0x22] else cleaned)"

fun fold_chars :: "nat \<Rightarrow> nat \<Rightarrow> string list \<Rightarrow> string" where
  "fold_chars budget used [] = []"
| "fold_chars budget used (c # cs) =
     (if used + length c > budget then CRLF @ '' '' @ c @ fold_chars 74 (length c) cs
      else c @ fold_chars budget (used + length c) cs)"

definition fold_line :: "string \<Rightarrow> string" where
  "fold_line l = (if length l \<le> 75 then l else fold_chars 75 0 (chars l))"

record ics_invite =
  iv_uid :: string
  iv_dtstamp :: int
  iv_start :: int
  iv_end :: int
  iv_summary :: string
  iv_description :: "string option"
  iv_organizer_name :: string
  iv_organizer_email :: string
  iv_attendee_name :: string
  iv_attendee_email :: string

definition ics_lines :: "chrono \<Rightarrow> ics_invite \<Rightarrow> string list" where
  "ics_lines ch i =
     [''BEGIN:VCALENDAR'', ''VERSION:2.0'', ''PRODID:-//Owney//Scheduling//EN'', ''METHOD:REQUEST'', ''BEGIN:VEVENT'',
      ''UID:'' @ iv_uid i,
      ''DTSTAMP:'' @ ch_utc_stamp ch (iv_dtstamp i),
      ''DTSTART:'' @ ch_utc_stamp ch (iv_start i),
      ''DTEND:'' @ ch_utc_stamp ch (iv_end i),
      ''SUMMARY:'' @ escape_text (iv_summary i)] @
     (case iv_description i of None \<Rightarrow> [] | Some t \<Rightarrow> [''DESCRIPTION:'' @ escape_text t]) @
     [''ORGANIZER;CN='' @ quote_param (iv_organizer_name i) @ '':mailto:'' @ iv_organizer_email i,
      ''ATTENDEE;CN='' @ quote_param (iv_attendee_name i) @ '';ROLE=REQ-PARTICIPANT;PARTSTAT=ACCEPTED:mailto:'' @ iv_attendee_email i,
      ''END:VEVENT'', ''END:VCALENDAR'']"

definition render :: "chrono \<Rightarrow> ics_invite \<Rightarrow> string" where
  "render ch i = concat (map (\<lambda>l. fold_line l @ CRLF) (ics_lines ch i))"

subsection \<open>The confirmation mail\<close>

record confirmation =
  cf_host :: string
  cf_from_name :: "string option"
  cf_from_email :: string
  cf_to :: string
  cf_subject :: string
  cf_text_body :: string
  cf_ics :: string

record mail_random =
  mr_boundary :: string
  mr_message_id :: string

definition from_header :: "confirmation \<Rightarrow> string" where
  "from_header c =
     (case cf_from_name c of
        Some name \<Rightarrow> [CHR 0x22] @ filter (\<lambda>x. x \<noteq> CHR 0x22 \<and> x \<noteq> CR \<and> x \<noteq> LF) name @ [CHR 0x22] @ '' <'' @ cf_from_email c @ ''>''
      | None \<Rightarrow> ''<'' @ cf_from_email c @ ''>'')"

definition compose :: "int \<Rightarrow> mail_random \<Rightarrow> confirmation \<Rightarrow> string" where
  "compose now rnd c =
     (let boundary = ''owney-'' @ mr_boundary rnd;
          message_id = ''<'' @ mr_message_id rnd @ ''@'' @ cf_host c @ ''>''
      in ''From: '' @ from_header c @ CRLF @
         ''To: <'' @ cf_to c @ ''>'' @ CRLF @
         ''Subject: '' @ map (\<lambda>x. if x = CR \<or> x = LF then CHR '' '' else x) (cf_subject c) @ CRLF @
         ''Date: '' @ rfc2822_utc now @ CRLF @
         ''Message-ID: '' @ message_id @ CRLF @
         ''MIME-Version: 1.0'' @ CRLF @
         ''Content-Type: multipart/mixed; boundary='' @ [CHR 0x22] @ boundary @ [CHR 0x22] @ CRLF @
         CRLF @
         ''--'' @ boundary @ CRLF @
         ''Content-Type: text/plain; charset=utf-8'' @ CRLF @ CRLF @
         cf_text_body c @ CRLF @
         ''--'' @ boundary @ CRLF @
         ''Content-Type: text/calendar; charset=utf-8; method=REQUEST'' @ CRLF @
         ''Content-Disposition: attachment; filename='' @ [CHR 0x22] @ ''invite.ics'' @ [CHR 0x22] @ CRLF @ CRLF @
         cf_ics c @
         ''--'' @ boundary @ ''--'' @ CRLF)"

subsection \<open>The endpoints\<close>

datatype sched_response = TextResp nat string | JsonResp nat json

record sched_env =
  se_chrono :: chrono
  se_host :: string
  se_mail :: "mail_env option"
  se_ingest :: ingest_env

record sched_state =
  ss_db :: db
  ss_buckets :: buckets

record book_random =
  br_ids :: booking_ids
  br_visitor_mail :: mail_random
  br_owner_mail :: mail_random
  br_sent_ids :: ingest_ids
  br_queue_ids :: "string list"
  br_inbox_ids :: ingest_ids

definition not_found :: sched_response where
  "not_found = TextResp 404 ''no such page''"

definition bad_request :: "string \<Rightarrow> sched_response" where
  "bad_request msg = TextResp 400 msg"

definition server_fail :: sched_response where
  "server_fail = TextResp 500 ''internal error''"

definition active_page :: "string \<Rightarrow> db \<Rightarrow> (sched_response, page_row) result \<times> db" where
  "active_page slug d =
     (case get_scheduling_page_by_slug slug d of
        (Inr (Some page), d1) \<Rightarrow> if pg_active page then (Inr page, d1) else (Inl not_found, d1)
      | (Inr None, d1) \<Rightarrow> (Inl not_found, d1)
      | (Inl _, d1) \<Rightarrow> (Inl server_fail, d1))"

definition page_tz :: "chrono \<Rightarrow> page_row \<Rightarrow> (sched_response, time_zone) result" where
  "page_tz ch page = (case ch_zone ch (pg_timezone page) of Some tz \<Rightarrow> Inr tz | None \<Rightarrow> Inl server_fail)"

definition today_in :: "chrono \<Rightarrow> time_zone \<Rightarrow> int \<Rightarrow> int" where
  "today_in ch tz now =
     (case tz_timestamp tz now of
        LSingle t \<Rightarrow> t div 86400
      | LAmbiguous t _ \<Rightarrow> t div 86400
      | LNone \<Rightarrow> (case ch_utc_timestamp ch now of Some t \<Rightarrow> t div 86400 | None \<Rightarrow> 0))"

definition opt_date :: "chrono \<Rightarrow> string option \<Rightarrow> int option" where
  "opt_date ch s = Option.bind s (ch_parse_date ch)"

definition page_params :: "chrono \<Rightarrow> page_row \<Rightarrow> time_zone \<Rightarrow> nat \<Rightarrow> nat option \<Rightarrow> int \<Rightarrow> slot_params" where
  "page_params ch page tz duration_mins max_per_day now =
     \<lparr>sp_tz = tz, sp_availability = pg_availability page, sp_duration_mins = duration_mins,
      sp_buffer_before_mins = pg_buffer_before_mins page, sp_buffer_after_mins = pg_buffer_after_mins page,
      sp_min_notice_mins = pg_min_notice_mins page, sp_max_per_day = max_per_day,
      sp_valid_from = opt_date ch (pg_valid_from page), sp_valid_until = opt_date ch (pg_valid_until page), sp_now = now\<rparr>"

definition count_days :: "chrono \<Rightarrow> time_zone \<Rightarrow> booking_row list \<Rightarrow> int \<Rightarrow> nat option" where
  "count_days ch tz bs = fold (\<lambda>b m. m(today_in ch tz (bk_start b) \<mapsto>
     (case m (today_in ch tz (bk_start b)) of None \<Rightarrow> 0 | Some n \<Rightarrow> n) + 1)) bs (\<lambda>_. None)"

definition slots_for_range :: "chrono \<Rightarrow> page_row \<Rightarrow> time_zone \<Rightarrow> nat \<Rightarrow> int \<Rightarrow> int \<Rightarrow> int \<Rightarrow>
    db \<Rightarrow> ((sched_response, (int \<times> int) list) result \<times> db) option" where
  "slots_for_range ch page tz duration_mins from to now d =
     Option.bind (local_day_bounds ch tz from) (\<lambda>(range_lo, _).
     Option.bind (local_day_bounds ch tz to) (\<lambda>(_, range_hi).
       (let widen = int (case pg_durations_mins page of [] \<Rightarrow> 30 | m # ms \<Rightarrow> foldl max m ms) * 60 +
                    int (max (pg_buffer_before_mins page) (pg_buffer_after_mins page)) * 60
        in case events_overlapping (pg_account_id page) (range_lo - widen) (range_hi + widen) d of
             (Inl _, d1) \<Rightarrow> Some (Inl server_fail, d1)
           | (Inr busy, d1) \<Rightarrow>
               (case list_confirmed_bookings_in_range (pg_id page) (range_lo - widen) (range_hi + widen) d1 of
                  (Inl _, d2) \<Rightarrow> Some (Inl server_fail, d2)
                | (Inr bs, d2) \<Rightarrow>
                    map_option (\<lambda>slots. (Inr slots, d2))
                      (compute_slots ch (page_params ch page tz duration_mins (pg_max_per_day page) now) from to
                         (busy @ map (\<lambda>b. (bk_start b, bk_end b)) bs) (count_days ch tz bs))))))"

record slots_query =
  sq_from :: "string option"
  sq_to :: "string option"
  sq_duration :: "nat option"

definition show_mins :: "nat list \<Rightarrow> string" where
  "show_mins ms = ''['' @ join '', '' (map show_nat ms) @ '']''"

definition slot_json :: "time_zone \<Rightarrow> int \<times> int \<Rightarrow> json" where
  "slot_json tz s = json_obj [(''start'', JNum (fst s)), (''end'', JNum (snd s)),
     (''startLocal'', JStr (case tz_timestamp tz (fst s) of LSingle _ \<Rightarrow> tz_rfc3339 tz (fst s) | _ \<Rightarrow> []))]"

text \<open>The dates and the duration of a query: \<open>None\<close> is a panic.\<close>

definition parse_query :: "chrono \<Rightarrow> page_row \<Rightarrow> slots_query \<Rightarrow> int \<Rightarrow> (sched_response, nat \<times> int \<times> int) result option" where
  "parse_query ch page query today =
     (case pg_durations_mins page of
        [] \<Rightarrow> None
      | first # _ \<Rightarrow>
          let duration = (case sq_duration query of Some m \<Rightarrow> m | None \<Rightarrow> first) in
          if duration \<notin> set (pg_durations_mins page)
          then Some (Inl (bad_request (''duration must be one of '' @ show_mins (pg_durations_mins page))))
          else (case (case sq_from query of None \<Rightarrow> Some today | Some s \<Rightarrow> ch_parse_date ch s) of
                  None \<Rightarrow> Some (Inl (bad_request ''bad `from` date (want YYYY-MM-DD)''))
                | Some from \<Rightarrow>
                    Option.bind (case sq_to query of None \<Rightarrow> map_option Some (date_plus ch from 13) | Some s \<Rightarrow> Some (ch_parse_date ch s)) (\<lambda>to.
                    case to of
                      None \<Rightarrow> Some (Inl (bad_request ''bad `to` date (want YYYY-MM-DD)''))
                    | Some to \<Rightarrow>
                        if to < from \<or> to - from \<ge> 31 then Some (Inl (bad_request ''range must be 1..=31 days''))
                        else Option.bind (date_plus ch today 60) (\<lambda>horizon.
                          if to > horizon then Some (Inl (bad_request ''horizon is 60 days''))
                          else Some (Inr (duration, from, to))))))"

definition slots_json :: "sched_env \<Rightarrow> int \<Rightarrow> string \<Rightarrow> string \<Rightarrow> slots_query \<Rightarrow> sched_state \<Rightarrow> (sched_response \<times> sched_state) option" where
  "slots_json env now ip slug query s =
     (let ch = se_chrono env; (ok, bk) = allow (nat now) ip ''slots'' 60 60 (ss_buckets s); s = s\<lparr>ss_buckets := bk\<rparr> in
      if \<not> ok then Some (TextResp 429 ''slow down'', s)
      else (case active_page slug (ss_db s) of
        (Inl resp, d) \<Rightarrow> Some (resp, s\<lparr>ss_db := d\<rparr>)
      | (Inr page, d) \<Rightarrow>
          (case page_tz ch page of
             Inl resp \<Rightarrow> Some (resp, s\<lparr>ss_db := d\<rparr>)
           | Inr tz \<Rightarrow>
               Option.bind (parse_query ch page query (today_in ch tz now)) (\<lambda>q.
               case q of
                 Inl resp \<Rightarrow> Some (resp, s\<lparr>ss_db := d\<rparr>)
               | Inr (duration, from, to) \<Rightarrow>
                   Option.bind (slots_for_range ch page tz duration from to now d) (\<lambda>(r, d').
                   case r of
                     Inl resp \<Rightarrow> Some (resp, s\<lparr>ss_db := d'\<rparr>)
                   | Inr slots \<Rightarrow> Some (JsonResp 200 (json_obj [(''timezone'', JStr (pg_timezone page)),
                         (''durationMins'', JNum (int duration)), (''slots'', JArr (map (slot_json tz) slots))]), s\<lparr>ss_db := d'\<rparr>))))))"

record book_body =
  bb_start :: int
  bb_duration_mins :: nat
  bb_name :: string
  bb_email :: string
  bb_note :: "string option"

definition is_control :: "char \<Rightarrow> bool" where
  "is_control c \<longleftrightarrow> (let n = (of_char c :: nat) in n < 32 \<or> n = 127)"

definition validate_visitor :: "book_body \<Rightarrow> (sched_response, unit) result" where
  "validate_visitor body =
     (let email = bb_email body in
      if bb_name body = [] \<or> length (chars (bb_name body)) > 200 then Inl (bad_request ''name must be 1-200 chars'')
      else if \<not> (length email \<le> 254 \<and> length (filter (\<lambda>c. c = CHR ''@'') email) = 1 \<and> hd email \<noteq> CHR ''@'' \<and> last email \<noteq> CHR ''@'' \<and>
                 \<not> list_ex (\<lambda>c. is_control c \<or> is_space c) email)
      then Inl (bad_request ''bad email address'')
      else if (case bb_note body of Some n \<Rightarrow> length (chars n) > 2000 | None \<Rightarrow> False) then Inl (bad_request ''note must be <= 2000 chars'')
      else Inr ())"

definition owner_label :: "account_t \<Rightarrow> string" where
  "owner_label owner = (case a_display_name owner of Some n \<Rightarrow> n | None \<Rightarrow> a_email owner)"

definition local_time :: "time_zone \<Rightarrow> booking_row \<Rightarrow> string" where
  "local_time tz b = (case tz_timestamp tz (bk_start b) of LSingle _ \<Rightarrow> tz_display tz (bk_start b) | _ \<Rightarrow> show_int (bk_start b))"

definition booking_ics :: "sched_env \<Rightarrow> account_t \<Rightarrow> booking_row \<Rightarrow> ics_invite" where
  "booking_ics env owner b =
     \<lparr>iv_uid = bk_id b @ ''@'' @ se_host env, iv_dtstamp = bk_created_at b, iv_start = bk_start b, iv_end = bk_end b,
      iv_summary = ''Meeting: '' @ bk_visitor_name b @ '' & '' @ owner_label owner, iv_description = bk_note b,
      iv_organizer_name = owner_label owner, iv_organizer_email = a_email owner,
      iv_attendee_name = bk_visitor_name b, iv_attendee_email = bk_visitor_email b\<rparr>"

definition visitor_mail :: "sched_env \<Rightarrow> page_row \<Rightarrow> account_t \<Rightarrow> booking_row \<Rightarrow> time_zone \<Rightarrow> confirmation" where
  "visitor_mail env page owner b tz =
     \<lparr>cf_host = se_host env, cf_from_name = Some (owner_label owner), cf_from_email = a_email owner, cf_to = bk_visitor_email b,
      cf_subject = ''Confirmed: '' @ pg_title page @ '' on '' @ local_time tz b,
      cf_text_body = ''Hi '' @ bk_visitor_name b @ '','' @ CRLF @ CRLF @ ''You'' @ [CHR 0x27] @ ''re booked with '' @ owner_label owner @
        '' on '' @ local_time tz b @ '' ('' @ show_int ((bk_end b - bk_start b) div 60) @ '' minutes).'' @ CRLF @ CRLF @
        ''The attached invite adds it to your calendar.'' @ CRLF,
      cf_ics = render (se_chrono env) (booking_ics env owner b)\<rparr>"

definition owner_mail :: "sched_env \<Rightarrow> page_row \<Rightarrow> account_t \<Rightarrow> booking_row \<Rightarrow> time_zone \<Rightarrow> confirmation" where
  "owner_mail env page owner b tz =
     \<lparr>cf_host = se_host env, cf_from_name = Some ''Owney Scheduling'', cf_from_email = a_email owner, cf_to = a_email owner,
      cf_subject = ''New booking: '' @ bk_visitor_name b @ '' on '' @ local_time tz b,
      cf_text_body = bk_visitor_name b @ '' <'' @ bk_visitor_email b @ ''> booked '' @ [CHR 0x22] @ pg_title page @ [CHR 0x22] @
        '' on '' @ local_time tz b @ ''.'' @ CRLF @ (case bk_note b of None \<Rightarrow> [] | Some n \<Rightarrow> CRLF @ ''Note: '' @ n) @ CRLF,
      cf_ics = render (se_chrono env) (booking_ics env owner b)\<rparr>"

text \<open>The submitter files the sent copy in the same store.\<close>

definition store_env :: "ingest_env \<Rightarrow> int \<Rightarrow> ingest_ids \<Rightarrow> mail_env \<Rightarrow> mail_env" where
  "store_env ie now ids me = me\<lparr>ingest_email := (\<lambda>acct raw role d.
     case Mail_Store.ingest_email ie now ids acct raw role None d of
       (Inl e, d') \<Rightarrow> (Inl e, d')
     | (Inr i, d') \<Rightarrow> (Inr (ig_blob_id i), d'))\<rparr>"

definition send_confirmations :: "sched_env \<Rightarrow> int \<Rightarrow> book_random \<Rightarrow> page_row \<Rightarrow> account_t \<Rightarrow> booking_row \<Rightarrow> time_zone \<Rightarrow> db \<Rightarrow> db" where
  "send_confirmations env now rnd page owner b tz d =
     (let d1 = (case se_mail env of
            None \<Rightarrow> d
          | Some me \<Rightarrow> snd (submit (store_env (se_ingest env) now (br_sent_ids rnd) me) now (br_queue_ids rnd) (a_id owner) (a_email owner)
                [bk_visitor_email b] (compose now (br_visitor_mail rnd) (visitor_mail env page owner b tz)) d))
      in snd (Mail_Store.ingest_email (se_ingest env) now (br_inbox_ids rnd) (a_id owner)
                (compose now (br_owner_mail rnd) (owner_mail env page owner b tz)) ''inbox'' None d1))"

definition book_request :: "page_row \<Rightarrow> account_t \<Rightarrow> book_body \<Rightarrow> int \<times> int \<Rightarrow> int \<times> int \<Rightarrow> book_slot_request" where
  "book_request page owner body slot bounds =
     \<lparr>bs_page_id = pg_id page, bs_visitor_name = bb_name body, bs_visitor_email = bb_email body, bs_note = bb_note body,
      bs_start = fst slot, bs_end = snd slot,
      bs_busy_from = fst slot - int (pg_buffer_before_mins page) * 60, bs_busy_to = snd slot + int (pg_buffer_after_mins page) * 60,
      bs_event_title = ''Meeting: '' @ bb_name body @ '' & '' @ owner_label owner, bs_event_description = bb_note body,
      bs_day_bounds = bounds\<rparr>"

text \<open>From the slot on: the owner, the transaction, the confirmations.\<close>

definition book_at :: "sched_env \<Rightarrow> int \<Rightarrow> book_random \<Rightarrow> page_row \<Rightarrow> time_zone \<Rightarrow> book_body \<Rightarrow> int \<times> int \<Rightarrow> int \<times> int \<Rightarrow> db \<Rightarrow> sched_response \<times> db" where
  "book_at env now rnd page tz body slot bounds d =
     (case account (pg_account_id page) d of
        (Inl _, d1) \<Rightarrow> (server_fail, d1)
      | (Inr None, d1) \<Rightarrow> (not_found, d1)
      | (Inr (Some owner), d1) \<Rightarrow>
          (case book_slot now (br_ids rnd) (book_request page owner body slot bounds) d1 of
             (Inr b, d2) \<Rightarrow> (JsonResp 201 (json_obj [(''bookingId'', JStr (bk_id b)), (''start'', JNum (bk_start b)),
                  (''end'', JNum (bk_end b)), (''timezone'', JStr (pg_timezone page))]),
                send_confirmations env now rnd page owner b tz d2)
           | (Inl (StConflict msg), d2) \<Rightarrow> (TextResp 409 msg, d2)
           | (Inl (StBadInput msg), d2) \<Rightarrow> (bad_request msg, d2)
           | (Inl _, d2) \<Rightarrow> (server_fail, d2)))"

definition book_page :: "sched_env \<Rightarrow> int \<Rightarrow> book_random \<Rightarrow> string \<Rightarrow> book_body \<Rightarrow> db \<Rightarrow> (sched_response \<times> db) option" where
  "book_page env now rnd slug body d0 =
     (let ch = se_chrono env in
      case active_page slug d0 of
        (Inl resp, d) \<Rightarrow> Some (resp, d)
      | (Inr page, d) \<Rightarrow>
          (case page_tz ch page of
             Inl resp \<Rightarrow> Some (resp, d)
           | Inr tz \<Rightarrow>
               if bb_duration_mins body \<notin> set (pg_durations_mins page)
               then Some (bad_request (''duration must be one of '' @ show_mins (pg_durations_mins page)), d)
               else (let day = today_in ch tz (bb_start body) in
                 Option.bind (compute_slots ch (page_params ch page tz (bb_duration_mins body) None now) day day [] (\<lambda>_. None)) (\<lambda>valid.
                   case find (\<lambda>s. fst s = bb_start body) valid of
                     None \<Rightarrow> Some (bad_request ''that time is not an available slot'', d)
                   | Some slot \<Rightarrow> map_option (\<lambda>bounds. book_at env now rnd page tz body slot bounds d) (local_day_bounds ch tz day)))))"

definition book :: "sched_env \<Rightarrow> int \<Rightarrow> book_random \<Rightarrow> string \<Rightarrow> string \<Rightarrow> (string, book_body) result \<Rightarrow>
    sched_state \<Rightarrow> (sched_response \<times> sched_state) option" where
  "book env now rnd ip slug body s =
     (let (ok, bk) = allow (nat now) ip ''book'' 10 3600 (ss_buckets s); s = s\<lparr>ss_buckets := bk\<rparr> in
      if \<not> ok then Some (TextResp 429 ''slow down'', s)
      else (case body of
        Inl err \<Rightarrow> Some (bad_request (''bad request body: '' @ err), s)
      | Inr body \<Rightarrow>
          (case validate_visitor body of
             Inl resp \<Rightarrow> Some (resp, s)
           | Inr _ \<Rightarrow> map_option (\<lambda>(resp, d). (resp, s\<lparr>ss_db := d\<rparr>)) (book_page env now rnd slug body (ss_db s)))))"

end
