(* ===== verification/Schedule_Props.thy ===== *)
theory Schedule_Props
  imports Schedule_Api
begin

text \<open>
  Results on booking pages: over any run of the booking endpoint and the other operations, confirmed
  bookings of an account never overlap.
\<close>

section \<open>Bookings\<close>

text \<open>What the booking transaction does to the bookings: on success it adds one, clear of the others.\<close>

lemma insert_event_frame: "insert_event row d = (r, d') \<Longrightarrow> bookings d' = bookings d"
  by (auto simp: insert_event_def split: option.splits if_splits)

lemma insert_booking_ok:
  "insert_booking row d = (Inr b, d') \<Longrightarrow> b = row \<and> bookings d' = bookings d @ [row] \<and> bk_id row \<notin> bk_id ` set (bookings d)"
  by (auto simp: insert_booking_def sql_insert_def split: option.splits if_splits)

lemma book_tx_ok:
  assumes "book_tx now ids req d = (Inr b, d')"
  shows "bookings d' = bookings d @ [b]" "bk_id b \<notin> bk_id ` set (bookings d)" "bk_start b = bs_start req" "bk_end b = bs_end req"
    "\<not> busy_booking (bk_account_id b) req d"
proof -
  obtain page where p: "sql_select (\<lambda>r. pg_id r = bs_page_id req \<and> pg_active r) (scheduling_pages d) = Some page"
    using assms by (auto simp: book_tx_def split: option.splits)
  have free: "\<not> busy_event (pg_account_id page) req d" "\<not> busy_booking (pg_account_id page) req d" "\<not> day_full req (pg_max_per_day page) d"
    using assms p by (auto simp: book_tx_def split: if_splits)
  let ?ev = "new_event (bi_event ids) now (pg_calendar_id page) (bs_event_title req) (bs_event_description req) (bs_start req) (bs_end req) None"
  let ?row = "\<lparr>bk_id = bi_booking ids, bk_page_id = bs_page_id req, bk_account_id = pg_account_id page,
                 bk_event_id = bi_event ids, bk_visitor_name = bs_visitor_name req, bk_visitor_email = bs_visitor_email req,
                 bk_note = bs_note req, bk_start = bs_start req, bk_end = bs_end req, bk_confirmed = True,
                 bk_cancel_token = bi_token ids, bk_created_at = now\<rparr>"
  have run: "op_bind (insert_event ?ev) (\<lambda>_. insert_booking ?row) d = (Inr b, d')"
    using assms p free by (simp add: book_tx_def)
  obtain x d1 where e: "insert_event ?ev d = (x, d1)" by (meson surj_pair)
  then have "insert_booking ?row d1 = (Inr b, d')" using run by (cases x) (auto simp: op_bind_def)
  from insert_booking_ok[OF this] insert_event_frame[OF e] free
  show "bookings d' = bookings d @ [b]" "bk_id b \<notin> bk_id ` set (bookings d)" "bk_start b = bs_start req" "bk_end b = bs_end req"
    "\<not> busy_booking (bk_account_id b) req d" by auto
qed

text \<open>Every two confirmed bookings of an account are apart, and the ids are distinct.\<close>

definition apart :: "booking_row \<Rightarrow> booking_row \<Rightarrow> bool" where
  "apart b c \<longleftrightarrow> (bk_confirmed b \<and> bk_confirmed c \<and> bk_account_id b = bk_account_id c \<longrightarrow> bk_end b \<le> bk_start c \<or> bk_end c \<le> bk_start b)"

definition bookings_ok :: "db \<Rightarrow> bool" where
  "bookings_ok d \<longleftrightarrow> keys_unique bk_id (bookings d) \<and> sorted_wrt apart (bookings d)"

lemma bookings_ok_cong: "bookings d' = bookings d \<Longrightarrow> bookings_ok d' = bookings_ok d"
  by (simp add: bookings_ok_def)

lemma book_slot_keeps:
  assumes "book_slot now ids req d = (r, d')" "bookings_ok d" "bs_busy_from req \<le> bs_start req" "bs_end req \<le> bs_busy_to req"
  shows "bookings_ok d'"
proof (cases "bs_end req \<le> bs_start req")
  case True
  with assms show ?thesis by (simp add: book_slot_def op_fail_def)
next
  case False
  then have run: "db_call (transaction (book_tx now ids req)) d = (r, d')" using assms(1) by (simp add: book_slot_def)
  have tx: "bookings_ok e'" if "transaction (book_tx now ids req) e = (x, e')" "bookings_ok e" for e x e'
    using that(1,2)
  proof (rule transaction_preserves)
    fix b
    assume "book_tx now ids req e = (Inr b, e')"
    note ok = book_tx_ok[OF this]
    have "apart c b" if "c \<in> set (bookings e)" for c
      using that ok(3-5) assms(3,4) False by (auto simp: apart_def busy_booking_def not_less)
    then show "bookings_ok e'" using ok(1,2) \<open>bookings_ok e\<close>
      by (auto simp: bookings_ok_def sorted_wrt_append keys_unique_def)
  qed
  show ?thesis by (rule db_call_preserves[where I = bookings_ok, OF run assms(2)]) (simp add: bookings_ok_def, rule tx)
qed

section \<open>The other operations leave the bookings alone\<close>

interpretation bk: mail_free bookings
  by unfold_locales simp_all

lemma enqueue_keeps: "keeps bookings (enqueue_with_priority now i acct blob mail_from recipient priority)"
  by (auto simp: keeps_def enqueue_with_priority_def Let_def op_defs db_call_def split: option.splits list.splits prod.splits sum.splits if_splits)

lemma enqueue_all_keeps: "keeps bookings (enqueue_all now ps acct blob mail_from priority)"
proof (induction ps)
  case Nil
  then show ?case by (simp add: bk.keeps_return)
next
  case (Cons p ps)
  have "keeps bookings (op_bind (enqueue_all now ps acct blob mail_from priority) (\<lambda>ids. op_return (i # ids)))" for i
    by (rule bk.keeps_bind[OF Cons bk.keeps_return])
  then have "keeps bookings (\<lambda>d. op_bind (enqueue_all now ps acct blob mail_from priority) (\<lambda>ids. op_return (i # ids)) (d\<lparr>published := q d\<rparr>))" for i q
    unfolding keeps_def by simp
  then show ?case by (cases p) (auto intro!: bk.keeps_bind enqueue_keeps)
qed

lemma submit_keeps: "bookings (snd (submit (store_env ie now ids me) now qids acct mail_from recipients raw d)) = bookings d"
proof -
  have i: "bookings (snd (ingest_email (store_env ie now ids me) a r t d)) = bookings d" for a r t d
    using keepsD[OF bk.keeps_ingest]
    by (auto simp: store_env_def Mail_Store.ingest_email_def split: prod.splits sum.splits)
  have e: "bookings (snd (enqueue_all now ps a b f p d)) = bookings d" for ps a b f p d
    using enqueue_all_keeps by (simp add: keeps_def)
  show ?thesis unfolding submit_def submit_with_priority_def
    using i e by (auto split: sum.splits prod.splits) (metis snd_conv)+
qed

lemma send_confirmations_keeps: "bookings (send_confirmations env now rnd page owner b tz d) = bookings d"
proof -
  have "bookings (snd (Mail_Store.ingest_email ie now ids acct raw role auth d)) = bookings d" for ie now ids acct raw role auth d
    using bk.keeps_ingest unfolding Mail_Store.ingest_email_def keeps_def by blast
  then show ?thesis by (simp add: send_confirmations_def Let_def submit_keeps split: option.splits)
qed

lemma reads_keep:
  "keeps bookings (account acct)" "keeps bookings (get_scheduling_page_by_slug slug)"
  unfolding account_def get_scheduling_page_by_slug_def by (rule bk.keeps_call, simp add: keeps_def)+

text \<open>Booking, from the endpoint: the interval the transaction checks contains the slot.\<close>

lemma book_at_keeps:
  assumes "book_at env now rnd page tz body slot bounds d = (r, d')" "bookings_ok d"
  shows "bookings_ok d'"
proof -
  obtain x d1 where a: "account (pg_account_id page) d = (x, d1)" by (meson surj_pair)
  then have d1: "bookings_ok d1" using keepsD[OF reads_keep(1)] assms(2) bookings_ok_cong by metis
  show ?thesis
  proof (cases "\<exists>owner. x = Inr (Some owner)")
    case False
    then have "d' = d1" using assms(1) a by (auto simp: book_at_def split: sum.splits option.splits)
    with d1 show ?thesis by simp
  next
    case True
    then obtain owner where x: "x = Inr (Some owner)" by blast
    obtain y d2 where b: "book_slot now (br_ids rnd) (book_request page owner body slot bounds) d1 = (y, d2)" by (meson surj_pair)
    have "bookings_ok d2" by (rule book_slot_keeps[OF b d1]) (simp_all add: book_request_def)
    moreover have "bookings d' = bookings d2"
      using assms(1) a x b send_confirmations_keeps by (auto simp: book_at_def split: sum.splits storage_error.splits)
    ultimately show ?thesis using bookings_ok_cong by metis
  qed
qed

lemma active_page_keeps: "active_page slug d = (r, d') \<Longrightarrow> bookings d' = bookings d"
  using keepsD[OF reads_keep(2)] by (auto simp: active_page_def split: prod.splits sum.splits option.splits if_splits)

lemma book_page_keeps:
  assumes "book_page env now rnd slug body d = Some (r, d')" "bookings_ok d"
  shows "bookings_ok d'"
proof -
  obtain x d1 where a: "active_page slug d = (x, d1)" by (meson surj_pair)
  then have d1: "bookings_ok d1" using active_page_keeps assms(2) bookings_ok_cong by metis
  have "d' = d1 \<or> (\<exists>page tz slot bounds. book_at env now rnd page tz body slot bounds d1 = (r, d'))"
    using assms(1) a unfolding book_page_def Let_def
    by (auto split: sum.splits if_splits option.splits simp: bind_eq_Some_conv)
  then show ?thesis using d1 book_at_keeps by metis
qed

lemma book_keeps:
  assumes "book env now rnd ip slug body s = Some (r, s')" "bookings_ok (ss_db s)"
  shows "bookings_ok (ss_db s')"
  using assms book_page_keeps
  by (auto simp: book_def Let_def split: prod.splits sum.splits if_splits)

lemma page_writes_keep:
  "keeps bookings (create_scheduling_page tzk i now acct n)" "keeps bookings (update_scheduling_page tzk now acct p pp)"
proof -
  have "keeps bookings (create_page_tx i now acct n)" "keeps bookings (update_page_tx tzk now acct p pp)"
    by (auto simp: keeps_def create_page_tx_def update_page_tx_def Let_def split: option.splits sum.splits)
  then show "keeps bookings (create_scheduling_page tzk i now acct n)" "keeps bookings (update_scheduling_page tzk now acct p pp)"
    unfolding create_scheduling_page_def update_scheduling_page_def
    by (auto intro!: bk.keeps_fail bk.keeps_call bk.keeps_transaction split: sum.splits)
qed

lemma event_writes_keep:
  "keeps bookings (create_calendar i now acct name descr)"
  "keeps bookings (create_calendar_event i now c title descr s e rr)" "keeps bookings (delete_calendar_event i)"
  "keeps bookings (update_calendar_event now i title' descr s' e' rr)" "keeps bookings (create_remote_calendar_event i now c fed title descr s e rr)"
  "keeps bookings (update_remote_calendar_event now i title descr s e rr)"
proof -
  have ins: "keeps bookings (insert_event row)" for row using insert_event_frame by (auto simp: keeps_def) (metis surjective_pairing)
  show "keeps bookings (create_calendar_event i now c title descr s e rr)" "keeps bookings (create_remote_calendar_event i now c fed title descr s e rr)"
    unfolding create_calendar_event_def create_remote_calendar_event_def Let_def
    by (intro bk.keeps_call bk.keeps_bind ins bk.keeps_return)+
  show "keeps bookings (create_calendar i now acct name descr)" "keeps bookings (delete_calendar_event i)"
      "keeps bookings (update_calendar_event now i title' descr s' e' rr)" "keeps bookings (update_remote_calendar_event now i title descr s e rr)"
    unfolding create_calendar_def delete_calendar_event_def update_calendar_event_def update_remote_calendar_event_def
    by (rule bk.keeps_call; auto simp: keeps_def Let_def split: option.splits)+
qed

section \<open>Runs\<close>

text \<open>A step is a booking request, a change of a page, a calendar or an event by its owner or by
  synchronization, or any other operation of the program, none of which writes bookings.\<close>

inductive sched_step :: "db \<Rightarrow> db \<Rightarrow> bool" where
  step_book: "sched_step (ss_db s) (ss_db s')" if "book env now rnd ip slug body s = Some (r, s')"
| step_create_page: "sched_step d d'" if "create_scheduling_page tzk i now acct n d = (r', d')"
| step_update_page: "sched_step d d'" if "update_scheduling_page tzk now acct p pp d = (r', d')"
| step_create_calendar: "sched_step d d'" if "create_calendar i now acct name descr d = (rc, d')"
| step_create_event: "sched_step d d'" if "create_calendar_event i now c title descr st en rr d = (re, d')"
| step_update_event: "sched_step d d'" if "update_calendar_event now i title' descr st' en' rr d = (ru, d')"
| step_delete_event: "sched_step d d'" if "delete_calendar_event i d = (ru, d')"
| step_remote_create: "sched_step d d'" if "create_remote_calendar_event i now c fed title descr st en rr d = (rs, d')"
| step_remote_update: "sched_step d d'" if "update_remote_calendar_event now i title descr st en rr d = (ru, d')"
| step_else: "sched_step d d'" if "bookings d' = bookings d"

lemma sched_step_keeps: "sched_step d d' \<Longrightarrow> bookings_ok d \<Longrightarrow> bookings_ok d'"
proof (induction rule: sched_step.induct)
  case (step_book env now rnd ip slug body s r s')
  then show ?case using book_keeps by metis
qed (auto dest: keepsD[OF page_writes_keep(1)] keepsD[OF page_writes_keep(2)] event_writes_keep[THEN keepsD] bookings_ok_cong)

lemma sched_run_ok: "sched_step\<^sup>*\<^sup>* d d' \<Longrightarrow> bookings_ok d \<Longrightarrow> bookings_ok d'"
  by (induction rule: rtranclp_induct) (auto intro: sched_step_keeps)

text \<open>C20. No double booking: whatever visitors book, on whichever of an account's pages, and however pages
  and calendars are changed in between, with database failures at any point, two confirmed bookings of an
  account never overlap.\<close>

theorem no_double_booking:
  assumes "sched_step\<^sup>*\<^sup>* empty_db d" "b \<in> set (bookings d)" "c \<in> set (bookings d)" "b \<noteq> c"
    "bk_confirmed b" "bk_confirmed c" "bk_account_id b = bk_account_id c"
  shows "bk_end b \<le> bk_start c \<or> bk_end c \<le> bk_start b"
proof -
  have "bookings_ok empty_db" by (simp add: bookings_ok_def empty_db_def keys_unique_def)
  then have "sorted_wrt apart (bookings d)" using assms(1) sched_run_ok by (simp add: bookings_ok_def)
  moreover obtain i j where "i < length (bookings d)" "j < length (bookings d)" "b = bookings d ! i" "c = bookings d ! j" "i \<noteq> j"
    using assms(2-4) by (metis in_set_conv_nth)
  ultimately have "apart b c \<or> apart c b" by (metis linorder_neqE_nat sorted_wrt_nth_less)
  then show ?thesis using assms(5-7) by (auto simp: apart_def)
qed

definition w_page :: page_row where
  "w_page = \<lparr>pg_id = ''p'', pg_account_id = ''acct'', pg_slug = ''me'', pg_title = ''Meet'', pg_description = None, pg_calendar_id = ''c'',
     pg_timezone = ''UTC'', pg_availability = sp_availability w_params, pg_durations_mins = [30], pg_buffer_before_mins = 0,
     pg_buffer_after_mins = 0, pg_min_notice_mins = 0, pg_max_per_day = None, pg_valid_from = None, pg_valid_until = None,
     pg_active = True, pg_created_at = 0, pg_updated_at = 0\<rparr>"

definition w_db :: "booking_row list \<Rightarrow> db" where
  "w_db bs = empty_db\<lparr>accounts := [\<lparr>acc_id = ''acct'', acc_email = ''a@x'', acc_display_name = None, acc_created_at = 0, acc_disabled_at = None\<rparr>],
     calendars := [\<lparr>cal_id = ''c'', cal_account_id = ''acct'', cal_name = ''C'', cal_description = None, cal_created_at = 0, cal_updated_at = 0\<rparr>],
     scheduling_pages := [w_page], bookings := bs\<rparr>"

definition w_sched_env :: sched_env where
  "w_sched_env = \<lparr>se_chrono = w_chrono, se_host = ''x'', se_mail = None, se_ingest = w_env\<rparr>"

definition w_random :: "string \<Rightarrow> book_random" where
  "w_random i = \<lparr>br_ids = \<lparr>bi_event = ''e'' @ i, bi_booking = i, bi_token = i\<rparr>, br_visitor_mail = \<lparr>mr_boundary = i, mr_message_id = i\<rparr>,
     br_owner_mail = \<lparr>mr_boundary = i, mr_message_id = i\<rparr>, br_sent_ids = \<lparr>new_email = i, new_thread = i, new_contact = i\<rparr>,
     br_queue_ids = [], br_inbox_ids = \<lparr>new_email = i, new_thread = i, new_contact = i\<rparr>\<rparr>"

definition w_body :: "int \<Rightarrow> book_body" where
  "w_body start = \<lparr>bb_start = start, bb_duration_mins = 30, bb_name = ''V'', bb_email = ''v@y'', bb_note = None\<rparr>"

definition w_booking :: "string \<Rightarrow> int \<Rightarrow> booking_row" where
  "w_booking i start = \<lparr>bk_id = i, bk_page_id = ''p'', bk_account_id = ''acct'', bk_event_id = ''e'' @ i, bk_visitor_name = ''V'',
     bk_visitor_email = ''v@y'', bk_note = None, bk_start = start, bk_end = start + 1800, bk_confirmed = True, bk_cancel_token = i, bk_created_at = 0\<rparr>"

lemma w_slots: "compute_slots w_chrono (page_params w_chrono w_page w_utc 30 None 0) 0 0 [] (\<lambda>_. None) = Some [(32400, 34200), (34200, 36000)]"
proof -
  have p: "page_params w_chrono w_page w_utc 30 None 0 = w_params"
    by (simp add: page_params_def w_page_def w_params_def opt_date_def)
  have q: "sp_duration_mins w_params = 30" "ch_max_date w_chrono = 95026236" by (simp_all add: w_params_def w_chrono_def)
  have w: "windows_for_date w_chrono (sp_availability w_params) 0 = [(540, 610)]"
    by (simp add: windows_for_date_def w_chrono_def w_params_def parse_minutes_def parse_time_def str_defs List.map_filter_def)
  have i: "instant w_params 0 m = (if m * 60 < 86400 then int m * 60 else 0)" for m
    by (simp add: instant_def minutes_to_local_def resolve_local_def w_params_def w_utc_def)
  have "grid w_params 0 540 610 = [32400, 34200]" by (simp add: grid_def q i upt_rec)
  then show ?thesis unfolding p
    by (simp add: compute_slots_days q day_slots_def w day_open_def offered_def slot_free_def slot_end_def overlaps_slot_def i)
      (simp add: w_params_def)
qed

lemma w_book:
  assumes "start = 32400 \<or> start = 34200" "bs = [] \<or> bs = [w_booking ''1'' 32400] \<and> start = 34200 \<and> i \<noteq> ''1''"
  obtains r s' where "book w_sched_env 0 (w_random i) ''ip'' ''me'' (Inr (w_body start)) \<lparr>ss_db = w_db bs, ss_buckets = []\<rparr> = Some (r, s')"
    "bookings (ss_db s') = bs @ [w_booking i start]"
proof -
  have vis: "validate_visitor (w_body start) = Inr ()"
    by (simp add: validate_visitor_def w_body_def is_control_def is_space_def)
  have page: "active_page ''me'' (w_db bs) = (Inr w_page, w_db bs)"
    by (simp add: active_page_def get_scheduling_page_by_slug_def w_db_def empty_db_def w_page_def sql_select_def)
  have tz: "page_tz w_chrono w_page = Inr w_utc" by (simp add: page_tz_def w_page_def w_chrono_def)
  have day: "today_in w_chrono w_utc start = 0" using assms(1) by (auto simp: today_in_def w_utc_def)
  let ?owner = "\<lparr>a_id = ''acct'', a_email = ''a@x'', a_display_name = None, a_created_at = 0\<rparr>"
  let ?req = "book_request w_page ?owner (w_body start) (start, start + 1800) (0, 86400)"
  have acc: "account ''acct'' (w_db bs) = (Inr (Some ?owner), w_db bs)"
    by (simp add: account_def w_db_def empty_db_def sql_select_def row_to_account_def)
  have "book_tx 0 (br_ids (w_random i)) ?req (w_db bs) = (Inr (w_booking i start), (w_db bs)\<lparr>
      calendar_events := [new_event (''e'' @ i) 0 ''c'' ''Meeting: V & a@x'' None start (start + 1800) None], bookings := bs @ [w_booking i start]\<rparr>)"
    using assms
    by (auto simp: book_tx_def w_db_def empty_db_def sql_select_def w_page_def book_request_def w_body_def busy_event_def busy_booking_def
        day_full_def op_bind_def insert_event_def sql_insert_def has_calendar_def new_event_def insert_booking_def has_account_def w_random_def
        w_booking_def owner_label_def)
  moreover have "faults (w_db bs) = []" "\<not> bs_end ?req \<le> bs_start ?req" by (simp_all add: w_db_def empty_db_def book_request_def)
  ultimately have slot: "book_slot 0 (br_ids (w_random i)) ?req (w_db bs) = (Inr (w_booking i start), (w_db bs)\<lparr>
      calendar_events := [new_event (''e'' @ i) 0 ''c'' ''Meeting: V & a@x'' None start (start + 1800) None], bookings := bs @ [w_booking i start]\<rparr>)"
    by (simp add: book_slot_def transaction_def)
  obtain r d' where at: "book_at w_sched_env 0 (w_random i) w_page w_utc (w_body start) (start, start + 1800) (0, 86400) (w_db bs) = (r, d')"
    by (meson surj_pair)
  have pa: "pg_account_id w_page = ''acct''" by (simp add: w_page_def)
  have b: "bookings d' = bs @ [w_booking i start]"
    using at unfolding book_at_def pa acc using slot send_confirmations_keeps by auto
  have "find (\<lambda>s. fst s = start) [(32400, 34200), (34200, 36000)] = Some (start, start + 1800)" using assms(1) by auto
  then have bp: "book_page w_sched_env 0 (w_random i) ''me'' (w_body start) (w_db bs) = Some (r, d')"
    using w_slots at day by (simp add: book_page_def Let_def w_sched_env_def page tz) (simp add: w_body_def w_page_def local_day_bounds_def date_plus_def w_chrono_def resolve_local_def w_utc_def)
  show thesis
    by (rule that[of r "\<lparr>ss_db = d', ss_buckets = snd (allow 0 ''ip'' ''book'' 10 3600 [])\<rparr>"])
      (use bp b vis in \<open>simp_all add: book_def Let_def allow_def\<close>)
qed

theorem no_double_booking_witness:
  "\<exists>d. sched_step\<^sup>*\<^sup>* empty_db d \<and> bookings d = [w_booking ''1'' 32400, w_booking ''2'' 34200] \<and>
     (bk_end (w_booking ''1'' 32400) \<le> bk_start (w_booking ''2'' 34200) \<or> bk_end (w_booking ''2'' 34200) \<le> bk_start (w_booking ''1'' 32400))"
proof -
  obtain r1 s1 where b1: "book w_sched_env 0 (w_random ''1'') ''ip'' ''me'' (Inr (w_body 32400)) \<lparr>ss_db = w_db [], ss_buckets = []\<rparr> = Some (r1, s1)"
      "bookings (ss_db s1) = [w_booking ''1'' 32400]"
    by (rule w_book[of 32400 "[]" "''1''"]) simp_all
  obtain r2 s2 where b2: "book w_sched_env 0 (w_random ''2'') ''ip'' ''me'' (Inr (w_body 34200)) \<lparr>ss_db = w_db [w_booking ''1'' 32400], ss_buckets = []\<rparr> = Some (r2, s2)"
      "bookings (ss_db s2) = [w_booking ''1'' 32400, w_booking ''2'' 34200]"
    by (rule w_book[of 34200 "[w_booking ''1'' 32400]" "''2''"]) simp_all
  have "sched_step empty_db (w_db [])" "sched_step (ss_db s1) (w_db [w_booking ''1'' 32400])"
    using b1(2) by (auto intro!: step_else simp: w_db_def empty_db_def)
  moreover have "sched_step (w_db []) (ss_db s1)" "sched_step (w_db [w_booking ''1'' 32400]) (ss_db s2)"
    using step_book[OF b1(1)] step_book[OF b2(1)] by simp_all
  ultimately have "sched_step\<^sup>*\<^sup>* empty_db (ss_db s2)" by (meson rtranclp.rtrancl_into_rtrancl rtranclp.rtrancl_refl)
  moreover have "w_booking ''1'' 32400 \<in> set (bookings (ss_db s2))" "w_booking ''2'' 34200 \<in> set (bookings (ss_db s2))" using b2(2) by simp_all
  ultimately show ?thesis
    using no_double_booking[of "ss_db s2" "w_booking ''1'' 32400" "w_booking ''2'' 34200"] b2(2) by (auto simp: w_booking_def)
qed

section \<open>Weaknesses\<close>

text \<open>The limiter forgets: with more than ten thousand entries, a request for slots drops the hourly
  entries that are older than its own minute, and a visitor who has used up the bookings of the hour may
  book again.\<close>

lemma limiter_forgets:
  assumes "length bk > 10000" "distinct (map fst bk)" "60 \<le> now mod 3600"
    "map_of bk (ip, ''book'') = Some (now - now mod 3600, n)"
  shows "fst (allow now ip ''book'' 10 3600 (snd (allow now ip' ''slots'' 60 60 bk)))"
proof -
  let ?old = "\<lambda>(k, (start, hits)). start + 60 > now"
  have "((ip, ''book''), (start, hits)) \<notin> set (filter ?old bk)" for start hits
  proof
    assume "((ip, ''book''), (start, hits)) \<in> set (filter ?old bk)"
    then have "map_of bk (ip, ''book'') = Some (start, hits)" "start + 60 > now" using assms(2) by auto
    then show False using assms(3,4) by (auto simp: mod_less_eq_dividend)
  qed
  then have "map_of (snd (allow now ip' ''slots'' 60 60 bk)) (ip, ''book'') = None"
    using assms(1) by (auto simp: allow_def Let_def map_of_eq_None_iff)
  then have "map_of (filter p (snd (allow now ip' ''slots'' 60 60 bk))) (ip, ''book'') = None" for p
    by (auto simp: map_of_eq_None_iff)
  then show ?thesis using \<open>map_of (snd _) _ = None\<close> by (simp add: allow_def[of now ip "''book''"] Let_def)
qed

text \<open>A visitor's name may contain line breaks, and then adds lines of its own to the invitation.\<close>

lemma ics_name_injects:
  "validate_visitor ((w_body 32400)\<lparr>bb_name := ''x'' @ CRLF @ ''LOCATION''\<rparr>) = Inr () \<and>
   list_ex (\<lambda>l. take 9 l = ''LOCATION;'') (message_lines (render (w_chrono\<lparr>ch_utc_stamp := (\<lambda>_. ''19700101T090000Z'')\<rparr>) (booking_ics w_sched_env
     \<lparr>a_id = ''acct'', a_email = ''a@x'', a_display_name = None, a_created_at = 0\<rparr>
     ((w_booking ''1'' 32400)\<lparr>bk_visitor_name := ''x'' @ CRLF @ ''LOCATION''\<rparr>))))"
proof
  show "validate_visitor ((w_body 32400)\<lparr>bb_name := ''x'' @ CRLF @ ''LOCATION''\<rparr>) = Inr ()"
    by (simp add: validate_visitor_def w_body_def is_control_def is_space_def str_defs continuation_def)
  show "list_ex (\<lambda>l. take 9 l = ''LOCATION;'') (message_lines (render (w_chrono\<lparr>ch_utc_stamp := (\<lambda>_. ''19700101T090000Z'')\<rparr>) (booking_ics w_sched_env
     \<lparr>a_id = ''acct'', a_email = ''a@x'', a_display_name = None, a_created_at = 0\<rparr>
     ((w_booking ''1'' 32400)\<lparr>bk_visitor_name := ''x'' @ CRLF @ ''LOCATION''\<rparr>))))" by code_simp
qed

text \<open>A date that does not exist is a valid bound of a page, and then bounds nothing, since the calendar
  library does not parse it.\<close>

lemma impossible_date_accepted: "parse_date ''2026-02-31'' = Some (2026, 2, 31)"
  by (simp add: parse_date_def parse_i32_def str_defs)

end
