(* ===== verification/Account_Data.thy ===== *)
theory Account_Data
  imports Accounts
begin

text \<open>
  \<open>crates/owney-storage\<close>: the data kept beside the mail of an account. \<open>contacts.rs\<close> (the address book),
  \<open>chat_preferences.rs\<close> (per-contact chat mode), \<open>spam_store.rs\<close> (token counts of the classifier; the verdict column is in \<open>Mail_Store\<close>),
  \<open>pgp_store.rs\<close> (own keys and harvested peer keys, the status column again in \<open>Mail_Store\<close>) and \<open>ai_store.rs\<close> (the log of AI actions and the
  enrichment cursor). New ids and the clock are arguments. Comparisons of a column with \<open>COLLATE NOCASE\<close>
  ignore the case of ASCII letters. Counters are bounded by the number of trained messages and are kept as
  naturals.
\<close>

section \<open>Definitions\<close>

text \<open>\<open>INSERT ... ON CONFLICT (key) DO UPDATE\<close>: update the row with the same key, or insert.\<close>

definition sql_upsert :: "('r \<Rightarrow> 'k) \<Rightarrow> ('r \<Rightarrow> 'r) \<Rightarrow> 'r \<Rightarrow> 'r list \<Rightarrow> 'r list" where
  "sql_upsert key upd row rows =
     (if key row \<in> key ` set rows then sql_update (\<lambda>r. key r = key row) upd rows else rows @ [row])"

subsection \<open>Contacts\<close>

definition contact_key :: "contact_row \<Rightarrow> string \<times> string" where
  "contact_key r = (ct_account_id r, to_lowercase (ct_email r))"

definition insert_contact :: "contact_row \<Rightarrow> unit op" where
  "insert_contact row d =
     (if ct_id row \<in> ct_id ` set (contacts d) then (Inl unique_error, d)
      else case sql_insert contact_key row (contacts d) of
             None \<Rightarrow> (Inl unique_error, d)
           | Some rows \<Rightarrow> if has_account d (ct_account_id row) then (Inr (), d\<lparr>contacts := rows\<rparr>) else (Inl fk_error, d))"

definition upsert_contact :: "string \<Rightarrow> int \<Rightarrow> string \<Rightarrow> string \<Rightarrow> string option \<Rightarrow> contact_row op" where
  "upsert_contact new_id now acct email name = db_call (\<lambda>d.
     let email_lower = to_lowercase email;
         result = (\<lambda>i. \<lparr>ct_id = i, ct_account_id = acct, ct_email = email_lower, ct_name = name, ct_phone = None,
                        ct_created_at = now, ct_updated_at = now\<rparr>)
     in case sql_select (\<lambda>r. contact_key r = (acct, email_lower)) (contacts d) of
          Some r \<Rightarrow>
            (Inr (result (ct_id r)),
             (case name of
                Some n \<Rightarrow> d\<lparr>contacts := sql_update (\<lambda>s. ct_id s = ct_id r) (\<lambda>s. s\<lparr>ct_name := Some n, ct_updated_at := now\<rparr>) (contacts d)\<rparr>
              | None \<Rightarrow> d))
        | None \<Rightarrow> op_bind (insert_contact (result new_id)) (\<lambda>_. op_return (result new_id)) d)"

definition get_contact :: "string \<Rightarrow> string \<Rightarrow> contact_row option op" where
  "get_contact acct cid = db_call (\<lambda>d. (Inr (sql_select (\<lambda>r. ct_id r = cid \<and> ct_account_id r = acct) (contacts d)), d))"

definition find_contact_by_email :: "string \<Rightarrow> string \<Rightarrow> contact_row option op" where
  "find_contact_by_email acct email = db_call (\<lambda>d.
     (Inr (sql_select (\<lambda>r. contact_key r = (acct, to_lowercase email)) (contacts d)), d))"

text \<open>\<open>ORDER BY name, email\<close>; a null name sorts first, addresses by the collation of their column.\<close>

definition name_order :: "contact_row list \<Rightarrow> contact_row list" where
  "name_order rows =
     (let by_email = sort_key (\<lambda>r. to_lowercase (ct_email r)) rows
      in filter (\<lambda>r. ct_name r = None) by_email @
         sort_key (\<lambda>r. the (ct_name r)) (filter (\<lambda>r. ct_name r \<noteq> None) by_email))"

definition list_contacts :: "string \<Rightarrow> contact_row list op" where
  "list_contacts acct = db_call (\<lambda>d. (Inr (name_order (filter (\<lambda>r. ct_account_id r = acct) (contacts d))), d))"

definition update_contact :: "int \<Rightarrow> string \<Rightarrow> string option \<Rightarrow> string option \<Rightarrow> unit op" where
  "update_contact now cid name phone = db_call (\<lambda>d. (Inr (),
     d\<lparr>contacts := sql_update (\<lambda>r. ct_id r = cid) (\<lambda>r. r\<lparr>ct_name := name, ct_phone := phone, ct_updated_at := now\<rparr>) (contacts d)\<rparr>))"

definition delete_contact :: "string \<Rightarrow> unit op" where
  "delete_contact cid = db_call (\<lambda>d. (Inr (), d\<lparr>contacts := sql_delete (\<lambda>r. ct_id r = cid) (contacts d)\<rparr>))"

subsection \<open>Chat preferences\<close>

datatype chat_mode_t = AutoChat | NeverChat | RespectSender

fun chat_mode_str :: "chat_mode_t \<Rightarrow> string" where
  "chat_mode_str AutoChat = ''auto_chat''"
| "chat_mode_str NeverChat = ''never_chat''"
| "chat_mode_str RespectSender = ''respect_sender''"

definition chat_mode_parse :: "string \<Rightarrow> chat_mode_t option" where
  "chat_mode_parse s =
     (if s = ''auto_chat'' then Some AutoChat else if s = ''never_chat'' then Some NeverChat
      else if s = ''respect_sender'' then Some RespectSender else None)"

definition contact_of :: "string \<Rightarrow> string" where
  "contact_of email = to_lowercase (trim email)"

definition chat_key :: "chat_pref_row \<Rightarrow> string \<times> string" where
  "chat_key r = (cp_account_id r, to_lowercase (cp_contact_email r))"

definition chat_mode_or_default :: "string \<Rightarrow> chat_mode_t" where
  "chat_mode_or_default s = (case chat_mode_parse s of Some m \<Rightarrow> m | None \<Rightarrow> RespectSender)"

definition get_chat_preference :: "string \<Rightarrow> string \<Rightarrow> chat_mode_t op" where
  "get_chat_preference acct email = db_call (\<lambda>d.
     (Inr (case sql_select (\<lambda>r. chat_key r = (acct, contact_of email)) (chat_preferences d) of
             Some r \<Rightarrow> chat_mode_or_default (cp_preference r) | None \<Rightarrow> RespectSender), d))"

definition set_chat_preference :: "int \<Rightarrow> string \<Rightarrow> string \<Rightarrow> chat_mode_t \<Rightarrow> unit op" where
  "set_chat_preference now acct email pref = db_call (\<lambda>d.
     if \<not> has_account d acct then (Inl fk_error, d)
     else (Inr (), d\<lparr>chat_preferences := sql_upsert chat_key
            (\<lambda>r. r\<lparr>cp_preference := chat_mode_str pref, cp_updated_at := now\<rparr>)
            \<lparr>cp_account_id = acct, cp_contact_email = contact_of email, cp_preference = chat_mode_str pref,
             cp_created_at = now, cp_updated_at = now\<rparr> (chat_preferences d)\<rparr>))"

record chat_preference =
  chp_account_id :: string
  chp_contact_email :: string
  chp_preference :: chat_mode_t
  chp_created_at :: int
  chp_updated_at :: int

definition list_chat_preferences :: "string \<Rightarrow> chat_preference list op" where
  "list_chat_preferences acct = db_call (\<lambda>d.
     (Inr (map (\<lambda>r. \<lparr>chp_account_id = cp_account_id r, chp_contact_email = cp_contact_email r,
                     chp_preference = chat_mode_or_default (cp_preference r), chp_created_at = cp_created_at r,
                     chp_updated_at = cp_updated_at r\<rparr>)
        (order_desc cp_updated_at (filter (\<lambda>r. cp_account_id r = acct) (chat_preferences d)))), d))"

definition delete_chat_preference :: "string \<Rightarrow> string \<Rightarrow> unit op" where
  "delete_chat_preference acct email = db_call (\<lambda>d.
     (Inr (), d\<lparr>chat_preferences := sql_delete (\<lambda>r. chat_key r = (acct, contact_of email)) (chat_preferences d)\<rparr>))"

subsection \<open>Spam tokens\<close>

text \<open>The result of \<open>get_spam_token_counts\<close> is a hash map: a finite map from tokens to counts, with 0 and 0
  for a token never seen.\<close>

definition token_counts :: "db \<Rightarrow> string \<Rightarrow> string \<Rightarrow> nat \<times> nat" where
  "token_counts d acct t =
     (case sql_select (\<lambda>r. sp_account_id r = acct \<and> sp_token r = t) (spam_tokens d) of
        Some r \<Rightarrow> (sp_spam_count r, sp_ham_count r) | None \<Rightarrow> (0, 0))"

definition get_spam_token_counts :: "string \<Rightarrow> string list \<Rightarrow> (string \<Rightarrow> (nat \<times> nat) option) op" where
  "get_spam_token_counts acct tokens =
     (if tokens = [] then op_return (\<lambda>_. None)
      else db_call (\<lambda>d. (Inr (map_of (map (\<lambda>t. (t, token_counts d acct t)) tokens)), d)))"

definition spam_key :: "spam_token_row \<Rightarrow> string \<times> string" where
  "spam_key r = (sp_account_id r, sp_token r)"

definition train_token :: "string \<Rightarrow> bool \<Rightarrow> string \<Rightarrow> spam_token_row list \<Rightarrow> spam_token_row list" where
  "train_token acct is_spam t rows =
     (if is_spam
      then sql_upsert spam_key (\<lambda>r. r\<lparr>sp_spam_count := sp_spam_count r + 1\<rparr>)
             \<lparr>sp_account_id = acct, sp_token = t, sp_spam_count = 1, sp_ham_count = 0\<rparr> rows
      else sql_upsert spam_key (\<lambda>r. r\<lparr>sp_ham_count := sp_ham_count r + 1\<rparr>)
             \<lparr>sp_account_id = acct, sp_token = t, sp_spam_count = 0, sp_ham_count = 1\<rparr> rows)"

definition train_spam_tokens :: "string \<Rightarrow> string list \<Rightarrow> bool \<Rightarrow> unit op" where
  "train_spam_tokens acct tokens is_spam =
     (if tokens = [] then op_return ()
      else db_call (transaction (\<lambda>d.
        if \<not> has_account d acct then (Inl fk_error, d)
        else (Inr (), d\<lparr>spam_tokens := fold (train_token acct is_spam) tokens (spam_tokens d)\<rparr>))))"

subsection \<open>PGP keys\<close>

definition pgp_own_key :: "string \<Rightarrow> (string \<times> string) option op" where
  "pgp_own_key acct = db_call (\<lambda>d. (Inr (map_option (\<lambda>r. (po_fingerprint r, po_blob_id r))
     (sql_select (\<lambda>r. po_account_id r = acct) (pgp_own_keys d))), d))"

definition set_pgp_own_key :: "int \<Rightarrow> string \<Rightarrow> string \<Rightarrow> string \<Rightarrow> unit op" where
  "set_pgp_own_key now acct fp blob = db_call (\<lambda>d.
     if \<not> has_account d acct then (Inl fk_error, d)
     else (Inr (), d\<lparr>pgp_own_keys := sql_upsert po_account_id (\<lambda>r. r\<lparr>po_fingerprint := fp, po_blob_id := blob\<rparr>)
            \<lparr>po_account_id = acct, po_fingerprint = fp, po_blob_id = blob, po_created_at = now\<rparr> (pgp_own_keys d)\<rparr>))"

definition pgp_peer_key :: "pgp_peer_row \<Rightarrow> string \<times> string" where
  "pgp_peer_key r = (pp_account_id r, pp_address r)"

text \<open>Whether a previously recorded fingerprint differs from the new one.\<close>

definition fp_changed :: "string option \<Rightarrow> string \<Rightarrow> bool" where
  "fp_changed previous fp = (case previous of Some old \<Rightarrow> old \<noteq> fp | None \<Rightarrow> False)"

definition upsert_pgp_peer :: "int \<Rightarrow> string \<Rightarrow> string \<Rightarrow> string \<Rightarrow> string \<Rightarrow> string option \<Rightarrow> bool op" where
  "upsert_pgp_peer now acct address cert fp prefer_encrypt = db_call (\<lambda>d.
     let a = contact_of address;
         previous = map_option pp_fingerprint (sql_select (\<lambda>r. pgp_peer_key r = (acct, a)) (pgp_peers d))
     in if \<not> has_account d acct then (Inl fk_error, d)
        else (Inr (fp_changed previous fp), d\<lparr>pgp_peers := sql_upsert pgp_peer_key
               (\<lambda>r. r\<lparr>pp_cert := cert, pp_fingerprint := fp, pp_prefer_encrypt := prefer_encrypt, pp_last_seen := now\<rparr>)
               \<lparr>pp_account_id = acct, pp_address = a, pp_cert = cert, pp_fingerprint = fp,
                pp_prefer_encrypt = prefer_encrypt, pp_last_seen = now\<rparr> (pgp_peers d)\<rparr>))"

definition pgp_peer :: "string \<Rightarrow> string \<Rightarrow> pgp_peer_row option op" where
  "pgp_peer acct address = db_call (\<lambda>d. (Inr (sql_select (\<lambda>r. pgp_peer_key r = (acct, contact_of address)) (pgp_peers d)), d))"

subsection \<open>The log of AI actions\<close>

definition record_ai_action :: "string \<Rightarrow> int \<Rightarrow> string \<Rightarrow> string option \<Rightarrow> string \<Rightarrow> string \<Rightarrow> string option \<Rightarrow> string op" where
  "record_ai_action new_id now acct eid skill description inverse_patch = db_call (\<lambda>d.
     case sql_insert aa_id \<lparr>aa_id = new_id, aa_account_id = acct, aa_email_id = eid, aa_skill = skill,
            aa_description = description, aa_inverse_patch = inverse_patch, aa_undone = False, aa_created_at = now\<rparr> (ai_actions d) of
       None \<Rightarrow> (Inl unique_error, d)
     | Some rows \<Rightarrow>
         if \<not> has_account d acct \<or> (case eid of Some e \<Rightarrow> e \<notin> em_id ` set (emails d) | None \<Rightarrow> False) then (Inl fk_error, d)
         else (Inr new_id, d\<lparr>ai_actions := rows\<rparr>))"

definition list_ai_actions :: "string \<Rightarrow> nat \<Rightarrow> ai_action_row list op" where
  "list_ai_actions acct limit = db_call (\<lambda>d.
     (Inr (take limit (order_desc aa_created_at (filter (\<lambda>r. aa_account_id r = acct) (ai_actions d)))), d))"

definition AI_ACTION_SCAN :: nat where "AI_ACTION_SCAN = 10000"

definition ai_action :: "string \<Rightarrow> string \<Rightarrow> ai_action_row option op" where
  "ai_action acct aid = op_bind (list_ai_actions acct AI_ACTION_SCAN) (\<lambda>rows. op_return (find (\<lambda>a. aa_id a = aid) rows))"

definition mark_action_undone :: "string \<Rightarrow> unit op" where
  "mark_action_undone aid = db_call (\<lambda>d. (Inr (),
     d\<lparr>ai_actions := sql_update (\<lambda>r. aa_id r = aid) (\<lambda>r. r\<lparr>aa_undone := True\<rparr>) (ai_actions d)\<rparr>))"

definition ai_cursor :: "string \<Rightarrow> nat op" where
  "ai_cursor acct = db_call (\<lambda>d. (Inr (case sql_select (\<lambda>r. ac_account_id r = acct) (ai_cursors d) of
     Some r \<Rightarrow> as_u64 (ac_last_modseq r) | None \<Rightarrow> 0), d))"

definition set_ai_cursor :: "string \<Rightarrow> nat \<Rightarrow> unit op" where
  "set_ai_cursor acct modseq = db_call (\<lambda>d.
     if \<not> has_account d acct then (Inl fk_error, d)
     else (Inr (), d\<lparr>ai_cursors := sql_upsert ac_account_id (\<lambda>r. r\<lparr>ac_last_modseq := as_i64 modseq\<rparr>)
            \<lparr>ac_account_id = acct, ac_last_modseq = as_i64 modseq\<rparr> (ai_cursors d)\<rparr>))"

definition sender_message_count :: "string \<Rightarrow> string \<Rightarrow> nat op" where
  "sender_message_count acct from = db_call (\<lambda>d.
     (Inr (sql_count (\<lambda>r. em_account_id r = acct \<and> em_from_addr r = Some from) (emails d)), d))"

definition mailbox_id_by_role :: "string \<Rightarrow> string \<Rightarrow> string option op" where
  "mailbox_id_by_role acct role = db_call (\<lambda>d. (Inr (map_option mb_id
     (sql_select (\<lambda>r. mb_account_id r = acct \<and> mb_role r = Some role) (mailboxes d))), d))"

section \<open>Lemmas\<close>

lemma sql_upsert_keys: "(\<And>r. key (upd r) = key r) \<Longrightarrow> key ` set (sql_upsert key upd row rows) = insert (key row) (key ` set rows)"
proof -
  assume upd: "\<And>r. key (upd r) = key r"
  have "key ` set (sql_update p upd rows) = key ` set rows" for p
    by (metis upd list.set_map map_key_update)
  then show ?thesis by (auto simp: sql_upsert_def)
qed

lemma keys_unique_upsert:
  "(\<And>r. key (upd r) = key r) \<Longrightarrow> keys_unique key rows \<Longrightarrow> keys_unique key (sql_upsert key upd row rows)"
  by (auto simp: sql_upsert_def keys_unique_update) (simp add: keys_unique_def)

lemma sql_upsertE:
  assumes "x \<in> set (sql_upsert key upd row rows)"
  obtains "x = row" "key row \<notin> key ` set rows" | s where "s \<in> set rows" "key s = key row" "x = upd s" | "x \<in> set rows" "key x \<noteq> key row \<or> key row \<notin> key ` set rows"
proof (cases "key row \<in> key ` set rows")
  case True
  then have "x \<in> set (sql_update (\<lambda>r. key r = key row) upd rows)" using assms by (simp add: sql_upsert_def)
  then show thesis by (rule sql_updateE) (auto intro: that)
next
  case False
  then show thesis using assms that by (auto simp: sql_upsert_def)
qed

end
