(* ===== verification/Fed_Store.thy ===== *)
theory Fed_Store
  imports Account_Data Calendar_Store
begin

text \<open>
  \<open>crates/owney-storage/src/calendar_sharing.rs\<close> (shares within the server, invitations, and the records of
  calendars shared between servers) and \<open>federation_store.rs\<close> (the server's identity, pinned peers, seen
  nonces, the map from a peer's event ids to local events, and the outbox of notifications). New ids, secrets
  and the clock are arguments. The stored JSON of permissions is the record it encodes.
\<close>

section \<open>Shares within the server\<close>

fun sharing_type_str :: "sharing_type \<Rightarrow> string" where
  "sharing_type_str Sharing = ''sharing''"
| "sharing_type_str Delegation = ''delegation''"

definition sharing_permissions :: permissions where
  "sharing_permissions = \<lparr>view_calendar = True, view_events = True, edit_events = False, delete_events = False,
     change_sharing = False, admin = False\<rparr>"

definition delegation_permissions :: permissions where
  "delegation_permissions = \<lparr>view_calendar = True, view_events = True, edit_events = True, delete_events = True,
     change_sharing = True, admin = True\<rparr>"

definition owner_permissions :: permissions where
  "owner_permissions = delegation_permissions"

fun permissions_for :: "sharing_type \<Rightarrow> permissions" where
  "permissions_for Sharing = sharing_permissions"
| "permissions_for Delegation = delegation_permissions"

definition share_key :: "sharing_row \<Rightarrow> string \<times> string" where
  "share_key r = (cs_calendar_id r, cs_shared_with_account_id r)"

definition share_calendar :: "string \<Rightarrow> int \<Rightarrow> string \<Rightarrow> string \<Rightarrow> string \<Rightarrow> sharing_type \<Rightarrow> sharing_row op" where
  "share_calendar new_id now c owner target ty = db_call (\<lambda>d.
     let row = \<lparr>cs_id = new_id, cs_calendar_id = c, cs_shared_with_account_id = target, cs_sharing_type = ty,
                cs_permissions = permissions_for ty, cs_status = ''pending'', cs_created_at = now, cs_accepted_at = None\<rparr>
     in if \<not> owns_calendar d owner c then (Inl StNotAuthorized, d)
        else if new_id \<in> cs_id ` set (calendar_sharing d) then (Inl unique_error, d)
        else case sql_insert share_key row (calendar_sharing d) of
               None \<Rightarrow> (Inl unique_error, d)
             | Some rows \<Rightarrow> if has_account d target then (Inr row, d\<lparr>calendar_sharing := rows\<rparr>) else (Inl fk_error, d))"

text \<open>\<open>UPDATE\<close> that fails when it affects no row.\<close>

definition authorized_update :: "('r \<Rightarrow> bool) \<Rightarrow> ('r \<Rightarrow> 'r) \<Rightarrow> 'r list \<Rightarrow> 'r list option" where
  "authorized_update p f rows = (if \<exists>r \<in> set rows. p r then Some (sql_update p f rows) else None)"

definition addressed_to :: "string \<Rightarrow> string \<Rightarrow> sharing_row \<Rightarrow> bool" where
  "addressed_to sid acct r \<longleftrightarrow> cs_id r = sid \<and> cs_shared_with_account_id r = acct"

definition accept_sharing :: "int \<Rightarrow> string \<Rightarrow> string \<Rightarrow> unit op" where
  "accept_sharing now sid acct = db_call (\<lambda>d.
     case authorized_update (addressed_to sid acct)
            (\<lambda>r. r\<lparr>cs_status := ''accepted'', cs_accepted_at := Some now\<rparr>) (calendar_sharing d) of
       None \<Rightarrow> (Inl StNotAuthorized, d) | Some rows \<Rightarrow> (Inr (), d\<lparr>calendar_sharing := rows\<rparr>))"

definition reject_sharing :: "string \<Rightarrow> string \<Rightarrow> unit op" where
  "reject_sharing sid acct = db_call (\<lambda>d.
     case authorized_update (addressed_to sid acct) (\<lambda>r. r\<lparr>cs_status := ''rejected''\<rparr>) (calendar_sharing d) of
       None \<Rightarrow> (Inl StNotAuthorized, d) | Some rows \<Rightarrow> (Inr (), d\<lparr>calendar_sharing := rows\<rparr>))"

definition get_shared_calendars :: "string \<Rightarrow> sharing_row list op" where
  "get_shared_calendars acct = db_call (\<lambda>d.
     (Inr (filter (\<lambda>r. cs_shared_with_account_id r = acct \<and> (cs_status r = ''pending'' \<or> cs_status r = ''accepted''))
        (calendar_sharing d)), d))"

definition calendar_access :: "string \<Rightarrow> string \<Rightarrow> permissions option op" where
  "calendar_access acct c = db_call (\<lambda>d.
     if owns_calendar d acct c then (Inr (Some owner_permissions), d)
     else (Inr (map_option cs_permissions (sql_select (\<lambda>r. cs_calendar_id r = c \<and> cs_shared_with_account_id r = acct \<and>
             cs_status r = ''accepted'') (calendar_sharing d))), d))"

definition list_accepted_shared_calendar_ids :: "string \<Rightarrow> (string \<times> permissions) list op" where
  "list_accepted_shared_calendar_ids acct = db_call (\<lambda>d.
     (Inr (map (\<lambda>r. (cs_calendar_id r, cs_permissions r))
        (filter (\<lambda>r. cs_shared_with_account_id r = acct \<and> cs_status r = ''accepted'') (calendar_sharing d))), d))"

section \<open>Invitations\<close>

definition create_federation_invitation :: "string \<Rightarrow> int \<Rightarrow> string \<Rightarrow> string \<Rightarrow> string \<Rightarrow> string option \<Rightarrow> sharing_type \<Rightarrow> invitation_row op" where
  "create_federation_invitation new_id now c inviter target_email target_url ty = db_call (\<lambda>d.
     let row = \<lparr>ci_id = new_id, ci_calendar_id = c, ci_inviter_account_id = inviter, ci_invitee_email = target_email,
                ci_invitee_server_url = target_url, ci_sharing_type = ty, ci_status = ''pending'', ci_message = None,
                ci_created_at = now\<rparr>
     in case sql_insert ci_id row (calendar_invitations d) of
          None \<Rightarrow> (Inl unique_error, d)
        | Some rows \<Rightarrow> if has_calendar d c \<and> has_account d inviter then (Inr row, d\<lparr>calendar_invitations := rows\<rparr>)
                       else (Inl fk_error, d))"

text \<open>\<open>invitee_email IN (SELECT email FROM accounts WHERE id = ?)\<close>.\<close>

definition invited :: "db \<Rightarrow> string \<Rightarrow> invitation_row \<Rightarrow> bool" where
  "invited d acct i \<longleftrightarrow> (\<exists>a \<in> set (accounts d). acc_id a = acct \<and> acc_email a = ci_invitee_email i)"

definition get_pending_invitations :: "string \<Rightarrow> invitation_row list op" where
  "get_pending_invitations acct = db_call (\<lambda>d.
     (Inr (map (\<lambda>i. i\<lparr>ci_message := None\<rparr>) (filter (\<lambda>i. invited d acct i \<and> ci_status i = ''pending'') (calendar_invitations d))), d))"

definition settle_invitation :: "string \<Rightarrow> string \<Rightarrow> string \<Rightarrow> unit op" where
  "settle_invitation status iid acct = db_call (\<lambda>d.
     case authorized_update (\<lambda>i. ci_id i = iid \<and> ci_status i = ''pending'' \<and> invited d acct i)
            (\<lambda>i. i\<lparr>ci_status := status\<rparr>) (calendar_invitations d) of
       None \<Rightarrow> (Inl StNotAuthorized, d) | Some rows \<Rightarrow> (Inr (), d\<lparr>calendar_invitations := rows\<rparr>))"

definition accept_federation_invitation :: "string \<Rightarrow> string \<Rightarrow> unit op" where
  "accept_federation_invitation = settle_invitation ''accepted''"

definition reject_invitation :: "string \<Rightarrow> string \<Rightarrow> unit op" where
  "reject_invitation = settle_invitation ''rejected''"

section \<open>Calendars shared between servers\<close>

definition target_key :: "federation_row \<Rightarrow> string \<times> string" where
  "target_key r = (fd_calendar_id r, fd_target_email r)"

definition insert_federation :: "federation_row \<Rightarrow> unit op" where
  "insert_federation row d =
     (if fd_id row \<in> fd_id ` set (calendar_federation d) then (Inl unique_error, d)
      else case sql_insert target_key row (calendar_federation d) of
             None \<Rightarrow> (Inl unique_error, d)
           | Some rows \<Rightarrow> if has_calendar d (fd_calendar_id row) then (Inr (), d\<lparr>calendar_federation := rows\<rparr>) else (Inl fk_error, d))"

definition create_outbound_federation :: "string \<Rightarrow> string \<Rightarrow> int \<Rightarrow> string \<Rightarrow> string \<Rightarrow> string \<Rightarrow> sharing_type \<Rightarrow> string \<Rightarrow> string \<Rightarrow> (string \<times> string) op" where
  "create_outbound_federation new_id capability now c target_email target_url ty peer_domain peer_fp =
     db_call (op_bind (insert_federation \<lparr>fd_id = new_id, fd_calendar_id = c, fd_target_email = target_email,
        fd_target_server_url = target_url, fd_sharing_type = ty, fd_permissions = permissions_for ty,
        fd_status = ''accepted'', fd_sync_token = None, fd_last_sync_at = None, fd_created_at = now,
        fd_peer_domain = Some peer_domain, fd_peer_fingerprint = Some peer_fp,
        fd_capability_secret = Some capability, fd_direction = Some ''outbound''\<rparr>)
      (\<lambda>_. op_return (new_id, capability)))"

definition create_inbound_federation :: "int \<Rightarrow> string \<Rightarrow> string \<Rightarrow> string \<Rightarrow> string \<Rightarrow> sharing_type \<Rightarrow> string \<Rightarrow> string \<Rightarrow> string \<Rightarrow> unit op" where
  "create_inbound_federation now fed c source_email source_url ty peer_domain peer_fp capability =
     db_call (insert_federation \<lparr>fd_id = fed, fd_calendar_id = c, fd_target_email = source_email,
        fd_target_server_url = source_url, fd_sharing_type = ty, fd_permissions = permissions_for ty,
        fd_status = ''pending'', fd_sync_token = None, fd_last_sync_at = None, fd_created_at = now,
        fd_peer_domain = Some peer_domain, fd_peer_fingerprint = Some peer_fp,
        fd_capability_secret = Some capability, fd_direction = Some ''inbound''\<rparr>)"

definition pending_inbound :: "db \<Rightarrow> string \<Rightarrow> federation_row \<Rightarrow> bool" where
  "pending_inbound d acct r \<longleftrightarrow> fd_direction r = Some ''inbound'' \<and> fd_status r = ''pending'' \<and> owns_calendar d acct (fd_calendar_id r)"

definition settle_inbound_federation :: "string \<Rightarrow> string \<Rightarrow> string \<Rightarrow> unit op" where
  "settle_inbound_federation status fed acct = db_call (\<lambda>d.
     case authorized_update (\<lambda>r. fd_id r = fed \<and> pending_inbound d acct r) (\<lambda>r. r\<lparr>fd_status := status\<rparr>) (calendar_federation d) of
       None \<Rightarrow> (Inl StNotAuthorized, d) | Some rows \<Rightarrow> (Inr (), d\<lparr>calendar_federation := rows\<rparr>))"

definition accept_inbound_federation :: "string \<Rightarrow> string \<Rightarrow> unit op" where
  "accept_inbound_federation = settle_inbound_federation ''accepted''"

definition reject_inbound_federation :: "string \<Rightarrow> string \<Rightarrow> unit op" where
  "reject_inbound_federation = settle_inbound_federation ''rejected''"

definition get_federation :: "string \<Rightarrow> federation_row option op" where
  "get_federation fed = db_call (\<lambda>d. (Inr (sql_select (\<lambda>r. fd_id r = fed) (calendar_federation d)), d))"

definition update_federation_sync_token :: "int \<Rightarrow> string \<Rightarrow> string option \<Rightarrow> unit op" where
  "update_federation_sync_token now fed token = db_call (\<lambda>d. (Inr (),
     d\<lparr>calendar_federation := sql_update (\<lambda>r. fd_id r = fed)
        (\<lambda>r. r\<lparr>fd_sync_token := token, fd_last_sync_at := Some now, fd_status := ''syncing''\<rparr>) (calendar_federation d)\<rparr>))"

definition list_calendar_event_ids_since :: "string \<Rightarrow> int \<Rightarrow> (string \<times> bool) list op" where
  "list_calendar_event_ids_since c since = db_call (\<lambda>d.
     (Inr (map (\<lambda>e. (ev_id e, False)) (sort_key ev_updated_at
        (filter (\<lambda>e. ev_calendar_id e = c \<and> ev_updated_at e > since) (calendar_events d)))), d))"

definition list_pending_inbound_federations :: "string \<Rightarrow> federation_row list op" where
  "list_pending_inbound_federations acct = db_call (\<lambda>d.
     (Inr (sort_key fd_created_at (filter (pending_inbound d acct) (calendar_federation d))), d))"

definition active_status :: "string \<Rightarrow> bool" where
  "active_status s \<longleftrightarrow> s = ''accepted'' \<or> s = ''syncing''"

definition active_inbound :: "federation_row \<Rightarrow> bool" where
  "active_inbound r \<longleftrightarrow> active_status (fd_status r) \<and> fd_direction r = Some ''inbound''"

text \<open>\<open>ORDER BY last_sync_at ASC NULLS FIRST\<close>.\<close>

definition list_active_federations :: "federation_row list op" where
  "list_active_federations = db_call (\<lambda>d.
     let rows = filter active_inbound (calendar_federation d)
     in (Inr (filter (\<lambda>r. fd_last_sync_at r = None) rows @
              sort_key (\<lambda>r. the (fd_last_sync_at r)) (filter (\<lambda>r. fd_last_sync_at r \<noteq> None) rows)), d))"

definition mark_federation_error :: "string \<Rightarrow> unit op" where
  "mark_federation_error fed = db_call (\<lambda>d. (Inr (),
     d\<lparr>calendar_federation := sql_update (\<lambda>r. fd_id r = fed) (\<lambda>r. r\<lparr>fd_status := ''error''\<rparr>) (calendar_federation d)\<rparr>))"

section \<open>Identity, peers and nonces\<close>

definition server_identity_of :: "(string \<times> string) option op" where
  "server_identity_of = db_call (\<lambda>d. (Inr (map_option (\<lambda>r. (si_fingerprint r, si_blob_id r)) (server_identity d)), d))"

definition set_server_identity :: "int \<Rightarrow> string \<Rightarrow> string \<Rightarrow> unit op" where
  "set_server_identity now fp blob = db_call (\<lambda>d. (Inr (), d\<lparr>server_identity := Some
     (case server_identity d of
        None \<Rightarrow> \<lparr>si_fingerprint = fp, si_blob_id = blob, si_created_at = now\<rparr>
      | Some r \<Rightarrow> r\<lparr>si_fingerprint := fp, si_blob_id := blob\<rparr>)\<rparr>))"

definition upsert_federation_peer :: "int \<Rightarrow> string \<Rightarrow> string \<Rightarrow> string \<Rightarrow> string \<Rightarrow> bool op" where
  "upsert_federation_peer now domain url cert fp = db_call (\<lambda>d.
     let dn = contact_of domain;
         previous = map_option pr_fingerprint (sql_select (\<lambda>r. pr_domain r = dn) (federation_peers d))
     in (Inr (fp_changed previous fp), d\<lparr>federation_peers := sql_upsert pr_domain
           (\<lambda>r. r\<lparr>pr_server_url := url, pr_cert := cert, pr_fingerprint := fp, pr_last_seen := Some now\<rparr>)
           \<lparr>pr_domain = dn, pr_server_url = url, pr_cert = cert, pr_fingerprint = fp, pr_pinned_at = now, pr_last_seen = Some now\<rparr>
           (federation_peers d)\<rparr>))"

definition pinned :: "db \<Rightarrow> string \<Rightarrow> peer_row option" where
  "pinned d dn = sql_select (\<lambda>r. pr_domain r = dn) (federation_peers d)"

definition federation_peer :: "string \<Rightarrow> peer_row option op" where
  "federation_peer domain = db_call (\<lambda>d. (Inr (pinned d (contact_of domain)), d))"

definition nonce_key :: "nonce_row \<Rightarrow> string \<times> string" where
  "nonce_key r = (nn_sender_fp r, nn_nonce r)"

definition check_and_record_nonce :: "string \<Rightarrow> string \<Rightarrow> int \<Rightarrow> bool op" where
  "check_and_record_nonce fp nonce expires_at = db_call (\<lambda>d.
     case sql_insert nonce_key \<lparr>nn_sender_fp = fp, nn_nonce = nonce, nn_expires_at = expires_at\<rparr> (federation_replay_nonce d) of
       None \<Rightarrow> (Inr False, d)
     | Some rows \<Rightarrow> (Inr True, d\<lparr>federation_replay_nonce := rows\<rparr>))"

definition prune_expired_nonces :: "int \<Rightarrow> nat op" where
  "prune_expired_nonces now = db_call (\<lambda>d.
     (Inr (sql_count (\<lambda>r. nn_expires_at r \<le> now) (federation_replay_nonce d)),
      d\<lparr>federation_replay_nonce := sql_delete (\<lambda>r. nn_expires_at r \<le> now) (federation_replay_nonce d)\<rparr>))"

section \<open>Remote events\<close>

definition map_key :: "event_map_row \<Rightarrow> string \<times> string" where
  "map_key r = (fm_federation_id r, fm_remote_uid r)"

definition federation_local_event :: "string \<Rightarrow> string \<Rightarrow> string option op" where
  "federation_local_event fed uid = db_call (\<lambda>d.
     (Inr (map_option fm_local_event_id (sql_select (\<lambda>r. map_key r = (fed, uid)) (federation_event_map d))), d))"

definition set_federation_event_map :: "int \<Rightarrow> string \<Rightarrow> string \<Rightarrow> string \<Rightarrow> string \<Rightarrow> unit op" where
  "set_federation_event_map now fed uid eid author = db_call (\<lambda>d.
     if fed \<notin> fd_id ` set (calendar_federation d) \<or> eid \<notin> ev_id ` set (calendar_events d) then (Inl fk_error, d)
     else (Inr (), d\<lparr>federation_event_map := sql_upsert map_key
            (\<lambda>r. r\<lparr>fm_local_event_id := eid, fm_author_email := author, fm_updated_at := now\<rparr>)
            \<lparr>fm_federation_id = fed, fm_remote_uid = uid, fm_local_event_id = eid, fm_author_email = author, fm_updated_at = now\<rparr>
            (federation_event_map d)\<rparr>))"

section \<open>The outbox\<close>

definition fed_enqueue :: "string \<Rightarrow> int \<Rightarrow> string \<Rightarrow> string \<Rightarrow> string \<Rightarrow> string op" where
  "fed_enqueue new_id now fed domain payload = db_call (\<lambda>d.
     case sql_insert fo_id \<lparr>fo_id = new_id, fo_federation_id = fed, fo_peer_domain = domain, fo_payload = payload,
            fo_attempts = 0, fo_next_attempt = now, fo_status = ''queued'', fo_last_error = None,
            fo_created_at = now, fo_updated_at = now\<rparr> (federation_outbox d) of
       None \<Rightarrow> (Inl unique_error, d)
     | Some rows \<Rightarrow> if fed \<in> fd_id ` set (calendar_federation d) then (Inr new_id, d\<lparr>federation_outbox := rows\<rparr>)
                    else (Inl fk_error, d))"

definition fed_due :: "int \<Rightarrow> outbox_row \<Rightarrow> bool" where
  "fed_due now r \<longleftrightarrow> fo_status r = ''queued'' \<and> fo_next_attempt r \<le> now"

record outbox_item =
  oi_id :: string
  oi_federation_id :: string
  oi_peer_domain :: string
  oi_payload :: string
  oi_attempts :: int

definition row_to_outbox_item :: "outbox_row \<Rightarrow> outbox_item" where
  "row_to_outbox_item r = \<lparr>oi_id = fo_id r, oi_federation_id = fo_federation_id r, oi_peer_domain = fo_peer_domain r,
     oi_payload = fo_payload r, oi_attempts = fo_attempts r\<rparr>"

definition fed_due_items :: "int \<Rightarrow> nat \<Rightarrow> outbox_item list op" where
  "fed_due_items now limit = db_call (\<lambda>d.
     let ids = map fo_id (take limit (sort_key fo_next_attempt (filter (fed_due now) (federation_outbox d))))
     in (Inr (map row_to_outbox_item (filter (\<lambda>r. fo_id r \<in> set ids) (federation_outbox d))),
         d\<lparr>federation_outbox := sql_update (\<lambda>r. fo_id r \<in> set ids) (\<lambda>r. r\<lparr>fo_status := ''sending'', fo_updated_at := now\<rparr>)
              (federation_outbox d)\<rparr>))"

definition fed_backoff :: "int \<Rightarrow> int" where
  "fed_backoff attempts = min (2 ^ nat (min attempts 12)) 3600"

definition fed_record_attempt :: "int \<Rightarrow> string \<Rightarrow> bool \<Rightarrow> string option \<Rightarrow> int \<Rightarrow> unit op" where
  "fed_record_attempt now oid success err max_attempts = db_call (\<lambda>d.
     if success then (Inr (), d\<lparr>federation_outbox := sql_delete (\<lambda>r. fo_id r = oid) (federation_outbox d)\<rparr>)
     else case sql_select (\<lambda>r. fo_id r = oid) (federation_outbox d) of
            None \<Rightarrow> (Inl (StSqlite ''Query returned no rows''), d)
          | Some row \<Rightarrow>
              (let attempts = fo_attempts row + 1
               in if attempts \<ge> max_attempts
                  then (Inr (), d\<lparr>federation_outbox := sql_update (\<lambda>r. fo_id r = oid)
                          (\<lambda>r. r\<lparr>fo_status := ''failed'', fo_attempts := attempts, fo_last_error := err, fo_updated_at := now\<rparr>)
                          (federation_outbox d)\<rparr>)
                  else (Inr (), d\<lparr>federation_outbox := sql_update (\<lambda>r. fo_id r = oid)
                          (\<lambda>r. r\<lparr>fo_status := ''queued'', fo_attempts := attempts, fo_last_error := err,
                                 fo_next_attempt := now + fed_backoff attempts, fo_updated_at := now\<rparr>)
                          (federation_outbox d)\<rparr>)))"

definition fed_reset_stale_claims :: "int \<Rightarrow> nat op" where
  "fed_reset_stale_claims now = db_call (\<lambda>d.
     (Inr (sql_count (\<lambda>r. fo_status r = ''sending'') (federation_outbox d)),
      d\<lparr>federation_outbox := sql_update (\<lambda>r. fo_status r = ''sending'') (\<lambda>r. r\<lparr>fo_status := ''queued'', fo_updated_at := now\<rparr>)
          (federation_outbox d)\<rparr>))"

definition outbound_federations_for_calendar :: "string \<Rightarrow> (string \<times> string) list op" where
  "outbound_federations_for_calendar c = db_call (\<lambda>d.
     (Inr (List.map_filter (\<lambda>r. if fd_calendar_id r = c \<and> fd_direction r = Some ''outbound'' \<and> active_status (fd_status r)
                           then map_option (\<lambda>p. (fd_id r, p)) (fd_peer_domain r) else None) (calendar_federation d)), d))"

end
