(* ===== verification/Pgp.thy ===== *)
theory Pgp
  imports Account_Data Mail_Store
begin

text \<open>
  \<open>crates/owney-pgp\<close>: certificates of accounts and of the server (\<open>lib.rs\<close>), signing and sealing (\<open>ops.rs\<close>),
  the Autocrypt header (\<open>autocrypt.rs\<close>) and the hooks on outgoing and incoming mail (\<open>pipeline.rs\<close>). Sequoia is
  a parameter: the record \<open>openpgp\<close> over its type of certificates \<open>'c\<close>. So are the MIME parser, the blob
  directory, base64 and the BLAKE3 hash (record \<open>pgp_env\<close>). Entropy is an argument of what draws it.
\<close>

section \<open>Bytes and text\<close>

text \<open>\<open>String::from_utf8_lossy\<close>: every maximal ill-formed sequence becomes U+FFFD.\<close>

definition byte_in :: "nat \<Rightarrow> nat \<Rightarrow> char \<Rightarrow> bool" where
  "byte_in lo hi c \<longleftrightarrow> lo \<le> of_char c \<and> of_char c \<le> hi"

definition tail_len :: "char \<Rightarrow> nat" where
  "tail_len c = (if byte_in 0xC2 0xDF c then 1 else if byte_in 0xE0 0xEF c then 2 else if byte_in 0xF0 0xF4 c then 3 else 0)"

definition second_ok :: "char \<Rightarrow> char \<Rightarrow> bool" where
  "second_ok c x =
     (let n = (of_char c :: nat)
      in byte_in (if n = 0xE0 then 0xA0 else if n = 0xF0 then 0x90 else 0x80)
                 (if n = 0xED then 0x9F else if n = 0xF4 then 0x8F else 0xBF) x)"

definition tail_valid :: "char \<Rightarrow> string \<Rightarrow> nat" where
  "tail_valid c s =
     (case s of [] \<Rightarrow> 0
      | x # t \<Rightarrow> if tail_len c = 0 \<or> \<not> second_ok c x then 0
                 else Suc (length (takeWhile (byte_in 0x80 0xBF) (take (tail_len c - 1) t))))"

definition REPLACEMENT :: string where
  "REPLACEMENT = [CHR 0xEF, CHR 0xBF, CHR 0xBD]"

fun utf8_lossy :: "string \<Rightarrow> string" where
  "utf8_lossy [] = []"
| "utf8_lossy (c # s) =
     (if byte_in 0 0x7F c then c # utf8_lossy s
      else let k = tail_valid c s
           in (if tail_len c \<noteq> 0 \<and> k = tail_len c then c # take k s else REPLACEMENT) @ utf8_lossy (drop k s))"

definition from_utf8 :: "string \<Rightarrow> string option" where
  "from_utf8 s = (if utf8_lossy s = s then Some s else None)"

text \<open>\<open>str::find\<close> and \<open>str::split\<close> with a non-empty pattern.\<close>

fun find_sub :: "string \<Rightarrow> string \<Rightarrow> nat option" where
  "find_sub p [] = (if p = [] then Some 0 else None)"
| "find_sub p (c # s) = (if starts_with p (c # s) then Some 0 else map_option Suc (find_sub p s))"

lemma find_sub_length: "find_sub p s = Some n \<Longrightarrow> n + length p \<le> length s"
proof (induction s arbitrary: n)
  case (Cons c s)
  show ?case
  proof (cases "starts_with p (c # s)")
    case True
    then obtain t where "c # s = p @ t" by (auto simp: starts_with_def strip_prefix_Some)
    then have "length p \<le> length (c # s)" by simp
    with True Cons.prems show ?thesis by simp
  next
    case False
    with Cons.prems obtain m where "find_sub p s = Some m" "n = Suc m" by auto
    with Cons.IH show ?thesis by simp
  qed
qed (auto split: if_splits)

lemma find_sub_shorter: "p \<noteq> [] \<Longrightarrow> find_sub p s = Some n \<Longrightarrow> length s - (n + length p) < length s"
  using find_sub_length[of p s n] by (cases p) auto

function split_sub :: "string \<Rightarrow> string \<Rightarrow> string list" where
  "split_sub p s =
     (if p = [] then [s]
      else case find_sub p s of None \<Rightarrow> [s] | Some n \<Rightarrow> take n s # split_sub p (drop (n + length p) s))"
  by pat_completeness auto
termination
  by (relation "measure (\<lambda>(p, s). length s)") (auto intro: find_sub_shorter)

declare split_sub.simps [simp del]

section \<open>Sequoia\<close>

datatype sig_result = SigOk | SigMissingKey | SigBad

record 'c openpgp =
  sq_parse :: "string \<Rightarrow> (string, 'c) result"
  sq_tsk :: "'c \<Rightarrow> (string, string) result"
  sq_public :: "'c \<Rightarrow> (string, string) result"
  sq_armor :: "string \<Rightarrow> (string, string) result"
  sq_strip :: "'c \<Rightarrow> 'c"
  sq_fingerprint :: "'c \<Rightarrow> string"
  sq_userids :: "'c \<Rightarrow> string list"
  sq_generate :: "string \<Rightarrow> string \<Rightarrow> (string, 'c) result"
  sq_encryption_keys :: "'c \<Rightarrow> (string, string list) result"
  sq_signing_key :: "'c \<Rightarrow> (string, string option) result"
  sq_keypair :: "string \<Rightarrow> (string, string) result"
  sq_message :: "string \<Rightarrow> string list \<Rightarrow> string \<Rightarrow> string \<Rightarrow> (string, string) result"
  sq_decrypt :: "'c \<Rightarrow> 'c list \<Rightarrow> string \<Rightarrow> (string, string \<times> sig_result list) result"
  sq_sign :: "string \<Rightarrow> string \<Rightarrow> string \<Rightarrow> (string, string) result"
  sq_verify :: "'c \<Rightarrow> string \<Rightarrow> string \<Rightarrow> (string, sig_result list) result"

datatype pgp_error = OpenPgp string | PgpStorage storage_error | NoEncryptionKey string

definition openpgp_err :: "(string, 'a) result \<Rightarrow> (pgp_error, 'a) result" where
  "openpgp_err r = map_sum OpenPgp id r"

definition res_bind :: "('e, 'a) result \<Rightarrow> ('a \<Rightarrow> ('e, 'b) result) \<Rightarrow> ('e, 'b) result" where
  "res_bind r f = (case r of Inl e \<Rightarrow> Inl e | Inr a \<Rightarrow> f a)"

section \<open>Signing and sealing\<close>

text \<open>Every recipient, and the sender, needs an encryption key.\<close>

fun collect_keys :: "'c openpgp \<Rightarrow> 'c list \<Rightarrow> (pgp_error, string list) result" where
  "collect_keys sq [] = Inr []"
| "collect_keys sq (c # cs) = res_bind (openpgp_err (sq_encryption_keys sq c)) (\<lambda>ks.
     if ks = [] then Inl (NoEncryptionKey (sq_fingerprint sq c))
     else res_bind (collect_keys sq cs) (\<lambda>more. Inr (ks @ more)))"

definition signing_keypair :: "'c openpgp \<Rightarrow> string \<Rightarrow> 'c \<Rightarrow> (pgp_error, string) result" where
  "signing_keypair sq none_msg c = res_bind (openpgp_err (sq_signing_key sq c)) (\<lambda>k.
     case k of None \<Rightarrow> Inl (OpenPgp none_msg) | Some key \<Rightarrow> openpgp_err (sq_keypair sq key))"

definition encrypt_and_sign :: "'c openpgp \<Rightarrow> string \<Rightarrow> 'c \<Rightarrow> 'c list \<Rightarrow> string \<Rightarrow> (pgp_error, string) result" where
  "encrypt_and_sign sq entropy sender recipients plaintext =
     res_bind (collect_keys sq (recipients @ [sender])) (\<lambda>keys.
     res_bind (signing_keypair sq ''sender has no secret signing key'' sender) (\<lambda>kp.
     openpgp_err (sq_message sq entropy keys kp plaintext)))"

text \<open>The disposition of the signatures of a decrypted message.\<close>

fun check_signatures :: "string \<Rightarrow> sig_result list \<Rightarrow> string" where
  "check_signatures sig [] = sig"
| "check_signatures sig (SigOk # rs) = ''valid''"
| "check_signatures sig (SigMissingKey # rs) = check_signatures ''unknown_key'' rs"
| "check_signatures sig (SigBad # rs) = check_signatures (if sig = ''none'' then ''invalid'' else sig) rs"

definition decrypt_and_verify :: "'c openpgp \<Rightarrow> 'c \<Rightarrow> 'c option \<Rightarrow> string \<Rightarrow> (pgp_error, string \<times> string) result" where
  "decrypt_and_verify sq own sender ciphertext =
     res_bind (openpgp_err (sq_decrypt sq own (case sender of Some c \<Rightarrow> [c] | None \<Rightarrow> []) ciphertext)) (\<lambda>(plain, sigs).
     Inr (plain, check_signatures ''none'' sigs))"

definition sign_detached :: "'c openpgp \<Rightarrow> string \<Rightarrow> 'c \<Rightarrow> string \<Rightarrow> (pgp_error, string) result" where
  "sign_detached sq entropy signer msg =
     res_bind (signing_keypair sq ''signer has no secret signing key'' signer) (\<lambda>kp. openpgp_err (sq_sign sq entropy kp msg))"

definition verify_detached :: "'c openpgp \<Rightarrow> 'c \<Rightarrow> string \<Rightarrow> string \<Rightarrow> (pgp_error, bool) result" where
  "verify_detached sq signer msg sig =
     res_bind (openpgp_err (sq_verify sq signer msg sig)) (\<lambda>results. Inr (SigOk \<in> set results))"

definition seal_event :: "'c openpgp \<Rightarrow> string \<Rightarrow> 'c \<Rightarrow> 'c \<Rightarrow> string \<Rightarrow> (pgp_error, string) result" where
  "seal_event sq entropy author server plaintext = encrypt_and_sign sq entropy author [server] plaintext"

definition open_event :: "'c openpgp \<Rightarrow> 'c \<Rightarrow> 'c \<Rightarrow> string \<Rightarrow> (pgp_error, string) result" where
  "open_event sq server author ciphertext =
     res_bind (decrypt_and_verify sq server (Some author) ciphertext) (\<lambda>(plain, sig).
     if sig \<noteq> ''valid'' then Inl (OpenPgp (''federated event signature not valid: '' @ sig)) else Inr plain)"

section \<open>Certificates of accounts and of the server\<close>

record 'c pgp_env =
  pe_sq :: "'c openpgp"
  pe_ingest :: ingest_env
  pe_get_blob :: "string \<Rightarrow> (storage_error, string) result"
  pe_autocrypt :: "string \<Rightarrow> (string option \<times> string option) option"
  pe_b64_encode :: "string \<Rightarrow> string"
  pe_b64_decode :: "string \<Rightarrow> (string, string) result"
  pe_blake3 :: "string \<Rightarrow> string"
  pe_hex :: "string \<Rightarrow> string"

type_synonym 'a pgp_op = "db \<Rightarrow> (pgp_error, 'a) result \<times> db"

definition pgp_bind :: "'a pgp_op \<Rightarrow> ('a \<Rightarrow> 'b pgp_op) \<Rightarrow> 'b pgp_op" where
  "pgp_bind f g d = (case f d of (Inl e, d') \<Rightarrow> (Inl e, d') | (Inr a, d') \<Rightarrow> g a d')"

definition pgp_store :: "'a op \<Rightarrow> 'a pgp_op" where
  "pgp_store f d = (case f d of (Inl e, d') \<Rightarrow> (Inl (PgpStorage e), d') | (Inr a, d') \<Rightarrow> (Inr a, d'))"

definition pgp_pure :: "(pgp_error, 'a) result \<Rightarrow> 'a pgp_op" where
  "pgp_pure r d = (r, d)"

definition user_id :: "string \<Rightarrow> string option \<Rightarrow> string" where
  "user_id email display_name = (case display_name of Some n \<Rightarrow> n @ '' <'' @ email @ ''>'' | None \<Rightarrow> ''<'' @ email @ ''>'')"

definition generate_cert :: "'c openpgp \<Rightarrow> string \<Rightarrow> string \<Rightarrow> string option \<Rightarrow> (pgp_error, 'c) result" where
  "generate_cert sq entropy email display_name = openpgp_err (sq_generate sq entropy (user_id email display_name))"

definition load_cert :: "'c pgp_env \<Rightarrow> string \<Rightarrow> 'c pgp_op" where
  "load_cert env blob = pgp_pure (res_bind (map_sum PgpStorage id (pe_get_blob env blob)) (\<lambda>bytes.
     openpgp_err (sq_parse (pe_sq env) bytes)))"

definition store_cert :: "'c pgp_env \<Rightarrow> int \<Rightarrow> 'c \<Rightarrow> string pgp_op" where
  "store_cert env now c = pgp_bind (pgp_pure (openpgp_err (sq_tsk (pe_sq env) c))) (\<lambda>bytes.
     pgp_store (put_blob (pe_ingest env) now bytes))"

definition own_cert :: "'c pgp_env \<Rightarrow> int \<Rightarrow> string \<Rightarrow> string \<Rightarrow> 'c pgp_op" where
  "own_cert env now entropy acct = pgp_bind (pgp_store (pgp_own_key acct)) (\<lambda>k.
     case k of
       Some (_, blob) \<Rightarrow> load_cert env blob
     | None \<Rightarrow> pgp_bind (pgp_store (account acct)) (\<lambda>a.
         case a of
           None \<Rightarrow> pgp_pure (Inl (OpenPgp ''no such account''))
         | Some a \<Rightarrow> pgp_bind (pgp_pure (generate_cert (pe_sq env) entropy (a_email a) (a_display_name a))) (\<lambda>c.
             pgp_bind (store_cert env now c) (\<lambda>blob.
             pgp_bind (pgp_store (set_pgp_own_key now acct (sq_fingerprint (pe_sq env) c) blob)) (\<lambda>_. pgp_pure (Inr c))))))"

definition public_armored :: "'c openpgp \<Rightarrow> 'c \<Rightarrow> (pgp_error, string) result" where
  "public_armored sq c = res_bind (openpgp_err (sq_public sq c)) (\<lambda>bytes. openpgp_err (sq_armor sq bytes))"

definition public_der :: "'c openpgp \<Rightarrow> 'c \<Rightarrow> (pgp_error, string) result" where
  "public_der sq c = openpgp_err (sq_public sq c)"

section \<open>Autocrypt\<close>

definition autocrypt_header :: "'c pgp_env \<Rightarrow> string \<Rightarrow> 'c \<Rightarrow> bool \<Rightarrow> (pgp_error, string) result" where
  "autocrypt_header env email c mutual = res_bind (public_der (pe_sq env) c) (\<lambda>der.
     Inr (''addr='' @ email @ ''; '' @ (if mutual then ''prefer-encrypt=mutual; '' else []) @ ''keydata='' @ pe_b64_encode env der))"

record autocrypt_fields =
  af_addr :: "string option"
  af_prefer_encrypt :: "string option"
  af_keydata :: "string option"

fun parse_attributes :: "string list \<Rightarrow> autocrypt_fields \<Rightarrow> (pgp_error, autocrypt_fields) result" where
  "parse_attributes [] f = Inr f"
| "parse_attributes (a # as) f =
     (case split_once (CHR ''='') a of
        None \<Rightarrow> parse_attributes as f
      | Some (key, val) \<Rightarrow>
          (let k = trim key
           in if k = ''addr'' then parse_attributes as (f\<lparr>af_addr := Some (to_lowercase (trim val))\<rparr>)
              else if k = ''prefer-encrypt'' then parse_attributes as (f\<lparr>af_prefer_encrypt := Some (trim val)\<rparr>)
              else if k = ''keydata'' then parse_attributes as (f\<lparr>af_keydata := Some (filter (\<lambda>c. \<not> is_space c) val)\<rparr>)
              else if \<not> starts_with ''_'' k \<and> k \<noteq> [] then Inl (OpenPgp (''unknown critical autocrypt attribute '' @ k))
              else parse_attributes as f))"

record 'c parsed_header =
  ph_addr :: string
  ph_prefer_encrypt :: "string option"
  ph_cert :: 'c

definition parse_header :: "'c pgp_env \<Rightarrow> string \<Rightarrow> (pgp_error, 'c parsed_header) result" where
  "parse_header env s =
     res_bind (parse_attributes (split_on (CHR '';'') s) \<lparr>af_addr = None, af_prefer_encrypt = None, af_keydata = None\<rparr>) (\<lambda>f.
     case af_addr f of
       None \<Rightarrow> Inl (OpenPgp ''autocrypt: no addr'')
     | Some addr \<Rightarrow>
         (case af_keydata f of
            None \<Rightarrow> Inl (OpenPgp ''autocrypt: no keydata'')
          | Some kd \<Rightarrow>
              (case pe_b64_decode env kd of
                 Inl e \<Rightarrow> Inl (OpenPgp (''autocrypt keydata: '' @ e))
               | Inr der \<Rightarrow> res_bind (openpgp_err (sq_parse (pe_sq env) der)) (\<lambda>c.
                   Inr \<lparr>ph_addr = addr, ph_prefer_encrypt = af_prefer_encrypt f, ph_cert = c\<rparr>))))"

section \<open>The mail pipeline\<close>

definition KEEP_HEADERS :: "string list" where
  "KEEP_HEADERS = [''from:'', ''to:'', ''cc:'', ''subject:'', ''date:'', ''message-id:'', ''references:'']"

definition TAB :: char where "TAB = CHR 0x09"

fun keep_lines :: "bool \<Rightarrow> string list \<Rightarrow> string" where
  "keep_lines keeping [] = []"
| "keep_lines keeping (l # ls) =
     (if starts_with '' '' l \<or> starts_with [TAB] l
      then (if keeping then l @ CRLF else []) @ keep_lines keeping ls
      else let k = (\<exists>p \<in> set KEEP_HEADERS. starts_with p (to_lowercase l))
           in (if k then l @ CRLF else []) @ keep_lines k ls)"

definition copy_routing_headers :: "string \<Rightarrow> string" where
  "copy_routing_headers raw = keep_lines False (split_sub CRLF (hd (split_sub (CRLF @ CRLF) (utf8_lossy raw))))"

definition prepend_header :: "string \<Rightarrow> string \<Rightarrow> string \<Rightarrow> string" where
  "prepend_header raw name v = name @ '': '' @ v @ CRLF @ raw"

definition extract_armored :: "string \<Rightarrow> string option" where
  "extract_armored raw =
     (let text = utf8_lossy raw; fin = ''-----END PGP MESSAGE-----''
      in case find_sub ''-----BEGIN PGP MESSAGE-----'' text of
           None \<Rightarrow> None
         | Some start \<Rightarrow>
             (case find_sub fin (drop start text) of
                None \<Rightarrow> None
              | Some n \<Rightarrow> Some (take (n + length fin) (drop start text))))"

definition encrypt_pgp_mime :: "'c pgp_env \<Rightarrow> string \<Rightarrow> 'c \<Rightarrow> 'c list \<Rightarrow> string \<Rightarrow> string \<Rightarrow> (pgp_error, string) result" where
  "encrypt_pgp_mime env entropy sender recipients ac raw =
     res_bind (encrypt_and_sign (pe_sq env) entropy sender recipients raw) (\<lambda>ciphertext.
     case from_utf8 ciphertext of
       None \<Rightarrow> Inl (OpenPgp ''invalid utf-8'')
     | Some armored \<Rightarrow>
         (let boundary = ''pgpmime-'' @ pe_hex env (pe_blake3 env raw)
          in Inr (copy_routing_headers raw @ ''Autocrypt: '' @ ac @ CRLF @
               ''MIME-Version: 1.0'' @ CRLF @
               ''Content-Type: multipart/encrypted; protocol=\"application/pgp-encrypted\";'' @ CRLF @
               [TAB] @ ''boundary=\"'' @ boundary @ ''\"'' @ CRLF @ CRLF @
               ''--'' @ boundary @ CRLF @
               ''Content-Type: application/pgp-encrypted'' @ CRLF @ CRLF @
               ''Version: 1'' @ CRLF @
               ''--'' @ boundary @ CRLF @
               ''Content-Type: application/octet-stream; name=\"encrypted.asc\"'' @ CRLF @ CRLF @
               armored @ CRLF @
               ''--'' @ boundary @ ''--'' @ CRLF)))"

text \<open>The keys of all recipients; no list at all when one has none, or an unreadable one.\<close>

fun recipient_certs :: "'c pgp_env \<Rightarrow> string \<Rightarrow> string list \<Rightarrow> 'c list pgp_op" where
  "recipient_certs env acct [] = pgp_pure (Inr [])"
| "recipient_certs env acct (r # rs) = pgp_bind (pgp_store (pgp_peer acct r)) (\<lambda>p.
     case p of
       None \<Rightarrow> pgp_pure (Inr [])
     | Some peer \<Rightarrow>
         (case sq_parse (pe_sq env) (pp_cert peer) of
            Inl _ \<Rightarrow> pgp_pure (Inr [])
          | Inr c \<Rightarrow> pgp_bind (recipient_certs env acct rs) (\<lambda>cs.
              pgp_pure (Inr (if length cs = length rs then c # cs else [])))))"

definition outbound :: "'c pgp_env \<Rightarrow> int \<Rightarrow> string \<Rightarrow> string \<Rightarrow> string \<Rightarrow> string list \<Rightarrow> string \<Rightarrow> string pgp_op" where
  "outbound env now entropy acct mail_from recipients raw =
     pgp_bind (own_cert env now entropy acct) (\<lambda>c.
     pgp_bind (pgp_pure (autocrypt_header env mail_from c True)) (\<lambda>ac.
     pgp_bind (recipient_certs env acct recipients) (\<lambda>certs.
     pgp_pure (Inr (
       if length certs = length recipients \<and> recipients \<noteq> []
       then (case encrypt_pgp_mime env entropy c certs ac raw of
               Inr encrypted \<Rightarrow> encrypted
             | Inl _ \<Rightarrow> prepend_header raw ''Autocrypt'' ac)
       else prepend_header raw ''Autocrypt'' ac)))))"

record inbound_outcome =
  io_raw :: string
  io_pgp_status :: "string option"
  io_key_changes :: "string list"

text \<open>Harvesting: the sender's certificate and the changed addresses.\<close>

definition harvest :: "'c pgp_env \<Rightarrow> int \<Rightarrow> string \<Rightarrow> string \<Rightarrow> (string option \<times> 'c option \<times> string list) pgp_op" where
  "harvest env now acct raw =
     (case pe_autocrypt env raw of
        None \<Rightarrow> pgp_pure (Inr (None, None, []))
      | Some (from, None) \<Rightarrow> pgp_pure (Inr (from, None, []))
      | Some (from, Some v) \<Rightarrow>
          (case parse_header env v of
             Inl _ \<Rightarrow> pgp_pure (Inr (from, None, []))
           | Inr h \<Rightarrow>
               if from = Some (ph_addr h)
               then pgp_bind (pgp_pure (public_der (pe_sq env) (ph_cert h))) (\<lambda>der.
                    pgp_bind (pgp_store (upsert_pgp_peer now acct (ph_addr h) der
                                 (sq_fingerprint (pe_sq env) (ph_cert h)) (ph_prefer_encrypt h))) (\<lambda>changed.
                    pgp_pure (Inr (from, Some (ph_cert h), if changed then [ph_addr h] else []))))
               else pgp_pure (Inr (from, None, []))))"

definition known_sender :: "'c pgp_env \<Rightarrow> string \<Rightarrow> string option \<Rightarrow> 'c option \<Rightarrow> 'c option pgp_op" where
  "known_sender env acct from sender =
     (case (sender, from) of
        (None, Some addr) \<Rightarrow> pgp_bind (pgp_store (pgp_peer acct addr)) (\<lambda>p.
           pgp_pure (Inr (case p of
             None \<Rightarrow> None
           | Some peer \<Rightarrow> (case sq_parse (pe_sq env) (pp_cert peer) of Inl _ \<Rightarrow> None | Inr c \<Rightarrow> Some c))))
      | _ \<Rightarrow> pgp_pure (Inr sender))"

definition inbound :: "'c pgp_env \<Rightarrow> int \<Rightarrow> string \<Rightarrow> string \<Rightarrow> string \<Rightarrow> inbound_outcome pgp_op" where
  "inbound env now entropy acct raw =
     pgp_bind (harvest env now acct raw) (\<lambda>(from, sender, changes).
     case extract_armored raw of
       None \<Rightarrow> pgp_pure (Inr \<lparr>io_raw = raw, io_pgp_status = None, io_key_changes = changes\<rparr>)
     | Some armored \<Rightarrow>
         pgp_bind (known_sender env acct from sender) (\<lambda>sender.
         pgp_bind (own_cert env now entropy acct) (\<lambda>own.
         case decrypt_and_verify (pe_sq env) own sender armored of
           Inr (plain, sig) \<Rightarrow> pgp_bind (pgp_store (put_blob (pe_ingest env) now raw)) (\<lambda>blob.
             pgp_pure (Inr \<lparr>io_raw = plain,
               io_pgp_status = Some (''{\"encrypted\":true,\"signature\":\"'' @ sig @ ''\",\"original_blob\":\"'' @ blob @ ''\"}''),
               io_key_changes = changes\<rparr>))
         | Inl _ \<Rightarrow> pgp_pure (Inr \<lparr>io_raw = raw,
               io_pgp_status = Some ''{\"encrypted\":true,\"signature\":\"none\",\"undecryptable\":true}'',
               io_key_changes = changes\<rparr>))))"

section \<open>What keys and the pipelines leave alone\<close>

definition pgp_keeps :: "(db \<Rightarrow> 'v) \<Rightarrow> 'a pgp_op \<Rightarrow> bool" where
  "pgp_keeps view f \<longleftrightarrow> (\<forall>d. view (snd (f d)) = view d)"

lemma pgp_keepsD: "pgp_keeps view f \<Longrightarrow> f d = (r, d') \<Longrightarrow> view d' = view d"
  by (metis pgp_keeps_def snd_conv)

lemma pgp_keeps_bind: "pgp_keeps view f \<Longrightarrow> (\<And>a. pgp_keeps view (g a)) \<Longrightarrow> pgp_keeps view (pgp_bind f g)"
  unfolding pgp_keeps_def pgp_bind_def by (auto split: prod.splits sum.splits) (metis snd_conv)+

lemma pgp_keeps_pure: "pgp_keeps view (pgp_pure r)"
  by (simp add: pgp_keeps_def pgp_pure_def)

lemma pgp_keeps_store: "keeps view f \<Longrightarrow> pgp_keeps view (pgp_store f)"
  unfolding pgp_keeps_def pgp_store_def by (auto split: prod.splits sum.splits dest: keepsD)

text \<open>Views that look neither at keys nor at blobs.\<close>

locale key_free = db_view view for view :: "db \<Rightarrow> 'v" +
  assumes key_tables: "view (d\<lparr>blobs := x1\<rparr>) = view d" "view (d\<lparr>pgp_own_keys := x2\<rparr>) = view d" "view (d\<lparr>pgp_peers := x3\<rparr>) = view d"
begin

lemma keeps_put_blob: "keeps view (put_blob env now raw)"
  by (auto simp: keeps_def put_blob_def op_defs db_call_def view_faults key_tables
      split: sum.splits option.splits prod.splits list.splits if_splits)

lemma key_ops:
  "keeps view (pgp_own_key acct)" "keeps view (account acct)" "keeps view (set_pgp_own_key now acct fp blob)"
  "keeps view (upsert_pgp_peer now acct addr der fp pref)" "keeps view (pgp_peer acct addr)"
  unfolding pgp_own_key_def account_def set_pgp_own_key_def upsert_pgp_peer_def pgp_peer_def
  by (rule keeps_call, simp add: keeps_def key_tables Let_def)+

lemmas pgp_intros = pgp_keeps_bind pgp_keeps_pure pgp_keeps_store key_ops keeps_put_blob

lemma keeps_store_cert: "pgp_keeps view (store_cert env now c)"
  unfolding store_cert_def by (intro pgp_intros)

lemma keeps_load_cert: "pgp_keeps view (load_cert env blob)"
  unfolding load_cert_def by (intro pgp_intros)

lemma keeps_own_cert: "pgp_keeps view (own_cert env now entropy acct)"
  unfolding own_cert_def
  by (auto intro!: pgp_intros keeps_store_cert keeps_load_cert split: option.splits)

lemma keeps_harvest: "pgp_keeps view (harvest env now acct raw)"
  unfolding harvest_def by (auto intro!: pgp_intros split: option.splits sum.splits)

lemma keeps_inbound: "pgp_keeps view (inbound env now entropy acct raw)"
  unfolding inbound_def known_sender_def
  by (auto intro!: pgp_intros keeps_harvest keeps_own_cert split: option.splits sum.splits)

end

end
