(* ===== verification/Fed_Sig.thy ===== *)
theory Fed_Sig
  imports Fed_Store Pgp Json "HOL-Library.Word"
begin

text \<open>
  \<open>crates/owney-api/src/fed_sig.rs\<close>: signed requests between servers. The sender signs a canonical string of
  the request; the receiver checks it against the pinned certificate of the claimed sender, within a window of
  time, and records the nonce. The URL parser, name resolution and the JSON text format are parameters (record
  \<open>fed_env\<close>, over Sequoia's type of certificates). Clock readings are arguments; subtraction of times wraps as
  in the release build.
\<close>

unbundle bit_operations_syntax

section \<open>Definitions\<close>

datatype ip_addr =
    V4 "8 word" "8 word" "8 word" "8 word"
  | V6 "16 word" "16 word" "16 word" "16 word" "16 word" "16 word" "16 word" "16 word"

record url =
  u_scheme :: string
  u_username :: string
  u_password :: "string option"
  u_host :: "string option"
  u_port_or_default :: "nat option"
  u_path :: string
  u_query :: "string option"
  u_query_pairs :: "(string \<times> string) list"

record fed_config =
  fc_enabled :: bool
  fc_allow_private_ips :: bool
  fc_url_overrides :: "string \<Rightarrow> string option"
  fc_allowlist :: "string list option"

record 'c fed_env =
  fe_pgp :: "'c pgp_env"
  fe_parse_url :: "string \<Rightarrow> url option"
  fe_lookup_host :: "string \<Rightarrow> nat \<Rightarrow> ip_addr list option"
  fe_json_text :: "json \<Rightarrow> string"
  fe_json_parse :: "string \<Rightarrow> json option"
  fe_url_encode :: "string \<Rightarrow> string"
  fe_public_url :: string
  fe_config :: fed_config

abbreviation fe_sq :: "'c fed_env \<Rightarrow> 'c openpgp" where
  "fe_sq env \<equiv> pe_sq (fe_pgp env)"

definition SIG_VERSION :: string where "SIG_VERSION = ''1''"
definition TIMESTAMP_SKEW_SECS :: int where "TIMESTAMP_SKEW_SECS = 300"
definition H_VERSION :: string where "H_VERSION = ''x-owney-sig-version''"
definition H_SERVER :: string where "H_SERVER = ''x-owney-server''"
definition H_TIMESTAMP :: string where "H_TIMESTAMP = ''x-owney-timestamp''"
definition H_NONCE :: string where "H_NONCE = ''x-owney-nonce''"
definition H_SIGNATURE :: string where "H_SIGNATURE = ''x-owney-signature''"
definition H_CAPABILITY :: string where "H_CAPABILITY = ''x-owney-capability''"

lemmas header_names = H_VERSION_def H_SERVER_def H_TIMESTAMP_def H_NONCE_def H_SIGNATURE_def H_CAPABILITY_def

text \<open>The environment variables are arguments: \<open>None\<close> when a variable is unset. Later entries of a hash map win.\<close>

definition env_flag :: "string option \<Rightarrow> bool" where
  "env_flag v = (v = Some ''true'' \<or> v = Some ''1'')"

definition parse_url_overrides :: "string option \<Rightarrow> string \<Rightarrow> string option" where
  "parse_url_overrides v =
     (case v of
        None \<Rightarrow> (\<lambda>_. None)
      | Some raw \<Rightarrow> map_of (rev (map (\<lambda>(d, u). (to_lowercase (trim d), trim u))
                      (List.map_filter (split_once (CHR ''='')) (split_on (CHR '','') raw)))))"

definition config_from_env :: "string option \<Rightarrow> string option \<Rightarrow> string option \<Rightarrow> string option \<Rightarrow> fed_config" where
  "config_from_env enabled private_ips overrides allowlist =
     \<lparr>fc_enabled = env_flag enabled, fc_allow_private_ips = env_flag private_ips,
      fc_url_overrides = parse_url_overrides overrides,
      fc_allowlist = (case allowlist of
         None \<Rightarrow> None
       | Some s \<Rightarrow> if trim s = [] then None else Some (map (\<lambda>d. to_lowercase (trim d)) (split_on (CHR '','') s)))\<rparr>"

definition domain_allowed :: "fed_config \<Rightarrow> string \<Rightarrow> bool" where
  "domain_allowed cfg domain = (case fc_allowlist cfg of Some l \<Rightarrow> contact_of domain \<in> set l | None \<Rightarrow> True)"

definition canonical_string :: "'c fed_env \<Rightarrow> string \<Rightarrow> string \<Rightarrow> string \<Rightarrow> string \<Rightarrow> int \<Rightarrow> string \<Rightarrow> string \<Rightarrow> string" where
  "canonical_string env method path sender receiver timestamp nonce body =
     join [LF] [''owney-fed-v'' @ SIG_VERSION, to_uppercase method, path, sender, receiver, show_int timestamp, nonce,
                pe_b64_encode (fe_pgp env) (pe_blake3 (fe_pgp env) body)]"

record verified_peer =
  vp_domain :: string
  vp_fingerprint :: string

datatype rejection = MissingSignature | UnknownPeer | BadSignature | StaleTimestamp | Replay | Malformed

fun rejection_status :: "rejection \<Rightarrow> nat" where
  "rejection_status MissingSignature = 401"
| "rejection_status BadSignature = 401"
| "rejection_status UnknownPeer = 401"
| "rejection_status StaleTimestamp = 400"
| "rejection_status Replay = 400"
| "rejection_status Malformed = 400"

fun rejection_str :: "rejection \<Rightarrow> string" where
  "rejection_str MissingSignature = ''missing signature''"
| "rejection_str UnknownPeer = ''unknown peer''"
| "rejection_str BadSignature = ''bad signature''"
| "rejection_str StaleTimestamp = ''stale timestamp''"
| "rejection_str Replay = ''replay''"
| "rejection_str Malformed = ''malformed''"

text \<open>A header map, names in lower case; \<open>to_str\<close> accepts visible ASCII, space and tab.\<close>

type_synonym headers = "(string \<times> string) list"

definition visible :: "char \<Rightarrow> bool" where
  "visible c \<longleftrightarrow> byte_in 32 126 c \<or> c = TAB"

definition header :: "headers \<Rightarrow> string \<Rightarrow> string option" where
  "header hs name = (case map_of hs name of Some v \<Rightarrow> if list_all visible v then Some v else None | None \<Rightarrow> None)"

text \<open>Signed 64-bit arithmetic of the release build, and \<open>str::parse::<i64>\<close>.\<close>

definition wrap_i64 :: "int \<Rightarrow> int" where
  "wrap_i64 i = (i + 2 ^ 63) mod 2 ^ 64 - 2 ^ 63"

definition parse_i64 :: "string \<Rightarrow> int option" where
  "parse_i64 s =
     (let (neg, t) = (case s of c # r \<Rightarrow> if c = CHR ''-'' then (True, r) else if c = CHR ''+'' then (False, r) else (False, s)
                                | [] \<Rightarrow> (False, []))
      in if t = [] then None
         else case digits_val 0 t of
                None \<Rightarrow> None
              | Some n \<Rightarrow> (let i = (if neg then - int n else int n) in if - (2 ^ 63) \<le> i \<and> i < 2 ^ 63 then Some i else None))"

definition timestamp_fresh :: "int \<Rightarrow> int \<Rightarrow> bool" where
  "timestamp_fresh now timestamp \<longleftrightarrow> \<not> wrap_i64 \<bar>wrap_i64 (now - timestamp)\<bar> > TIMESTAMP_SKEW_SECS"

definition host_of :: "'c fed_env \<Rightarrow> string \<Rightarrow> string" where
  "host_of env u = (case fe_parse_url env u of
     Some p \<Rightarrow> (case u_host p of Some h \<Rightarrow> h | None \<Rightarrow> u) | None \<Rightarrow> u)"

definition ok_or :: "'e \<Rightarrow> 'a option \<Rightarrow> ('e, 'a) result" where
  "ok_or e v = (case v of Some a \<Rightarrow> Inr a | None \<Rightarrow> Inl e)"

record signed_fields =
  sf_sender :: string
  sf_timestamp :: int
  sf_nonce :: string
  sf_signature :: string

text \<open>Reading the headers, up to the check of freshness.\<close>

definition signed_fields_of :: "'c fed_env \<Rightarrow> int \<Rightarrow> headers \<Rightarrow> (rejection, signed_fields) result" where
  "signed_fields_of env now hs =
     res_bind (ok_or MissingSignature (header hs H_VERSION)) (\<lambda>version.
     if version \<noteq> SIG_VERSION then Inl Malformed else
     res_bind (ok_or MissingSignature (header hs H_SERVER)) (\<lambda>server.
     res_bind (ok_or Malformed (Option.bind (header hs H_TIMESTAMP) parse_i64)) (\<lambda>timestamp.
     res_bind (ok_or MissingSignature (header hs H_NONCE)) (\<lambda>nonce.
     res_bind (ok_or MissingSignature (header hs H_SIGNATURE)) (\<lambda>sig_b64.
     res_bind (map_sum (\<lambda>_. Malformed) id (pe_b64_decode (fe_pgp env) sig_b64)) (\<lambda>sig.
     if \<not> timestamp_fresh now timestamp then Inl StaleTimestamp
     else Inr \<lparr>sf_sender = to_lowercase (trim server), sf_timestamp = timestamp, sf_nonce = nonce, sf_signature = sig\<rparr>))))))"

text \<open>The signature is valid for the request under a certificate that parses.\<close>

definition signature_check :: "'c fed_env \<Rightarrow> string \<Rightarrow> string \<Rightarrow> string \<Rightarrow> signed_fields \<Rightarrow> peer_row \<Rightarrow> (rejection, unit) result" where
  "signature_check env method path body sf peer =
     res_bind (map_sum (\<lambda>_. UnknownPeer) id (sq_parse (fe_sq env) (pr_cert peer))) (\<lambda>cert.
     if verify_detached (fe_sq env) cert
          (canonical_string env method path (sf_sender sf) (host_of env (fe_public_url env)) (sf_timestamp sf) (sf_nonce sf) body)
          (sf_signature sf) = Inr True
     then Inr () else Inl BadSignature)"

definition record_request :: "int \<Rightarrow> signed_fields \<Rightarrow> peer_row \<Rightarrow> db \<Rightarrow> (rejection, verified_peer) result \<times> db" where
  "record_request now sf peer d =
     (case check_and_record_nonce (pr_fingerprint peer) (sf_nonce sf) (now + TIMESTAMP_SKEW_SECS) d of
        (Inl _, d1) \<Rightarrow> (Inl Malformed, d1)
      | (Inr fresh, d1) \<Rightarrow>
          (if fresh then Inr \<lparr>vp_domain = sf_sender sf, vp_fingerprint = pr_fingerprint peer\<rparr> else Inl Replay, d1))"

text \<open>The whole check; the clock is read before the freshness check and again for the expiry of the nonce.\<close>

definition verify_request :: "'c fed_env \<Rightarrow> int \<Rightarrow> int \<Rightarrow> string \<Rightarrow> string \<Rightarrow> headers \<Rightarrow> string \<Rightarrow>
    db \<Rightarrow> (rejection, verified_peer) result \<times> db" where
  "verify_request env now now' method path hs body d =
     (case signed_fields_of env now hs of
        Inl r \<Rightarrow> (Inl r, d)
      | Inr sf \<Rightarrow>
          (case federation_peer (sf_sender sf) d of
             (Inl _, d1) \<Rightarrow> (Inl Malformed, d1)
           | (Inr None, d1) \<Rightarrow> (Inl UnknownPeer, d1)
           | (Inr (Some peer), d1) \<Rightarrow>
               (case signature_check env method path body sf peer of
                  Inl r \<Rightarrow> (Inl r, d1)
                | Inr _ \<Rightarrow> record_request now' sf peer d1)))"

text \<open>The path and query that are signed.\<close>

definition sort_pairs :: "(string \<times> string) list \<Rightarrow> (string \<times> string) list" where
  "sort_pairs ps = sort_key fst (sort_key snd ps)"

definition canonical_path :: "url \<Rightarrow> string" where
  "canonical_path u =
     (let pairs = sort_pairs (u_query_pairs u)
      in if pairs = [] then u_path u
         else u_path u @ ''?'' @ join ''&'' (map (\<lambda>(k, v). k @ ''='' @ v) pairs))"

definition canonical_path_str :: "'c fed_env \<Rightarrow> string \<Rightarrow> string" where
  "canonical_path_str env s = (case fe_parse_url env (''http://placeholder'' @ s) of Some u \<Rightarrow> canonical_path u | None \<Rightarrow> s)"

text \<open>\<open>IpAddr\<close>: the classes of \<open>std::net\<close> and the guard of the client.\<close>

definition is_private_v4 :: "8 word \<Rightarrow> 8 word \<Rightarrow> 8 word \<Rightarrow> 8 word \<Rightarrow> bool" where
  "is_private_v4 a b c d \<longleftrightarrow>
     (a = 10 \<or> a = 172 \<and> b AND 0xF0 = 16 \<or> a = 192 \<and> b = 168) \<or>
     a = 127 \<or>
     (a = 169 \<and> b = 254) \<or>
     (a = 255 \<and> b = 255 \<and> c = 255 \<and> d = 255) \<or>
     (a = 0 \<and> b = 0 \<and> c = 0 \<and> d = 0) \<or>
     (a = 192 \<and> b = 0 \<and> c = 2 \<or> a = 198 \<and> b = 51 \<and> c = 100 \<or> a = 203 \<and> b = 0 \<and> c = 113) \<or>
     (a = 100 \<and> b AND 0xC0 = 0x40)"

definition is_private_v6 :: "16 word \<Rightarrow> 16 word \<Rightarrow> 16 word \<Rightarrow> 16 word \<Rightarrow> 16 word \<Rightarrow> 16 word \<Rightarrow> 16 word \<Rightarrow> 16 word \<Rightarrow> bool" where
  "is_private_v6 s0 s1 s2 s3 s4 s5 s6 s7 \<longleftrightarrow>
     (s0 = 0 \<and> s1 = 0 \<and> s2 = 0 \<and> s3 = 0 \<and> s4 = 0 \<and> s5 = 0 \<and> s6 = 0 \<and> s7 = 1) \<or>
     (s0 = 0 \<and> s1 = 0 \<and> s2 = 0 \<and> s3 = 0 \<and> s4 = 0 \<and> s5 = 0 \<and> s6 = 0 \<and> s7 = 0) \<or>
     s0 AND 0xFE00 = 0xFC00 \<or>
     s0 AND 0xFFC0 = 0xFE80 \<or>
     (s0 = 0 \<and> s1 = 0 \<and> s2 = 0 \<and> s3 = 0 \<and> s4 = 0 \<and> s5 = 0xFFFF \<and>
      is_private_v4 (ucast (drop_bit 8 s6)) (ucast s6) (ucast (drop_bit 8 s7)) (ucast s7))"

fun is_private :: "ip_addr \<Rightarrow> bool" where
  "is_private (V4 a b c d) = is_private_v4 a b c d"
| "is_private (V6 s0 s1 s2 s3 s4 s5 s6 s7) = is_private_v6 s0 s1 s2 s3 s4 s5 s6 s7"

datatype client_error = BadUrl | Blocked string | Sign pgp_error | Network string

definition guard_url :: "'c fed_env \<Rightarrow> url \<Rightarrow> bool \<Rightarrow> (client_error, unit) result" where
  "guard_url env u allow_private =
     (if u_scheme u \<noteq> ''https'' \<and> \<not> (allow_private \<and> u_scheme u = ''http'') then Inl (Blocked ''non-https url'')
      else if u_username u \<noteq> [] \<or> u_password u \<noteq> None then Inl (Blocked ''url has credentials'')
      else if allow_private then Inr ()
      else case u_host u of
             None \<Rightarrow> Inl BadUrl
           | Some host \<Rightarrow>
               (case fe_lookup_host env host (case u_port_or_default u of Some p \<Rightarrow> p | None \<Rightarrow> 443) of
                  None \<Rightarrow> Inl (Blocked ''dns resolution failed'')
                | Some addrs \<Rightarrow>
                    if \<exists>a \<in> set addrs. is_private a then Inl (Blocked ''private address'')
                    else if addrs = [] then Inl (Blocked ''no address'')
                    else Inr ()))"

text \<open>The client. What the network answers, and what becomes of it, is a state passed along (\<open>'w\<close>).\<close>

record http_request =
  rq_method :: string
  rq_url :: url
  rq_headers :: headers
  rq_body :: string

record http_response =
  rs_status :: nat
  rs_body :: string

type_synonym 'w net = "http_request \<Rightarrow> 'w \<Rightarrow> (string, http_response) result \<times> 'w"

record 'c client =
  cl_server_cert :: 'c
  cl_our_domain :: string

definition is_success :: "nat \<Rightarrow> bool" where
  "is_success s \<longleftrightarrow> 200 \<le> s \<and> s < 300"

definition override_target :: "'c fed_env \<Rightarrow> url \<Rightarrow> (client_error, url) result" where
  "override_target env u =
     (case fc_url_overrides (fe_config env) (to_lowercase (case u_host u of Some h \<Rightarrow> h | None \<Rightarrow> [])) of
        Some base \<Rightarrow>
          (case fe_parse_url env (trim_end_matches (CHR ''/'') base @ u_path u @
                 (case u_query u of Some q \<Rightarrow> ''?'' @ q | None \<Rightarrow> [])) of
             Some t \<Rightarrow> Inr t | None \<Rightarrow> Inl BadUrl)
      | None \<Rightarrow> Inr u)"

definition on_net :: "(string, http_response) result \<times> 'w \<Rightarrow> (client_error, http_response) result \<times> 'w" where
  "on_net r = (case r of (Inl e, w) \<Rightarrow> (Inl (Network e), w) | (Inr x, w) \<Rightarrow> (Inr x, w))"

definition get_unsigned :: "'c fed_env \<Rightarrow> 'w net \<Rightarrow> string \<Rightarrow> 'w \<Rightarrow> (client_error, http_response) result \<times> 'w" where
  "get_unsigned env net u w =
     (case fe_parse_url env u of
        None \<Rightarrow> (Inl BadUrl, w)
      | Some p \<Rightarrow>
          (case res_bind (override_target env p) (\<lambda>t. res_bind (guard_url env t (fc_allow_private_ips (fe_config env))) (\<lambda>_. Inr t)) of
             Inl e \<Rightarrow> (Inl e, w)
           | Inr t \<Rightarrow> on_net (net \<lparr>rq_method = ''GET'', rq_url = t, rq_headers = [], rq_body = []\<rparr> w)))"

record send_random =
  sr_nonce :: string
  sr_entropy :: string

definition signed_headers :: "'c fed_env \<Rightarrow> 'c client \<Rightarrow> int \<Rightarrow> send_random \<Rightarrow> string \<Rightarrow> string option \<Rightarrow> string \<Rightarrow> headers" where
  "signed_headers env cl now rnd sig capability body =
     [(H_VERSION, SIG_VERSION), (H_SERVER, cl_our_domain cl), (H_TIMESTAMP, show_int now), (H_NONCE, sr_nonce rnd),
      (H_SIGNATURE, pe_b64_encode (fe_pgp env) sig)] @
     (case capability of Some c \<Rightarrow> [(H_CAPABILITY, c)] | None \<Rightarrow> []) @
     (if body = [] then [] else [(''content-type'', ''application/json'')])"

definition send :: "'c fed_env \<Rightarrow> 'w net \<Rightarrow> 'c client \<Rightarrow> int \<Rightarrow> send_random \<Rightarrow> string \<Rightarrow> string \<Rightarrow> string \<Rightarrow> string \<Rightarrow> string option \<Rightarrow>
    'w \<Rightarrow> (client_error, http_response) result \<times> 'w" where
  "send env net cl now rnd method u receiver body capability w =
     (case fe_parse_url env u of
        None \<Rightarrow> (Inl BadUrl, w)
      | Some p \<Rightarrow>
          (case res_bind (override_target env p) (\<lambda>t. res_bind (guard_url env t (fc_allow_private_ips (fe_config env))) (\<lambda>_. Inr t)) of
             Inl e \<Rightarrow> (Inl e, w)
           | Inr t \<Rightarrow>
               (case sign_detached (fe_sq env) (sr_entropy rnd) (cl_server_cert cl)
                       (canonical_string env method (canonical_path p) (cl_our_domain cl) receiver now (sr_nonce rnd) body) of
                  Inl e \<Rightarrow> (Inl (Sign e), w)
                | Inr sig \<Rightarrow>
                    if method \<noteq> ''GET'' \<and> method \<noteq> ''POST'' then (Inl BadUrl, w)
                    else on_net (net \<lparr>rq_method = method, rq_url = t,
                           rq_headers = signed_headers env cl now rnd sig capability body,
                           rq_body = (if method = ''GET'' then [] else body)\<rparr> w))))"

definition get_capable :: "'c fed_env \<Rightarrow> 'w net \<Rightarrow> 'c client \<Rightarrow> int \<Rightarrow> send_random \<Rightarrow> string \<Rightarrow> string \<Rightarrow> string \<Rightarrow>
    'w \<Rightarrow> (client_error, http_response) result \<times> 'w" where
  "get_capable env net cl now rnd u receiver capability = send env net cl now rnd ''GET'' u receiver [] (Some capability)"

definition post_json :: "'c fed_env \<Rightarrow> 'w net \<Rightarrow> 'c client \<Rightarrow> int \<Rightarrow> send_random \<Rightarrow> string \<Rightarrow> string \<Rightarrow> string \<Rightarrow>
    'w \<Rightarrow> (client_error, http_response) result \<times> 'w" where
  "post_json env net cl now rnd u receiver body = send env net cl now rnd ''POST'' u receiver body None"

definition post_json_capable :: "'c fed_env \<Rightarrow> 'w net \<Rightarrow> 'c client \<Rightarrow> int \<Rightarrow> send_random \<Rightarrow> string \<Rightarrow> string \<Rightarrow> string \<Rightarrow> string \<Rightarrow>
    'w \<Rightarrow> (client_error, http_response) result \<times> 'w" where
  "post_json_capable env net cl now rnd u receiver body capability = send env net cl now rnd ''POST'' u receiver body (Some capability)"

text \<open>Comparison of secrets byte by byte, without an early return.\<close>

definition byte :: "char \<Rightarrow> 8 word" where
  "byte c = of_nat (of_char c)"

definition constant_time_eq :: "string \<Rightarrow> string \<Rightarrow> bool" where
  "constant_time_eq a b =
     (if length a \<noteq> length b then False
      else fold (\<lambda>(x, y) diff. diff OR (byte x XOR byte y)) (zip a b) 0 = 0)"

end
