(* ===== verification/Fed_Sync.thy ===== *)
theory Fed_Sync
  imports Fed_Sig
begin

text \<open>
  The subscriber's side of calendar federation: finding and pinning a peer (\<open>crates/owney-api/src/federation.rs\<close>,
  \<open>server_cert\<close> of \<open>crates/owney-pgp/src/lib.rs\<close>), applying a page of sealed events (\<open>fed_apply.rs\<close>), pulling pages
  until the peer has no more (\<open>calendar_sync.rs\<close>) and the notifications that make a peer pull (\<open>fed_worker.rs\<close>).
  Parsing a JSON text into one of the structures is a parameter (record \<open>fed_codec\<close>). The clock readings, nonces
  and new ids a run draws are arguments. The texts of errors that are only logged are left out.
\<close>

section \<open>Documents\<close>

record server_metadata =
  sm_server_url :: string
  sm_public_cert :: "string option"
  sm_fingerprint :: "string option"

record sealed_item =
  it_remote_uid :: string
  it_updated_at :: int
  it_sealed :: string

record sync_page =
  sp_author_cert :: "string option"
  sp_items :: "sealed_item list"
  sp_next_since :: int
  sp_next_after :: string
  sp_has_more :: bool

record event_payload =
  ep_title :: string
  ep_description :: "string option"
  ep_start :: int
  ep_end :: int
  ep_rrule :: "string option"
  ep_author_email :: string

record federation_invitation =
  fi_federation_id :: string
  fi_capability_secret :: string
  fi_calendar_name :: string
  fi_inviter_email :: string
  fi_target_email :: string
  fi_sharing_type :: string
  fi_created_at :: int

record fed_codec =
  fk_metadata :: "string \<Rightarrow> server_metadata option"
  fk_page :: "string \<Rightarrow> sync_page option"
  fk_payload :: "string \<Rightarrow> event_payload option"
  fk_invitation :: "string \<Rightarrow> federation_invitation option"

section \<open>The server's identity and the pinning of peers\<close>

definition server_cert :: "'c pgp_env \<Rightarrow> int \<Rightarrow> string \<Rightarrow> string \<Rightarrow> 'c pgp_op" where
  "server_cert env now entropy domain = pgp_bind (pgp_store server_identity_of) (\<lambda>k.
     case k of
       Some (_, blob) \<Rightarrow> load_cert env blob
     | None \<Rightarrow> pgp_bind (pgp_pure (generate_cert (pe_sq env) entropy (''federation@'' @ domain) (Some (domain @ '' federation'')))) (\<lambda>c.
         pgp_bind (store_cert env now c) (\<lambda>blob.
         pgp_bind (pgp_store (set_server_identity now (sq_fingerprint (pe_sq env) c) blob)) (\<lambda>_. pgp_pure (Inr c)))))"

definition build_client :: "'c fed_env \<Rightarrow> int \<Rightarrow> string \<Rightarrow> 'c client pgp_op" where
  "build_client env now entropy =
     (let domain = host_of env (fe_public_url env)
      in pgp_bind (server_cert (fe_pgp env) now entropy domain) (\<lambda>c.
           pgp_pure (Inr \<lparr>cl_server_cert = c, cl_our_domain = domain\<rparr>)))"

definition server_candidates :: "string \<Rightarrow> string list" where
  "server_candidates domain =
     [''https://'' @ domain @ ''/.well-known/owney/server'',
      ''https://mail.'' @ domain @ ''/.well-known/owney/server'',
      ''https://owney.'' @ domain @ ''/.well-known/owney/server'']"

datatype discovery_error = NotFound string | InvalidMetadata string | NetworkError string

text \<open>What one candidate says: nothing usable, or the metadata.\<close>

definition fetch_metadata :: "'c fed_env \<Rightarrow> fed_codec \<Rightarrow> 'w net \<Rightarrow> string \<Rightarrow> 'w \<Rightarrow> server_metadata option \<times> 'w" where
  "fetch_metadata env codec net u w =
     (case get_unsigned env net u w of
        (Inl _, w1) \<Rightarrow> (None, w1)
      | (Inr resp, w1) \<Rightarrow> (if is_success (rs_status resp) then fk_metadata codec (rs_body resp) else None, w1))"

definition candidate_cert :: "'c openpgp \<Rightarrow> server_metadata \<Rightarrow> (discovery_error, 'c) result" where
  "candidate_cert sq meta = res_bind (ok_or (InvalidMetadata ''peer has no public_cert'') (sm_public_cert meta)) (\<lambda>armored.
     map_sum InvalidMetadata id (sq_parse sq armored))"

text \<open>Pinning what a candidate says, unless another key is pinned already.\<close>

definition pin_candidate :: "'c openpgp \<Rightarrow> int \<Rightarrow> string \<Rightarrow> server_metadata \<Rightarrow> db \<Rightarrow> (discovery_error, peer_row) result \<times> db" where
  "pin_candidate sq now domain meta d =
     (case candidate_cert sq meta of
        Inl e \<Rightarrow> (Inl e, d)
      | Inr cert \<Rightarrow>
          (case federation_peer domain d of
             (Inl _, d1) \<Rightarrow> (Inl (NetworkError ''storage''), d1)
           | (Inr existing, d1) \<Rightarrow>
               if fp_changed (map_option pr_fingerprint existing) (sq_fingerprint sq cert)
               then (Inl (InvalidMetadata ''peer cert fingerprint changed''), d1)
               else
               (case sq_public sq (sq_strip sq cert) of
                  Inl e \<Rightarrow> (Inl (InvalidMetadata e), d1)
                | Inr bin \<Rightarrow>
                    (case upsert_federation_peer now domain (sm_server_url meta) bin (sq_fingerprint sq cert) d1 of
                       (Inl _, d2) \<Rightarrow> (Inl (NetworkError ''storage''), d2)
                     | (Inr _, d2) \<Rightarrow>
                         (case federation_peer domain d2 of
                            (Inl _, d3) \<Rightarrow> (Inl (NetworkError ''storage''), d3)
                          | (Inr p, d3) \<Rightarrow> (ok_or (NetworkError ''pin vanished'') p, d3))))))"

fun try_candidates :: "'c fed_env \<Rightarrow> fed_codec \<Rightarrow> 'w net \<Rightarrow> int \<Rightarrow> string \<Rightarrow> string list \<Rightarrow> db \<Rightarrow> 'w \<Rightarrow>
    (discovery_error, peer_row) result \<times> db \<times> 'w" where
  "try_candidates env codec net now domain [] d w = (Inl (NotFound domain), d, w)"
| "try_candidates env codec net now domain (u # us) d w =
     (case fetch_metadata env codec net u w of
        (None, w1) \<Rightarrow> try_candidates env codec net now domain us d w1
      | (Some meta, w1) \<Rightarrow> (case pin_candidate (fe_sq env) now domain meta d of (r, d1) \<Rightarrow> (r, d1, w1)))"

definition discover_and_pin :: "'c fed_env \<Rightarrow> fed_codec \<Rightarrow> 'w net \<Rightarrow> int \<Rightarrow> string \<Rightarrow> db \<Rightarrow> 'w \<Rightarrow>
    (discovery_error, peer_row) result \<times> db \<times> 'w" where
  "discover_and_pin env codec net now domain d w =
     (if \<not> domain_allowed (fe_config env) domain then (Inl (NotFound (domain @ '' not allowlisted'')), d, w)
      else try_candidates env codec net now domain (server_candidates domain) d w)"

section \<open>Applying a page\<close>

datatype apply_error = ApCrypto | ApStorage | ApUntrusted

definition domain_of :: "string \<Rightarrow> string option" where
  "domain_of email = map_option (\<lambda>(_, d). to_lowercase d) (rsplit_once (CHR ''@'') email)"

definition str_contains :: "string \<Rightarrow> string \<Rightarrow> bool" where
  "str_contains s p \<longleftrightarrow> find_sub p s \<noteq> None"

text \<open>Opening an item: what it says, provided its author signed it and is a user of the peer.\<close>

definition open_item :: "'c fed_env \<Rightarrow> fed_codec \<Rightarrow> 'c \<Rightarrow> string \<Rightarrow> 'c \<Rightarrow> sealed_item \<Rightarrow> (apply_error, event_payload) result" where
  "open_item env codec server_secret peer_domain author_cert item =
     res_bind (map_sum (\<lambda>_. ApCrypto) id (pe_b64_decode (fe_pgp env) (it_sealed item))) (\<lambda>ciphertext.
     res_bind (map_sum (\<lambda>_. ApCrypto) id (open_event (fe_sq env) server_secret author_cert ciphertext)) (\<lambda>plaintext.
     res_bind (ok_or ApCrypto (fk_payload codec plaintext)) (\<lambda>payload.
     res_bind (ok_or ApUntrusted (domain_of (ep_author_email payload))) (\<lambda>author_domain.
     if author_domain \<noteq> peer_domain then Inl ApUntrusted
     else if \<not> (\<exists>u \<in> set (sq_userids (fe_sq env) author_cert). str_contains u (ep_author_email payload)) then Inl ApUntrusted
     else Inr payload))))"

definition fed_store_op :: "'a op \<Rightarrow> db \<Rightarrow> (apply_error, 'a) result \<times> db" where
  "fed_store_op f d = (case f d of (Inl _, d1) \<Rightarrow> (Inl ApStorage, d1) | (Inr a, d1) \<Rightarrow> (Inr a, d1))"

text \<open>Storing what it says, under the local id the federation has for it.\<close>

definition store_payload :: "int \<Rightarrow> string \<Rightarrow> federation_row \<Rightarrow> string \<Rightarrow> event_payload \<Rightarrow> unit op" where
  "store_payload now new_id fed uid p =
     op_bind (federation_local_event (fd_id fed) uid) (\<lambda>local.
     case local of
       Some lid \<Rightarrow> update_remote_calendar_event now lid (ep_title p) (ep_description p) (ep_start p) (ep_end p) (ep_rrule p)
     | None \<Rightarrow>
         op_bind (create_remote_calendar_event new_id now (fd_calendar_id fed) (fd_id fed) (ep_title p) (ep_description p)
                    (ep_start p) (ep_end p) (ep_rrule p)) (\<lambda>lid.
         set_federation_event_map now (fd_id fed) uid lid (ep_author_email p)))"

definition apply_one :: "'c fed_env \<Rightarrow> fed_codec \<Rightarrow> 'c \<Rightarrow> federation_row \<Rightarrow> string \<Rightarrow> 'c \<Rightarrow> int \<Rightarrow> string \<Rightarrow> sealed_item \<Rightarrow>
    db \<Rightarrow> (apply_error, unit) result \<times> db" where
  "apply_one env codec server_secret fed peer_domain author_cert now new_id item d =
     (case open_item env codec server_secret peer_domain author_cert item of
        Inl e \<Rightarrow> (Inl e, d)
      | Inr p \<Rightarrow> fed_store_op (store_payload now new_id fed (it_remote_uid item) p) d)"

text \<open>The loop over the items; each has the clock reading and the fresh id it may use. An item that fails is
  skipped.\<close>

fun apply_items :: "'c fed_env \<Rightarrow> fed_codec \<Rightarrow> 'c \<Rightarrow> federation_row \<Rightarrow> string \<Rightarrow> 'c \<Rightarrow> (nat \<Rightarrow> int \<times> string) \<Rightarrow> nat \<Rightarrow> sealed_item list \<Rightarrow>
    nat \<Rightarrow> db \<Rightarrow> nat \<times> db" where
  "apply_items env codec secret fed dn cert rnd i [] applied d = (applied, d)"
| "apply_items env codec secret fed dn cert rnd i (item # items) applied d =
     (case apply_one env codec secret fed dn cert (fst (rnd i)) (snd (rnd i)) item d of
        (Inl _, d1) \<Rightarrow> apply_items env codec secret fed dn cert rnd (Suc i) items applied d1
      | (Inr _, d1) \<Rightarrow> apply_items env codec secret fed dn cert rnd (Suc i) items (Suc applied) d1)"

definition apply_page :: "'c fed_env \<Rightarrow> fed_codec \<Rightarrow> 'c \<Rightarrow> federation_row \<Rightarrow> (nat \<Rightarrow> int \<times> string) \<Rightarrow> sync_page \<Rightarrow>
    db \<Rightarrow> (apply_error, nat) result \<times> db" where
  "apply_page env codec secret fed rnd page d =
     (case fd_peer_domain fed of
        None \<Rightarrow> (Inl ApUntrusted, d)
      | Some dn \<Rightarrow>
          (case sp_author_cert page of
             Some armored \<Rightarrow>
               (case sq_parse (fe_sq env) armored of
                  Inl _ \<Rightarrow> (Inl ApCrypto, d)
                | Inr cert \<Rightarrow> (case apply_items env codec secret fed dn cert rnd 0 (sp_items page) 0 d of (n, d1) \<Rightarrow> (Inr n, d1)))
           | None \<Rightarrow> if sp_items page = [] then (Inr 0, d) else (Inl ApUntrusted, d)))"

section \<open>Pulling\<close>

datatype sync_error = SyNetwork | SyRemote nat | SyStorage | SyCrypto | SyApply apply_error | SyMisconfigured string | SyFederationNotFound

definition parse_cursor :: "string option \<Rightarrow> int \<times> string" where
  "parse_cursor token =
     (case Option.bind token (split_once (CHR ''|'')) of
        Some (since, after) \<Rightarrow> (case parse_i64 since of Some i \<Rightarrow> i | None \<Rightarrow> 0, after)
      | None \<Rightarrow> (0, []))"

definition sync_url :: "'c fed_env \<Rightarrow> federation_row \<Rightarrow> int \<Rightarrow> string \<Rightarrow> string" where
  "sync_url env fed since after =
     fd_target_server_url fed @ ''/.well-known/owney/calendar/sync/'' @ fd_id fed @ ''?since='' @ show_int since @
     ''&after='' @ fe_url_encode env after"

text \<open>What one round of the loop draws: the clock and randomness of the request and of the items.\<close>

record sync_random =
  sy_now :: int
  sy_send :: send_random
  sy_items :: "nat \<Rightarrow> int \<times> string"

definition pull_page :: "'c fed_env \<Rightarrow> fed_codec \<Rightarrow> 'w net \<Rightarrow> 'c client \<Rightarrow> federation_row \<Rightarrow> string \<Rightarrow> string \<Rightarrow> sync_random \<Rightarrow> int \<Rightarrow> string \<Rightarrow>
    'w \<Rightarrow> (sync_error, sync_page) result \<times> 'w" where
  "pull_page env codec net cl fed dn capability rnd since after w =
     (case get_capable env net cl (sy_now rnd) (sy_send rnd) (sync_url env fed since after) dn capability w of
        (Inl _, w1) \<Rightarrow> (Inl SyNetwork, w1)
      | (Inr resp, w1) \<Rightarrow>
          (if rs_status resp = 404 then Inl SyFederationNotFound
           else if \<not> is_success (rs_status resp) then Inl (SyRemote (rs_status resp))
           else ok_or SyNetwork (fk_page codec (rs_body resp)), w1))"

text \<open>The loop. It ends only when a page says that there is no more, or on an error: \<open>None\<close> is not returning.\<close>

partial_function (option) pull_loop :: "'c fed_env \<Rightarrow> fed_codec \<Rightarrow> 'w net \<Rightarrow> 'c client \<Rightarrow> federation_row \<Rightarrow> string \<Rightarrow> string \<Rightarrow> 'c \<Rightarrow> (nat \<Rightarrow> sync_random) \<Rightarrow>
    nat \<Rightarrow> int \<Rightarrow> string \<Rightarrow> nat \<Rightarrow> db \<Rightarrow> 'w \<Rightarrow> ((sync_error, int \<times> string \<times> nat) result \<times> db \<times> 'w) option" where
  "pull_loop env codec net cl fed dn capability secret rnd i since after applied d w =
     (case pull_page env codec net cl fed dn capability (rnd i) since after w of
        (Inl e, w1) \<Rightarrow> Some (Inl e, d, w1)
      | (Inr page, w1) \<Rightarrow>
          (case apply_page env codec secret fed (sy_items (rnd i)) page d of
             (Inl e, d1) \<Rightarrow> Some (Inl (SyApply e), d1, w1)
           | (Inr n, d1) \<Rightarrow>
               if sp_has_more page
               then pull_loop env codec net cl fed dn capability secret rnd (Suc i) (sp_next_since page) (sp_next_after page) (applied + n) d1 w1
               else Some (Inr (sp_next_since page, sp_next_after page, applied + n), d1, w1)))"

record run_random =
  rr_client_now :: int
  rr_client_entropy :: string
  rr_secret_now :: int
  rr_secret_entropy :: string
  rr_rounds :: "nat \<Rightarrow> sync_random"
  rr_done_now :: int

definition show_cursor :: "int \<Rightarrow> string \<Rightarrow> string" where
  "show_cursor since after = show_int since @ ''|'' @ after"

definition sync_federation :: "'c fed_env \<Rightarrow> fed_codec \<Rightarrow> 'w net \<Rightarrow> run_random \<Rightarrow> federation_row \<Rightarrow> db \<Rightarrow> 'w \<Rightarrow>
    ((sync_error, nat) result \<times> db \<times> 'w) option" where
  "sync_federation env codec net rnd fed d w =
     (case fd_capability_secret fed of
        None \<Rightarrow> Some (Inl (SyMisconfigured ''no capability secret''), d, w)
      | Some capability \<Rightarrow>
     (case fd_peer_domain fed of
        None \<Rightarrow> Some (Inl (SyMisconfigured ''no peer domain''), d, w)
      | Some dn \<Rightarrow>
     (case build_client env (rr_client_now rnd) (rr_client_entropy rnd) d of
        (Inl _, d1) \<Rightarrow> Some (Inl SyCrypto, d1, w)
      | (Inr cl, d1) \<Rightarrow>
     (case server_cert (fe_pgp env) (rr_secret_now rnd) (rr_secret_entropy rnd) (host_of env (fe_public_url env)) d1 of
        (Inl _, d2) \<Rightarrow> Some (Inl SyCrypto, d2, w)
      | (Inr secret, d2) \<Rightarrow>
     (case parse_cursor (fd_sync_token fed) of (since, after) \<Rightarrow>
     (case pull_loop env codec net cl fed dn capability secret (rr_rounds rnd) 0 since after 0 d2 w of
        None \<Rightarrow> None
      | Some (Inl e, d3, w1) \<Rightarrow> Some (Inl e, d3, w1)
      | Some (Inr (since', after', n), d3, w1) \<Rightarrow>
          (case update_federation_sync_token (rr_done_now rnd) (fd_id fed) (Some (show_cursor since' after')) d3 of
             (Inl _, d4) \<Rightarrow> Some (Inl SyStorage, d4, w1)
           | (Inr _, d4) \<Rightarrow> Some (Inr n, d4, w1))))))))"

record run_stats =
  rs_total :: nat
  rs_succeeded :: nat
  rs_failed :: nat
  rs_applied :: nat

fun sync_each :: "'c fed_env \<Rightarrow> fed_codec \<Rightarrow> 'w net \<Rightarrow> (nat \<Rightarrow> run_random) \<Rightarrow> nat \<Rightarrow> federation_row list \<Rightarrow> run_stats \<Rightarrow> db \<Rightarrow> 'w \<Rightarrow>
    (run_stats \<times> db \<times> 'w) option" where
  "sync_each env codec net rnd i [] st d w = Some (st, d, w)"
| "sync_each env codec net rnd i (fed # feds) st d w =
     (case sync_federation env codec net (rnd i) fed d w of
        None \<Rightarrow> None
      | Some (Inr n, d1, w1) \<Rightarrow>
          sync_each env codec net rnd (Suc i) feds
            (st\<lparr>rs_total := rs_total st + 1, rs_succeeded := rs_succeeded st + 1, rs_applied := rs_applied st + n\<rparr>) d1 w1
      | Some (Inl _, d1, w1) \<Rightarrow>
          sync_each env codec net rnd (Suc i) feds
            (st\<lparr>rs_total := rs_total st + 1, rs_failed := rs_failed st + 1\<rparr>) (snd (mark_federation_error (fd_id fed) d1)) w1)"

definition sync_all :: "'c fed_env \<Rightarrow> fed_codec \<Rightarrow> 'w net \<Rightarrow> (nat \<Rightarrow> run_random) \<Rightarrow> db \<Rightarrow> 'w \<Rightarrow>
    ((sync_error, run_stats) result \<times> db \<times> 'w) option" where
  "sync_all env codec net rnd d w =
     (case list_active_federations d of
        (Inl _, d1) \<Rightarrow> Some (Inl SyStorage, d1, w)
      | (Inr feds, d1) \<Rightarrow>
          map_option (\<lambda>(st, d2, w1). (Inr st, d2, w1))
            (sync_each env codec net rnd 0 feds \<lparr>rs_total = 0, rs_succeeded = 0, rs_failed = 0, rs_applied = 0\<rparr> d1 w))"

definition sync_one :: "'c fed_env \<Rightarrow> fed_codec \<Rightarrow> 'w net \<Rightarrow> run_random \<Rightarrow> string \<Rightarrow> db \<Rightarrow> 'w \<Rightarrow>
    ((sync_error, nat) result \<times> db \<times> 'w) option" where
  "sync_one env codec net rnd fid d w =
     (case get_federation fid d of
        (Inl _, d1) \<Rightarrow> Some (Inl SyStorage, d1, w)
      | (Inr None, d1) \<Rightarrow> Some (Inl SyFederationNotFound, d1, w)
      | (Inr (Some fed), d1) \<Rightarrow>
          if fd_direction fed \<noteq> Some ''inbound'' \<or> \<not> active_status (fd_status fed)
          then Some (Inl (SyMisconfigured ''not an active inbound federation''), d1, w)
          else sync_federation env codec net rnd fed d1 w)"

section \<open>Notifying peers\<close>

definition MAX_ATTEMPTS :: int where "MAX_ATTEMPTS = 8"

definition NOTIFY_BATCH :: nat where "NOTIFY_BATCH = 32"

fun enqueue_notifications :: "'c fed_env \<Rightarrow> (nat \<Rightarrow> int \<times> string) \<Rightarrow> nat \<Rightarrow> (string \<times> string) list \<Rightarrow> nat op" where
  "enqueue_notifications env rnd n [] = op_return n"
| "enqueue_notifications env rnd n ((fid, dn) # peers) =
     op_bind (fed_enqueue (snd (rnd n)) (fst (rnd n)) fid dn (fe_json_text env (json_obj [(''federation_id'', JStr fid)])))
       (\<lambda>_. enqueue_notifications env rnd (Suc n) peers)"

definition notify_calendar_changed :: "'c fed_env \<Rightarrow> (nat \<Rightarrow> int \<times> string) \<Rightarrow> string \<Rightarrow> nat op" where
  "notify_calendar_changed env rnd c = op_bind (outbound_federations_for_calendar c) (enqueue_notifications env rnd 0)"

definition notify_url :: "peer_row \<Rightarrow> string" where
  "notify_url peer = pr_server_url peer @ ''/.well-known/owney/calendar/notify''"

text \<open>Whether an answer counts as delivered, and the error recorded otherwise.\<close>

definition notify_outcome :: "(client_error \<Rightarrow> string) \<Rightarrow> (client_error, http_response) result \<Rightarrow> bool \<times> string option" where
  "notify_outcome show_err r =
     (case r of
        Inr resp \<Rightarrow> if is_success (rs_status resp) then (True, None) else (False, Some (''status '' @ show_nat (rs_status resp)))
      | Inl e \<Rightarrow> (False, Some (show_err e)))"

record notify_random =
  nr_now :: int
  nr_send :: send_random
  nr_record_now :: int

text \<open>Delivering one claimed item: a peer that is not pinned is a failed attempt, a storage error ends the
  drain.\<close>

definition deliver_item :: "'c fed_env \<Rightarrow> (client_error \<Rightarrow> string) \<Rightarrow> 'w net \<Rightarrow> 'c client \<Rightarrow> notify_random \<Rightarrow> outbox_item \<Rightarrow>
    db \<Rightarrow> 'w \<Rightarrow> (storage_error, bool) result \<times> db \<times> 'w" where
  "deliver_item env show_err net cl rnd item d w =
     (case federation_peer (oi_peer_domain item) d of
        (Inl e, d1) \<Rightarrow> (Inl e, d1, w)
      | (Inr None, d1) \<Rightarrow>
          (case fed_record_attempt (nr_record_now rnd) (oi_id item) False (Some ''peer not pinned'') MAX_ATTEMPTS d1 of
             (r, d2) \<Rightarrow> (map_sum id (\<lambda>_. False) r, d2, w))
      | (Inr (Some peer), d1) \<Rightarrow>
          (case post_json env net cl (nr_now rnd) (nr_send rnd) (notify_url peer) (oi_peer_domain item) (oi_payload item) w of
             (answer, w1) \<Rightarrow>
               (case notify_outcome show_err answer of
                  (ok, err) \<Rightarrow>
                    (case fed_record_attempt (nr_record_now rnd) (oi_id item) ok err MAX_ATTEMPTS d1 of
                       (r, d2) \<Rightarrow> (map_sum id (\<lambda>_. ok) r, d2, w1)))))"

fun deliver_items :: "'c fed_env \<Rightarrow> (client_error \<Rightarrow> string) \<Rightarrow> 'w net \<Rightarrow> 'c client \<Rightarrow> (nat \<Rightarrow> notify_random) \<Rightarrow> nat \<Rightarrow> outbox_item list \<Rightarrow> nat \<Rightarrow>
    db \<Rightarrow> 'w \<Rightarrow> (storage_error, nat) result \<times> db \<times> 'w" where
  "deliver_items env show_err net cl rnd i [] delivered d w = (Inr delivered, d, w)"
| "deliver_items env show_err net cl rnd i (item # items) delivered d w =
     (case deliver_item env show_err net cl (rnd i) item d w of
        (Inl e, d1, w1) \<Rightarrow> (Inl e, d1, w1)
      | (Inr ok, d1, w1) \<Rightarrow> deliver_items env show_err net cl rnd (Suc i) items (if ok then Suc delivered else delivered) d1 w1)"

datatype drain_error = DrStorage storage_error | DrClient pgp_error

record drain_random =
  dr_now :: int
  dr_client_now :: int
  dr_client_entropy :: string
  dr_items :: "nat \<Rightarrow> notify_random"

definition drain_once :: "'c fed_env \<Rightarrow> (client_error \<Rightarrow> string) \<Rightarrow> 'w net \<Rightarrow> drain_random \<Rightarrow> db \<Rightarrow> 'w \<Rightarrow> (drain_error, nat) result \<times> db \<times> 'w" where
  "drain_once env show_err net rnd d w =
     (case fed_due_items (dr_now rnd) NOTIFY_BATCH d of
        (Inl e, d1) \<Rightarrow> (Inl (DrStorage e), d1, w)
      | (Inr items, d1) \<Rightarrow>
          if items = [] then (Inr 0, d1, w)
          else
          (case build_client env (dr_client_now rnd) (dr_client_entropy rnd) d1 of
             (Inl e, d2) \<Rightarrow> (Inl (DrClient e), d2, w)
           | (Inr cl, d2) \<Rightarrow>
               (case deliver_items env show_err net cl (dr_items rnd) 0 items 0 d2 w of
                  (r, d3, w1) \<Rightarrow> (map_sum DrStorage id r, d3, w1))))"

text \<open>The worker: stale claims first, then a drain at every tick; errors are logged.\<close>

fun notify_ticks :: "'c fed_env \<Rightarrow> (client_error \<Rightarrow> string) \<Rightarrow> 'w net \<Rightarrow> drain_random list \<Rightarrow> db \<Rightarrow> 'w \<Rightarrow> db \<times> 'w" where
  "notify_ticks env show_err net [] d w = (d, w)"
| "notify_ticks env show_err net (rnd # rnds) d w =
     (case drain_once env show_err net rnd d w of (_, d1, w1) \<Rightarrow> notify_ticks env show_err net rnds d1 w1)"

definition notify_worker :: "'c fed_env \<Rightarrow> (client_error \<Rightarrow> string) \<Rightarrow> 'w net \<Rightarrow> int \<Rightarrow> drain_random list \<Rightarrow> db \<Rightarrow> 'w \<Rightarrow> db \<times> 'w" where
  "notify_worker env show_err net start ticks d w = notify_ticks env show_err net ticks (snd (fed_reset_stale_claims start d)) w"

end
