(* ===== verification/Fed_Http.thy ===== *)
theory Fed_Http
  imports Fed_Sync
begin

text \<open>
  \<open>crates/owney-api/src/wellknown.rs\<close>: the endpoints other servers call. Every one but the server's metadata
  needs a signed request. A handler takes the method, the request target, the headers and the body, and the
  clock readings, ids and entropy it draws.
\<close>

section \<open>Definitions\<close>

datatype http_reply = Reply nat json

definition deny :: "nat \<Rightarrow> string \<Rightarrow> http_reply" where
  "deny status msg = Reply status (json_obj [(''error'', JStr msg)])"

record fed_request =
  fr_method :: string
  fr_uri :: string
  fr_headers :: headers
  fr_body :: string

record fed_random =
  fr_now :: int
  fr_record_now :: int
  fr_client_now :: int
  fr_client_entropy :: string
  fr_pin_now :: int
  fr_new_calendar :: string
  fr_store_now :: int
  fr_own_entropy :: string
  fr_seal_entropy :: "nat \<Rightarrow> string"
  fr_sync :: run_random

definition verify :: "'c fed_env \<Rightarrow> fed_random \<Rightarrow> fed_request \<Rightarrow> db \<Rightarrow> (http_reply, verified_peer) result \<times> db" where
  "verify env rnd rq d =
     (case verify_request env (fr_now rnd) (fr_record_now rnd) (fr_method rq) (canonical_path_str env (fr_uri rq)) (fr_headers rq) (fr_body rq) d of
        (r, d1) \<Rightarrow> (map_sum (\<lambda>e. deny (rejection_status e) (rejection_str e)) id r, d1))"

definition opt_str :: "string option \<Rightarrow> json" where
  "opt_str v = (case v of Some s \<Rightarrow> JStr s | None \<Rightarrow> JNull)"

definition server_metadata_doc :: "'c fed_env \<Rightarrow> string \<Rightarrow> fed_random \<Rightarrow> db \<Rightarrow> http_reply \<times> db" where
  "server_metadata_doc env version rnd d =
     (case server_cert (fe_pgp env) (fr_client_now rnd) (fr_client_entropy rnd) (host_of env (fe_public_url env)) d of
        (r, d1) \<Rightarrow>
          let (cert, fp) = (case r of
                Inr c \<Rightarrow> (case public_armored (fe_sq env) c of Inr a \<Rightarrow> Some a | Inl _ \<Rightarrow> None, Some (sq_fingerprint (fe_sq env) c))
              | Inl _ \<Rightarrow> (None, None))
          in (Reply 200 (json_obj [(''server_url'', JStr (fe_public_url env)),
                (''supported_features'', JArr (map JStr [''calendar_sharing'', ''calendar_delegation'', ''signed_requests'', ''sealed_events''])),
                (''version'', JStr version), (''admin'', JNull), (''public_cert'', opt_str cert), (''fingerprint'', opt_str fp)]), d1))"

definition account_lookup :: "'c fed_env \<Rightarrow> fed_random \<Rightarrow> string \<Rightarrow> fed_request \<Rightarrow> db \<Rightarrow> http_reply \<times> db" where
  "account_lookup env rnd email rq d =
     (case verify env rnd rq d of
        (Inl resp, d1) \<Rightarrow> (resp, d1)
      | (Inr _, d1) \<Rightarrow>
          (case account_by_email email d1 of
             (Inr (Some _), d2) \<Rightarrow> (Reply 200 (json_obj [(''exists'', JBool True)]), d2)
           | (_, d2) \<Rightarrow> (deny 404 ''not found'', d2)))"

definition requested_type :: "string \<Rightarrow> sharing_type" where
  "requested_type s = (if s = ''delegation'' then Delegation else Sharing)"

text \<open>The invitation once its sender is authenticated: a mirror calendar of the invitee and a pending record.\<close>

definition accept_invitation :: "fed_random \<Rightarrow> federation_invitation \<Rightarrow> verified_peer \<Rightarrow> db \<Rightarrow> http_reply \<times> db" where
  "accept_invitation rnd iv peer d =
     (if domain_of (fi_inviter_email iv) \<noteq> Some (vp_domain peer) then (deny 400 ''inviter/sender mismatch'', d)
      else
      case account_by_email (fi_target_email iv) d of
        (Inl _, d1) \<Rightarrow> (deny 404 ''not found'', d1)
      | (Inr None, d1) \<Rightarrow> (deny 404 ''not found'', d1)
      | (Inr (Some target), d1) \<Rightarrow>
          (case create_calendar (fr_new_calendar rnd) (fr_store_now rnd) (a_id target) (fi_calendar_name iv @ '' (shared)'')
                  (Some (''Shared by '' @ fi_inviter_email iv)) d1 of
             (Inl _, d2) \<Rightarrow> (deny 500 ''server error'', d2)
           | (Inr mirror, d2) \<Rightarrow>
               (case federation_peer (vp_domain peer) d2 of
                  (p, d3) \<Rightarrow>
                    (case create_inbound_federation (fr_store_now rnd) (fi_federation_id iv) (cal_id mirror) (fi_inviter_email iv)
                            (case p of Inr (Some r) \<Rightarrow> pr_server_url r | _ \<Rightarrow> []) (requested_type (fi_sharing_type iv))
                            (vp_domain peer) (vp_fingerprint peer) (fi_capability_secret iv) d3 of
                       (Inl _, d4) \<Rightarrow> (deny 500 ''server error'', d4)
                     | (Inr _, d4) \<Rightarrow>
                         (Reply 200 (json_obj [(''federation_id'', JStr (fi_federation_id iv)), (''status'', JStr ''pending'')]), d4)))))"

definition receive_invitation :: "'c fed_env \<Rightarrow> fed_codec \<Rightarrow> 'w net \<Rightarrow> fed_random \<Rightarrow> fed_request \<Rightarrow> db \<Rightarrow> 'w \<Rightarrow> http_reply \<times> db \<times> 'w" where
  "receive_invitation env codec net rnd rq d w =
     (case fk_invitation codec (fr_body rq) of
        None \<Rightarrow> (deny 400 ''malformed'', d, w)
      | Some iv \<Rightarrow>
          (case header (fr_headers rq) H_SERVER of
             None \<Rightarrow> (deny 401 ''missing signature'', d, w)
           | Some server \<Rightarrow>
               (case build_client env (fr_client_now rnd) (fr_client_entropy rnd) d of
                  (Inl _, d1) \<Rightarrow> (deny 500 ''server error'', d1, w)
                | (Inr _, d1) \<Rightarrow>
                    (case discover_and_pin env codec net (fr_pin_now rnd) (to_lowercase (trim server)) d1 w of
                       (Inl _, d2, w1) \<Rightarrow> (deny 401 ''unknown peer'', d2, w1)
                     | (Inr _, d2, w1) \<Rightarrow>
                         (case verify env rnd rq d2 of
                            (Inl resp, d3) \<Rightarrow> (resp, d3, w1)
                          | (Inr peer, d3) \<Rightarrow> (case accept_invitation rnd iv peer d3 of (resp, d4) \<Rightarrow> (resp, d4, w1)))))))"

definition MAX_EVENTS_PER_PAGE :: nat where "MAX_EVENTS_PER_PAGE = 500"

text \<open>Who may pull: the peer the calendar is shared with, holding the capability.\<close>

definition serves_peer :: "federation_row \<Rightarrow> verified_peer \<Rightarrow> bool" where
  "serves_peer f peer \<longleftrightarrow> fd_direction f = Some ''outbound'' \<and> active_status (fd_status f) \<and>
     fd_peer_domain f = Some (vp_domain peer) \<and> fd_peer_fingerprint f = Some (vp_fingerprint peer)"

definition capability_ok :: "headers \<Rightarrow> federation_row \<Rightarrow> bool" where
  "capability_ok hs f =
     (let presented = (case header hs H_CAPABILITY of Some c \<Rightarrow> c | None \<Rightarrow> []);
          expected = (case fd_capability_secret f of Some c \<Rightarrow> c | None \<Rightarrow> [])
      in expected \<noteq> [] \<and> constant_time_eq presented expected)"

definition payload_json :: "string \<Rightarrow> calendar_event_row \<Rightarrow> json" where
  "payload_json author_email e =
     json_obj [(''title'', JStr (ev_title e)), (''description'', opt_str (ev_description e)), (''start'', JNum (ev_start e)),
               (''end'', JNum (ev_end e)), (''rrule'', opt_str (ev_rrule e)), (''author_email'', JStr author_email)]"

definition item_json :: "'c fed_env \<Rightarrow> calendar_event_row \<Rightarrow> string \<Rightarrow> json" where
  "item_json env e sealed =
     json_obj [(''remote_uid'', JStr (ev_id e)), (''updated_at'', JNum (ev_updated_at e)),
               (''sealed'', JStr (pe_b64_encode (fe_pgp env) sealed))]"

fun seal_events :: "'c fed_env \<Rightarrow> (nat \<Rightarrow> string) \<Rightarrow> 'c \<Rightarrow> 'c \<Rightarrow> string \<Rightarrow> nat \<Rightarrow> calendar_event_row list \<Rightarrow> json list option" where
  "seal_events env entropy author peer email i [] = Some []"
| "seal_events env entropy author peer email i (e # es) =
     (case seal_event (fe_sq env) (entropy i) author peer (fe_json_text env (payload_json email e)) of
        Inl _ \<Rightarrow> None
      | Inr sealed \<Rightarrow> map_option (\<lambda>js. item_json env e sealed # js) (seal_events env entropy author peer email (Suc i) es))"

definition page_json :: "string \<Rightarrow> string option \<Rightarrow> int \<Rightarrow> calendar_event_row list \<Rightarrow> json list \<Rightarrow> json" where
  "page_json fid author_cert since events items =
     json_obj [(''federation_id'', JStr fid), (''author_cert'', opt_str author_cert), (''items'', JArr items),
               (''next_since'', JNum (if events = [] then since else ev_updated_at (last events))),
               (''next_after'', JStr (if events = [] then [] else ev_id (last events))),
               (''has_more'', JBool (length events = MAX_EVENTS_PER_PAGE))]"

definition calendar_owner_email :: "string \<Rightarrow> db \<Rightarrow> string \<times> db" where
  "calendar_owner_email acct d =
     (case account acct d of (Inr (Some a), d1) \<Rightarrow> (a_email a, d1) | (_, d1) \<Rightarrow> ([], d1))"

text \<open>The page itself, for an authorized peer.\<close>

definition serve_page :: "'c fed_env \<Rightarrow> fed_random \<Rightarrow> string \<Rightarrow> federation_row \<Rightarrow> calendar_row \<Rightarrow> 'c \<Rightarrow> 'c \<Rightarrow> int \<Rightarrow> string \<Rightarrow> db \<Rightarrow> http_reply \<times> db" where
  "serve_page env rnd fid f cal author peer_cert since after d =
     (case list_calendar_events_page (fd_calendar_id f) since after MAX_EVENTS_PER_PAGE True d of
        (Inl _, d1) \<Rightarrow> (deny 500 ''server error'', d1)
      | (Inr events, d1) \<Rightarrow>
          (case calendar_owner_email (cal_account_id cal) d1 of
             (email, d2) \<Rightarrow>
               (case seal_events env (fr_seal_entropy rnd) author peer_cert email 0 events of
                  None \<Rightarrow> (deny 500 ''server error'', d2)
                | Some items \<Rightarrow>
                    (Reply 200 (page_json fid (case public_armored (fe_sq env) author of Inr a \<Rightarrow> Some a | Inl _ \<Rightarrow> None)
                       since events items), d2))))"

definition find_peer_cert :: "'c fed_env \<Rightarrow> string \<Rightarrow> db \<Rightarrow> (http_reply, 'c) result \<times> db" where
  "find_peer_cert env domain d =
     (case federation_peer domain d of
        (Inr (Some p), d1) \<Rightarrow> (map_sum (\<lambda>_. deny 500 ''server error'') id (sq_parse (fe_sq env) (pr_cert p)), d1)
      | (_, d1) \<Rightarrow> (Inl (deny 401 ''unknown peer''), d1))"

text \<open>The calendar, while its owner may still view it.\<close>

definition served_calendar :: "federation_row \<Rightarrow> db \<Rightarrow> (http_reply, calendar_row) result \<times> db" where
  "served_calendar f d =
     (case get_calendar_by_id (fd_calendar_id f) d of
        (Inr (Some cal), d1) \<Rightarrow>
          (case calendar_access (cal_account_id cal) (cal_id cal) d1 of
             (Inr (Some p), d2) \<Rightarrow> (if view_events p then Inr cal else Inl (deny 403 ''forbidden''), d2)
           | (_, d2) \<Rightarrow> (Inl (deny 403 ''forbidden''), d2))
      | (_, d1) \<Rightarrow> (Inl (deny 404 ''not found''), d1))"

definition serve_federation :: "'c fed_env \<Rightarrow> fed_random \<Rightarrow> string \<Rightarrow> federation_row \<Rightarrow> verified_peer \<Rightarrow> (string \<Rightarrow> string option) \<Rightarrow> db \<Rightarrow> http_reply \<times> db" where
  "serve_federation env rnd fid f peer params d =
     (case served_calendar f d of
        (Inl resp, d1) \<Rightarrow> (resp, d1)
      | (Inr cal, d1) \<Rightarrow>
          (case own_cert (fe_pgp env) (fr_store_now rnd) (fr_own_entropy rnd) (cal_account_id cal) d1 of
             (Inl _, d2) \<Rightarrow> (deny 500 ''server error'', d2)
           | (Inr author, d2) \<Rightarrow>
               (case find_peer_cert env (vp_domain peer) d2 of
                  (Inl resp, d3) \<Rightarrow> (resp, d3)
                | (Inr peer_cert, d3) \<Rightarrow>
                    serve_page env rnd fid f cal author peer_cert
                      (case Option.bind (params ''since'') parse_i64 of Some t \<Rightarrow> t | None \<Rightarrow> 0)
                      (case params ''after'' of Some a \<Rightarrow> a | None \<Rightarrow> []) d3)))"

definition calendar_sync :: "'c fed_env \<Rightarrow> fed_random \<Rightarrow> string \<Rightarrow> (string \<Rightarrow> string option) \<Rightarrow> fed_request \<Rightarrow> db \<Rightarrow> http_reply \<times> db" where
  "calendar_sync env rnd fid params rq d =
     (case verify env rnd rq d of
        (Inl resp, d1) \<Rightarrow> (resp, d1)
      | (Inr peer, d1) \<Rightarrow>
          (case get_federation fid d1 of
             (Inl _, d2) \<Rightarrow> (deny 500 ''server error'', d2)
           | (Inr None, d2) \<Rightarrow> (deny 404 ''not found'', d2)
           | (Inr (Some f), d2) \<Rightarrow>
               if \<not> serves_peer f peer then (deny 403 ''forbidden'', d2)
               else if \<not> capability_ok (fr_headers rq) f then (deny 403 ''forbidden'', d2)
               else serve_federation env rnd fid f peer params d2))"

definition notified_federation :: "'c fed_env \<Rightarrow> string \<Rightarrow> string option" where
  "notified_federation env body =
     (case fe_json_parse env body of
        Some j \<Rightarrow> (case json_get j ''federation_id'' of Some (JStr s) \<Rightarrow> Some s | _ \<Rightarrow> None)
      | None \<Rightarrow> None)"

definition subscribed_from :: "federation_row \<Rightarrow> verified_peer \<Rightarrow> bool" where
  "subscribed_from f peer \<longleftrightarrow> fd_direction f = Some ''inbound'' \<and> fd_peer_domain f = Some (vp_domain peer) \<and>
     fd_peer_fingerprint f = Some (vp_fingerprint peer)"

text \<open>A notification makes this server pull; the handler does not return when the pull does not.\<close>

definition receive_notify :: "'c fed_env \<Rightarrow> fed_codec \<Rightarrow> 'w net \<Rightarrow> fed_random \<Rightarrow> fed_request \<Rightarrow> db \<Rightarrow> 'w \<Rightarrow> (http_reply \<times> db \<times> 'w) option" where
  "receive_notify env codec net rnd rq d w =
     (case verify env rnd rq d of
        (Inl resp, d1) \<Rightarrow> Some (resp, d1, w)
      | (Inr peer, d1) \<Rightarrow>
          (case notified_federation env (fr_body rq) of
             None \<Rightarrow> Some (deny 400 ''malformed'', d1, w)
           | Some fid \<Rightarrow>
               (case get_federation fid d1 of
                  (Inr (Some f), d2) \<Rightarrow>
                    if subscribed_from f peer
                    then map_option (\<lambda>(_, d3, w1). (Reply 200 (json_obj [(''status'', JStr ''ok'')]), d3, w1))
                           (sync_one env codec net (fr_sync rnd) fid d2 w)
                    else Some (deny 403 ''forbidden'', d2, w)
                | (_, d2) \<Rightarrow> Some (deny 403 ''forbidden'', d2, w))))"

end
