(* ===== verification/Fed_Props.thy ===== *)
theory Fed_Props
  imports Fed_Http Scheduling_Store
begin

text \<open>
  Results on calendar federation: what a peer can change here (isolation), what it is served (authorization),
  when a signed request is accepted twice, that a pinned key is never replaced, and what becomes of a
  subscription whose pull fails.
\<close>

text \<open>A call that only reads changes nothing but the schedule of failures.\<close>

lemma db_call_read: "db_call (\<lambda>d. (g d, d)) d = (r, d') \<Longrightarrow> \<exists>fs. d' = d\<lparr>faults := fs\<rparr>"
  by (erule db_call_cases) auto

section \<open>A concrete environment\<close>

text \<open>Toy instances of the parameters, for the witnesses: a certificate is the address of its owner, a signature
  is the key before the text.\<close>

definition demo_sq :: "string openpgp" where
  "demo_sq = \<lparr>sq_parse = Inr, sq_tsk = Inr, sq_public = Inr, sq_armor = Inr, sq_strip = id, sq_fingerprint = (\<lambda>c. ''fp-'' @ c),
     sq_userids = (\<lambda>c. [''<'' @ c @ ''>'']), sq_generate = (\<lambda>_ uid. Inr uid), sq_encryption_keys = (\<lambda>c. Inr [c]),
     sq_signing_key = (\<lambda>c. Inr (Some c)), sq_keypair = Inr, sq_message = (\<lambda>_ _ kp plain. Inr (kp @ ''|'' @ plain)),
     sq_decrypt = (\<lambda>_ senders ct. case split_once (CHR ''|'') ct of
        None \<Rightarrow> Inl ''not a message''
      | Some (kp, plain) \<Rightarrow> Inr (plain, [if senders = [kp] then SigOk else SigMissingKey])),
     sq_sign = (\<lambda>_ kp msg. Inr (kp @ ''|'' @ msg)),
     sq_verify = (\<lambda>c msg sig. Inr [if sig = c @ ''|'' @ msg then SigOk else SigBad])\<rparr>"

definition demo_pgp :: "string pgp_env" where
  "demo_pgp = \<lparr>pe_sq = demo_sq, pe_ingest = \<lparr>ie_parse = (\<lambda>_. None), ie_put = Inr\<rparr>, pe_get_blob = Inr,
     pe_autocrypt = (\<lambda>_. None), pe_b64_encode = map (\<lambda>c. if c = LF then CHR ''~'' else c),
     pe_b64_decode = (\<lambda>s. Inr (map (\<lambda>c. if c = CHR ''~'' then LF else c) s)), pe_blake3 = id, pe_hex = id\<rparr>"

definition demo_url :: "string \<Rightarrow> url option" where
  "demo_url s =
     (case strip_prefix ''https://'' s of
        None \<Rightarrow> None
      | Some rest \<Rightarrow>
          (case split_once (CHR ''/'') rest of
             None \<Rightarrow> Some \<lparr>u_scheme = ''https'', u_username = [], u_password = None, u_host = Some rest, u_port_or_default = Some 443,
                 u_path = ''/'', u_query = None, u_query_pairs = []\<rparr>
           | Some (host, path) \<Rightarrow> Some \<lparr>u_scheme = ''https'', u_username = [], u_password = None, u_host = Some host,
                 u_port_or_default = Some 443, u_path = ''/'' @ path, u_query = None, u_query_pairs = []\<rparr>))"

definition demo_env :: "string fed_env" where
  "demo_env = \<lparr>fe_pgp = demo_pgp, fe_parse_url = demo_url, fe_lookup_host = (\<lambda>_ _. Some [V4 93 184 216 34]),
     fe_json_text = (\<lambda>_. []), fe_json_parse = (\<lambda>_. None), fe_url_encode = id, fe_public_url = ''https://b.test'',
     fe_config = \<lparr>fc_enabled = True, fc_allow_private_ips = False, fc_url_overrides = (\<lambda>_. None), fc_allowlist = None\<rparr>\<rparr>"

definition demo_codec :: fed_codec where
  "demo_codec = \<lparr>fk_metadata = (\<lambda>s. Some \<lparr>sm_server_url = ''https://a.test'', sm_public_cert = Some s, sm_fingerprint = None\<rparr>),
     fk_page = (\<lambda>_. None),
     fk_payload = (\<lambda>s. Some \<lparr>ep_title = s, ep_description = None, ep_start = 1, ep_end = 2, ep_rrule = None, ep_author_email = ''al@a.test''\<rparr>),
     fk_invitation = (\<lambda>_. None)\<rparr>"

lemmas demo_defs = demo_sq_def demo_pgp_def demo_url_def demo_env_def demo_codec_def

text \<open>A subscriber with a calendar of its own, an event in it, and a mirror calendar.\<close>

definition demo_bob :: db where
  "demo_bob = empty_db\<lparr>
     accounts := [\<lparr>acc_id = ''bob'', acc_email = ''bob@b.test'', acc_display_name = None, acc_created_at = 0, acc_disabled_at = None\<rparr>],
     calendars := [\<lparr>cal_id = ''own'', cal_account_id = ''bob'', cal_name = ''own'', cal_description = None, cal_created_at = 0, cal_updated_at = 0\<rparr>,
                   \<lparr>cal_id = ''mir'', cal_account_id = ''bob'', cal_name = ''mir'', cal_description = None, cal_created_at = 0, cal_updated_at = 0\<rparr>]\<rparr>"

definition demo_fed :: federation_row where
  "demo_fed = \<lparr>fd_id = ''f'', fd_calendar_id = ''mir'', fd_target_email = ''al@a.test'', fd_target_server_url = ''https://a.test'',
     fd_sharing_type = Sharing, fd_permissions = sharing_permissions, fd_status = ''pending'', fd_sync_token = None,
     fd_last_sync_at = None, fd_created_at = 1, fd_peer_domain = Some ''a.test'', fd_peer_fingerprint = Some ''fp'',
     fd_capability_secret = Some ''cap'', fd_direction = Some ''inbound''\<rparr>"

definition demo_sub :: db where
  "demo_sub = snd (create_calendar_event ''e0'' 1 ''own'' ''mine'' None 5 6 None
     (snd (create_inbound_federation 1 ''f'' ''mir'' ''al@a.test'' ''https://a.test'' Sharing ''a.test'' ''fp'' ''cap'' demo_bob)))"

definition demo_page :: sync_page where
  "demo_page = \<lparr>sp_author_cert = Some ''al@a.test'',
     sp_items = [\<lparr>it_remote_uid = ''e0'', it_updated_at = 1, it_sealed = ''al@a.test|theirs''\<rparr>,
                 \<lparr>it_remote_uid = ''e9'', it_updated_at = 1, it_sealed = ''eve@a.test|forged''\<rparr>],
     sp_next_since = 1, sp_next_after = ''e0'', sp_has_more = False\<rparr>"

section \<open>Isolation\<close>

text \<open>The tables that matter, and the events a federation brought in.\<close>

definition fed_tables :: "db \<Rightarrow> calendar_event_row list \<times> event_map_row list \<times> (string \<times> string) list" where
  "fed_tables d = (calendar_events d, federation_event_map d, map (\<lambda>r. (fd_id r, fd_calendar_id r)) (calendar_federation d))"

interpretation ft: db_view fed_tables
  by unfold_locales (simp add: fed_tables_def)

definition brought_in :: "string \<Rightarrow> calendar_event_row \<Rightarrow> bool" where
  "brought_in fid e \<longleftrightarrow> ev_origin e = Some ''remote'' \<and> ev_origin_federation e = Some fid"

definition others :: "string \<Rightarrow> db \<Rightarrow> calendar_event_row list" where
  "others fid d = filter (\<lambda>e. \<not> brought_in fid e) (calendar_events d)"

definition mirrors :: "db \<Rightarrow> string \<Rightarrow> string \<Rightarrow> bool" where
  "mirrors d fid c \<longleftrightarrow> (fid, c) \<in> set (snd (snd (fed_tables d)))"

definition fed_inv :: "db \<Rightarrow> bool" where
  "fed_inv d \<longleftrightarrow>
     keys_unique ev_id (calendar_events d) \<and>
     keys_unique fd_id (calendar_federation d) \<and>
     (\<forall>m \<in> set (federation_event_map d). \<exists>e \<in> set (calendar_events d). ev_id e = fm_local_event_id m \<and> brought_in (fm_federation_id m) e) \<and>
     (\<forall>e \<in> set (calendar_events d). \<forall>fid. brought_in fid e \<longrightarrow> mirrors d fid (ev_calendar_id e))"

lemma fed_inv_cong: "fed_tables d' = fed_tables d \<Longrightarrow> fed_inv d' = fed_inv d"
proof -
  have keys: "keys_unique fd_id (calendar_federation d) = distinct (map fst (snd (snd (fed_tables d))))" for d
    by (simp add: keys_unique_def fed_tables_def o_def)
  assume eq: "fed_tables d' = fed_tables d"
  then have "calendar_events d' = calendar_events d" "federation_event_map d' = federation_event_map d"
    by (simp_all add: fed_tables_def)
  with eq show ?thesis by (simp only: fed_inv_def keys mirrors_def)
qed

text \<open>Reads, and the operations on other tables, leave them alone.\<close>

lemma local_event_frame: "federation_local_event fid uid d = (r, d') \<Longrightarrow> fed_tables d' = fed_tables d"
  unfolding federation_local_event_def by (drule db_call_read) (auto simp: fed_tables_def)

lemma local_event_ok:
  assumes "federation_local_event fid uid d = (Inr (Some lid), d')"
  obtains m where "m \<in> set (federation_event_map d)" "fm_federation_id m = fid" "fm_local_event_id m = lid"
proof -
  obtain m where "sql_select (\<lambda>r. map_key r = (fid, uid)) (federation_event_map d) = Some m" "fm_local_event_id m = lid"
    using assms by (auto simp: federation_local_event_def dest!: db_call_okD)
  with sql_select_Some[OF this(1)] that show thesis by (auto simp: map_key_def)
qed

text \<open>An update of a remote event touches the one event with the id.\<close>

lemma update_remote_tables:
  assumes "update_remote_calendar_event now lid t ds st fin rr d = (r, d')"
  shows "federation_event_map d' = federation_event_map d \<and> calendar_federation d' = calendar_federation d \<and>
    (calendar_events d' = calendar_events d \<or>
     calendar_events d' = sql_update (\<lambda>r. ev_id r = lid \<and> ev_origin r = Some ''remote'') (\<lambda>r. r\<lparr>
        ev_title := t, ev_description := ds, ev_start := st, ev_end := fin, ev_rrule := rr, ev_updated_at := now\<rparr>) (calendar_events d))"
  using assms unfolding update_remote_calendar_event_def by (cases rule: db_call_cases) auto

lemma insert_event_tables:
  assumes "insert_event row d = (r, d')"
  shows "federation_event_map d' = federation_event_map d \<and> calendar_federation d' = calendar_federation d \<and>
    (calendar_events d' = calendar_events d \<or>
     calendar_events d' = calendar_events d @ [row] \<and> ev_id row \<notin> ev_id ` set (calendar_events d) \<and> r = Inr ())"
  using assms by (auto simp: insert_event_def sql_insert_def split: option.splits if_splits)

lemma insert_event_err: "insert_event row d = (Inl e, d') \<Longrightarrow> d' = d"
  by (auto simp: insert_event_def split: option.splits if_splits)

text \<open>How a change of the events keeps the invariant.\<close>

lemma fed_inv_update:
  assumes "fed_inv d" "calendar_events d' = sql_update p f (calendar_events d)"
    "federation_event_map d' = federation_event_map d" "calendar_federation d' = calendar_federation d"
    and f: "\<And>e. ev_id (f e) = ev_id e \<and> ev_origin (f e) = ev_origin e \<and> ev_origin_federation (f e) = ev_origin_federation e \<and>
      ev_calendar_id (f e) = ev_calendar_id e"
  shows "fed_inv d'"
proof -
  let ?g = "\<lambda>e. if p e then f e else e"
  have set: "set (calendar_events d') = ?g ` set (calendar_events d)" by (simp add: assms(2) set_sql_update)
  have g: "ev_id (?g e) = ev_id e" "brought_in fid (?g e) = brought_in fid e" "ev_calendar_id (?g e) = ev_calendar_id e" for e fid
    using f by (simp_all add: brought_in_def)
  have "keys_unique ev_id (calendar_events d')" using assms f by (simp add: fed_inv_def keys_unique_update)
  moreover have "\<exists>e \<in> set (calendar_events d'). ev_id e = fm_local_event_id m \<and> brought_in (fm_federation_id m) e"
    if m: "m \<in> set (federation_event_map d')" for m
  proof -
    obtain e where "e \<in> set (calendar_events d)" "ev_id e = fm_local_event_id m" "brought_in (fm_federation_id m) e"
      using assms(1) m unfolding fed_inv_def assms(3) by blast
    then have "?g e \<in> set (calendar_events d') \<and> ev_id (?g e) = fm_local_event_id m \<and> brought_in (fm_federation_id m) (?g e)"
      unfolding set g by simp
    then show ?thesis by blast
  qed
  moreover have "mirrors d' fid (ev_calendar_id e)" if e: "e \<in> set (calendar_events d')" "brought_in fid e" for e fid
  proof -
    obtain e0 where "e0 \<in> set (calendar_events d)" "e = ?g e0" using e set by auto
    with e g assms(1,4) show ?thesis by (simp add: fed_inv_def mirrors_def fed_tables_def)
  qed
  ultimately show ?thesis using assms(1,4) by (simp add: fed_inv_def)
qed

lemma fed_inv_append:
  assumes "fed_inv d" "calendar_events d' = calendar_events d @ [row]" "ev_id row \<notin> ev_id ` set (calendar_events d)"
    "federation_event_map d' = federation_event_map d" "calendar_federation d' = calendar_federation d"
    and "\<And>fid. brought_in fid row \<Longrightarrow> mirrors d fid (ev_calendar_id row)"
  shows "fed_inv d'"
  using assms by (auto simp: fed_inv_def keys_unique_def mirrors_def fed_tables_def)

lemma set_map_tables:
  assumes "set_federation_event_map now fid uid lid author d = (r, d')"
  shows "calendar_events d' = calendar_events d \<and> calendar_federation d' = calendar_federation d \<and>
    (\<forall>m \<in> set (federation_event_map d'). m \<in> set (federation_event_map d) \<or> fm_federation_id m = fid \<and> fm_local_event_id m = lid)"
  using assms unfolding set_federation_event_map_def
proof (cases rule: db_call_cases)
  case (run fs)
  show ?thesis
  proof (cases "federation_event_map d' = federation_event_map d")
    case True
    with run show ?thesis by (auto split: if_splits)
  next
    case False
    let ?row = "\<lparr>fm_federation_id = fid, fm_remote_uid = uid, fm_local_event_id = lid, fm_author_email = author, fm_updated_at = now\<rparr>"
    let ?upd = "\<lambda>m::event_map_row. m\<lparr>fm_local_event_id := lid, fm_author_email := author, fm_updated_at := now\<rparr>"
    have map: "federation_event_map d' = sql_upsert map_key ?upd ?row (federation_event_map d)"
      using run False by (auto split: if_splits)
    have "m \<in> set (federation_event_map d) \<or> fm_federation_id m = fid \<and> fm_local_event_id m = lid"
      if "m \<in> set (federation_event_map d')" for m
      using that unfolding map by (rule sql_upsertE) (auto simp: map_key_def)
    with run show ?thesis by (auto split: if_splits)
  qed
qed simp

text \<open>A change that keeps the invariant, the records of federations, and every event the federation did not
  bring in.\<close>

definition isolated :: "string \<Rightarrow> db \<Rightarrow> db \<Rightarrow> bool" where
  "isolated fid d d' \<longleftrightarrow> fed_inv d' \<and> snd (snd (fed_tables d')) = snd (snd (fed_tables d)) \<and> others fid d' = others fid d"

lemma isolated_trans: "isolated fid d d1 \<Longrightarrow> isolated fid d1 d2 \<Longrightarrow> isolated fid d d2"
  by (simp add: isolated_def)

lemma isolated_same: "fed_inv d \<Longrightarrow> fed_tables d' = fed_tables d \<Longrightarrow> isolated fid d d'"
  using fed_inv_cong[of d' d] by (simp add: isolated_def others_def) (simp add: fed_tables_def)

lemma isolated_mirrors: "isolated fid d d' \<Longrightarrow> mirrors d' f c = mirrors d f c"
  by (simp add: isolated_def mirrors_def)

lemma update_remote_isolated:
  assumes inv: "fed_inv d" and m: "m \<in> set (federation_event_map d)" "fm_federation_id m = fid" "fm_local_event_id m = lid"
    and run: "update_remote_calendar_event now lid t ds st fin rr d = (r, d')"
  shows "isolated fid d d'"
proof -
  let ?p = "\<lambda>r. ev_id r = lid \<and> ev_origin r = Some ''remote''"
  let ?f = "\<lambda>r::calendar_event_row. r\<lparr>ev_title := t, ev_description := ds, ev_start := st, ev_end := fin, ev_rrule := rr, ev_updated_at := now\<rparr>"
  note tables = update_remote_tables[OF run]
  obtain e where e: "e \<in> set (calendar_events d)" "ev_id e = lid" "brought_in fid e"
    using inv m by (auto simp: fed_inv_def)
  have only: "brought_in fid e'" if "e' \<in> set (calendar_events d)" "?p e'" for e'
    using inv e that keys_unique_eq[of ev_id "calendar_events d" e' e] by (auto simp: fed_inv_def)
  have g: "brought_in fid (if ?p x then ?f x else x) = brought_in fid x" for x by (simp add: brought_in_def)
  consider "calendar_events d' = calendar_events d" | "calendar_events d' = sql_update ?p ?f (calendar_events d)"
    using tables by blast
  then show ?thesis
  proof cases
    case 1
    with tables inv show ?thesis by (intro isolated_same) (simp_all add: fed_tables_def)
  next
    case 2
    have "filter (\<lambda>x. \<not> brought_in fid x) (sql_update ?p ?f xs) = filter (\<lambda>x. \<not> brought_in fid x) xs"
      if "\<forall>x \<in> set xs. ?p x \<longrightarrow> brought_in fid x" for xs
      using that by (induction xs) (auto simp: sql_update_def g brought_in_def)
    then have "others fid d' = others fid d" using 2 only by (simp add: others_def)
    moreover have "fed_inv d'" using tables by (intro fed_inv_update[OF inv 2]) simp_all
    ultimately show ?thesis using tables by (simp add: isolated_def fed_tables_def)
  qed
qed

lemma create_remote_isolated:
  assumes inv: "fed_inv d" and mir: "mirrors d fid c"
    and run: "create_remote_calendar_event new_id now c fid t ds st fin rr d = (r, d')"
  shows "isolated fid d d'" "r = Inr lid \<Longrightarrow> \<exists>e \<in> set (calendar_events d'). ev_id e = lid \<and> brought_in fid e"
proof -
  let ?row = "(new_event new_id now c t ds st fin rr)\<lparr>ev_origin := Some ''remote'', ev_origin_federation := Some fid\<rparr>"
  have row: "brought_in f ?row = (f = fid)" "ev_id ?row = new_id" "ev_calendar_id ?row = c" for f
    by (auto simp: brought_in_def new_event_def)
  have shape: "fed_tables d' = fed_tables d \<and> (\<exists>e. r = Inl e) \<or>
      calendar_events d' = calendar_events d @ [?row] \<and> new_id \<notin> ev_id ` set (calendar_events d) \<and>
      federation_event_map d' = federation_event_map d \<and> calendar_federation d' = calendar_federation d \<and> r = Inr new_id"
    using run unfolding create_remote_calendar_event_def
  proof (cases rule: db_call_cases)
    case (run fs)
    obtain x d1 where i: "insert_event ?row (d\<lparr>faults := fs\<rparr>) = (x, d1)" by (meson surj_pair)
    show ?thesis
    proof (cases x)
      case (Inl e)
      with i run insert_event_err[OF i[unfolded Inl]] show ?thesis by (auto simp: op_defs fed_tables_def)
    next
      case (Inr u)
      have "calendar_events d1 \<noteq> calendar_events d" using i Inr by (auto simp: insert_event_def sql_insert_def split: if_splits)
      with insert_event_tables[OF i] have "calendar_events d1 = calendar_events d @ [?row]" "new_id \<notin> ev_id ` set (calendar_events d)"
        "federation_event_map d1 = federation_event_map d" "calendar_federation d1 = calendar_federation d" by (auto simp: row(2))
      with i Inr run show ?thesis by (simp add: op_defs)
    qed
  qed (simp add: fed_tables_def)
  show "isolated fid d d'"
  proof (cases "fed_tables d' = fed_tables d")
    case True
    with inv show ?thesis by (intro isolated_same)
  next
    case False
    with shape have new: "calendar_events d' = calendar_events d @ [?row]" "new_id \<notin> ev_id ` set (calendar_events d)"
      "federation_event_map d' = federation_event_map d" "calendar_federation d' = calendar_federation d" by auto
    have "fed_inv d'" using new mir row by (intro fed_inv_append[OF inv new(1)]) auto
    with new row show ?thesis by (simp add: isolated_def others_def fed_tables_def)
  qed
  show "r = Inr lid \<Longrightarrow> \<exists>e \<in> set (calendar_events d'). ev_id e = lid \<and> brought_in fid e"
    using shape row by auto
qed

lemma set_map_isolated:
  assumes inv: "fed_inv d" and e: "\<exists>e \<in> set (calendar_events d). ev_id e = lid \<and> brought_in fid e"
    and run: "set_federation_event_map now fid uid lid author d = (r, d')"
  shows "isolated fid d d'"
proof -
  note tables = set_map_tables[OF run]
  have maps: "\<exists>e \<in> set (calendar_events d'). ev_id e = fm_local_event_id m \<and> brought_in (fm_federation_id m) e"
    if m: "m \<in> set (federation_event_map d')" for m
    using bspec[OF conjunct2[OF conjunct2[OF tables]] m]
  proof
    assume "m \<in> set (federation_event_map d)"
    with inv tables show ?thesis by (simp add: fed_inv_def)
  next
    assume "fm_federation_id m = fid \<and> fm_local_event_id m = lid"
    with e tables show ?thesis by simp
  qed
  have "fed_inv d'" using inv maps tables by (simp add: fed_inv_def mirrors_def fed_tables_def)
  with tables show ?thesis by (simp add: isolated_def others_def fed_tables_def)
qed

text \<open>Storing one opened item, an item, a page: each keeps to the federation's own events, whatever the item
  says and whatever the cryptography accepts.\<close>

lemma store_payload_isolated:
  assumes inv: "fed_inv d" and mir: "mirrors d (fd_id fed) (fd_calendar_id fed)"
    and run: "store_payload now new_id fed uid p d = (r, d')"
  shows "isolated (fd_id fed) d d'"
proof -
  obtain x d1 where l: "federation_local_event (fd_id fed) uid d = (x, d1)" by (meson surj_pair)
  have same: "isolated (fd_id fed) d d1" using inv local_event_frame[OF l] by (rule isolated_same)
  have inv1: "fed_inv d1" and mir1: "mirrors d1 (fd_id fed) (fd_calendar_id fed)"
    using same mir by (simp_all add: isolated_def isolated_mirrors[OF same])
  show ?thesis
  proof (cases x)
    case (Inl e)
    with l run same show ?thesis by (simp add: store_payload_def op_bind_def)
  next
    case (Inr local)
    show ?thesis
    proof (cases local)
      case (Some lid)
      obtain m where m: "m \<in> set (federation_event_map d)" "fm_federation_id m = fd_id fed" "fm_local_event_id m = lid"
        using l Inr Some by (auto elim: local_event_ok)
      have "m \<in> set (federation_event_map d1)" using m local_event_frame[OF l] by (simp add: fed_tables_def)
      moreover have "update_remote_calendar_event now lid (ep_title p) (ep_description p) (ep_start p) (ep_end p) (ep_rrule p) d1 = (r, d')"
        using l Inr Some run by (simp add: store_payload_def op_bind_def)
      ultimately have "isolated (fd_id fed) d1 d'" using update_remote_isolated[OF inv1] m by blast
      with same show ?thesis by (rule isolated_trans)
    next
      case None
      obtain y d2 where c: "create_remote_calendar_event new_id now (fd_calendar_id fed) (fd_id fed) (ep_title p) (ep_description p)
          (ep_start p) (ep_end p) (ep_rrule p) d1 = (y, d2)" by (meson surj_pair)
      note created = create_remote_isolated[OF inv1 mir1 c]
      have "isolated (fd_id fed) d2 d'"
      proof (cases y)
        case (Inl e)
        then have "d' = d2" using l Inr None c run by (simp add: store_payload_def op_bind_def)
        with created(1) show ?thesis by (simp add: isolated_def)
      next
        case (Inr lid)
        then have "set_federation_event_map now (fd_id fed) uid lid (ep_author_email p) d2 = (r, d')"
          using l \<open>x = Inr local\<close> None c run by (simp add: store_payload_def op_bind_def)
        from set_map_isolated[OF _ created(2)[OF Inr] this] created(1) show ?thesis by (simp add: isolated_def)
      qed
      with same created(1) show ?thesis by (blast intro: isolated_trans)
    qed
  qed
qed

lemma apply_one_isolated:
  assumes "fed_inv d" "mirrors d (fd_id fed) (fd_calendar_id fed)"
    and "apply_one env codec secret fed dn cert now new_id item d = (r, d')"
  shows "isolated (fd_id fed) d d'"
proof (cases "open_item env codec secret dn cert item")
  case (Inl e)
  with assms show ?thesis by (simp add: apply_one_def isolated_same)
next
  case (Inr p)
  then have "\<exists>r'. store_payload now new_id fed (it_remote_uid item) p d = (r', d')"
    using assms(3) by (auto simp: apply_one_def fed_store_op_def split: prod.splits sum.splits)
  with store_payload_isolated[OF assms(1,2)] show ?thesis by blast
qed

lemma apply_items_isolated:
  assumes "fed_inv d" "mirrors d (fd_id fed) (fd_calendar_id fed)"
    and "apply_items env codec secret fed dn cert rnd i items n d = (m, d')"
  shows "isolated (fd_id fed) d d'"
  using assms
proof (induction items arbitrary: i n d)
  case Nil
  then show ?case by (simp add: isolated_same)
next
  case (Cons item items)
  obtain r d1 where one: "apply_one env codec secret fed dn cert (fst (rnd i)) (snd (rnd i)) item d = (r, d1)" by (meson surj_pair)
  note iso = apply_one_isolated[OF Cons.prems(1,2) one]
  let ?n = "case r of Inl _ \<Rightarrow> n | Inr _ \<Rightarrow> Suc n"
  have "apply_items env codec secret fed dn cert rnd (Suc i) items ?n d1 = (m, d')"
    using Cons.prems(3) one by (cases r) simp_all
  with Cons.IH[of d1] iso Cons.prems(2) isolated_mirrors[OF iso] have "isolated (fd_id fed) d1 d'" by (simp add: isolated_def)
  with iso show ?case by (rule isolated_trans)
qed

lemma apply_page_isolated:
  assumes "fed_inv d" "mirrors d (fd_id fed) (fd_calendar_id fed)"
    and "apply_page env codec secret fed rnd page d = (r, d')"
  shows "isolated (fd_id fed) d d'"
proof -
  have "d' = d \<or> (\<exists>dn cert n m. apply_items env codec secret fed dn cert rnd 0 (sp_items page) n d = (m, d'))"
    using assms(3) by (auto simp: apply_page_def split: option.splits sum.splits prod.splits if_splits)
  then show ?thesis
  proof
    assume "d' = d"
    with assms(1) show ?thesis by (simp add: isolated_same)
  next
    assume "\<exists>dn cert n m. apply_items env codec secret fed dn cert rnd 0 (sp_items page) n d = (m, d')"
    then show ?thesis by (elim exE) (rule apply_items_isolated[OF assms(1,2)])
  qed
qed

section \<open>Runs\<close>

text \<open>The operations on the tables of federation, and any other operation, which leaves them alone.\<close>

inductive fed_step :: "'c fed_env \<Rightarrow> fed_codec \<Rightarrow> db \<Rightarrow> db \<Rightarrow> bool" for env codec where
  local_create: "create_calendar_event i now c t ds st fin rr d = (r, d') \<Longrightarrow> fed_step env codec d d'"
| booked: "book_slot now ids req d = (r, d') \<Longrightarrow> fed_step env codec d d'"
| local_update: "update_calendar_event now eid t ds st fin rr d = (r, d') \<Longrightarrow> fed_step env codec d d'"
| local_delete: "delete_calendar_event eid d = (r, d') \<Longrightarrow> fed_step env codec d d'"
| page: "mirrors d (fd_id fed) (fd_calendar_id fed) \<Longrightarrow> apply_page env codec secret fed rnd pg d = (r, d') \<Longrightarrow> fed_step env codec d d'"
| shared_out: "create_outbound_federation i cap now c email url ty dn fp d = (r, d') \<Longrightarrow> fed_step env codec d d'"
| invited_in: "create_inbound_federation now i c email url ty dn fp cap d = (r, d') \<Longrightarrow> fed_step env codec d d'"
| settled: "settle_inbound_federation status i acct d = (r, d') \<Longrightarrow> fed_step env codec d d'"
| synced: "update_federation_sync_token now i token d = (r, d') \<Longrightarrow> fed_step env codec d d'"
| failed: "mark_federation_error i d = (r, d') \<Longrightarrow> fed_step env codec d d'"
| elsewhere: "fed_tables d' = fed_tables d \<Longrightarrow> fed_step env codec d d'"

inductive_cases fed_stepE: "fed_step env codec d d'"

inductive fed_reach :: "'c fed_env \<Rightarrow> fed_codec \<Rightarrow> db \<Rightarrow> bool" for env codec where
  start: "calendar_events d = [] \<Longrightarrow> federation_event_map d = [] \<Longrightarrow> calendar_federation d = [] \<Longrightarrow> fed_reach env codec d"
| step: "fed_reach env codec d \<Longrightarrow> fed_step env codec d d' \<Longrightarrow> fed_reach env codec d'"

lemma fed_inv_local_insert:
  assumes "insert_event (new_event i now c t ds st fin rr) d = (r, d')" "fed_inv d"
  shows "fed_inv d'"
proof -
  have "\<not> brought_in fid (new_event i now c t ds st fin rr)" for fid by (simp add: brought_in_def new_event_def)
  moreover note tables = insert_event_tables[OF assms(1)]
  ultimately show ?thesis
  proof (cases "calendar_events d' = calendar_events d")
    case True
    with tables assms(2) show ?thesis using fed_inv_cong[of d' d] by (simp add: fed_tables_def)
  next
    case False
    with tables assms(2) \<open>\<And>fid. \<not> brought_in fid (new_event i now c t ds st fin rr)\<close> show ?thesis
      by (intro fed_inv_append[of d d']) auto
  qed
qed

lemma fed_inv_create:
  assumes "create_calendar_event i now c t ds st fin rr d = (r, d')" "fed_inv d"
  shows "fed_inv d'"
  using assms(1)[unfolded create_calendar_event_def Let_def]
proof (rule db_call_preserves)
  fix d r d'
  assume "op_bind (insert_event (new_event i now c t ds st fin rr)) (\<lambda>_. op_return (new_event i now c t ds st fin rr)) d = (r, d')" "fed_inv d"
  then show "fed_inv d'" using fed_inv_local_insert by (fastforce simp: op_defs split: prod.splits sum.splits)
qed (auto simp: assms(2) intro!: fed_inv_cong simp: fed_tables_def)

lemma fed_inv_booking:
  assumes "book_slot now ids req d = (r, d')" "fed_inv d"
  shows "fed_inv d'"
proof (cases "bs_end req \<le> bs_start req")
  case True
  with assms show ?thesis by (simp add: book_slot_def op_fail_def)
next
  case False
  have tx: "fed_inv d2" if run: "book_tx now ids req d1 = (Inr b, d2)" and inv: "fed_inv d1" for b d1 d2
  proof -
    obtain page where p: "sql_select (\<lambda>r. pg_id r = bs_page_id req \<and> pg_active r) (scheduling_pages d1) = Some page"
      using run by (auto simp: book_tx_def split: option.splits)
    obtain x d3 where e: "insert_event (new_event (bi_event ids) now (pg_calendar_id page) (bs_event_title req)
        (bs_event_description req) (bs_start req) (bs_end req) None) d1 = (x, d3)" by (meson surj_pair)
    have "\<exists>row. insert_booking row d3 = (Inr b, d2)"
      using run p e by (cases x) (auto simp: book_tx_def op_bind_def split: if_splits)
    then have "fed_tables d2 = fed_tables d3" by (auto simp: insert_booking_def fed_tables_def split: option.splits if_splits)
    with fed_inv_local_insert[OF e inv] show ?thesis using fed_inv_cong by blast
  qed
  from assms(1) False have "db_call (transaction (book_tx now ids req)) d = (r, d')" by (simp add: book_slot_def)
  then show ?thesis
  proof (rule db_call_preserves)
    fix d r d' assume "transaction (book_tx now ids req) d = (r, d')" "fed_inv d"
    note this(2)
    with \<open>transaction (book_tx now ids req) d = (r, d')\<close> show "fed_inv d'" by (rule transaction_preserves) (erule tx, fact)
  qed (auto simp: assms(2) intro!: fed_inv_cong simp: fed_tables_def)
qed

lemma fed_inv_local_update:
  assumes "update_calendar_event now eid t ds st fin rr d = (r, d')" "fed_inv d"
  shows "fed_inv d'"
  using assms(1)[unfolded update_calendar_event_def]
proof (cases rule: db_call_cases)
  case (fault fs)
  with assms(2) fed_inv_cong[of d' d] show ?thesis by (simp add: fed_tables_def)
next
  case (run fs)
  let ?f = "\<lambda>r::calendar_event_row. r\<lparr>ev_updated_at := now, ev_title := patch t (ev_title r),
    ev_description := (case ds of Some x \<Rightarrow> Some x | None \<Rightarrow> ev_description r), ev_start := patch st (ev_start r),
    ev_end := patch fin (ev_end r), ev_rrule := (case rr of Some x \<Rightarrow> Some x | None \<Rightarrow> ev_rrule r)\<rparr>"
  from run have ev: "calendar_events d' = sql_update (\<lambda>r. ev_id r = eid) ?f (calendar_events d)"
    and "federation_event_map d' = federation_event_map d" "calendar_federation d' = calendar_federation d" by auto
  then show ?thesis by (intro fed_inv_update[OF assms(2) ev]) auto
qed

lemma fed_inv_delete:
  assumes "delete_calendar_event eid d = (r, d')" "fed_inv d"
  shows "fed_inv d'"
  using assms(1)[unfolded delete_calendar_event_def]
proof (cases rule: db_call_cases)
  case (fault fs)
  with assms(2) fed_inv_cong[of d' d] show ?thesis by (simp add: fed_tables_def)
next
  case (run fs)
  show ?thesis
  proof (cases "calendar_events d' = calendar_events d")
    case True
    with run assms(2) fed_inv_cong[of d' d] show ?thesis by (auto simp: fed_tables_def split: if_splits)
  next
    case False
    with run have d': "d' = (d\<lparr>faults := fs\<rparr>)\<lparr>calendar_events := sql_delete (\<lambda>r. ev_id r = eid) (calendar_events d)\<rparr>"
      and free: "eid \<in> ev_id ` set (calendar_events d) \<longrightarrow> eid \<notin> fm_local_event_id ` set (federation_event_map d)"
      by (auto split: if_splits)
    have "eid \<in> ev_id ` set (calendar_events d)" using False d' by (auto simp: sql_delete_def filter_id_conv)
    with free have "fm_local_event_id m \<noteq> eid" if "m \<in> set (federation_event_map d)" for m using that by (metis imageI)
    with assms(2) d' show ?thesis by (auto simp: fed_inv_def keys_unique_delete set_sql_delete mirrors_def fed_tables_def) metis
  qed
qed

lemma insert_federation_inv:
  assumes "insert_federation row d = (r, d')" "fed_inv d"
  shows "fed_inv d'"
proof (cases "calendar_federation d' = calendar_federation d")
  case True
  with assms fed_inv_cong[of d' d] show ?thesis
    by (auto simp: insert_federation_def fed_tables_def split: if_splits option.splits)
next
  case False
  with assms have new: "calendar_federation d' = calendar_federation d @ [row]" "fd_id row \<notin> fd_id ` set (calendar_federation d)"
    "calendar_events d' = calendar_events d" "federation_event_map d' = federation_event_map d"
    by (auto simp: insert_federation_def sql_insert_def split: if_splits option.splits)
  with assms(2) show ?thesis by (simp add: fed_inv_def keys_unique_def mirrors_def fed_tables_def)
qed

lemma fed_inv_shared:
  "create_outbound_federation i cap now c email url ty dn fp d = (r, d') \<Longrightarrow> fed_inv d \<Longrightarrow> fed_inv d'"
  "create_inbound_federation now i c email url ty dn fp cap d = (r2, d') \<Longrightarrow> fed_inv d \<Longrightarrow> fed_inv d'"
proof -
  have faults: "fed_inv (d\<lparr>faults := fs\<rparr>) = fed_inv d" for d fs by (rule fed_inv_cong) (simp add: fed_tables_def)
  show "create_inbound_federation now i c email url ty dn fp cap d = (r2, d') \<Longrightarrow> fed_inv d \<Longrightarrow> fed_inv d'"
    unfolding create_inbound_federation_def by (erule db_call_preserves[where I = fed_inv]) (auto simp: faults intro: insert_federation_inv)
  show "create_outbound_federation i cap now c email url ty dn fp d = (r, d') \<Longrightarrow> fed_inv d \<Longrightarrow> fed_inv d'"
    unfolding create_outbound_federation_def
    by (erule db_call_preserves[where I = fed_inv])
      (auto simp: faults op_defs split: prod.splits sum.splits intro: insert_federation_inv)
qed

text \<open>Changing the status or the cursor of a federation is no change of the tables.\<close>

lemma status_frame:
  "settle_inbound_federation status i acct d = (r1, d') \<Longrightarrow> fed_tables d' = fed_tables d"
  "update_federation_sync_token now i token d = (r2, d') \<Longrightarrow> fed_tables d' = fed_tables d"
  "mark_federation_error i d = (r3, d') \<Longrightarrow> fed_tables d' = fed_tables d"
proof -
  have upd: "map (\<lambda>r. (fd_id r, fd_calendar_id r)) (sql_update p f rows) = map (\<lambda>r. (fd_id r, fd_calendar_id r)) rows"
    if "\<And>r. fd_id (f r) = fd_id r \<and> fd_calendar_id (f r) = fd_calendar_id r" for p f and rows :: "federation_row list"
    using that by (simp add: sql_update_def)
  show "settle_inbound_federation status i acct d = (r1, d') \<Longrightarrow> fed_tables d' = fed_tables d"
    unfolding settle_inbound_federation_def
    by (erule db_call_cases) (auto simp: fed_tables_def authorized_update_def upd split: option.splits if_splits)
  show "update_federation_sync_token now i token d = (r2, d') \<Longrightarrow> fed_tables d' = fed_tables d"
    unfolding update_federation_sync_token_def by (erule db_call_cases) (auto simp: fed_tables_def upd)
  show "mark_federation_error i d = (r3, d') \<Longrightarrow> fed_tables d' = fed_tables d"
    unfolding mark_federation_error_def by (erule db_call_cases) (auto simp: fed_tables_def upd)
qed

lemma fed_step_inv:
  assumes "fed_step env codec d d'" "fed_inv d"
  shows "fed_inv d'"
proof -
  have same: "fed_inv d'" if "fed_tables d' = fed_tables d" using fed_inv_cong[OF that] assms(2) by simp
  from assms(1) show ?thesis
  proof (cases rule: fed_step.cases)
    case (page fed secret rnd pg r)
    from apply_page_isolated[OF assms(2) page] show ?thesis by (simp add: isolated_def)
  next
    case settled
    then show ?thesis using status_frame(1) same by blast
  next
    case synced
    then show ?thesis using status_frame(2) same by blast
  next
    case failed
    then show ?thesis using status_frame(3) same by blast
  next
    case elsewhere
    then show ?thesis by (rule same)
  qed (use assms(2) in \<open>blast intro: fed_inv_create fed_inv_booking fed_inv_local_update fed_inv_delete fed_inv_shared\<close>)+
qed

lemma mirrors_unique: "fed_inv d \<Longrightarrow> mirrors d fid c \<Longrightarrow> mirrors d fid c' \<Longrightarrow> c = c'"
proof -
  assume inv: "fed_inv d" and "mirrors d fid c" "mirrors d fid c'"
  then obtain r r' where "r \<in> set (calendar_federation d)" "fd_id r = fid" "fd_calendar_id r = c"
    "r' \<in> set (calendar_federation d)" "fd_id r' = fid" "fd_calendar_id r' = c'"
    by (auto simp: mirrors_def fed_tables_def)
  moreover from inv have "keys_unique fd_id (calendar_federation d)" by (simp add: fed_inv_def)
  ultimately show "c = c'" using keys_unique_eq by metis
qed

lemma fed_reach_inv: "fed_reach env codec d \<Longrightarrow> fed_inv d"
proof (induction rule: fed_reach.induct)
  case (start d)
  then show ?case by (simp add: fed_inv_def keys_unique_def)
next
  case (step d d')
  then show ?case using fed_step_inv by blast
qed

text \<open>C23. Isolation. In any state the server can reach, applying any page of any peer (whatever its items say and
  whatever the cryptographic operations accept) leaves every event that this federation did not bring in as it
  was, in every calendar; and every event the federation has brought in lies in its own mirror calendar.\<close>

theorem federation_isolated:
  assumes "fed_reach env codec d" "mirrors d (fd_id fed) (fd_calendar_id fed)"
    and "apply_page env codec secret fed rnd page d = (r, d')"
  shows "others (fd_id fed) d' = others (fd_id fed) d \<and>
    (\<forall>e. e \<in> set (calendar_events d') \<and> brought_in (fd_id fed) e \<longrightarrow> ev_calendar_id e = fd_calendar_id fed)"
proof -
  have iso: "isolated (fd_id fed) d d'" using apply_page_isolated[OF fed_reach_inv[OF assms(1)] assms(2,3)] .
  have "ev_calendar_id e = fd_calendar_id fed" if e: "e \<in> set (calendar_events d')" "brought_in (fd_id fed) e" for e
  proof -
    have inv: "fed_inv d'" using iso by (simp add: isolated_def)
    with e have "mirrors d' (fd_id fed) (ev_calendar_id e)" by (simp add: fed_inv_def)
    moreover have "mirrors d' (fd_id fed) (fd_calendar_id fed)" using assms(2) isolated_mirrors[OF iso] by simp
    ultimately show ?thesis using mirrors_unique[OF inv] by blast
  qed
  with iso show ?thesis by (auto simp: isolated_def)
qed

lemma demo_reach: "fed_reach demo_env demo_codec demo_sub"
proof -
  let ?d1 = "snd (create_inbound_federation 1 ''f'' ''mir'' ''al@a.test'' ''https://a.test'' Sharing ''a.test'' ''fp'' ''cap'' demo_bob)"
  have "fed_reach demo_env demo_codec demo_bob" by (rule fed_reach.start) (simp_all add: demo_bob_def empty_db_def)
  moreover have "fed_step demo_env demo_codec demo_bob ?d1" by (rule fed_step.invited_in) (rule prod.collapse[symmetric])
  moreover have "fed_step demo_env demo_codec ?d1 demo_sub" unfolding demo_sub_def by (rule fed_step.local_create) (rule prod.collapse[symmetric])
  ultimately show ?thesis by (meson fed_reach.step)
qed

lemma demo_sub_tables: "calendar_events demo_sub = [new_event ''e0'' 1 ''own'' ''mine'' None 5 6 None]"
  "mirrors demo_sub ''f'' ''mir''" by code_simp+

theorem federation_isolated_witness:
  "map ev_title (calendar_events (snd (apply_page demo_env demo_codec ''srv'' demo_fed (\<lambda>i. (9, ''n'' @ show_nat i)) demo_page demo_sub))) = [''mine'', ''theirs''] \<and>
   others ''f'' (snd (apply_page demo_env demo_codec ''srv'' demo_fed (\<lambda>i. (9, ''n'' @ show_nat i)) demo_page demo_sub))
     = [new_event ''e0'' 1 ''own'' ''mine'' None 5 6 None]"
proof
  let ?run = "apply_page demo_env demo_codec ''srv'' demo_fed (\<lambda>i. (9, ''n'' @ show_nat i)) demo_page demo_sub"
  show "map ev_title (calendar_events (snd ?run)) = [''mine'', ''theirs'']" by code_simp
  have "mirrors demo_sub (fd_id demo_fed) (fd_calendar_id demo_fed)" by code_simp
  from federation_isolated[OF demo_reach this prod.collapse[symmetric]]
  have "others (fd_id demo_fed) (snd ?run) = others (fd_id demo_fed) demo_sub" by blast
  moreover have "others ''f'' demo_sub = [new_event ''e0'' 1 ''own'' ''mine'' None 5 6 None]" by code_simp
  moreover have "fd_id demo_fed = ''f''" by code_simp
  ultimately show "others ''f'' (snd ?run) = [new_event ''e0'' 1 ''own'' ''mine'' None 5 6 None]" by simp
qed

section \<open>Signed requests\<close>

text \<open>What it takes for a request to be accepted.\<close>

lemma res_bind_Inr: "res_bind r f = Inr b \<longleftrightarrow> (\<exists>a. r = Inr a \<and> f a = Inr b)"
  by (cases r) (auto simp: res_bind_def)

lemma ok_or_Inr: "ok_or e v = Inr a \<longleftrightarrow> v = Some a"
  by (auto simp: ok_or_def split: option.splits)

lemma map_sum_Inr: "map_sum f g r = Inr b \<longleftrightarrow> (\<exists>a. r = Inr a \<and> g a = b)"
  by (cases r) auto

lemmas result_simps = res_bind_Inr ok_or_Inr map_sum_Inr

lemma federation_peer_ok:
  assumes "federation_peer domain d = (Inr p, d')"
  shows "p = pinned d (contact_of domain)" "\<exists>fs. d' = d\<lparr>faults := fs\<rparr>"
  using assms unfolding federation_peer_def by (auto simp: pinned_def dest!: db_call_okD)

lemma check_nonce_ok:
  assumes "check_and_record_nonce fp nonce t d = (Inr True, d')"
  obtains fs where "(fp, nonce) \<notin> nonce_key ` set (federation_replay_nonce d)"
    "d' = d\<lparr>faults := fs, federation_replay_nonce := federation_replay_nonce d @ [\<lparr>nn_sender_fp = fp, nn_nonce = nonce, nn_expires_at = t\<rparr>]\<rparr>"
  using assms unfolding check_and_record_nonce_def
  by (auto simp: sql_insert_def nonce_key_def split: option.splits if_splits elim!: db_call_ok)

definition request_valid :: "'c fed_env \<Rightarrow> int \<Rightarrow> string \<Rightarrow> string \<Rightarrow> headers \<Rightarrow> string \<Rightarrow> db \<Rightarrow> signed_fields \<Rightarrow> peer_row \<Rightarrow> bool" where
  "request_valid env now method path hs body d sf row \<longleftrightarrow>
     signed_fields_of env now hs = Inr sf \<and> pinned d (contact_of (sf_sender sf)) = Some row \<and>
     (\<exists>cert. sq_parse (fe_sq env) (pr_cert row) = Inr cert \<and>
       verify_detached (fe_sq env) cert (canonical_string env method path (sf_sender sf) (host_of env (fe_public_url env))
         (sf_timestamp sf) (sf_nonce sf) body) (sf_signature sf) = Inr True) \<and>
     (pr_fingerprint row, sf_nonce sf) \<notin> nonce_key ` set (federation_replay_nonce d)"

lemma verify_request_ok:
  assumes "verify_request env now now' method path hs body d = (Inr peer, d')"
  obtains sf row fs where "request_valid env now method path hs body d sf row"
    "peer = \<lparr>vp_domain = sf_sender sf, vp_fingerprint = pr_fingerprint row\<rparr>"
    "d' = d\<lparr>faults := fs, federation_replay_nonce := federation_replay_nonce d @
       [\<lparr>nn_sender_fp = pr_fingerprint row, nn_nonce = sf_nonce sf, nn_expires_at = now' + TIMESTAMP_SKEW_SECS\<rparr>]\<rparr>"
proof -
  obtain sf where sf: "signed_fields_of env now hs = Inr sf"
    using assms by (auto simp: verify_request_def split: sum.splits)
  obtain x d1 where fp: "federation_peer (sf_sender sf) d = (x, d1)" by (meson surj_pair)
  obtain row where row: "x = Inr (Some row)"
    using assms sf fp by (auto simp: verify_request_def split: sum.splits option.splits)
  note p = federation_peer_ok[OF fp[unfolded row]]
  have sig: "signature_check env method path body sf row = Inr ()" and rec: "record_request now' sf row d1 = (Inr peer, d')"
    using assms sf fp row by (auto simp: verify_request_def split: sum.splits)
  have nonce: "check_and_record_nonce (pr_fingerprint row) (sf_nonce sf) (now' + TIMESTAMP_SKEW_SECS) d1 = (Inr True, d')"
    and peer: "peer = \<lparr>vp_domain = sf_sender sf, vp_fingerprint = pr_fingerprint row\<rparr>"
    using rec by (auto simp: record_request_def split: prod.splits sum.splits if_splits)
  obtain fs where d1: "d1 = d\<lparr>faults := fs\<rparr>" using p(2) by blast
  from nonce obtain fs' where "(pr_fingerprint row, sf_nonce sf) \<notin> nonce_key ` set (federation_replay_nonce d1)"
    "d' = d1\<lparr>faults := fs', federation_replay_nonce := federation_replay_nonce d1 @
       [\<lparr>nn_sender_fp = pr_fingerprint row, nn_nonce = sf_nonce sf, nn_expires_at = now' + TIMESTAMP_SKEW_SECS\<rparr>]\<rparr>"
    by (rule check_nonce_ok)
  then have fresh: "(pr_fingerprint row, sf_nonce sf) \<notin> nonce_key ` set (federation_replay_nonce d)"
    and d': "d' = d\<lparr>faults := fs', federation_replay_nonce := federation_replay_nonce d @
       [\<lparr>nn_sender_fp = pr_fingerprint row, nn_nonce = sf_nonce sf, nn_expires_at = now' + TIMESTAMP_SKEW_SECS\<rparr>]\<rparr>"
    by (simp_all add: d1)
  have "request_valid env now method path hs body d sf row"
    unfolding request_valid_def using sf p(1) fresh sig by (auto simp: signature_check_def result_simps split: if_splits)
  from that[OF this peer d'] show thesis .
qed

lemma request_valid_nonce: "request_valid env now method path hs body d sf row \<Longrightarrow> header hs H_NONCE = Some (sf_nonce sf)"
  by (auto simp: request_valid_def signed_fields_of_def result_simps split: if_splits)

text \<open>Reading the clock and the operations on the table of nonces, in the order of time.\<close>

inductive nonce_run :: "'c fed_env \<Rightarrow> int \<Rightarrow> db \<Rightarrow> int \<Rightarrow> db \<Rightarrow> bool" for env where
  now: "nonce_run env t d t d"
| request: "nonce_run env t0 d0 t d \<Longrightarrow> t \<le> t1 \<Longrightarrow> t1 \<le> t2 \<Longrightarrow> verify_request env t1 t2 method path hs body d = (r, d') \<Longrightarrow> nonce_run env t0 d0 t2 d'"
| prune: "nonce_run env t0 d0 t d \<Longrightarrow> t \<le> t1 \<Longrightarrow> prune_expired_nonces t1 d = (r, d') \<Longrightarrow> nonce_run env t0 d0 t1 d'"
| other: "nonce_run env t0 d0 t d \<Longrightarrow> t \<le> t1 \<Longrightarrow> federation_replay_nonce d' = federation_replay_nonce d \<Longrightarrow> nonce_run env t0 d0 t1 d'"

lemma verify_request_nonces:
  assumes "verify_request env now now' method path hs body d = (r, d')" "n \<in> set (federation_replay_nonce d)"
  shows "n \<in> set (federation_replay_nonce d')"
proof -
  have peer: "federation_replay_nonce d1 = federation_replay_nonce d" if "federation_peer dn d = (x, d1)" for dn x d1
    using that unfolding federation_peer_def by (auto dest!: db_call_read)
  have rec: "n \<in> set (federation_replay_nonce d2)" if "record_request t sf row d1 = (y, d2)" "n \<in> set (federation_replay_nonce d1)" for t sf row d1 y d2
  proof -
    obtain z d3 where c: "check_and_record_nonce (pr_fingerprint row) (sf_nonce sf) (t + TIMESTAMP_SKEW_SECS) d1 = (z, d3)" by (meson surj_pair)
    then have "n \<in> set (federation_replay_nonce d3)"
      using that(2) unfolding check_and_record_nonce_def by (auto elim!: db_call_cases simp: sql_insert_def split: option.splits if_splits)
    with c that(1) show ?thesis by (auto simp: record_request_def split: sum.splits)
  qed
  show ?thesis using assms
    by (auto simp: verify_request_def split: sum.splits prod.splits option.splits dest: peer) (metis peer rec)
qed

lemma nonce_kept:
  assumes "nonce_run env t0 d0 t d" "n \<in> set (federation_replay_nonce d0)" "t < nn_expires_at n"
  shows "n \<in> set (federation_replay_nonce d)"
  using assms
proof (induction rule: nonce_run.induct)
  case (request t0 d0 t d t1 t2 meth pth hs body r d')
  then show ?case using verify_request_nonces by force
next
  case (prune t0 d0 t d t1 r d')
  then show ?case unfolding prune_expired_nonces_def by (auto elim!: db_call_cases simp: set_sql_delete)
qed auto

lemma nonce_run_later: "nonce_run env t0 d0 t d \<Longrightarrow> t0 \<le> t"
  by (induction rule: nonce_run.induct) auto

text \<open>C25. Replay. Once a signed request is accepted, no request of the same peer with the same nonce is accepted
  within 300 seconds of it, whatever requests and prunings of old nonces happen in between.\<close>

theorem replay_rejected:
  assumes "verify_request env t1 t1' method path hs body d = (Inr peer, d1)"
    and "nonce_run env t1' d1 t2 d2"
    and "verify_request env t2 t2' method2 path2 hs2 body2 d2 = (Inr peer2, d3)"
    and "header hs2 H_NONCE = header hs H_NONCE" "vp_fingerprint peer2 = vp_fingerprint peer"
  shows "t1' + 300 \<le> t2"
proof (rule ccontr)
  assume soon: "\<not> ?thesis"
  from assms(1) obtain sf row fs where a: "request_valid env t1 method path hs body d sf row"
    "peer = \<lparr>vp_domain = sf_sender sf, vp_fingerprint = pr_fingerprint row\<rparr>"
    "d1 = d\<lparr>faults := fs, federation_replay_nonce := federation_replay_nonce d @
       [\<lparr>nn_sender_fp = pr_fingerprint row, nn_nonce = sf_nonce sf, nn_expires_at = t1' + TIMESTAMP_SKEW_SECS\<rparr>]\<rparr>"
    by (rule verify_request_ok)
  from assms(3) obtain sf2 row2 fs2 where b: "request_valid env t2 method2 path2 hs2 body2 d2 sf2 row2"
    "peer2 = \<lparr>vp_domain = sf_sender sf2, vp_fingerprint = pr_fingerprint row2\<rparr>"
    by (rule verify_request_ok)
  let ?n = "\<lparr>nn_sender_fp = pr_fingerprint row, nn_nonce = sf_nonce sf, nn_expires_at = t1' + TIMESTAMP_SKEW_SECS\<rparr>"
  have "?n \<in> set (federation_replay_nonce d2)"
    using nonce_kept[OF assms(2)] a(3) soon by (simp add: TIMESTAMP_SKEW_SECS_def)
  then have "nonce_key ?n \<in> nonce_key ` set (federation_replay_nonce d2)" by (rule imageI)
  moreover have "sf_nonce sf2 = sf_nonce sf" using request_valid_nonce[OF a(1)] request_valid_nonce[OF b(1)] assms(4) by simp
  moreover have "pr_fingerprint row2 = pr_fingerprint row" using a(2) b(2) assms(5) by simp
  ultimately show False using b(1) by (simp add: nonce_key_def request_valid_def)
qed

text \<open>A request stamped 200 seconds ahead, signed by a pinned peer.\<close>

definition demo_hs :: headers where
  "demo_hs = [(H_VERSION, ''1''), (H_SERVER, ''a.test''), (H_TIMESTAMP, ''200''), (H_NONCE, ''n''),
     (H_SIGNATURE, pe_b64_encode demo_pgp (''ka|'' @ canonical_string demo_env ''GET'' ''/p'' ''a.test'' ''b.test'' 200 ''n'' []))]"

definition demo_pinned :: db where
  "demo_pinned = empty_db\<lparr>federation_peers := [\<lparr>pr_domain = ''a.test'', pr_server_url = ''https://a.test'', pr_cert = ''ka'',
     pr_fingerprint = ''fp-ka'', pr_pinned_at = 0, pr_last_seen = None\<rparr>]\<rparr>"

text \<open>The same request is accepted at 0 and, once its nonce is pruned, again at 300: the nonce is kept for 300
  seconds after the receipt, the request stays fresh for 300 seconds after its time stamp.\<close>

definition demo_once :: db where
  "demo_once = snd (verify_request demo_env 0 0 ''GET'' ''/p'' demo_hs [] demo_pinned)"

definition demo_pruned :: db where
  "demo_pruned = snd (prune_expired_nonces 300 demo_once)"

theorem replay_rejected_witness:
  "fst (verify_request demo_env 0 0 ''GET'' ''/p'' demo_hs [] demo_pinned) = Inr \<lparr>vp_domain = ''a.test'', vp_fingerprint = ''fp-ka''\<rparr> \<and>
   fst (verify_request demo_env 299 299 ''GET'' ''/p'' demo_hs [] demo_once) = Inl Replay \<and>
   fst (verify_request demo_env 300 300 ''GET'' ''/p'' demo_hs [] demo_pruned) = Inr \<lparr>vp_domain = ''a.test'', vp_fingerprint = ''fp-ka''\<rparr> \<and>
   (0 :: int) + 300 \<le> 300"
proof -
  let ?peer = "\<lparr>vp_domain = ''a.test'', vp_fingerprint = ''fp-ka''\<rparr>"
  have a: "fst (verify_request demo_env 0 0 ''GET'' ''/p'' demo_hs [] demo_pinned) = Inr ?peer" by code_simp
  have c: "fst (verify_request demo_env 300 300 ''GET'' ''/p'' demo_hs [] demo_pruned) = Inr ?peer" by code_simp
  have "nonce_run demo_env 0 demo_once 300 demo_pruned"
    unfolding demo_pruned_def by (rule nonce_run.prune[OF nonce_run.now _ prod.collapse[symmetric]]) simp
  then have "(0 :: int) + 300 \<le> 300"
    by (rule replay_rejected[of demo_env 0 0 "''GET''" "''/p''" demo_hs "[]" demo_pinned ?peer demo_once 300 demo_pruned
          300 "''GET''" "''/p''" demo_hs "[]" ?peer "snd (verify_request demo_env 300 300 ''GET'' ''/p'' demo_hs [] demo_pruned)", rotated])
      (use a c in \<open>auto simp: demo_once_def prod_eq_iff\<close>)
  moreover have "fst (verify_request demo_env 299 299 ''GET'' ''/p'' demo_hs [] demo_once) = Inl Replay" by code_simp
  ultimately show ?thesis using a c by blast
qed

text \<open>The check of freshness in the release build: within 300 seconds, or exactly \<open>2\<^sup>63\<close> seconds off, where both the
  difference and its absolute value wrap around.\<close>

lemma timestamp_fresh_iff:
  assumes "0 \<le> now" "now < 2 ^ 62" "- (2 ^ 63) \<le> ts" "ts < 2 ^ 63"
  shows "timestamp_fresh now ts \<longleftrightarrow> \<bar>now - ts\<bar> \<le> 300 \<or> now - ts = 2 ^ 63"
proof (cases "now - ts < 2 ^ 63")
  case True
  then have "wrap_i64 (now - ts) = now - ts" using assms by (simp add: wrap_i64_def)
  moreover have "wrap_i64 \<bar>now - ts\<bar> = \<bar>now - ts\<bar>" using True assms by (simp add: wrap_i64_def)
  ultimately show ?thesis using True by (auto simp: timestamp_fresh_def TIMESTAMP_SKEW_SECS_def)
next
  case False
  then have w: "wrap_i64 (now - ts) = now - ts - 2 ^ 64"
  proof -
    have "(now - ts + 2 ^ 63) mod 2 ^ 64 = (now - ts + 2 ^ 63 - 2 ^ 64) mod 2 ^ 64"
      by (metis diff_0_right mod_diff_right_eq mod_self)
    also have "\<dots> = now - ts + 2 ^ 63 - 2 ^ 64" using False assms by (intro mod_pos_pos_trivial) simp_all
    finally show ?thesis by (simp add: wrap_i64_def)
  qed
  show ?thesis
  proof (cases "now - ts = 2 ^ 63")
    case True
    then have "\<bar>wrap_i64 (now - ts)\<bar> = 2 ^ 63" using w by simp
    then have "wrap_i64 \<bar>wrap_i64 (now - ts)\<bar> = - (2 ^ 63)" by (simp add: wrap_i64_def)
    with True show ?thesis by (simp add: timestamp_fresh_def TIMESTAMP_SKEW_SECS_def)
  next
    case neq: False
    then have "\<bar>wrap_i64 (now - ts)\<bar> = 2 ^ 64 - (now - ts)" using w False assms by simp
    then have "wrap_i64 \<bar>wrap_i64 (now - ts)\<bar> = 2 ^ 64 - (now - ts)" using neq False assms by (simp add: wrap_i64_def)
    then show ?thesis using neq False assms by (simp add: timestamp_fresh_def TIMESTAMP_SKEW_SECS_def)
  qed
qed

end
