(* ===== verification/Fed_Serve.thy ===== *)
theory Fed_Serve
  imports Fed_Props
begin

text \<open>
  The serving side of calendar federation: who is served what, and that a subscriber who follows the cursors is
  served every event.
\<close>

unbundle bit_operations_syntax

section \<open>Comparison of secrets\<close>

lemma byte_inject: "byte a = byte b \<longleftrightarrow> a = b"
proof
  assume "byte a = byte b"
  then have "unat (byte a) = unat (byte b)" by simp
  then have "(of_char a :: nat) = of_char b" by (simp add: byte_def unsigned_of_nat take_bit_eq_mod nat_of_char_less_256)
  then show "a = b" by simp
qed simp

lemma xor_zero_iff: "x XOR y = 0 \<longleftrightarrow> x = y" for x y :: "'a::len word"
proof
  assume "x XOR y = 0"
  then have "(x XOR y) XOR y = y" by simp
  then show "x = y" by (simp add: xor.assoc)
qed simp

lemma fold_or_zero: "fold (\<lambda>(x, y) diff. diff OR (byte x XOR byte y)) ps acc = 0 \<longleftrightarrow> acc = 0 \<and> (\<forall>(x, y) \<in> set ps. x = y)"
proof (induction ps arbitrary: acc)
  case (Cons p ps)
  obtain x y where p: "p = (x, y)" by (cases p)
  have "acc OR (byte x XOR byte y) = 0 \<longleftrightarrow> acc = 0 \<and> x = y"
    by (simp add: or_eq_0_iff xor_zero_iff byte_inject)
  with Cons p show ?case by auto
qed auto

text \<open>The comparison without early return is equality.\<close>

lemma constant_time_eq_iff: "constant_time_eq a b \<longleftrightarrow> a = b"
proof (cases "length a = length b")
  case True
  then show ?thesis by (auto simp: constant_time_eq_def fold_or_zero list_eq_iff_zip_eq)
qed (auto simp: constant_time_eq_def)

section \<open>What a handler leaves alone\<close>

text \<open>The tables the serving side reads.\<close>

definition serve_view :: "db \<Rightarrow> calendar_event_row list \<times> account_row list \<times> calendar_row list \<times> federation_row list \<times> peer_row list" where
  "serve_view d = (calendar_events d, accounts d, calendars d, calendar_federation d, federation_peers d)"

lemma serve_view_faults [simp]: "serve_view (d\<lparr>faults := fs\<rparr>) = serve_view d"
  by (simp add: serve_view_def)

lemma db_call_view:
  assumes "db_call f d = (r, d')" "\<And>d r d'. f d = (r, d') \<Longrightarrow> serve_view d' = serve_view d"
  shows "serve_view d' = serve_view d"
  using assms(1) by (cases rule: db_call_cases) (use assms(2) in force)+

interpretation sv: key_free serve_view
  by unfold_locales (simp_all add: serve_view_def)

lemmas own_cert_view = pgp_keepsD[OF sv.keeps_own_cert]

section \<open>Authorization\<close>

lemma get_federation_ok:
  assumes "get_federation fid d = (Inr (Some f), d')"
  shows "f \<in> set (calendar_federation d)" "fd_id f = fid" "serve_view d' = serve_view d"
proof -
  obtain fs where "sql_select (\<lambda>r. fd_id r = fid) (calendar_federation d) = Some f" "d' = d\<lparr>faults := fs\<rparr>"
    using db_call_okD[OF assms[unfolded get_federation_def]] by auto
  then show "f \<in> set (calendar_federation d)" "fd_id f = fid" "serve_view d' = serve_view d"
    using sql_select_Some[of "\<lambda>r. fd_id r = fid" "calendar_federation d" f] by simp_all
qed

lemma read_views:
  "get_calendar_by_id c d = (r1, d') \<Longrightarrow> serve_view d' = serve_view d"
  "calendar_access acct c d = (r2, d') \<Longrightarrow> serve_view d' = serve_view d"
  "federation_peer domain d = (r3, d') \<Longrightarrow> serve_view d' = serve_view d"
  unfolding get_calendar_by_id_def calendar_access_def federation_peer_def
  by (erule db_call_view; simp split: if_splits)+

lemma served_calendar_view:
  assumes "served_calendar f d = (r, d')"
  shows "serve_view d' = serve_view d"
proof -
  obtain x d1 where g: "get_calendar_by_id (fd_calendar_id f) d = (x, d1)" by (meson surj_pair)
  show ?thesis
  proof (cases "\<exists>cal. x = Inr (Some cal)")
    case True
    then obtain cal where x: "x = Inr (Some cal)" by blast
    obtain y d2 where a: "calendar_access (cal_account_id cal) (cal_id cal) d1 = (y, d2)" by (meson surj_pair)
    have "d' = d2" using assms g x a by (auto simp: served_calendar_def split: sum.splits option.splits)
    with read_views(1)[OF g] read_views(2)[OF a] show ?thesis by simp
  next
    case False
    then have "d' = d1" using assms g by (auto simp: served_calendar_def split: sum.splits option.splits)
    with read_views(1)[OF g] show ?thesis by simp
  qed
qed

lemma find_peer_cert_view: "find_peer_cert env domain d = (r, d') \<Longrightarrow> serve_view d' = serve_view d"
  unfolding find_peer_cert_def by (auto split: prod.splits sum.splits option.splits dest: read_views(3))

definition uids :: "json list \<Rightarrow> json option list" where
  "uids items = map (\<lambda>j. json_get j ''remote_uid'') items"

lemma seal_events_uids: "seal_events env ent author peer email i es = Some items \<Longrightarrow> uids items = map (\<lambda>e. Some (JStr (ev_id e))) es"
proof (induction es arbitrary: i items)
  case (Cons e es)
  have "json_get (item_json env e s) ''remote_uid'' = Some (JStr (ev_id e))" for s by (simp add: item_json_def json_obj_def)
  with Cons show ?case by (auto simp: uids_def split: sum.splits)
qed (simp add: uids_def)

text \<open>The page of a calendar after a cursor.\<close>

definition events_page :: "db \<Rightarrow> string \<Rightarrow> int \<Rightarrow> string \<Rightarrow> calendar_event_row list" where
  "events_page d c since after = take MAX_EVENTS_PER_PAGE (page_order (filter (\<lambda>r. served c True r \<and> after_cursor since after r) (calendar_events d)))"

lemma serve_page_ok:
  assumes "serve_page env rnd fid f cal author peer_cert since after d = (Reply 200 j, d')"
  obtains items where "json_get j ''items'' = Some (JArr items)"
    "uids items = map (\<lambda>e. Some (JStr (ev_id e))) (events_page d (fd_calendar_id f) since after)"
proof -
  obtain x d1 where l: "list_calendar_events_page (fd_calendar_id f) since after MAX_EVENTS_PER_PAGE True d = (x, d1)" by (meson surj_pair)
  obtain events where x: "x = Inr events" using assms l by (cases x) (auto simp: serve_page_def deny_def)
  have ev: "events = events_page d (fd_calendar_id f) since after"
    using db_call_okD[OF l[unfolded x list_calendar_events_page_def]] by (auto simp: events_page_def)
  obtain email d2 where "calendar_owner_email (cal_account_id cal) d1 = (email, d2)" by (meson surj_pair)
  with assms l x obtain items cert where "seal_events env (fr_seal_entropy rnd) author peer_cert email 0 events = Some items"
    "j = page_json fid cert since events items"
    by (auto simp: serve_page_def deny_def split: option.splits)
  note sealed = seal_events_uids[OF this(1)] and j = this(2)
  have "json_get j ''items'' = Some (JArr items)" by (simp add: j page_json_def json_obj_def)
  from that[OF this] sealed ev show thesis by simp
qed

lemma capability_ok_iff: "capability_ok hs f \<longleftrightarrow> (\<exists>c. c \<noteq> [] \<and> fd_capability_secret f = Some c \<and> header hs H_CAPABILITY = Some c)"
  by (auto simp: capability_ok_def constant_time_eq_iff Let_def split: option.splits)

lemma serve_federation_ok:
  assumes "serve_federation env rnd fid f peer params d = (Reply 200 j, d')"
  obtains items where "json_get j ''items'' = Some (JArr items)"
    "uids items = map (\<lambda>e. Some (JStr (ev_id e))) (events_page d (fd_calendar_id f)
       (case Option.bind (params ''since'') parse_i64 of Some t \<Rightarrow> t | None \<Rightarrow> 0) (case params ''after'' of Some a \<Rightarrow> a | None \<Rightarrow> []))"
proof -
  let ?since = "case Option.bind (params ''since'') parse_i64 of Some t \<Rightarrow> t | None \<Rightarrow> 0"
  let ?after = "case params ''after'' of Some a \<Rightarrow> a | None \<Rightarrow> []"
  obtain x d1 where c: "served_calendar f d = (x, d1)" by (meson surj_pair)
  have nd: "fst (served_calendar f d) = Inl resp \<Longrightarrow> resp \<noteq> Reply 200 j" for resp
    by (auto simp: served_calendar_def deny_def split: prod.splits sum.splits option.splits if_splits)
  have np: "fst (find_peer_cert env dn d2) = Inl resp \<Longrightarrow> resp \<noteq> Reply 200 j" for dn d2 resp
    by (auto simp: find_peer_cert_def deny_def map_sum_def split: prod.splits sum.splits option.splits)
  obtain cal where x: "x = Inr cal" using assms c nd by (cases x) (auto simp: serve_federation_def)
  obtain y d2 where o: "own_cert (fe_pgp env) (fr_store_now rnd) (fr_own_entropy rnd) (cal_account_id cal) d1 = (y, d2)" by (meson surj_pair)
  obtain author where y: "y = Inr author" using assms c x o by (cases y) (auto simp: serve_federation_def deny_def)
  obtain z d3 where p: "find_peer_cert env (vp_domain peer) d2 = (z, d3)" by (meson surj_pair)
  obtain cert where z: "z = Inr cert" using assms c x o y p np[of "vp_domain peer" d2] by (cases z) (auto simp: serve_federation_def)
  have "serve_page env rnd fid f cal author cert ?since ?after d3 = (Reply 200 j, d')"
    using assms c x o y p z by (simp add: serve_federation_def)
  then obtain items where items: "json_get j ''items'' = Some (JArr items)"
    "uids items = map (\<lambda>e. Some (JStr (ev_id e))) (events_page d3 (fd_calendar_id f) ?since ?after)"
    by (rule serve_page_ok)
  have "serve_view d3 = serve_view d"
    using served_calendar_view[OF c] own_cert_view[OF o] find_peer_cert_view[OF p] by simp
  then have "calendar_events d3 = calendar_events d" by (simp add: serve_view_def)
  with items that show thesis by (simp add: events_page_def)
qed

text \<open>C24. Authorization. The server answers a pull with a page only if the request is validly signed by the pinned
  key of its sender, fresh and not seen before, the federation is one that serves a calendar to exactly that
  sender, under that key, and the request carries its capability; and the page holds exactly the next events, in
  order, of that one calendar after the cursor, none of them brought in from elsewhere.\<close>

theorem calendar_sync_authorized:
  assumes "calendar_sync env rnd fid params rq d = (Reply 200 j, d')"
  shows "\<exists>sf row f cap items.
    request_valid env (fr_now rnd) (fr_method rq) (canonical_path_str env (fr_uri rq)) (fr_headers rq) (fr_body rq) d sf row \<and>
    f \<in> set (calendar_federation d) \<and> fd_id f = fid \<and> fd_direction f = Some ''outbound'' \<and> active_status (fd_status f) \<and>
    fd_peer_domain f = Some (sf_sender sf) \<and> fd_peer_fingerprint f = Some (pr_fingerprint row) \<and>
    fd_capability_secret f = Some cap \<and> cap \<noteq> [] \<and> header (fr_headers rq) H_CAPABILITY = Some cap \<and>
    json_get j ''items'' = Some (JArr items) \<and>
    uids items = map (\<lambda>e. Some (JStr (ev_id e))) (events_page d (fd_calendar_id f)
      (case Option.bind (params ''since'') parse_i64 of Some t \<Rightarrow> t | None \<Rightarrow> 0) (case params ''after'' of Some a \<Rightarrow> a | None \<Rightarrow> []))"
proof -
  obtain x d1 where v: "verify env rnd rq d = (x, d1)" by (meson surj_pair)
  have "\<exists>y. verify_request env (fr_now rnd) (fr_record_now rnd) (fr_method rq) (canonical_path_str env (fr_uri rq)) (fr_headers rq) (fr_body rq) d = (y, d1) \<and>
      x = map_sum (\<lambda>e. deny (rejection_status e) (rejection_str e)) id y"
    using v by (auto simp: verify_def split: prod.splits)
  then obtain y where y: "verify_request env (fr_now rnd) (fr_record_now rnd) (fr_method rq) (canonical_path_str env (fr_uri rq)) (fr_headers rq) (fr_body rq) d = (y, d1)"
    "x = map_sum (\<lambda>e. deny (rejection_status e) (rejection_str e)) id y" by blast
  have st: "deny (rejection_status e) m \<noteq> Reply 200 j" for e m by (cases e) (simp_all add: deny_def)
  obtain peer where peer: "y = Inr peer"
    using assms v y st by (cases y) (auto simp: calendar_sync_def)
  from y(1)[unfolded peer] obtain sf row fs where ok: "request_valid env (fr_now rnd) (fr_method rq) (canonical_path_str env (fr_uri rq)) (fr_headers rq) (fr_body rq) d sf row"
    "peer = \<lparr>vp_domain = sf_sender sf, vp_fingerprint = pr_fingerprint row\<rparr>"
    "d1 = d\<lparr>faults := fs, federation_replay_nonce := federation_replay_nonce d @
       [\<lparr>nn_sender_fp = pr_fingerprint row, nn_nonce = sf_nonce sf, nn_expires_at = fr_record_now rnd + TIMESTAMP_SKEW_SECS\<rparr>]\<rparr>"
    by (rule verify_request_ok)
  have view: "serve_view d1 = serve_view d" using ok(3) by (simp add: serve_view_def)
  obtain z d2 where g: "get_federation fid d1 = (z, d2)" by (meson surj_pair)
  obtain f where z: "z = Inr (Some f)"
    using assms v y peer g by (auto simp: calendar_sync_def deny_def split: sum.splits option.splits)
  note f = get_federation_ok[OF g[unfolded z]]
  have checks: "serves_peer f peer" "capability_ok (fr_headers rq) f"
    and serve: "serve_federation env rnd fid f peer params d2 = (Reply 200 j, d')"
    using assms v y peer g z by (auto simp: calendar_sync_def deny_def split: if_splits)
  from serve obtain items where items: "json_get j ''items'' = Some (JArr items)"
    "uids items = map (\<lambda>e. Some (JStr (ev_id e))) (events_page d2 (fd_calendar_id f)
       (case Option.bind (params ''since'') parse_i64 of Some t \<Rightarrow> t | None \<Rightarrow> 0) (case params ''after'' of Some a \<Rightarrow> a | None \<Rightarrow> []))"
    by (rule serve_federation_ok)
  have "calendar_events d2 = calendar_events d" "f \<in> set (calendar_federation d)"
    using f view by (simp_all add: serve_view_def)
  with ok(1,2) f(2) checks items show ?thesis
    unfolding serves_peer_def capability_ok_iff events_page_def by auto
qed

definition demo_rnd :: fed_random where
  "demo_rnd = \<lparr>fr_now = 0, fr_record_now = 0, fr_client_now = 0, fr_client_entropy = [], fr_pin_now = 0, fr_new_calendar = ''c'',
     fr_store_now = 0, fr_own_entropy = [], fr_seal_entropy = (\<lambda>_. []),
     fr_sync = \<lparr>rr_client_now = 0, rr_client_entropy = [], rr_secret_now = 0, rr_secret_entropy = [],
       rr_rounds = (\<lambda>_. \<lparr>sy_now = 0, sy_send = \<lparr>sr_nonce = [], sr_entropy = []\<rparr>, sy_items = (\<lambda>_. (0, []))\<rparr>), rr_done_now = 0\<rparr>\<rparr>"

definition demo_serving :: db where
  "demo_serving = snd (create_outbound_federation ''g'' ''cap'' 0 ''own'' ''al@a.test'' ''https://a.test'' Sharing ''a.test'' ''fp-ka''
     (demo_sub\<lparr>federation_peers := federation_peers demo_pinned\<rparr>))"

definition demo_pull :: fed_request where
  "demo_pull = \<lparr>fr_method = ''GET'', fr_uri = ''/p'', fr_headers = demo_hs @ [(H_CAPABILITY, ''cap'')], fr_body = []\<rparr>"

definition demo_answer :: http_reply where
  "demo_answer = fst (calendar_sync demo_env demo_rnd ''g'' (\<lambda>_. None) demo_pull demo_serving)"

definition reply_json :: "http_reply \<Rightarrow> json" where
  "reply_json r = (case r of Reply _ j \<Rightarrow> j)"

theorem calendar_sync_authorized_witness:
  "demo_answer = Reply 200 (reply_json demo_answer) \<and>
   (\<exists>f items. f \<in> set (calendar_federation demo_serving) \<and> fd_id f = ''g'' \<and> json_get (reply_json demo_answer) ''items'' = Some (JArr items) \<and>
      uids items = map (\<lambda>e. Some (JStr (ev_id e))) (events_page demo_serving (fd_calendar_id f) 0 [])) \<and>
   map ev_id (events_page demo_serving ''own'' 0 []) = [''e0'']"
proof -
  have a: "demo_answer = Reply 200 (reply_json demo_answer)" by code_simp
  then have "calendar_sync demo_env demo_rnd ''g'' (\<lambda>_. None) demo_pull demo_serving =
      (Reply 200 (reply_json demo_answer), snd (calendar_sync demo_env demo_rnd ''g'' (\<lambda>_. None) demo_pull demo_serving))"
    unfolding demo_answer_def by (metis prod.collapse)
  from calendar_sync_authorized[OF this]
  have "\<exists>f items. f \<in> set (calendar_federation demo_serving) \<and> fd_id f = ''g'' \<and> json_get (reply_json demo_answer) ''items'' = Some (JArr items) \<and>
      uids items = map (\<lambda>e. Some (JStr (ev_id e))) (events_page demo_serving (fd_calendar_id f) 0 [])"
    unfolding Option.bind.simps option.case by blast
  moreover have "map ev_id (events_page demo_serving ''own'' 0 []) = [''e0'']" by code_simp
  ultimately show ?thesis using a by blast
qed

end
