(* ===== verification/Fed_Runs.thy ===== *)
theory Fed_Runs
  imports Fed_Serve
begin

text \<open>
  Results on the runs of calendar federation: a pinned key is never replaced, and a subscription whose pull
  failed once is never pulled again.
\<close>

section \<open>Pinning\<close>

definition pinned_fp :: "db \<Rightarrow> string \<Rightarrow> string option" where
  "pinned_fp d dn = map_option pr_fingerprint (pinned d dn)"

lemma find_append: "find P xs = Some p \<Longrightarrow> find P (xs @ ys) = Some p"
  by (induction xs) (auto split: if_splits)

lemma pinned_upsert:
  assumes "upsert_federation_peer now domain url cert fp d = (r, d')"
    and "\<not> fp_changed (pinned_fp d (contact_of domain)) fp" "pinned_fp d dn = Some k"
  shows "pinned_fp d' dn = Some k"
proof -
  let ?upd = "\<lambda>r::peer_row. r\<lparr>pr_server_url := url, pr_cert := cert, pr_fingerprint := fp, pr_last_seen := Some now\<rparr>"
  let ?row = "\<lparr>pr_domain = contact_of domain, pr_server_url = url, pr_cert = cert, pr_fingerprint = fp, pr_pinned_at = now, pr_last_seen = Some now\<rparr>"
  have find: "map_option pr_fingerprint (find (\<lambda>r. pr_domain r = dn) (map (\<lambda>r. if pr_domain r = c then ?upd r else r) rows)) =
      (if dn = c \<and> c \<in> pr_domain ` set rows then Some fp else map_option pr_fingerprint (find (\<lambda>r. pr_domain r = dn) rows))" for c rows
    by (induction rows) auto
  from assms(1) show ?thesis unfolding upsert_federation_peer_def
  proof (cases rule: db_call_cases)
    case (fault fs)
    with assms(3) show ?thesis by (simp add: pinned_fp_def pinned_def)
  next
    case (run fs)
    then have peers: "federation_peers d' = sql_upsert pr_domain ?upd ?row (federation_peers d)" by (auto simp: Let_def)
    show ?thesis
    proof (cases "contact_of domain \<in> pr_domain ` set (federation_peers d)")
      case True
      have "pinned_fp d' dn = (if dn = contact_of domain then Some fp else pinned_fp d dn)"
        using find[of "contact_of domain" "federation_peers d"] True peers
        by (simp add: pinned_fp_def pinned_def sql_select_def sql_upsert_def sql_update_def)
      with assms(2,3) show ?thesis by (auto simp: fp_changed_def split: if_splits)
    next
      case False
      obtain p where p: "sql_select (\<lambda>r. pr_domain r = dn) (federation_peers d) = Some p"
        using assms(3) by (auto simp: pinned_fp_def pinned_def)
      have "find (\<lambda>r. pr_domain r = dn) (federation_peers d @ [?row]) = Some p"
        using p unfolding sql_select_def by (rule find_append)
      with p assms(3) False peers show ?thesis by (simp add: pinned_fp_def pinned_def sql_select_def sql_upsert_def)
    qed
  qed
qed

lemma pinned_fp_view: "federation_peers d' = federation_peers d \<Longrightarrow> pinned_fp d' dn = pinned_fp d dn"
  by (simp add: pinned_fp_def pinned_def)

lemma serve_view_peers: "serve_view d' = serve_view d \<Longrightarrow> federation_peers d' = federation_peers d"
  by (simp add: serve_view_def)

lemma pin_candidate_keeps:
  assumes "pin_candidate sq now domain meta d = (r, d')" "pinned_fp d dn = Some k"
  shows "pinned_fp d' dn = Some k"
proof (cases "candidate_cert sq meta")
  case (Inl e)
  with assms show ?thesis by (simp add: pin_candidate_def)
next
  case (Inr cert)
  obtain x d1 where f: "federation_peer domain d = (x, d1)" by (meson surj_pair)
  have k1: "pinned_fp d1 dn = Some k" using assms(2) pinned_fp_view serve_view_peers[OF read_views(3)[OF f]] by metis
  show ?thesis
  proof (cases "d' = d1")
    case True
    with k1 show ?thesis by simp
  next
    case False
    then obtain existing bin where x: "x = Inr existing" and same: "\<not> fp_changed (map_option pr_fingerprint existing) (sq_fingerprint sq cert)"
      and bin: "sq_public sq (sq_strip sq cert) = Inr bin"
      using assms(1) Inr f by (auto simp: pin_candidate_def split: sum.splits if_splits)
    obtain y d2 where u: "upsert_federation_peer now domain (sm_server_url meta) bin (sq_fingerprint sq cert) d1 = (y, d2)" by (meson surj_pair)
    have "existing = pinned d (contact_of domain)" using federation_peer_ok(1) f x by blast
    moreover have "pinned_fp d1 (contact_of domain) = pinned_fp d (contact_of domain)"
      using pinned_fp_view serve_view_peers[OF read_views(3)[OF f]] by metis
    ultimately have "\<not> fp_changed (pinned_fp d1 (contact_of domain)) (sq_fingerprint sq cert)" using same by (simp add: pinned_fp_def)
    from pinned_upsert[OF u this k1] have k2: "pinned_fp d2 dn = Some k" .
    show ?thesis
    proof (cases y)
      case Inl': (Inl e)
      then show ?thesis using assms(1) Inr f x same bin u k2 by (simp add: pin_candidate_def)
    next
      case Inr': (Inr b)
      obtain z d3 where "federation_peer domain d2 = (z, d3)" by (meson surj_pair)
      then have "d' = d3" "federation_peers d3 = federation_peers d2"
        using assms(1) Inr f x same bin u Inr' serve_view_peers[OF read_views(3)] by (auto simp: pin_candidate_def split: sum.splits)
      with k2 pinned_fp_view show ?thesis by metis
    qed
  qed
qed

lemma try_candidates_keeps:
  "try_candidates env codec net now domain us d w = (r, d', w') \<Longrightarrow> pinned_fp d dn = Some k \<Longrightarrow> pinned_fp d' dn = Some k"
proof (induction us arbitrary: w)
  case (Cons u us)
  obtain m w1 where f: "fetch_metadata env codec net u w = (m, w1)" by (meson surj_pair)
  show ?case
  proof (cases m)
    case None
    with Cons f show ?thesis by auto
  next
    case (Some meta)
    obtain r1 d1 where "pin_candidate (fe_sq env) now domain meta d = (r1, d1)" by (meson surj_pair)
    with Cons.prems f Some pin_candidate_keeps show ?thesis by simp blast
  qed
qed simp

lemma discover_keeps:
  assumes "discover_and_pin env codec net now domain d w = (r, d', w')" "pinned_fp d dn = Some k"
  shows "pinned_fp d' dn = Some k"
  using assms by (auto simp: discover_and_pin_def dest: try_candidates_keeps split: if_splits)

text \<open>Making the server's own certificate leaves the tables of federation alone.\<close>

lemma identity_views:
  "server_identity_of d = (r1, d') \<Longrightarrow> serve_view d' = serve_view d"
  "set_server_identity now fp blob d = (r2, d') \<Longrightarrow> serve_view d' = serve_view d"
  unfolding server_identity_of_def set_server_identity_def by (erule db_call_view; auto simp: serve_view_def)+

lemma server_cert_view: "server_cert env now entropy domain d = (r, d') \<Longrightarrow> serve_view d' = serve_view d"
proof -
  have "keeps serve_view server_identity_of" "keeps serve_view (set_server_identity now fp blob)" for fp blob
    unfolding keeps_def by (metis identity_views prod.collapse)+
  then have "pgp_keeps serve_view (server_cert env now entropy domain)"
    unfolding server_cert_def
    by (auto intro!: sv.pgp_intros sv.keeps_store_cert sv.keeps_load_cert split: option.splits)
  then show "server_cert env now entropy domain d = (r, d') \<Longrightarrow> serve_view d' = serve_view d" by (rule pgp_keepsD)
qed

lemma build_client_view: "build_client env now entropy d = (r, d') \<Longrightarrow> serve_view d' = serve_view d"
  unfolding build_client_def Let_def pgp_bind_def pgp_pure_def
  by (auto split: prod.splits sum.splits dest: server_cert_view)

lemma verify_request_peers: "verify_request env now now' method path hs body d = (r, d') \<Longrightarrow> serve_view d' = serve_view d"
proof -
  have rec: "serve_view d2 = serve_view d1" if "record_request t sf row d1 = (y, d2)" for t sf row d1 y d2
  proof -
    obtain z d3 where c: "check_and_record_nonce (pr_fingerprint row) (sf_nonce sf) (t + TIMESTAMP_SKEW_SECS) d1 = (z, d3)" by (meson surj_pair)
    then have "serve_view d3 = serve_view d1"
      unfolding check_and_record_nonce_def by (rule db_call_view) (auto simp: serve_view_def split: option.splits)
    with c that show ?thesis by (auto simp: record_request_def split: sum.splits)
  qed
  show "verify_request env now now' method path hs body d = (r, d') \<Longrightarrow> serve_view d' = serve_view d"
    by (auto simp: verify_request_def split: sum.splits prod.splits option.splits dest: read_views(3)) (metis read_views(3) rec)
qed

lemma accept_invitation_peers: "accept_invitation rnd iv peer d = (r, d') \<Longrightarrow> federation_peers d' = federation_peers d"
proof -
  have ops: "account_by_email e d1 = (x1, d2) \<Longrightarrow> federation_peers d2 = federation_peers d1"
    "create_calendar i now a n ds d1 = (x2, d2) \<Longrightarrow> federation_peers d2 = federation_peers d1"
    "federation_peer dn d1 = (x3, d2) \<Longrightarrow> federation_peers d2 = federation_peers d1"
    "create_inbound_federation now i c em url ty dn fp cap d1 = (x4, d2) \<Longrightarrow> federation_peers d2 = federation_peers d1"
    for e i a n ds c em url ty dn fp cap now d1 d2 x1 x2 x3 x4
    unfolding account_by_email_def create_calendar_def federation_peer_def create_inbound_federation_def insert_federation_def Let_def
    by (erule db_call_cases; auto split: option.splits if_splits)+
  show "accept_invitation rnd iv peer d = (r, d') \<Longrightarrow> federation_peers d' = federation_peers d"
    by (auto simp: accept_invitation_def split: if_splits prod.splits sum.splits option.splits dest!: ops)
qed

text \<open>C26. Trust on first use. Whatever invitations arrive, one handler running at a time, and whatever the network answers while this server looks
  up their senders, the fingerprint once pinned for a domain stays pinned for it.\<close>

theorem pin_never_replaced:
  assumes "receive_invitation env codec net rnd rq d w = (resp, d', w')" "pinned_fp d dn = Some k"
  shows "pinned_fp d' dn = Some k"
proof (cases "fk_invitation codec (fr_body rq)")
  case None
  with assms show ?thesis by (simp add: receive_invitation_def)
next
  case (Some iv)
  show ?thesis
  proof (cases "header (fr_headers rq) H_SERVER")
    case None
    with Some assms show ?thesis by (simp add: receive_invitation_def)
  next
    case server: (Some server)
    obtain x d1 where b: "build_client env (fr_client_now rnd) (fr_client_entropy rnd) d = (x, d1)" by (meson surj_pair)
    have k1: "pinned_fp d1 dn = Some k" using assms(2) pinned_fp_view serve_view_peers[OF build_client_view[OF b]] by metis
    obtain y d2 w1 where p: "discover_and_pin env codec net (fr_pin_now rnd) (to_lowercase (trim server)) d1 w = (y, d2, w1)"
      by (metis prod_cases3)
    have k2: "pinned_fp d2 dn = Some k" using discover_keeps[OF p k1] .
    obtain z d3 where v: "verify env rnd rq d2 = (z, d3)" by (meson surj_pair)
    then have "serve_view d3 = serve_view d2" unfolding verify_def by (auto split: prod.splits dest: verify_request_peers)
    then have k3: "pinned_fp d3 dn = Some k" using k2 pinned_fp_view serve_view_peers by metis
    consider "d' = d1" | "d' = d2" | "d' = d3" | peer r where "accept_invitation rnd iv peer d3 = (r, d')"
      using assms(1) Some server b p v by (auto simp: receive_invitation_def split: sum.splits prod.splits)
    then show ?thesis
    proof cases
      case 4
      with k3 show ?thesis using pinned_fp_view accept_invitation_peers by metis
    qed (use k1 k2 k3 in simp_all)
  qed
qed

definition demo_net :: "string net" where
  "demo_net rq w = (Inr \<lparr>rs_status = 200, rs_body = w\<rparr>, w)"

definition demo_inviting :: fed_codec where
  "demo_inviting = demo_codec\<lparr>fk_invitation := (\<lambda>_. Some \<lparr>fi_federation_id = ''h'', fi_capability_secret = ''cap'',
     fi_calendar_name = ''work'', fi_inviter_email = ''al@a.test'', fi_target_email = ''bob@b.test'',
     fi_sharing_type = ''sharing'', fi_created_at = 0\<rparr>)\<rparr>"

definition demo_invite :: "string \<Rightarrow> http_reply \<times> db \<times> string" where
  "demo_invite key = receive_invitation demo_env demo_inviting demo_net demo_rnd demo_pull
     (demo_bob\<lparr>federation_peers := federation_peers demo_pinned\<rparr>) key"

text \<open>An invitation whose sender now shows another key is refused; with the pinned key it is received. Both leave
  the pin.\<close>

theorem pin_never_replaced_witness:
  "fst (demo_invite ''other'') = deny 401 ''unknown peer'' \<and> pinned_fp (fst (snd (demo_invite ''other''))) ''a.test'' = Some ''fp-ka'' \<and>
   length (calendar_federation (fst (snd (demo_invite ''ka'')))) = 1 \<and> pinned_fp (fst (snd (demo_invite ''ka''))) ''a.test'' = Some ''fp-ka''"
proof -
  have pin: "pinned_fp (demo_bob\<lparr>federation_peers := federation_peers demo_pinned\<rparr>) ''a.test'' = Some ''fp-ka''" by code_simp
  have keep: "pinned_fp (fst (snd (demo_invite key))) ''a.test'' = Some ''fp-ka''" for key
  proof -
    have "receive_invitation demo_env demo_inviting demo_net demo_rnd demo_pull
        (demo_bob\<lparr>federation_peers := federation_peers demo_pinned\<rparr>) key =
      (fst (demo_invite key), fst (snd (demo_invite key)), snd (snd (demo_invite key)))" by (simp add: demo_invite_def)
    from pin_never_replaced[OF this pin] show ?thesis .
  qed
  have "fst (demo_invite ''other'') = deny 401 ''unknown peer''" by code_simp
  moreover have "length (calendar_federation (fst (snd (demo_invite ''ka'')))) = 1" by code_simp
  ultimately show ?thesis using keep by blast
qed

section \<open>Failed pulls\<close>

interpretation cf: db_view calendar_federation
  by unfold_locales simp

lemma keeps_feds_ops:
  "keeps calendar_federation (federation_local_event fid uid)"
  "keeps calendar_federation (update_remote_calendar_event now lid t ds st fin rr)"
  "keeps calendar_federation (create_remote_calendar_event i now c fid t ds st fin rr)"
  "keeps calendar_federation (set_federation_event_map now fid uid lid author)"
  unfolding federation_local_event_def update_remote_calendar_event_def create_remote_calendar_event_def set_federation_event_map_def
  by (intro cf.keeps_call cf.keeps_bind cf.keeps_return;
      auto simp: keeps_def insert_event_def split: option.splits)+

lemma store_payload_feds: "keeps calendar_federation (store_payload now i fed uid p)"
  unfolding store_payload_def by (auto intro!: cf.keeps_bind keeps_feds_ops split: option.splits)

lemma apply_items_feds: "apply_items env codec secret fed dn cert rnd i items n d = (m, d') \<Longrightarrow> calendar_federation d' = calendar_federation d"
proof (induction items arbitrary: i n d)
  case (Cons item items)
  obtain r d1 where one: "apply_one env codec secret fed dn cert (fst (rnd i)) (snd (rnd i)) item d = (r, d1)" by (meson surj_pair)
  then have "calendar_federation d1 = calendar_federation d"
    by (auto simp: apply_one_def fed_store_op_def split: sum.splits prod.splits dest: keepsD[OF store_payload_feds])
  moreover have "apply_items env codec secret fed dn cert rnd (Suc i) items (case r of Inl _ \<Rightarrow> n | Inr _ \<Rightarrow> Suc n) d1 = (m, d')"
    using Cons.prems one by (cases r) simp_all
  ultimately show ?case using Cons.IH by simp
qed simp

lemma apply_page_feds:
  assumes "apply_page env codec secret fed rnd page d = (r, d')"
  shows "calendar_federation d' = calendar_federation d"
  using assms by (auto simp: apply_page_def split: option.splits sum.splits prod.splits if_splits dest: apply_items_feds)

lemma pull_loop_feds:
  assumes "pull_loop env codec net cl fed dn capability secret rnd i since after applied d w = Some res"
  shows "calendar_federation (fst (snd res)) = calendar_federation d"
  using assms by (rule pull_loop.raw_induct[rotated])
    (auto split: prod.splits sum.splits if_splits dest!: apply_page_feds)

text \<open>A subscription that a failed pull has ended.\<close>

definition pull_failed :: "string \<Rightarrow> db \<Rightarrow> bool" where
  "pull_failed fid d \<longleftrightarrow> fid \<in> fd_id ` set (calendar_federation d) \<and>
     (\<forall>r \<in> set (calendar_federation d). fd_id r = fid \<longrightarrow> fd_status r = ''error'')"

lemma pull_failed_cong: "calendar_federation d' = calendar_federation d \<Longrightarrow> pull_failed fid d' = pull_failed fid d"
  by (simp add: pull_failed_def)

lemma serve_view_feds: "serve_view d' = serve_view d \<Longrightarrow> calendar_federation d' = calendar_federation d"
  by (simp add: serve_view_def)

lemma pull_failed_update:
  assumes rows: "calendar_federation d' = sql_update P f (calendar_federation d)" and "pull_failed fid d"
    and f: "\<And>r. fd_id (f r) = fd_id r" "\<And>r. fd_id r = fid \<Longrightarrow> P r \<Longrightarrow> fd_status (f r) = ''error''"
  shows "pull_failed fid d'"
proof -
  have "fd_id ` set (sql_update P f rs) = fd_id ` set rs" for rs
    using f(1) by (induction rs) (auto simp: sql_update_def)
  with assms(2) show ?thesis using f by (auto simp: pull_failed_def rows) (auto simp: sql_update_def)
qed

lemma sync_token_failed:
  assumes "update_federation_sync_token now i tok d = (r, d')" "pull_failed fid d" "i \<noteq> fid"
  shows "pull_failed fid d'"
  using assms(1) unfolding update_federation_sync_token_def
proof (cases rule: db_call_cases)
  case (run fs)
  then have rows: "calendar_federation d' = sql_update (\<lambda>r. fd_id r = i)
      (\<lambda>r. r\<lparr>fd_sync_token := tok, fd_last_sync_at := Some now, fd_status := ''syncing''\<rparr>) (calendar_federation d)" by auto
  show ?thesis by (rule pull_failed_update[OF rows assms(2)]) (use assms(3) in auto)
qed (use assms(2) in \<open>simp add: pull_failed_def\<close>)

lemma mark_error_failed:
  assumes "pull_failed fid d"
  shows "pull_failed fid (snd (mark_federation_error i d))"
proof -
  obtain r d' where m: "mark_federation_error i d = (r, d')" by (meson surj_pair)
  then have "pull_failed fid d'" unfolding mark_federation_error_def
  proof (cases rule: db_call_cases)
    case (run fs)
    then have rows: "calendar_federation d' = sql_update (\<lambda>r. fd_id r = i) (\<lambda>r. r\<lparr>fd_status := ''error''\<rparr>) (calendar_federation d)" by auto
    show ?thesis by (rule pull_failed_update[OF rows assms]) auto
  qed (use assms in \<open>simp add: pull_failed_def\<close>)
  with m show ?thesis by simp
qed

lemma sync_federation_failed:
  assumes "sync_federation env codec net rnd fed d w = Some (r, d', w')" "pull_failed fid d" "fd_id fed \<noteq> fid"
  shows "pull_failed fid d'"
proof (cases "fd_capability_secret fed = None \<or> fd_peer_domain fed = None")
  case True
  with assms show ?thesis by (auto simp: sync_federation_def split: option.splits)
next
  case False
  then obtain capability dn where o: "fd_capability_secret fed = Some capability" "fd_peer_domain fed = Some dn" by auto
  obtain cl d1 where b: "build_client env (rr_client_now rnd) (rr_client_entropy rnd) d = (cl, d1)" by (meson surj_pair)
  obtain s d2 where c: "server_cert (fe_pgp env) (rr_secret_now rnd) (rr_secret_entropy rnd) (host_of env (fe_public_url env)) d1 = (s, d2)"
    by (meson surj_pair)
  have f1: "pull_failed fid d1" using assms(2) pull_failed_cong serve_view_feds[OF build_client_view[OF b]] by metis
  have f2: "pull_failed fid d2" using f1 pull_failed_cong serve_view_feds[OF server_cert_view[OF c]] by metis
  have pull: "pull_failed fid d3"
    if "pull_loop env codec net k fed dn capability sec rs i since after n d2 w = Some (y, d3, w1)" for k sec rs i since after n y d3 w1
    using f2 pull_failed_cong[OF pull_loop_feds[OF that]] by simp
  from assms(1) o b c f1 f2 show ?thesis
    by (auto simp: sync_federation_def split: sum.splits prod.splits option.splits dest!: pull intro: sync_token_failed[OF _ _ assms(3)])
qed

lemma list_active_sound:
  assumes "list_active_federations d = (r, d')"
  shows "calendar_federation d' = calendar_federation d" "r = Inr feds \<Longrightarrow> fed \<in> set feds \<Longrightarrow> fed \<in> set (calendar_federation d) \<and> active_inbound fed"
proof -
  from assms have "calendar_federation d' = calendar_federation d \<and>
      (\<forall>feds. r = Inr feds \<longrightarrow> set feds \<subseteq> {fed \<in> set (calendar_federation d). active_inbound fed})"
    unfolding list_active_federations_def by (cases rule: db_call_cases) (auto simp: Let_def)
  then show "calendar_federation d' = calendar_federation d" "r = Inr feds \<Longrightarrow> fed \<in> set feds \<Longrightarrow> fed \<in> set (calendar_federation d) \<and> active_inbound fed"
    by auto
qed

lemma failed_not_active: "pull_failed fid d \<Longrightarrow> fed \<in> set (calendar_federation d) \<Longrightarrow> active_status (fd_status fed) \<Longrightarrow> fd_id fed \<noteq> fid"
  by (auto simp: pull_failed_def active_status_def)

lemma sync_each_failed:
  "sync_each env codec net rnd i feds st d w = Some (st', d', w') \<Longrightarrow> pull_failed fid d \<Longrightarrow> fid \<notin> fd_id ` set feds \<Longrightarrow> pull_failed fid d'"
proof (induction feds arbitrary: i st d w)
  case (Cons fed feds)
  then obtain y d1 w1 where s: "sync_federation env codec net (rnd i) fed d w = Some (y, d1, w1)" by (auto split: option.splits)
  from sync_federation_failed[OF this] have "pull_failed fid d1" using Cons.prems by auto
  then have "pull_failed fid (case y of Inl _ \<Rightarrow> snd (mark_federation_error (fd_id fed) d1) | Inr _ \<Rightarrow> d1)"
    using mark_error_failed by (cases y) auto
  moreover have "\<exists>st1. sync_each env codec net rnd (Suc i) feds st1 (case y of Inl _ \<Rightarrow> snd (mark_federation_error (fd_id fed) d1) | Inr _ \<Rightarrow> d1) w1
      = Some (st', d', w')"
    using Cons.prems(1) s by (cases y) auto
  ultimately show ?case using Cons.IH Cons.prems(3) by auto
qed simp

lemma sync_all_failed:
  assumes "sync_all env codec net rnd d w = Some (r, d', w')" "pull_failed fid d"
  shows "pull_failed fid d'"
proof -
  obtain x d1 where l: "list_active_federations d = (x, d1)" by (meson surj_pair)
  have f1: "pull_failed fid d1" using assms(2) pull_failed_cong list_active_sound(1)[OF l] by metis
  show ?thesis
  proof (cases x)
    case (Inr feds)
    then have "fid \<notin> fd_id ` set feds"
      using list_active_sound(2)[OF l] failed_not_active[OF assms(2)] by (auto simp: active_inbound_def)
    with assms(1) l Inr f1 show ?thesis by (auto simp: sync_all_def dest: sync_each_failed)
  qed (use assms l f1 in \<open>auto simp: sync_all_def\<close>)
qed

lemma get_federation_found:
  assumes "get_federation i d = (Inr (Some f), d')"
  shows "f \<in> set (calendar_federation d)" "fd_id f = i" "calendar_federation d' = calendar_federation d"
  using get_federation_ok[OF assms] by (simp_all add: serve_view_def)

lemma get_federation_feds: "get_federation i d = (r, d') \<Longrightarrow> calendar_federation d' = calendar_federation d"
  unfolding get_federation_def by (erule db_call_cases) auto

lemma sync_one_failed:
  assumes "sync_one env codec net rnd i d w = Some (r, d', w')" "pull_failed fid d"
  shows "pull_failed fid d'"
proof -
  obtain x d1 where g: "get_federation i d = (x, d1)" by (meson surj_pair)
  have f1: "pull_failed fid d1" using assms(2) pull_failed_cong get_federation_feds[OF g] by metis
  show ?thesis
  proof (cases "\<exists>fed. x = Inr (Some fed) \<and> active_status (fd_status fed)")
    case True
    then obtain fed where x: "x = Inr (Some fed)" and act: "active_status (fd_status fed)" by blast
    have "fd_id fed \<noteq> fid" using failed_not_active[OF assms(2) _ act] get_federation_found(1)[OF g[unfolded x]] by blast
    with assms(1) g x f1 show ?thesis by (auto simp: sync_one_def dest: sync_federation_failed split: if_splits)
  qed (use assms(1) g f1 in \<open>auto simp: sync_one_def split: sum.splits option.splits if_splits\<close>)
qed

lemma verify_feds: "verify env rnd rq d = (r, d') \<Longrightarrow> calendar_federation d' = calendar_federation d"
  unfolding verify_def by (auto split: prod.splits sum.splits dest: verify_request_peers serve_view_feds)

lemma receive_notify_failed:
  assumes "receive_notify env codec net rnd rq d w = Some (r, d', w')" "pull_failed fid d"
  shows "pull_failed fid d'"
proof -
  obtain y d1 where v: "verify env rnd rq d = (y, d1)" by (meson surj_pair)
  have f1: "pull_failed fid d1" using assms(2) pull_failed_cong verify_feds[OF v] by metis
  show ?thesis
  proof (cases "\<exists>peer i. y = Inr peer \<and> notified_federation env (fr_body rq) = Some i")
    case True
    then obtain peer i where y: "y = Inr peer" "notified_federation env (fr_body rq) = Some i" by blast
    obtain g d2 where g: "get_federation i d1 = (g, d2)" by (meson surj_pair)
    have f2: "pull_failed fid d2" using f1 pull_failed_cong get_federation_feds[OF g] by metis
    then show ?thesis using assms(1) v y g
      by (auto simp: receive_notify_def split: sum.splits option.splits if_splits dest: sync_one_failed)
  qed (use assms(1) v f1 in \<open>auto simp: receive_notify_def split: sum.splits option.splits\<close>)
qed

lemma insert_federation_failed:
  assumes "insert_federation row d = (r, d')" "pull_failed fid d"
  shows "pull_failed fid d'"
  using assms by (auto simp: insert_federation_def pull_failed_def sql_insert_def split: if_splits option.splits)

lemma create_inbound_failed:
  assumes "create_inbound_federation now i c em url ty dn fp cap d = (r, d')" "pull_failed fid d"
  shows "pull_failed fid d'"
  using assms(1) unfolding create_inbound_federation_def
  by (cases rule: db_call_cases) (use assms(2) insert_federation_failed in \<open>auto simp: pull_failed_def\<close>)

lemma settle_failed:
  assumes "settle_inbound_federation st i acct d = (r, d')" "pull_failed fid d"
  shows "pull_failed fid d'"
  using assms(1) unfolding settle_inbound_federation_def
proof (cases rule: db_call_cases)
  case (run fs)
  then consider "calendar_federation d' = calendar_federation d"
    | "calendar_federation d' = sql_update (\<lambda>r. fd_id r = i \<and> pending_inbound (d\<lparr>faults := fs\<rparr>) acct r) (\<lambda>r. r\<lparr>fd_status := st\<rparr>) (calendar_federation d)"
    by (auto simp: authorized_update_def split: if_splits option.splits)
  then show ?thesis using assms(2)
    by cases (auto simp: pull_failed_def sql_update_def pending_inbound_def image_iff)
qed (use assms(2) in \<open>simp add: pull_failed_def\<close>)

lemma discover_feds:
  assumes "discover_and_pin env codec net now domain d w = (r, d', w')"
  shows "calendar_federation d' = calendar_federation d"
proof -
  have peer: "calendar_federation d2 = calendar_federation d1" if "federation_peer dn d1 = (x, d2)" for dn d1 x d2
    using serve_view_feds[OF read_views(3)[OF that]] .
  have ups: "calendar_federation d2 = calendar_federation d1" if "upsert_federation_peer t dn url c fp d1 = (x, d2)" for t dn url c fp d1 x d2
    using that unfolding upsert_federation_peer_def by (cases rule: db_call_cases) (auto simp: Let_def)
  have pin: "calendar_federation d2 = calendar_federation d1" if "pin_candidate sq t dn m d1 = (x, d2)" for sq t dn m d1 x d2
    using that by (auto simp: pin_candidate_def split: sum.splits prod.splits if_splits dest!: peer ups)
  have "try_candidates env codec net now domain us d w = (r, d', w') \<Longrightarrow> calendar_federation d' = calendar_federation d" for us w
  proof (induction us arbitrary: w)
    case (Cons u us)
    then show ?case by (auto split: prod.splits option.splits dest: pin)
  qed simp
  with assms show ?thesis by (auto simp: discover_and_pin_def split: if_splits)
qed

lemma receive_invitation_failed:
  assumes "receive_invitation env codec net rnd rq d w = (r, d', w')" "pull_failed fid d"
  shows "pull_failed fid d'"
proof -
  have client: "build_client env t en d1 = (x, d2) \<Longrightarrow> calendar_federation d2 = calendar_federation d1" for t en d1 x d2
    by (rule serve_view_feds) (rule build_client_view)
  have ops: "account_by_email e d1 = (x1, d2) \<Longrightarrow> calendar_federation d2 = calendar_federation d1"
    "create_calendar i now a n ds d1 = (x2, d2) \<Longrightarrow> calendar_federation d2 = calendar_federation d1"
    "federation_peer dn d1 = (x3, d2) \<Longrightarrow> calendar_federation d2 = calendar_federation d1"
    for e i a n ds dn now d1 d2 x1 x2 x3
    unfolding account_by_email_def create_calendar_def federation_peer_def Let_def
    by (erule db_call_cases; auto split: option.splits if_splits)+
  have acc: "pull_failed fid d2" if "accept_invitation rnd iv peer d1 = (x, d2)" "pull_failed fid d1" for iv peer d1 x d2
    using that by (auto simp: accept_invitation_def split: if_splits prod.splits sum.splits option.splits
        dest!: ops create_inbound_failed[where fid = fid]) (auto simp: pull_failed_def)
  show ?thesis using assms
    by (auto simp: receive_invitation_def split: option.splits sum.splits prod.splits
        dest!: client discover_feds verify_feds acc) (auto simp: pull_failed_def)
qed

text \<open>Everything the program does to subscriptions; meanwhile the network may do anything.\<close>

inductive sub_step :: "'c fed_env \<Rightarrow> fed_codec \<Rightarrow> 'w net \<Rightarrow> db \<times> 'w \<Rightarrow> db \<times> 'w \<Rightarrow> bool"
  for env :: "'c fed_env" and codec :: fed_codec and net :: "'w net" where
  pass: "sync_all env codec net rnd d w = Some (r, d', w') \<Longrightarrow> sub_step env codec net (d, w) (d', w')"
| notified: "receive_notify env codec net frnd rq d w = Some (resp, d', w') \<Longrightarrow> sub_step env codec net (d, w) (d', w')"
| invited: "receive_invitation env codec net frnd rq d w = (resp, d', w') \<Longrightarrow> sub_step env codec net (d, w) (d', w')"
| accepted: "accept_inbound_federation i acct d = (res, d') \<Longrightarrow> sub_step env codec net (d, w) (d', w)"
| rejected: "reject_inbound_federation i acct d = (res, d') \<Longrightarrow> sub_step env codec net (d, w) (d', w)"
| shared: "create_outbound_federation i capability now c em url ty dn fp d = (share, d') \<Longrightarrow> sub_step env codec net (d, w) (d', w)"
| world: "sub_step env codec net (d, w) (d, w')"

inductive sub_run :: "'c fed_env \<Rightarrow> fed_codec \<Rightarrow> 'w net \<Rightarrow> db \<times> 'w \<Rightarrow> db \<times> 'w \<Rightarrow> bool"
  for env :: "'c fed_env" and codec :: fed_codec and net :: "'w net" where
  here: "sub_run env codec net s s"
| more: "sub_run env codec net s t \<Longrightarrow> sub_step env codec net t u \<Longrightarrow> sub_run env codec net s u"

lemma create_outbound_failed:
  assumes "create_outbound_federation i capability now c em url ty dn fp d = (r, d')" "pull_failed fid d"
  shows "pull_failed fid d'"
  using assms(1) unfolding create_outbound_federation_def
proof (cases rule: db_call_cases)
  case (run fs)
  moreover have "pull_failed fid (d\<lparr>faults := fs\<rparr>)" using assms(2) by (simp add: pull_failed_def)
  ultimately show ?thesis
    by (auto simp: op_bind_def op_return_def split: prod.splits sum.splits dest: insert_federation_failed)
qed (use assms(2) in \<open>simp add: pull_failed_def\<close>)

lemma sub_step_failed:
  assumes "sub_step env codec net s t" "pull_failed fid (fst s)"
  shows "pull_failed fid (fst t)"
  using assms by cases
    (auto simp: accept_inbound_federation_def reject_inbound_federation_def dest: sync_all_failed receive_notify_failed
        receive_invitation_failed settle_failed create_outbound_failed)

text \<open>C27. A failed pull is final: once a subscription is marked failed, it stays so whatever passes, notifications,
  invitations and answers follow, and no later reconciliation pass looks at it.\<close>

theorem failed_pull_final:
  assumes "sub_run env codec net s t" "pull_failed fid (fst s)" "list_active_federations (fst t) = (Inr feds, d')"
  shows "pull_failed fid (fst t) \<and> fid \<notin> fd_id ` set feds"
proof -
  from assms(1,2) have t: "pull_failed fid (fst t)" by induction (auto dest: sub_step_failed)
  then show ?thesis using list_active_sound(2)[OF assms(3)] failed_not_active[OF t] by (auto simp: active_inbound_def)
qed

definition demo_flaky :: "bool net" where
  "demo_flaky rq up = (if up then Inr \<lparr>rs_status = 200, rs_body = []\<rparr> else Inl ''connection refused'', up)"

definition demo_paging :: fed_codec where
  "demo_paging = demo_codec\<lparr>fk_page := (\<lambda>_. Some demo_page)\<rparr>"

definition demo_subscribed :: db where
  "demo_subscribed = snd (accept_inbound_federation ''f'' ''bob'' (demo_sub\<lparr>federation_peers := federation_peers demo_pinned\<rparr>))"

definition demo_pass :: "db \<Rightarrow> bool \<Rightarrow> (nat \<times> nat \<times> nat) \<times> db" where
  "demo_pass d up = (case sync_all demo_env demo_paging demo_flaky (\<lambda>_. fr_sync demo_rnd) d up of
     Some (Inr st, d', _) \<Rightarrow> ((rs_total st, rs_succeeded st, rs_failed st), d') | _ \<Rightarrow> ((9, 9, 9), d))"

declare pull_loop.simps [code]

lemma demo_pass_tries:
  "fst (demo_pass demo_subscribed True) = (1, 1, 0)"
  "fst (demo_pass demo_subscribed False) = (1, 0, 1)"
  "fst (demo_pass (snd (demo_pass demo_subscribed False)) True) = (0, 0, 0)"
  by code_simp+

definition demo_failed :: db where
  "demo_failed = snd (demo_pass demo_subscribed False)"

definition demo_later :: db where
  "demo_later = snd (demo_pass demo_failed True)"

text \<open>With the peer reachable the pass would have pulled; with the peer down once, the next pass does not.\<close>

theorem failed_pull_final_witness:
  "fst (demo_pass demo_subscribed True) = (1, 1, 0) \<and> fst (demo_pass demo_subscribed False) = (1, 0, 1) \<and>
   pull_failed ''f'' demo_later \<and> ''f'' \<notin> fd_id ` set (projr (fst (list_active_federations demo_later)))"
proof -
  have failed: "pull_failed ''f'' demo_failed" by code_simp
  have ok: "(case sync_all demo_env demo_paging demo_flaky (\<lambda>_. fr_sync demo_rnd) demo_failed True of Some (Inr _, _, _) \<Rightarrow> True | _ \<Rightarrow> False)"
    by code_simp
  then obtain st w where "sync_all demo_env demo_paging demo_flaky (\<lambda>_. fr_sync demo_rnd) demo_failed True = Some (Inr st, demo_later, w)"
    by (auto simp: demo_later_def demo_pass_def split: option.splits sum.splits) (metis sum.exhaust)
  then have run: "sub_run demo_env demo_paging demo_flaky (demo_failed, False) (demo_later, w)"
    by (meson sub_run.intros sub_step.pass sub_step.world)
  have "isl (fst (list_active_federations demo_later)) = False" by code_simp
  then obtain feds d' where l: "list_active_federations demo_later = (Inr feds, d')" by (metis isl_def prod.collapse sum.exhaust_sel)
  show ?thesis using failed_pull_final[OF run] failed l demo_pass_tries(1,2) by simp
qed

end
