(* ===== verification/F32.thy ===== *)
theory F32
  imports Main
begin

text \<open>
  Rust's \<open>f32\<close>: the binary32 numbers of IEEE 754 with rounding to nearest, ties to even, gradual underflow and
  infinities, as far as the sources compute with them. \<open>Fin m e\<close> is the number \<open>m * 2 ^ e\<close>; results have an odd \<open>m\<close>
  or are \<open>Fin 0 0\<close>. The sign of zero is not kept.
\<close>

datatype f32 = Fin int int | Inf bool | NaN

section \<open>Rounding\<close>

function bit_length :: "int \<Rightarrow> nat" where
  "bit_length n = (if n \<le> 0 then 0 else Suc (bit_length (n div 2)))"
  by auto
termination by (relation "measure nat") auto

declare bit_length.simps [simp del]

text \<open>\<open>n / 2 ^ k\<close>, rounded to the nearest integer, to the even one at a tie.\<close>

definition round_shift :: "int \<Rightarrow> nat \<Rightarrow> int" where
  "round_shift n k =
     (let q = n div 2 ^ k; r = n mod 2 ^ k
      in if 2 * r > 2 ^ k \<or> 2 * r = 2 ^ k \<and> odd q \<and> k > 0 then q + 1 else q)"

function normal :: "int \<Rightarrow> int \<Rightarrow> f32" where
  "normal m e = (if m = 0 then Fin 0 0 else if even m then normal (m div 2) (e + 1) else Fin m e)"
  by auto
termination by (relation "measure (\<lambda>(m, e). nat \<bar>m\<bar>)") (auto elim!: evenE)

declare normal.simps [simp del]

text \<open>Rounding to 24 significant bits and to multiples of \<open>2 ^ -149\<close>; from \<open>2 ^ 128\<close> on the result is infinite.\<close>

definition f32_round :: "int \<Rightarrow> int \<Rightarrow> f32" where
  "f32_round m e =
     (let n = \<bar>m\<bar>;
          k = max (int (bit_length n) - 24) (- 149 - e)
      in if k \<le> 0 then (if int (bit_length n) + e > 128 then Inf (m < 0) else normal m e)
         else let q = round_shift n (nat k)
              in if int (bit_length q) + e + k > 128 then Inf (m < 0) else normal (sgn m * q) (e + k))"

section \<open>Comparison\<close>

definition align :: "int \<Rightarrow> int \<Rightarrow> int \<Rightarrow> int" where
  "align m e k = m * 2 ^ nat (e - k)"

fun f32_le :: "f32 \<Rightarrow> f32 \<Rightarrow> bool" where
  "f32_le NaN _ = False"
| "f32_le _ NaN = False"
| "f32_le (Inf s) x = (s \<or> x = Inf False)"
| "f32_le x (Inf s) = (\<not> s)"
| "f32_le (Fin m e) (Fin m' e') = (align m e (min e e') \<le> align m' e' (min e e'))"

abbreviation f32_ge :: "f32 \<Rightarrow> f32 \<Rightarrow> bool" where
  "f32_ge x y \<equiv> f32_le y x"

definition f32_gt :: "f32 \<Rightarrow> f32 \<Rightarrow> bool" where
  "f32_gt x y \<longleftrightarrow> f32_le y x \<and> \<not> f32_le x y"

text \<open>\<open>max\<close> and \<open>min\<close> ignore a NaN; \<open>clamp\<close> keeps it.\<close>

definition f32_max :: "f32 \<Rightarrow> f32 \<Rightarrow> f32" where
  "f32_max x y = (if x = NaN then y else if y = NaN then x else if f32_le x y then y else x)"

definition f32_min :: "f32 \<Rightarrow> f32 \<Rightarrow> f32" where
  "f32_min x y = (if x = NaN then y else if y = NaN then x else if f32_le x y then x else y)"

definition f32_clamp :: "f32 \<Rightarrow> f32 \<Rightarrow> f32 \<Rightarrow> f32" where
  "f32_clamp lo hi x = (if f32_gt lo x then lo else if f32_gt x hi then hi else x)"

section \<open>Arithmetic\<close>

fun f32_add :: "f32 \<Rightarrow> f32 \<Rightarrow> f32" where
  "f32_add NaN _ = NaN"
| "f32_add _ NaN = NaN"
| "f32_add (Inf s) (Inf s') = (if s = s' then Inf s else NaN)"
| "f32_add (Inf s) _ = Inf s"
| "f32_add _ (Inf s) = Inf s"
| "f32_add (Fin m e) (Fin m' e') = (let k = min e e' in f32_round (align m e k + align m' e' k) k)"

fun f32_neg :: "f32 \<Rightarrow> f32" where
  "f32_neg NaN = NaN"
| "f32_neg (Inf s) = Inf (\<not> s)"
| "f32_neg (Fin m e) = Fin (- m) e"

fun f32_mul :: "f32 \<Rightarrow> f32 \<Rightarrow> f32" where
  "f32_mul NaN _ = NaN"
| "f32_mul _ NaN = NaN"
| "f32_mul (Inf s) (Inf s') = Inf (s \<noteq> s')"
| "f32_mul (Inf s) (Fin m e) = (if m = 0 then NaN else Inf (s \<noteq> (m < 0)))"
| "f32_mul (Fin m e) (Inf s) = (if m = 0 then NaN else Inf (s \<noteq> (m < 0)))"
| "f32_mul (Fin m e) (Fin m' e') = f32_round (m * m') (e + e')"

text \<open>The quotient of two integers to 26 bits and more, with a last bit that says whether a rest is left.\<close>

definition quotient :: "int \<Rightarrow> int \<Rightarrow> nat \<Rightarrow> int" where
  "quotient a b s = (let n = a * 2 ^ s in 2 * (n div b) + (if n mod b = 0 then 0 else 1))"

fun f32_div :: "f32 \<Rightarrow> f32 \<Rightarrow> f32" where
  "f32_div NaN _ = NaN"
| "f32_div _ NaN = NaN"
| "f32_div (Inf s) (Inf s') = NaN"
| "f32_div (Inf s) (Fin m e) = Inf (s \<noteq> (m < 0))"
| "f32_div (Fin m e) (Inf s) = Fin 0 0"
| "f32_div (Fin m e) (Fin m' e') =
     (if m' = 0 then (if m = 0 then NaN else Inf (m < 0))
      else let s = 26 + bit_length \<bar>m'\<bar>
           in f32_round (sgn m * sgn m' * quotient \<bar>m\<bar> \<bar>m'\<bar> s) (e - e' - int s - 1))"

text \<open>\<open>as f32\<close> of an unsigned integer, and a decimal literal \<open>n / 10 ^ k\<close>.\<close>

definition f32_of_nat :: "nat \<Rightarrow> f32" where
  "f32_of_nat n = f32_round (int n) 0"

definition f32_lit :: "nat \<Rightarrow> nat \<Rightarrow> f32" where
  "f32_lit n k = f32_div (Fin (int n) 0) (Fin (10 ^ k) 0)"

declare f32_add.simps [simp del] f32_mul.simps [simp del] f32_div.simps [simp del] f32_neg.simps [simp del] f32_le.simps [simp del]

section \<open>The order\<close>

lemma align_step: "k' \<le> k \<Longrightarrow> k \<le> e \<Longrightarrow> align m e k' = align m e k * 2 ^ nat (k - k')"
  by (simp add: align_def power_add[symmetric] nat_add_distrib[symmetric])

lemma f32_le_Fin:
  assumes "k \<le> e" "k \<le> e'"
  shows "f32_le (Fin m e) (Fin m' e') \<longleftrightarrow> align m e k \<le> align m' e' k"
  using assms by (simp add: f32_le.simps align_step[of k "min e e'"])

lemma f32_le_trans: "f32_le x y \<Longrightarrow> f32_le y z \<Longrightarrow> f32_le x z"
proof (cases x; cases y; cases z)
  fix m e m' e' m'' e''
  assume xyz: "x = Fin m e" "y = Fin m' e'" "z = Fin m'' e''" and le: "f32_le x y" "f32_le y z"
  define k where "k = min e (min e' e'')"
  have k: "k \<le> e" "k \<le> e'" "k \<le> e''" by (simp_all add: k_def)
  from le have "align m e k \<le> align m' e' k" "align m' e' k \<le> align m'' e'' k"
    unfolding xyz f32_le_Fin[OF k(1,2)] f32_le_Fin[OF k(2,3)] .
  then show "f32_le x z" unfolding xyz f32_le_Fin[OF k(1,3)] by (rule order_trans)
qed (auto simp: f32_le.simps)

end
