(* ===== verification/Spam.thy ===== *)
theory Spam
  imports Account_Data Pgp F32
begin

text \<open>
  \<open>crates/owney-spam\<close>: the rules, the classifier and the scanner. The Unicode tables of the standard library, the
  iteration order of a hash set, and \<open>ln\<close>, \<open>exp\<close> and the formatting of floating-point numbers are the record \<open>text_env\<close>. A
  panic is the value \<open>None\<close>.
\<close>

record text_env =
  te_lower :: "string \<Rightarrow> string"
  te_words :: "string \<Rightarrow> string list"
  te_all_caps :: "string \<Rightarrow> bool"
  te_hash_order :: "string list \<Rightarrow> string list"
  te_ln :: "f32 \<Rightarrow> f32"
  te_exp :: "f32 \<Rightarrow> f32"
  te_percent :: "f32 \<Rightarrow> string"

section \<open>Headers\<close>

definition contains :: "string \<Rightarrow> string \<Rightarrow> bool" where
  "contains s p \<longleftrightarrow> find_sub p s \<noteq> None"

definition LFs :: string where "LFs = [CHR 0x0A]"

definition CRLFs :: string where "CRLFs = [CHR 0x0D, CHR 0x0A]"

definition header_seen :: "string \<Rightarrow> string \<Rightarrow> bool" where
  "header_seen msg name \<longleftrightarrow> contains msg (LFs @ name @ '':'') \<or> contains msg (CRLFs @ name @ '':'')"

text \<open>The UTF-8 encodings of the white space outside ASCII: U+0085, U+00A0, U+1680, U+2000 to U+200A, U+2028, U+2029,
  U+202F, U+205F and U+3000.\<close>

definition WIDE_SPACES :: "string list" where
  "WIDE_SPACES = [[CHR 0xC2, CHR 0x85], [CHR 0xC2, CHR 0xA0], [CHR 0xE1, CHR 0x9A, CHR 0x80]] @
     map (\<lambda>n. [CHR 0xE2, CHR 0x80, char_of n]) ([0x80..<0x8B] @ [0xA8, 0xA9, 0xAF]) @
     [[CHR 0xE2, CHR 0x81, CHR 0x9F], [CHR 0xE3, CHR 0x80, CHR 0x80]]"

definition space_len :: "string \<Rightarrow> nat" where
  "space_len s =
     (case s of [] \<Rightarrow> 0
      | c # _ \<Rightarrow> if is_space c then 1
                 else case find (\<lambda>w. starts_with w s) WIDE_SPACES of None \<Rightarrow> 0 | Some w \<Rightarrow> length w)"

text \<open>The number of white-space characters at the start, and what follows them.\<close>

function skip_spaces :: "string \<Rightarrow> nat \<times> string" where
  "skip_spaces s = (if space_len s = 0 \<or> s = [] then (0, s) else map_prod Suc id (skip_spaces (drop (space_len s) s)))"
  by pat_completeness auto
termination by (relation "measure length") auto

declare skip_spaces.simps [simp del]

definition ends_space :: "string \<Rightarrow> nat" where
  "ends_space s =
     (case rev s of [] \<Rightarrow> 0
      | c # _ \<Rightarrow> if is_space c then 1
                 else case find (\<lambda>w. starts_with (rev w) (rev s)) WIDE_SPACES of None \<Rightarrow> 0 | Some w \<Rightarrow> length w)"

function drop_end_spaces :: "string \<Rightarrow> string" where
  "drop_end_spaces s = (if ends_space s = 0 \<or> s = [] then s else drop_end_spaces (take (length s - ends_space s) s))"
  by pat_completeness auto
termination by (relation "measure length") auto

declare drop_end_spaces.simps [simp del]

definition u_trim :: "string \<Rightarrow> string" where
  "u_trim s = drop_end_spaces (snd (skip_spaces s))"

text \<open>White space is skipped by counting characters and adding the count to a byte index: the slice that follows
  panics when the index falls inside a character.\<close>

definition char_boundary :: "string \<Rightarrow> bool" where
  "char_boundary s = (case s of [] \<Rightarrow> True | c # _ \<Rightarrow> \<not> byte_in 0x80 0xBF c)"

definition extract_header :: "string \<Rightarrow> string \<Rightarrow> string option option" where
  "extract_header msg name =
     (let cr = CRLFs @ name @ '':''; lf = LFs @ name @ '':'';
          start = (case find_sub cr msg of
                     Some i \<Rightarrow> Some (i + length cr)
                   | None \<Rightarrow> map_option (\<lambda>i. i + length lf) (find_sub lf msg))
      in case start of
           None \<Rightarrow> Some None
         | Some start \<Rightarrow>
             (let rest = drop start msg;
                  (n, after) = skip_spaces rest;
                  body = drop (if after = [] then 0 else n) rest
              in if \<not> char_boundary body then None
                 else Some (Some (u_trim (case find_sub LFs body of None \<Rightarrow> body | Some i \<Rightarrow> take i body)))))"

section \<open>Rules\<close>

definition PHISHING_PATTERNS :: "string list" where
  "PHISHING_PATTERNS = [''verify account'', ''confirm password'', ''update payment'', ''click here'', ''urgent action'', ''limited time'']"

definition contains_phishing_keyword :: "text_env \<Rightarrow> string \<Rightarrow> bool" where
  "contains_phishing_keyword env s \<longleftrightarrow> (\<exists>p \<in> set PHISHING_PATTERNS. contains (te_lower env s) p)"

definition EXECUTABLE_EXTS :: "string list" where
  "EXECUTABLE_EXTS = [''.exe'', ''.bat'', ''.scr'', ''.vbs'', ''.js'', ''.zip'']"

definition executable_ext :: "text_env \<Rightarrow> string \<Rightarrow> string option" where
  "executable_ext env msg = find (\<lambda>ext. contains (te_lower env msg) (''filename=\"'' @ tl ext)) EXECUTABLE_EXTS"

text \<open>The rules in their order: whether each one matches, what it adds to the score, and its name.\<close>

definition rule_list :: "text_env \<Rightarrow> string \<Rightarrow> string option \<Rightarrow> (bool \<times> f32 \<times> string) list" where
  "rule_list env msg subj =
     (let on_subject = (\<lambda>P. case subj of None \<Rightarrow> False | Some s \<Rightarrow> P s);
          ext = executable_ext env msg
      in [(\<not> header_seen msg ''Date'', f32_lit 15 2, ''MISSING_DATE''),
          (\<not> header_seen msg ''Message-ID'', f32_lit 10 2, ''MISSING_MESSAGE_ID''),
          (on_subject (\<lambda>s. length s > 10 \<and> te_all_caps env s), f32_lit 15 2, ''ALL_CAPS_SUBJECT''),
          (on_subject (\<lambda>s. length (filter (\<lambda>c. c = CHR ''!'' \<or> c = CHR ''?'') s) > 3), f32_lit 10 2, ''EXCESSIVE_PUNCTUATION''),
          (ext \<noteq> None, f32_lit 20 2, ''EXECUTABLE_ATTACHMENT'' @ (case ext of None \<Rightarrow> [] | Some e \<Rightarrow> e)),
          (\<not> header_seen msg ''Received'', f32_lit 10 2, ''NO_RECEIVED_HEADERS''),
          (on_subject (contains_phishing_keyword env), f32_lit 20 2, ''PHISHING_SUBJECT'')])"

definition rule_sum :: "(bool \<times> f32 \<times> string) list \<Rightarrow> f32" where
  "rule_sum rules = fold (\<lambda>(hit, w, _) score. if hit then f32_add score w else score) rules (Fin 0 0)"

definition check_message :: "text_env \<Rightarrow> string \<Rightarrow> (f32 \<times> string list) option" where
  "check_message env raw =
     (let msg = utf8_lossy raw
      in case extract_header msg ''Subject'' of
           None \<Rightarrow> None
         | Some subj \<Rightarrow>
             (let rules = rule_list env msg subj
              in Some (f32_min (rule_sum rules) (Fin 1 0), map (\<lambda>(_, _, n). n) (filter fst rules))))"

section \<open>Classifier\<close>

definition tokenize :: "text_env \<Rightarrow> string \<Rightarrow> string list" where
  "tokenize env raw =
     te_hash_order env (remdups (filter (\<lambda>w. 3 \<le> length w \<and> length w < 100) (map (te_lower env) (te_words env (utf8_lossy raw)))))"

definition token_score :: "text_env \<Rightarrow> nat \<Rightarrow> nat \<Rightarrow> nat \<times> nat \<Rightarrow> f32 \<Rightarrow> f32" where
  "token_score env total_spam total_ham c acc =
     (let p_spam = f32_div (f32_add (f32_of_nat (fst c)) (Fin 1 0)) (f32_add (f32_of_nat total_spam) (Fin 2 0));
          p_ham = f32_div (f32_add (f32_of_nat (snd c)) (Fin 1 0)) (f32_add (f32_of_nat total_ham) (Fin 2 0))
      in if f32_gt p_ham (Fin 0 0) then f32_add acc (te_ln env (f32_max (f32_div p_spam p_ham) (f32_lit 1 10))) else acc)"

text \<open>The sums of the counts are \<open>u32\<close>; the map has the tokens as its keys.\<close>

definition bayes_probability :: "text_env \<Rightarrow> (string \<Rightarrow> (nat \<times> nat) option) \<Rightarrow> string list \<Rightarrow> f32" where
  "bayes_probability env counts tokens =
     (let count = (\<lambda>t. case counts t of None \<Rightarrow> (0, 0) | Some c \<Rightarrow> c);
          total = (\<lambda>f. nat (int (sum_list (map (\<lambda>t. f (count t)) (remdups tokens))) mod 2 ^ 32));
          log_ratio = fold (\<lambda>t. token_score env (total fst) (total snd) (count t)) tokens (Fin 0 0)
      in f32_clamp (Fin 0 0) (Fin 1 0) (f32_div (Fin 1 0) (f32_add (Fin 1 0) (te_exp env (f32_neg log_ratio)))))"

definition classify :: "text_env \<Rightarrow> string \<Rightarrow> string \<Rightarrow> db \<Rightarrow> f32 option \<times> db" where
  "classify env acct raw d =
     (let tokens = tokenize env raw
      in if tokens = [] then (None, d)
         else case get_spam_token_counts acct tokens d of
                (Inl _, d1) \<Rightarrow> (None, d1)
              | (Inr counts, d1) \<Rightarrow> (if list_all (\<lambda>t. counts t = None) tokens then None else Some (bayes_probability env counts tokens), d1))"

section \<open>Scanner\<close>

record spam_verdict =
  sv_score :: f32
  sv_matched_rules :: "string list"
  sv_dnsbl_hits :: "string list"
  sv_bayes_prob :: "f32 option"

definition default_verdict :: spam_verdict where
  "default_verdict = \<lparr>sv_score = Fin 0 0, sv_matched_rules = [], sv_dnsbl_hits = [], sv_bayes_prob = None\<rparr>"

text \<open>No zone is looked up yet.\<close>

definition check_ip :: "string list \<Rightarrow> string \<Rightarrow> (string, string list) result" where
  "check_ip zones ip = Inr []"

definition add_dnsbl :: "(string, string list) result \<Rightarrow> spam_verdict \<Rightarrow> spam_verdict" where
  "add_dnsbl r v =
     (case r of
        Inl _ \<Rightarrow> v
      | Inr hits \<Rightarrow>
          if hits = [] then v\<lparr>sv_dnsbl_hits := hits\<rparr>
          else v\<lparr>sv_dnsbl_hits := hits, sv_score := f32_add (sv_score v) (f32_lit 3 1),
                 sv_matched_rules := sv_matched_rules v @ [''DNSBL hit: '' @ join '', '' hits]\<rparr>)"

definition add_rules :: "f32 \<times> string list \<Rightarrow> spam_verdict \<Rightarrow> spam_verdict" where
  "add_rules r v = v\<lparr>sv_score := f32_add (sv_score v) (f32_mul (fst r) (f32_lit 5 1)), sv_matched_rules := sv_matched_rules v @ snd r\<rparr>"

definition add_bayes :: "text_env \<Rightarrow> f32 option \<Rightarrow> spam_verdict \<Rightarrow> spam_verdict" where
  "add_bayes env r v =
     (case r of
        None \<Rightarrow> v
      | Some p \<Rightarrow> v\<lparr>sv_bayes_prob := Some p,
          sv_score := f32_add (f32_mul (sv_score v) (f32_lit 3 1)) (f32_mul p (f32_lit 7 1)),
          sv_matched_rules := sv_matched_rules v @
            (if f32_gt p (f32_lit 8 1) then [''Bayes: '' @ te_percent env (f32_mul p (Fin 100 0)) @ ''% spam''] else [])\<rparr>)"

definition scan :: "text_env \<Rightarrow> string list \<Rightarrow> string \<Rightarrow> string \<Rightarrow> string \<Rightarrow> db \<Rightarrow> (spam_verdict \<times> db) option" where
  "scan env zones ip acct raw d =
     (case check_message env raw of
        None \<Rightarrow> None
      | Some rules \<Rightarrow>
          (case classify env acct raw d of
             (p, d1) \<Rightarrow>
               (let v = add_bayes env p (add_rules rules (add_dnsbl (check_ip zones ip) default_verdict))
                in Some (v\<lparr>sv_score := f32_clamp (Fin 0 0) (Fin 1 0) (sv_score v)\<rparr>, d1))))"

section \<open>What a message can score\<close>

lemma literals:
  "f32_lit 10 2 = Fin 13421773 (- 27)" "f32_lit 15 2 = Fin 5033165 (- 25)" "f32_lit 20 2 = Fin 13421773 (- 26)"
  "f32_lit 3 1 = Fin 5033165 (- 24)" "f32_lit 5 1 = Fin 1 (- 1)" "f32_lit 7 1 = Fin 11744051 (- 24)"
  by code_simp+

text \<open>Every sum the rules can come to, whichever of them match.\<close>

definition reachable_sums :: "f32 list \<Rightarrow> f32 list \<Rightarrow> f32 list" where
  "reachable_sums ws sums = fold (\<lambda>w acc. remdups (acc @ map (\<lambda>s. f32_add s w) acc)) ws sums"

lemma fold_reachable:
  "s \<in> set sums \<Longrightarrow>
   fold (\<lambda>(hit, w, _) score. if hit then f32_add score w else score) rules s \<in> set (reachable_sums (map (\<lambda>(_, w, _). w) rules) sums)"
proof (induction rules arbitrary: s sums)
  case (Cons r rules)
  then show ?case by (cases r) (auto simp: reachable_sums_def)
qed (simp add: reachable_sums_def)

definition half_weighted :: "f32 \<Rightarrow> f32" where
  "half_weighted s = f32_add (Fin 0 0) (f32_mul (f32_min s (Fin 1 0)) (Fin 1 (- 1)))"

definition low :: "f32 \<Rightarrow> bool" where
  "low s \<longleftrightarrow> f32_le (f32_clamp (Fin 0 0) (Fin 1 0) s) (Fin 1 (- 1))"

definition with_bayes :: "f32 \<Rightarrow> f32 \<Rightarrow> f32" where
  "with_bayes p s = f32_add (f32_mul s (Fin 5033165 (- 24))) (f32_mul p (Fin 11744051 (- 24)))"

lemma reachable_low:
  "list_all (\<lambda>s. low (half_weighted s) \<and> low (with_bayes (Fin 1 (- 1)) (half_weighted s)))
     (reachable_sums [Fin 5033165 (- 25), Fin 13421773 (- 27), Fin 5033165 (- 25), Fin 13421773 (- 27), Fin 13421773 (- 26),
        Fin 13421773 (- 27), Fin 13421773 (- 26)] [Fin 0 0])"
  by code_simp

lemma rule_weights:
  "map (\<lambda>(_, w, _). w) (rule_list env msg subj) =
     [Fin 5033165 (- 25), Fin 13421773 (- 27), Fin 5033165 (- 25), Fin 13421773 (- 27), Fin 13421773 (- 26), Fin 13421773 (- 27), Fin 13421773 (- 26)]"
  by (simp add: rule_list_def Let_def literals)

lemma check_message_low:
  assumes "check_message env raw = Some (s, names)"
  shows "\<exists>t. f32_add (Fin 0 0) (f32_mul s (f32_lit 5 1)) = half_weighted t \<and> low (half_weighted t) \<and> low (with_bayes (Fin 1 (- 1)) (half_weighted t))"
proof -
  obtain subj where s: "s = f32_min (rule_sum (rule_list env (utf8_lossy raw) subj)) (Fin 1 0)"
    using assms by (auto simp: check_message_def Let_def split: option.splits)
  let ?t = "rule_sum (rule_list env (utf8_lossy raw) subj)"
  have "?t \<in> set (reachable_sums (map (\<lambda>(_, w, _). w) (rule_list env (utf8_lossy raw) subj)) [Fin 0 0])"
    unfolding rule_sum_def by (rule fold_reachable) simp
  then have "low (half_weighted ?t) \<and> low (with_bayes (Fin 1 (- 1)) (half_weighted ?t))"
    using reachable_low unfolding rule_weights by (simp add: list_all_iff)
  with s show ?thesis unfolding half_weighted_def literals by blast
qed

text \<open>An account without training: every ratio is one.\<close>

definition untrained :: "string \<Rightarrow> db \<Rightarrow> bool" where
  "untrained acct d \<longleftrightarrow> (\<forall>r \<in> set (spam_tokens d). sp_account_id r \<noteq> acct)"

lemma even_odds:
  "f32_max (f32_div (f32_div (f32_add (f32_of_nat 0) (Fin 1 0)) (f32_add (f32_of_nat 0) (Fin 2 0)))
     (f32_div (f32_add (f32_of_nat 0) (Fin 1 0)) (f32_add (f32_of_nat 0) (Fin 2 0)))) (f32_lit 1 10) = Fin 1 0"
  "f32_gt (f32_div (f32_add (f32_of_nat 0) (Fin 1 0)) (f32_add (f32_of_nat 0) (Fin 2 0))) (Fin 0 0)"
  "f32_add (Fin 0 0) (Fin 0 0) = Fin 0 0"
  "f32_clamp (Fin 0 0) (Fin 1 0) (f32_div (Fin 1 0) (f32_add (Fin 1 0) (Fin 1 0))) = Fin 1 (- 1)"
  by code_simp+

lemma untrained_counts:
  assumes "untrained acct d" "get_spam_token_counts acct tokens d = (Inr counts, d')" "counts t = Some c"
  shows "c = (0, 0)"
proof -
  have "token_counts (d\<lparr>faults := fs\<rparr>) acct t' = (0, 0)" for t' fs
    using assms(1) by (auto simp: token_counts_def untrained_def dest: sql_select_Some split: option.splits)
  then show ?thesis using assms(2,3)
    by (auto simp: get_spam_token_counts_def op_return_def elim!: db_call_cases dest!: map_of_SomeD split: if_splits)
qed

lemma bayes_untrained:
  assumes "te_ln env (Fin 1 0) = Fin 0 0" "te_exp env (Fin 0 0) = Fin 1 0" "\<And>t c. counts t = Some c \<Longrightarrow> c = (0, 0)"
  shows "bayes_probability env counts tokens = Fin 1 (- 1)"
proof -
  have count: "(case counts t of None \<Rightarrow> (0, 0) | Some c \<Rightarrow> c) = (0, 0)" for t using assms(3) by (auto split: option.splits)
  have step: "token_score env 0 0 (0, 0) (Fin 0 0) = Fin 0 0"
    unfolding token_score_def Let_def fst_conv snd_conv even_odds(1) assms(1) even_odds(3) by simp
  have "fold (\<lambda>t. token_score env 0 0 (0, 0)) tokens (Fin 0 0) = Fin 0 0" by (induction tokens) (simp_all add: step)
  moreover have "f32_neg (Fin 0 0) = Fin 0 0" by (simp add: f32_neg.simps)
  ultimately show ?thesis using even_odds(4) by (simp add: bayes_probability_def Let_def count assms(2))
qed

lemma scan_untrained_low:
  assumes "scan env zones ip acct raw d = Some (v, d')" "untrained acct d"
    and "te_ln env (Fin 1 0) = Fin 0 0" "te_exp env (Fin 0 0) = Fin 1 0"
  shows "f32_le (sv_score v) (Fin 1 (- 1))"
proof -
  obtain s names p d1 where c: "check_message env raw = Some (s, names)" "classify env acct raw d = (p, d1)"
    using assms(1) by (auto simp: scan_def split: option.splits prod.splits)
  obtain t where t: "f32_add (Fin 0 0) (f32_mul s (f32_lit 5 1)) = half_weighted t" "low (half_weighted t)"
      "low (with_bayes (Fin 1 (- 1)) (half_weighted t))"
    using check_message_low[OF c(1)] by blast
  have "p = None \<or> p = Some (Fin 1 (- 1))"
    using c(2) bayes_untrained[OF assms(3,4)] untrained_counts[OF assms(2)]
    by (auto simp: classify_def Let_def split: if_splits prod.splits sum.splits)
  with assms(1) c t show ?thesis
    by (auto simp: scan_def check_ip_def add_dnsbl_def default_verdict_def add_rules_def add_bayes_def low_def with_bayes_def literals[unfolded One_nat_def] Let_def)
qed

end
