(* ===== verification/Mail_Auth.thy ===== *)
theory Mail_Auth
  imports Prelude
begin

text \<open>
  \<open>crates/owney-authn\<close>: the verdict on an inbound message, its header, and the cache of DNS records. The verifier
  itself is the third-party crate mail-auth: its answers are the record \<open>mail_auth\<close>.
\<close>

section \<open>Verdicts\<close>

record dkim_summary =
  dk_domain :: string
  dk_selector :: string
  dk_result :: string
  dk_signature_at :: nat
  dk_expires_at :: nat

record auth_verdict =
  av_iprev :: string
  av_spf :: string
  av_dkim :: "dkim_summary list"
  av_arc :: string
  av_dmarc :: string
  av_dmarc_policy :: string

definition expired_at :: "dkim_summary \<Rightarrow> nat \<Rightarrow> bool" where
  "expired_at s now \<longleftrightarrow> dk_expires_at s \<noteq> 0 \<and> now \<ge> dk_expires_at s"

datatype spf_status = SpfPass | SpfFail | SpfSoftFail | SpfNeutral | SpfTempError | SpfPermError | SpfNone

definition spf_parse :: "string \<Rightarrow> spf_status" where
  "spf_parse t =
     (if t = ''pass'' then SpfPass else if t = ''fail'' then SpfFail else if t = ''softfail'' then SpfSoftFail
      else if t = ''neutral'' then SpfNeutral else if t = ''temperror'' then SpfTempError
      else if t = ''permerror'' then SpfPermError else SpfNone)"

fun spf_str :: "spf_status \<Rightarrow> string" where
  "spf_str SpfPass = ''pass''"
| "spf_str SpfFail = ''fail''"
| "spf_str SpfSoftFail = ''softfail''"
| "spf_str SpfNeutral = ''neutral''"
| "spf_str SpfTempError = ''temperror''"
| "spf_str SpfPermError = ''permerror''"
| "spf_str SpfNone = ''none''"

datatype dkim_status = DkimPass | DkimNeutral | DkimFail | DkimTempError | DkimPermError | DkimNone

definition dkim_parse :: "string \<Rightarrow> dkim_status" where
  "dkim_parse t =
     (if t = ''pass'' then DkimPass else if t = ''neutral'' then DkimNeutral else if t = ''fail'' then DkimFail
      else if t = ''temperror'' then DkimTempError else if t = ''permerror'' then DkimPermError else DkimNone)"

fun dkim_str :: "dkim_status \<Rightarrow> string" where
  "dkim_str DkimPass = ''pass''"
| "dkim_str DkimNeutral = ''neutral''"
| "dkim_str DkimFail = ''fail''"
| "dkim_str DkimTempError = ''temperror''"
| "dkim_str DkimPermError = ''permerror''"
| "dkim_str DkimNone = ''none''"

datatype dmarc_fail_reason = Unaligned | NotPermitted | MismatchedIdentifiers | OtherReason

datatype dmarc_status = DmarcPass | DmarcFail dmarc_fail_reason | DmarcTempError | DmarcPermError | DmarcNone

definition dmarc_parse :: "string \<Rightarrow> dmarc_status" where
  "dmarc_parse t =
     (if t = ''pass'' then DmarcPass else if t = ''fail'' then DmarcFail OtherReason
      else if t = ''temperror'' then DmarcTempError else if t = ''permerror'' then DmarcPermError else DmarcNone)"

fun dmarc_str :: "dmarc_status \<Rightarrow> string" where
  "dmarc_str DmarcPass = ''pass''"
| "dmarc_str (DmarcFail _) = ''fail''"
| "dmarc_str DmarcTempError = ''temperror''"
| "dmarc_str DmarcPermError = ''permerror''"
| "dmarc_str DmarcNone = ''none''"

definition timeout_verdict :: auth_verdict where
  "timeout_verdict = \<lparr>av_iprev = ''temperror'', av_spf = ''temperror'', av_dkim = [], av_arc = ''temperror'',
     av_dmarc = ''temperror'', av_dmarc_policy = ''none''\<rparr>"

definition verdict_spf :: "auth_verdict \<Rightarrow> spf_status" where
  "verdict_spf v = spf_parse (av_spf v)"

definition verdict_dmarc :: "auth_verdict \<Rightarrow> dmarc_status" where
  "verdict_dmarc v = dmarc_parse (av_dmarc v)"

definition arc_status :: "auth_verdict \<Rightarrow> dkim_status" where
  "arc_status v = dkim_parse (av_arc v)"

definition dkim_statuses :: "auth_verdict \<Rightarrow> dkim_status list" where
  "dkim_statuses v = map (\<lambda>d. dkim_parse (dk_result d)) (av_dkim v)"

definition verdict_summary :: "auth_verdict \<Rightarrow> string" where
  "verdict_summary v =
     (let dkim = (if av_dkim v = [] then ''none''
                  else join '', '' (map (\<lambda>d. dk_result d @ '' ('' @ dk_domain d @ '')'') (av_dkim v)))
      in ''iprev='' @ av_iprev v @ '' spf='' @ av_spf v @ '' dkim='' @ dkim @ '' arc='' @ av_arc v @
         '' dmarc='' @ av_dmarc v @ '' (policy='' @ av_dmarc_policy v @ '')'')"

section \<open>The header\<close>

definition is_control :: "char \<Rightarrow> bool" where
  "is_control c \<longleftrightarrow> (of_char c :: nat) < 32 \<or> (of_char c :: nat) = 127"

definition quote_id :: "string \<Rightarrow> string" where
  "quote_id s =
     (if \<exists>c \<in> set s. c = CHR '';'' \<or> is_space c \<or> is_control c
      then ''\"'' @ concat (map (\<lambda>c. if c = CHR 0x22 then [CHR 0x5C, CHR 0x22] else [c]) s) @ ''\"'' else s)"

definition header_parts :: "auth_verdict \<Rightarrow> string list" where
  "header_parts v =
     [''iprev='' @ av_iprev v, ''spf='' @ av_spf v] @
     (if av_dkim v = [] then [''dkim=none''] else []) @
     map (\<lambda>d. ''dkim='' @ dk_result d @ '' header.d='' @ dk_domain d @ '' header.s='' @ dk_selector d) (av_dkim v) @
     [''arc='' @ av_arc v, ''dmarc='' @ av_dmarc v @ '' policy.dmarc='' @ av_dmarc_policy v]"

definition PART_SEP :: string where
  "PART_SEP = [CHR '';'', CHR 0x0D, CHR 0x0A, CHR 0x09]"

definition authentication_results :: "auth_verdict \<Rightarrow> string \<Rightarrow> string" where
  "authentication_results v authserv_id = join PART_SEP (quote_id authserv_id # header_parts v)"

section \<open>Verification\<close>

datatype dkim_answer = DkPass | DkNeutral | DkFail | DkPermError | DkTempError | DkNone

datatype iprev_answer = IpPass | IpFail | IpTempError | IpPermError | IpNone

datatype dmarc_answer = DmPass | DmFail | DmTempError | DmPermError | DmNone

datatype dmarc_policy = PolicyNone | PolicyQuarantine | PolicyReject | PolicyUnspecified

record dkim_signature =
  ds_domain :: string
  ds_selector :: string
  ds_time :: nat
  ds_expiry :: nat

record dmarc_output =
  do_spf :: dmarc_answer
  do_dkim :: dmarc_answer
  do_policy :: dmarc_policy

text \<open>\<open>spf\<close> is asked for the EHLO identity or for the envelope sender; the messages are parsed ones.\<close>

record 'm mail_auth =
  ma_iprev :: "string \<Rightarrow> iprev_answer"
  ma_spf_ehlo :: "string \<Rightarrow> string \<Rightarrow> string \<Rightarrow> spf_status"
  ma_spf_mail_from :: "string \<Rightarrow> string \<Rightarrow> string \<Rightarrow> string \<Rightarrow> spf_status"
  ma_parse :: "string \<Rightarrow> 'm option"
  ma_dkim :: "'m \<Rightarrow> (dkim_signature option \<times> dkim_answer) list"
  ma_arc :: "'m \<Rightarrow> dkim_answer"
  ma_dmarc :: "'m \<Rightarrow> (dkim_signature option \<times> dkim_answer) list \<Rightarrow> string \<Rightarrow> spf_status \<Rightarrow> dmarc_output"

fun dkim_result_str :: "dkim_answer \<Rightarrow> string" where
  "dkim_result_str DkPass = ''pass''"
| "dkim_result_str DkNeutral = ''neutral''"
| "dkim_result_str DkFail = ''fail''"
| "dkim_result_str DkPermError = ''permerror''"
| "dkim_result_str DkTempError = ''temperror''"
| "dkim_result_str DkNone = ''none''"

fun iprev_result_str :: "iprev_answer \<Rightarrow> string" where
  "iprev_result_str IpPass = ''pass''"
| "iprev_result_str IpFail = ''fail''"
| "iprev_result_str IpTempError = ''temperror''"
| "iprev_result_str IpPermError = ''permerror''"
| "iprev_result_str IpNone = ''none''"

fun dmarc_result_str :: "dmarc_answer \<Rightarrow> string" where
  "dmarc_result_str DmPass = ''pass''"
| "dmarc_result_str DmFail = ''fail''"
| "dmarc_result_str DmTempError = ''temperror''"
| "dmarc_result_str DmPermError = ''permerror''"
| "dmarc_result_str DmNone = ''none''"

fun policy_str :: "dmarc_policy \<Rightarrow> string" where
  "policy_str PolicyNone = ''none''"
| "policy_str PolicyQuarantine = ''quarantine''"
| "policy_str PolicyReject = ''reject''"
| "policy_str PolicyUnspecified = ''unspecified''"

definition strongest_dmarc :: "dmarc_output \<Rightarrow> string" where
  "strongest_dmarc out =
     (if do_spf out = DmPass \<or> do_dkim out = DmPass then ''pass''
      else if do_spf out = DmNone \<and> do_dkim out = DmNone then ''none''
      else dmarc_result_str (if do_dkim out = DmNone then do_spf out else do_dkim out))"

record auth_input =
  ai_remote_ip :: string
  ai_helo :: string
  ai_mail_from :: string
  ai_raw :: string

definition dkim_summary_of :: "dkim_signature option \<times> dkim_answer \<Rightarrow> dkim_summary" where
  "dkim_summary_of out =
     (case out of (sig, answer) \<Rightarrow>
        \<lparr>dk_domain = (case sig of None \<Rightarrow> [] | Some s \<Rightarrow> ds_domain s), dk_selector = (case sig of None \<Rightarrow> [] | Some s \<Rightarrow> ds_selector s),
         dk_result = dkim_result_str answer, dk_signature_at = (case sig of None \<Rightarrow> 0 | Some s \<Rightarrow> ds_time s),
         dk_expires_at = (case sig of None \<Rightarrow> 0 | Some s \<Rightarrow> ds_expiry s)\<rparr>)"

definition verify_inner :: "'m mail_auth \<Rightarrow> string \<Rightarrow> auth_input \<Rightarrow> auth_verdict" where
  "verify_inner M host inp =
     (let spf = (if ai_mail_from inp = [] then ma_spf_ehlo M (ai_remote_ip inp) (ai_helo inp) host
                 else ma_spf_mail_from M (ai_remote_ip inp) (ai_helo inp) host (ai_mail_from inp));
          iprev = iprev_result_str (ma_iprev M (ai_remote_ip inp))
      in case ma_parse M (ai_raw inp) of
           None \<Rightarrow> \<lparr>av_iprev = iprev, av_spf = spf_str spf, av_dkim = [], av_arc = ''none'', av_dmarc = ''none'', av_dmarc_policy = ''none''\<rparr>
         | Some m \<Rightarrow>
             (let dkim = ma_dkim M m;
                  from_domain = (case rsplit_once (CHR ''@'') (ai_mail_from inp) of Some (_, dn) \<Rightarrow> dn | None \<Rightarrow> ai_helo inp);
                  dmarc = ma_dmarc M m dkim from_domain spf
              in \<lparr>av_iprev = iprev, av_spf = spf_str spf, av_dkim = map dkim_summary_of dkim,
                  av_arc = dkim_result_str (ma_arc M m), av_dmarc = strongest_dmarc dmarc,
                  av_dmarc_policy = policy_str (do_policy dmarc)\<rparr>))"

text \<open>Ten seconds; how long the inner call takes is an argument, in milliseconds.\<close>

definition verify_auth :: "'m mail_auth \<Rightarrow> string \<Rightarrow> nat \<Rightarrow> auth_input \<Rightarrow> auth_verdict" where
  "verify_auth M host elapsed inp = (if elapsed < 10000 then verify_inner M host inp else timeout_verdict)"

section \<open>The record cache\<close>

text \<open>A hash map with deadlines, emptied when it is full; the mutex is never poisoned.\<close>

record ('k, 'v) memory_cache =
  mc_entries :: "('k \<times> 'v \<times> int) list"
  mc_capacity :: nat

definition cache_new :: "nat \<Rightarrow> ('k, 'v) memory_cache" where
  "cache_new n = \<lparr>mc_entries = [], mc_capacity = n\<rparr>"

definition cache_without :: "'k \<Rightarrow> ('k \<times> 'v \<times> int) list \<Rightarrow> ('k \<times> 'v \<times> int) list" where
  "cache_without k es = filter (\<lambda>e. fst e \<noteq> k) es"

definition cache_get :: "int \<Rightarrow> 'k \<Rightarrow> ('k, 'v) memory_cache \<Rightarrow> 'v option \<times> ('k, 'v) memory_cache" where
  "cache_get now k c =
     (case map_of (mc_entries c) k of
        Some (v, valid_until) \<Rightarrow> if valid_until > now then (Some v, c) else (None, c\<lparr>mc_entries := cache_without k (mc_entries c)\<rparr>)
      | None \<Rightarrow> (None, c))"

definition cache_remove :: "'k \<Rightarrow> ('k, 'v) memory_cache \<Rightarrow> 'v option \<times> ('k, 'v) memory_cache" where
  "cache_remove k c = (map_option fst (map_of (mc_entries c) k), c\<lparr>mc_entries := cache_without k (mc_entries c)\<rparr>)"

definition cache_insert :: "'k \<Rightarrow> 'v \<Rightarrow> int \<Rightarrow> ('k, 'v) memory_cache \<Rightarrow> ('k, 'v) memory_cache" where
  "cache_insert k v valid_until c =
     (let es = (if length (mc_entries c) \<ge> mc_capacity c then [] else mc_entries c)
      in c\<lparr>mc_entries := (k, v, valid_until) # cache_without k es\<rparr>)"

section \<open>Lemmas\<close>

lemma status_roundtrip: "spf_parse (spf_str s) = s" "dkim_parse (dkim_str k) = k"
  by (cases s; simp add: spf_parse_def) (cases k; simp add: dkim_parse_def)

text \<open>The cache never has more entries than its capacity, and what it answers was inserted and is still valid.\<close>

definition cache_ok :: "('k, 'v) memory_cache \<Rightarrow> bool" where
  "cache_ok c \<longleftrightarrow> distinct (map fst (mc_entries c)) \<and> length (mc_entries c) \<le> max 1 (mc_capacity c)"

lemma cache_without_ok:
  "distinct (map fst es) \<Longrightarrow> distinct (map fst (cache_without k es))" "length (cache_without k es) \<le> length es"
  "k \<notin> fst ` set (cache_without k es)"
  by (auto simp: cache_without_def distinct_map_filter)

lemma cache_ok_without: "cache_ok c \<Longrightarrow> cache_ok (c\<lparr>mc_entries := cache_without k (mc_entries c)\<rparr>)"
  using cache_without_ok(1,2)[where k = k and es = "mc_entries c"] unfolding cache_ok_def by (auto intro: le_trans)

lemma cache_ok_ops:
  "cache_ok (cache_new n)"
  "cache_ok c \<Longrightarrow> cache_ok (snd (cache_get now k c))"
  "cache_ok c \<Longrightarrow> cache_ok (snd (cache_remove k c))"
  by (auto simp: cache_new_def cache_get_def cache_remove_def cache_ok_without cache_ok_def[of "cache_new n"] split: option.splits)
    (simp add: cache_ok_def)

lemma cache_ok_insert: "cache_ok c \<Longrightarrow> cache_ok (cache_insert k v u c)"
proof -
  assume c: "cache_ok c"
  let ?es = "if length (mc_entries c) \<ge> mc_capacity c then [] else mc_entries c"
  have "distinct (map fst ?es)" "length ?es < max 1 (mc_capacity c)" using c by (auto simp: cache_ok_def)
  then show ?thesis
    using cache_without_ok[where k = k and es = ?es] unfolding cache_ok_def cache_insert_def Let_def by auto
qed

lemma cache_get_valid:
  "cache_get now k c = (Some v, c') \<Longrightarrow> \<exists>u > now. map_of (mc_entries c) k = Some (v, u)"
  by (auto simp: cache_get_def split: option.splits if_splits)

end
