(* ===== verification/Server_Core.thy ===== *)
theory Server_Core
  imports Smtp_Session Tokens Mail_Store Spam Mail_Auth Fed_Serve
begin

text \<open>
  \<open>bin/owneyd/src/handler.rs\<close>: the mail policy of the server, the \<open>MailHandler\<close> behind an SMTP session. Its state is the
  database with a count of the calls so far, from which the clock, random values and new ids are drawn.
\<close>

section \<open>Definitions\<close>

record spam_config =
  sp_enabled :: bool
  sp_reject_threshold :: f32
  sp_quarantine_threshold :: f32
  sp_dnsbl_zones :: "string list"

definition default_spam_config :: spam_config where
  "default_spam_config = \<lparr>sp_enabled = True, sp_reject_threshold = f32_lit 9 1, sp_quarantine_threshold = f32_lit 7 1,
     sp_dnsbl_zones = [''zen.spamhaus.org'']\<rparr>"

record core_random =
  cr_now :: int
  cr_ids :: ingest_ids
  cr_entropy :: string

text \<open>The scanner is a trait object: from the address, an account id and the message it makes a verdict.\<close>

record ('m, 'c) server_core =
  sc_auth :: "'m mail_auth"
  sc_scanner :: "string \<Rightarrow> string \<Rightarrow> string \<Rightarrow> db \<Rightarrow> spam_verdict \<times> db"
  sc_pgp :: "'c pgp_env"
  sc_domain :: string
  sc_hostname :: string
  sc_spam :: spam_config
  sc_verdict_json :: "auth_verdict \<Rightarrow> string option"
  sc_spam_json :: "spam_verdict \<Rightarrow> string option"
  sc_show_score :: "f32 \<Rightarrow> string"
  sc_show_storage :: "storage_error \<Rightarrow> string"
  sc_show_pgp :: "pgp_error \<Rightarrow> string"
  sc_elapsed :: "nat \<Rightarrow> nat"
  sc_new_account :: "nat \<Rightarrow> string"
  sc_random :: "nat \<Rightarrow> nat \<Rightarrow> core_random"
  sc_rcpt_now :: "nat \<Rightarrow> int"

definition core_rcpt :: "('m, 'c) server_core \<Rightarrow> string \<Rightarrow> db \<times> nat \<Rightarrow> rcpt_verdict \<times> db \<times> nat" where
  "core_rcpt sc address s =
     (case s of (d, tick) \<Rightarrow>
       (let address = to_lowercase (trim address) in
        case rsplit_once (CHR ''@'') address of
          None \<Rightarrow> (UnknownUser, d, Suc tick)
        | Some (_, dn) \<Rightarrow>
            if dn \<noteq> sc_domain sc then (NotLocal, d, Suc tick)
            else (case resolve_recipient (sc_rcpt_now sc tick) address d of
                    (Inr (Some _), d1) \<Rightarrow> (Accept, d1, Suc tick)
                  | (Inr None, d1) \<Rightarrow> (UnknownUser, d1, Suc tick)
                  | (Inl _, d1) \<Rightarrow> (TryAgainLater, d1, Suc tick))))"

definition key_changed :: "string \<Rightarrow> string \<Rightarrow> event" where
  "key_changed acct address = SecurityEvent (Some acct) OtherKind (''PGP key changed for '' @ address)"

definition recipient_chat :: "string \<Rightarrow> string \<Rightarrow> db \<Rightarrow> bool \<times> db" where
  "recipient_chat acct from d =
     (case get_chat_preference acct from d of
        (Inr AutoChat, d1) \<Rightarrow> (True, d1)
      | (_, d1) \<Rightarrow> (False, d1))"

text \<open>Filing: the verdicts are written after the message; a failure to write the spam verdict is ignored.\<close>

definition file_mail :: "('m, 'c) server_core \<Rightarrow> core_random \<Rightarrow> string \<Rightarrow> string \<Rightarrow> bool \<Rightarrow> string option \<Rightarrow> string option \<Rightarrow> inbound_outcome \<Rightarrow>
    db \<Rightarrow> (deliver_error, unit) result \<times> db" where
  "file_mail sc rnd acct mailbox chat verdict spam out d =
     (case ingest_email_with_chat (pe_ingest (sc_pgp sc)) (cr_now rnd) (cr_ids rnd) acct (io_raw out) mailbox verdict chat d of
        (Inl e, d1) \<Rightarrow> (Inl (DeliverTemporary (sc_show_storage sc e)), d1)
      | (Inr ingested, d1) \<Rightarrow>
          (let d2 = (case spam of None \<Rightarrow> d1 | Some j \<Rightarrow> snd (set_spam_verdict (ig_id ingested) j d1))
           in case io_pgp_status out of
                None \<Rightarrow> (Inr (), d2)
              | Some status \<Rightarrow>
                  (case set_pgp_status (ig_id ingested) status d2 of
                     (Inl e, d3) \<Rightarrow> (Inl (DeliverTemporary (sc_show_storage sc e)), d3)
                   | (Inr _, d3) \<Rightarrow> (Inr (), d3))))"

definition mailbox_for :: "spam_config \<Rightarrow> spam_verdict \<Rightarrow> string" where
  "mailbox_for cfg v = (if f32_ge (sv_score v) (sp_quarantine_threshold cfg) then ''junk'' else ''inbox'')"

definition deliver_one :: "('m, 'c) server_core \<Rightarrow> core_random \<Rightarrow> string \<Rightarrow> string option \<Rightarrow> spam_verdict \<Rightarrow> string \<Rightarrow> string \<Rightarrow>
    db \<Rightarrow> (deliver_error, unit) result \<times> db" where
  "deliver_one sc rnd from verdict spam raw recipient d =
     (case resolve_recipient (cr_now rnd) recipient d of
        (Inl e, d1) \<Rightarrow> (Inl (DeliverTemporary (sc_show_storage sc e)), d1)
      | (Inr None, d1) \<Rightarrow> (Inl (DeliverTemporary (recipient @ '' vanished after RCPT'')), d1)
      | (Inr (Some a), d1) \<Rightarrow>
          (case inbound (sc_pgp sc) (cr_now rnd) (cr_entropy rnd) (a_id a) raw d1 of
             (Inl e, d2) \<Rightarrow> (Inl (DeliverTemporary (''pgp: '' @ sc_show_pgp sc e)), d2)
           | (Inr out, d2) \<Rightarrow>
               (case recipient_chat (a_id a) from (d2\<lparr>published := published d2 @ map (key_changed (a_id a)) (io_key_changes out)\<rparr>) of
                  (chat, d3) \<Rightarrow> file_mail sc rnd (a_id a) (mailbox_for (sc_spam sc) spam) chat verdict (sc_spam_json sc spam) out d3)))"

fun deliver_each :: "('m, 'c) server_core \<Rightarrow> (nat \<Rightarrow> core_random) \<Rightarrow> nat \<Rightarrow> string \<Rightarrow> string option \<Rightarrow> spam_verdict \<Rightarrow> string \<Rightarrow> string list \<Rightarrow>
    db \<Rightarrow> (deliver_error, unit) result \<times> db" where
  "deliver_each sc rnd i from verdict spam raw [] d = (Inr (), d)"
| "deliver_each sc rnd i from verdict spam raw (recipient # rest) d =
     (case deliver_one sc (rnd i) from verdict spam raw recipient d of
        (Inl e, d1) \<Rightarrow> (Inl e, d1)
      | (Inr _, d1) \<Rightarrow> deliver_each sc rnd (Suc i) from verdict spam raw rest d1)"

definition spam_check :: "('m, 'c) server_core \<Rightarrow> nat \<Rightarrow> inbound_mail \<Rightarrow> db \<Rightarrow> spam_verdict \<times> db" where
  "spam_check sc tick mail d =
     (if sp_enabled (sc_spam sc) then sc_scanner sc (im_remote mail) (sc_new_account sc tick) (im_raw mail) d else (default_verdict, d))"

definition with_verdict :: "('m, 'c) server_core \<Rightarrow> auth_verdict \<Rightarrow> string \<Rightarrow> string" where
  "with_verdict sc v raw = ''Authentication-Results: '' @ authentication_results v (sc_hostname sc) @ CRLFs @ raw"

definition core_deliver :: "('m, 'c) server_core \<Rightarrow> inbound_mail \<Rightarrow> db \<times> nat \<Rightarrow> (deliver_error, unit) result \<times> db \<times> nat" where
  "core_deliver sc mail s =
     (case s of (d, tick) \<Rightarrow>
       (let verdict = verify_auth (sc_auth sc) (sc_hostname sc) (sc_elapsed sc tick)
              \<lparr>ai_remote_ip = im_remote mail, ai_helo = im_helo mail, ai_mail_from = im_mail_from mail, ai_raw = im_raw mail\<rparr>
        in case spam_check sc tick mail d of
             (spam, d1) \<Rightarrow>
               if f32_ge (sv_score spam) (sp_reject_threshold (sc_spam sc))
               then (Inl (DeliverPermanent (''message rejected: spam score '' @ sc_show_score sc (sv_score spam))), d1, Suc tick)
               else (case deliver_each sc (sc_random sc tick) 0 (im_mail_from mail) (sc_verdict_json sc verdict) spam
                            (with_verdict sc verdict (im_raw mail)) (im_recipients mail) d1 of
                       (r, d2) \<Rightarrow> (r, d2, Suc tick))))"

definition server_core_handler :: "('m, 'c) server_core \<Rightarrow> (db \<times> nat) mail_handler" where
  "server_core_handler sc = \<lparr>rcpt = core_rcpt sc, deliver = core_deliver sc\<rparr>"

section \<open>What the policy leaves alone\<close>

text \<open>Who the mailboxes belong to, and the queue of outgoing mail.\<close>

definition host_view :: "db \<Rightarrow> account_row list \<times> alias_row list \<times> mailbox_row list \<times> queue_row list" where
  "host_view d = (accounts d, aliases d, mailboxes d, queue d)"

text \<open>The stored messages: their ids, accounts and mailboxes.\<close>

definition filed_view :: "db \<Rightarrow> (string \<times> string) list \<times> (string \<times> string) list" where
  "filed_view d = (map (\<lambda>r. (em_id r, em_account_id r)) (emails d), email_mailbox d)"

interpretation hv: key_free host_view
  by unfold_locales (simp_all add: host_view_def)

interpretation hm: mail_free host_view
  by unfold_locales (simp_all add: host_view_def)

interpretation fv: key_free filed_view
  by unfold_locales (simp_all add: filed_view_def)

lemma resolve_keeps: "resolve_recipient now e d = (r, d') \<Longrightarrow> host_view d' = host_view d \<and> filed_view d' = filed_view d"
proof -
  have ops: "account_by_email e d1 = (x, d2) \<Longrightarrow> host_view d2 = host_view d1 \<and> filed_view d2 = filed_view d1"
    "alias_target_account now e d1 = (x, d2) \<Longrightarrow> host_view d2 = host_view d1 \<and> filed_view d2 = filed_view d1" for e d1 x d2
    unfolding account_by_email_def alias_target_account_def Let_def
    by (erule db_call_cases; auto simp: host_view_def filed_view_def)+
  show "resolve_recipient now e d = (r, d') \<Longrightarrow> host_view d' = host_view d \<and> filed_view d' = filed_view d"
    by (auto simp: resolve_recipient_def split: prod.splits sum.splits option.splits dest!: ops)
qed

lemma recipient_chat_keeps: "recipient_chat acct from d = (c, d') \<Longrightarrow> host_view d' = host_view d \<and> filed_view d' = filed_view d"
proof -
  have "get_chat_preference acct from d = (x, d2) \<Longrightarrow> host_view d2 = host_view d \<and> filed_view d2 = filed_view d" for x d2
    unfolding get_chat_preference_def by (erule db_call_cases) (auto simp: host_view_def filed_view_def)
  then show "recipient_chat acct from d = (c, d') \<Longrightarrow> host_view d' = host_view d \<and> filed_view d' = filed_view d"
    by (auto simp: recipient_chat_def split: prod.splits sum.splits chat_mode_t.splits)
qed

lemma verdicts_filed:
  "set_pgp_status i st d = (r, d') \<Longrightarrow> filed_view d' = filed_view d"
  "filed_view (snd (set_spam_verdict i st d)) = filed_view d"
proof -
  have upd: "map (\<lambda>r. (em_id r, em_account_id r)) (sql_update P f rows) = map (\<lambda>r. (em_id r, em_account_id r)) rows"
    if "\<And>r. em_id (f r) = em_id r" "\<And>r. em_account_id (f r) = em_account_id r" for P f rows
    using that by (simp add: sql_update_def)
  show "set_pgp_status i st d = (r, d') \<Longrightarrow> filed_view d' = filed_view d"
    unfolding set_pgp_status_def by (erule db_call_cases) (auto simp: filed_view_def upd)
  obtain r2 d2 where "set_spam_verdict i st d = (r2, d2)" by (meson surj_pair)
  moreover have "filed_view d2 = filed_view d" if "set_spam_verdict i st d = (r2, d2)"
    using that unfolding set_spam_verdict_def by (rule db_call_cases) (auto simp: filed_view_def upd)
  ultimately show "filed_view (snd (set_spam_verdict i st d)) = filed_view d" by simp
qed

section \<open>Filing\<close>

text \<open>A message stored for an account: a new id, in the mailbox of the account that has the role.\<close>

definition filed :: "db \<Rightarrow> db \<Rightarrow> string \<Rightarrow> string \<Rightarrow> string \<Rightarrow> bool" where
  "filed d d' i acct role \<longleftrightarrow> i \<notin> em_id ` set (emails d) \<and>
     (\<exists>m \<in> set (mailboxes d). mb_account_id m = acct \<and> mb_role m = Some role \<and>
        filed_view d' = (fst (filed_view d) @ [(i, acct)], snd (filed_view d) @ [(i, mb_id m)]))"

lemma fst_filed_view: "em_id ` set (emails d) = fst ` set (fst (filed_view d))"
  by (force simp: filed_view_def)

lemma filed_cong:
  "filed_view d1 = filed_view d \<Longrightarrow> mailboxes d1 = mailboxes d \<Longrightarrow> filed_view d3 = filed_view d2 \<Longrightarrow> filed d d3 i acct role = filed d1 d2 i acct role"
  by (simp add: filed_def fst_filed_view)

lemma ingest_tx_filed:
  assumes "ingest_tx now ids acct (TRole role) meta sz b auth chat d = (Inr x, d')"
  shows "filed d d' (new_email ids) acct role \<and> ig_id (fst x) = new_email ids"
proof -
  obtain mb where f: "find_mailbox acct (TRole role) d = (Inr mb, d)"
    using op_bind_okD[OF assms[unfolded ingest_tx_def]] find_mailbox_frame by metis
  then obtain m where m: "m \<in> set (mailboxes d)" "mb_account_id m = acct" "mb_role m = Some role" "mb = mb_id m"
    by (auto simp: find_mailbox_def dest: sql_select_Some split: option.splits)
  let ?found = "resolve_thread acct (references meta) d"
  from assms f obtain s1 d1 s2 d2 s3 d3 t d4 row u where
    b: "bump acct ''Email'' d = (Inr s1, d1)" "bump acct ''Thread'' d1 = (Inr s2, d2)" "bump acct ''Mailbox'' d2 = (Inr s3, d3)"
    and p: "place_thread acct ?found (new_thread ids) s2 d3 = (Inr t, d4)"
    and s: "store_email row mb d4 = (Inr u, d')" "em_id row = new_email ids" "em_account_id row = acct" "ig_id (fst x) = new_email ids"
    unfolding ingest_tx_def Let_def
    by (auto simp: op_return_def dest!: op_bind_okD)
  have bump: "filed_view e' = filed_view e" if "bump acct dt e = (r, e')" for dt e r e'
    using that by (auto simp: bump_def filed_view_def split: option.splits)
  have "filed_view d4 = filed_view d3" using place_thread_frame[OF p] by (simp add: mail_part_def filed_view_def)
  then have v: "filed_view d4 = filed_view d" using b bump by metis
  have "new_email ids \<notin> em_id ` set (emails d4)" "filed_view d' = (fst (filed_view d4) @ [(new_email ids, acct)], snd (filed_view d4) @ [(new_email ids, mb)])"
    using s by (auto simp: store_email_def sql_insert_def filed_view_def split: option.splits if_splits)
  with m s(4) v show ?thesis by (auto simp: filed_def fst_filed_view)
qed

lemma ingest_filed:
  assumes "ingest_email_with_chat env now ids acct raw role auth chat d = (r, d')"
  shows "case r of Inr x \<Rightarrow> filed d d' (new_email ids) acct role \<and> ig_id x = new_email ids | Inl _ \<Rightarrow> filed_view d' = filed_view d"
proof -
  obtain b d1 where p: "put_blob env now raw d = (b, d1)" by (meson surj_pair)
  have v1: "filed_view d1 = filed_view d" by (rule keepsD[OF fv.keeps_put_blob p])
  have "mailboxes d1 = mailboxes d" using keepsD[OF hv.keeps_put_blob p] by (simp add: host_view_def)
  note v1 = v1 this
  show ?thesis
  proof (cases b)
    case (Inl e)
    with assms p v1 show ?thesis by (auto simp: ingest_email_with_chat_def ingest_email_into_def op_bind_def Let_def)
  next
    case (Inr blob)
    let ?tx = "ingest_tx now ids acct (TRole role) (parse_meta env raw) (length raw) blob auth chat"
    obtain x d2 where t: "db_call (transaction ?tx) d1 = (x, d2)" by (meson surj_pair)
    have tx: "case x of Inr y \<Rightarrow> filed d1 d2 (new_email ids) acct role \<and> ig_id (fst y) = new_email ids | Inl _ \<Rightarrow> filed_view d2 = filed_view d1"
      using t
    proof (cases rule: db_call_cases)
      case (fault fs)
      then show ?thesis by (auto simp: filed_view_def)
    next
      case (run fs)
      have f: "filed_view (d1\<lparr>faults := fs\<rparr>) = filed_view d1" "mailboxes (d1\<lparr>faults := fs\<rparr>) = mailboxes d1" by (simp_all add: filed_view_def)
      show ?thesis
      proof (cases x)
        case (Inl e)
        with run f show ?thesis by (auto dest: transaction_err)
      next
        case (Inr y)
        with run have "?tx (d1\<lparr>faults := fs\<rparr>) = (Inr y, d2)" by (simp add: transaction_ok)
        from ingest_tx_filed[OF this] Inr show ?thesis using filed_cong[OF f refl] by simp
      qed
    qed
    have "filed_view d' = filed_view d2"
    proof -
      have "filed_view (snd (link_contact now i acct frm e)) = filed_view e" for i frm e
        by (auto simp: link_contact_def db_call_def filed_view_def split: list.splits)
      moreover have "filed_view (e\<lparr>published := q\<rparr>) = filed_view e" for e q by (simp add: filed_view_def)
      ultimately show ?thesis using assms p Inr t
        by (auto simp: ingest_email_with_chat_def ingest_email_into_def op_bind_def Let_def split: sum.splits option.splits prod.splits)
    qed
    moreover have "(case r of Inr y \<Rightarrow> (\<exists>z. x = Inr z \<and> y = fst z) | Inl _ \<Rightarrow> isl x)" using assms p Inr t
      by (auto simp: ingest_email_with_chat_def ingest_email_into_def op_bind_def Let_def split: sum.splits option.splits prod.splits)
    ultimately show ?thesis using tx filed_cong[OF v1] v1(1) by (auto split: sum.splits)
  qed
qed

section \<open>Delivery\<close>

text \<open>The account an address stands for: an enabled account with it, or the account of an active alias.\<close>

definition addressee :: "db \<Rightarrow> string \<Rightarrow> string \<Rightarrow> bool" where
  "addressee d addr acct \<longleftrightarrow> (\<exists>a \<in> set (accounts d). acc_id a = acct \<and> acc_disabled_at a = None \<and>
     (eq_ignore_ascii_case (acc_email a) (to_lowercase (trim addr)) \<or>
      (\<exists>l \<in> set (aliases d). al_account_id l = acct \<and> al_active l \<and> eq_ignore_ascii_case (al_alias_email l) (to_lowercase (trim addr)))))"

lemma addressee_cong: "host_view d' = host_view d \<Longrightarrow> addressee d' addr acct = addressee d addr acct"
  by (simp add: host_view_def addressee_def)

lemma resolve_addressee:
  assumes "resolve_recipient now addr d = (Inr (Some a), d')"
  shows "addressee d addr (a_id a)"
proof -
  obtain x d1 where e: "account_by_email addr d = (x, d1)" by (meson surj_pair)
  have acc: "accounts d1 = accounts d" "aliases d1 = aliases d"
    using e unfolding account_by_email_def Let_def by (auto elim!: db_call_cases)
  show ?thesis
  proof (cases "\<exists>b. x = Inr (Some b)")
    case True
    then obtain b where x: "x = Inr (Some b)" by blast
    with assms e have "b = a" by (auto simp: resolve_recipient_def)
    with account_by_email_enabled[OF e[unfolded x]] show ?thesis by (auto simp: addressee_def row_to_account_def)
  next
    case False
    then have "alias_target_account now addr d1 = (Inr (Some a), d')"
      using assms e by (auto simp: resolve_recipient_def split: sum.splits option.splits)
    then show ?thesis unfolding alias_target_account_def Let_def
    proof (cases rule: db_call_cases)
      case (run fs)
      then obtain l r where "(l, r) \<in> set (alias_join (d1\<lparr>faults := fs\<rparr>))" "a = row_to_account r" "al_active l" "acc_disabled_at r = None"
          "eq_ignore_ascii_case (al_alias_email l) (to_lowercase (trim addr))"
        by (auto dest!: sql_select_Some)
      then show ?thesis using acc by (auto simp: alias_join_mem addressee_def row_to_account_def)
    qed simp
  qed
qed

lemma file_mail_filed:
  assumes "file_mail sc rnd acct role chat verdict spam out d = (r, d')"
  shows "(\<exists>e. r = Inl e \<and> filed_view d' = filed_view d) \<or> filed d d' (new_email (cr_ids rnd)) acct role"
proof -
  obtain x d1 where i: "ingest_email_with_chat (pe_ingest (sc_pgp sc)) (cr_now rnd) (cr_ids rnd) acct (io_raw out) role verdict chat d = (x, d1)"
    by (meson surj_pair)
  note f = ingest_filed[OF i]
  show ?thesis
  proof (cases x)
    case (Inl e)
    with assms i f show ?thesis by (auto simp: file_mail_def)
  next
    case (Inr y)
    then have "filed_view d' = filed_view d1"
      using assms i verdicts_filed by (auto simp: file_mail_def Let_def split: option.splits prod.splits sum.splits)
    with f Inr show ?thesis by (simp add: filed_def)
  qed
qed

lemma deliver_one_filed:
  assumes "deliver_one sc rnd frm verdict spam raw rcp d = (r, d')"
  shows "(\<exists>e. r = Inl e \<and> filed_view d' = filed_view d) \<or>
    (\<exists>acct. addressee d rcp acct \<and> filed d d' (new_email (cr_ids rnd)) acct (mailbox_for (sc_spam sc) spam))"
proof -
  obtain x d1 where s: "resolve_recipient (cr_now rnd) rcp d = (x, d1)" by (meson surj_pair)
  note k1 = resolve_keeps[OF s]
  show ?thesis
  proof (cases "\<exists>a. x = Inr (Some a)")
    case False
    with assms s k1 show ?thesis by (auto simp: deliver_one_def split: sum.splits option.splits)
  next
    case True
    then obtain a where x: "x = Inr (Some a)" by blast
    obtain y d2 where p: "inbound (sc_pgp sc) (cr_now rnd) (cr_entropy rnd) (a_id a) raw d1 = (y, d2)" by (meson surj_pair)
    have k2: "host_view d2 = host_view d1" "filed_view d2 = filed_view d1"
      using pgp_keepsD[OF hv.keeps_inbound p] pgp_keepsD[OF fv.keeps_inbound p] by auto
    show ?thesis
    proof (cases y)
      case (Inl e)
      with assms s x p k1 k2 show ?thesis by (auto simp: deliver_one_def)
    next
      case (Inr out)
      let ?d2 = "d2\<lparr>published := published d2 @ map (key_changed (a_id a)) (io_key_changes out)\<rparr>"
      obtain c d3 where ch: "recipient_chat (a_id a) frm ?d2 = (c, d3)" by (meson surj_pair)
      have k3: "host_view d3 = host_view d" "filed_view d3 = filed_view d"
        using recipient_chat_keeps[OF ch] k1 k2 by (simp_all add: host_view_def filed_view_def)
      have "file_mail sc rnd (a_id a) (mailbox_for (sc_spam sc) spam) c verdict (sc_spam_json sc spam) out d3 = (r, d')"
        using assms s x p Inr ch by (simp add: deliver_one_def)
      from file_mail_filed[OF this] resolve_addressee[OF s[unfolded x]] k3 show ?thesis
        using filed_cong[of d3 d d' d'] by (auto simp: host_view_def)
    qed
  qed
qed

lemma deliver_one_host:
  assumes "deliver_one sc rnd frm verdict spam raw rcp d = (r, d')"
  shows "host_view d' = host_view d"
proof -
  have ing: "host_view (snd (ingest_email_with_chat env now ids acct m role auth chat e)) = host_view e" for env now ids acct m role auth chat e
    using hm.keeps_ingest by (simp add: ingest_email_with_chat_def keeps_def)
  have sets: "host_view (snd (set_pgp_status i st e)) = host_view e" "host_view (snd (set_spam_verdict i st e)) = host_view e" for i st e
    using hm.keeps_verdicts by (simp_all add: keeps_def)
  have filing: "host_view (snd (file_mail sc rnd acct role chat verdict sp out e)) = host_view e" for acct role chat sp out e
    by (auto simp: file_mail_def Let_def split: prod.splits sum.splits option.splits) (metis ing sets snd_conv)+
  have pub: "host_view (e\<lparr>published := p\<rparr>) = host_view e" for e p by (simp add: host_view_def)
  show ?thesis using assms
    by (auto simp: deliver_one_def split: sum.splits option.splits prod.splits
        dest!: resolve_keeps pgp_keepsD[OF hv.keeps_inbound] recipient_chat_keeps) (metis filing snd_conv pub)+
qed

text \<open>One message stored for each of the recipients, in order, and nothing else.\<close>

definition in_mailbox :: "db \<Rightarrow> string \<Rightarrow> string \<Rightarrow> string \<Rightarrow> bool" where
  "in_mailbox d acct role m \<longleftrightarrow> (\<exists>b \<in> set (mailboxes d). mb_id b = m \<and> mb_account_id b = acct \<and> mb_role b = Some role)"

definition filed_run :: "db \<Rightarrow> db \<Rightarrow> string \<Rightarrow> string list \<Rightarrow> bool" where
  "filed_run d d' role rcps \<longleftrightarrow> (\<exists>fs. list_all2 (\<lambda>rcp (i, acct, m). addressee d rcp acct \<and> in_mailbox d acct role m) rcps fs \<and>
     distinct (map fst fs) \<and> (\<forall>f \<in> set fs. fst f \<notin> em_id ` set (emails d)) \<and>
     filed_view d' = (fst (filed_view d) @ map (\<lambda>(i, acct, m). (i, acct)) fs, snd (filed_view d) @ map (\<lambda>(i, acct, m). (i, m)) fs))"

lemma host_cong:
  assumes "host_view d' = host_view d"
  shows "addressee d' = addressee d" "in_mailbox d' = in_mailbox d"
proof -
  show "addressee d' = addressee d" by (intro ext addressee_cong assms)
  have "mailboxes d' = mailboxes d" using assms by (simp add: host_view_def)
  then show "in_mailbox d' = in_mailbox d" by (intro ext) (simp add: in_mailbox_def)
qed

lemma filed_run_Nil: "filed_view d' = filed_view d \<Longrightarrow> filed_run d d' role []"
  by (simp add: filed_run_def)

lemma filed_run_Cons:
  assumes "addressee d rcp acct" "filed d d1 i acct role" "filed_run d1 d' role rcps" "host_view d1 = host_view d"
  shows "filed_run d d' role (rcp # rcps)"
proof -
  obtain b where b: "b \<in> set (mailboxes d)" "mb_account_id b = acct" "mb_role b = Some role"
    and v: "filed_view d1 = (fst (filed_view d) @ [(i, acct)], snd (filed_view d) @ [(i, mb_id b)])" "i \<notin> em_id ` set (emails d)"
    using assms(2) by (auto simp: filed_def)
  obtain fs where fs: "list_all2 (\<lambda>rcp (i, acct, m). addressee d1 rcp acct \<and> in_mailbox d1 acct role m) rcps fs"
      "distinct (map fst fs)" "\<forall>f \<in> set fs. fst f \<notin> em_id ` set (emails d1)"
      "filed_view d' = (fst (filed_view d1) @ map (\<lambda>(i, acct, m). (i, acct)) fs, snd (filed_view d1) @ map (\<lambda>(i, acct, m). (i, m)) fs)"
    using assms(3) unfolding filed_run_def by blast
  note host_cong[OF assms(4)]
  moreover have "in_mailbox d acct role (mb_id b)" using b by (auto simp: in_mailbox_def)
  moreover have ids: "em_id ` set (emails d1) = insert i (em_id ` set (emails d))" using v(1) by (simp add: fst_filed_view)
  then have "i \<notin> fst ` set fs" using fs(3) by auto
  ultimately show ?thesis unfolding filed_run_def
    by (intro exI[of _ "(i, acct, mb_id b) # fs"]) (use fs v ids assms(1) in auto)
qed

lemma deliver_each_filed:
  "deliver_each sc rnd i frm verdict spam raw rcps d = (r, d') \<Longrightarrow>
   host_view d' = host_view d \<and> (\<exists>n \<le> length rcps. filed_run d d' (mailbox_for (sc_spam sc) spam) (take n rcps) \<and> (isl r \<or> n = length rcps))"
proof (induction rcps arbitrary: i d)
  case Nil
  then show ?case by (auto intro: filed_run_Nil)
next
  case (Cons rcp rcps)
  obtain x d1 where one: "deliver_one sc (rnd i) frm verdict spam raw rcp d = (x, d1)" by (meson surj_pair)
  note h1 = deliver_one_host[OF one] and f1 = deliver_one_filed[OF one]
  show ?case
  proof (cases x)
    case (Inl e)
    then have end_here: "r = Inl e" "d' = d1" using Cons.prems one by auto
    from f1 show ?thesis
    proof
      assume "\<exists>e. x = Inl e \<and> filed_view d1 = filed_view d"
      then show ?thesis using end_here h1 by (auto intro!: exI[of _ 0] filed_run_Nil)
    next
      assume "\<exists>acct. addressee d rcp acct \<and> filed d d1 (new_email (cr_ids (rnd i))) acct (mailbox_for (sc_spam sc) spam)"
      then have "filed_run d d1 (mailbox_for (sc_spam sc) spam) [rcp]"
        using filed_run_Cons[OF _ _ filed_run_Nil[OF refl] h1] by blast
      then show ?thesis using end_here h1 by (auto intro!: exI[of _ "1 :: nat"])
    qed
  next
    case (Inr u)
    then obtain acct where a: "addressee d rcp acct" "filed d d1 (new_email (cr_ids (rnd i))) acct (mailbox_for (sc_spam sc) spam)"
      using f1 by auto
    have rest: "deliver_each sc rnd (Suc i) frm verdict spam raw rcps d1 = (r, d')" using Cons.prems one Inr by simp
    obtain n where n: "n \<le> length rcps" "filed_run d1 d' (mailbox_for (sc_spam sc) spam) (take n rcps)" "isl r \<or> n = length rcps"
      "host_view d' = host_view d1" using Cons.IH[OF rest] by auto
    with filed_run_Cons[OF a n(2) h1] h1 show ?thesis by (intro conjI exI[of _ "Suc n"]) auto
  qed
qed

text \<open>Scanners that leave the tables at hand alone.\<close>

definition scanner_quiet :: "('m, 'c) server_core \<Rightarrow> bool" where
  "scanner_quiet sc \<longleftrightarrow> (\<forall>ip acct raw d. host_view (snd (sc_scanner sc ip acct raw d)) = host_view d \<and>
     filed_view (snd (sc_scanner sc ip acct raw d)) = filed_view d)"

lemma spam_check_quiet:
  assumes "scanner_quiet sc" "spam_check sc tick mail d = (v, d')"
  shows "host_view d' = host_view d" "filed_view d' = filed_view d"
  using assms by (auto simp: scanner_quiet_def spam_check_def split: if_splits) (metis snd_conv)+

lemma filed_run_cong:
  assumes "host_view d1 = host_view d" "filed_view d1 = filed_view d"
  shows "filed_run d1 d' role rcps = filed_run d d' role rcps"
  unfolding filed_run_def fst_filed_view host_cong[OF assms(1)] assms(2) ..

lemma core_deliver_filed:
  assumes "core_deliver sc mail (d, k) = (r, d', k')" "scanner_quiet sc"
  shows "host_view d' = host_view d \<and> (\<exists>n \<le> length (im_recipients mail).
    filed_run d d' (mailbox_for (sc_spam sc) (fst (spam_check sc k mail d))) (take n (im_recipients mail)) \<and> (isl r \<or> n = length (im_recipients mail)))"
proof -
  obtain v d1 where s: "spam_check sc k mail d = (v, d1)" by (meson surj_pair)
  note q = spam_check_quiet[OF assms(2) s]
  show ?thesis
  proof (cases "f32_ge (sv_score v) (sp_reject_threshold (sc_spam sc))")
    case True
    with assms(1) s q show ?thesis by (auto simp: core_deliver_def Let_def intro!: exI[of _ 0] filed_run_Nil)
  next
    case False
    then obtain vj raw where e: "deliver_each sc (sc_random sc k) 0 (im_mail_from mail) vj v raw (im_recipients mail) d1 = (r, d')"
      using assms(1) s by (auto simp: core_deliver_def Let_def split: prod.splits)
    from deliver_each_filed[OF e] q filed_run_cong[OF q] s show ?thesis by simp
  qed
qed

lemma deliver_each_temporary:
  "deliver_each sc rnd i frm verdict spam raw rcps d = (Inl e, d') \<Longrightarrow> \<exists>t. e = DeliverTemporary t"
proof (induction rcps arbitrary: i d)
  case (Cons rcp rcps)
  have one: "\<exists>t. e1 = DeliverTemporary t" if "deliver_one sc (rnd i) frm verdict spam raw rcp d = (Inl e1, d1)" for e1 d1
    using that by (auto simp: deliver_one_def file_mail_def Let_def split: sum.splits option.splits prod.splits)
  from Cons show ?case by (auto split: prod.splits sum.splits dest: one)
qed simp

section \<open>The thresholds\<close>

lemma below_thresholds:
  assumes "f32_le x (Fin 1 (- 1))"
  shows "\<not> f32_le (f32_lit 7 1) x" "\<not> f32_le (f32_lit 9 1) x"
proof -
  have "\<not> f32_le (f32_lit 7 1) (Fin 1 (- 1))" "\<not> f32_le (f32_lit 9 1) (Fin 1 (- 1))" by code_simp+
  then show "\<not> f32_le (f32_lit 7 1) x" "\<not> f32_le (f32_lit 9 1) x" using f32_le_trans[OF _ assms] by blast+
qed

section \<open>The contract of a mail policy\<close>

definition local_address :: "('m, 'c) server_core \<Rightarrow> db \<Rightarrow> string \<Rightarrow> bool" where
  "local_address sc d addr \<longleftrightarrow> (\<exists>user acct. rsplit_once (CHR ''@'') (to_lowercase (trim addr)) = Some (user, sc_domain sc) \<and> addressee d addr acct)"

definition core_inv :: "('m, 'c) server_core \<Rightarrow> db \<Rightarrow> db \<times> nat \<Rightarrow> bool" where
  "core_inv sc d0 s \<longleftrightarrow> host_view (fst s) = host_view d0 \<and>
     (\<forall>(i, acct) \<in> set (fst (filed_view (fst s))). i \<in> em_id ` set (emails d0) \<or> (\<exists>addr. local_address sc d0 addr \<and> addressee d0 addr acct))"

lemma core_rcpt_keeps:
  assumes "core_rcpt sc a (d, k) = (v, d', k')"
  shows "host_view d' = host_view d" "filed_view d' = filed_view d"
  using assms by (auto simp: core_rcpt_def Let_def split: option.splits if_splits sum.splits prod.splits dest: resolve_keeps)

lemma trim_lower: "to_lowercase (trim (to_lowercase (trim a))) = to_lowercase (trim a)"
proof -
  have "is_space (lower_char c) = is_space c" for c by (auto simp: is_space_def lower_char_def Let_def)
  then have drop: "dropWhile is_space (map lower_char s) = map lower_char (dropWhile is_space s)" for s
    by (simp add: dropWhile_map comp_def)
  have idem: "dropWhile is_space (dropWhile is_space s) = dropWhile is_space s" for s
    by (induction s) auto
  let ?t = "dropWhile is_space (rev (dropWhile is_space a))"
  have "dropWhile is_space (rev ?t) = rev ?t"
  proof (cases "rev ?t")
    case (Cons c s)
    obtain ws where "dropWhile is_space a = rev ?t @ ws"
      by (metis rev_append rev_rev_ident takeWhile_dropWhile_id)
    with Cons have "\<not> is_space c" by (metis append_Cons hd_dropWhile list.distinct(1) list.sel(1))
    with Cons show ?thesis by simp
  next
    case Nil
    then show ?thesis by (simp only: dropWhile.simps)
  qed
  then have "trim (to_lowercase (trim a)) = to_lowercase (trim a)"
    by (simp add: trim_def to_lowercase_def drop rev_map idem)
  then show ?thesis by (simp add: to_lowercase_idem)
qed

lemma core_rcpt_accept:
  assumes "core_rcpt sc a (d, k) = (Accept, d', k')"
  shows "local_address sc d' a"
proof -
  let ?a = "to_lowercase (trim a)"
  obtain user acc where r: "rsplit_once (CHR ''@'') ?a = Some (user, sc_domain sc)" "resolve_recipient (sc_rcpt_now sc k) ?a d = (Inr (Some acc), d')"
    using assms by (auto simp: core_rcpt_def Let_def split: option.splits if_splits sum.splits prod.splits)
  have "addressee d ?a (a_id acc)" by (rule resolve_addressee[OF r(2)])
  then have "addressee d a (a_id acc)" by (simp add: addressee_def trim_lower)
  then have "addressee d' a (a_id acc)" using addressee_cong resolve_keeps[OF r(2)] by blast
  with r(1) show ?thesis unfolding local_address_def by blast
qed

lemma local_address_cong: "host_view d' = host_view d \<Longrightarrow> local_address sc d' a = local_address sc d a"
  unfolding local_address_def using addressee_cong by blast

lemma filed_accounts:
  assumes "filed_run d d' role rcps" "(i, acct) \<in> set (fst (filed_view d'))"
  shows "(i, acct) \<in> set (fst (filed_view d)) \<or> (\<exists>rcp \<in> set rcps. addressee d rcp acct)"
proof -
  obtain fs where fs: "list_all2 (\<lambda>rcp (i, acct, m). addressee d rcp acct \<and> in_mailbox d acct role m) rcps fs"
      "filed_view d' = (fst (filed_view d) @ map (\<lambda>(i, acct, m). (i, acct)) fs, snd (filed_view d) @ map (\<lambda>(i, acct, m). (i, m)) fs)"
    using assms(1) unfolding filed_run_def by blast
  have "\<exists>rcp \<in> set rcps. addressee d rcp acct" if "(i, acct, m) \<in> set fs" for m
    using fs(1) that by (fastforce simp: list_all2_conv_all_nth in_set_conv_nth)
  with assms(2) fs(2) show ?thesis by auto
qed

lemma core_policy:
  assumes quiet: "scanner_quiet sc"
  shows "mail_policy p date (server_core_handler sc) (core_inv sc d0) (\<lambda>s. local_address sc (fst s))"
proof unfold_locales
  fix h :: "db \<times> nat" and a
  obtain d k where h: "h = (d, k)" by (cases h)
  obtain v d' k' where r: "core_rcpt sc a (d, k) = (v, d', k')" by (metis prod_cases3)
  note keeps = core_rcpt_keeps[OF r]
  show "core_inv sc d0 (snd (rcpt (server_core_handler sc) a h))" if "core_inv sc d0 h"
    using that h r keeps by (simp add: core_inv_def server_core_handler_def)
  show "local_address sc (fst h') a" if "rcpt (server_core_handler sc) a h = (Accept, h')" for h'
    using that h core_rcpt_accept by (cases h') (auto simp: server_core_handler_def)
  show "local_address sc (fst (snd (rcpt (server_core_handler sc) a h))) b" if "local_address sc (fst h) b" for b
    using that h r local_address_cong[OF keeps(1), of sc b] by (simp add: server_core_handler_def)
next
  fix h :: "db \<times> nat" and m :: inbound_mail
  assume inv: "core_inv sc d0 h" and known: "\<And>a. a \<in> set (im_recipients m) \<Longrightarrow> local_address sc (fst h) a"
  obtain d k where h: "h = (d, k)" by (cases h)
  obtain r d' k' where del: "core_deliver sc m (d, k) = (r, d', k')" by (metis prod_cases3)
  obtain n role where f: "host_view d' = host_view d" "filed_run d d' role (take n (im_recipients m))"
    using core_deliver_filed[OF del quiet] by blast
  have host: "host_view d = host_view d0" using inv h by (simp add: core_inv_def)
  have "i \<in> em_id ` set (emails d0) \<or> (\<exists>addr. local_address sc d0 addr \<and> addressee d0 addr acct)"
    if "(i, acct) \<in> set (fst (filed_view d'))" for i acct
    using filed_accounts[OF f(2) that]
  proof
    assume "(i, acct) \<in> set (fst (filed_view d))"
    then show ?thesis using inv h unfolding core_inv_def by fastforce
  next
    assume "\<exists>rcp \<in> set (take n (im_recipients m)). addressee d rcp acct"
    then obtain rcp where "rcp \<in> set (im_recipients m)" "addressee d rcp acct" by (meson in_set_takeD)
    then show ?thesis using known h local_address_cong[OF host] addressee_cong[OF host] by (metis fst_conv)
  qed
  then show "core_inv sc d0 (snd (deliver (server_core_handler sc) m h))"
    using h del f(1) host by (auto simp: core_inv_def server_core_handler_def)
qed

section \<open>Properties\<close>

text \<open>C29. A message the policy accepts has been stored once for each recipient of the envelope, under a new id, for
  an account the address stands for and in its inbox or junk mailbox. When the policy reports an error instead, the first
  recipients may have theirs already. The scanner behind the trait object is assumed to store no message itself
  (\<open>scanner_quiet\<close>).\<close>

theorem accepted_mail_filed:
  assumes "core_deliver sc mail (d, k) = (r, d', k')" "scanner_quiet sc"
  shows "\<exists>n role. (n = length (im_recipients mail) \<or> isl r \<and> n < length (im_recipients mail)) \<and> role \<in> {''inbox'', ''junk''} \<and>
    filed_run d d' role (take n (im_recipients mail))"
proof -
  obtain n where "n \<le> length (im_recipients mail)" "isl r \<or> n = length (im_recipients mail)"
    "filed_run d d' (mailbox_for (sc_spam sc) (fst (spam_check sc k mail d))) (take n (im_recipients mail))"
    using core_deliver_filed[OF assms] by blast
  moreover have "mailbox_for cfg v \<in> {''inbox'', ''junk''}" for cfg v by (simp add: mailbox_for_def)
  ultimately show ?thesis by (metis le_neq_implies_less)
qed

text \<open>C28. No relaying. Whatever a client does in an SMTP session with the server, nothing enters the queue of outgoing
  mail, accounts and aliases stay as they are, and every message the session stores belongs to an account that an
  address in the server's own domain stands for. The scanner behind the trait object is assumed to leave those tables alone
  (\<open>scanner_quiet\<close>).\<close>

theorem no_open_relay:
  assumes "serve_connection p (server_core_handler sc) P date rem g t (d, k) ios = Some (s, (d', k'), outs)" "scanner_quiet sc"
  shows "host_view d' = host_view d \<and> (\<forall>r \<in> set (emails d'). em_id r \<notin> em_id ` set (emails d) \<longrightarrow>
    (\<exists>addr. local_address sc d addr \<and> addressee d addr (em_account_id r)))"
proof -
  have "core_inv sc d (d, k)" by (force simp: core_inv_def filed_view_def)
  from mail_policy.serve_connection_inv[OF core_policy[OF assms(2)] assms(1) this]
  have inv: "core_inv sc d (d', k')" by simp
  have "(em_id r, em_account_id r) \<in> set (fst (filed_view d'))" if "r \<in> set (emails d')" for r
    using that by (force simp: filed_view_def)
  with inv show ?thesis unfolding core_inv_def by fastforce
qed

text \<open>C30. The spam filter never acts. With the default thresholds, and whatever the message is, the verdict of the
  built-in scanner on the fresh account id it is given neither rejects the message nor files it as junk: all the rules
  together come to half the weight, and mixing in a classifier without training, which says one half, does not raise the score
  above it.\<close>

theorem spam_filter_never_acts:
  assumes "sp_reject_threshold (sc_spam sc) = f32_lit 9 1" "sp_quarantine_threshold (sc_spam sc) = f32_lit 7 1"
    and "spam_check sc k mail d = (v, d1)" "scan env zones (im_remote mail) (sc_new_account sc k) (im_raw mail) d = Some (v, d1)"
    and "untrained (sc_new_account sc k) d" "te_ln env (Fin 1 0) = Fin 0 0" "te_exp env (Fin 0 0) = Fin 1 0"
  shows "mailbox_for (sc_spam sc) v = ''inbox'' \<and> fst (core_deliver sc mail (d, k)) \<notin> range (\<lambda>t. Inl (DeliverPermanent t))"
proof -
  note low = scan_untrained_low[OF assms(4-7), THEN below_thresholds(1)] scan_untrained_low[OF assms(4-7), THEN below_thresholds(2)]
  have "mailbox_for (sc_spam sc) v = ''inbox''" using low assms(2) by (simp add: mailbox_for_def)
  moreover have "fst (core_deliver sc mail (d, k)) \<noteq> Inl (DeliverPermanent t)" for t
    using assms(1,3) low by (auto simp: core_deliver_def Let_def split: prod.splits dest: deliver_each_temporary)
  ultimately show ?thesis by auto
qed

section \<open>Examples\<close>

definition demo_text :: text_env where
  "demo_text = \<lparr>te_lower = to_lowercase, te_words = (\<lambda>_. [''offer'']), te_all_caps = (\<lambda>s. to_uppercase s = s), te_hash_order = id,
     te_ln = (\<lambda>_. Fin 0 0), te_exp = (\<lambda>_. Fin 1 0), te_percent = (\<lambda>_. [])\<rparr>"

definition demo_auth :: "unit mail_auth" where
  "demo_auth = \<lparr>ma_iprev = (\<lambda>_. IpPass), ma_spf_ehlo = (\<lambda>_ _ _. SpfNone), ma_spf_mail_from = (\<lambda>_ _ _ _. SpfPass), ma_parse = (\<lambda>_. None),
     ma_dkim = (\<lambda>_. []), ma_arc = (\<lambda>_. DkNone), ma_dmarc = (\<lambda>_ _ _ _. \<lparr>do_spf = DmNone, do_dkim = DmNone, do_policy = PolicyNone\<rparr>)\<rparr>"

definition demo_core :: "(unit, string) server_core" where
  "demo_core = \<lparr>sc_auth = demo_auth, sc_scanner = (\<lambda>_ _ _ d. (default_verdict, d)), sc_pgp = demo_pgp, sc_domain = ''b.test'', sc_hostname = ''mx.b.test'',
     sc_spam = default_spam_config, sc_verdict_json = (\<lambda>_. None), sc_spam_json = (\<lambda>_. Some []), sc_show_score = (\<lambda>_. []),
     sc_show_storage = (\<lambda>_. ''storage''), sc_show_pgp = (\<lambda>_. []), sc_elapsed = (\<lambda>_. 0), sc_new_account = (\<lambda>_. ''fresh''),
     sc_random = (\<lambda>k i. \<lparr>cr_now = 5, cr_ids = \<lparr>new_email = [char_of (65 + k), char_of (65 + i)], new_thread = [char_of (65 + k), char_of (65 + i)], new_contact = ''ct''\<rparr>,
       cr_entropy = []\<rparr>), sc_rcpt_now = (\<lambda>_. 5)\<rparr>"

definition demo_host :: db where
  "demo_host = demo_bob\<lparr>
     accounts := accounts demo_bob @ [\<lparr>acc_id = ''cy'', acc_email = ''cy@b.test'', acc_display_name = None, acc_created_at = 0, acc_disabled_at = None\<rparr>],
     mailboxes := [\<lparr>mb_id = ''in'', mb_account_id = ''bob'', mb_parent_id = None, mb_name = ''Inbox'', mb_role = Some ''inbox'',
                    mb_sort_order = 0, mb_created_modseq = 0, mb_updated_modseq = 0\<rparr>]\<rparr>"

definition demo_mail :: "string list \<Rightarrow> inbound_mail" where
  "demo_mail rcps = \<lparr>im_remote = ''ip'', im_helo = ''h'', im_mail_from = ''eve@evil.test'', im_recipients = rcps,
     im_raw = ''x'' @ CRLFs @ ''Subject: CLICK HERE, URGENT ACTION!!!!'' @ CRLFs @ ''filename=\"exe''\<rparr>"

definition demo_delivered :: "string list \<Rightarrow> (deliver_error, unit) result \<times> db \<times> nat" where
  "demo_delivered rcps = core_deliver demo_core (demo_mail rcps) (demo_host, 0)"

lemma demo_quiet: "scanner_quiet demo_core"
  by (simp add: scanner_quiet_def demo_core_def)

text \<open>The second recipient has no inbox: the policy asks the client to try again, and the first has the message already.\<close>

theorem accepted_mail_filed_witness:
  "(\<exists>role. filed_run demo_host (fst (snd (demo_delivered [''bob@b.test'']))) role [''bob@b.test'']) \<and>
   isl (fst (demo_delivered [''bob@b.test'', ''cy@b.test''])) \<and> length (emails (fst (snd (demo_delivered [''bob@b.test'', ''cy@b.test''])))) = 1"
proof -
  have "\<not> isl (fst (demo_delivered [''bob@b.test'']))" by code_simp
  moreover obtain r d' k' where run: "demo_delivered [''bob@b.test''] = (r, d', k')" by (metis prod_cases3)
  moreover have "im_recipients (demo_mail [''bob@b.test'']) = [''bob@b.test'']" by (simp add: demo_mail_def)
  ultimately have "\<exists>role. filed_run demo_host (fst (snd (demo_delivered [''bob@b.test'']))) role [''bob@b.test'']"
    using accepted_mail_filed[OF run[unfolded demo_delivered_def] demo_quiet] by auto
  moreover have "isl (fst (demo_delivered [''bob@b.test'', ''cy@b.test'']))" by code_simp
  moreover have "length (emails (fst (snd (demo_delivered [''bob@b.test'', ''cy@b.test''])))) = 1" by code_simp
  ultimately show ?thesis by blast
qed

text \<open>A client that names a recipient of another domain and one of this server.\<close>

definition demo_smtp :: "(unit, unit) smtp_proto" where
  "demo_smtp = toy_proto\<lparr>cmd_ingest := (\<lambda>r it. case it of [] \<Rightarrow> ((), [], Inl NeedsMoreData)
     | c # cs \<Rightarrow> ((), cs, if c = CHR ''M'' then Inr (Mail ''eve@evil.test'' 0)
         else if c = CHR ''X'' then Inr (Rcpt ''eve@evil.test'') else if c = CHR ''R'' then Inr (Rcpt ''bob@b.test'')
         else if c = CHR ''D'' then Inr DataCmd else Inl UnknownCommand))\<rparr>"

definition demo_session :: "db option" where
  "demo_session = map_option (\<lambda>(_, (d, _), _). d)
     (serve_connection (toy_params\<lparr>max_message_size := 1000\<rparr>) (server_core_handler demo_core) demo_smtp ''d'' ''ip'' True True (demo_host, 0)
        [\<lparr>io_elapsed = 0, io_read = ReadBytes ''MXRDx.'', io_write_ok = True\<rparr>, \<lparr>io_elapsed = 1, io_read = ReadEof, io_write_ok = True\<rparr>])"

theorem no_open_relay_witness:
  "map_option queue demo_session = Some [] \<and> map_option (\<lambda>d. map em_account_id (emails d)) demo_session = Some [''bob'']"
proof -
  have "map_option (\<lambda>d. map em_account_id (emails d)) demo_session = Some [''bob'']" by code_simp
  moreover from this obtain s d' k' outs where
    run: "serve_connection (toy_params\<lparr>max_message_size := 1000\<rparr>) (server_core_handler demo_core) demo_smtp ''d'' ''ip'' True True (demo_host, 0)
        [\<lparr>io_elapsed = 0, io_read = ReadBytes ''MXRDx.'', io_write_ok = True\<rparr>, \<lparr>io_elapsed = 1, io_read = ReadEof, io_write_ok = True\<rparr>]
        = Some (s, (d', k'), outs)" and sess: "demo_session = Some d'"
    by (auto simp: demo_session_def)
  moreover have "queue demo_host = []" by (simp add: demo_host_def demo_bob_def empty_db_def)
  then have "queue d' = []" using no_open_relay[OF run demo_quiet] by (simp add: host_view_def)
  then have "map_option queue demo_session = Some []" unfolding sess by simp
  ultimately show ?thesis by blast
qed

definition demo_scanner :: "string \<Rightarrow> string \<Rightarrow> string \<Rightarrow> db \<Rightarrow> spam_verdict \<times> db" where
  "demo_scanner ip acct raw d = (case scan demo_text [''zen.spamhaus.org''] ip acct raw d of Some r \<Rightarrow> r | None \<Rightarrow> (default_verdict, d))"

definition demo_filter :: "(unit, string) server_core" where
  "demo_filter = demo_core\<lparr>sc_scanner := demo_scanner\<rparr>"

theorem spam_filter_never_acts_witness:
  "mailbox_for (sc_spam demo_filter) (fst (spam_check demo_filter 0 (demo_mail [''bob@b.test'']) demo_host)) = ''inbox''"
proof -
  have cfg: "sp_reject_threshold (sc_spam demo_filter) = f32_lit 9 1" "sp_quarantine_threshold (sc_spam demo_filter) = f32_lit 7 1"
    by (simp_all add: demo_filter_def demo_core_def default_spam_config_def)
  have "scan demo_text [''zen.spamhaus.org''] (im_remote (demo_mail [''bob@b.test''])) (sc_new_account demo_filter 0)
      (im_raw (demo_mail [''bob@b.test''])) demo_host \<noteq> None" by code_simp
  then obtain v d1 where s: "scan demo_text [''zen.spamhaus.org''] (im_remote (demo_mail [''bob@b.test''])) (sc_new_account demo_filter 0)
      (im_raw (demo_mail [''bob@b.test''])) demo_host = Some (v, d1)" by auto
  then have c: "spam_check demo_filter 0 (demo_mail [''bob@b.test'']) demo_host = (v, d1)"
    by (simp add: spam_check_def demo_filter_def demo_core_def default_spam_config_def demo_scanner_def)
  have "untrained (sc_new_account demo_filter 0) demo_host" by code_simp
  with spam_filter_never_acts[OF cfg c s] c show ?thesis by (simp add: demo_text_def)
qed

end
