(* ===== verification/Jmap_Methods.thy ===== *)
theory Jmap_Methods
  imports Jmap_Dispatcher Core_Time Scheduling_Store Spam Fed_Http
begin

text \<open>
  What the JMAP methods of \<open>crates/owney-jmap-mail\<close> share: the context of a call (\<open>JmapCtx\<close> of
  \<open>crates/owney-api/src/lib.rs\<close>), the decoding of arguments by \<open>serde\<close>, blob ids
  (\<open>crates/owney-core/src/id.rs\<close>), and the steps a handler is made of.
\<close>

section \<open>Definitions\<close>

subsection \<open>Blob ids\<close>

datatype invalid_blob_id = WrongLength nat | InvalidChar nat

definition hex_digit :: "char \<Rightarrow> nat option" where
  "hex_digit c = (let n = (of_char c :: nat) in
     if 48 \<le> n \<and> n \<le> 57 then Some (n - 48)
     else if 97 \<le> n \<and> n \<le> 102 then Some (n - 87)
     else if 65 \<le> n \<and> n \<le> 70 then Some (n - 55)
     else None)"

text \<open>\<open>u8::from_str_radix(s, 16)\<close> on two bytes accepts a plus sign and one digit.\<close>

definition hex_byte :: "char \<Rightarrow> char \<Rightarrow> nat option" where
  "hex_byte a b =
     (if a = CHR ''+'' then hex_digit b
      else case (hex_digit a, hex_digit b) of (Some m, Some n) \<Rightarrow> Some (16 * m + n) | _ \<Rightarrow> None)"

definition hex_char :: "nat \<Rightarrow> char" where
  "hex_char n = (if n < 10 then char_of (48 + n) else char_of (87 + n))"

fun to_hex :: "nat list \<Rightarrow> string" where
  "to_hex [] = []"
| "to_hex (b # bs) = hex_char (b div 16) # hex_char (b mod 16) # to_hex bs"

text \<open>The value \<open>None\<close> is the panic of a slice that ends inside a character.\<close>

fun blob_bytes :: "nat \<Rightarrow> string \<Rightarrow> (invalid_blob_id, nat list) result option" where
  "blob_bytes i (a # b # rest) =
     (if \<not> char_boundary rest then None
      else case hex_byte a b of
        None \<Rightarrow> Some (Inl (InvalidChar i))
      | Some n \<Rightarrow> map_option (map_sum id (Cons n)) (blob_bytes (i + 2) rest))"
| "blob_bytes i _ = Some (Inr [])"

definition parse_blob_id :: "string \<Rightarrow> (invalid_blob_id, nat list) result option" where
  "parse_blob_id s = (if length s \<noteq> 64 then Some (Inl (WrongLength (length s))) else blob_bytes 0 s)"

subsection \<open>Reading JSON\<close>

fun as_str :: "json \<Rightarrow> string option" where
  "as_str (JStr s) = Some s"
| "as_str _ = None"

fun as_bool :: "json \<Rightarrow> bool option" where
  "as_bool (JBool b) = Some b"
| "as_bool _ = None"

fun as_array :: "json \<Rightarrow> json list option" where
  "as_array (JArr xs) = Some xs"
| "as_array _ = None"

fun as_object :: "json \<Rightarrow> (string, json) btree option" where
  "as_object (JObj m) = Some m"
| "as_object _ = None"

fun as_unsigned :: "nat \<Rightarrow> json \<Rightarrow> nat option" where
  "as_unsigned bits (JNum i) = (if 0 \<le> i \<and> i < 2 ^ bits then Some (nat i) else None)"
| "as_unsigned bits _ = None"

fun as_int64 :: "json \<Rightarrow> int option" where
  "as_int64 (JNum i) = (if - (2 ^ 63) \<le> i \<and> i < 2 ^ 63 then Some i else None)"
| "as_int64 _ = None"

definition as_list :: "(json \<Rightarrow> 'a option) \<Rightarrow> json \<Rightarrow> 'a list option" where
  "as_list f j = Option.bind (as_array j) (\<lambda>xs. those (map f xs))"

definition get_as :: "(json \<Rightarrow> 'a option) \<Rightarrow> json \<Rightarrow> string \<Rightarrow> 'a option" where
  "get_as f j k = Option.bind (json_get j k) f"

text \<open>A derived \<open>Deserialize\<close> reads a struct from an object, by name, or from an array, by position.\<close>

fun struct_shape :: "string list \<Rightarrow> bool \<Rightarrow> json \<Rightarrow> bool" where
  "struct_shape ks deny_unknown (JObj m) = (deny_unknown \<longrightarrow> list_all (\<lambda>kv. fst kv \<in> set ks) m)"
| "struct_shape ks deny_unknown (JArr xs) = (length xs \<le> length ks)"
| "struct_shape ks deny_unknown _ = False"

fun struct_field :: "string list \<Rightarrow> json \<Rightarrow> string \<Rightarrow> json option" where
  "struct_field ks (JObj m) k = map_of m k"
| "struct_field ks (JArr xs) k = map_of (zip ks xs) k"
| "struct_field ks _ k = None"

text \<open>A required field, an \<open>Option\<close>, and a field with a default.\<close>

definition de_req :: "(json \<Rightarrow> 'a option) \<Rightarrow> json option \<Rightarrow> 'a option" where
  "de_req f v = Option.bind v f"

definition de_opt :: "(json \<Rightarrow> 'a option) \<Rightarrow> json option \<Rightarrow> 'a option option" where
  "de_opt f v = (case v of None \<Rightarrow> Some None | Some JNull \<Rightarrow> Some None | Some j \<Rightarrow> map_option Some (f j))"

definition de_default :: "'a \<Rightarrow> (json \<Rightarrow> 'a option) \<Rightarrow> json option \<Rightarrow> 'a option" where
  "de_default d f v = (case v of None \<Rightarrow> Some d | Some j \<Rightarrow> f j)"

subsection \<open>The context of a call\<close>

text \<open>What a handler draws from outside: the clock and the ids it generates.\<close>

record jmap_random =
  jr_now :: int
  jr_ids :: ingest_ids
  jr_uuid :: string
  jr_queue_ids :: "string list"
  jr_id :: string
  jr_secret :: string
  jr_nonce :: string
  jr_entropy :: string

record mail_addr =
  ma_name :: "string option"
  ma_address :: "string option"

text \<open>What the MIME parser reports of a message to the JMAP methods.\<close>

record mail_view =
  mv_from :: "mail_addr list option"
  mv_to :: "mail_addr list option"
  mv_cc :: "mail_addr list option"
  mv_bcc :: "mail_addr list option"
  mv_date :: "string option"
  mv_body :: "string option"

text \<open>The submitter is a trait object: from the account, the envelope and the message it makes queue ids.\<close>

type_synonym submitter = "jmap_random \<Rightarrow> string \<Rightarrow> string \<Rightarrow> string list \<Rightarrow> string \<Rightarrow> bool \<Rightarrow> db \<Rightarrow>
  (string, string list) result \<times> db"

record jmap_ctx =
  jc_account :: account_t
  jc_submitter :: "submitter option"
  jc_public_url :: string
  jc_serde :: "string \<Rightarrow> json \<Rightarrow> string"
  jc_uuid :: "string \<Rightarrow> string option"
  jc_json_parse :: "string \<Rightarrow> json option"
  jc_show_storage :: "storage_error \<Rightarrow> string"
  jc_ingest :: ingest_env
  jc_get_blob :: "string \<Rightarrow> (storage_error, string) result"
  jc_mail :: "string \<Rightarrow> mail_view option"
  jc_search :: "jmap_random \<Rightarrow> string \<Rightarrow> string \<Rightarrow> nat \<Rightarrow> string list"
  jc_filter_sql :: "email_filter \<Rightarrow> db \<Rightarrow> string list"
  jc_query_sql :: "email_filter \<Rightarrow> db \<Rightarrow> string list \<times> nat \<times> int"
  jc_text :: text_env
  jc_tz_known :: "string \<Rightarrow> bool"

subsection \<open>Steps of a handler\<close>

text \<open>The world is the database with a count of the operations so far, from which the clock, random values and
  ids are drawn. A step returns, fails or panics.\<close>

datatype ('e, 'a) outcome = JDone 'a | JFail 'e | JPanic string

type_synonym world = "db \<times> nat"

type_synonym ('e, 'a) step = "(nat \<Rightarrow> jmap_random) \<Rightarrow> world \<Rightarrow> ('e, 'a) outcome \<times> world"

definition step_return :: "'a \<Rightarrow> ('e, 'a) step" where
  "step_return a rnd w = (JDone a, w)"

definition step_fail :: "'e \<Rightarrow> ('e, 'a) step" where
  "step_fail e rnd w = (JFail e, w)"

definition step_panic :: "string \<Rightarrow> ('e, 'a) step" where
  "step_panic msg rnd w = (JPanic msg, w)"

definition step_bind :: "('e, 'a) step \<Rightarrow> ('a \<Rightarrow> ('e, 'b) step) \<Rightarrow> ('e, 'b) step" where
  "step_bind m f rnd w =
     (case m rnd w of (JDone a, w') \<Rightarrow> f a rnd w' | (JFail e, w') \<Rightarrow> (JFail e, w') | (JPanic p, w') \<Rightarrow> (JPanic p, w'))"

text \<open>A value or an error already at hand, and an operation of the store, whose error is mapped.\<close>

definition step_of :: "('e, 'a) result \<Rightarrow> ('e, 'a) step" where
  "step_of r = (case r of Inr a \<Rightarrow> step_return a | Inl e \<Rightarrow> step_fail e)"

definition step_op :: "('s \<Rightarrow> 'e) \<Rightarrow> (jmap_random \<Rightarrow> db \<Rightarrow> ('s, 'a) result \<times> db) \<Rightarrow> ('e, 'a) step" where
  "step_op err f rnd w =
     (case f (rnd (snd w)) (fst w) of
        (Inr a, d) \<Rightarrow> (JDone a, d, Suc (snd w))
      | (Inl e, d) \<Rightarrow> (JFail (err e), d, Suc (snd w)))"

text \<open>An operation that also talks to other servers: the state of the network is the count.\<close>

definition step_net :: "('s \<Rightarrow> 'e) \<Rightarrow> (jmap_random \<Rightarrow> db \<Rightarrow> nat \<Rightarrow> ('s, 'a) result \<times> db \<times> nat) \<Rightarrow> ('e, 'a) step" where
  "step_net err f rnd w =
     (case f (rnd (snd w)) (fst w) (Suc (snd w)) of
        (Inr a, w') \<Rightarrow> (JDone a, w')
      | (Inl e, w') \<Rightarrow> (JFail (err e), w'))"

text \<open>The result of an inner \<open>async\<close> block, whose failure is a value.\<close>

definition step_try :: "('e, 'a) step \<Rightarrow> ('f, ('e, 'a) result) step" where
  "step_try m rnd w =
     (case m rnd w of (JDone a, w') \<Rightarrow> (JDone (Inr a), w') | (JFail e, w') \<Rightarrow> (JDone (Inl e), w') | (JPanic p, w') \<Rightarrow> (JPanic p, w'))"

text \<open>A loop over a list that threads a value.\<close>

fun step_fold :: "('x \<Rightarrow> 'a \<Rightarrow> ('e, 'a) step) \<Rightarrow> 'x list \<Rightarrow> 'a \<Rightarrow> ('e, 'a) step" where
  "step_fold f [] acc = step_return acc"
| "step_fold f (x # xs) acc = step_bind (f x acc) (step_fold f xs)"

definition step_blob_id :: "'e \<Rightarrow> string \<Rightarrow> ('e, string) step" where
  "step_blob_id err s =
     (case parse_blob_id s of
        None \<Rightarrow> step_panic ''byte index is not a char boundary''
      | Some (Inl _) \<Rightarrow> step_fail err
      | Some (Inr bs) \<Rightarrow> step_return (to_hex bs))"

text \<open>A method as the dispatcher calls it. No time limit is set in \<open>owneyd\<close>, so what a dropped call leaves
  is a parameter.\<close>

record jmap_host =
  h_random :: "nat \<Rightarrow> jmap_random"
  h_elapsed :: "nat \<Rightarrow> nat"
  h_dropped :: "json \<Rightarrow> world \<Rightarrow> nat \<Rightarrow> world"

type_synonym jmap_method = "jmap_ctx \<Rightarrow> json \<Rightarrow> (method_error, json) step"

definition as_handler :: "jmap_host \<Rightarrow> jmap_ctx \<Rightarrow> jmap_method \<Rightarrow> world handler" where
  "as_handler hs ctx f args w =
     (case f ctx args (h_random hs) w of
        (out, w') \<Rightarrow> \<lparr>elapsed = h_elapsed hs (snd w),
          run_outcome = (case out of JDone j \<Rightarrow> Returned (Inr j) | JFail e \<Rightarrow> Returned (Inl e) | JPanic p \<Rightarrow> Panicked (PanicString p)),
          world_done = w', world_dropped_at = h_dropped hs args w\<rparr>)"

subsection \<open>Shared by the methods\<close>

definition server_fail :: "jmap_ctx \<Rightarrow> storage_error \<Rightarrow> method_error" where
  "server_fail ctx e = ServerFail (jc_show_storage ctx e)"

text \<open>Every method takes \<open>accountId\<close> and works on the authenticated account.\<close>

definition check_account :: "jmap_ctx \<Rightarrow> string \<Rightarrow> (method_error, string) step" where
  "check_account ctx acct =
     (if acct \<noteq> a_id (jc_account ctx) then step_fail AccountNotFound else step_return (a_id (jc_account ctx)))"

definition parse_args :: "jmap_ctx \<Rightarrow> string \<Rightarrow> (json \<Rightarrow> 'a option) \<Rightarrow> json \<Rightarrow> (method_error, 'a) step" where
  "parse_args ctx ty de j =
     (case de j of Some a \<Rightarrow> step_return a | None \<Rightarrow> step_fail (InvalidArguments (jc_serde ctx ty j)))"

text \<open>Where the text of the decoder's error is not passed on.\<close>

definition plain_args :: "(json \<Rightarrow> 'a option) \<Rightarrow> json \<Rightarrow> (method_error, 'a) step" where
  "plain_args de j = (case de j of Some a \<Rightarrow> step_return a | None \<Rightarrow> step_fail (InvalidArguments ''invalid arguments''))"

definition state_str :: "int \<Rightarrow> json" where
  "state_str s = JStr (show_nat (as_u64 s))"

definition invalid_properties :: "string \<Rightarrow> json" where
  "invalid_properties description = json_obj [(''type'', JStr ''invalidProperties''), (''description'', JStr description)]"

text \<open>What the entries of a \<open>/set\<close> came to: those that succeeded and those that failed.\<close>

type_synonym outcomes = "(string, json) btree \<times> (string, json) btree"

end
