(* ===== verification/Jmap_Mail.thy ===== *)
theory Jmap_Mail
  imports Jmap_Methods
begin

text \<open>
  \<open>crates/owney-jmap-mail/src/lib.rs\<close> and \<open>attribute_methods.rs\<close>: the JMAP methods for mailboxes, emails,
  threads, identities, submissions, chat preferences and server-added attributes, over the store of
  \<open>Mail_Store\<close> and \<open>Account_Data\<close>. Each method is the composition of its argument decoding, the account check,
  the operations of the store and the rendering of the answer, in the order of the code.
\<close>

section \<open>Definitions\<close>

definition MAIL_CAPABILITY :: string where "MAIL_CAPABILITY = ''urn:ietf:params:jmap:mail''"

definition SUBMISSION_CAPABILITY :: string where "SUBMISSION_CAPABILITY = ''urn:ietf:params:jmap:submission''"

definition mail_capability :: json where
  "mail_capability = json_obj [(''maxMailboxesPerEmail'', JNum 32), (''maxMailboxDepth'', JNum 10), (''maxSizeMailboxName'', JNum 200),
     (''maxSizeAttachmentsPerEmail'', JNum 50000000), (''emailQuerySortOptions'', JArr [JStr ''receivedAt'']),
     (''mayCreateTopLevelMailbox'', JBool True)]"

subsection \<open>Arguments of a get method, and the properties it returns\<close>

record get_args =
  ga_account_id :: string
  ga_ids :: "string list option"
  ga_properties :: "string list option"
  ga_fetch_text :: bool

definition GET_ARGS :: "string list" where
  "GET_ARGS = [''accountId'', ''ids'', ''properties'', ''fetchTextBodyValues'']"

definition de_get_args :: "json \<Rightarrow> get_args option" where
  "de_get_args j =
     (if \<not> struct_shape GET_ARGS False j then None
      else let f = struct_field GET_ARGS j in
        (case (de_req as_str (f ''accountId''), de_opt (as_list as_str) (f ''ids''), de_opt (as_list as_str) (f ''properties''),
               de_default False as_bool (f ''fetchTextBodyValues'')) of
           (Some a, Some i, Some p, Some t) \<Rightarrow> Some \<lparr>ga_account_id = a, ga_ids = i, ga_properties = p, ga_fetch_text = t\<rparr>
         | _ \<Rightarrow> None))"

definition EMAIL_PROPERTIES :: "string list" where
  "EMAIL_PROPERTIES = [''id'', ''blobId'', ''threadId'', ''mailboxIds'', ''keywords'', ''size'', ''receivedAt'', ''sender'', ''from'', ''to'',
     ''cc'', ''bcc'', ''replyTo'', ''subject'', ''messageId'', ''inReplyTo'', ''snippet'', ''bodyValues'', ''textBody'', ''htmlBody'',
     ''attachments'', ''hasAttachment'', ''preview'', ''sentAt'', ''authResults'', ''pgpStatus'', ''chatMode'', ''serverAttributes'']"

definition MAILBOX_PROPERTIES :: "string list" where
  "MAILBOX_PROPERTIES = [''id'', ''name'', ''parentId'', ''role'', ''sortOrder'', ''totalEmails'', ''unreadEmails'', ''totalThreads'',
     ''unreadThreads'', ''myRights'']"

text \<open>\<open>Subset::from_list\<close>: the first unknown property is the error.\<close>

definition subset_from_list :: "string \<Rightarrow> string list \<Rightarrow> (method_error, string list) result" where
  "subset_from_list ty requested =
     (let go = (\<lambda>allowed. case find (\<lambda>p. p \<notin> set allowed) requested of
                  Some p \<Rightarrow> Inl (InvalidArguments (''unknown property '' @ debug_str p @ '' in '' @ ty @ ''/get''))
                | None \<Rightarrow> Inr requested)
      in if ty = ''Email'' then go EMAIL_PROPERTIES
         else if ty = ''Mailbox'' then go MAILBOX_PROPERTIES
         else Inl (InvalidArguments (ty @ ''/get does not accept a properties filter'')))"

definition subset_of :: "string \<Rightarrow> string list option \<Rightarrow> (method_error, string list option) result" where
  "subset_of ty props = (case props of None \<Rightarrow> Inr None | Some ps \<Rightarrow> map_sum id Some (subset_from_list ty ps))"

definition select :: "string list \<Rightarrow> (string, json) btree \<Rightarrow> (string, json) btree" where
  "select requested full = filter (\<lambda>(k, _). k \<in> set requested) full"

fun project :: "string list option \<Rightarrow> json \<Rightarrow> json" where
  "project (Some ps) (JObj full) = JObj (select ps full)"
| "project _ j = j"

definition get_answer :: "string \<Rightarrow> json \<Rightarrow> json list \<Rightarrow> string list \<Rightarrow> json" where
  "get_answer acct st found not_found = json_obj [(''accountId'', JStr acct), (''state'', st), (''list'', JArr found),
     (''notFound'', JArr (map JStr not_found))]"

subsection \<open>Mailboxes\<close>

definition all_rights :: json where
  "all_rights = json_obj (map (\<lambda>k. (k, JBool True)) [''mayReadItems'', ''mayAddItems'', ''mayRemoveItems'', ''maySetSeen'', ''maySetKeywords'',
     ''mayCreateChild'', ''mayRename'', ''mayDelete'', ''maySubmit''])"

definition mailbox_json :: "mailbox_info \<Rightarrow> json" where
  "mailbox_json m = json_obj [(''id'', JStr (mb_id (mi_row m))), (''name'', JStr (mb_name (mi_row m))),
     (''parentId'', opt_str (mb_parent_id (mi_row m))), (''role'', opt_str (mb_role (mi_row m))),
     (''sortOrder'', JNum (mb_sort_order (mi_row m))), (''totalEmails'', JNum (int (mi_total m))),
     (''unreadEmails'', JNum (int (mi_unread m))), (''totalThreads'', JNull), (''unreadThreads'', JNull),
     (''myRights'', all_rights), (''isSubscribed'', JBool True)]"

text \<open>The objects asked for by id, in the order asked, and the ids nothing has.\<close>

definition look_up :: "('r \<Rightarrow> string) \<Rightarrow> 'r list \<Rightarrow> string list \<Rightarrow> 'r list \<times> string list" where
  "look_up key rows ids = (List.map_filter (\<lambda>i. find (\<lambda>r. key r = i) rows) ids, filter (\<lambda>i. i \<notin> key ` set rows) ids)"

definition mailbox_get :: jmap_method where
  "mailbox_get ctx j =
     step_bind (parse_args ctx ''GetArgs'' de_get_args j) (\<lambda>args.
     step_bind (check_account ctx (ga_account_id args)) (\<lambda>acct.
     step_bind (step_of (subset_of ''Mailbox'' (ga_properties args))) (\<lambda>sub.
     step_bind (step_op (server_fail ctx) (\<lambda>_. mailbox_list acct)) (\<lambda>ms.
     step_bind (step_op (server_fail ctx) (\<lambda>_. state acct ''Mailbox'')) (\<lambda>st.
       let (found, missing) = (case ga_ids args of None \<Rightarrow> (ms, []) | Some ids \<Rightarrow> look_up (\<lambda>m. mb_id (mi_row m)) ms ids)
       in step_return (get_answer (ga_account_id args) (state_str st) (map (\<lambda>m. project sub (mailbox_json m)) found) missing))))))"

subsection \<open>Reading emails\<close>

definition addresses :: "mail_addr list option \<Rightarrow> json" where
  "addresses as = (case as of None \<Rightarrow> JNull
     | Some xs \<Rightarrow> JArr (map (\<lambda>a. json_obj [(''name'', opt_str (ma_name a)),
         (''email'', JStr (case ma_address a of Some s \<Rightarrow> s | None \<Rightarrow> []))]) xs))"

text \<open>\<open>chars().take(n)\<close> on the bytes of a string.\<close>

fun take_chars :: "nat \<Rightarrow> string \<Rightarrow> string" where
  "take_chars n [] = []"
| "take_chars n (c # s) =
     (if byte_in 0x80 0xBF c then c # take_chars n s
      else case n of 0 \<Rightarrow> [] | Suc m \<Rightarrow> c # take_chars m s)"

definition attribute_json :: "jmap_ctx \<Rightarrow> email_attribute_row \<Rightarrow> json" where
  "attribute_json ctx a = json_obj [
     (''value'', case jc_json_parse ctx (at_content a) of Some v \<Rightarrow> v | None \<Rightarrow> JStr (at_content a)),
     (''dismissed'', JBool (at_dismissed_at a \<noteq> None)), (''createdAt'', JStr (iso8601_utc (at_created_at a))),
     (''updatedAt'', JStr (iso8601_utc (at_updated_at a)))]"

text \<open>The part of an Email object that comes from the database, and the part parsed from the message.\<close>

definition row_json :: "jmap_ctx \<Rightarrow> email_info \<Rightarrow> email_attribute_row list \<Rightarrow> json" where
  "row_json ctx e attrs = (let r = ei_row e in json_obj [
     (''id'', JStr (em_id r)), (''blobId'', JStr (em_blob_id r)), (''threadId'', JStr (em_thread_id r)),
     (''mailboxIds'', json_obj (map (\<lambda>i. (i, JBool True)) (ei_mailbox_ids e))),
     (''keywords'', json_obj (map (\<lambda>k. (k, JBool True)) (ei_keywords e))),
     (''size'', JNum (int (em_size r))), (''receivedAt'', JStr (iso8601_utc (em_received_at r))),
     (''messageId'', case em_message_id r of Some i \<Rightarrow> JArr [JStr i] | None \<Rightarrow> JNull),
     (''subject'', opt_str (em_subject r)),
     (''pgpStatus'', case Option.bind (em_pgp_status r) (jc_json_parse ctx) of Some v \<Rightarrow> v | None \<Rightarrow> JNull),
     (''chatMode'', JBool (em_chat_mode r)),
     (''serverAttributes'', json_obj (map (\<lambda>a. (at_kind a, attribute_json ctx a)) attrs))])"

definition with_message :: "mail_view \<Rightarrow> bool \<Rightarrow> string \<Rightarrow> json \<Rightarrow> json" where
  "with_message m fetch_body blob_id email =
     (let body = (case mv_body m of Some b \<Rightarrow> b | None \<Rightarrow> []);
          email = json_set ''from'' (addresses (mv_from m)) email;
          email = json_set ''to'' (addresses (mv_to m)) email;
          email = json_set ''cc'' (addresses (mv_cc m)) email;
          email = json_set ''sentAt'' (opt_str (mv_date m)) email;
          email = json_set ''preview'' (JStr (take_chars 200 body)) email
      in if fetch_body
         then json_set ''textBody'' (JArr [json_obj [(''partId'', JStr ''1''), (''blobId'', JStr blob_id), (''type'', JStr ''text/plain'')]])
                (json_set ''bodyValues'' (json_obj [(''1'', json_obj [(''value'', JStr body), (''isTruncated'', JBool False),
                    (''isEncodingProblem'', JBool False)])]) email)
         else email)"

definition read_blob :: "jmap_ctx \<Rightarrow> string \<Rightarrow> jmap_random \<Rightarrow> string op" where
  "read_blob ctx bid r d = (jc_get_blob ctx bid, d)"

definition email_json :: "jmap_ctx \<Rightarrow> string \<Rightarrow> email_info \<Rightarrow> bool \<Rightarrow> (method_error, json) step" where
  "email_json ctx acct e fetch_body =
     (case jc_uuid ctx (em_id (ei_row e)) of
        None \<Rightarrow> step_fail (ServerFail ''bad email id'')
      | Some eid \<Rightarrow>
          step_bind (step_op (server_fail ctx) (\<lambda>_. list_email_attributes acct eid)) (\<lambda>attrs.
          step_bind (step_blob_id (ServerFail ''bad blob id'') (em_blob_id (ei_row e))) (\<lambda>bid.
          step_bind (step_op (server_fail ctx) (read_blob ctx bid)) (\<lambda>raw.
          step_return (case jc_mail ctx raw of
             Some m \<Rightarrow> with_message m fetch_body (em_blob_id (ei_row e)) (row_json ctx e attrs)
           | None \<Rightarrow> row_json ctx e attrs)))))"

definition required_ids :: "string \<Rightarrow> string list option \<Rightarrow> (method_error, string list) result" where
  "required_ids ty ids = (case ids of Some is \<Rightarrow> Inr is | None \<Rightarrow> Inl (InvalidArguments (ty @ ''/get requires ids'')))"

definition email_get :: jmap_method where
  "email_get ctx j =
     step_bind (parse_args ctx ''GetArgs'' de_get_args j) (\<lambda>args.
     step_bind (check_account ctx (ga_account_id args)) (\<lambda>acct.
     step_bind (step_of (required_ids ''Email'' (ga_ids args))) (\<lambda>ids.
     step_bind (step_of (subset_of ''Email'' (ga_properties args))) (\<lambda>sub.
     step_bind (step_op (server_fail ctx) (\<lambda>_. emails_by_ids acct (List.map_filter (jc_uuid ctx) ids))) (\<lambda>rows.
     step_bind (step_op (server_fail ctx) (\<lambda>_. state acct ''Email'')) (\<lambda>st.
     step_bind (step_fold (\<lambda>e out. step_bind (email_json ctx acct e (ga_fetch_text args)) (\<lambda>o1. step_return (out @ [project sub o1]))) rows []) (\<lambda>found.
     step_return (get_answer (ga_account_id args) (state_str st) found
       (filter (\<lambda>i. i \<notin> (\<lambda>e. em_id (ei_row e)) ` set rows) ids)))))))))"

subsection \<open>Queries and changes\<close>

record query_filter =
  qf_text :: "string option"
  qf_filter :: email_filter

record query_args =
  qa_account_id :: string
  qa_filter :: "query_filter option"
  qa_position :: "int option"
  qa_limit :: "nat option"

definition QUERY_FILTER :: "string list" where
  "QUERY_FILTER = [''inMailbox'', ''hasKeyword'', ''notKeyword'', ''text'', ''after'', ''before'', ''allInThread'', ''isFlagged'', ''isUnread'']"

text \<open>An unknown field of the filter is an error.\<close>

definition de_query_filter :: "json \<Rightarrow> query_filter option" where
  "de_query_filter j =
     (if \<not> struct_shape QUERY_FILTER True j then None
      else let f = struct_field QUERY_FILTER j; s = (\<lambda>k. de_opt as_str (f k)) in
        (case (s ''inMailbox'', s ''hasKeyword'', s ''notKeyword'', s ''text'', s ''allInThread'') of
           (Some m, Some h, Some n, Some t, Some th) \<Rightarrow>
             (case (de_opt as_int64 (f ''after''), de_opt as_int64 (f ''before''), de_opt as_bool (f ''isFlagged''), de_opt as_bool (f ''isUnread'')) of
                (Some a, Some b, Some fl, Some u) \<Rightarrow> Some \<lparr>qf_text = t, qf_filter =
                  \<lparr>ef_in_mailbox = m, ef_has_keyword = h, ef_not_keyword = n, ef_after = a, ef_before = b, ef_in_thread = th,
                   ef_flagged = fl, ef_unread = u\<rparr>\<rparr>
              | _ \<Rightarrow> None)
         | _ \<Rightarrow> None))"

definition QUERY_ARGS :: "string list" where "QUERY_ARGS = [''accountId'', ''filter'', ''position'', ''limit'']"

definition de_query_args :: "json \<Rightarrow> query_args option" where
  "de_query_args j =
     (if \<not> struct_shape QUERY_ARGS False j then None
      else let f = struct_field QUERY_ARGS j in
        (case (de_req as_str (f ''accountId''), de_opt de_query_filter (f ''filter''), de_opt as_int64 (f ''position''),
               de_opt (as_unsigned 64) (f ''limit'')) of
           (Some a, Some q, Some p, Some l) \<Rightarrow> Some \<lparr>qa_account_id = a, qa_filter = q, qa_position = p, qa_limit = l\<rparr>
         | _ \<Rightarrow> None))"

definition no_filter :: email_filter where
  "no_filter = \<lparr>ef_in_mailbox = None, ef_has_keyword = None, ef_not_keyword = None, ef_after = None, ef_before = None,
     ef_in_thread = None, ef_flagged = None, ef_unread = None\<rparr>"

definition SEARCH_LIMIT :: nat where "SEARCH_LIMIT = 1000"

text \<open>The three ways a query is answered: through the full-text index, with the filters of RFC 8621, or by mailbox only.\<close>

definition search_query :: "jmap_ctx \<Rightarrow> string \<Rightarrow> string \<Rightarrow> email_filter \<Rightarrow> nat \<Rightarrow> nat \<Rightarrow> (method_error, string list \<times> nat \<times> int) step" where
  "search_query ctx acct txt flt pos lim =
     step_bind (step_op (server_fail ctx) (\<lambda>r d. (Inr (jc_search ctx r acct txt SEARCH_LIMIT), d))) (\<lambda>hits.
     step_bind (step_op (server_fail ctx) (\<lambda>_. filter_emails (\<lambda>f. db_call (\<lambda>d. (Inr (jc_filter_sql ctx f d), d))) acct hits flt)) (\<lambda>ids.
     step_bind (step_op (server_fail ctx) (\<lambda>_. state acct ''Email'')) (\<lambda>st.
     step_return (take lim (drop pos ids), length ids, st))))"

definition enhanced :: "email_filter \<Rightarrow> bool" where
  "enhanced f \<longleftrightarrow> ef_after f \<noteq> None \<or> ef_before f \<noteq> None \<or> ef_in_thread f \<noteq> None \<or> ef_flagged f \<noteq> None \<or> ef_unread f \<noteq> None"

definition run_query :: "jmap_ctx \<Rightarrow> string \<Rightarrow> query_filter option \<Rightarrow> nat \<Rightarrow> nat \<Rightarrow> (method_error, string list \<times> nat \<times> int) step" where
  "run_query ctx acct q pos lim =
     (let flt = (case q of Some q \<Rightarrow> qf_filter q | None \<Rightarrow> no_filter) in
      case Option.bind q qf_text of
        Some txt \<Rightarrow> search_query ctx acct txt flt pos lim
      | None \<Rightarrow>
          if enhanced flt
          then step_op (server_fail ctx) (\<lambda>_. query_emails_with_filters (\<lambda>f. db_call (\<lambda>d. (Inr (jc_query_sql ctx f d), d))) acct flt pos lim)
          else step_op (server_fail ctx) (\<lambda>_. query_emails acct (ef_in_mailbox flt) pos lim))"

definition email_query :: jmap_method where
  "email_query ctx j =
     step_bind (parse_args ctx ''QueryArgs'' de_query_args j) (\<lambda>args.
     step_bind (check_account ctx (qa_account_id args)) (\<lambda>acct.
       let pos = (case qa_position args of Some p \<Rightarrow> nat (max p 0) | None \<Rightarrow> 0);
           lim = min (case qa_limit args of Some l \<Rightarrow> l | None \<Rightarrow> 50) 500
       in step_bind (run_query ctx acct (qa_filter args) pos lim) (\<lambda>(ids, total, st).
          step_return (json_obj [(''accountId'', JStr (qa_account_id args)), (''queryState'', state_str st),
            (''canCalculateChanges'', JBool False), (''position'', JNum (int pos)), (''ids'', JArr (map JStr ids)),
            (''total'', JNum (int total))]))))"

record changes_args =
  ca_account_id :: string
  ca_since_state :: string
  ca_max_changes :: "nat option"

definition CHANGES_ARGS :: "string list" where "CHANGES_ARGS = [''accountId'', ''sinceState'', ''maxChanges'']"

definition de_changes_args :: "json \<Rightarrow> changes_args option" where
  "de_changes_args j =
     (if \<not> struct_shape CHANGES_ARGS False j then None
      else let f = struct_field CHANGES_ARGS j in
        (case (de_req as_str (f ''accountId''), de_req as_str (f ''sinceState''), de_opt (as_unsigned 64) (f ''maxChanges'')) of
           (Some a, Some s, Some m) \<Rightarrow> Some \<lparr>ca_account_id = a, ca_since_state = s, ca_max_changes = m\<rparr>
         | _ \<Rightarrow> None))"

definition changes :: "string \<Rightarrow> jmap_method" where
  "changes dt ctx j =
     step_bind (parse_args ctx ''ChangesArgs'' de_changes_args j) (\<lambda>args.
     step_bind (check_account ctx (ca_account_id args)) (\<lambda>acct.
     case parse_unsigned (2 ^ 64) (ca_since_state args) of
       None \<Rightarrow> step_fail CannotCalculateChanges
     | Some since \<Rightarrow>
         step_bind (step_op (server_fail ctx) (\<lambda>_. changes_since acct dt since (case ca_max_changes args of Some m \<Rightarrow> m | None \<Rightarrow> 256))) (\<lambda>r.
         step_return (json_obj [(''accountId'', JStr (ca_account_id args)), (''oldState'', JStr (ca_since_state args)),
           (''newState'', state_str (cr_new_state r)), (''hasMoreChanges'', JBool (cr_has_more r)),
           (''created'', JArr (map JStr (cr_created r))), (''updated'', JArr (map JStr (cr_updated r))), (''destroyed'', JArr [])]))))"

definition thread_get :: jmap_method where
  "thread_get ctx j =
     step_bind (parse_args ctx ''GetArgs'' de_get_args j) (\<lambda>args.
     step_bind (check_account ctx (ga_account_id args)) (\<lambda>acct.
     step_bind (step_of (required_ids ''Thread'' (ga_ids args))) (\<lambda>ids.
     step_bind (step_op (server_fail ctx) (\<lambda>_. thread_emails acct (List.map_filter (jc_uuid ctx) ids))) (\<lambda>ths.
     step_bind (step_op (server_fail ctx) (\<lambda>_. state acct ''Thread'')) (\<lambda>st.
     step_return (get_answer (ga_account_id args) (state_str st)
       (map (\<lambda>(t, es). json_obj [(''id'', JStr t), (''emailIds'', JArr (map JStr es))]) ths)
       (filter (\<lambda>i. i \<notin> fst ` set ths) ids)))))))"

subsection \<open>Writing emails\<close>

record set_args =
  sa_account_id :: string
  sa_create :: "(string, json) btree"
  sa_update :: "(string, json) btree"

definition SET_ARGS :: "string list" where "SET_ARGS = [''accountId'', ''create'', ''update'']"

text \<open>An absent map is the empty one.\<close>

definition de_map :: "json option \<Rightarrow> (string, json) btree option" where
  "de_map v = map_option (\<lambda>m. case m of Some m \<Rightarrow> m | None \<Rightarrow> []) (de_opt as_object v)"

definition de_set_args :: "json \<Rightarrow> set_args option" where
  "de_set_args j =
     (if \<not> struct_shape SET_ARGS False j then None
      else let f = struct_field SET_ARGS j in
        (case (de_req as_str (f ''accountId''), de_map (f ''create''), de_map (f ''update'')) of
           (Some a, Some c, Some u) \<Rightarrow> Some \<lparr>sa_account_id = a, sa_create = c, sa_update = u\<rparr>
         | _ \<Rightarrow> None))"

definition address_entry :: "json \<Rightarrow> string option" where
  "address_entry entry =
     map_option (\<lambda>email. case get_as as_str entry ''name'' of
         Some nm \<Rightarrow> if nm \<noteq> [] then nm @ '' <'' @ email @ ''>'' else ''<'' @ email @ ''>''
       | None \<Rightarrow> ''<'' @ email @ ''>'') (get_as as_str entry ''email'')"

definition address_list :: "json option \<Rightarrow> string list" where
  "address_list v = (case Option.bind v as_array of Some xs \<Rightarrow> List.map_filter address_entry xs | None \<Rightarrow> [])"

definition crlf_body :: "string \<Rightarrow> string" where
  "crlf_body s = concat (map (\<lambda>c. if c = LF then CRLF else [c]) s)"

definition body_value :: "json \<Rightarrow> string" where
  "body_value obj =
     (let part_id = Option.bind (get_as as_array obj ''textBody'') (\<lambda>parts. case parts of [] \<Rightarrow> None | p # _ \<Rightarrow> get_as as_str p ''partId'')
      in case Option.bind part_id (\<lambda>i. Option.bind (json_get obj ''bodyValues'') (\<lambda>b. Option.bind (json_get b i) (\<lambda>p. get_as as_str p ''value''))) of
           Some s \<Rightarrow> s | None \<Rightarrow> [])"

definition sender_line :: "account_t \<Rightarrow> json \<Rightarrow> string" where
  "sender_line a obj =
     (let provided = address_list (json_get obj ''from'') in
      if provided = []
      then (case a_display_name a of Some nm \<Rightarrow> nm @ '' <'' @ a_email a @ ''>'' | None \<Rightarrow> ''<'' @ a_email a @ ''>'')
      else join '', '' provided)"

definition compose_from_jmap :: "account_t \<Rightarrow> int \<Rightarrow> string \<Rightarrow> json \<Rightarrow> string" where
  "compose_from_jmap a now uuid obj =
     (let to_list = address_list (json_get obj ''to'');
          cc_list = address_list (json_get obj ''cc'');
          dn = (case rsplit_once (CHR ''@'') (a_email a) of Some (_, d) \<Rightarrow> d | None \<Rightarrow> ''local'')
      in ''From: '' @ sender_line a obj @ CRLF @
         ''Subject: '' @ (case get_as as_str obj ''subject'' of Some s \<Rightarrow> s | None \<Rightarrow> []) @ CRLF @
         ''Date: '' @ rfc2822_utc now @ CRLF @
         ''Message-ID: <'' @ uuid @ ''@'' @ dn @ ''>'' @ CRLF @ ''MIME-Version: 1.0'' @ CRLF @
         ''Content-Type: text/plain; charset=utf-8'' @ CRLF @
         (if to_list = [] then [] else ''To: '' @ join '', '' to_list @ CRLF) @
         (if cc_list = [] then [] else ''Cc: '' @ join '', '' cc_list @ CRLF) @
         CRLF @ crlf_body (body_value obj))"

text \<open>A store operation inside a \<open>Result<_, String>\<close> block.\<close>

abbreviation step_db :: "jmap_ctx \<Rightarrow> (jmap_random \<Rightarrow> 'a op) \<Rightarrow> (string, 'a) step" where
  "step_db ctx \<equiv> step_op (jc_show_storage ctx)"

definition first_mailbox :: "jmap_ctx \<Rightarrow> json \<Rightarrow> (string, string) result" where
  "first_mailbox ctx obj =
     (case get_as as_object obj ''mailboxIds'' of
        Some ((k, _) # _) \<Rightarrow> (case jc_uuid ctx k of Some i \<Rightarrow> Inr i | None \<Rightarrow> Inl ''bad mailbox id'')
      | _ \<Rightarrow> Inl ''mailboxIds is required'')"

definition apply_create :: "jmap_ctx \<Rightarrow> string \<Rightarrow> json \<Rightarrow> (string, json) step" where
  "apply_create ctx acct obj =
     step_bind (step_of (first_mailbox ctx obj)) (\<lambda>mb.
     let chat = (case get_as as_bool obj ''chatMode'' of Some b \<Rightarrow> b | None \<Rightarrow> False) in
     step_bind (step_db ctx (\<lambda>r d. (Inr (compose_from_jmap (jc_account ctx) (jr_now r) (jr_uuid r) obj), d))) (\<lambda>raw.
     step_bind (step_db ctx (\<lambda>r. ingest_email_into (jc_ingest ctx) (jr_now r) (jr_ids r) acct raw (TId mb) None chat)) (\<lambda>ingested.
     step_bind (case get_as as_object obj ''keywords'' of
                  None \<Rightarrow> step_return ()
                | Some kws \<Rightarrow> step_db ctx (\<lambda>_. update_email acct (ig_id ingested) (Some (map fst kws)) None)) (\<lambda>_.
     step_return (json_obj [(''id'', JStr (ig_id ingested)), (''blobId'', JStr (ig_blob_id ingested)),
                            (''threadId'', JStr (ig_thread_id ingested))])))))"

text \<open>A patch such as \<open>keywords/$seen\<close> applies on top of the current values.\<close>

definition patch_list :: "string \<Rightarrow> string \<Rightarrow> json \<Rightarrow> string list \<Rightarrow> (string, string list) result" where
  "patch_list key item v current =
     (case v of
        JBool True \<Rightarrow> Inr (if item \<in> set current then current else current @ [item])
      | JBool False \<Rightarrow> Inr (filter (\<lambda>k. k \<noteq> item) current)
      | JNull \<Rightarrow> Inr (filter (\<lambda>k. k \<noteq> item) current)
      | _ \<Rightarrow> Inl (''bad value for '' @ key))"

record email_patch =
  pt_keywords :: "string list option"
  pt_mailboxes :: "string list option"

definition patch_entry :: "email_info \<Rightarrow> string \<Rightarrow> json \<Rightarrow> email_patch \<Rightarrow> (string, email_patch) result" where
  "patch_entry e key v p =
     (if key = ''keywords''
      then (case as_object v of Some m \<Rightarrow> Inr (p\<lparr>pt_keywords := Some (map fst m)\<rparr>) | None \<Rightarrow> Inl ''keywords must be an object'')
      else case strip_prefix ''keywords/'' key of
        Some kw \<Rightarrow> map_sum id (\<lambda>ks. p\<lparr>pt_keywords := Some ks\<rparr>)
            (patch_list key (to_lowercase kw) v (case pt_keywords p of Some ks \<Rightarrow> ks | None \<Rightarrow> ei_keywords e))
      | None \<Rightarrow>
          if key = ''mailboxIds''
          then (case as_object v of Some m \<Rightarrow> Inr (p\<lparr>pt_mailboxes := Some (map fst m)\<rparr>) | None \<Rightarrow> Inl ''mailboxIds must be an object'')
          else case strip_prefix ''mailboxIds/'' key of
            Some mb \<Rightarrow> map_sum id (\<lambda>ms. p\<lparr>pt_mailboxes := Some ms\<rparr>)
                (patch_list key mb v (case pt_mailboxes p of Some ms \<Rightarrow> ms | None \<Rightarrow> ei_mailbox_ids e))
          | None \<Rightarrow> Inl (''unsupported property '' @ key))"

fun patch_entries :: "email_info \<Rightarrow> (string \<times> json) list \<Rightarrow> email_patch \<Rightarrow> (string, email_patch) result" where
  "patch_entries e [] p = Inr p"
| "patch_entries e ((k, v) # kvs) p = (case patch_entry e k v p of Inl m \<Rightarrow> Inl m | Inr p' \<Rightarrow> patch_entries e kvs p')"

fun mailbox_ids_of :: "jmap_ctx \<Rightarrow> string list \<Rightarrow> (string, string list) result" where
  "mailbox_ids_of ctx [] = Inr []"
| "mailbox_ids_of ctx (i # is) =
     (case jc_uuid ctx i of
        None \<Rightarrow> Inl (''bad mailbox id '' @ i)
      | Some u \<Rightarrow> map_sum id (Cons u) (mailbox_ids_of ctx is))"

definition patch_mailboxes :: "jmap_ctx \<Rightarrow> email_patch \<Rightarrow> (string, string list option) result" where
  "patch_mailboxes ctx p = (case pt_mailboxes p of None \<Rightarrow> Inr None | Some is \<Rightarrow> map_sum id Some (mailbox_ids_of ctx is))"

text \<open>Training of the classifier when the \<open>$junk\<close> keyword comes or goes; a failure to read or to train is ignored.\<close>

definition train_on :: "jmap_ctx \<Rightarrow> string \<Rightarrow> string \<Rightarrow> bool \<Rightarrow> (string, unit) step" where
  "train_on ctx acct blob_id junk =
     step_bind (step_blob_id ''bad blob'' blob_id) (\<lambda>bid.
     step_bind (step_try (step_db ctx (read_blob ctx bid))) (\<lambda>raw.
     case raw of
       Inl _ \<Rightarrow> step_return ()
     | Inr raw \<Rightarrow> step_bind (step_try (step_db ctx (\<lambda>_. train_spam_tokens acct (tokenize (jc_text ctx) raw) junk))) (\<lambda>_. step_return ())))"

definition apply_update :: "jmap_ctx \<Rightarrow> string \<Rightarrow> string \<Rightarrow> json \<Rightarrow> (string, unit) step" where
  "apply_update ctx acct i patch_value =
     (case jc_uuid ctx i of
        None \<Rightarrow> step_fail (''bad id '' @ i)
      | Some eid \<Rightarrow>
          (case as_object patch_value of
             None \<Rightarrow> step_fail ''patch must be an object''
           | Some kvs \<Rightarrow>
               step_bind (step_db ctx (\<lambda>_. emails_by_ids acct [eid])) (\<lambda>rows.
               case rows of
                 [] \<Rightarrow> step_fail (''no email '' @ i)
               | e # _ \<Rightarrow>
                   step_bind (step_of (patch_entries e kvs \<lparr>pt_keywords = None, pt_mailboxes = None\<rparr>)) (\<lambda>p.
                   step_bind (step_of (patch_mailboxes ctx p)) (\<lambda>mbs.
                   let old_junk = ''$junk'' \<in> set (ei_keywords e);
                       new_junk = (case pt_keywords p of Some ks \<Rightarrow> ''$junk'' \<in> set ks | None \<Rightarrow> old_junk)
                   in step_bind (step_db ctx (\<lambda>_. update_email acct eid (pt_keywords p) mbs)) (\<lambda>_.
                      if old_junk \<noteq> new_junk then train_on ctx acct (em_blob_id (ei_row e)) new_junk else step_return ()))))))"

definition record_entry :: "(string \<Rightarrow> json) \<Rightarrow> ('a \<Rightarrow> json) \<Rightarrow> string \<Rightarrow> (string, 'a) result \<Rightarrow> outcomes \<Rightarrow> outcomes" where
  "record_entry bad good k r out =
     (case r of Inr v \<Rightarrow> (bt_insert k (good v) (fst out), snd out) | Inl m \<Rightarrow> (fst out, bt_insert k (bad m) (snd out)))"

definition set_each :: "('a \<Rightarrow> json) \<Rightarrow> (string \<Rightarrow> json \<Rightarrow> (string, 'a) step) \<Rightarrow> (string, json) btree \<Rightarrow> (method_error, outcomes) step" where
  "set_each good f entries = step_fold (\<lambda>(k, v) out.
     step_bind (step_try (f k v)) (\<lambda>r. step_return (record_entry invalid_properties good k r out))) entries ([], [])"

definition email_set :: jmap_method where
  "email_set ctx j =
     step_bind (parse_args ctx ''SetArgs'' de_set_args j) (\<lambda>args.
     step_bind (check_account ctx (sa_account_id args)) (\<lambda>acct.
     step_bind (step_op (server_fail ctx) (\<lambda>_. state acct ''Email'')) (\<lambda>old.
     step_bind (set_each id (\<lambda>_. apply_create ctx acct) (sa_create args)) (\<lambda>created.
     step_bind (set_each (\<lambda>_. JNull) (apply_update ctx acct) (sa_update args)) (\<lambda>updated.
     step_bind (step_op (server_fail ctx) (\<lambda>_. state acct ''Email'')) (\<lambda>new.
     step_return (json_obj [(''accountId'', JStr (sa_account_id args)), (''oldState'', state_str old), (''newState'', state_str new),
       (''updated'', JObj (fst updated)), (''notUpdated'', JObj (snd updated)), (''created'', JObj (fst created)),
       (''notCreated'', JObj (snd created)), (''destroyed'', JArr [])])))))))"

subsection \<open>Identity and chat preferences\<close>

definition identity_get :: jmap_method where
  "identity_get ctx j =
     step_bind (parse_args ctx ''GetArgs'' de_get_args j) (\<lambda>args.
     step_bind (check_account ctx (ga_account_id args)) (\<lambda>_.
     step_return (get_answer (ga_account_id args) (JStr ''0'')
       [json_obj [(''id'', JStr ''default''), (''name'', opt_str (a_display_name (jc_account ctx))),
          (''email'', JStr (a_email (jc_account ctx))), (''replyTo'', JNull), (''bcc'', JNull), (''textSignature'', JStr []),
          (''htmlSignature'', JStr []), (''mayDelete'', JBool False)]] [])))"

definition chat_preference_get :: jmap_method where
  "chat_preference_get ctx j =
     step_bind (parse_args ctx ''GetArgs'' de_get_args j) (\<lambda>args.
     step_bind (check_account ctx (ga_account_id args)) (\<lambda>acct.
     step_bind (step_op (server_fail ctx) (\<lambda>_. list_chat_preferences acct)) (\<lambda>prefs.
     step_return (get_answer (ga_account_id args) (JStr ''0'')
       (map (\<lambda>p. json_obj [(''id'', JStr (chp_contact_email p)), (''contactEmail'', JStr (chp_contact_email p)),
          (''preference'', JStr (chat_mode_str (chp_preference p)))]) prefs) []))))"

record chat_set_args =
  cs_account :: string
  cs_create :: "(string, json) btree"
  cs_update :: "(string, json) btree"
  cs_destroy :: "string list"

definition CHAT_SET_ARGS :: "string list" where "CHAT_SET_ARGS = [''accountId'', ''create'', ''update'', ''destroy'']"

definition de_chat_set_args :: "json \<Rightarrow> chat_set_args option" where
  "de_chat_set_args j =
     (if \<not> struct_shape CHAT_SET_ARGS False j then None
      else let f = struct_field CHAT_SET_ARGS j in
        (case (de_req as_str (f ''accountId''), de_map (f ''create''), de_map (f ''update''), de_opt (as_list as_str) (f ''destroy'')) of
           (Some a, Some c, Some u, Some d) \<Rightarrow> Some \<lparr>cs_account = a, cs_create = c, cs_update = u,
              cs_destroy = (case d of Some ks \<Rightarrow> ks | None \<Rightarrow> [])\<rparr>
         | _ \<Rightarrow> None))"

definition required_str :: "json \<Rightarrow> string \<Rightarrow> (string, string) result" where
  "required_str obj k = (case get_as as_str obj k of Some s \<Rightarrow> Inr s | None \<Rightarrow> Inl (k @ '' is required''))"

definition chat_write :: "jmap_ctx \<Rightarrow> string \<Rightarrow> string \<Rightarrow> json \<Rightarrow> (string, unit) step" where
  "chat_write ctx acct contact obj =
     step_bind (step_of (required_str obj ''preference'')) (\<lambda>s.
     case chat_mode_parse s of
       None \<Rightarrow> step_fail (''invalid preference: '' @ s)
     | Some m \<Rightarrow> step_db ctx (\<lambda>r. set_chat_preference (jr_now r) acct contact m))"

definition chat_create :: "jmap_ctx \<Rightarrow> string \<Rightarrow> json \<Rightarrow> (string, json) step" where
  "chat_create ctx acct obj =
     step_bind (step_of (required_str obj ''contactEmail'')) (\<lambda>contact.
     step_bind (chat_write ctx acct contact obj) (\<lambda>_. step_return (json_obj [(''id'', JStr contact)])))"

text \<open>A creation that fails is reported among the created ones.\<close>

definition chat_creates :: "jmap_ctx \<Rightarrow> string \<Rightarrow> (string, json) btree \<Rightarrow> (method_error, (string, json) btree) step" where
  "chat_creates ctx acct entries = step_fold (\<lambda>(k, v) out.
     step_bind (step_try (chat_create ctx acct v)) (\<lambda>r. step_return (bt_insert k (case r of
         Inr j \<Rightarrow> j
       | Inl e \<Rightarrow> json_obj [(''type'', JStr ''serverFail''), (''description'', JStr e)]) out))) entries []"

definition chat_updates :: "jmap_ctx \<Rightarrow> string \<Rightarrow> (string, json) btree \<Rightarrow> (method_error, (string, json) btree) step" where
  "chat_updates ctx acct entries = step_fold (\<lambda>(k, v) out.
     step_bind (step_try (chat_write ctx acct k v)) (\<lambda>r. step_return (case r of Inr _ \<Rightarrow> bt_insert k (JObj []) out | Inl _ \<Rightarrow> out))) entries []"

definition chat_destroys :: "jmap_ctx \<Rightarrow> string \<Rightarrow> string list \<Rightarrow> (method_error, string list) step" where
  "chat_destroys ctx acct gone = step_fold (\<lambda>k out.
     step_bind (step_try (step_db ctx (\<lambda>_. delete_chat_preference acct k))) (\<lambda>r. step_return (case r of Inr _ \<Rightarrow> out @ [k] | Inl _ \<Rightarrow> out))) gone []"

definition chat_preference_set :: jmap_method where
  "chat_preference_set ctx j =
     step_bind (parse_args ctx ''ChatPrefSetArgs'' de_chat_set_args j) (\<lambda>args.
     step_bind (check_account ctx (cs_account args)) (\<lambda>acct.
     step_bind (chat_creates ctx acct (cs_create args)) (\<lambda>created.
     step_bind (chat_updates ctx acct (cs_update args)) (\<lambda>updated.
     step_bind (chat_destroys ctx acct (cs_destroy args)) (\<lambda>gone.
     step_return (json_obj [(''accountId'', JStr (cs_account args)), (''created'', JObj created), (''updated'', JObj updated),
       (''destroyed'', JArr (map JStr gone))]))))))"

subsection \<open>Submissions\<close>

definition recipients_from_raw :: "jmap_ctx \<Rightarrow> string \<Rightarrow> string list" where
  "recipients_from_raw ctx raw =
     (case jc_mail ctx raw of
        None \<Rightarrow> []
      | Some m \<Rightarrow> List.map_filter ma_address (concat (map (\<lambda>as. case as of Some xs \<Rightarrow> xs | None \<Rightarrow> []) [mv_to m, mv_cc m, mv_bcc m])))"

text \<open>The envelope: given in full, or the account's address and the recipients of the message.\<close>

definition envelope_of :: "jmap_ctx \<Rightarrow> json \<Rightarrow> string \<Rightarrow> string \<times> string list" where
  "envelope_of ctx obj raw =
     (case json_get obj ''envelope'' of
        Some env \<Rightarrow>
          ((case Option.bind (json_get env ''mailFrom'') (\<lambda>m. get_as as_str m ''email'') of Some s \<Rightarrow> s | None \<Rightarrow> a_email (jc_account ctx)),
           (case get_as as_array env ''rcptTo'' of Some xs \<Rightarrow> List.map_filter (\<lambda>r. get_as as_str r ''email'') xs | None \<Rightarrow> []))
      | None \<Rightarrow> (a_email (jc_account ctx), recipients_from_raw ctx raw))"

definition submission_email :: "jmap_ctx \<Rightarrow> json \<Rightarrow> (string, string) result" where
  "submission_email ctx obj =
     (case get_as as_str obj ''emailId'' of
        None \<Rightarrow> Inl ''emailId is required''
      | Some s \<Rightarrow> (case jc_uuid ctx s of Some i \<Rightarrow> Inr i | None \<Rightarrow> Inl ''bad emailId''))"

definition submit_one :: "jmap_ctx \<Rightarrow> submitter \<Rightarrow> string \<Rightarrow> json \<Rightarrow> (string, json) step" where
  "submit_one ctx submitter acct obj =
     step_bind (step_of (submission_email ctx obj)) (\<lambda>eid.
     step_bind (step_db ctx (\<lambda>_. emails_by_ids acct [eid])) (\<lambda>rows.
     case rows of
       [] \<Rightarrow> step_fail ''no such email''
     | e # _ \<Rightarrow>
         step_bind (step_blob_id ''bad blob'' (em_blob_id (ei_row e))) (\<lambda>bid.
         step_bind (step_db ctx (read_blob ctx bid)) (\<lambda>raw.
         let (mail_from, recipients) = envelope_of ctx obj raw
         in if recipients = [] then step_fail ''no recipients''
            else step_bind (step_op id (\<lambda>r. submitter r acct mail_from recipients raw (em_chat_mode (ei_row e)))) (\<lambda>queued.
            step_return (json_obj [(''id'', JStr (case queued of q # _ \<Rightarrow> q | [] \<Rightarrow> [])), (''undoStatus'', JStr ''final'')]))))))"

definition submission_set :: jmap_method where
  "submission_set ctx j =
     step_bind (parse_args ctx ''SetArgs'' de_set_args j) (\<lambda>args.
     step_bind (check_account ctx (sa_account_id args)) (\<lambda>acct.
     case jc_submitter ctx of
       None \<Rightarrow> step_fail (ServerFail ''submission is not enabled'')
     | Some submitter \<Rightarrow>
         step_bind (set_each id (\<lambda>_. submit_one ctx submitter acct) (sa_create args)) (\<lambda>created.
         step_return (json_obj [(''accountId'', JStr (sa_account_id args)), (''oldState'', JStr ''0''), (''newState'', JStr ''0''),
           (''created'', JObj (fst created)), (''notCreated'', JObj (snd created)), (''updated'', JObj []), (''destroyed'', JArr [])]))))"

subsection \<open>Attributes\<close>

definition ATTRIBUTES_CAPABILITY :: string where "ATTRIBUTES_CAPABILITY = ''urn:owney:params:jmap:attributes''"

definition attributes_capability :: json where
  "attributes_capability = json_obj [(''kinds'', JArr (map JStr [''unsubscribe'', ''summary'', ''calendarInvite''])), (''mayDismiss'', JBool True)]"

definition attr_error :: "jmap_ctx \<Rightarrow> storage_error \<Rightarrow> method_error" where
  "attr_error ctx e = (case e of StNotAuthorized \<Rightarrow> Forbidden | StBadInput m \<Rightarrow> InvalidArguments m | _ \<Rightarrow> server_fail ctx e)"

definition DISMISS_ARGS :: "string list" where "DISMISS_ARGS = [''accountId'', ''emailId'', ''kind'']"

definition de_dismiss_args :: "json \<Rightarrow> (string \<times> string \<times> string) option" where
  "de_dismiss_args j =
     (if \<not> struct_shape DISMISS_ARGS False j then None
      else let f = struct_field DISMISS_ARGS j in
        (case (de_req as_str (f ''accountId''), de_req as_str (f ''emailId''), de_req as_str (f ''kind'')) of
           (Some a, Some e, Some k) \<Rightarrow> Some (a, e, k) | _ \<Rightarrow> None))"

definition email_attribute_dismiss :: jmap_method where
  "email_attribute_dismiss ctx j =
     step_bind (plain_args de_dismiss_args j) (\<lambda>(aid, e, kind).
     step_bind (check_account ctx aid) (\<lambda>acct.
     case jc_uuid ctx e of
       None \<Rightarrow> step_fail (InvalidArguments (''bad email id '' @ e))
     | Some eid \<Rightarrow>
         step_bind (step_op (attr_error ctx) (\<lambda>r. dismiss_email_attribute (jr_now r) acct eid kind)) (\<lambda>_.
         step_bind (step_op (attr_error ctx) (\<lambda>_. state acct ''Email'')) (\<lambda>st.
         step_return (json_obj [(''emailId'', JStr e), (''kind'', JStr kind), (''dismissed'', JBool True), (''newState'', state_str st)])))))"

end
