(* ===== verification/Jmap_Calendar.thy ===== *)
theory Jmap_Calendar
  imports Jmap_Methods
begin

text \<open>
  \<open>crates/owney-jmap-mail/src/calendar_methods.rs\<close> and \<open>scheduling_methods.rs\<close>: the JMAP methods for calendars,
  calendar shares within the server and across servers, invitations, and the owner's side of scheduling pages.
\<close>

section \<open>Definitions\<close>

subsection \<open>Calendars\<close>

definition CALENDAR_CAPABILITY :: string where "CALENDAR_CAPABILITY = ''urn:owney:params:jmap:calendar''"

definition calendar_capability :: json where
  "calendar_capability = json_obj [(''maxCalendarsPerAccount'', JNum 100), (''supportsRecurring'', JBool True),
     (''supportedSharingTypes'', JArr [JStr ''sharing'', JStr ''delegation'']), (''supportsFederatedDiscovery'', JBool True)]"

definition CAL_GET_ARGS :: "string list" where "CAL_GET_ARGS = [''accountId'', ''ids'']"

definition de_cal_get_args :: "json \<Rightarrow> string option" where
  "de_cal_get_args j =
     (if \<not> struct_shape CAL_GET_ARGS False j then None
      else case (de_req as_str (struct_field CAL_GET_ARGS j ''accountId''), de_opt (as_list as_str) (struct_field CAL_GET_ARGS j ''ids'')) of
        (Some a, Some _) \<Rightarrow> Some a | _ \<Rightarrow> None)"

text \<open>Three required strings, as \<open>CalendarShareArgs\<close> and the like are made of.\<close>

definition de_strings :: "string list \<Rightarrow> json \<Rightarrow> string list option" where
  "de_strings ks j = (if \<not> struct_shape ks False j then None else those (map (\<lambda>k. de_req as_str (struct_field ks j k)) ks))"

definition SHARE_ARGS :: "string list" where "SHARE_ARGS = [''accountId'', ''calendarId'', ''inviteeEmail'', ''sharingType'']"

definition INVITATION_SET_ARGS :: "string list" where "INVITATION_SET_ARGS = [''accountId'', ''action'', ''invitationId'']"

definition cal_error :: "jmap_ctx \<Rightarrow> storage_error \<Rightarrow> method_error" where
  "cal_error ctx e = (case e of StNotAuthorized \<Rightarrow> Forbidden | _ \<Rightarrow> server_fail ctx e)"

definition rights_json :: "permissions \<Rightarrow> json" where
  "rights_json p = json_obj [(''mayReadItems'', JBool (view_events p)), (''mayWriteItems'', JBool (edit_events p)),
     (''mayDeleteItems'', JBool (delete_events p)), (''mayAdmin'', JBool (admin p)), (''mayShare'', JBool (change_sharing p))]"

definition calendar_json :: "calendar_row \<Rightarrow> permissions \<Rightarrow> json" where
  "calendar_json c p = json_obj [(''id'', JStr (cal_id c)), (''name'', JStr (cal_name c)), (''description'', opt_str (cal_description c)),
     (''isSubscribed'', JBool True), (''myRights'', rights_json p)]"

definition list_answer :: "string \<Rightarrow> json list \<Rightarrow> json" where
  "list_answer acct xs = json_obj [(''accountId'', JStr acct), (''list'', JArr xs), (''notFound'', JArr [])]"

definition shared_calendar :: "jmap_ctx \<Rightarrow> string \<times> permissions \<Rightarrow> json list \<Rightarrow> (method_error, json list) step" where
  "shared_calendar ctx share out =
     (if \<not> view_calendar (snd share) then step_return out
      else step_bind (step_op (cal_error ctx) (\<lambda>_. get_calendar_by_id (fst share))) (\<lambda>c.
           step_return (case c of Some c \<Rightarrow> out @ [calendar_json c (snd share)] | None \<Rightarrow> out)))"

definition calendar_get :: jmap_method where
  "calendar_get ctx j =
     step_bind (plain_args de_cal_get_args j) (\<lambda>aid.
     step_bind (check_account ctx aid) (\<lambda>acct.
     step_bind (step_op (cal_error ctx) (\<lambda>_. list_calendars acct)) (\<lambda>owned.
     step_bind (step_op (cal_error ctx) (\<lambda>_. list_accepted_shared_calendar_ids acct)) (\<lambda>shared.
     step_bind (step_fold (shared_calendar ctx) shared (map (\<lambda>c. calendar_json c owner_permissions) owned)) (\<lambda>out.
     step_return (list_answer aid out))))))"

subsection \<open>Sharing a calendar\<close>

text \<open>The federation side of the context: \<open>public_url\<close> and \<open>federation\<close> of \<open>JmapCtx\<close>, the network and the texts of errors.\<close>

record 'c fed_ctx =
  fc_env :: "'c fed_env"
  fc_codec :: fed_codec
  fc_net :: "nat net"
  fc_show_pgp :: "pgp_error \<Rightarrow> string"
  fc_show_discovery :: "discovery_error \<Rightarrow> string"
  fc_show_client :: "client_error \<Rightarrow> string"
  fc_show_status :: "nat \<Rightarrow> string"

definition share_locally :: "jmap_ctx \<Rightarrow> string \<Rightarrow> string \<Rightarrow> string \<Rightarrow> string \<Rightarrow> (method_error, json) step" where
  "share_locally ctx acct cal target ty =
     step_bind (step_op (cal_error ctx) (\<lambda>r. share_calendar (jr_id r) (jr_now r) cal acct target (requested_type ty))) (\<lambda>s.
     step_return (json_obj [(''invitationId'', JStr (cs_id s)), (''status'', JStr ''pending''), (''createdAt'', JNum (cs_created_at s))]))"

text \<open>The serialized invitation has its fields in the order of the struct.\<close>

definition invitation_json :: "federation_invitation \<Rightarrow> json" where
  "invitation_json i = JObj [(''federation_id'', JStr (fi_federation_id i)), (''capability_secret'', JStr (fi_capability_secret i)),
     (''calendar_name'', JStr (fi_calendar_name i)), (''inviter_email'', JStr (fi_inviter_email i)),
     (''target_email'', JStr (fi_target_email i)), (''sharing_type'', JStr (fi_sharing_type i)), (''created_at'', JNum (fi_created_at i))]"

definition send_invitation :: "'c fed_ctx \<Rightarrow> 'c client \<Rightarrow> peer_row \<Rightarrow> federation_invitation \<Rightarrow> (method_error, http_response) step" where
  "send_invitation fc cl peer iv =
     step_net (\<lambda>e. ServerFail (fc_show_client fc e)) (\<lambda>r d n.
       case post_json (fc_env fc) (fc_net fc) cl (jr_now r) \<lparr>sr_nonce = jr_nonce r, sr_entropy = jr_entropy r\<rparr>
              (pr_server_url peer @ ''/.well-known/owney/calendar/invite'') (pr_domain peer) (fe_json_text (fc_env fc) (invitation_json iv)) n of
         (resp, n') \<Rightarrow> (resp, d, n'))"

text \<open>The record of the share is written, as accepted, before the invitation is sent.\<close>

definition share_remotely :: "'c fed_ctx \<Rightarrow> jmap_ctx \<Rightarrow> calendar_row \<Rightarrow> string \<Rightarrow> string \<Rightarrow> string \<Rightarrow> (method_error, json) step" where
  "share_remotely fc ctx cal invitee dn ty =
     step_bind (step_op (\<lambda>e. ServerFail (fc_show_pgp fc e)) (\<lambda>r. build_client (fc_env fc) (jr_now r) (jr_entropy r))) (\<lambda>cl.
     step_bind (step_net (\<lambda>e. ServerFail (fc_show_discovery fc e)) (\<lambda>r. discover_and_pin (fc_env fc) (fc_codec fc) (fc_net fc) (jr_now r) dn)) (\<lambda>peer.
     step_bind (step_op (cal_error ctx) (\<lambda>r. create_outbound_federation (jr_id r) (jr_secret r) (jr_now r) (cal_id cal) invitee
                   (pr_server_url peer) (requested_type ty) (pr_domain peer) (pr_fingerprint peer))) (\<lambda>(fid, secret).
     step_bind (step_op id (\<lambda>r d. (Inr \<lparr>fi_federation_id = fid, fi_capability_secret = secret, fi_calendar_name = cal_name cal,
                   fi_inviter_email = a_email (jc_account ctx), fi_target_email = invitee, fi_sharing_type = ty, fi_created_at = jr_now r\<rparr>, d))) (\<lambda>iv.
     step_bind (send_invitation fc cl peer iv) (\<lambda>resp.
     if is_success (rs_status resp)
     then step_return (json_obj [(''invitationId'', JStr fid), (''status'', JStr ''pending''), (''federated'', JBool True)])
     else step_fail (ServerFail (''peer rejected invitation: '' @ fc_show_status fc (rs_status resp))))))))"

definition share_with :: "'c fed_ctx \<Rightarrow> jmap_ctx \<Rightarrow> string \<Rightarrow> string \<Rightarrow> string \<Rightarrow> string \<Rightarrow> (method_error, json) step" where
  "share_with fc ctx acct cal invitee ty =
     (case split_once (CHR ''@'') invitee of
        None \<Rightarrow> step_fail (InvalidArguments (''invitee email must contain '' @ [CHR 0x27, CHR ''@'', CHR 0x27]))
      | Some (_, dn) \<Rightarrow>
          step_bind (step_op (server_fail ctx) (\<lambda>_. account_by_email invitee)) (\<lambda>target.
          case target of
            Some t \<Rightarrow> share_locally ctx acct cal (a_id t) ty
          | None \<Rightarrow>
              step_bind (step_op (cal_error ctx) (\<lambda>_. get_calendar acct cal)) (\<lambda>c.
              case c of
                None \<Rightarrow> step_fail (InvalidArguments ''calendar not found'')
              | Some c \<Rightarrow> share_remotely fc ctx c invitee dn ty)))"

definition calendar_share :: "'c fed_ctx \<Rightarrow> jmap_method" where
  "calendar_share fc ctx j =
     step_bind (plain_args (de_strings SHARE_ARGS) j) (\<lambda>args.
     step_bind (check_account ctx (args ! 0)) (\<lambda>acct.
     case jc_uuid ctx (args ! 1) of
       None \<Rightarrow> step_fail (InvalidArguments ''invalid arguments'')
     | Some cal \<Rightarrow>
         step_bind (step_op (cal_error ctx) (\<lambda>_. get_calendar acct cal)) (\<lambda>c.
         if c = None then step_fail Forbidden else share_with fc ctx acct cal (args ! 2) (args ! 3))))"

subsection \<open>Invitations\<close>

definition calendar_invitation_get :: jmap_method where
  "calendar_invitation_get ctx j =
     step_bind (plain_args de_cal_get_args j) (\<lambda>aid.
     step_bind (check_account ctx aid) (\<lambda>acct.
     step_bind (step_op (cal_error ctx) (\<lambda>_. list_pending_inbound_federations acct)) (\<lambda>feds.
     step_return (list_answer aid (map (\<lambda>f. json_obj [(''id'', JStr (fd_id f)), (''calendarId'', JStr (fd_calendar_id f)),
        (''inviterEmail'', JStr (fd_target_email f)), (''sharingType'', JStr (sharing_type_str (fd_sharing_type f))),
        (''status'', JStr (fd_status f)), (''createdAt'', JNum (fd_created_at f))]) feds)))))"

definition settled :: "string \<Rightarrow> string \<Rightarrow> json" where
  "settled iid status = json_obj [(''invitationId'', JStr iid), (''status'', JStr status)]"

definition calendar_invitation_set :: jmap_method where
  "calendar_invitation_set ctx j =
     step_bind (plain_args (de_strings INVITATION_SET_ARGS) j) (\<lambda>args.
     step_bind (check_account ctx (args ! 0)) (\<lambda>acct.
     if args ! 1 = ''accept''
     then step_bind (step_op (cal_error ctx) (\<lambda>_. accept_inbound_federation (args ! 2) acct)) (\<lambda>_. step_return (settled (args ! 2) ''accepted''))
     else if args ! 1 = ''reject''
     then step_bind (step_op (cal_error ctx) (\<lambda>_. reject_inbound_federation (args ! 2) acct)) (\<lambda>_. step_return (settled (args ! 2) ''rejected''))
     else step_fail (InvalidArguments (''unknown action: '' @ args ! 1))))"

subsection \<open>Scheduling pages\<close>

definition SCHEDULING_CAPABILITY :: string where "SCHEDULING_CAPABILITY = ''urn:owney:params:jmap:scheduling''"

definition scheduling_capability :: json where
  "scheduling_capability = json_obj [(''maxPagesPerAccount'', JNum 20), (''maxDurationsPerPage'', JNum 8)]"

definition page_error :: "jmap_ctx \<Rightarrow> storage_error \<Rightarrow> method_error" where
  "page_error ctx e = (case e of StNotAuthorized \<Rightarrow> Forbidden | StBadInput m \<Rightarrow> InvalidArguments m | _ \<Rightarrow> server_fail ctx e)"

text \<open>The serialized availability, and its derived decoder.\<close>

definition window_json :: "time_window \<Rightarrow> json" where
  "window_json w = json_obj [(''start'', JStr (tw_start w)), (''end'', JStr (tw_end w))]"

definition windows_json :: "(string, time_window list) btree \<Rightarrow> json" where
  "windows_json m = JObj (map (\<lambda>(k, ws). (k, JArr (map window_json ws))) m)"

definition availability_json :: "availability \<Rightarrow> json" where
  "availability_json a = json_obj [(''version'', JNum (int (av_version a))), (''weekly'', windows_json (av_weekly a)),
     (''overrides'', windows_json (av_overrides a))]"

definition de_window :: "json \<Rightarrow> time_window option" where
  "de_window j =
     (let ks = [''start'', ''end''] in
      if \<not> struct_shape ks True j then None
      else case (de_req as_str (struct_field ks j ''start''), de_req as_str (struct_field ks j ''end'')) of
        (Some s, Some e) \<Rightarrow> Some \<lparr>tw_start = s, tw_end = e\<rparr> | _ \<Rightarrow> None)"

definition de_windows :: "json \<Rightarrow> (string, time_window list) btree option" where
  "de_windows j = Option.bind (as_object j) (\<lambda>m. those (map (\<lambda>(k, v). map_option (Pair k) (as_list de_window v)) m))"

definition de_availability :: "json \<Rightarrow> availability option" where
  "de_availability j =
     (let ks = [''version'', ''weekly'', ''overrides'']; f = struct_field ks j in
      if \<not> struct_shape ks True j then None
      else case (de_req (as_unsigned 32) (f ''version''), de_default [] de_windows (f ''weekly''), de_default [] de_windows (f ''overrides'')) of
        (Some v, Some w, Some ov) \<Rightarrow> Some \<lparr>av_version = v, av_weekly = w, av_overrides = ov\<rparr> | _ \<Rightarrow> None)"

definition sched_page_json :: "string \<Rightarrow> page_row \<Rightarrow> json" where
  "sched_page_json public_url p = json_obj [(''id'', JStr (pg_id p)), (''slug'', JStr (pg_slug p)),
     (''url'', JStr (trim_end_matches (CHR ''/'') public_url @ ''/schedule/'' @ pg_slug p)), (''title'', JStr (pg_title p)),
     (''description'', opt_str (pg_description p)), (''calendarId'', JStr (pg_calendar_id p)), (''timezone'', JStr (pg_timezone p)),
     (''availability'', availability_json (pg_availability p)), (''durationsMins'', JArr (map (\<lambda>n. JNum (int n)) (pg_durations_mins p))),
     (''bufferBeforeMins'', JNum (int (pg_buffer_before_mins p))), (''bufferAfterMins'', JNum (int (pg_buffer_after_mins p))),
     (''minNoticeMins'', JNum (int (pg_min_notice_mins p))),
     (''maxPerDay'', case pg_max_per_day p of Some n \<Rightarrow> JNum (int n) | None \<Rightarrow> JNull),
     (''validFrom'', opt_str (pg_valid_from p)), (''validUntil'', opt_str (pg_valid_until p)),
     (''status'', JStr (if pg_active p then ''active'' else ''paused''))]"

text \<open>\<open>args["accountId"]\<close>, and the account check on it.\<close>

definition account_of_args :: "jmap_ctx \<Rightarrow> json \<Rightarrow> (method_error, string) step" where
  "account_of_args ctx j =
     (case get_as as_str j ''accountId'' of
        None \<Rightarrow> step_fail (InvalidArguments ''accountId required'')
      | Some a \<Rightarrow> check_account ctx a)"

definition scheduling_page_get :: jmap_method where
  "scheduling_page_get ctx j =
     step_bind (account_of_args ctx j) (\<lambda>acct.
     let ids = map_option (List.map_filter as_str) (get_as as_array j ''ids'') in
     step_bind (step_op (page_error ctx) (\<lambda>_. list_scheduling_pages acct)) (\<lambda>pages.
     step_return (list_answer acct (map (sched_page_json (jc_public_url ctx))
       (filter (\<lambda>p. case ids of None \<Rightarrow> True | Some is \<Rightarrow> pg_id p \<in> set is) pages)))))"

text \<open>The default slug: the local part of the account's address in lower case, with every other character a dash.\<close>

definition dashed :: "string \<Rightarrow> string" where
  "dashed s = concat (map (\<lambda>c. let n = (of_char c :: nat) in
     if 97 \<le> n \<and> n \<le> 122 \<or> is_ascii_digit c then [c] else if byte_in 0x80 0xBF c then [] else ''-'') s)"

definition default_slug :: "jmap_ctx \<Rightarrow> string" where
  "default_slug ctx = dashed (te_lower (jc_text ctx) (hd (split_on (CHR ''@'') (a_email (jc_account ctx)))))"

definition obj_value :: "jmap_ctx \<Rightarrow> string \<Rightarrow> (json \<Rightarrow> 'a option) \<Rightarrow> string \<Rightarrow> json \<Rightarrow> (method_error, 'a) result" where
  "obj_value ctx ty de key v =
     (case de v of Some a \<Rightarrow> Inr a | None \<Rightarrow> Inl (InvalidArguments (''bad '' @ key @ '': '' @ jc_serde ctx ty v)))"

text \<open>A value that is absent or null takes its default.\<close>

definition or_default :: "'a \<Rightarrow> (json \<Rightarrow> (method_error, 'a) result) \<Rightarrow> json \<Rightarrow> string \<Rightarrow> (method_error, 'a) result" where
  "or_default dflt f obj key = (case json_get obj key of None \<Rightarrow> Inr dflt | Some JNull \<Rightarrow> Inr dflt | Some v \<Rightarrow> f v)"

definition get_u32 :: "string \<Rightarrow> json \<Rightarrow> (method_error, nat) result" where
  "get_u32 key v = (case as_unsigned 32 v of Some n \<Rightarrow> Inr n | None \<Rightarrow> Inl (InvalidArguments (''bad '' @ key)))"

definition then_ok :: "('e, 'a) result \<Rightarrow> ('a \<Rightarrow> ('e, 'b) result) \<Rightarrow> ('e, 'b) result" where
  "then_ok r f = (case r of Inl e \<Rightarrow> Inl e | Inr a \<Rightarrow> f a)"

definition str_or :: "string \<Rightarrow> json \<Rightarrow> string \<Rightarrow> string" where
  "str_or dflt obj key = (case get_as as_str obj key of Some s \<Rightarrow> s | None \<Rightarrow> dflt)"

definition parse_create :: "jmap_ctx \<Rightarrow> json \<Rightarrow> (method_error, new_page) result" where
  "parse_create ctx obj =
     then_ok (case get_as as_str obj ''calendarId'' of
         None \<Rightarrow> Inl (InvalidArguments ''calendarId is required'')
       | Some s \<Rightarrow> (case jc_uuid ctx s of Some i \<Rightarrow> Inr i | None \<Rightarrow> Inl (InvalidArguments ''bad calendarId''))) (\<lambda>cal.
     then_ok (or_default default_business_hours (obj_value ctx ''Availability'' de_availability ''availability'') obj ''availability'') (\<lambda>avail.
     then_ok (or_default [30] (obj_value ctx ''Vec<u32>'' (as_list (as_unsigned 32)) ''durationsMins'') obj ''durationsMins'') (\<lambda>durations.
     then_ok (or_default 0 (get_u32 ''bufferBeforeMins'') obj ''bufferBeforeMins'') (\<lambda>before.
     then_ok (or_default 0 (get_u32 ''bufferAfterMins'') obj ''bufferAfterMins'') (\<lambda>after.
     then_ok (or_default 0 (get_u32 ''minNoticeMins'') obj ''minNoticeMins'') (\<lambda>notice.
     then_ok (or_default None (map_sum id Some \<circ> get_u32 ''maxPerDay'') obj ''maxPerDay'') (\<lambda>per_day.
     Inr \<lparr>np_slug = str_or (default_slug ctx) obj ''slug'',
          np_title = str_or (''Meet with '' @ (case a_display_name (jc_account ctx) of Some n \<Rightarrow> n | None \<Rightarrow> a_email (jc_account ctx))) obj ''title'',
          np_description = get_as as_str obj ''description'', np_calendar_id = cal, np_timezone = str_or ''UTC'' obj ''timezone'',
          np_availability = avail, np_durations_mins = durations, np_buffer_before_mins = before, np_buffer_after_mins = after,
          np_min_notice_mins = notice, np_max_per_day = per_day, np_valid_from = get_as as_str obj ''validFrom'',
          np_valid_until = get_as as_str obj ''validUntil''\<rparr>)))))))"

definition empty_patch :: page_patch where
  "empty_patch = \<lparr>pp_title = None, pp_description = None, pp_timezone = None, pp_availability = None, pp_durations_mins = None,
     pp_buffer_before_mins = None, pp_buffer_after_mins = None, pp_min_notice_mins = None, pp_max_per_day = None,
     pp_valid_from = None, pp_valid_until = None, pp_active = None\<rparr>"

definition page_status :: "json \<Rightarrow> (method_error, bool) result" where
  "page_status v =
     (if as_str v = Some ''active'' then Inr True else if as_str v = Some ''paused'' then Inr False
      else Inl (InvalidArguments ''status must be active|paused''))"

definition patch_field :: "jmap_ctx \<Rightarrow> string \<Rightarrow> json \<Rightarrow> page_patch \<Rightarrow> (method_error, page_patch) result" where
  "patch_field ctx key v p =
     (if key = ''title'' then Inr (p\<lparr>pp_title := as_str v\<rparr>)
      else if key = ''description'' then Inr (p\<lparr>pp_description := Some (as_str v)\<rparr>)
      else if key = ''timezone'' then Inr (p\<lparr>pp_timezone := as_str v\<rparr>)
      else if key = ''availability''
      then map_sum id (\<lambda>a. p\<lparr>pp_availability := Some a\<rparr>) (obj_value ctx ''Availability'' de_availability key v)
      else if key = ''durationsMins''
      then map_sum id (\<lambda>ds. p\<lparr>pp_durations_mins := Some ds\<rparr>) (obj_value ctx ''Vec<u32>'' (as_list (as_unsigned 32)) key v)
      else if key = ''bufferBeforeMins'' then map_sum id (\<lambda>n. p\<lparr>pp_buffer_before_mins := Some n\<rparr>) (get_u32 key v)
      else if key = ''bufferAfterMins'' then map_sum id (\<lambda>n. p\<lparr>pp_buffer_after_mins := Some n\<rparr>) (get_u32 key v)
      else if key = ''minNoticeMins'' then map_sum id (\<lambda>n. p\<lparr>pp_min_notice_mins := Some n\<rparr>) (get_u32 key v)
      else if key = ''maxPerDay''
      then (if v = JNull then Inr (p\<lparr>pp_max_per_day := Some None\<rparr>)
            else map_sum id (\<lambda>n. p\<lparr>pp_max_per_day := Some (Some n)\<rparr>) (get_u32 key v))
      else if key = ''validFrom'' then Inr (p\<lparr>pp_valid_from := Some (as_str v)\<rparr>)
      else if key = ''validUntil'' then Inr (p\<lparr>pp_valid_until := Some (as_str v)\<rparr>)
      else if key = ''status'' then map_sum id (\<lambda>b. p\<lparr>pp_active := Some b\<rparr>) (page_status v)
      else Inl (InvalidArguments (''unknown property '' @ debug_str key)))"

fun parse_patch :: "jmap_ctx \<Rightarrow> (string \<times> json) list \<Rightarrow> page_patch \<Rightarrow> (method_error, page_patch) result" where
  "parse_patch ctx [] p = Inr p"
| "parse_patch ctx ((k, v) # kvs) p = then_ok (patch_field ctx k v p) (parse_patch ctx kvs)"

text \<open>One entry of \<open>SchedulingPage/set\<close>: \<open>forbidden\<close> ends the whole method, any other error is recorded.\<close>

definition page_entry :: "jmap_ctx \<Rightarrow> string \<Rightarrow> (method_error, page_row) step \<Rightarrow> outcomes \<Rightarrow> (method_error, outcomes) step" where
  "page_entry ctx key m out = step_bind (step_try m) (\<lambda>r.
     case r of
       Inr p \<Rightarrow> step_return (bt_insert key (sched_page_json (jc_public_url ctx) p) (fst out), snd out)
     | Inl Forbidden \<Rightarrow> step_fail Forbidden
     | Inl e \<Rightarrow> step_return (fst out, bt_insert key (invalid_properties (method_error_display e)) (snd out)))"

definition page_create :: "jmap_ctx \<Rightarrow> string \<Rightarrow> string \<times> json \<Rightarrow> outcomes \<Rightarrow> (method_error, outcomes) step" where
  "page_create ctx acct kv out =
     (case as_object (snd kv) of
        None \<Rightarrow> step_return (fst out, bt_insert (fst kv) (invalid_properties ''not an object'') (snd out))
      | Some _ \<Rightarrow> page_entry ctx (fst kv) (step_bind (step_of (parse_create ctx (snd kv))) (\<lambda>n.
          step_op (page_error ctx) (\<lambda>r. create_scheduling_page (jc_tz_known ctx) (jr_id r) (jr_now r) acct n))) out)"

definition page_update :: "jmap_ctx \<Rightarrow> string \<Rightarrow> string \<times> json \<Rightarrow> outcomes \<Rightarrow> (method_error, outcomes) step" where
  "page_update ctx acct kv out = page_entry ctx (fst kv)
     (case jc_uuid ctx (fst kv) of
        None \<Rightarrow> step_fail (InvalidArguments ''bad page id'')
      | Some pid \<Rightarrow>
          (case as_object (snd kv) of
             None \<Rightarrow> step_fail (InvalidArguments ''not an object'')
           | Some kvs \<Rightarrow> step_bind (step_of (parse_patch ctx kvs empty_patch)) (\<lambda>p.
               step_op (page_error ctx) (\<lambda>r. update_scheduling_page (jc_tz_known ctx) (jr_now r) acct pid p)))) out"

definition entries :: "json \<Rightarrow> string \<Rightarrow> (string \<times> json) list" where
  "entries j key = (case get_as as_object j key of Some m \<Rightarrow> m | None \<Rightarrow> [])"

definition scheduling_page_set :: jmap_method where
  "scheduling_page_set ctx j =
     step_bind (account_of_args ctx j) (\<lambda>acct.
     step_bind (step_fold (page_create ctx acct) (entries j ''create'') ([], [])) (\<lambda>created.
     step_bind (step_fold (page_update ctx acct) (entries j ''update'') ([], [])) (\<lambda>updated.
     if (case get_as as_array j ''destroy'' of Some (_ # _) \<Rightarrow> True | _ \<Rightarrow> False)
     then step_fail (InvalidArguments ''destroy is not supported; pause the page instead'')
     else step_return (json_obj [(''accountId'', JStr acct), (''created'', JObj (fst created)), (''notCreated'', JObj (snd created)),
       (''updated'', JObj (fst updated)), (''notUpdated'', JObj (snd updated))]))))"

definition booking_json :: "booking_row \<Rightarrow> json" where
  "booking_json b = json_obj [(''id'', JStr (bk_id b)), (''pageId'', JStr (bk_page_id b)), (''eventId'', JStr (bk_event_id b)),
     (''visitorName'', JStr (bk_visitor_name b)), (''visitorEmail'', JStr (bk_visitor_email b)), (''note'', opt_str (bk_note b)),
     (''start'', JNum (bk_start b)), (''end'', JNum (bk_end b)), (''startUtc'', JStr (iso8601_utc (bk_start b))),
     (''status'', JStr (if bk_confirmed b then ''confirmed'' else ''cancelled''))]"

definition booking_page :: "jmap_ctx \<Rightarrow> json \<Rightarrow> (method_error, string option) result" where
  "booking_page ctx j =
     (case get_as as_str j ''pageId'' of
        None \<Rightarrow> Inr None
      | Some s \<Rightarrow> (case jc_uuid ctx s of Some i \<Rightarrow> Inr (Some i) | None \<Rightarrow> Inl (InvalidArguments ''bad pageId'')))"

definition scheduling_booking_get :: jmap_method where
  "scheduling_booking_get ctx j =
     step_bind (account_of_args ctx j) (\<lambda>acct.
     step_bind (step_of (booking_page ctx j)) (\<lambda>page_id.
     step_bind (step_op (page_error ctx) (\<lambda>_. list_bookings acct page_id)) (\<lambda>bs.
     step_return (list_answer acct (map booking_json bs)))))"

end
