(* ===== verification/Wkd.thy ===== *)
theory Wkd
  imports Pgp "HOL-Library.Word"
begin

unbundle bit_operations_syntax

text \<open>
  \<open>crates/owney-pgp/src/wkd.rs\<close>: the hashed local part of the Web Key Directory. SHA-1 and Unicode lower case are
  parameters. The encoder keeps its bits in a 64-bit word whose top bits are shifted out; it is proved equal to
  the encoding of the whole bit string.
\<close>

section \<open>Definitions\<close>

definition ZBASE32 :: string where "ZBASE32 = ''ybndrfg8ejkmcpqxot1uwisza345h769''"

definition zdigit :: "64 word \<Rightarrow> char" where
  "zdigit w = ZBASE32 ! unat (w AND 0x1f)"

text \<open>The inner loop: five bits at a time from the top of the buffered ones.\<close>

fun emit :: "64 word \<Rightarrow> nat \<Rightarrow> string \<times> nat" where
  "emit buf bits = (if bits \<ge> 5 then (let (s, b) = emit buf (bits - 5) in (zdigit (drop_bit (bits - 5) buf) # s, b)) else ([], bits))"

declare emit.simps [simp del]

fun zbase32_loop :: "64 word \<Rightarrow> nat \<Rightarrow> nat list \<Rightarrow> string" where
  "zbase32_loop buf bits [] = (if bits > 0 then [zdigit (push_bit (5 - bits) buf)] else [])"
| "zbase32_loop buf bits (b # bs) =
     (let buf = push_bit 8 buf OR of_nat b; (s, bits) = emit buf (bits + 8) in s @ zbase32_loop buf bits bs)"

definition zbase32 :: "nat list \<Rightarrow> string" where
  "zbase32 data = zbase32_loop 0 0 data"

definition hu :: "(string \<Rightarrow> string) \<Rightarrow> (string \<Rightarrow> (pgp_error, nat list) result) \<Rightarrow> string \<Rightarrow> (pgp_error, string) result" where
  "hu lower sha1 local_part = map_sum id zbase32 (sha1 (lower local_part))"

definition direct_path :: "(string \<Rightarrow> string) \<Rightarrow> (string \<Rightarrow> (pgp_error, nat list) result) \<Rightarrow> (string \<Rightarrow> pgp_error) \<Rightarrow> string \<Rightarrow>
    (pgp_error, string \<times> string) result" where
  "direct_path lower sha1 openpgp email =
     (case rsplit_once (CHR ''@'') email of
        None \<Rightarrow> Inl (openpgp (email @ '' has no domain''))
      | Some (lp, _) \<Rightarrow> map_sum id (\<lambda>h. (''/.well-known/openpgpkey/hu/'' @ h, lp)) (hu lower sha1 lp))"

section \<open>Reference\<close>

text \<open>The bits of the data, most significant first, in groups of five, the last group padded with zeros.\<close>

definition byte_bits :: "nat \<Rightarrow> bool list" where
  "byte_bits b = map (\<lambda>i. odd (b div 2 ^ i)) [7, 6, 5, 4, 3, 2, 1, 0]"

definition bits_val :: "bool list \<Rightarrow> nat" where
  "bits_val bs = fold (\<lambda>b n. 2 * n + of_bool b) bs 0"

fun groups :: "bool list \<Rightarrow> string" where
  "groups bs = (if bs = [] then [] else ZBASE32 ! bits_val (take 5 (bs @ replicate 4 False)) # groups (drop 5 bs))"

declare groups.simps [simp del]

definition base32_spec :: "nat list \<Rightarrow> string" where
  "base32_spec data = groups (concat (map byte_bits data))"

text \<open>The low bits of a word, most significant first.\<close>

definition low :: "nat \<Rightarrow> 64 word \<Rightarrow> bool list" where
  "low n w = map (bit w) (rev [0..<n])"

lemma length_low [simp]: "length (low n w) = n"
  by (simp add: low_def)

lemma low_split: "low (n + k) w = low k (drop_bit n w) @ low n w"
  by (rule nth_equalityI) (auto simp: low_def rev_nth nth_append bit_drop_bit_eq)

lemma unat_take5: "unat (w AND 0x1f) = bits_val (low 5 w)" for w :: "64 word"
proof -
  have "w AND 0x1f = take_bit 5 w" by (simp add: take_bit_eq_mask mask_eq_exp_minus_1)
  then have "unat (w AND 0x1f) = take_bit 5 (unat w)" by (simp add: unsigned_take_bit_eq)
  also have "\<dots> = horner_sum of_bool 2 (map (bit (unat w)) [0..<5])" by (simp add: horner_sum_bit_eq_take_bit)
  also have "\<dots> = bits_val (low 5 w)"
    by (simp add: bits_val_def low_def upt_conv_Cons numeral_eq_Suc bit_unsigned_iff)
  finally show ?thesis .
qed

lemma zdigit_low: "zdigit w = ZBASE32 ! bits_val (low 5 w)"
  by (simp add: zdigit_def unat_take5)

lemma groups_five: "length xs = 5 \<Longrightarrow> groups (xs @ ys) = (ZBASE32 ! bits_val xs) # groups ys"
  by (subst groups.simps) auto

lemma groups_low: "n \<ge> 5 \<Longrightarrow> groups (low n w @ rest) = zdigit (drop_bit (n - 5) w) # groups (low (n - 5) w @ rest)"
  using low_split[of "n - 5" 5 w] groups_five[of "low 5 (drop_bit (n - 5) w)" "low (n - 5) w @ rest"] by (simp add: zdigit_low)

lemma emit_groups: "emit w n = (s, r) \<Longrightarrow> r = n mod 5 \<and> groups (low n w @ rest) = s @ groups (low r w @ rest)"
proof (induction w n arbitrary: s r rule: emit.induct)
  case (1 w n)
  show ?case
  proof (cases "n \<ge> 5")
    case True
    obtain s1 r1 where e: "emit w (n - 5) = (s1, r1)" by (meson surj_pair)
    with 1(2) True have "s = zdigit (drop_bit (n - 5) w) # s1" "r = r1" by (simp_all add: emit.simps[of w n])
    with 1(1)[OF True e] groups_low[OF True, of w rest] True show ?thesis by (simp add: le_mod_geq)
  next
    case False
    with 1(2) show ?thesis by (simp add: emit.simps[of w n])
  qed
qed

lemma bit_push64: "bit (push_bit k w) i \<longleftrightarrow> k \<le> i \<and> i < 64 \<and> bit w (i - k)" for w :: "64 word"
  by (simp add: bit_push_bit_iff)

lemma nth_low: "i < n \<Longrightarrow> low n w ! i = bit w (n - Suc i)"
  by (simp add: low_def rev_nth)

lemma byte_bits_rev: "byte_bits b = map (bit b) (rev [0..<8])"
proof -
  have "rev [0..<8] = [7, 6, 5, 4, 3, 2, 1, 0 :: nat]" by (simp add: upt_rec)
  then show ?thesis by (simp add: byte_bits_def bit_iff_odd)
qed

lemma low_push:
  assumes b: "b < 256" and r: "r + 8 \<le> 64"
  shows "low (r + 8) (push_bit 8 w OR of_nat b) = low r w @ byte_bits b"
proof -
  have hi: "\<not> bit b i" if "i \<ge> 8" for i
  proof -
    have "b < 2 ^ i" using b power_increasing[OF that, of "2 :: nat"] by simp
    then show ?thesis by (simp add: bit_iff_odd)
  qed
  have eq: "bit (push_bit 8 w OR of_nat b) i \<longleftrightarrow> (if i < 8 then bit b i else bit w (i - 8))" if "i < 64" for i
    using that hi[of i] unfolding bit_or_iff bit_push64 by (auto simp: bit_of_nat_iff)
  have "low (r + 8) (push_bit 8 w OR of_nat b) ! k = (low r w @ byte_bits b) ! k" if k: "k < r + 8" for k
  proof (cases "k < r")
    case True
    have "low (r + 8) (push_bit 8 w OR of_nat b) ! k = bit w (r + 8 - Suc k - 8)"
      using True r k by (subst nth_low[OF k], subst eq) auto
    moreover have "r + 8 - Suc k - 8 = r - Suc k" using True by simp
    ultimately show ?thesis using True by (simp add: nth_append nth_low)
  next
    case False
    then obtain j where j: "k = r + j" "j < 8" using k by (metis less_diff_conv2 le_add_diff_inverse not_less nat_add_left_cancel_less)
    then have "byte_bits b ! j = bit b (7 - j)" by (simp add: byte_bits_rev rev_nth)
    moreover have "r + 8 - Suc k = 7 - j" "7 - j < 8" using j by simp_all
    ultimately show ?thesis using r k j False nth_low[OF k] eq[of "7 - j"] by (simp add: nth_append)
  qed
  then show ?thesis by (intro nth_equalityI) (simp_all add: byte_bits_def)
qed

lemma low_pad: "n \<le> 5 \<Longrightarrow> low 5 (push_bit (5 - n) w) = low n w @ replicate (5 - n) False"
proof (rule nth_equalityI)
  fix i assume n: "n \<le> 5" and i: "i < length (low 5 (push_bit (5 - n) w))"
  have "low 5 (push_bit (5 - n) w) ! i = bit (push_bit (5 - n) w) (5 - Suc i)" using i by (intro nth_low) simp
  also have "\<dots> = (i < n \<and> bit w (n - Suc i))" using n i unfolding bit_push64 by auto
  also have "\<dots> = (low n w @ replicate (5 - n) False) ! i" using n i by (simp add: nth_append nth_low)
  finally show "low 5 (push_bit (5 - n) w) ! i = (low n w @ replicate (5 - n) False) ! i" .
qed simp

lemma loop_groups:
  "list_all (\<lambda>b. b < 256) data \<Longrightarrow> n < 5 \<Longrightarrow> zbase32_loop buf n data = groups (low n buf @ concat (map byte_bits data))"
proof (induction data arbitrary: buf n)
  case Nil
  show ?case
  proof (cases n)
    case 0
    then show ?thesis by (simp add: low_def groups.simps)
  next
    case (Suc m)
    have "low 5 (push_bit (5 - n) buf) = take 5 (low n buf @ replicate 4 False)"
      using Suc Nil(2) low_pad[of n buf] by (simp add: min_def)
    moreover have "low n buf \<noteq> []" using Suc by (simp add: low_def)
    moreover have "drop 5 (low n buf) = []" using Nil(2) by simp
    ultimately show ?thesis using Suc by (simp add: groups.simps zdigit_low)
  qed
next
  case (Cons b data)
  let ?buf = "push_bit 8 buf OR of_nat b"
  obtain s r where e: "emit ?buf (n + 8) = (s, r)" by (meson surj_pair)
  note g = emit_groups[OF e]
  have "zbase32_loop buf n (b # data) = s @ groups (low r ?buf @ concat (map byte_bits data))"
    using Cons e g by (simp add: Let_def)
  also have "\<dots> = groups (low (n + 8) ?buf @ concat (map byte_bits data))" using g by simp
  also have "\<dots> = groups (low n buf @ concat (map byte_bits (b # data)))" using low_push[of b n buf] Cons.prems by simp
  finally show ?case .
qed

section \<open>Properties\<close>

text \<open>C36. The streaming z-base-32 encoder, whose 64-bit buffer loses its top bits, agrees with the encoding of the
  whole bit string in groups of five, for data of any length.\<close>

theorem zbase32_reference: "list_all (\<lambda>b. b < 256) data \<Longrightarrow> zbase32 data = base32_spec data"
  using loop_groups[of data 0 0] by (simp add: zbase32_def base32_spec_def low_def)

theorem zbase32_reference_witness: "zbase32 [0xF0, 0xBF, 0xC7] = base32_spec [0xF0, 0xBF, 0xC7]"
  by (rule zbase32_reference) simp

end
