(* ===== verification/Jmap_Server.thy ===== *)
theory Jmap_Server
  imports Jmap_Mail Jmap_Calendar Oidc_Authorize Wkd Schedule_Api
begin

text \<open>
  The HTTP side of JMAP: the registration of the methods (\<open>register\<close> of \<open>crates/owney-jmap-mail/src/lib.rs\<close>), the
  endpoints of \<open>crates/owney-api/src/lib.rs\<close> (session, API, upload, download, WKD) and the push channels of
  \<open>push.rs\<close> (event source, WebSocket).
\<close>

section \<open>Definitions\<close>

subsection \<open>Registration\<close>

datatype registration = AddCapability string json | AddMethod string string jmap_method

definition registrations :: "'c fed_ctx \<Rightarrow> registration list" where
  "registrations fc = [
     AddCapability MAIL_CAPABILITY mail_capability,
     AddMethod ''Mailbox/get'' MAIL_CAPABILITY mailbox_get,
     AddMethod ''Mailbox/changes'' MAIL_CAPABILITY (changes ''Mailbox''),
     AddMethod ''Email/get'' MAIL_CAPABILITY email_get,
     AddMethod ''Email/query'' MAIL_CAPABILITY email_query,
     AddMethod ''Email/changes'' MAIL_CAPABILITY (changes ''Email''),
     AddMethod ''Email/set'' MAIL_CAPABILITY email_set,
     AddMethod ''Thread/get'' MAIL_CAPABILITY thread_get,
     AddMethod ''Thread/changes'' MAIL_CAPABILITY (changes ''Thread''),
     AddCapability SUBMISSION_CAPABILITY (json_obj [(''maxDelayedSend'', JNum 0), (''submissionExtensions'', JObj [])]),
     AddMethod ''Identity/get'' SUBMISSION_CAPABILITY identity_get,
     AddMethod ''EmailSubmission/set'' SUBMISSION_CAPABILITY submission_set,
     AddMethod ''ChatPreference/get'' MAIL_CAPABILITY chat_preference_get,
     AddMethod ''ChatPreference/set'' MAIL_CAPABILITY chat_preference_set,
     AddCapability ATTRIBUTES_CAPABILITY attributes_capability,
     AddMethod ''EmailAttribute/dismiss'' ATTRIBUTES_CAPABILITY email_attribute_dismiss,
     AddCapability SCHEDULING_CAPABILITY scheduling_capability,
     AddMethod ''SchedulingPage/get'' SCHEDULING_CAPABILITY scheduling_page_get,
     AddMethod ''SchedulingPage/set'' SCHEDULING_CAPABILITY scheduling_page_set,
     AddMethod ''SchedulingBooking/get'' SCHEDULING_CAPABILITY scheduling_booking_get,
     AddCapability CALENDAR_CAPABILITY calendar_capability,
     AddMethod ''Calendar/get'' CALENDAR_CAPABILITY calendar_get,
     AddMethod ''Calendar/share'' CALENDAR_CAPABILITY (calendar_share fc),
     AddMethod ''CalendarInvitation/get'' CALENDAR_CAPABILITY calendar_invitation_get,
     AddMethod ''CalendarInvitation/set'' CALENDAR_CAPABILITY calendar_invitation_set]"

fun apply_registration :: "jmap_host \<Rightarrow> jmap_ctx \<Rightarrow> registration \<Rightarrow> world dispatcher \<Rightarrow> world dispatcher" where
  "apply_registration hs ctx (AddCapability cap j) d = add_capability cap j d"
| "apply_registration hs ctx (AddMethod nm cap f) d = register nm cap (as_handler hs ctx f) d"

definition replace_first :: "string \<Rightarrow> string \<Rightarrow> string \<Rightarrow> string" where
  "replace_first p r s = (case find_sub p s of None \<Rightarrow> s | Some i \<Rightarrow> take i s @ r @ drop (i + length p) s)"

definition websocket_capability :: "string \<Rightarrow> json" where
  "websocket_capability public_url =
     (let ws_url = replace_first ''http://'' ''ws://'' (replace_first ''https://'' ''wss://'' public_url)
      in json_obj [(''url'', JStr (trim_end_matches (CHR ''/'') ws_url @ ''/jmap/ws'')), (''supportsPush'', JBool True)])"

text \<open>The dispatcher of \<open>owneyd\<close>. The context of a call is passed to \<open>process\<close> in the code; here the handlers are
  made for it.\<close>

definition mail_dispatcher :: "jmap_host \<Rightarrow> 'c fed_ctx \<Rightarrow> jmap_ctx \<Rightarrow> world dispatcher" where
  "mail_dispatcher hs fc ctx =
     add_capability ''urn:ietf:params:jmap:websocket'' (websocket_capability (jc_public_url ctx))
       (fold (apply_registration hs ctx) (registrations fc) (new_dispatcher ''0''))"

subsection \<open>The submitter\<close>

text \<open>\<open>DeliveryService\<close> as the submitter of the methods: the message is wrapped for PGP, signed, filed as sent and
  queued for each recipient.\<close>

definition delivery_submitter :: "'c pgp_env \<Rightarrow> mail_env \<Rightarrow> (pgp_error \<Rightarrow> string) \<Rightarrow> (storage_error \<Rightarrow> string) \<Rightarrow>
    (submit_error \<Rightarrow> string) \<Rightarrow> submitter" where
  "delivery_submitter pe me show_pgp show_st show_submit r acct mail_from recipients raw chat d =
     (case outbound pe (jr_now r) (jr_entropy r) acct mail_from recipients raw d of
        (Inl e, d1) \<Rightarrow> (Inl (show_submit (to_submit_error show_st (DTemporary (''pgp: '' @ show_pgp e)))), d1)
      | (Inr wrapped, d1) \<Rightarrow>
          (case submit_with_priority (store_env (pe_ingest pe) (jr_now r) (jr_ids r) (me\<lparr>pgp_outbound := \<lambda>_ _ _ raw. Inr raw\<rparr>))
                  (jr_now r) (jr_queue_ids r) acct mail_from recipients wrapped chat d1 of
             (Inl e, d2) \<Rightarrow> (Inl (show_submit (to_submit_error show_st e)), d2)
           | (Inr ids, d2) \<Rightarrow> (Inr ids, d2)))"

subsection \<open>Wire format\<close>

fun de_invocation :: "json \<Rightarrow> invocation option" where
  "de_invocation (JArr [JStr nm, args, JStr cid]) = Some (Invocation nm args cid)"
| "de_invocation _ = None"

definition de_str_map :: "json \<Rightarrow> (string, string) btree option" where
  "de_str_map j = Option.bind (as_object j) (\<lambda>m. those (map (\<lambda>(k, v). map_option (Pair k) (as_str v)) m))"

definition REQUEST :: "string list" where "REQUEST = [''using'', ''methodCalls'', ''createdIds'']"

definition de_request :: "json \<Rightarrow> request option" where
  "de_request j =
     (if \<not> struct_shape REQUEST False j then None
      else let f = struct_field REQUEST j in
        (case (de_req (as_list as_str) (f ''using''), de_req (as_list de_invocation) (f ''methodCalls''), de_opt de_str_map (f ''createdIds'')) of
           (Some u, Some m, Some c) \<Rightarrow> Some \<lparr>req_using = u, method_calls = m, req_created_ids = c\<rparr>
         | _ \<Rightarrow> None))"

definition invocation_json :: "invocation \<Rightarrow> json" where
  "invocation_json i = JArr [JStr (name i), arguments i, JStr (call_id i)]"

definition str_map_json :: "(string, string) btree \<Rightarrow> json" where
  "str_map_json m = JObj (map (\<lambda>(k, v). (k, JStr v)) m)"

definition response_json :: "Jmap_Envelope.response \<Rightarrow> json" where
  "response_json r = json_obj ([(''methodResponses'', JArr (map invocation_json (method_responses r)))] @
     (case resp_created_ids r of None \<Rightarrow> [] | Some m \<Rightarrow> [(''createdIds'', str_map_json m)]) @
     [(''sessionState'', JStr (resp_session_state r))])"

definition session_account_json :: "session_account \<Rightarrow> json" where
  "session_account_json a = json_obj [(''name'', JStr (acct_name a)), (''isPersonal'', JBool (is_personal a)),
     (''isReadOnly'', JBool (is_read_only a)), (''accountCapabilities'', JObj (account_capabilities a))]"

definition session_json :: "session \<Rightarrow> json" where
  "session_json s = json_obj [(''capabilities'', JObj (s_capabilities s)),
     (''accounts'', JObj (map (\<lambda>(k, a). (k, session_account_json a)) (s_accounts s))), (''primaryAccounts'', str_map_json (primary_accounts s)),
     (''username'', JStr (username s)), (''apiUrl'', JStr (api_url s)), (''downloadUrl'', JStr (download_url s)),
     (''uploadUrl'', JStr (upload_url s)), (''eventSourceUrl'', JStr (event_source_url s)), (''state'', JStr (s_state s))]"

subsection \<open>Endpoints\<close>

text \<open>The server: what authentication needs, the context of a call up to the account, and the parser of a request
  body. An endpoint that panics has the value \<open>None\<close>.\<close>

record 'c http_env =
  hv_oidc :: oidc_env
  hv_host :: jmap_host
  hv_fed :: "'c fed_ctx"
  hv_ctx :: jmap_ctx
  hv_parse_request :: "string \<Rightarrow> request option"
  hv_sha1 :: "string \<Rightarrow> (pgp_error, nat list) result"

definition ctx_for :: "'c http_env \<Rightarrow> account_t \<Rightarrow> jmap_ctx" where
  "ctx_for env a = (hv_ctx env)\<lparr>jc_account := a\<rparr>"

definition dispatcher_for :: "'c http_env \<Rightarrow> account_t \<Rightarrow> world dispatcher" where
  "dispatcher_for env a = mail_dispatcher (hv_host env) (hv_fed env) (ctx_for env a)"

definition json_reply :: "nat \<Rightarrow> json \<Rightarrow> Oidc_Session.response" where
  "json_reply s j = \<lparr>status = s, headers = [], resp_body = JsonBody j\<rparr>"

definition with_account :: "'c http_env \<Rightarrow> int \<Rightarrow> string option \<Rightarrow> world \<Rightarrow> (account_t \<Rightarrow> world \<Rightarrow> (Oidc_Session.response \<times> world) option) \<Rightarrow>
    (Oidc_Session.response \<times> world) option" where
  "with_account env now auth w f =
     (case authenticate_scoped (hv_oidc env) now auth SCOPE_MAIL (fst w) of
        (Inl resp, d) \<Rightarrow> Some (resp, d, snd w)
      | (Inr a, d) \<Rightarrow> f a (d, snd w))"

definition session_endpoint :: "'c http_env \<Rightarrow> int \<Rightarrow> string option \<Rightarrow> world \<Rightarrow> (Oidc_Session.response \<times> world) option" where
  "session_endpoint env now auth w = with_account env now auth w (\<lambda>a w.
     Some (json_reply 200 (session_json (for_account (jc_public_url (hv_ctx env)) (a_email a) (a_id a) (capabilities (dispatcher_for env a)) ''0'')), w))"

definition run_request :: "'c http_env \<Rightarrow> account_t \<Rightarrow> request \<Rightarrow> world \<Rightarrow> (world \<times> (request_error, Jmap_Envelope.response) result) option" where
  "run_request env a req w = process (jc_serde (hv_ctx env) ''ResultReference'') (dispatcher_for env a) req w"

definition api :: "'c http_env \<Rightarrow> int \<Rightarrow> string option \<Rightarrow> string \<Rightarrow> world \<Rightarrow> (Oidc_Session.response \<times> world) option" where
  "api env now auth body w = with_account env now auth w (\<lambda>a w.
     if length body > max_size_request (limits (dispatcher_for env a))
     then Some (json_reply 400 (problem_details (Limit ''maxSizeRequest'')), w)
     else (case hv_parse_request env body of
             None \<Rightarrow> Some (json_reply 400 (problem_details NotRequest), w)
           | Some req \<Rightarrow>
               (case run_request env a req w of
                  None \<Rightarrow> None
                | Some (w', Inr resp) \<Rightarrow> Some (json_reply 200 (response_json resp), w')
                | Some (w', Inl e) \<Rightarrow> Some (json_reply 400 (problem_details e), w'))))"

definition upload :: "'c http_env \<Rightarrow> int \<Rightarrow> string option \<Rightarrow> string \<Rightarrow> string option \<Rightarrow> string \<Rightarrow> world \<Rightarrow> (Oidc_Session.response \<times> world) option" where
  "upload env now auth account_id content_type body w = with_account env now auth w (\<lambda>a w.
     if account_id \<noteq> a_id a then Some (status_only 404, w)
     else if length body > max_size_upload (limits (dispatcher_for env a)) then Some (status_only 413, w)
     else (case put_blob (jc_ingest (hv_ctx env)) (jr_now (h_random (hv_host env) (snd w))) body (fst w) of
             (Inl _, d) \<Rightarrow> Some (status_only 500, d, Suc (snd w))
           | (Inr bid, d) \<Rightarrow> Some (json_reply 200 (json_obj [(''accountId'', JStr account_id), (''blobId'', JStr bid),
               (''type'', JStr (case content_type of Some t \<Rightarrow> t | None \<Rightarrow> ''application/octet-stream'')),
               (''size'', JNum (int (length body)))]), d, Suc (snd w))))"

definition download :: "'c http_env \<Rightarrow> int \<Rightarrow> string option \<Rightarrow> string \<Rightarrow> string \<Rightarrow> world \<Rightarrow> (Oidc_Session.response \<times> world) option" where
  "download env now auth account_id blob_id w = with_account env now auth w (\<lambda>a w.
     if account_id \<noteq> a_id a then Some (status_only 404, w)
     else (case parse_blob_id blob_id of
             None \<Rightarrow> None
           | Some (Inl _) \<Rightarrow> Some (status_only 404, w)
           | Some (Inr bs) \<Rightarrow>
               (case jc_get_blob (hv_ctx env) (to_hex bs) of
                  Inr raw \<Rightarrow> Some (\<lparr>status = 200, headers = [(''Content-Type'', ''application/octet-stream'')], resp_body = TextBody raw\<rparr>, w)
                | Inl (StBlobNotFound _) \<Rightarrow> Some (status_only 404, w)
                | Inl _ \<Rightarrow> Some (status_only 500, w))))"

definition list_accounts :: "account_t list op" where
  "list_accounts = db_call (\<lambda>d. (Inr (map row_to_account (sort_key acc_created_at (accounts d))), d))"

text \<open>Key discovery, without authentication: the first account whose local part has the hash. The key is made when
  there is none.\<close>

definition wkd_matches :: "'c http_env \<Rightarrow> string \<Rightarrow> account_t \<Rightarrow> bool" where
  "wkd_matches env hash a = (case rsplit_once (CHR ''@'') (a_email a) of
     None \<Rightarrow> False
   | Some (lp, _) \<Rightarrow> hu (te_lower (jc_text (hv_ctx env))) (hv_sha1 env) lp = Inr hash)"

definition wkd_key :: "'c http_env \<Rightarrow> string \<Rightarrow> world \<Rightarrow> Oidc_Session.response \<times> world" where
  "wkd_key env hash w =
     (case list_accounts (fst w) of
        (Inl _, d) \<Rightarrow> (status_only 500, d, Suc (snd w))
      | (Inr accs, d) \<Rightarrow>
          (case find (wkd_matches env hash) accs of
             None \<Rightarrow> (status_only 404, d, Suc (snd w))
           | Some a \<Rightarrow>
               (case own_cert (fe_pgp (fc_env (hv_fed env))) (jr_now (h_random (hv_host env) (snd w))) (jr_entropy (h_random (hv_host env) (snd w))) (a_id a) d of
                  (Inl _, d1) \<Rightarrow> (status_only 500, d1, Suc (snd w))
                | (Inr cert, d1) \<Rightarrow>
                    (case public_der (pe_sq (fe_pgp (fc_env (hv_fed env)))) cert of
                       Inl _ \<Rightarrow> (status_only 500, d1, Suc (snd w))
                     | Inr der \<Rightarrow> (\<lparr>status = 200, headers = [(''Content-Type'', ''application/vnd.gpg.key''),
                         (''Access-Control-Allow-Origin'', ''*'')], resp_body = TextBody der\<rparr>, d1, Suc (snd w))))))"

subsection \<open>Push\<close>

definition state_change_json :: "string \<Rightarrow> (string \<times> int) list \<Rightarrow> json" where
  "state_change_json acct changed = json_obj [(''@type'', JStr ''StateChange''),
     (''changed'', json_obj [(acct, json_obj (map (\<lambda>(t, s). (t, state_str s)) changed))])]"

text \<open>What an event becomes on the stream of an account; \<open>None\<close> in the list is a lagged receiver.\<close>

definition push_of :: "string \<Rightarrow> event \<Rightarrow> json option" where
  "push_of acct e = (case e of StateChange a changed \<Rightarrow> if a = acct then Some (state_change_json acct changed) else None | _ \<Rightarrow> None)"

definition eventsource :: "string \<Rightarrow> event option list \<Rightarrow> json list" where
  "eventsource acct evs = List.map_filter (\<lambda>e. Option.bind e (push_of acct)) evs"

definition frame_error :: "string \<Rightarrow> json" where
  "frame_error detail = json_obj [(''@type'', JStr ''RequestError''), (''type'', JStr ''urn:ietf:params:jmap:error:notRequest''),
     (''status'', JNum 400), (''detail'', JStr detail)]"

text \<open>One frame: the reply, whether push is on afterwards, and the world.\<close>

definition handle_request :: "'c http_env \<Rightarrow> account_t \<Rightarrow> json \<Rightarrow> bool \<Rightarrow> world \<Rightarrow> (json option \<times> bool \<times> world) option" where
  "handle_request env a v push w =
     (case de_request v of
        None \<Rightarrow> Some (Some (frame_error ''not a JMAP request''), push, w)
      | Some req \<Rightarrow>
          (case run_request env a req w of
             None \<Rightarrow> None
           | Some (w', Inl e) \<Rightarrow> Some (Some (json_set ''@type'' (JStr ''RequestError'') (problem_details e)), push, w')
           | Some (w', Inr resp) \<Rightarrow>
               (let reply = json_set ''@type'' (JStr ''Response'') (response_json resp)
                in Some (Some (case json_get v ''id'' of Some i \<Rightarrow> json_set ''requestId'' i reply | None \<Rightarrow> reply), push, w'))))"

definition handle_frame :: "'c http_env \<Rightarrow> account_t \<Rightarrow> string \<Rightarrow> bool \<Rightarrow> world \<Rightarrow> (json option \<times> bool \<times> world) option" where
  "handle_frame env a txt push w =
     (case jc_json_parse (hv_ctx env) txt of
        None \<Rightarrow> Some (Some (frame_error ''frame is not JSON''), push, w)
      | Some v \<Rightarrow>
          (let ty = get_as as_str v ''@type'' in
           if ty = Some ''Request'' then handle_request env a v push w
           else if ty = Some ''WebSocketPushEnable'' then Some (None, True, w)
           else if ty = Some ''WebSocketPushDisable'' then Some (None, False, w)
           else Some (Some (frame_error ''unknown @type''), push, w)))"

text \<open>What a socket's loop waits for: a message of the client, the end of the connection, or an event of the bus.\<close>

datatype socket_input = FrameText string | FrameOther | FrameEnd | BusEvent event | BusLagged | BusClosed

record socket =
  so_push :: bool
  so_world :: world
  so_sent :: "json list"

definition send_frame :: "(nat \<Rightarrow> bool) \<Rightarrow> json option \<Rightarrow> socket \<Rightarrow> socket \<times> bool" where
  "send_frame send_ok reply s =
     (case reply of
        None \<Rightarrow> (s, True)
      | Some j \<Rightarrow> if send_ok (length (so_sent s)) then (s\<lparr>so_sent := so_sent s @ [j]\<rparr>, True) else (s, False))"

text \<open>A step of the loop: the socket afterwards and whether it goes on; \<open>None\<close> is a panic.\<close>

fun socket_step :: "'c http_env \<Rightarrow> account_t \<Rightarrow> (nat \<Rightarrow> bool) \<Rightarrow> socket_input \<Rightarrow> socket \<Rightarrow> (socket \<times> bool) option" where
  "socket_step env a send_ok (FrameText txt) s =
     map_option (\<lambda>(reply, push, w). send_frame send_ok reply (s\<lparr>so_push := push, so_world := w\<rparr>)) (handle_frame env a txt (so_push s) (so_world s))"
| "socket_step env a send_ok FrameOther s = Some (s, True)"
| "socket_step env a send_ok FrameEnd s = Some (s, False)"
| "socket_step env a send_ok (BusEvent e) s = Some (send_frame send_ok (if so_push s then push_of (a_id a) e else None) s)"
| "socket_step env a send_ok BusLagged s = Some (s, True)"
| "socket_step env a send_ok BusClosed s = Some (s, False)"

fun handle_socket :: "'c http_env \<Rightarrow> account_t \<Rightarrow> (nat \<Rightarrow> bool) \<Rightarrow> socket_input list \<Rightarrow> socket \<Rightarrow> socket option" where
  "handle_socket env a send_ok [] s = Some s"
| "handle_socket env a send_ok (i # is) s =
     (case socket_step env a send_ok i s of
        None \<Rightarrow> None
      | Some (s', go) \<Rightarrow> if go then handle_socket env a send_ok is s' else Some s')"

end
