(* ===== verification/Account_View.thy ===== *)
theory Account_View
  imports Mail_Store Account_Data Scheduling_Store Fed_Runs
begin

text \<open>
  What the data of one account is, and which operations of the store done for another account leave it alone. An
  operation obeys a relation between the state before and the state after when the relation holds whatever the
  result; the locale \<open>db_rel\<close> carries this over calls, transactions and sequences.
\<close>

section \<open>Definitions\<close>

definition obeys :: "(db \<Rightarrow> db \<Rightarrow> bool) \<Rightarrow> (db \<Rightarrow> 'r \<times> db) \<Rightarrow> bool" where
  "obeys rel f \<longleftrightarrow> (\<forall>d. rel d (snd (f d)))"

text \<open>The integrity of the tables that the separation of accounts rests on: primary keys, and emails in threads of
  their own account.\<close>

definition rows_ok :: "db \<Rightarrow> bool" where
  "rows_ok d \<longleftrightarrow> distinct (map em_id (emails d)) \<and> distinct (map th_id (threads d)) \<and> distinct (map pg_id (scheduling_pages d)) \<and>
     (\<forall>r \<in> set (emails d). \<exists>t \<in> set (threads d). th_id t = em_thread_id r \<and> th_account_id t = em_account_id r)"

definition email_ids :: "string \<Rightarrow> db \<Rightarrow> string set" where
  "email_ids b d = em_id ` {r \<in> set (emails d). em_account_id r = b}"

text \<open>The mail of an account, and the rest of what it owns.\<close>

definition mail_of :: "string \<Rightarrow> db \<Rightarrow> email_row list \<times> thread_row list \<times> state_row list \<times> (string \<times> string) list \<times> (string \<times> string) list \<times>
    email_attribute_row list" where
  "mail_of b d = (filter (\<lambda>r. em_account_id r = b) (emails d), filter (\<lambda>r. th_account_id r = b) (threads d),
     filter (\<lambda>r. st_account_id r = b) (states d), filter (\<lambda>x. fst x \<in> email_ids b d) (email_mailbox d),
     filter (\<lambda>x. fst x \<in> email_ids b d) (email_keyword d), filter (\<lambda>r. at_account_id r = b) (email_attributes d))"

definition data_of :: "string \<Rightarrow> db \<Rightarrow> contact_row list \<times> chat_pref_row list \<times> spam_token_row list \<times> page_row list \<times> queue_row list" where
  "data_of b d = (filter (\<lambda>r. ct_account_id r = b) (contacts d), filter (\<lambda>r. cp_account_id r = b) (chat_preferences d),
     filter (\<lambda>r. sp_account_id r = b) (spam_tokens d), filter (\<lambda>r. pg_account_id r = b) (scheduling_pages d),
     filter (\<lambda>r. q_account_id r = b) (queue d))"

text \<open>The tables no JMAP method writes.\<close>

definition fixed_part :: "db \<Rightarrow> account_row list \<times> alias_row list \<times> mailbox_row list \<times> calendar_row list \<times> calendar_event_row list \<times> booking_row list" where
  "fixed_part d = (accounts d, aliases d, mailboxes d, calendars d, calendar_events d, bookings d)"

definition account_view :: "string \<Rightarrow> db \<Rightarrow> _" where
  "account_view b d = (mail_of b d, data_of b d, fixed_part d)"

definition untouched :: "string \<Rightarrow> db \<Rightarrow> db \<Rightarrow> bool" where
  "untouched b d d' \<longleftrightarrow> (rows_ok d \<longrightarrow> rows_ok d' \<and> account_view b d' = account_view b d)"

lemmas view_defs = account_view_def mail_of_def data_of_def fixed_part_def email_ids_def

section \<open>Relations that operations respect\<close>

locale db_rel =
  fixes rel :: "db \<Rightarrow> db \<Rightarrow> bool"
  assumes rel_refl: "rel d d"
    and rel_trans: "rel d d' \<Longrightarrow> rel d' d'' \<Longrightarrow> rel d d''"
    and rel_faults: "rel d (d\<lparr>faults := fs\<rparr>)"
begin

lemma obeysD: "obeys rel f \<Longrightarrow> f d = (r, d') \<Longrightarrow> rel d d'"
  by (metis obeys_def snd_conv)

lemma obeys_return: "obeys rel (op_return a)"
  by (simp add: obeys_def op_return_def rel_refl)

lemma obeys_fail: "obeys rel (op_fail e)"
  by (simp add: obeys_def op_fail_def rel_refl)

lemma obeys_bind: "obeys rel f \<Longrightarrow> (\<And>a. obeys rel (g a)) \<Longrightarrow> obeys rel (op_bind f g)"
  unfolding obeys_def op_bind_def by (auto split: prod.splits sum.splits) (metis snd_conv rel_trans)+

lemma obeys_call: "obeys rel f \<Longrightarrow> obeys rel (db_call f)"
  unfolding obeys_def db_call_def by (auto simp: rel_faults split: list.splits) (metis rel_trans rel_faults)

lemma obeys_transaction: "(\<And>d a d'. f d = (Inr a, d') \<Longrightarrow> rel d d') \<Longrightarrow> obeys rel (transaction f)"
  unfolding obeys_def transaction_def by (auto simp: rel_refl split: prod.splits sum.splits)

lemma obeys_frozen: "keeps (\<lambda>d. d\<lparr>faults := []\<rparr>) f \<Longrightarrow> obeys rel f"
  unfolding obeys_def keeps_def
proof safe
  fix d assume "\<forall>d. (snd (f d))\<lparr>faults := []\<rparr> = d\<lparr>faults := []\<rparr>"
  then have "(snd (f d))\<lparr>faults := []\<rparr>\<lparr>faults := faults (snd (f d))\<rparr> = d\<lparr>faults := faults (snd (f d))\<rparr>" by simp
  then have "snd (f d) = d\<lparr>faults := faults (snd (f d))\<rparr>" by simp
  then show "rel d (snd (f d))" using rel_faults by metis
qed

lemma obeys_read: "obeys rel (\<lambda>d. (h d, d))"
  by (simp add: obeys_def rel_refl)

lemmas obeys_intros = obeys_return obeys_fail obeys_bind obeys_call

end

interpretation un: db_rel "untouched b" for b
  by unfold_locales (auto simp: untouched_def rows_ok_def view_defs)

lemma view_untouched:
  assumes "\<And>d. f d = (r, d') \<Longrightarrow> rows_ok d' = rows_ok d \<and> account_view b d' = account_view b d" "f d = (r, d')"
  shows "untouched b d d'"
  using assms by (simp add: untouched_def)

section \<open>Tables\<close>

lemma filter_update_other: "(\<And>r. q r \<Longrightarrow> \<not> P r \<and> \<not> P (f r)) \<Longrightarrow> filter P (sql_update q f rows) = filter P rows"
  unfolding sql_update_def by (induction rows) auto

lemma filter_update_other_in:
  "(\<And>r. r \<in> set rows \<Longrightarrow> q r \<Longrightarrow> \<not> P r \<and> \<not> P (f r)) \<Longrightarrow> filter P (sql_update q f rows) = filter P rows"
  unfolding sql_update_def by (induction rows) auto

lemma filter_upsert_other:
  "(\<And>r. key r = key row \<Longrightarrow> \<not> P r \<and> \<not> P (f r)) \<Longrightarrow> \<not> P row \<Longrightarrow> filter P (sql_upsert key f row rows) = filter P rows"
  by (simp add: sql_upsert_def filter_update_other)

lemma filter_delete_other: "(\<And>r. q r \<Longrightarrow> \<not> P r) \<Longrightarrow> filter P (sql_delete q rows) = filter P rows"
  unfolding sql_delete_def by (induction rows) auto

text \<open>Writing one table, with what must be shown of it.\<close>

lemma untouched_states: "filter (\<lambda>r. st_account_id r = b) rows = filter (\<lambda>r. st_account_id r = b) (states d) \<Longrightarrow> untouched b d (d\<lparr>states := rows\<rparr>)"
  by (simp add: untouched_def rows_ok_def view_defs)

lemma untouched_contacts: "filter (\<lambda>r. ct_account_id r = b) rows = filter (\<lambda>r. ct_account_id r = b) (contacts d) \<Longrightarrow> untouched b d (d\<lparr>contacts := rows\<rparr>)"
  by (simp add: untouched_def rows_ok_def view_defs)

lemma untouched_attributes: "filter (\<lambda>r. at_account_id r = b) rows = filter (\<lambda>r. at_account_id r = b) (email_attributes d) \<Longrightarrow>
    untouched b d (d\<lparr>email_attributes := rows\<rparr>)"
  by (simp add: untouched_def rows_ok_def view_defs)

lemma untouched_keywords: "filter (\<lambda>x. fst x \<in> email_ids b d) rows = filter (\<lambda>x. fst x \<in> email_ids b d) (email_keyword d) \<Longrightarrow>
    untouched b d (d\<lparr>email_keyword := rows\<rparr>)"
  by (simp add: untouched_def rows_ok_def view_defs)

lemma untouched_mailboxes: "filter (\<lambda>x. fst x \<in> email_ids b d) rows = filter (\<lambda>x. fst x \<in> email_ids b d) (email_mailbox d) \<Longrightarrow>
    untouched b d (d\<lparr>email_mailbox := rows\<rparr>)"
  by (simp add: untouched_def rows_ok_def view_defs)

lemma untouched_chat: "filter (\<lambda>r. cp_account_id r = b) rows = filter (\<lambda>r. cp_account_id r = b) (chat_preferences d) \<Longrightarrow>
    untouched b d (d\<lparr>chat_preferences := rows\<rparr>)"
  by (simp add: untouched_def rows_ok_def view_defs)

lemma untouched_spam: "filter (\<lambda>r. sp_account_id r = b) rows = filter (\<lambda>r. sp_account_id r = b) (spam_tokens d) \<Longrightarrow>
    untouched b d (d\<lparr>spam_tokens := rows\<rparr>)"
  by (simp add: untouched_def rows_ok_def view_defs)

lemma untouched_free [simp]:
  "untouched b d (d\<lparr>published := x1\<rparr>)" "untouched b d (d\<lparr>blobs := x2\<rparr>)" "untouched b d (d\<lparr>calendar_sharing := x3\<rparr>)"
  "untouched b d (d\<lparr>calendar_federation := x4\<rparr>)" "untouched b d (d\<lparr>federation_peers := x5\<rparr>)" "untouched b d (d\<lparr>server_identity := x6\<rparr>)"
  by (simp_all add: untouched_def rows_ok_def view_defs)

section \<open>Operations done for another account\<close>

lemma bump_untouched: "acct \<noteq> b \<Longrightarrow> bump acct dt d = (r, d') \<Longrightarrow> untouched b d d'"
  by (auto simp: bump_def split: option.splits intro!: untouched_states filter_update_other)

lemma update_one_email:
  assumes "acct \<noteq> b" "\<exists>r \<in> set (emails d). em_account_id r = acct \<and> em_id r = eid"
  shows "untouched b d (d\<lparr>emails := sql_update (\<lambda>r. em_id r = eid) (\<lambda>r. r\<lparr>em_updated_modseq := s\<rparr>) (emails d)\<rparr>)"
proof -
  let ?rows = "sql_update (\<lambda>r. em_id r = eid) (\<lambda>r. r\<lparr>em_updated_modseq := s\<rparr>) (emails d)"
  have ids: "map em_id ?rows = map em_id (emails d)" by (rule map_key_update) simp
  have own: "em_account_id r = acct" if "distinct (map em_id (emails d))" "r \<in> set (emails d)" "em_id r = eid" for r
    using assms(2) that keys_unique_eq[of em_id "emails d"] unfolding keys_unique_def by metis
  have mem: "r \<in> set ?rows \<Longrightarrow> \<exists>r0 \<in> set (emails d). em_id r0 = em_id r \<and> em_account_id r0 = em_account_id r \<and> em_thread_id r0 = em_thread_id r" for r
    by (auto simp: tbl_simps split: if_splits)
  have "filter (\<lambda>r. em_account_id r = b) ?rows = filter (\<lambda>r. em_account_id r = b) (emails d)" if "rows_ok d"
    using that own assms(1) by (intro filter_update_other_in) (auto simp: rows_ok_def)
  moreover have "email_ids b (d\<lparr>emails := ?rows\<rparr>) = email_ids b d"
  proof -
    have pick: "{y \<in> f ` S. em_account_id y = b} = f ` {x \<in> S. em_account_id (f x) = b}" for f :: "email_row \<Rightarrow> email_row" and S by auto
    have "em_account_id (if em_id r = eid then r\<lparr>em_updated_modseq := s\<rparr> else r) = em_account_id r" for r by simp
    note acct = this
    have "{r \<in> set ?rows. em_account_id r = b} =
        (\<lambda>r. if em_id r = eid then r\<lparr>em_updated_modseq := s\<rparr> else r) ` {r \<in> set (emails d). em_account_id r = b}"
      unfolding set_sql_update pick acct ..
    moreover have "em_id ` (\<lambda>r. if em_id r = eid then r\<lparr>em_updated_modseq := s\<rparr> else r) ` A = em_id ` A" for A
      unfolding image_image by (rule image_cong) auto
    ultimately show ?thesis by (simp add: email_ids_def)
  qed
  ultimately show ?thesis using ids mem
    by (auto simp: untouched_def rows_ok_def account_view_def mail_of_def data_of_def fixed_part_def) metis
qed

lemma resolve_thread_own: "resolve_thread acct refs d = Some t \<Longrightarrow> \<exists>r \<in> set (emails d). em_account_id r = acct \<and> em_thread_id r = t"
proof (induction refs)
  case (Cons x refs)
  show ?case
  proof (cases "order_desc em_received_at (filter (\<lambda>r. em_account_id r = acct \<and> em_message_id r = Some x) (emails d))")
    case Nil
    then show ?thesis using Cons by simp
  next
    case (Cons r rs)
    then have "r \<in> set (order_desc em_received_at (filter (\<lambda>r. em_account_id r = acct \<and> em_message_id r = Some x) (emails d)))" by simp
    then have "r \<in> set (emails d) \<and> em_account_id r = acct" unfolding set_order_desc by simp
    moreover have "t = em_thread_id r" using Cons.prems Cons by simp
    ultimately show ?thesis by blast
  qed
qed simp

text \<open>Placing a message in a thread: afterwards the account has a thread with that id.\<close>

lemma place_thread_untouched:
  assumes "acct \<noteq> b" "place_thread acct found fresh seq d = (Inr t, d')" "rows_ok d"
    and "\<And>t. found = Some t \<Longrightarrow> \<exists>r \<in> set (emails d). em_account_id r = acct \<and> em_thread_id r = t"
  shows "rows_ok d' \<and> account_view b d' = account_view b d \<and> emails d' = emails d \<and> (\<exists>x \<in> set (threads d'). th_id x = t \<and> th_account_id x = acct)"
proof (cases found)
  case None
  then have d': "d' = d\<lparr>threads := threads d @ [\<lparr>th_id = fresh, th_account_id = acct, th_created_modseq = seq, th_updated_modseq = seq\<rparr>]\<rparr>"
    "t = fresh" "fresh \<notin> th_id ` set (threads d)"
    using assms(2) by (auto simp: place_thread_def sql_insert_def split: option.splits if_splits)
  have "rows_ok d'" using assms(3) d' unfolding rows_ok_def by auto
  moreover have "account_view b d' = account_view b d" using assms(1) d'(1) by (simp add: view_defs)
  ultimately show ?thesis using d' by simp
next
  case (Some t0)
  let ?f = "\<lambda>r. r\<lparr>th_updated_modseq := seq\<rparr>"
  let ?rows = "sql_update (\<lambda>r. th_id r = t0) ?f (threads d)"
  have d': "d' = d\<lparr>threads := ?rows\<rparr>" "t = t0" using assms(2) Some by (auto simp: place_thread_def)
  obtain x where x: "x \<in> set (threads d)" "th_id x = t0" "th_account_id x = acct"
    using assms(3,4) Some unfolding rows_ok_def by metis
  have own: "th_account_id y = acct" if "y \<in> set (threads d)" "th_id y = t0" for y
    using assms(3) x that keys_unique_eq[of th_id "threads d"] unfolding keys_unique_def rows_ok_def by metis
  have ids: "map th_id ?rows = map th_id (threads d)" by (rule map_key_update) simp
  have mem: "\<exists>y' \<in> set ?rows. th_id y' = th_id y \<and> th_account_id y' = th_account_id y" if "y \<in> set (threads d)" for y
  proof -
    have "(if th_id y = t0 then ?f y else y) \<in> set ?rows" using that unfolding set_sql_update by (rule imageI)
    then show ?thesis by (rule rev_bexI) simp
  qed
  have "filter (\<lambda>r. th_account_id r = b) ?rows = filter (\<lambda>r. th_account_id r = b) (threads d)"
    using own assms(1) by (intro filter_update_other_in) auto
  moreover have "\<exists>y \<in> set ?rows. th_id y = t0 \<and> th_account_id y = acct" using mem[OF x(1)] x by simp
  moreover have "\<forall>r \<in> set (emails d). \<exists>y \<in> set ?rows. th_id y = em_thread_id r \<and> th_account_id y = em_account_id r"
    using assms(3) mem unfolding rows_ok_def by metis
  ultimately show ?thesis using d' assms(3) ids by (auto simp: rows_ok_def view_defs)
qed

lemma store_email_untouched:
  assumes "em_account_id row \<noteq> b" "store_email row mb d = (Inr u, d')" "rows_ok d"
    and "\<exists>x \<in> set (threads d). th_id x = em_thread_id row \<and> th_account_id x = em_account_id row"
  shows "rows_ok d' \<and> account_view b d' = account_view b d"
proof -
  obtain X where new: "em_id row \<notin> em_id ` set (emails d)"
    and d': "d' = d\<lparr>emails := emails d @ [row], email_mailbox := email_mailbox d @ [(em_id row, mb)], blobs := X\<rparr>"
    using assms(2) by (auto simp: store_email_def sql_insert_def split: option.splits if_splits)
  have ids: "email_ids b d' = email_ids b d" using d' assms(1) by (auto simp: email_ids_def)
  have nb: "em_id row \<notin> email_ids b d" using new by (auto simp: email_ids_def)
  have "mail_of b d' = mail_of b d" using ids nb assms(1) unfolding mail_of_def ids by (simp add: d')
  moreover have "data_of b d' = data_of b d" "fixed_part d' = fixed_part d" by (simp_all add: d' data_of_def fixed_part_def)
  moreover have "rows_ok d'" using new assms(3,4) unfolding rows_ok_def by (auto simp: d')
  ultimately show ?thesis by (simp add: account_view_def)
qed

lemma ingest_tx_untouched:
  assumes "acct \<noteq> b" "ingest_tx now ids acct target meta sz bid auth chat d = (Inr x, d')"
  shows "untouched b d d'"
proof -
  obtain mb where f: "find_mailbox acct target d = (Inr mb, d)"
    using op_bind_okD[OF assms(2)[unfolded ingest_tx_def]] find_mailbox_frame by metis
  let ?found = "resolve_thread acct (references meta) d"
  from assms f obtain s1 d1 s2 d2 s3 d3 t d4 row u where
    b: "bump acct ''Email'' d = (Inr s1, d1)" "bump acct ''Thread'' d1 = (Inr s2, d2)" "bump acct ''Mailbox'' d2 = (Inr s3, d3)"
    and p: "place_thread acct ?found (new_thread ids) s2 d3 = (Inr t, d4)"
    and s: "store_email row mb d4 = (Inr u, d')" "em_thread_id row = t" "em_account_id row = acct"
    unfolding ingest_tx_def Let_def by (auto simp: op_return_def dest!: op_bind_okD)
  have em: "bump acct dt e = (r, e') \<Longrightarrow> emails e' = emails e" for dt e r e'
    by (auto simp: bump_def split: option.splits)
  have d3: "emails d3 = emails d" using b em by metis
  note bumped = bump_untouched[OF assms(1)]
  have u3: "untouched b d d3" by (rule un.rel_trans[OF bumped[OF b(1)] un.rel_trans[OF bumped[OF b(2)] bumped[OF b(3)]]])
  show ?thesis unfolding untouched_def
  proof
    assume "rows_ok d"
    with u3 have ok3: "rows_ok d3" "account_view b d3 = account_view b d" by (simp_all add: untouched_def)
    have "rows_ok d4 \<and> account_view b d4 = account_view b d3 \<and> emails d4 = emails d3 \<and> (\<exists>x \<in> set (threads d4). th_id x = t \<and> th_account_id x = acct)"
      using place_thread_untouched[OF assms(1) p ok3(1)] resolve_thread_own d3 by metis
    then show "rows_ok d' \<and> account_view b d' = account_view b d"
      using store_email_untouched[OF _ s(1)] s assms(1) ok3(2) by metis
  qed
qed

lemma put_blob_untouched: "obeys (untouched b) (put_blob env now raw)"
proof -
  have "untouched b d (case rows of None \<Rightarrow> d | Some r \<Rightarrow> d\<lparr>blobs := r\<rparr>)" for d rows
    by (cases rows) (simp_all add: un.rel_refl)
  then show ?thesis unfolding put_blob_def
    by (auto intro!: un.obeys_intros split: sum.splits) (simp add: obeys_def)
qed

lemma link_contact_untouched: "acct \<noteq> b \<Longrightarrow> obeys (untouched b) (link_contact now i acct frm)"
  unfolding link_contact_def by (intro un.obeys_call) (auto simp: obeys_def un.rel_refl intro!: untouched_contacts)

lemma ingest_untouched:
  assumes "acct \<noteq> b"
  shows "obeys (untouched b) (ingest_email_into env now ids acct raw target auth chat)"
proof -
  have "obeys (untouched b) (\<lambda>d. (let d1 = d\<lparr>published := published d @ [StateChange acct changed]\<rparr>
            in (Inr ingested, case from_addr meta of
                  None \<Rightarrow> d1
                | Some from \<Rightarrow> snd (link_contact now i acct from d1))))" for changed and ingested :: ingested_email and meta i
  proof (cases "from_addr meta")
    case (Some frm)
    have "untouched b d (snd (link_contact now i acct frm (d\<lparr>published := published d @ [StateChange acct changed]\<rparr>)))" for d
      by (rule un.rel_trans[OF untouched_free(1)[of b d "published d @ [StateChange acct changed]"]])
        (use link_contact_untouched[OF assms] in \<open>simp add: obeys_def\<close>)
    with Some show ?thesis by (simp add: obeys_def)
  qed (simp add: obeys_def)
  then show ?thesis unfolding ingest_email_into_def Let_def
    by (intro un.obeys_bind un.obeys_call un.obeys_transaction put_blob_untouched)
      (auto simp: case_prod_beta intro: ingest_tx_untouched[OF assms])
qed

lemma filter_other_ids:
  assumes "i \<notin> S"
  shows "filter (\<lambda>x. fst x \<in> S) (map (Pair i) xs) = []"
    and "filter (\<lambda>x. fst x \<noteq> i \<and> fst x \<in> S) rows = filter (\<lambda>x. fst x \<in> S) rows"
proof -
  show "filter (\<lambda>x. fst x \<in> S) (map (Pair i) xs) = []" using assms by (induction xs) simp_all
  show "filter (\<lambda>x. fst x \<noteq> i \<and> fst x \<in> S) rows = filter (\<lambda>x. fst x \<in> S) rows"
    using assms by (intro filter_cong) auto
qed

lemma filter_ignore_other:
  "i \<notin> S \<Longrightarrow> filter (\<lambda>x. fst x \<in> S) (insert_ignore rows (map (\<lambda>k. (i, f k)) xs)) = filter (\<lambda>x. fst x \<in> S) rows"
  by (induction xs arbitrary: rows) auto

lemma owned_not_other:
  assumes "acct \<noteq> b" "distinct (map em_id (emails d))" "\<exists>r \<in> set (emails d). em_account_id r = acct \<and> em_id r = eid"
  shows "eid \<notin> email_ids b d"
proof
  assume "eid \<in> email_ids b d"
  then obtain r where r: "r \<in> set (emails d)" "em_account_id r = b" "em_id r = eid" by (auto simp: email_ids_def)
  from assms(3) obtain r2 where r2: "r2 \<in> set (emails d)" "em_account_id r2 = acct" "em_id r2 = eid" by blast
  have "r = r2" using assms(2) r r2 by (intro keys_unique_eq[of em_id "emails d"]) (simp_all add: keys_unique_def)
  with r r2 assms(1) show False by simp
qed

lemma set_keywords_untouched:
  assumes "eid \<notin> email_ids b d"
  shows "untouched b d (snd (set_keywords eid kws d))"
  using assms by (cases kws) (auto simp: set_keywords_def un.rel_refl sql_delete_def split_beta filter_ignore_other filter_other_ids
    intro!: untouched_keywords)

lemma set_mailboxes_untouched:
  assumes "eid \<notin> email_ids b d"
  shows "untouched b d (snd (set_mailboxes acct eid mbs d))"
  using assms by (auto simp: set_mailboxes_def un.rel_refl sql_delete_def split_beta filter_other_ids
    split: option.splits intro!: untouched_mailboxes)

lemma update_tx_untouched:
  assumes "acct \<noteq> b" "update_tx acct eid kws mbs d = (Inr x, d')"
  shows "untouched b d d'"
  unfolding untouched_def
proof
  assume ok: "rows_ok d"
  have own: "\<exists>r \<in> set (emails d). em_account_id r = acct \<and> em_id r = eid"
    using assms(2) by (auto simp: update_tx_def split: if_splits)
  obtain d0 where k: "set_keywords eid kws d = (Inr (), d0)" by (simp add: set_keywords_def)
  obtain y d1 where m: "set_mailboxes acct eid mbs d0 = (y, d1)" by (meson surj_pair)
  have em: "emails d0 = emails d" "emails d1 = emails d" using set_keywords_frame[OF k] set_mailboxes_frame[OF m] by simp_all
  have ni: "eid \<notin> email_ids b d" by (rule owned_not_other[OF assms(1) _ own]) (use ok in \<open>simp add: rows_ok_def\<close>)
  then have ni0: "eid \<notin> email_ids b d0" using em(1) by (simp add: email_ids_def)
  have u1: "untouched b d d1"
    using set_keywords_untouched[OF ni, of kws] set_mailboxes_untouched[OF ni0, of acct mbs] un.rel_trans unfolding k m by auto
  from assms k m own obtain s1 d2 s2 d3 where
    b: "bump acct ''Email'' d1 = (Inr s1, d2)" "bump acct ''Mailbox'' d2 = (Inr s2, d3)"
    and d': "d' = d3\<lparr>emails := sql_update (\<lambda>r. em_id r = eid) (\<lambda>r. r\<lparr>em_updated_modseq := s1\<rparr>) (emails d3)\<rparr>"
    by (auto simp: update_tx_def dest!: op_bind_okD split: if_splits)
  have em3: "emails d3 = emails d" using b em(2) by (auto simp: bump_def split: option.splits)
  note bumped = bump_untouched[OF assms(1)]
  have "untouched b d3 d'" unfolding d' by (rule update_one_email[OF assms(1)]) (use own em3 in simp)
  then have "untouched b d d'"
    by (rule un.rel_trans[OF u1 un.rel_trans[OF bumped[OF b(1)] un.rel_trans[OF bumped[OF b(2)]]]])
  with ok show "rows_ok d' \<and> account_view b d' = account_view b d" by (simp add: untouched_def)
qed

lemma published_untouched: "obeys (untouched b) (\<lambda>d. (r, d\<lparr>published := g d\<rparr>))"
  by (simp add: obeys_def)

lemma update_email_untouched: "acct \<noteq> b \<Longrightarrow> obeys (untouched b) (update_email acct eid kws mbs)"
  unfolding update_email_def
  by (intro un.obeys_bind un.obeys_call un.obeys_transaction published_untouched) (auto intro: update_tx_untouched)

lemma dismiss_untouched:
  assumes "acct \<noteq> b"
  shows "obeys (untouched b) (dismiss_email_attribute now acct eid kind)"
proof -
  have "untouched b d d'"
    if tx: "op_bind (owned_email_check acct eid) (\<lambda>_. op_bind (dismiss_rows now acct eid kind) (\<lambda>_. touch_email acct eid)) d = (Inr x, d')" for d d' x
  proof -
    have own: "\<exists>r \<in> set (emails d). em_account_id r = acct \<and> em_id r = eid"
      using tx by (auto simp: op_bind_def owned_email_check_def split: if_splits)
    from tx own obtain u d1 s d2 where
      k: "dismiss_rows now acct eid kind d = (Inr u, d1)" and b: "bump acct ''Email'' d1 = (Inr s, d2)"
      and d': "d' = d2\<lparr>emails := sql_update (\<lambda>r. em_id r = eid) (\<lambda>r. r\<lparr>em_updated_modseq := s\<rparr>) (emails d2)\<rparr>"
      by (auto simp: owned_email_check_def touch_email_def dest!: op_bind_okD split: if_splits)
    have u1: "untouched b d d1" using k assms
      by (auto simp: dismiss_rows_def Let_def split: if_splits intro!: untouched_attributes filter_update_other)
    have "emails d2 = emails d" using b dismiss_frame[OF k] by (auto simp: bump_def split: option.splits)
    then have "untouched b d2 d'" unfolding d' by (intro update_one_email[OF assms]) (use own in simp)
    then show ?thesis by (rule un.rel_trans[OF u1 un.rel_trans[OF bump_untouched[OF assms b]]])
  qed
  then show ?thesis unfolding dismiss_email_attribute_def
    by (intro un.obeys_bind un.obeys_call un.obeys_transaction published_untouched) blast
qed

lemma chat_untouched:
  "acct \<noteq> b \<Longrightarrow> obeys (untouched b) (set_chat_preference now acct contact m)"
  "acct \<noteq> b \<Longrightarrow> obeys (untouched b) (delete_chat_preference acct contact)"
  unfolding set_chat_preference_def delete_chat_preference_def
  by (rule un.obeys_call;
      auto simp: obeys_def un.rel_refl chat_key_def intro!: untouched_chat filter_upsert_other filter_delete_other)+

lemma train_fold_other: "acct \<noteq> b \<Longrightarrow> filter (\<lambda>r. sp_account_id r = b) (fold (train_token acct junk) ts rows) = filter (\<lambda>r. sp_account_id r = b) rows"
proof (induction ts arbitrary: rows)
  case (Cons t ts)
  have "filter (\<lambda>r. sp_account_id r = b) (train_token acct junk t rows) = filter (\<lambda>r. sp_account_id r = b) rows"
    using Cons.prems by (auto simp: train_token_def spam_key_def intro!: filter_upsert_other)
  with Cons show ?case by simp
qed simp

lemma train_untouched: "acct \<noteq> b \<Longrightarrow> obeys (untouched b) (train_spam_tokens acct ts junk)"
  unfolding train_spam_tokens_def
  by (auto intro!: un.obeys_return un.obeys_call un.obeys_transaction untouched_spam train_fold_other split: if_splits)

subsection \<open>Pages, shares and federation\<close>

lemma create_page_untouched:
  assumes "acct \<noteq> b"
  shows "obeys (untouched b) (create_scheduling_page tz i now acct n)"
proof -
  have "untouched b d d'" if c: "create_page_tx i now acct n d = (Inr r, d')" for d r d'
  proof -
    have "d' = d\<lparr>scheduling_pages := scheduling_pages d @ [page_of i now acct n]\<rparr>" "pg_id (page_of i now acct n) \<notin> pg_id ` set (scheduling_pages d)"
      using c by (auto simp: create_page_tx_def sql_insert_def split: if_splits option.splits)
    with assms show ?thesis by (auto simp: untouched_def rows_ok_def view_defs page_of_def)
  qed
  then show ?thesis unfolding create_scheduling_page_def
    by (auto intro!: un.obeys_fail un.obeys_call un.obeys_transaction split: sum.splits if_splits)
qed

lemma update_page_untouched:
  assumes "acct \<noteq> b"
  shows "obeys (untouched b) (update_scheduling_page tz now acct pid p)"
proof -
  have "untouched b d d'" if c: "update_page_tx tz now acct pid p d = (Inr r, d')" for d r d'
    unfolding untouched_def
  proof
    assume ok: "rows_ok d"
    from c obtain cur where s: "sql_select (\<lambda>r. pg_id r = pid \<and> pg_account_id r = acct) (scheduling_pages d) = Some cur"
      by (cases "sql_select (\<lambda>r. pg_id r = pid \<and> pg_account_id r = acct) (scheduling_pages d)") (auto simp: update_page_tx_def)
    let ?new = "apply_patch now p cur"
    let ?rows = "sql_update (\<lambda>r. pg_id r = pid) (\<lambda>_. ?new) (scheduling_pages d)"
    from c s have d': "d' = d\<lparr>scheduling_pages := ?rows\<rparr>"
      by (auto simp: update_page_tx_def Let_def split: if_splits sum.splits)
    from s have cur: "cur \<in> set (scheduling_pages d)" "pg_id cur = pid" "pg_account_id cur = acct" by (auto dest: sql_select_Some)
    have new: "pg_id ?new = pid" "pg_account_id ?new = acct" using cur by (simp_all add: apply_patch_def)
    have own: "r = cur" if "r \<in> set (scheduling_pages d)" "pg_id r = pid" for r
      using that cur ok by (intro keys_unique_eq[of pg_id "scheduling_pages d"]) (simp_all add: keys_unique_def rows_ok_def)
    have "map pg_id ?rows = map pg_id (scheduling_pages d)" using new by (simp add: sql_update_def)
    moreover have "filter (\<lambda>r. pg_account_id r = b) ?rows = filter (\<lambda>r. pg_account_id r = b) (scheduling_pages d)"
      using own cur new assms by (intro filter_update_other_in) auto
    ultimately show "rows_ok d' \<and> account_view b d' = account_view b d" using ok by (simp add: d' rows_ok_def view_defs)
  qed
  then show ?thesis unfolding update_scheduling_page_def by (intro un.obeys_call un.obeys_transaction) blast
qed

lemma obeys_free:
  assumes "\<And>d. snd (f d) = d \<or> (\<exists>x. snd (f d) = d\<lparr>calendar_sharing := x\<rparr>) \<or> (\<exists>x. snd (f d) = d\<lparr>calendar_federation := x\<rparr>) \<or>
    (\<exists>x. snd (f d) = d\<lparr>federation_peers := x\<rparr>) \<or> (\<exists>x. snd (f d) = d\<lparr>server_identity := x\<rparr>)"
  shows "obeys (untouched b) f"
  unfolding obeys_def
proof
  fix d
  show "untouched b d (snd (f d))" using assms[of d] un.rel_refl[of b d] by (elim disjE exE) simp_all
qed

lemma share_untouched: "obeys (untouched b) (share_calendar i now cal owner target ty)"
  unfolding share_calendar_def by (intro un.obeys_call obeys_free) (auto simp: Let_def split: option.splits)

lemma outbound_untouched: "obeys (untouched b) (create_outbound_federation i secret now c email url ty dn fp)"
proof -
  have "obeys (untouched b) (insert_federation row)" for row
    by (intro obeys_free) (auto simp: insert_federation_def split: option.splits)
  then show ?thesis unfolding create_outbound_federation_def by (intro un.obeys_intros)
qed

lemma settle_untouched: "obeys (untouched b) (accept_inbound_federation fed acct)" "obeys (untouched b) (reject_inbound_federation fed acct)"
  unfolding accept_inbound_federation_def reject_inbound_federation_def settle_inbound_federation_def
  by (rule un.obeys_call; rule obeys_free; auto split: option.splits)+

definition guarded_view :: "string \<Rightarrow> db \<Rightarrow> _" where
  "guarded_view b d = (rows_ok d, account_view b d)"

lemma guarded_untouched: "guarded_view b d' = guarded_view b d \<Longrightarrow> untouched b d d'"
  by (simp add: guarded_view_def untouched_def)

interpretation gv: key_free "guarded_view b" for b
  by unfold_locales (simp_all add: guarded_view_def rows_ok_def view_defs)

lemma guarded_fed [simp]: "guarded_view b (d\<lparr>federation_peers := x\<rparr>) = guarded_view b d" "guarded_view b (d\<lparr>server_identity := y\<rparr>) = guarded_view b d"
  by (simp_all add: guarded_view_def rows_ok_def view_defs)

lemma build_client_untouched: "obeys (untouched b) (build_client env now entropy)"
proof -
  have "keeps (guarded_view b) server_identity_of" "keeps (guarded_view b) (set_server_identity now fp blob)" for fp blob
    unfolding server_identity_of_def set_server_identity_def by (rule gv.keeps_call, simp add: keeps_def)+
  then have "pgp_keeps (guarded_view b) (build_client env now entropy)"
    unfolding build_client_def Let_def server_cert_def
    by (auto intro!: gv.pgp_intros gv.keeps_store_cert gv.keeps_load_cert split: option.splits)
  then show ?thesis unfolding obeys_def pgp_keeps_def by (blast intro: guarded_untouched)
qed

lemma discover_untouched:
  assumes "discover_and_pin env codec net now domain d w = (r, d', w')"
  shows "untouched b d d'"
proof -
  have peer: "guarded_view b d2 = guarded_view b d1" if "federation_peer dn d1 = (x, d2)" for dn d1 x d2
    by (rule keepsD[OF gv.keeps_call that[unfolded federation_peer_def]]) (simp add: keeps_def)
  have ups: "guarded_view b d2 = guarded_view b d1" if "upsert_federation_peer t dn url c fp d1 = (x, d2)" for t dn url c fp d1 x d2
    by (rule keepsD[OF gv.keeps_call that[unfolded upsert_federation_peer_def]]) (simp add: keeps_def Let_def)
  have pin: "guarded_view b d2 = guarded_view b d1" if "pin_candidate sq t dn m d1 = (x, d2)" for sq t dn m d1 x d2
    using that by (auto simp: pin_candidate_def split: sum.splits prod.splits if_splits dest!: peer ups)
  have "try_candidates env codec net now domain us d w = (r, d', w') \<Longrightarrow> guarded_view b d' = guarded_view b d" for us w
  proof (induction us arbitrary: w)
    case (Cons u us)
    then show ?case by (auto split: prod.splits option.splits dest: pin)
  qed simp
  with assms show ?thesis by (auto simp: discover_and_pin_def un.rel_refl intro: guarded_untouched split: if_splits)
qed

section \<open>Reading\<close>

interpretation frozen: db_view "\<lambda>d. d\<lparr>faults := []\<rparr>"
  by unfold_locales simp

lemma frozen_read: "keeps (\<lambda>d. d\<lparr>faults := []\<rparr>) (db_call (\<lambda>d. (h d, d)))"
  by (rule frozen.keeps_call) (simp add: keeps_def)

lemma frozen_ops:
  "keeps (\<lambda>d. d\<lparr>faults := []\<rparr>) (mailbox_list acct)" "keeps (\<lambda>d. d\<lparr>faults := []\<rparr>) (state acct dt)"
  "keeps (\<lambda>d. d\<lparr>faults := []\<rparr>) (emails_by_ids acct ids)" "keeps (\<lambda>d. d\<lparr>faults := []\<rparr>) (list_email_attributes acct eid)"
  "keeps (\<lambda>d. d\<lparr>faults := []\<rparr>) (thread_emails acct ids)" "keeps (\<lambda>d. d\<lparr>faults := []\<rparr>) (query_emails acct mb pos lim)"
  "keeps (\<lambda>d. d\<lparr>faults := []\<rparr>) (list_chat_preferences acct)" "keeps (\<lambda>d. d\<lparr>faults := []\<rparr>) (list_calendars acct)"
  "keeps (\<lambda>d. d\<lparr>faults := []\<rparr>) (get_calendar acct c)" "keeps (\<lambda>d. d\<lparr>faults := []\<rparr>) (get_calendar_by_id c)"
  "keeps (\<lambda>d. d\<lparr>faults := []\<rparr>) (list_accepted_shared_calendar_ids acct)" "keeps (\<lambda>d. d\<lparr>faults := []\<rparr>) (account_by_email e)"
  "keeps (\<lambda>d. d\<lparr>faults := []\<rparr>) (list_pending_inbound_federations acct)" "keeps (\<lambda>d. d\<lparr>faults := []\<rparr>) (list_scheduling_pages acct)"
  "keeps (\<lambda>d. d\<lparr>faults := []\<rparr>) (list_bookings acct pid)"
  unfolding mailbox_list_def state_def emails_by_ids_def list_email_attributes_def thread_emails_def query_emails_def Let_def
    list_chat_preferences_def list_calendars_def get_calendar_def get_calendar_by_id_def list_accepted_shared_calendar_ids_def
    account_by_email_def list_pending_inbound_federations_def list_scheduling_pages_def list_bookings_def
  by (rule frozen_read)+

lemma frozen_queries:
  "(\<And>f. keeps (\<lambda>d. d\<lparr>faults := []\<rparr>) (sql1 f)) \<Longrightarrow> keeps (\<lambda>d. d\<lparr>faults := []\<rparr>) (filter_emails sql1 acct ids flt)"
  "(\<And>f. keeps (\<lambda>d. d\<lparr>faults := []\<rparr>) (sql2 f)) \<Longrightarrow> keeps (\<lambda>d. d\<lparr>faults := []\<rparr>) (query_emails_with_filters sql2 acct flt pos lim)"
  "keeps (\<lambda>d. d\<lparr>faults := []\<rparr>) (changes_since acct dt since mx)"
  unfolding filter_emails_def query_emails_with_filters_def changes_since_def Let_def
  by (auto intro: frozen.keeps_return frozen.keeps_fail frozen_read)

end
