(* ===== verification/Jmap_Props.thy ===== *)
theory Jmap_Props
  imports Jmap_Server Account_View
begin

text \<open>
  Properties of the JMAP methods and of the endpoints over them: a call made for one account leaves the data of
  every other account alone, whatever the method and its arguments; a call that names another account is refused
  before the store is touched; what the methods answer and write on the branches where the code surprises.
\<close>

section \<open>Relations that steps respect\<close>

definition step_obeys :: "(db \<Rightarrow> db \<Rightarrow> bool) \<Rightarrow> ('e, 'a) step \<Rightarrow> bool" where
  "step_obeys rel m \<longleftrightarrow> (\<forall>rnd w. rel (fst w) (fst (snd (m rnd w))))"

context db_rel
begin

lemma step_obeysD: "step_obeys rel m \<Longrightarrow> m rnd w = (out, w') \<Longrightarrow> rel (fst w) (fst w')"
  by (metis step_obeys_def snd_conv)

lemma step_return_obeys: "step_obeys rel (step_return a)"
  by (simp add: step_obeys_def step_return_def rel_refl)

lemma step_fail_obeys: "step_obeys rel (step_fail e)"
  by (simp add: step_obeys_def step_fail_def rel_refl)

lemma step_panic_obeys: "step_obeys rel (step_panic p)"
  by (simp add: step_obeys_def step_panic_def rel_refl)

lemma step_bind_obeys: "step_obeys rel m \<Longrightarrow> (\<And>a. step_obeys rel (f a)) \<Longrightarrow> step_obeys rel (step_bind m f)"
  unfolding step_obeys_def step_bind_def
  by (auto split: prod.splits outcome.splits) (metis fst_conv snd_conv rel_trans)+

lemma step_of_obeys: "step_obeys rel (step_of r)"
  by (cases r) (simp_all add: step_of_def step_return_obeys step_fail_obeys)

lemma step_op_obeys: "(\<And>r. obeys rel (f r)) \<Longrightarrow> step_obeys rel (step_op err f)"
  unfolding step_obeys_def obeys_def step_op_def
  by (auto split: prod.splits sum.splits) (metis snd_conv)+

lemma step_read_obeys: "(\<And>r. keeps (\<lambda>d. d\<lparr>faults := []\<rparr>) (f r)) \<Longrightarrow> step_obeys rel (step_op err f)"
  by (rule step_op_obeys) (rule obeys_frozen)

lemma step_net_obeys:
  "(\<And>r d n x d' n'. f r d n = (x, d', n') \<Longrightarrow> rel d d') \<Longrightarrow> step_obeys rel (step_net err f)"
  unfolding step_obeys_def step_net_def by (auto split: prod.splits sum.splits)

lemma step_try_obeys: "step_obeys rel m \<Longrightarrow> step_obeys rel (step_try m)"
  unfolding step_obeys_def step_try_def by (auto split: prod.splits outcome.splits) (metis fst_conv snd_conv)+

lemma step_fold_obeys: "(\<And>x acc. step_obeys rel (f x acc)) \<Longrightarrow> step_obeys rel (step_fold f xs acc)"
  by (induction xs arbitrary: acc) (auto intro: step_return_obeys step_bind_obeys)

lemma step_blob_obeys: "step_obeys rel (step_blob_id e s)"
  unfolding step_blob_id_def by (auto intro: step_return_obeys step_fail_obeys step_panic_obeys split: option.splits sum.splits)

lemma args_obeys: "step_obeys rel (parse_args ctx ty de j)" "step_obeys rel (plain_args de j)"
  unfolding parse_args_def plain_args_def by (auto intro: step_return_obeys step_fail_obeys split: option.splits)

lemma check_obeys:
  "step_obeys rel (f (a_id (jc_account ctx))) \<Longrightarrow> step_obeys rel (step_bind (check_account ctx x) f)"
  "step_obeys rel (f (a_id (jc_account ctx))) \<Longrightarrow> step_obeys rel (step_bind (account_of_args ctx j) f)"
  by (auto simp: step_obeys_def step_bind_def check_account_def account_of_args_def step_fail_def step_return_def rel_refl split: option.splits)

lemmas step_intros = step_return_obeys step_fail_obeys step_of_obeys step_try_obeys step_fold_obeys step_blob_obeys args_obeys check_obeys
  step_bind_obeys

end

section \<open>Methods\<close>

lemma read_blob_frozen: "keeps (\<lambda>d. d\<lparr>faults := []\<rparr>) (read_blob ctx bid r)"
  by (simp add: keeps_def read_blob_def)

lemma pure_frozen: "keeps (\<lambda>d. d\<lparr>faults := []\<rparr>) (\<lambda>d. (h d, d))"
  by (simp add: keeps_def)

lemmas un_reads = un.step_read_obeys[OF frozen_ops(1)] un.step_read_obeys[OF frozen_ops(2)] un.step_read_obeys[OF frozen_ops(3)]
  un.step_read_obeys[OF frozen_ops(4)] un.step_read_obeys[OF frozen_ops(5)] un.step_read_obeys[OF frozen_ops(6)]
  un.step_read_obeys[OF frozen_ops(7)] un.step_read_obeys[OF frozen_ops(8)] un.step_read_obeys[OF frozen_ops(9)]
  un.step_read_obeys[OF frozen_ops(10)] un.step_read_obeys[OF frozen_ops(11)] un.step_read_obeys[OF frozen_ops(12)]
  un.step_read_obeys[OF frozen_ops(13)] un.step_read_obeys[OF frozen_ops(14)] un.step_read_obeys[OF frozen_ops(15)]
  un.step_read_obeys[OF frozen_queries(1)[OF frozen_read]] un.step_read_obeys[OF frozen_queries(2)[OF frozen_read]]
  un.step_read_obeys[OF frozen_queries(3)] un.step_read_obeys[OF read_blob_frozen] un.step_read_obeys[OF pure_frozen]

text \<open>The reading methods leave every account alone.\<close>

lemma email_json_untouched: "step_obeys (untouched b) (email_json ctx acct e fetch)"
  unfolding email_json_def by (auto intro!: un.step_intros un_reads split: option.splits)

lemma run_query_untouched: "step_obeys (untouched b) (run_query ctx acct q pos lim)"
  unfolding run_query_def search_query_def Let_def by (auto intro!: un.step_intros un_reads split: option.splits)

lemma reading_untouched:
  "step_obeys (untouched b) (mailbox_get ctx j)" "step_obeys (untouched b) (email_get ctx j)" "step_obeys (untouched b) (email_query ctx j)"
  "step_obeys (untouched b) (changes dt ctx j)" "step_obeys (untouched b) (thread_get ctx j)" "step_obeys (untouched b) (identity_get ctx j)"
  "step_obeys (untouched b) (chat_preference_get ctx j)" "step_obeys (untouched b) (scheduling_page_get ctx j)"
  "step_obeys (untouched b) (scheduling_booking_get ctx j)" "step_obeys (untouched b) (calendar_invitation_get ctx j)"
  unfolding mailbox_get_def email_get_def email_query_def changes_def thread_get_def identity_get_def chat_preference_get_def
    scheduling_page_get_def scheduling_booking_get_def calendar_invitation_get_def Let_def
  by (auto intro!: un.step_intros un_reads email_json_untouched run_query_untouched split: option.splits prod.splits)

lemma calendar_get_untouched: "step_obeys (untouched b) (calendar_get ctx j)"
  unfolding calendar_get_def shared_calendar_def by (auto intro!: un.step_intros un_reads split: option.splits)

text \<open>The submitter keeps to the account it is called for.\<close>

definition submits_for :: "string \<Rightarrow> jmap_ctx \<Rightarrow> bool" where
  "submits_for b ctx \<longleftrightarrow> (\<forall>s r from_addr rcpts raw chat. jc_submitter ctx = Some s \<longrightarrow>
     obeys (untouched b) (s r (a_id (jc_account ctx)) from_addr rcpts raw chat))"

context key_free
begin

lemma keeps_outbound: "pgp_keeps view (outbound env now entropy acct mail_from rcpts raw)"
proof -
  have c: "pgp_keeps view (recipient_certs env acct rs)" for rs
    by (induction rs) (auto intro!: pgp_intros split: option.splits sum.splits)
  show ?thesis unfolding outbound_def by (intro pgp_intros keeps_own_cert c)
qed

end

lemma enqueue_untouched:
  assumes "acct \<noteq> b"
  shows "obeys (untouched b) (enqueue_with_priority now i acct blob mail_from recipient prio)"
    and "obeys (untouched b) (enqueue_all now rs acct blob mail_from prio)"
proof -
  have published: "untouched b d (d\<lparr>published := x\<rparr>)" for d x
    by (simp add: untouched_def rows_ok_def view_defs)
  have queued: "untouched b d (d\<lparr>queue := rows\<rparr>)" if "sql_insert q_id row (queue d) = Some rows" "q_account_id row = acct" for d row rows
    using that assms by (auto simp: sql_insert_def untouched_def rows_ok_def view_defs split: if_splits)
  have one: "obeys (untouched b) (enqueue_with_priority now i acct blob mail_from recipient prio)" for i recipient
    unfolding enqueue_with_priority_def Let_def
    by (auto intro!: un.obeys_intros split: option.splits prod.splits)
      (auto simp: obeys_def un.rel_refl intro!: queued split: option.splits)
  then show "obeys (untouched b) (enqueue_with_priority now i acct blob mail_from recipient prio)" .
  show "obeys (untouched b) (enqueue_all now rs acct blob mail_from prio)"
  proof (induction rs)
    case Nil
    then show ?case by (simp add: un.obeys_return)
  next
    case (Cons r rs)
    obtain i rc where r: "r = (i, rc)" by (cases r)
    have "obeys (untouched b) (\<lambda>d. op_bind (enqueue_all now rs acct blob mail_from prio) (\<lambda>ids. op_return (q # ids)) (d\<lparr>published := x d\<rparr>))"
      for q :: string and x
      unfolding obeys_def
    proof
      fix d
      have "obeys (untouched b) (op_bind (enqueue_all now rs acct blob mail_from prio) (\<lambda>ids. op_return (q # ids)))"
        by (intro un.obeys_bind Cons un.obeys_return)
      then show "untouched b d (snd (op_bind (enqueue_all now rs acct blob mail_from prio) (\<lambda>ids. op_return (q # ids)) (d\<lparr>published := x d\<rparr>)))"
        unfolding obeys_def by (blast intro: un.rel_trans[OF published])
    qed
    then show ?case unfolding r by (simp add: un.obeys_bind one)
  qed
qed

lemma delivery_submits:
  assumes "jc_submitter ctx = Some (delivery_submitter pe me show_pgp show_st show_submit)" "a_id (jc_account ctx) \<noteq> b"
  shows "submits_for b ctx"
proof -
  have out: "untouched b d d'" if "outbound pe now e acct f rs raw d = (x, d')" for now e acct f rs raw d x d'
    using gv.keeps_outbound[of b pe now e acct f rs raw] that guarded_untouched[of b d' d]
    unfolding pgp_keeps_def by (metis snd_conv)
  have ing: "untouched b d d'" if "Mail_Store.ingest_email ie now ids acct raw role auth d = (x, d')" "acct \<noteq> b" for ie now ids acct raw role auth d x d'
    using that by (auto simp: Mail_Store.ingest_email_def dest: un.obeysD[OF ingest_untouched])
  have all: "untouched b d d'" if "enqueue_all now xs acct blob f prio d = (x, d')" "acct \<noteq> b" for now xs acct blob f prio d x d'
    using that by (auto dest: un.obeysD[OF enqueue_untouched(2)])
  have sub: "untouched b d d'" if s: "submit_with_priority (store_env ie now ids m) t qs acct f rs raw chat d = (x, d')" "acct \<noteq> b"
    for ie now ids m t qs acct f rs raw chat d x d'
    using s unfolding submit_with_priority_def
    by (auto simp: store_env_def un.rel_refl split: sum.splits prod.splits dest!: ing all intro: un.rel_trans)
  have "obeys (untouched b) (delivery_submitter pe me show_pgp show_st show_submit r acct f rs raw chat)" if "acct \<noteq> b" for r acct f rs raw chat
    unfolding obeys_def delivery_submitter_def
    using that by (auto split: prod.splits sum.splits dest!: out sub intro: un.rel_trans)
  then show ?thesis using assms by (simp add: submits_for_def)
qed

lemma un_writes:
  assumes "acct \<noteq> b"
  shows "step_obeys (untouched b) (step_op e1 (\<lambda>r. ingest_email_into env (t1 r) (i1 r) acct raw target auth chat))"
    "step_obeys (untouched b) (step_op e2 (\<lambda>r. update_email acct eid kws mbs))"
    "step_obeys (untouched b) (step_op e3 (\<lambda>r. train_spam_tokens acct ts junk))"
    "step_obeys (untouched b) (step_op e4 (\<lambda>r. set_chat_preference (t4 r) acct contact m))"
    "step_obeys (untouched b) (step_op e5 (\<lambda>r. delete_chat_preference acct contact))"
    "step_obeys (untouched b) (step_op e6 (\<lambda>r. dismiss_email_attribute (t6 r) acct eid kind))"
    "step_obeys (untouched b) (step_op e7 (\<lambda>r. create_scheduling_page tz (i7 r) (t7 r) acct n))"
    "step_obeys (untouched b) (step_op e8 (\<lambda>r. update_scheduling_page tz (t8 r) acct pid p))"
  using ingest_untouched[OF assms] update_email_untouched[OF assms] train_untouched[OF assms] chat_untouched[OF assms]
    dismiss_untouched[OF assms] create_page_untouched[OF assms] update_page_untouched[OF assms]
  by (auto intro!: un.step_op_obeys)

lemma email_set_untouched:
  assumes "a_id (jc_account ctx) \<noteq> b"
  shows "step_obeys (untouched b) (email_set ctx j)"
proof -
  note w = un_writes[OF assms]
  have c: "step_obeys (untouched b) (apply_create ctx (a_id (jc_account ctx)) obj)" for obj
    unfolding apply_create_def Let_def by (auto intro!: un.step_intros un_reads w split: option.splits)
  have t: "step_obeys (untouched b) (train_on ctx (a_id (jc_account ctx)) bid junk)" for bid junk
    unfolding train_on_def by (auto intro!: un.step_intros un_reads w split: sum.splits)
  have u: "step_obeys (untouched b) (apply_update ctx (a_id (jc_account ctx)) i p)" for i p
    unfolding apply_update_def Let_def by (auto intro!: un.step_intros un_reads w t split: option.splits list.splits)
  show ?thesis unfolding email_set_def set_each_def by (auto intro!: un.step_intros un_reads c u)
qed

lemma chat_set_untouched:
  assumes "a_id (jc_account ctx) \<noteq> b"
  shows "step_obeys (untouched b) (chat_preference_set ctx j)"
proof -
  note w = un_writes[OF assms]
  have c: "step_obeys (untouched b) (chat_write ctx (a_id (jc_account ctx)) k obj)" for k obj
    unfolding chat_write_def by (auto intro!: un.step_intros w split: option.splits)
  show ?thesis unfolding chat_preference_set_def chat_creates_def chat_create_def chat_updates_def chat_destroys_def
    by (auto intro!: un.step_intros w c split: sum.splits)
qed

lemma submission_set_untouched:
  assumes "submits_for b ctx"
  shows "step_obeys (untouched b) (submission_set ctx j)"
proof -
  have s: "step_obeys (untouched b) (submit_one ctx s (a_id (jc_account ctx)) obj)" if "jc_submitter ctx = Some s" for s obj
  proof -
    have "step_obeys (untouched b) (step_op id (\<lambda>r. s r (a_id (jc_account ctx)) f rs raw chat))" for f rs raw chat
      using assms that by (intro un.step_op_obeys) (simp add: submits_for_def)
    then show ?thesis unfolding submit_one_def Let_def
      by (auto intro!: un.step_intros un_reads split: list.splits prod.splits if_splits)
  qed
  show ?thesis unfolding submission_set_def set_each_def by (auto intro!: un.step_intros s split: option.splits)
qed

lemma dismiss_method_untouched: "a_id (jc_account ctx) \<noteq> b \<Longrightarrow> step_obeys (untouched b) (email_attribute_dismiss ctx j)"
  unfolding email_attribute_dismiss_def by (auto intro!: un.step_intros un_reads un_writes split: option.splits prod.splits)

lemma page_set_untouched:
  assumes "a_id (jc_account ctx) \<noteq> b"
  shows "step_obeys (untouched b) (scheduling_page_set ctx j)"
proof -
  have e: "step_obeys (untouched b) m \<Longrightarrow> step_obeys (untouched b) (page_entry ctx k m out)" for k m out
    unfolding page_entry_def by (auto intro!: un.step_intros split: sum.splits method_error.splits)
  show ?thesis unfolding scheduling_page_set_def page_create_def page_update_def
    by (auto intro!: un.step_intros e un_writes[OF assms] split: option.splits list.splits)
qed

lemma calendar_methods_untouched:
  "step_obeys (untouched b) (calendar_share fc ctx j)" "step_obeys (untouched b) (calendar_invitation_set ctx j)"
proof -
  have n: "step_obeys (untouched b) (send_invitation fc cl peer iv)" for cl peer iv
    unfolding send_invitation_def by (rule un.step_net_obeys) (auto simp: un.rel_refl split: prod.splits)
  have d: "step_obeys (untouched b) (step_net err (\<lambda>r. discover_and_pin env codec net (t r) dn))" for err env codec and net :: "nat net" and t dn
    by (rule un.step_net_obeys) (rule discover_untouched)
  have w: "step_obeys (untouched b) (step_op e1 (\<lambda>r. build_client env (t r) (k r)))"
    "step_obeys (untouched b) (step_op e2 (\<lambda>r. create_outbound_federation (i r) (s r) (t r) c email url ty dn fp))"
    "step_obeys (untouched b) (step_op e3 (\<lambda>r. share_calendar (i r) (t r) cal owner target ty))"
    "step_obeys (untouched b) (step_op e4 (\<lambda>r. accept_inbound_federation fed acct))"
    "step_obeys (untouched b) (step_op e5 (\<lambda>r. reject_inbound_federation fed acct))"
    for e1 e2 e3 e4 e5 env t k i s c email url ty dn fp cal owner target fed acct
    by (auto intro!: un.step_op_obeys build_client_untouched outbound_untouched share_untouched settle_untouched)
  have p: "step_obeys (untouched b) (step_op err (\<lambda>r d. (h r d, d)))" for err and h :: "jmap_random \<Rightarrow> db \<Rightarrow> (method_error, federation_invitation) result"
    by (rule un.step_op_obeys) (rule un.obeys_read)
  show "step_obeys (untouched b) (calendar_share fc ctx j)"
    unfolding calendar_share_def share_with_def share_locally_def share_remotely_def
    by (auto intro!: un.step_intros un_reads n d w p split: option.splits prod.splits if_splits)
  show "step_obeys (untouched b) (calendar_invitation_set ctx j)"
    unfolding calendar_invitation_set_def by (auto intro!: un.step_intros w split: if_splits)
qed

lemma methods_untouched:
  assumes "AddMethod nm cap f \<in> set (registrations fc)" "a_id (jc_account ctx) \<noteq> b" "submits_for b ctx"
  shows "step_obeys (untouched b) (f ctx j)"
  using assms by (auto simp: registrations_def intro: reading_untouched calendar_get_untouched email_set_untouched chat_set_untouched
    submission_set_untouched dismiss_method_untouched page_set_untouched calendar_methods_untouched)

section \<open>Requests\<close>

lemma fold_registrations:
  "methods (fold (apply_registration hs ctx) rs d) nm = Some (cap, h) \<Longrightarrow>
    methods d nm = Some (cap, h) \<or> (\<exists>f. AddMethod nm cap f \<in> set rs \<and> h = as_handler hs ctx f)"
proof (induction rs arbitrary: d)
  case (Cons r rs)
  have "methods (apply_registration hs ctx r d) nm = Some (cap, h) \<Longrightarrow> methods d nm = Some (cap, h) \<or> (\<exists>f. r = AddMethod nm cap f \<and> h = as_handler hs ctx f)"
    by (cases r) (auto simp: add_capability_def register_def split: if_splits)
  with Cons show ?case by fastforce
qed simp

lemma limits_fold: "limits (fold (apply_registration hs ctx) rs d) = limits d"
proof (induction rs arbitrary: d)
  case (Cons r rs)
  then show ?case by (cases r) (simp_all add: add_capability_def register_def)
qed simp

lemma mail_dispatcher_methods:
  assumes "methods (mail_dispatcher hs fc ctx) nm = Some (cap, h)"
  shows "(nm = ''Core/echo'' \<and> cap = CORE_CAPABILITY \<and> h = echo_handler) \<or> (\<exists>f. AddMethod nm cap f \<in> set (registrations fc) \<and> h = as_handler hs ctx f)"
proof -
  have "methods (fold (apply_registration hs ctx) (registrations fc) (new_dispatcher ''0'')) nm = Some (cap, h)"
    using assms by (simp add: mail_dispatcher_def add_capability_def)
  from fold_registrations[OF this] show ?thesis by (auto simp: new_dispatcher_def register_def split: if_splits)
qed

lemma mail_dispatcher_limits [simp]: "limits (mail_dispatcher hs fc ctx) = default_limits"
  by (simp add: mail_dispatcher_def add_capability_def limits_fold) (simp add: new_dispatcher_def register_def)

text \<open>A relation the handlers respect is respected by a whole request.\<close>

definition handlers_obey :: "(db \<Rightarrow> db \<Rightarrow> bool) \<Rightarrow> world dispatcher \<Rightarrow> bool" where
  "handlers_obey rel d \<longleftrightarrow> max_call_duration (limits d) = None \<and>
     (\<forall>nm cap h args w. methods d nm = Some (cap, h) \<longrightarrow> rel (fst w) (fst (world_done (h args w))))"

context db_rel
begin

lemma call_obeys:
  assumes "handlers_obey rel d" "call msg d nm args prior us w = Some (w', r)"
  shows "rel (fst w) (fst w')"
proof -
  have "rel (fst w) (fst (world_done (h j w)))" "max_call_duration (limits d) = None" if "methods d nm = Some (cap, h)" for cap h j
    using assms(1) that unfolding handlers_obey_def by blast+
  then show ?thesis using assms(2)
    by (auto simp: call_def run_guarded_def rel_refl split: option.splits sum.splits if_splits)
qed

lemma run_calls_obeys:
  assumes "handlers_obey rel d" "run_calls msg d us calls rs w = Some (w', rs')"
  shows "rel (fst w) (fst w')"
  using assms(2)
proof (induction calls arbitrary: rs w)
  case Nil
  then show ?case by (simp add: rel_refl)
next
  case (Cons c calls)
  obtain nm args cid where c: "c = Invocation nm args cid" by (cases c)
  from Cons.prems c obtain w1 r where r: "call msg d nm args rs us w = Some (w1, r)" by (auto split: option.splits)
  have "rel (fst w) (fst w1)" using call_obeys[OF assms(1) r] .
  moreover have "rel (fst w1) (fst w')" using Cons r c by (auto split: sum.splits)
  ultimately show ?case by (rule rel_trans)
qed

lemma process_obeys:
  assumes "handlers_obey rel d" "process msg d req w = Some (w', r)"
  shows "rel (fst w) (fst w')"
  using assms(2) run_calls_obeys[OF assms(1)]
  by (auto simp: process_def rel_refl split: if_splits option.splits prod.splits)

end

lemma run_request_untouched:
  assumes "run_request env a req w = Some (w', r)" "a_id a \<noteq> b" "submits_for b (ctx_for env a)"
  shows "untouched b (fst w) (fst w')"
proof (rule un.process_obeys[OF _ assms(1)[unfolded run_request_def dispatcher_for_def]])
  have own: "a_id (jc_account (ctx_for env a)) \<noteq> b" using assms(2) by (simp add: ctx_for_def)
  have "untouched b (fst w) (fst (world_done (h args w)))"
    if m: "methods (mail_dispatcher (hv_host env) (hv_fed env) (ctx_for env a)) nm = Some (cap, h)" for nm cap h args and w :: world
    using mail_dispatcher_methods[OF m]
  proof (elim disjE conjE exE)
    assume "h = echo_handler"
    then show ?thesis by (simp add: echo_handler_def un.rel_refl)
  next
    fix f assume f: "AddMethod nm cap f \<in> set (registrations (hv_fed env))" "h = as_handler (hv_host env) (ctx_for env a) f"
    from un.step_obeysD[OF methods_untouched[OF f(1) own assms(3)]] show ?thesis
      unfolding f(2) as_handler_def by (auto split: prod.splits)
  qed
  then show "handlers_obey (untouched b) (mail_dispatcher (hv_host env) (hv_fed env) (ctx_for env a))"
    by (auto simp: handlers_obey_def default_limits_def)
qed

lemma authenticate_untouched: "authenticate_scoped env now auth scope d = (r, d') \<Longrightarrow> untouched b d d'"
proof -
  have touch: "untouched b d (touch_token now h d)" for h d
    by (simp add: touch_token_def untouched_def rows_ok_def view_defs)
  have "obeys (untouched b) (account_and_access_by_token h now tok)" for h tok
  proof (cases "starts_with TOKEN_PREFIX tok")
    case True
    then show ?thesis
      by (simp add: account_and_access_by_token_def Let_def, intro un.obeys_call)
        (auto simp: obeys_def un.rel_refl touch split: option.splits)
  qed (simp add: account_and_access_by_token_def un.obeys_return)
  then have "untouched b d d'" if "account_and_access_by_token h now tok d = (x, d')" for h tok x d d'
    using that by (rule un.obeysD)
  then show "authenticate_scoped env now auth scope d = (r, d') \<Longrightarrow> untouched b d d'"
    by (auto simp: authenticate_scoped_def un.rel_refl split: option.splits prod.splits sum.splits if_splits)
qed

lemma api_cases:
  assumes "api env now auth body w = Some (resp, w')" "authenticate_scoped (hv_oidc env) now auth SCOPE_MAIL (fst w) = (r, d)"
  obtains "w' = (d, snd w)" | a req x where "r = Inr a" "run_request env a req (d, snd w) = Some (w', x)"
  using assms by (auto simp: api_def with_account_def split: sum.splits if_splits option.splits prod.splits)

lemma api_untouched:
  assumes "api env now auth body w = Some (resp, w')"
    and "\<And>a d. authenticate_scoped (hv_oidc env) now auth SCOPE_MAIL (fst w) = (Inr a, d) \<Longrightarrow> a_id a \<noteq> b \<and> submits_for b (ctx_for env a)"
  shows "untouched b (fst w) (fst w')"
proof -
  obtain r d where au: "authenticate_scoped (hv_oidc env) now auth SCOPE_MAIL (fst w) = (r, d)" by (meson surj_pair)
  note u = authenticate_untouched[OF au]
  show ?thesis using assms(1) au
  proof (cases rule: api_cases)
    case 1
    with u show ?thesis by simp
  next
    case (2 a req x)
    have "untouched b (fst (d, snd w)) (fst w')"
      by (rule run_request_untouched[OF 2(2)]) (use assms(2) au 2(1) in blast)+
    then show ?thesis using un.rel_trans[OF u] by simp
  qed
qed

lemma api_total:
  assumes "\<And>req. hv_parse_request env body = Some req \<Longrightarrow> list_all (\<lambda>c. args_wf (arguments c)) (method_calls req)"
  shows "api env now auth body w \<noteq> None"
proof -
  have rr: False if req: "hv_parse_request env body = Some req" and none: "run_request env a req w = None" for a req w
  proof -
    have "run_calls (jc_serde (hv_ctx env) ''ResultReference'') (dispatcher_for env a) (req_using req) (method_calls req) [] w \<noteq> None"
      by (rule run_calls_total[OF assms[OF req]])
    then obtain p where "run_calls (jc_serde (hv_ctx env) ''ResultReference'') (dispatcher_for env a) (req_using req) (method_calls req) [] w = Some p"
      by blast
    then show ?thesis using none unfolding run_request_def process_def by (auto split: option.splits prod.splits if_splits)
  qed
  show ?thesis by (auto simp: api_def with_account_def dest: rr split: prod.splits sum.splits option.splits)
qed

section \<open>Accounts named in arguments\<close>

lemma check_other: "x \<noteq> a_id (jc_account ctx) \<Longrightarrow> step_bind (check_account ctx x) f rnd w = (JFail AccountNotFound, w)"
  by (simp add: step_bind_def check_account_def step_fail_def)

text \<open>The decoded arguments name the account of the field \<open>accountId\<close>.\<close>

lemma de_accounts:
  "de_get_args (JObj m) = Some ga \<Longrightarrow> map_of m ''accountId'' = Some (JStr (ga_account_id ga))"
  "de_query_args (JObj m) = Some qa \<Longrightarrow> map_of m ''accountId'' = Some (JStr (qa_account_id qa))"
  "de_changes_args (JObj m) = Some ca \<Longrightarrow> map_of m ''accountId'' = Some (JStr (ca_account_id ca))"
  "de_set_args (JObj m) = Some sa \<Longrightarrow> map_of m ''accountId'' = Some (JStr (sa_account_id sa))"
  "de_chat_set_args (JObj m) = Some cs \<Longrightarrow> map_of m ''accountId'' = Some (JStr (cs_account cs))"
  "de_dismiss_args (JObj m) = Some t \<Longrightarrow> map_of m ''accountId'' = Some (JStr (fst t))"
  "de_cal_get_args (JObj m) = Some x \<Longrightarrow> map_of m ''accountId'' = Some (JStr x)"
proof -
  have s: "de_req as_str v = Some x \<Longrightarrow> v = Some (JStr x)" for v x
    by (cases v; cases "the v") (auto simp: de_req_def)
  show "de_get_args (JObj m) = Some ga \<Longrightarrow> map_of m ''accountId'' = Some (JStr (ga_account_id ga))"
    "de_query_args (JObj m) = Some qa \<Longrightarrow> map_of m ''accountId'' = Some (JStr (qa_account_id qa))"
    "de_changes_args (JObj m) = Some ca \<Longrightarrow> map_of m ''accountId'' = Some (JStr (ca_account_id ca))"
    "de_set_args (JObj m) = Some sa \<Longrightarrow> map_of m ''accountId'' = Some (JStr (sa_account_id sa))"
    "de_chat_set_args (JObj m) = Some cs \<Longrightarrow> map_of m ''accountId'' = Some (JStr (cs_account cs))"
    "de_dismiss_args (JObj m) = Some t \<Longrightarrow> map_of m ''accountId'' = Some (JStr (fst t))"
    "de_cal_get_args (JObj m) = Some x \<Longrightarrow> map_of m ''accountId'' = Some (JStr x)"
    by (auto simp: de_get_args_def de_query_args_def de_changes_args_def de_set_args_def de_chat_set_args_def de_dismiss_args_def
        de_cal_get_args_def Let_def split: if_splits option.splits dest!: s)
qed

lemma de_strings_account:
  "de_strings (''accountId'' # ks) (JObj m) = Some args \<Longrightarrow> map_of m ''accountId'' = Some (JStr (args ! 0))"
proof -
  have s: "de_req as_str v = Some x \<Longrightarrow> v = Some (JStr x)" for v x
    by (cases v; cases "the v") (auto simp: de_req_def)
  show "de_strings (''accountId'' # ks) (JObj m) = Some args \<Longrightarrow> map_of m ''accountId'' = Some (JStr (args ! 0))"
    by (auto simp: de_strings_def split: if_splits option.splits dest!: s)
qed

text \<open>A method that decodes its arguments and checks the account they name.\<close>

definition refusal :: "(method_error, json) outcome \<Rightarrow> bool" where
  "refusal out \<longleftrightarrow> out = JFail AccountNotFound \<or> (\<exists>m. out = JFail (InvalidArguments m))"

lemma decoded_refused:
  assumes "\<And>a. de j = Some a \<Longrightarrow> acc a \<noteq> a_id (jc_account ctx)"
  shows "\<exists>out. refusal out \<and> step_bind (parse_args ctx ty de j) (\<lambda>a. step_bind (check_account ctx (acc a)) (f a)) rnd w = (out, w)"
    and "\<exists>out. refusal out \<and> step_bind (plain_args de j) (\<lambda>a. step_bind (check_account ctx (acc a)) (f a)) rnd w = (out, w)"
proof -
  have "\<exists>out. refusal out \<and> step_bind (step_return a) (\<lambda>a. step_bind (check_account ctx (acc a)) (f a)) rnd w = (out, w)" if "de j = Some a" for a
    using check_other[OF assms[OF that], of "f a" rnd w] by (simp add: step_bind_def[of "step_return a"] step_return_def refusal_def)
  moreover have "\<exists>out. refusal out \<and> step_bind (step_fail (InvalidArguments m)) g rnd w = (out, w)"
    for m and g :: "'a \<Rightarrow> (method_error, json) step"
    by (simp add: step_bind_def step_fail_def refusal_def)
  ultimately show "\<exists>out. refusal out \<and> step_bind (parse_args ctx ty de j) (\<lambda>a. step_bind (check_account ctx (acc a)) (f a)) rnd w = (out, w)"
    "\<exists>out. refusal out \<and> step_bind (plain_args de j) (\<lambda>a. step_bind (check_account ctx (acc a)) (f a)) rnd w = (out, w)"
    by (cases "de j"; simp add: parse_args_def plain_args_def)+
qed

lemma methods_refuse:
  assumes "AddMethod nm cap f \<in> set (registrations fc)" "map_of m ''accountId'' = Some (JStr x)" "x \<noteq> a_id (jc_account ctx)"
  shows "\<exists>out. refusal out \<and> f ctx (JObj m) rnd w = (out, w)"
proof -
  note d = decoded_refused(1)[where ctx = ctx and rnd = rnd and w = w] and p = decoded_refused(2)[where ctx = ctx and rnd = rnd and w = w]
  have acc: "account_of_args ctx (JObj m) = check_account ctx x" using assms(2) by (simp add: account_of_args_def get_as_def)
  have s: "\<exists>out. refusal out \<and> step_bind (account_of_args ctx (JObj m)) g rnd w = (out, w)" for g :: "string \<Rightarrow> (method_error, json) step"
    using check_other[OF assms(3), of g rnd w] unfolding acc by (simp add: refusal_def)
  have strs: "args ! 0 \<noteq> a_id (jc_account ctx)"
    if "de_strings SHARE_ARGS (JObj m) = Some args \<or> de_strings INVITATION_SET_ARGS (JObj m) = Some args" for args
    using that assms(2,3) by (auto simp: SHARE_ARGS_def INVITATION_SET_ARGS_def dest!: de_strings_account)
  have eq: "(\<lambda>(aid, e, kind). step_bind (check_account ctx aid) (h aid e kind)) = (\<lambda>t. step_bind (check_account ctx (fst t)) (h (fst t) (fst (snd t)) (snd (snd t))))"
    for h :: "string \<Rightarrow> string \<Rightarrow> string \<Rightarrow> string \<Rightarrow> (method_error, json) step" by (auto simp: fun_eq_iff)
  have "\<exists>out. refusal out \<and> mailbox_get ctx (JObj m) rnd w = (out, w)" "\<exists>out. refusal out \<and> email_get ctx (JObj m) rnd w = (out, w)"
    "\<exists>out. refusal out \<and> thread_get ctx (JObj m) rnd w = (out, w)" "\<exists>out. refusal out \<and> identity_get ctx (JObj m) rnd w = (out, w)"
    "\<exists>out. refusal out \<and> chat_preference_get ctx (JObj m) rnd w = (out, w)"
    unfolding mailbox_get_def email_get_def thread_get_def identity_get_def chat_preference_get_def
    by (rule d, use assms(2,3) in \<open>auto dest: de_accounts(1)\<close>)+
  moreover have "\<exists>out. refusal out \<and> email_query ctx (JObj m) rnd w = (out, w)"
    unfolding email_query_def by (rule d, use assms(2,3) in \<open>auto dest: de_accounts(2)\<close>)
  moreover have "\<exists>out. refusal out \<and> changes dt ctx (JObj m) rnd w = (out, w)" for dt
    unfolding changes_def by (rule d, use assms(2,3) in \<open>auto dest: de_accounts(3)\<close>)
  moreover have "\<exists>out. refusal out \<and> email_set ctx (JObj m) rnd w = (out, w)" "\<exists>out. refusal out \<and> submission_set ctx (JObj m) rnd w = (out, w)"
    unfolding email_set_def submission_set_def by (rule d, use assms(2,3) in \<open>auto dest: de_accounts(4)\<close>)+
  moreover have "\<exists>out. refusal out \<and> chat_preference_set ctx (JObj m) rnd w = (out, w)"
    unfolding chat_preference_set_def by (rule d, use assms(2,3) in \<open>auto dest: de_accounts(5)\<close>)
  moreover have "\<exists>out. refusal out \<and> email_attribute_dismiss ctx (JObj m) rnd w = (out, w)"
    unfolding email_attribute_dismiss_def eq by (rule p, use assms(2,3) in \<open>auto dest: de_accounts(6)\<close>)
  moreover have "\<exists>out. refusal out \<and> calendar_get ctx (JObj m) rnd w = (out, w)" "\<exists>out. refusal out \<and> calendar_invitation_get ctx (JObj m) rnd w = (out, w)"
    unfolding calendar_get_def calendar_invitation_get_def by (rule p, use assms(2,3) in \<open>auto dest: de_accounts(7)\<close>)+
  moreover have "\<exists>out. refusal out \<and> calendar_share fc ctx (JObj m) rnd w = (out, w)" "\<exists>out. refusal out \<and> calendar_invitation_set ctx (JObj m) rnd w = (out, w)"
    unfolding calendar_share_def calendar_invitation_set_def by (rule p, use strs in blast)+
  moreover have "\<exists>out. refusal out \<and> scheduling_page_get ctx (JObj m) rnd w = (out, w)" "\<exists>out. refusal out \<and> scheduling_page_set ctx (JObj m) rnd w = (out, w)"
    "\<exists>out. refusal out \<and> scheduling_booking_get ctx (JObj m) rnd w = (out, w)"
    unfolding scheduling_page_get_def scheduling_page_set_def scheduling_booking_get_def by (rule s)+
  ultimately show ?thesis using assms(1) by (auto simp: registrations_def)
qed

section \<open>A share whose invitation failed\<close>

lemma step_bind_done: "step_bind m f rnd w = (JDone b, w') \<Longrightarrow> \<exists>a w1. m rnd w = (JDone a, w1) \<and> f a rnd w1 = (JDone b, w')"
  by (auto simp: step_bind_def split: prod.splits outcome.splits)

interpretation feds_same: db_rel "\<lambda>d d'. calendar_federation d' = calendar_federation d"
  by unfold_locales auto

definition adds_share :: "string \<times> string \<Rightarrow> db \<Rightarrow> db \<Rightarrow> bool" where
  "adds_share key d d' \<longleftrightarrow> calendar_federation d' = calendar_federation d \<or>
     key \<notin> target_key ` set (calendar_federation d) \<and>
     (\<exists>row. calendar_federation d' = calendar_federation d @ [row] \<and> target_key row = key \<and> fd_status row = ''accepted'' \<and>
        fd_direction row = Some ''outbound'')"

interpretation feds_keyed: db_rel "adds_share key" for key
  by unfold_locales (auto simp: adds_share_def)

interpretation fk: key_free calendar_federation
  by unfold_locales simp_all

lemma build_client_feds: "obeys (\<lambda>d d'. calendar_federation d' = calendar_federation d) (build_client env now entropy)"
proof -
  have "keeps calendar_federation server_identity_of" "keeps calendar_federation (set_server_identity now fp blob)" for fp blob
    unfolding server_identity_of_def set_server_identity_def by (rule cf.keeps_call, simp add: keeps_def)+
  then have "pgp_keeps calendar_federation (build_client env now entropy)"
    unfolding build_client_def Let_def server_cert_def
    by (auto intro!: fk.pgp_intros fk.keeps_store_cert fk.keeps_load_cert split: option.splits)
  then show ?thesis by (simp add: obeys_def pgp_keeps_def)
qed

text \<open>The steps of a remote share before the record is written.\<close>

lemma share_prefix:
  "step_obeys (\<lambda>d d'. calendar_federation d' = calendar_federation d) (step_op e1 (\<lambda>r. build_client env (t r) (k r)))"
  "step_obeys (\<lambda>d d'. calendar_federation d' = calendar_federation d) (step_net e2 (\<lambda>r. discover_and_pin env codec net (t r) dn))"
  using build_client_feds by (auto intro!: feds_same.step_op_obeys feds_same.step_net_obeys dest: discover_feds)

lemma outbound_keyed:
  assumes "create_outbound_federation i secret now c email url ty dn fp d = (r, d')"
  shows "adds_share (c, email) d d'" and "(c, email) \<in> target_key ` set (calendar_federation d) \<Longrightarrow> isl r"
  using assms unfolding create_outbound_federation_def adds_share_def
  by (cases rule: db_call_cases; auto simp: op_bind_def op_return_def insert_federation_def sql_insert_def target_key_def split: if_splits option.splits)+

lemma share_remotely_keyed:
  "step_obeys (adds_share (cal_id cal, invitee)) (share_remotely fc ctx cal invitee dn ty)"
proof -
  let ?R = "adds_share (cal_id cal, invitee)"
  have p: "step_obeys ?R (step_op e1 (\<lambda>r. build_client env (t r) (k r)))"
    "step_obeys ?R (step_net e2 (\<lambda>r. discover_and_pin env codec net (t r) dn))"
    for e1 e2 env t k codec and net :: "nat net" and dn
    using share_prefix unfolding step_obeys_def adds_share_def by blast+
  have c: "step_obeys ?R (step_op e (\<lambda>r. create_outbound_federation (i r) (s r) (t r) (cal_id cal) invitee url ty dn fp))" for e i s t url ty dn fp
    by (rule feds_keyed.step_op_obeys) (unfold obeys_def, metis outbound_keyed(1) prod.collapse)
  have n: "step_obeys ?R (send_invitation fc cl peer iv)" for cl peer iv
    unfolding send_invitation_def by (rule feds_keyed.step_net_obeys) (auto simp: adds_share_def split: prod.splits)
  have pure: "step_obeys ?R (step_op err (\<lambda>r d. (h r d, d)))" for err and h :: "jmap_random \<Rightarrow> db \<Rightarrow> (method_error, federation_invitation) result"
    by (rule feds_keyed.step_op_obeys) (rule feds_keyed.obeys_read)
  show ?thesis unfolding share_remotely_def
    by (intro feds_keyed.step_bind_obeys p)
      (auto intro!: feds_keyed.step_bind_obeys c n pure feds_keyed.step_return_obeys feds_keyed.step_fail_obeys split: prod.splits if_splits)
qed

section \<open>Separation of the accounts\<close>

text \<open>What the requests of others do to the store: any sequence of API calls, uploads, downloads, session reads, key
  lookups and WebSocket connections, none of them authenticated as \<open>b\<close>.\<close>

inductive foreign_run :: "'c http_env \<Rightarrow> string \<Rightarrow> world \<Rightarrow> world \<Rightarrow> bool" for env b where
  none: "foreign_run env b w w"
| request: "foreign_run env b w w1 \<Longrightarrow>
    map_sum id a_id (fst (authenticate_scoped (hv_oidc env) now auth SCOPE_MAIL (fst w1))) \<noteq> Inr b \<Longrightarrow>
    Some (resp, w2) \<in> {api env now auth body w1, upload env now auth acct ty body w1, download env now auth acct blob w1,
      session_endpoint env now auth w1} \<Longrightarrow> foreign_run env b w w2"
| lookup: "foreign_run env b w w1 \<Longrightarrow> wkd_key env hash w1 = (resp, w2) \<Longrightarrow> foreign_run env b w w2"
| connection: "foreign_run env b w w1 \<Longrightarrow> a_id a \<noteq> b \<Longrightarrow>
    handle_socket env a send_ok inputs \<lparr>so_push = False, so_world = w1, so_sent = []\<rparr> = Some s \<Longrightarrow> foreign_run env b w (so_world s)"

lemma with_account_untouched:
  assumes "with_account env now auth w f = Some (resp, w')"
    and "map_sum id a_id (fst (authenticate_scoped (hv_oidc env) now auth SCOPE_MAIL (fst w))) \<noteq> Inr b"
    and "\<And>a w1. a_id a \<noteq> b \<Longrightarrow> f a w1 = Some (resp, w') \<Longrightarrow> untouched b (fst w1) (fst w')"
  shows "untouched b (fst w) (fst w')"
proof -
  obtain r d where au: "authenticate_scoped (hv_oidc env) now auth SCOPE_MAIL (fst w) = (r, d)" by (meson surj_pair)
  note u = authenticate_untouched[OF au]
  show ?thesis
  proof (cases r)
    case (Inl e)
    with assms(1) au u show ?thesis by (auto simp: with_account_def)
  next
    case (Inr a)
    then have "a_id a \<noteq> b" "f a (d, snd w) = Some (resp, w')" using assms(1,2) au by (auto simp: with_account_def)
    then show ?thesis using assms(3) un.rel_trans[OF u] by (metis fst_conv)
  qed
qed

lemma endpoints_untouched:
  assumes "map_sum id a_id (fst (authenticate_scoped (hv_oidc env) now auth SCOPE_MAIL (fst w))) \<noteq> Inr b"
  shows "upload env now auth acct ty body w = Some (resp, w') \<Longrightarrow> untouched b (fst w) (fst w')"
    and "download env now auth acct blob w = Some (resp, w') \<Longrightarrow> untouched b (fst w) (fst w')"
    and "session_endpoint env now auth w = Some (resp, w') \<Longrightarrow> untouched b (fst w) (fst w')"
proof -
  note wa = with_account_untouched[OF _ assms]
  show "upload env now auth acct ty body w = Some (resp, w') \<Longrightarrow> untouched b (fst w) (fst w')"
    unfolding upload_def
    by (erule wa) (auto simp: un.rel_refl split: if_splits prod.splits sum.splits dest!: un.obeysD[OF put_blob_untouched])
  show "download env now auth acct blob w = Some (resp, w') \<Longrightarrow> untouched b (fst w) (fst w')"
    unfolding download_def
    by (erule wa) (auto simp: un.rel_refl split: if_splits option.splits sum.splits storage_error.splits)
  show "session_endpoint env now auth w = Some (resp, w') \<Longrightarrow> untouched b (fst w) (fst w')"
    unfolding session_endpoint_def by (erule wa) (auto simp: un.rel_refl)
qed

lemma wkd_untouched: "wkd_key env hash w = (resp, w') \<Longrightarrow> untouched b (fst w) (fst w')"
proof -
  have own: "guarded_view b d' = guarded_view b d" if "own_cert pe now e acct d = (x, d')" for pe now e acct d x d'
    using gv.keeps_own_cert[of b pe now e acct] that unfolding pgp_keeps_def by (metis snd_conv)
  have all: "guarded_view b d' = guarded_view b d" if "list_accounts d = (x, d')" for d x d'
    by (rule keepsD[OF gv.keeps_call that[unfolded list_accounts_def]]) (simp add: keeps_def)
  show "wkd_key env hash w = (resp, w') \<Longrightarrow> untouched b (fst w) (fst w')"
    by (rule guarded_untouched) (auto simp: wkd_key_def dest!: all own split: prod.splits sum.splits option.splits)
qed

lemma submits_all:
  assumes "jc_submitter (hv_ctx env) \<in> {None, Some (delivery_submitter pe me show_pgp show_st show_submit)}" "a_id a \<noteq> b"
  shows "submits_for b (ctx_for env a)"
  using assms delivery_submits[of "ctx_for env a" pe me show_pgp show_st show_submit b] by (auto simp: ctx_for_def submits_for_def)

lemma handle_frame_untouched:
  assumes "a_id a \<noteq> b" "submits_for b (ctx_for env a)" "handle_frame env a txt push w = Some (reply, push', w')"
  shows "untouched b (fst w) (fst w')"
  using assms(3) run_request_untouched[OF _ assms(1,2)]
  unfolding handle_frame_def handle_request_def Let_def
  by (auto simp: un.rel_refl split: option.splits prod.splits sum.splits if_splits)

lemma send_frame_world [simp]: "so_world (fst (send_frame send_ok reply s)) = so_world s"
  by (simp add: send_frame_def split: option.splits)

lemma handle_socket_untouched:
  assumes "a_id a \<noteq> b" "submits_for b (ctx_for env a)"
  shows "handle_socket env a send_ok inputs s = Some s' \<Longrightarrow> untouched b (fst (so_world s)) (fst (so_world s'))"
proof (induction inputs arbitrary: s)
  case Nil
  then show ?case by (simp add: un.rel_refl)
next
  case (Cons i inputs)
  then obtain s1 go where st: "socket_step env a send_ok i s = Some (s1, go)" by (auto split: option.splits)
  have "untouched b (fst (so_world s)) (fst (so_world s1))"
  proof (cases i)
    case (FrameText tx)
    then obtain reply push w where f: "handle_frame env a tx (so_push s) (so_world s) = Some (reply, push, w)"
      and s1: "s1 = fst (send_frame send_ok reply (s\<lparr>so_push := push, so_world := w\<rparr>))"
      using st by auto
    show ?thesis using handle_frame_untouched[OF assms f] by (simp add: s1)
  next
    case (BusEvent e)
    then have "s1 = fst (send_frame send_ok (if so_push s then push_of (a_id a) e else None) s)" using st by (metis fst_conv option.inject socket_step.simps(4))
    then show ?thesis by (simp add: un.rel_refl)
  qed (use st in \<open>auto simp: un.rel_refl\<close>)
  with Cons st show ?case by (auto intro: un.rel_trans split: if_splits)
qed

text \<open>C31. Accounts are separate. Take a sound store and any account b. Whatever sequence of API calls (any methods with any
  arguments), uploads, downloads, session reads, key lookups and WebSocket connections is made, none of them authenticated
  as b, the store stays sound and everything b owns is as it was: mail, threads, change counters, mailboxes of messages,
  keywords, attributes, contacts, chat preferences, spam training, scheduling pages, outgoing queue. So do the tables no
  request writes: accounts, aliases, mailboxes, calendars, events, bookings. Submissions go through the delivery service
  or are off.
\<close>

theorem foreign_requests_isolated:
  assumes "jc_submitter (hv_ctx env) \<in> {None, Some (delivery_submitter pe me show_pgp show_st show_submit)}"
    and "foreign_run env b w w'" "rows_ok (fst w)"
  shows "rows_ok (fst w') \<and> account_view b (fst w') = account_view b (fst w)"
proof -
  note sub = submits_all[OF assms(1)]
  from assms(2) have "untouched b (fst w) (fst w')"
  proof induction
    case (none w)
    then show ?case by (rule un.rel_refl)
  next
    case (request w w1 now auth resp w2 body acct ty blob)
    have "api env now auth body w1 = Some (resp, w2) \<Longrightarrow> untouched b (fst w1) (fst w2)"
      by (rule api_untouched) (use request.hyps(2) sub in \<open>auto\<close>)
    with request.hyps(3) endpoints_untouched[OF request.hyps(2)] have "untouched b (fst w1) (fst w2)"
      by (metis insertE singletonD)
    with request.IH show ?case by (rule un.rel_trans)
  next
    case (lookup w w1 hash resp w2)
    then show ?case using wkd_untouched un.rel_trans by metis
  next
    case (connection w w1 a send_ok inputs s)
    then have "untouched b (fst w1) (fst (so_world s))" using handle_socket_untouched[OF connection.hyps(2) sub[OF connection.hyps(2)] connection.hyps(3)] by simp
    with connection.IH show ?case by (rule un.rel_trans)
  qed
  with assms(3) show ?thesis by (simp add: untouched_def)
qed

text \<open>A concrete server: two accounts, a token of the first, and a request of it that writes.\<close>

definition demo_random :: jmap_random where
  "demo_random = \<lparr>jr_now = 5, jr_ids = \<lparr>new_email = ''e9'', new_thread = ''t9'', new_contact = ''k9''\<rparr>, jr_uuid = ''u'', jr_queue_ids = [''q''],
     jr_id = ''i'', jr_secret = ''s'', jr_nonce = ''n'', jr_entropy = ''x''\<rparr>"

definition demo_host :: jmap_host where
  "demo_host = \<lparr>h_random = (\<lambda>_. demo_random), h_elapsed = (\<lambda>_. 0), h_dropped = (\<lambda>_ w _. w)\<rparr>"

definition demo_text :: text_env where
  "demo_text = \<lparr>te_lower = id, te_words = (\<lambda>s. [s]), te_all_caps = (\<lambda>_. False), te_hash_order = id, te_ln = id, te_exp = id, te_percent = (\<lambda>_. [])\<rparr>"

definition demo_account :: "string \<Rightarrow> account_row" where
  "demo_account i = \<lparr>acc_id = i, acc_email = i @ ''@x.test'', acc_display_name = None, acc_created_at = 0, acc_disabled_at = None\<rparr>"

definition demo_ctx :: jmap_ctx where
  "demo_ctx = \<lparr>jc_account = row_to_account (demo_account ''al''), jc_submitter = None, jc_public_url = ''https://x.test'', jc_serde = (\<lambda>ty _. ty),
     jc_uuid = Some, jc_json_parse = (\<lambda>_. None), jc_show_storage = (\<lambda>_. ''storage''), jc_ingest = \<lparr>ie_parse = (\<lambda>_. None), ie_put = Inr\<rparr>,
     jc_get_blob = Inr, jc_mail = (\<lambda>_. None), jc_search = (\<lambda>_ _ _ _. []), jc_filter_sql = (\<lambda>_ _. []),
     jc_query_sql = (\<lambda>_ _. ([], 0, 0)), jc_text = demo_text, jc_tz_known = (\<lambda>_. True)\<rparr>"

definition demo_fed_ctx :: "string fed_ctx" where
  "demo_fed_ctx = \<lparr>fc_env = demo_env, fc_codec = demo_codec, fc_net = (\<lambda>_ n. (Inl ''down'', Suc n)), fc_show_pgp = (\<lambda>_. ''pgp''),
     fc_show_discovery = (\<lambda>_. ''discovery''), fc_show_client = (\<lambda>_. ''client''), fc_show_status = show_nat\<rparr>"

definition demo_oidc :: oidc_env where
  "demo_oidc = \<lparr>parse_uuid = Some, blake3_hex = id, decode_basic = Some, s256 = id, url_encode = id, sign = (\<lambda>_. None)\<rparr>"

definition chat_request :: request where
  "chat_request = \<lparr>req_using = [MAIL_CAPABILITY], method_calls = [Invocation ''ChatPreference/set''
     (JObj [(''accountId'', JStr ''al''), (''create'', JObj [(''k'', JObj [(''contactEmail'', JStr ''p@q''), (''preference'', JStr ''auto_chat'')])])]) ''c''],
     req_created_ids = None\<rparr>"

definition demo_http :: "string http_env" where
  "demo_http = \<lparr>hv_oidc = demo_oidc, hv_host = demo_host, hv_fed = demo_fed_ctx, hv_ctx = demo_ctx, hv_parse_request = (\<lambda>_. Some chat_request),
     hv_sha1 = (\<lambda>_. Inr [])\<rparr>"

definition demo_store :: db where
  "demo_store = empty_db\<lparr>accounts := [demo_account ''al'', demo_account ''bo''],
     app_passwords := [\<lparr>ap_token_hash = ''msk_al'', ap_account_id = ''al'', ap_name = ''phone'', ap_created_at = 0, ap_last_used_at = None,
       ap_expires_at = None, ap_scopes = None, ap_oauth_client_id = None\<rparr>],
     chat_preferences := [\<lparr>cp_account_id = ''bo'', cp_contact_email = ''p@q'', cp_preference = ''never_chat'', cp_created_at = 1, cp_updated_at = 1\<rparr>]\<rparr>"

lemma demo_sound: "rows_ok demo_store" by code_simp

lemma demo_auth: "map_sum id a_id (fst (authenticate_scoped (hv_oidc demo_http) 7 (Some ''Bearer msk_al'') SCOPE_MAIL demo_store)) = Inr ''al''"
  by code_simp

lemma demo_api: obtains resp w' where "api demo_http 7 (Some ''Bearer msk_al'') ''req'' (demo_store, 0) = Some (resp, w')"
proof -
  have "list_all (\<lambda>c. args_wf (arguments c)) (method_calls chat_request)" by code_simp
  then have "api demo_http 7 (Some ''Bearer msk_al'') ''req'' (demo_store, 0) \<noteq> None"
    by (intro api_total) (simp add: demo_http_def)
  then show ?thesis using that by (metis not_None_eq surj_pair)
qed

lemma demo_method:
  "(case chat_preference_set demo_ctx (arguments (hd (method_calls chat_request))) (\<lambda>_. demo_random) (demo_store, 0) of
      (out, w) \<Rightarrow> (out = JDone (JObj [(''accountId'', JStr ''al''), (''created'', JObj [(''k'', JObj [(''id'', JStr ''p@q'')])]),
         (''destroyed'', JArr []), (''updated'', JObj [])]), map cp_account_id (chat_preferences (fst w)))) = (True, [''bo'', ''al''])"
  by code_simp

theorem foreign_requests_isolated_witness:
  "\<exists>resp w'. api demo_http 7 (Some ''Bearer msk_al'') ''req'' (demo_store, 0) = Some (resp, w') \<and> rows_ok (fst w') \<and>
     filter (\<lambda>r. cp_account_id r = ''bo'') (chat_preferences (fst w')) =
       [\<lparr>cp_account_id = ''bo'', cp_contact_email = ''p@q'', cp_preference = ''never_chat'', cp_created_at = 1, cp_updated_at = 1\<rparr>]"
proof -
  obtain resp w' where run: "api demo_http 7 (Some ''Bearer msk_al'') ''req'' (demo_store, 0) = Some (resp, w')" by (rule demo_api)
  have "foreign_run demo_http ''bo'' (demo_store, 0) w'"
    by (rule foreign_run.request[OF foreign_run.none, where now = 7 and auth = "Some ''Bearer msk_al''" and body = "''req''" and resp = resp])
      (use run demo_auth in simp_all)
  then have "rows_ok (fst w') \<and> account_view ''bo'' (fst w') = account_view ''bo'' demo_store"
    using foreign_requests_isolated[where env = demo_http] demo_sound by (fastforce simp: demo_http_def demo_ctx_def)
  moreover have "filter (\<lambda>r. cp_account_id r = ''bo'') (chat_preferences demo_store) =
       [\<lparr>cp_account_id = ''bo'', cp_contact_email = ''p@q'', cp_preference = ''never_chat'', cp_created_at = 1, cp_updated_at = 1\<rparr>]" by code_simp
  ultimately show ?thesis using run by (auto simp: account_view_def data_of_def)
qed

text \<open>C32. A method called with another account's id does nothing: whichever of the application's methods is registered
  (\<open>Core/echo\<close> uses no account) and whatever its other arguments, a call whose \<open>accountId\<close> is not the authenticated account fails, with \<open>accountNotFound\<close> or
  \<open>invalidArguments\<close>, and leaves the store, the clock and the network untouched.
\<close>

theorem foreign_account_refused:
  assumes "AddMethod nm cap f \<in> set (registrations fc)"
    and "map_of m ''accountId'' = Some (JStr acct)" "acct \<noteq> a_id (jc_account ctx)"
  shows "\<exists>e. f ctx (JObj m) rnd w = (JFail e, w) \<and> (e = AccountNotFound \<or> (\<exists>msg. e = InvalidArguments msg))"
  using methods_refuse[OF assms, of rnd w] by (auto simp: refusal_def)

theorem foreign_account_refused_witness:
  "\<exists>e. calendar_share demo_fed_ctx demo_ctx (JObj [(''accountId'', JStr ''bo''), (''calendarId'', JStr ''c'')]) (\<lambda>_. demo_random) (demo_store, 0) =
     (JFail e, demo_store, 0) \<and> (e = AccountNotFound \<or> (\<exists>msg. e = InvalidArguments msg))"
  by (rule foreign_account_refused[where acct = "''bo''" and nm = "''Calendar/share''" and cap = CALENDAR_CAPABILITY and fc = demo_fed_ctx])
    (simp_all add: registrations_def demo_ctx_def demo_account_def row_to_account_def)

section \<open>Push\<close>

lemma send_frame_sent: "so_sent (fst (send_frame send_ok reply s)) = so_sent s \<or>
    (\<exists>j. reply = Some j \<and> so_sent (fst (send_frame send_ok reply s)) = so_sent s @ [j])"
  by (simp add: send_frame_def split: option.splits)

text \<open>What a frame may be sent for.\<close>

definition frame_due :: "'c http_env \<Rightarrow> account_t \<Rightarrow> socket_input list \<Rightarrow> json \<Rightarrow> bool" where
  "frame_due env a inputs j \<longleftrightarrow>
     (\<exists>changed. BusEvent (StateChange (a_id a) changed) \<in> set inputs \<and> j = state_change_json (a_id a) changed) \<or>
     (\<exists>t push w push' w'. FrameText t \<in> set inputs \<and> handle_frame env a t push w = Some (Some j, push', w'))"

lemma frame_due_mono: "frame_due env a inputs j \<Longrightarrow> set inputs \<subseteq> set inputs' \<Longrightarrow> frame_due env a inputs' j"
  unfolding frame_due_def by blast

lemma push_of_Some: "push_of acct e = Some j \<Longrightarrow> \<exists>changed. e = StateChange acct changed \<and> j = state_change_json acct changed"
  by (auto simp: push_of_def split: event.splits if_splits)

lemma socket_step_sent:
  assumes "socket_step env a send_ok i s = Some (s', go)"
  shows "so_sent s' = so_sent s \<or> (\<exists>j. so_sent s' = so_sent s @ [j] \<and> frame_due env a [i] j)"
    and "\<not> so_push s \<Longrightarrow> (\<nexists>t. i = FrameText t) \<Longrightarrow> so_sent s' = so_sent s \<and> \<not> so_push s'"
proof -
  have push: "so_push (fst (send_frame send_ok r s)) = so_push s" for r s by (simp add: send_frame_def split: option.splits)
  show "so_sent s' = so_sent s \<or> (\<exists>j. so_sent s' = so_sent s @ [j] \<and> frame_due env a [i] j)"
  proof (cases i)
    case (FrameText tx)
    then obtain reply p w where f: "handle_frame env a tx (so_push s) (so_world s) = Some (reply, p, w)"
      and s': "s' = fst (send_frame send_ok reply (s\<lparr>so_push := p, so_world := w\<rparr>))"
      using assms by auto
    have "frame_due env a [i] j" if "reply = Some j" for j
      using f FrameText that unfolding frame_due_def by (metis list.set_intros(1))
    then show ?thesis using send_frame_sent[of send_ok reply "s\<lparr>so_push := p, so_world := w\<rparr>"] unfolding s' by auto
  next
    case (BusEvent e)
    then have s': "s' = fst (send_frame send_ok (if so_push s then push_of (a_id a) e else None) s)"
      using assms by (metis fst_conv option.inject socket_step.simps(4))
    show ?thesis using send_frame_sent[of send_ok "if so_push s then push_of (a_id a) e else None" s] BusEvent
      unfolding s' frame_due_def by (auto split: if_splits dest: push_of_Some)
  qed (use assms in auto)
  show "\<not> so_push s \<Longrightarrow> (\<nexists>t. i = FrameText t) \<Longrightarrow> so_sent s' = so_sent s \<and> \<not> so_push s'"
    using assms by (cases i) (auto simp: send_frame_def)
qed

text \<open>C34. A WebSocket of an account carries nothing that is not its own: every frame sent is the reply to a frame the client
  sent, or announces a state change of this very account that was published while the socket was open. A client that
  sends no frame is sent none, because push starts off.
\<close>

theorem socket_sends_own_only:
  assumes "handle_socket env a send_ok inputs s = Some s'"
  shows "\<exists>js. so_sent s' = so_sent s @ js \<and> (\<forall>j\<in>set js. frame_due env a inputs j) \<and>
     (\<not> so_push s \<and> (\<forall>t. FrameText t \<notin> set inputs) \<longrightarrow> js = [])"
  using assms
proof (induction inputs arbitrary: s)
  case Nil
  then show ?case by simp
next
  case (Cons i inputs)
  then obtain s1 go where st: "socket_step env a send_ok i s = Some (s1, go)" by (auto split: option.splits)
  note one = socket_step_sent[OF st]
  show ?case
  proof (cases go)
    case False
    then have "s1 = s'" using Cons.prems st by simp
    with one frame_due_mono[of env a "[i]" _ "i # inputs"] show ?thesis by (cases "so_sent s1 = so_sent s") fastforce+
  next
    case True
    with Cons st obtain js where js: "so_sent s' = so_sent s1 @ js" "\<forall>j\<in>set js. frame_due env a inputs j"
      "\<not> so_push s1 \<and> (\<forall>t. FrameText t \<notin> set inputs) \<longrightarrow> js = []" by fastforce
    have due: "\<forall>j\<in>set js. frame_due env a (i # inputs) j" using js(2) by (auto intro: frame_due_mono)
    from one(1) show ?thesis
    proof
      assume "so_sent s1 = so_sent s"
      then show ?thesis using js due one(2) by (intro exI[of _ js]) auto
    next
      assume "\<exists>j. so_sent s1 = so_sent s @ [j] \<and> frame_due env a [i] j"
      then obtain j where j: "so_sent s1 = so_sent s @ [j]" "frame_due env a [i] j" by blast
      then show ?thesis using js due one(2) frame_due_mono[of env a "[i]" j "i # inputs"] by (intro exI[of _ "j # js"]) auto
    qed
  qed
qed

theorem socket_sends_own_only_witness:
  "\<exists>js. so_sent (the (handle_socket demo_http (row_to_account (demo_account ''al'')) (\<lambda>_. True)
       [BusEvent (StateChange ''bo'' [(''Email'', 3)]), BusEvent (StateChange ''al'' [(''Email'', 4)]), FrameEnd]
       \<lparr>so_push = True, so_world = (demo_store, 0), so_sent = []\<rparr>)) = js \<and> js = [state_change_json ''al'' [(''Email'', 4)]] \<and>
     frame_due demo_http (row_to_account (demo_account ''al''))
       [BusEvent (StateChange ''bo'' [(''Email'', 3)]), BusEvent (StateChange ''al'' [(''Email'', 4)]), FrameEnd] (hd js)"
proof -
  let ?a = "row_to_account (demo_account ''al'')"
  let ?in = "[BusEvent (StateChange ''bo'' [(''Email'', 3)]), BusEvent (StateChange ''al'' [(''Email'', 4)]), FrameEnd]"
  let ?s = "\<lparr>so_push = True, so_world = (demo_store, 0), so_sent = []\<rparr>"
  have run: "handle_socket demo_http ?a (\<lambda>_. True) ?in ?s = Some (?s\<lparr>so_sent := [state_change_json ''al'' [(''Email'', 4)]]\<rparr>)"
    by (simp add: push_of_def send_frame_def demo_account_def row_to_account_def)
  from socket_sends_own_only[OF run] run show ?thesis by auto
qed

section \<open>Blob ids and downloads\<close>

lemma hex_char_code: "n < 16 \<Longrightarrow> (of_char (hex_char n) :: nat) = (if n < 10 then 48 + n else 87 + n)"
  by (simp add: hex_char_def)

lemma hex_char_facts: "n < 16 \<Longrightarrow> hex_digit (hex_char n) = Some n \<and> hex_char n \<noteq> CHR ''+'' \<and> char_boundary [hex_char n]"
proof (intro conjI notI)
  assume n: "n < 16"
  show "hex_digit (hex_char n) = Some n" using hex_char_code[OF n] n by (auto simp: hex_digit_def Let_def)
  show "char_boundary [hex_char n]" using hex_char_code[OF n] n by (simp add: char_boundary_def byte_in_def)
  assume "hex_char n = CHR ''+''"
  then have "(of_char (hex_char n) :: nat) = 43" by simp
  then show False using hex_char_code[OF n] by (simp split: if_splits)
qed

lemma hex_byte_of: "b < 256 \<Longrightarrow> hex_byte (hex_char (b div 16)) (hex_char (b mod 16)) = Some b"
  using hex_char_facts[of "b div 16"] hex_char_facts[of "b mod 16"] by (simp add: hex_byte_def)

lemma to_hex_boundary: "list_all (\<lambda>b. b < 256) bs \<Longrightarrow> char_boundary (to_hex bs)"
  using hex_char_facts by (cases bs) (auto simp: char_boundary_def)

lemma length_to_hex [simp]: "length (to_hex bs) = 2 * length bs"
  by (induction bs) simp_all

lemma blob_bytes_to_hex: "list_all (\<lambda>b. b < 256) bs \<Longrightarrow> blob_bytes i (to_hex bs) = Some (Inr bs)"
  by (induction bs arbitrary: i) (simp_all add: to_hex_boundary hex_byte_of)

text \<open>Printing a blob id and reading it back gives the same 32 bytes.
\<close>

lemma blob_id_roundtrip:
  assumes "length bs = 32" "list_all (\<lambda>b. b < 256) bs"
  shows "parse_blob_id (to_hex bs) = Some (Inr bs)"
  using assms by (simp add: parse_blob_id_def blob_bytes_to_hex)

lemma blob_id_roundtrip_witness:
  "parse_blob_id (to_hex (replicate 31 171 @ [7])) = Some (Inr (replicate 31 171 @ [7]))"
  by (rule blob_id_roundtrip) (simp_all add: list_all_iff)

lemma parse_to_hex: "length bs = 32 \<Longrightarrow> list_all (\<lambda>b. b < 256) bs \<Longrightarrow> parse_blob_id (to_hex bs) = Some (Inr bs)"
  by (simp add: parse_blob_id_def blob_bytes_to_hex)

lemma download_runs:
  assumes "authenticate_scoped (hv_oidc env) now auth SCOPE_MAIL (fst w) = (Inr a, d)"
  shows "download env now auth (a_id a) blob w =
    (case parse_blob_id blob of
       None \<Rightarrow> None
     | Some (Inl _) \<Rightarrow> Some (status_only 404, d, snd w)
     | Some (Inr bs) \<Rightarrow>
         (case jc_get_blob (hv_ctx env) (to_hex bs) of
            Inr raw \<Rightarrow> Some (\<lparr>status = 200, headers = [(''Content-Type'', ''application/octet-stream'')], resp_body = TextBody raw\<rparr>, d, snd w)
          | Inl (StBlobNotFound _) \<Rightarrow> Some (status_only 404, d, snd w)
          | Inl _ \<Rightarrow> Some (status_only 500, d, snd w)))"
  using assms by (simp add: download_def with_account_def)

text \<open>
  A download is not tied to the account: whoever is authenticated gets the bytes of any blob in the store under its
  id, also when the blob belongs to another account's message; that the account in the path is its own is the only check.
  (Uploads and messages of all accounts share one blob directory, keyed by the hash of the content.)
\<close>

lemma download_ignores_owner:
  assumes "authenticate_scoped (hv_oidc env) now auth SCOPE_MAIL (fst w) = (Inr a, d)"
    and "length bs = 32" "list_all (\<lambda>b. b < 256) bs" "jc_get_blob (hv_ctx env) (to_hex bs) = Inr raw"
  shows "download env now auth (a_id a) (to_hex bs) w =
    Some (\<lparr>status = 200, headers = [(''Content-Type'', ''application/octet-stream'')], resp_body = TextBody raw\<rparr>, d, snd w)"
  using assms by (simp add: download_runs parse_to_hex)

lemma demo_token: "\<exists>a d. authenticate_scoped (hv_oidc demo_http) 7 (Some ''Bearer msk_al'') SCOPE_MAIL (fst (demo_store, 0::nat)) = (Inr a, d) \<and> a_id a = ''al''"
proof -
  obtain r d where r: "authenticate_scoped (hv_oidc demo_http) 7 (Some ''Bearer msk_al'') SCOPE_MAIL demo_store = (r, d)" by (meson surj_pair)
  then show ?thesis using demo_auth by (cases r) auto
qed

lemma download_ignores_owner_witness:
  "map_option (resp_body \<circ> fst) (download demo_http 7 (Some ''Bearer msk_al'') ''al'' (to_hex (replicate 32 9)) (demo_store, 0)) =
     Some (TextBody (to_hex (replicate 32 9)))"
proof -
  obtain a d where a: "authenticate_scoped (hv_oidc demo_http) 7 (Some ''Bearer msk_al'') SCOPE_MAIL (fst (demo_store, 0::nat)) = (Inr a, d)"
    "a_id a = ''al''" using demo_token by blast
  have "download demo_http 7 (Some ''Bearer msk_al'') (a_id a) (to_hex (replicate 32 9)) (demo_store, 0) =
    Some (\<lparr>status = 200, headers = [(''Content-Type'', ''application/octet-stream'')], resp_body = TextBody (to_hex (replicate 32 9))\<rparr>, d, snd (demo_store, 0::nat))"
    by (rule download_ignores_owner[OF a(1)]) (simp_all add: demo_http_def demo_ctx_def list_all_iff)
  then show ?thesis using a(2) by simp
qed

text \<open>
  The request of an authenticated client can panic: a blob id of 64 bytes in which the third byte continues a
  character that the first pair of bytes begins, so that the parser slices inside a character.
\<close>

lemma download_panics:
  assumes "authenticate_scoped (hv_oidc env) now auth SCOPE_MAIL (fst w) = (Inr a, d)"
    and "length blob = 64" "byte_in 0x80 0xBF (blob ! 2)"
  shows "download env now auth (a_id a) blob w = None"
proof -
  obtain x y z rest where b: "blob = x # y # z # rest"
    using assms(2) by (cases blob; cases "tl blob"; cases "tl (tl blob)") auto
  then have "parse_blob_id blob = None" using assms(2,3) by (simp add: parse_blob_id_def char_boundary_def)
  then show ?thesis by (simp add: download_runs[OF assms(1)])
qed

lemma download_panics_witness:
  "download demo_http 7 (Some ''Bearer msk_al'') ''al'' (CHR ''a'' # CHR 0xC3 # CHR 0xA9 # replicate 61 (CHR ''a'')) (demo_store, 0) = None"
proof -
  obtain a d where a: "authenticate_scoped (hv_oidc demo_http) 7 (Some ''Bearer msk_al'') SCOPE_MAIL (fst (demo_store, 0::nat)) = (Inr a, d)"
    "a_id a = ''al''" using demo_token by blast
  have "byte_in 0x80 0xBF ((CHR ''a'' # CHR 0xC3 # CHR 0xA9 # replicate 61 (CHR ''a'')) ! 2)" by code_simp
  from download_panics[OF a(1) _ this] a(2) show ?thesis by simp
qed

section \<open>Answers of the setting methods\<close>

lemma set_each_fold:
  assumes "step_fold (\<lambda>(k, v) out. step_bind (step_try (f k v)) (\<lambda>r. step_return (record_entry bad good k r out))) es acc rnd w =
      (out :: (method_error, outcomes) outcome, w')"
  shows "case out of
      JDone (ok, no) \<Rightarrow> set (map fst ok) \<union> set (map fst no) = set (map fst (fst acc)) \<union> set (map fst (snd acc)) \<union> set (map fst es) \<and>
        (distinct (map fst es) \<and> set (map fst es) \<inter> (set (map fst (fst acc)) \<union> set (map fst (snd acc))) = {} \<and>
         set (map fst (fst acc)) \<inter> set (map fst (snd acc)) = {} \<longrightarrow> set (map fst ok) \<inter> set (map fst no) = {})
    | JFail e \<Rightarrow> False
    | JPanic p \<Rightarrow> \<exists>(k, v) \<in> set es. \<exists>w1 w2. f k v rnd w1 = (JPanic p, w2)"
proof -
  define g where "g = (\<lambda>(k, v) out. step_bind (step_try (f k v)) (\<lambda>r. step_return (record_entry bad good k r out)) :: (method_error, outcomes) step)"
  have g: "g (k, v) acc rnd w = (case f k v rnd w of (JPanic p, w1) \<Rightarrow> (JPanic p, w1)
      | (JDone a, w1) \<Rightarrow> (JDone (record_entry bad good k (Inr a) acc), w1) | (JFail m, w1) \<Rightarrow> (JDone (record_entry bad good k (Inl m) acc), w1))" for k v acc w
    by (auto simp: g_def step_bind_def step_try_def step_return_def split: prod.splits outcome.splits)
  have "step_fold g es acc rnd w = (out, w')" using assms unfolding g_def .
  then show ?thesis
  proof (induction es arbitrary: acc w)
    case Nil
    then show ?case by (cases acc) (auto simp: step_return_def)
  next
    case (Cons e es)
    obtain k v where e: "e = (k, v)" by (cases e)
    obtain o1 w1 where one: "f k v rnd w = (o1, w1)" by (meson surj_pair)
    note run = Cons.prems[unfolded e step_fold.simps step_bind_def g one prod.case]
    show ?case
    proof (cases o1)
      case (JPanic p)
      then have "out = JPanic p" using run by simp
      then show ?thesis using one JPanic e by (cases w; cases w1) auto
    next
      case (JDone a)
      with run have "step_fold g es (record_entry bad good k (Inr a) acc) rnd w1 = (out, w')" by simp
      from Cons.IH[OF this] show ?thesis
        by (cases out) (auto simp: e record_entry_def)
    next
      case (JFail m)
      with run have "step_fold g es (record_entry bad good k (Inl m) acc) rnd w1 = (out, w')" by simp
      from Cons.IH[OF this] show ?thesis
        by (cases out) (auto simp: e record_entry_def)
    qed
  qed
qed

text \<open>A \<open>/set\<close> method answers for every entry of its argument: each client id appears among the successes or among the
  failures, in not both, and nothing else appears. Entries never fail the method: it ends only with all of them done, or
  with the panic of one of them.
\<close>

lemma set_each_accounts_for_all:
  assumes "set_each good f es rnd w = (out, w')" "distinct (map fst es)"
  shows "(\<exists>ok no. out = JDone (ok, no) \<and> set (map fst ok) \<union> set (map fst no) = set (map fst es) \<and> set (map fst ok) \<inter> set (map fst no) = {}) \<or>
    (\<exists>p k v w1 w2. out = JPanic p \<and> (k, v) \<in> set es \<and> f k v rnd w1 = (JPanic p, w2))"
proof -
  note r = set_each_fold[OF assms(1)[unfolded set_each_def]]
  show ?thesis
  proof (cases out)
    case (JDone x)
    with r assms(2) show ?thesis by (cases x) auto
  next
    case (JFail e)
    with r show ?thesis by simp
  next
    case (JPanic p)
    with r obtain k v w1 w2 where "(k, v) \<in> set es" "f k v rnd w1 = (JPanic p, w2)" by auto
    with JPanic show ?thesis by blast
  qed
qed

lemma set_each_accounts_for_all_witness:
  "\<exists>ok no. fst (set_each id (\<lambda>_. apply_create demo_ctx ''al'') [(''a'', JNull), (''b'', JObj [])] (\<lambda>_. demo_random) (demo_store, 0)) = JDone (ok, no) \<and>
     set (map fst ok) \<union> set (map fst no) = {''a'', ''b''} \<and> set (map fst ok) \<inter> set (map fst no) = {}"
proof -
  let ?r = "set_each id (\<lambda>_. apply_create demo_ctx ''al'') [(''a'', JNull), (''b'', JObj [])] (\<lambda>_. demo_random) (demo_store, 0)"
  have "(case fst ?r of JPanic p \<Rightarrow> False | _ \<Rightarrow> True)" by code_simp
  then have "\<nexists>p. fst ?r = JPanic p" by (metis outcome.simps(12))
  moreover have "distinct (map fst [(''a'', JNull), (''b'', JObj [])])" by simp
  ultimately show ?thesis
    using set_each_accounts_for_all[of id "\<lambda>_. apply_create demo_ctx ''al''" "[(''a'', JNull), (''b'', JObj [])]" "\<lambda>_. demo_random" "(demo_store, 0)"
      "fst ?r" "snd ?r"] by auto
qed

lemma get_as_filter: "k \<noteq> k' \<Longrightarrow> get_as f (JObj (filter (\<lambda>kv. fst kv \<noteq> k') m)) k = get_as f (JObj m) k"
proof -
  assume "k \<noteq> k'"
  then have "map_of (filter (\<lambda>kv. fst kv \<noteq> k') m) k = map_of m k" by (induction m) auto
  then show ?thesis by (simp add: get_as_def)
qed

text \<open>
  \<open>SchedulingPage/set\<close> with something to destroy reports the error \<open>invalidArguments\<close> for the whole call, but only
  after it has made every creation and update the call asked for: the store ends as if the call had been made without
  \<open>destroy\<close> and had succeeded.
\<close>

lemma page_destroy_error:
  assumes "scheduling_page_set ctx (JObj (filter (\<lambda>kv. fst kv \<noteq> ''destroy'') m)) rnd w = (JDone r, w')"
    and "map_of m ''destroy'' = Some (JArr (x # xs))"
  shows "scheduling_page_set ctx (JObj m) rnd w = (JFail (InvalidArguments ''destroy is not supported; pause the page instead''), w')"
proof -
  let ?m = "filter (\<lambda>kv. fst kv \<noteq> ''destroy'') m"
  have same: "account_of_args ctx (JObj ?m) = account_of_args ctx (JObj m)" "entries (JObj ?m) ''create'' = entries (JObj m) ''create''"
    "entries (JObj ?m) ''update'' = entries (JObj m) ''update''"
    by (simp_all add: account_of_args_def entries_def get_as_filter)
  have "get_as as_array (JObj m) ''destroy'' = Some (x # xs)" using assms(2) by (simp add: get_as_def)
  with assms(1) show ?thesis unfolding scheduling_page_set_def same
    by (auto simp: step_bind_def step_fail_def step_return_def split: prod.splits outcome.splits if_splits)
qed

definition page_object :: json where
  "page_object = JObj [
     (''availability'', JObj [(''version'', JNum 1)]),
     (''calendarId'', JStr ''c''), (''slug'', JStr ''al-talk''), (''title'', JStr ''Talk'')]"

definition page_args :: "(string \<times> json) list" where
  "page_args = [(''accountId'', JStr ''al''), (''create'', JObj [(''k'', page_object)]), (''destroy'', JArr [JStr ''p''])]"

definition page_store :: db where
  "page_store = demo_store\<lparr>calendars := [\<lparr>cal_id = ''c'', cal_account_id = ''al'', cal_name = ''c'', cal_description = None,
     cal_created_at = 0, cal_updated_at = 0\<rparr>]\<rparr>"

definition page_new :: new_page where
  "page_new = \<lparr>np_slug = ''al-talk'', np_title = ''Talk'', np_description = None, np_calendar_id = ''c'', np_timezone = ''UTC'',
     np_availability = \<lparr>av_version = 1, av_weekly = [], av_overrides = []\<rparr>,
     np_durations_mins = [30], np_buffer_before_mins = 0, np_buffer_after_mins = 0, np_min_notice_mins = 0, np_max_per_day = None,
     np_valid_from = None, np_valid_until = None\<rparr>"

lemma page_parsed: "parse_create demo_ctx page_object = Inr page_new" by code_simp

lemma page_created:
  "create_scheduling_page (\<lambda>_. True) ''i'' 5 ''al'' page_new page_store =
     (Inr (page_of ''i'' 5 ''al'' page_new), page_store\<lparr>scheduling_pages := [page_of ''i'' 5 ''al'' page_new]\<rparr>)"
proof -
  have "\<not> bad_title (np_title page_new)" by (simp add: bad_title_def page_new_def)
  moreover have "validate_slug (np_slug page_new) = Inr ()" by code_simp
  moreover have "validate (np_availability page_new) = Inr ()" by (simp add: page_new_def validate_def)
  then have "validate_common (\<lambda>_. True) (np_timezone page_new) (np_availability page_new) (np_durations_mins page_new) (np_buffer_before_mins page_new)
       (np_buffer_after_mins page_new) (np_min_notice_mins page_new) (np_valid_from page_new) (np_valid_until page_new) = Inr ()"
    by (simp add: validate_common_def page_new_def some_list_def)
  ultimately show ?thesis
    by (simp add: create_scheduling_page_def db_call_def transaction_def create_page_tx_def owns_calendar_def page_store_def demo_store_def
        empty_db_def page_new_def has_account_def demo_account_def sql_insert_def)
qed

lemma page_demo:
  obtains r w' where "scheduling_page_set demo_ctx (JObj (filter (\<lambda>kv. fst kv \<noteq> ''destroy'') page_args)) (\<lambda>_. demo_random) (page_store, 0) = (JDone r, w')"
    "map pg_id (scheduling_pages (fst w')) = [''i'']"
proof -
  have one: "page_create demo_ctx ''al'' (''k'', page_object) ([], []) (\<lambda>_. demo_random) (page_store, 0) =
      (JDone ([(''k'', sched_page_json (jc_public_url demo_ctx) (page_of ''i'' 5 ''al'' page_new))], []),
       page_store\<lparr>scheduling_pages := [page_of ''i'' 5 ''al'' page_new]\<rparr>, Suc 0)"
  proof -
    have ctx: "jc_tz_known demo_ctx = (\<lambda>_. True)" "jr_id demo_random = ''i''" "jr_now demo_random = 5"
      by (simp_all add: demo_ctx_def demo_random_def)
    have "as_object page_object \<noteq> None" by (simp add: page_object_def)
    then show ?thesis
      by (auto simp: page_create_def page_entry_def step_bind_def step_try_def step_of_def step_return_def step_op_def page_parsed ctx page_created)
  qed
  have "entries (JObj (filter (\<lambda>kv. fst kv \<noteq> ''destroy'') page_args)) ''create'' = [(''k'', page_object)]"
    "entries (JObj (filter (\<lambda>kv. fst kv \<noteq> ''destroy'') page_args)) ''update'' = []"
    "account_of_args demo_ctx (JObj (filter (\<lambda>kv. fst kv \<noteq> ''destroy'') page_args)) = step_return ''al''"
    "get_as as_array (JObj (filter (\<lambda>kv. fst kv \<noteq> ''destroy'') page_args)) ''destroy'' = None"
    by (simp_all add: entries_def get_as_def page_args_def account_of_args_def check_account_def demo_ctx_def row_to_account_def demo_account_def)
  then have "\<exists>r. scheduling_page_set demo_ctx (JObj (filter (\<lambda>kv. fst kv \<noteq> ''destroy'') page_args)) (\<lambda>_. demo_random) (page_store, 0) =
      (JDone r, page_store\<lparr>scheduling_pages := [page_of ''i'' 5 ''al'' page_new]\<rparr>, Suc 0)"
    using one by (simp add: scheduling_page_set_def step_bind_def step_return_def)
  then show ?thesis using that by (auto simp: page_of_def)
qed

lemma page_destroy_error_witness:
  "\<exists>w'. scheduling_page_set demo_ctx (JObj page_args) (\<lambda>_. demo_random) (page_store, 0) =
       (JFail (InvalidArguments ''destroy is not supported; pause the page instead''), w') \<and> map pg_id (scheduling_pages (fst w')) = [''i'']"
proof -
  obtain r w' where run: "scheduling_page_set demo_ctx (JObj (filter (\<lambda>kv. fst kv \<noteq> ''destroy'') page_args)) (\<lambda>_. demo_random) (page_store, 0) = (JDone r, w')"
    "map pg_id (scheduling_pages (fst w')) = [''i'']" by (rule page_demo)
  have "map_of page_args ''destroy'' = Some (JArr [JStr ''p''])" by (simp add: page_args_def)
  from page_destroy_error[OF run(1) this] run(2) show ?thesis by (intro exI[of _ w']) simp
qed

section \<open>Sharing after a failure\<close>

lemma taken_share_fails:
  assumes taken: "(cal_id cal, invitee) \<in> target_key ` set (calendar_federation (fst w2))"
  shows "share_remotely fc2 ctx2 cal invitee dn2 ty2 rnd2 w2 \<noteq> (JDone r, w3)"
proof
  assume done2: "share_remotely fc2 ctx2 cal invitee dn2 ty2 rnd2 w2 = (JDone r, w3)"
  obtain cl wa peer wb x wc where a: "step_op (\<lambda>e. ServerFail (fc_show_pgp fc2 e)) (\<lambda>r. build_client (fc_env fc2) (jr_now r) (jr_entropy r)) rnd2 w2 = (JDone cl, wa)"
    and b: "step_net (\<lambda>e. ServerFail (fc_show_discovery fc2 e)) (\<lambda>r. discover_and_pin (fc_env fc2) (fc_codec fc2) (fc_net fc2) (jr_now r) dn2) rnd2 wa = (JDone peer, wb)"
    and c: "step_op (cal_error ctx2) (\<lambda>r. create_outbound_federation (jr_id r) (jr_secret r) (jr_now r) (cal_id cal) invitee
                   (pr_server_url peer) (requested_type ty2) (pr_domain peer) (pr_fingerprint peer)) rnd2 wb = (JDone x, wc)"
    using done2 unfolding share_remotely_def by (elim step_bind_done[THEN exE] exE conjE) (erule (2) that)
  have "calendar_federation (fst wb) = calendar_federation (fst w2)"
    using feds_same.step_obeysD[OF share_prefix(1) a] feds_same.step_obeysD[OF share_prefix(2) b] by simp
  moreover obtain y d where "create_outbound_federation (jr_id (rnd2 (snd wb))) (jr_secret (rnd2 (snd wb))) (jr_now (rnd2 (snd wb))) (cal_id cal) invitee
      (pr_server_url peer) (requested_type ty2) (pr_domain peer) (pr_fingerprint peer) (fst wb) = (Inr y, d)"
    using c unfolding step_op_def by (auto split: prod.splits sum.splits)
  ultimately show False using outbound_keyed(2) taken by fastforce
qed

text \<open>C35. A remote share whose invitation the peer did not take can never be repaired by sharing again. If the call fails
  although it wrote to the table of federations, what it leaves behind is exactly one new record, of this calendar and this
  address, outbound and already marked as accepted; and as long as that record is there, whatever the client, the clock and
  the network do later, sharing the same calendar with the same address does not succeed.
\<close>

theorem failed_share_blocks_retry:
  assumes "share_remotely fc ctx cal invitee dn ty rnd w = (JFail e, w')"
    and "calendar_federation (fst w') \<noteq> calendar_federation (fst w)"
  shows "\<exists>row. calendar_federation (fst w') = calendar_federation (fst w) @ [row] \<and> fd_calendar_id row = cal_id cal \<and>
    fd_target_email row = invitee \<and> fd_status row = ''accepted'' \<and> fd_direction row = Some ''outbound'' \<and>
    (\<forall>(fc2 :: 'd fed_ctx) ctx2 dn2 ty2 rnd2 w2 r w3. row \<in> set (calendar_federation (fst w2)) \<longrightarrow>
       share_remotely fc2 ctx2 cal invitee dn2 ty2 rnd2 w2 \<noteq> (JDone r, w3))"
proof -
  obtain row where row: "calendar_federation (fst w') = calendar_federation (fst w) @ [row]" "target_key row = (cal_id cal, invitee)"
      "fd_status row = ''accepted''" "fd_direction row = Some ''outbound''"
    using feds_keyed.step_obeysD[OF share_remotely_keyed assms(1)] assms(2) by (auto simp: adds_share_def)
  have "share_remotely fc2 ctx2 cal invitee dn2 ty2 rnd2 w2 \<noteq> (JDone r, w3)" if "row \<in> set (calendar_federation (fst w2))"
    for fc2 :: "'d fed_ctx" and ctx2 dn2 ty2 rnd2 w2 r w3
    by (rule taken_share_fails) (use that row(2) in force)
  with row show ?thesis unfolding target_key_def by blast
qed

definition refusing_fed :: "string fed_ctx" where
  "refusing_fed = demo_fed_ctx\<lparr>fc_net := (\<lambda>rq n. (Inr \<lparr>rs_status = (if rq_method rq = ''GET'' then 200 else 500), rs_body = ''ka''\<rparr>, Suc n))\<rparr>"

definition shared_calendar_row :: calendar_row where
  "shared_calendar_row = \<lparr>cal_id = ''c'', cal_account_id = ''al'', cal_name = ''c'', cal_description = None, cal_created_at = 0, cal_updated_at = 0\<rparr>"

lemma refused_once:
  "(case share_remotely refusing_fed demo_ctx shared_calendar_row ''p@a.test'' ''a.test'' ''sharing'' (\<lambda>_. demo_random) (page_store, 0) of
     (JFail e, w) \<Rightarrow> map fd_status (calendar_federation (fst w)) = [''accepted''] | _ \<Rightarrow> False)"
  by code_simp

theorem failed_share_blocks_retry_witness:
  "\<exists>e w' row. share_remotely refusing_fed demo_ctx shared_calendar_row ''p@a.test'' ''a.test'' ''sharing'' (\<lambda>_. demo_random) (page_store, 0) = (JFail e, w') \<and>
     calendar_federation (fst w') = [row] \<and> fd_status row = ''accepted'' \<and>
     (\<forall>fc ctx dn ty rnd r w3. share_remotely (fc :: string fed_ctx) ctx shared_calendar_row ''p@a.test'' dn ty rnd w' \<noteq> (JDone r, w3))"
proof -
  obtain out w' where run: "share_remotely refusing_fed demo_ctx shared_calendar_row ''p@a.test'' ''a.test'' ''sharing'' (\<lambda>_. demo_random) (page_store, 0) = (out, w')"
    by (meson surj_pair)
  with refused_once obtain e where e: "out = JFail e" "map fd_status (calendar_federation (fst w')) = [''accepted'']"
    by (cases out) auto
  have none: "calendar_federation (fst (page_store, 0::nat)) = []" by (simp add: page_store_def demo_store_def empty_db_def)
  with e(2) have "calendar_federation (fst w') \<noteq> calendar_federation (fst (page_store, 0::nat))" by auto
  from failed_share_blocks_retry[OF run[unfolded e(1)] this] none obtain row where row: "calendar_federation (fst w') = [row]"
      "fd_status row = ''accepted''"
      "\<forall>(fc2 :: string fed_ctx) ctx2 dn2 ty2 rnd2 w2 r w3. row \<in> set (calendar_federation (fst w2)) \<longrightarrow>
         share_remotely fc2 ctx2 shared_calendar_row ''p@a.test'' dn2 ty2 rnd2 w2 \<noteq> (JDone r, w3)" by auto
  have "row \<in> set (calendar_federation (fst w'))" by (simp add: row(1))
  with row(3) have "\<forall>fc ctx dn ty rnd r w3. share_remotely (fc :: string fed_ctx) ctx shared_calendar_row ''p@a.test'' dn ty rnd w' \<noteq> (JDone r, w3)"
    by blast
  with run[unfolded e(1)] row(1,2) show ?thesis by blast
qed

end
