(* ===== verification/Jmap_Answers.thy ===== *)
theory Jmap_Answers
  imports Jmap_Props
begin

text \<open>
  What the \<open>/set\<close> methods answer (RFC 8620, section 5.3): every entry of the request is accounted for once, as done, with the
  id of what was created, or as failed, with an error object.
\<close>

section \<open>What a step yields\<close>












section \<open>Entries accounted for\<close>

text \<open>The keys are those of the request; each is among the good ones, whose values satisfy \<open>P\<close>, or among the failed ones, whose
  values are error objects, and none is in both.\<close>

definition error_object :: "json \<Rightarrow> bool" where
  "error_object v \<longleftrightarrow> json_get v ''type'' = Some (JStr ''invalidProperties'') \<and> (\<exists>s. json_get v ''description'' = Some (JStr s))"





lemma json_get_obj: "json_get (json_obj kvs) k = map_of (rev kvs) k"
proof -
  have "bt_wf m \<Longrightarrow> map_of (fold (\<lambda>(k, v) m. bt_insert k v m) kvs m) k = (case map_of (rev kvs) k of Some v \<Rightarrow> Some v | None \<Rightarrow> map_of m k)" for m
    by (induction kvs arbitrary: m) (auto simp: bt_wf_insert bt_lookup_insert map_add_def split: option.splits)
  from this[of "[]"] show ?thesis by (simp add: json_obj_def split: option.splits)
qed

lemma error_invalid [simp]: "error_object (invalid_properties m)"
  by (simp add: error_object_def invalid_properties_def json_get_obj)








section \<open>The keys of the entries\<close>














end
