(* ===== verification/Recovery.thy ===== *)
theory Recovery
  imports Prelude Json
begin

text \<open>
  \<open>crates/owney-authn-v2/src/recovery.rs\<close>, \<open>approval.rs\<close>, \<open>qr.rs\<close> and \<open>lib.rs\<close>: recovery codes, approval
  requests between devices and pairing codes, as values in memory. Random draws, new ids and clock readings (in seconds)
  are arguments; SHA-256 in hexadecimal, Unicode upper-casing, dates and the QR encoder are parameters.
\<close>

section \<open>Definitions\<close>

datatype auth_error = InvalidCredentialId | AuWebAuthn string | ChallengeMismatch | CounterRollback | CredentialNotFound
  | CredentialDisabled | InvalidRecoveryCode | RecoveryCodeUsed | NoRecoveryCodes | InvalidApprovalRequest
  | ApprovalRequestExpired | ApprovalAlreadyProcessed | TooManyPendingApprovals | DeviceNotPaired | InvalidPairingCode
  | PairingCodeExpired | NoPasskeysEnrolled | AuDatabase string | AuConfig string | AuUnauthorized | AuInternal string

record auth_config =
  rp_id :: string
  rp_name :: string
  origins :: "string list"
  recovery_code_count :: nat
  approval_request_ttl :: nat
  max_pending_approvals :: nat
  cross_device_approval_enabled :: bool
  magic_link_enabled :: bool
  magic_link_ttl :: nat

definition new_auth_config :: "string \<Rightarrow> string list \<Rightarrow> auth_config" where
  "new_auth_config rp orgs = \<lparr>rp_id = rp, rp_name = ''Owney Mailserver'', origins = orgs, recovery_code_count = 10,
     approval_request_ttl = 300, max_pending_approvals = 5, cross_device_approval_enabled = True,
     magic_link_enabled = True, magic_link_ttl = 900\<rparr>"

definition CHARSET :: string where "CHARSET = ''ABCDEFGHIJKLMNOPQRSTUVWXYZ0123456789''"

subsection \<open>Recovery codes\<close>

record recovery_code =
  rv_id :: string
  rv_account_id :: string
  rv_code_hash :: string
  rv_display_code :: string
  rv_used :: bool
  rv_used_at :: "int option"
  rv_created_at :: int

text \<open>The environment: \<open>to_uppercase\<close>, the hexadecimal SHA-256, \<open>to_rfc3339\<close>.\<close>

record code_env =
  ce_upper :: "string \<Rightarrow> string"
  ce_sha256 :: "string \<Rightarrow> string"
  ce_rfc3339 :: "int \<Rightarrow> string"

definition no_dashes :: "string \<Rightarrow> string" where
  "no_dashes s = filter (\<lambda>c. c \<noteq> CHR ''-'') s"

definition normalize_code :: "code_env \<Rightarrow> string \<Rightarrow> string" where
  "normalize_code env code = no_dashes (ce_upper env code)"

definition hash_code :: "code_env \<Rightarrow> string \<Rightarrow> string" where
  "hash_code env code = ce_sha256 env code"

text \<open>One draw: twelve indices below 36, the new id and the clock.\<close>

record code_draw =
  cd_indices :: "nat list"
  cd_id :: string
  cd_now :: int

definition draw_ok :: "code_draw \<Rightarrow> bool" where
  "draw_ok x \<longleftrightarrow> length (cd_indices x) = 12 \<and> list_all (\<lambda>i. i < length CHARSET) (cd_indices x)"

definition raw_code :: "code_draw \<Rightarrow> string" where
  "raw_code x = map (\<lambda>i. CHARSET ! i) (cd_indices x)"

definition plain_code :: "code_draw \<Rightarrow> string" where
  "plain_code x = (let raw = raw_code x in take 4 raw @ ''-'' @ take 4 (drop 4 raw) @ ''-'' @ take 4 (drop 8 raw))"

definition stored_code :: "code_env \<Rightarrow> string \<Rightarrow> code_draw \<Rightarrow> recovery_code" where
  "stored_code env acct x = \<lparr>rv_id = cd_id x, rv_account_id = acct, rv_code_hash = hash_code env (normalize_code env (plain_code x)),
     rv_display_code = take 2 (raw_code x) @ ''****-****-****'', rv_used = False, rv_used_at = None, rv_created_at = cd_now x\<rparr>"

record recovery_code_set =
  rs_codes :: "recovery_code list"
  rs_generated_at :: int

definition generate_codes :: "code_env \<Rightarrow> int \<Rightarrow> string \<Rightarrow> code_draw list \<Rightarrow> recovery_code_set \<times> string list" where
  "generate_codes env now acct draws =
     (\<lparr>rs_codes = map (stored_code env acct) draws, rs_generated_at = now\<rparr>, map plain_code draws)"

text \<open>The first code with the hash is marked.\<close>

fun use_code :: "int \<Rightarrow> string \<Rightarrow> recovery_code list \<Rightarrow> (auth_error, unit) result \<times> recovery_code list" where
  "use_code now h [] = (Inl InvalidRecoveryCode, [])"
| "use_code now h (c # cs) =
     (if rv_code_hash c = h
      then if rv_used c then (Inl RecoveryCodeUsed, c # cs)
           else (Inr (), c\<lparr>rv_used := True, rv_used_at := Some now\<rparr> # cs)
      else map_prod id (Cons c) (use_code now h cs))"

definition verify_and_use :: "code_env \<Rightarrow> int \<Rightarrow> string \<Rightarrow> recovery_code list \<Rightarrow> (auth_error, unit) result \<times> recovery_code list" where
  "verify_and_use env now code_str codes = use_code now (hash_code env (normalize_code env code_str)) codes"

definition count_remaining :: "recovery_code list \<Rightarrow> nat" where
  "count_remaining codes = length (filter (\<lambda>c. \<not> rv_used c) codes)"

definition code_line :: "nat \<times> string \<Rightarrow> string" where
  "code_line ic = ''Code '' @ show_nat (fst ic + 1) @ '': '' @ snd ic @ [LF]"

definition export_for_printing :: "code_env \<Rightarrow> int \<Rightarrow> string list \<Rightarrow> string" where
  "export_for_printing env now plaintext_codes =
     (let header_line = replicate 50 (CHR ''='')
      in ''RECOVERY CODES'' @ [LF] @ header_line @ [LF] @ ''Store these codes in a safe place. Each code can be used once to recover '' @
         ''your account if you lose access to your passkeys.'' @ [LF, LF] @
         concat (map code_line (zip [0..<length plaintext_codes] plaintext_codes)) @
         [LF] @ header_line @ [LF] @ ''Generated: '' @ ce_rfc3339 env now @ [LF])"

subsection \<open>Approval requests\<close>

datatype approval_type = WebLogin | DesktopLogin | AppLogin | DeviceEnrollment

datatype approval_status = ApPending | ApApproved | ApDenied | ApExpired

record approval_request =
  av_id :: string
  av_account_id :: string
  av_source_device :: string
  av_request_type :: approval_type
  av_challenge :: string
  av_created_at :: int
  av_expires_at :: int
  av_status :: approval_status
  av_approved_by :: "string option"
  av_approved_at :: "int option"

text \<open>\<open>Duration::seconds\<close> and the addition to a \<open>DateTime\<close> panic outside their ranges: \<open>None\<close>.\<close>

definition MAX_SECONDS :: int where "MAX_SECONDS = 9223372036854775"
definition MIN_UTC :: int where "MIN_UTC = - 8334601228800"
definition MAX_UTC :: int where "MAX_UTC = 8210266876799"

definition plus_seconds :: "int \<Rightarrow> nat \<Rightarrow> int option" where
  "plus_seconds now ttl =
     (let s = as_i64 ttl
      in if \<bar>s\<bar> > MAX_SECONDS \<or> now + s < MIN_UTC \<or> now + s > MAX_UTC then None else Some (now + s))"

definition create_request :: "int \<Rightarrow> string \<Rightarrow> string \<Rightarrow> string \<Rightarrow> string \<Rightarrow> approval_type \<Rightarrow> nat \<Rightarrow> approval_request option" where
  "create_request now new_id challenge acct source ty ttl = map_option (\<lambda>expires.
     \<lparr>av_id = new_id, av_account_id = acct, av_source_device = source, av_request_type = ty, av_challenge = challenge,
      av_created_at = now, av_expires_at = expires, av_status = ApPending, av_approved_by = None, av_approved_at = None\<rparr>)
     (plus_seconds now ttl)"

definition approve_request :: "int \<Rightarrow> string \<Rightarrow> approval_request \<Rightarrow> (auth_error, unit) result \<times> approval_request" where
  "approve_request now device r =
     (if av_status r \<noteq> ApPending then (Inl ApprovalAlreadyProcessed, r)
      else if now > av_expires_at r then (Inl ApprovalRequestExpired, r\<lparr>av_status := ApExpired\<rparr>)
      else (Inr (), r\<lparr>av_status := ApApproved, av_approved_by := Some device, av_approved_at := Some now\<rparr>))"

definition deny_request :: "approval_request \<Rightarrow> (auth_error, unit) result \<times> approval_request" where
  "deny_request r =
     (if av_status r \<noteq> ApPending then (Inl ApprovalAlreadyProcessed, r) else (Inr (), r\<lparr>av_status := ApDenied\<rparr>))"

definition request_valid :: "int \<Rightarrow> approval_request \<Rightarrow> bool" where
  "request_valid now r \<longleftrightarrow> av_status r = ApPending \<and> now \<le> av_expires_at r"

definition describe_request :: "approval_request \<Rightarrow> string" where
  "describe_request r =
     (case av_request_type r of WebLogin \<Rightarrow> ''Web login'' | DesktopLogin \<Rightarrow> ''Desktop login'' | AppLogin \<Rightarrow> ''App login''
        | DeviceEnrollment \<Rightarrow> ''Enroll new device'') @ '' from '' @ av_source_device r @ [LF] @ ''(Valid for 5 minutes)''"

subsection \<open>Pairing codes\<close>

record qr_pairing =
  qr_code :: string
  qr_public_key :: string
  qr_created_at :: int
  qr_expires_at :: int
  qr_server_url :: string
  qr_used :: bool

definition pairing_chars :: "nat list \<Rightarrow> string" where
  "pairing_chars indices = map (\<lambda>i. CHARSET ! i) indices"

definition qr_generate :: "int \<Rightarrow> nat list \<Rightarrow> string \<Rightarrow> string \<Rightarrow> nat \<Rightarrow> qr_pairing option" where
  "qr_generate now indices url key ttl = map_option (\<lambda>expires.
     \<lparr>qr_code = pairing_chars indices, qr_public_key = key, qr_created_at = now, qr_expires_at = expires, qr_server_url = url, qr_used = False\<rparr>)
     (plus_seconds now ttl)"

definition qr_valid :: "int \<Rightarrow> qr_pairing \<Rightarrow> bool" where
  "qr_valid now q \<longleftrightarrow> \<not> qr_used q \<and> now \<le> qr_expires_at q"

definition mark_used :: "qr_pairing \<Rightarrow> qr_pairing" where
  "mark_used q = q\<lparr>qr_used := True\<rparr>"

text \<open>The serialized payload, with an empty signature; the encoder and the renderer are one parameter.\<close>

definition qr_payload :: "qr_pairing \<Rightarrow> json" where
  "qr_payload q = JObj [(''pairing_code'', JStr (qr_code q)), (''server_url'', JStr (qr_server_url q)),
     (''expires_at'', JNum (qr_expires_at q)), (''signature'', JStr [])]"

definition to_qr :: "(json \<Rightarrow> (string, string) result) \<Rightarrow> qr_pairing \<Rightarrow> (auth_error, string) result" where
  "to_qr render q = (case render (qr_payload q) of
     Inr s \<Rightarrow> Inr s
   | Inl e \<Rightarrow> Inl (AuInternal (''QR generation failed: '' @ e)))"

section \<open>Lemmas\<close>

definition ascii :: "string \<Rightarrow> bool" where
  "ascii s \<longleftrightarrow> list_all (\<lambda>c. (of_char c :: nat) < 128) s"

lemma charset_char: "list_all (\<lambda>c. upper_char c = c \<and> (of_char c :: nat) < 128 \<and> c \<noteq> CHR ''-'') CHARSET"
  by (simp add: CHARSET_def upper_char_def)

lemma raw_chars: "draw_ok x \<Longrightarrow> c \<in> set (raw_code x) \<Longrightarrow> upper_char c = c \<and> (of_char c :: nat) < 128 \<and> c \<noteq> CHR ''-''"
proof -
  assume "draw_ok x" "c \<in> set (raw_code x)"
  then obtain i where "i < length CHARSET" "c = CHARSET ! i" by (auto simp: draw_ok_def raw_code_def list_all_iff)
  then have "c \<in> set CHARSET" by simp
  with charset_char show ?thesis unfolding list_all_iff by blast
qed

lemma plain_chars: "c \<in> set (plain_code x) \<Longrightarrow> c = CHR ''-'' \<or> c \<in> set (raw_code x)"
  by (auto simp: plain_code_def Let_def dest: in_set_takeD in_set_dropD)

lemma plain_upper: "draw_ok x \<Longrightarrow> to_uppercase (plain_code x) = plain_code x"
proof -
  assume ok: "draw_ok x"
  have dash: "upper_char (CHR ''-'') = CHR ''-''" by (simp add: upper_char_def)
  have "upper_char c = c" if "c \<in> set (plain_code x)" for c
    using plain_chars[OF that] raw_chars[OF ok] dash by auto
  then show ?thesis by (simp add: to_uppercase_def map_idI)
qed

lemma plain_ascii: "draw_ok x \<Longrightarrow> ascii (plain_code x)"
  using raw_chars plain_chars by (fastforce simp: ascii_def list_all_iff)

lemma no_dashes_plain: "draw_ok x \<Longrightarrow> no_dashes (plain_code x) = raw_code x"
proof -
  assume ok: "draw_ok x"
  have keep: "no_dashes (take n (drop m (raw_code x))) = take n (drop m (raw_code x))" for n m
    using raw_chars[OF ok] by (auto simp: no_dashes_def filter_id_conv dest!: in_set_takeD in_set_dropD)
  have len: "length (raw_code x) = 12" using ok by (simp add: draw_ok_def raw_code_def)
  have "no_dashes (plain_code x) = take 4 (raw_code x) @ take 4 (drop 4 (raw_code x)) @ take 4 (drop 8 (raw_code x))"
    using keep[of 4 0] keep[of 4 4] keep[of 4 8] by (simp add: plain_code_def Let_def no_dashes_def)
  also have "take 4 (drop 8 (raw_code x)) = drop 8 (raw_code x)" using len by simp
  also have "take 4 (drop 4 (raw_code x)) @ drop 8 (raw_code x) = drop 4 (raw_code x)"
    using append_take_drop_id[of 4 "drop 4 (raw_code x)"] by simp
  also have "take 4 (raw_code x) @ drop 4 (raw_code x) = raw_code x" by simp
  finally show ?thesis .
qed

text \<open>A code none of whose copies is used can be used once.\<close>

lemma use_code_once:
  "list_all (\<lambda>c. rv_code_hash c = h \<longrightarrow> \<not> rv_used c) cs \<Longrightarrow> h \<in> rv_code_hash ` set cs \<Longrightarrow>
   \<exists>cs'. use_code t1 h cs = (Inr (), cs') \<and> use_code t2 h cs' = (Inl RecoveryCodeUsed, cs') \<and>
     Suc (count_remaining cs') = count_remaining cs \<and> (\<forall>h'. h' \<noteq> h \<longrightarrow> filter (\<lambda>c. rv_code_hash c = h') cs' = filter (\<lambda>c. rv_code_hash c = h') cs)"
proof (induction cs)
  case (Cons c cs)
  show ?case
  proof (cases "rv_code_hash c = h")
    case True
    with Cons.prems show ?thesis by (auto simp: count_remaining_def)
  next
    case False
    with Cons obtain cs' where "use_code t1 h cs = (Inr (), cs')" "use_code t2 h cs' = (Inl RecoveryCodeUsed, cs')"
      "Suc (count_remaining cs') = count_remaining cs" "\<forall>h'. h' \<noteq> h \<longrightarrow> filter (\<lambda>c. rv_code_hash c = h') cs' = filter (\<lambda>c. rv_code_hash c = h') cs"
      by auto
    with False show ?thesis by (auto simp: count_remaining_def)
  qed
qed simp

text \<open>C40. Recovery codes work, once. Take any set of freshly generated codes and one of them as it was shown to the user.
  Typed back, in any letter case and with the dashes anywhere or nowhere, it is accepted and leaves one unused code fewer;
  typed again in any of these ways it is refused as used. This holds whatever the hash function is.\<close>

theorem recovery_code_works_once:
  assumes "\<And>s. ascii s \<Longrightarrow> ce_upper env s = to_uppercase s"
    and "list_all draw_ok draws" "generate_codes env now acct draws = (cset, plain)" "i < length plain"
    and "ascii typed" "no_dashes (to_uppercase typed) = no_dashes (plain ! i)"
    and "ascii again" "no_dashes (to_uppercase again) = no_dashes (plain ! i)"
  shows "\<exists>codes. verify_and_use env t1 typed (rs_codes cset) = (Inr (), codes) \<and>
    verify_and_use env t2 again codes = (Inl RecoveryCodeUsed, codes) \<and> Suc (count_remaining codes) = count_remaining (rs_codes cset)"
proof -
  let ?x = "draws ! i" and ?h = "ce_sha256 env (no_dashes (plain ! i))"
  from assms(2,3,4) have x: "draw_ok ?x" "plain ! i = plain_code ?x" "?x \<in> set draws"
    by (auto simp: generate_codes_def list_all_iff)
  have "rv_code_hash (stored_code env acct ?x) = ?h"
    using assms(1)[OF plain_ascii[OF x(1)]] plain_upper[OF x(1)] x(2)
    by (simp add: stored_code_def hash_code_def normalize_code_def)
  moreover have "rs_codes cset = map (stored_code env acct) draws" using assms(3) by (auto simp: generate_codes_def)
  ultimately have "?h \<in> rv_code_hash ` set (rs_codes cset)" "list_all (\<lambda>c. rv_code_hash c = ?h \<longrightarrow> \<not> rv_used c) (rs_codes cset)"
    using x(3) by (force, simp add: list_all_iff stored_code_def)
  from use_code_once[OF this(2,1), of t1 t2] show ?thesis
    using assms(1)[OF assms(5)] assms(1)[OF assms(7)] assms(6,8) by (auto simp: verify_and_use_def hash_code_def normalize_code_def)
qed

definition plain_env :: code_env where
  "plain_env = \<lparr>ce_upper = to_uppercase, ce_sha256 = id, ce_rfc3339 = show_int\<rparr>"

theorem recovery_code_works_once_witness:
  "\<exists>codes. verify_and_use plain_env 5 ''bcd-efghijklm'' (rs_codes (fst (generate_codes plain_env 1 ''al''
       [\<lparr>cd_indices = [0..<12], cd_id = ''1'', cd_now = 1\<rparr>, \<lparr>cd_indices = [1..<13], cd_id = ''2'', cd_now = 1\<rparr>]))) = (Inr (), codes) \<and>
     verify_and_use plain_env 6 ''BCDE-FGHI-JKLM'' codes = (Inl RecoveryCodeUsed, codes) \<and> count_remaining codes = 1"
proof -
  let ?draws = "[\<lparr>cd_indices = [0..<12], cd_id = ''1'', cd_now = 1\<rparr>, \<lparr>cd_indices = [1..<13], cd_id = ''2'', cd_now = 1\<rparr>]"
  have e: "list_all draw_ok ?draws" "ascii ''bcd-efghijklm''" "ascii ''BCDE-FGHI-JKLM''"
    "no_dashes (to_uppercase ''bcd-efghijklm'') = no_dashes (map plain_code ?draws ! 1)"
    "no_dashes (to_uppercase ''BCDE-FGHI-JKLM'') = no_dashes (map plain_code ?draws ! 1)"
    by code_simp+
  have "\<exists>codes. verify_and_use plain_env 5 ''bcd-efghijklm'' (rs_codes (fst (generate_codes plain_env 1 ''al'' ?draws))) = (Inr (), codes) \<and>
     verify_and_use plain_env 6 ''BCDE-FGHI-JKLM'' codes = (Inl RecoveryCodeUsed, codes) \<and>
     Suc (count_remaining codes) = count_remaining (rs_codes (fst (generate_codes plain_env 1 ''al'' ?draws)))"
    by (rule recovery_code_works_once[where plain = "snd (generate_codes plain_env 1 ''al'' ?draws)" and i = 1 and draws = ?draws, OF _ e(1)])
      (use e in \<open>simp_all add: plain_env_def generate_codes_def\<close>)
  moreover have "count_remaining (rs_codes (fst (generate_codes plain_env 1 ''al'' ?draws))) = 2"
    by (simp add: count_remaining_def generate_codes_def stored_code_def)
  ultimately show ?thesis by auto
qed

text \<open>Approvals: a request is settled once, and only a live one is approved.\<close>

lemma approval_once:
  assumes "approve_request now device r = (Inr (), r')"
  shows "request_valid now r" "av_status r' = ApApproved" "av_approved_by r' = Some device"
    "approve_request now' device' r' = (Inl ApprovalAlreadyProcessed, r')" "deny_request r' = (Inl ApprovalAlreadyProcessed, r')"
  using assms by (auto simp: approve_request_def deny_request_def request_valid_def split: if_splits)

lemma pairing_once: "\<not> qr_valid now (mark_used q)"
  by (simp add: qr_valid_def mark_used_def)

end
