(* ===== verification/Auth_Api.thy ===== *)
theory Auth_Api
  imports Recovery Oidc_Authorize
begin

text \<open>
  \<open>crates/owney-api/src/auth.rs\<close>: the REST handlers for passkeys, recovery codes, cross-device approval and pairing.
  The source says of them that they must not be mounted, and why; \<open>Auth_Props\<close> shows what they do and do not do. One
  request reads the clock once, in seconds; random values and new ids are arguments; the WebAuthn library, SHA-256 and
  Unicode case mapping are parameters. What the challenge store holds is the value that was serialized.
\<close>

section \<open>Definitions\<close>

subsection \<open>Errors\<close>

fun error_parts :: "auth_error \<Rightarrow> nat \<times> string \<times> string" where
  "error_parts InvalidCredentialId = (400, ''invalid_credential_id'', ''Invalid credential format'')"
| "error_parts (AuWebAuthn _) = (400, ''webauthn_error'', ''WebAuthn operation failed'')"
| "error_parts ChallengeMismatch = (400, ''challenge_mismatch'', ''Challenge does not match'')"
| "error_parts CounterRollback = (401, ''counter_rollback'', ''Possible credential cloning detected'')"
| "error_parts CredentialNotFound = (404, ''credential_not_found'', ''Passkey not found'')"
| "error_parts InvalidRecoveryCode = (400, ''invalid_recovery_code'', ''Recovery code is invalid'')"
| "error_parts RecoveryCodeUsed = (400, ''recovery_code_used'', ''Recovery code has already been used'')"
| "error_parts ApprovalRequestExpired = (410, ''approval_expired'', ''Approval request has expired'')"
| "error_parts TooManyPendingApprovals = (429, ''too_many_pending'', ''Too many pending approval requests'')"
| "error_parts AuUnauthorized = (401, ''unauthorized'', ''Not authorized for this operation'')"
| "error_parts _ = (500, ''internal_error'', ''An error occurred'')"

definition auth_error_response :: "auth_error \<Rightarrow> response" where
  "auth_error_response e = (case error_parts e of (st, code, message) \<Rightarrow>
     \<lparr>status = st, headers = [], resp_body = JsonBody (json_obj [(''error'', JStr message), (''code'', JStr code), (''details'', JNull)])\<rparr>)"

subsection \<open>State\<close>

text \<open>A parked value, by what was serialized; the bytes of one do not decode as another.\<close>

datatype 'p parked = ParkedRegistration string 'p | ParkedAuthentication 'p | ParkedCode string

record 'p auth_state =
  as_challenges :: "'p parked challenge_store"
  as_tokens :: session_tokens
  as_db :: db

record 'p auth_env =
  ae_wa :: "'p webauthn"
  ae_lower :: "string \<Rightarrow> string"
  ae_upper :: "string \<Rightarrow> string"
  ae_sha256 :: "string \<Rightarrow> string"

type_synonym ('p, 'a) auth_op = "'p auth_state \<Rightarrow> (auth_error, 'a) result \<times> 'p auth_state"

definition auth_fail :: "auth_error \<Rightarrow> ('p, 'a) auth_op" where
  "auth_fail e st = (Inl e, st)"

definition auth_return :: "'a \<Rightarrow> ('p, 'a) auth_op" where
  "auth_return a st = (Inr a, st)"

definition auth_bind :: "('p, 'a) auth_op \<Rightarrow> ('a \<Rightarrow> ('p, 'b) auth_op) \<Rightarrow> ('p, 'b) auth_op" where
  "auth_bind m f st = (case m st of (Inr a, st') \<Rightarrow> f a st' | (Inl e, st') \<Rightarrow> (Inl e, st'))"

definition auth_of :: "(auth_error, 'a) result \<Rightarrow> ('p, 'a) auth_op" where
  "auth_of r st = (r, st)"

text \<open>A call on the database, on the challenges and on the session tokens, with the mapping of its error.\<close>

definition auth_db :: "(storage_error \<Rightarrow> auth_error) \<Rightarrow> 'a op \<Rightarrow> ('p, 'a) auth_op" where
  "auth_db err f st = (case f (as_db st) of (r, d) \<Rightarrow> (map_sum err id r, st\<lparr>as_db := d\<rparr>))"

definition auth_challenges :: "(string \<Rightarrow> auth_error) \<Rightarrow> ('p parked challenge_store \<Rightarrow> (string, 'a) result \<times> 'p parked challenge_store) \<Rightarrow>
    ('p, 'a) auth_op" where
  "auth_challenges err f st = (case f (as_challenges st) of (r, s) \<Rightarrow> (map_sum err id r, st\<lparr>as_challenges := s\<rparr>))"

definition auth_token :: "'p auth_env \<Rightarrow> int \<Rightarrow> string \<Rightarrow> string \<Rightarrow> ('p, string) auth_op" where
  "auth_token env now random acct st =
     (case generate_token (ae_sha256 env) now random acct (as_tokens st) of
        (r, s) \<Rightarrow> (map_sum AuConfig id r, st\<lparr>as_tokens := s\<rparr>))"

text \<open>An optional row that must be there.\<close>

definition or_error :: "auth_error \<Rightarrow> 'a option \<Rightarrow> (auth_error, 'a) result" where
  "or_error e x = (case x of Some a \<Rightarrow> Inr a | None \<Rightarrow> Inl e)"

subsection \<open>Passkeys\<close>

definition storage_cred_to_authn :: "'p webauthn \<Rightarrow> passkey_row \<Rightarrow> (auth_error, passkey_credential) result" where
  "storage_cred_to_authn w cred = or_error (AuInternal ''Passkey deserialization failed'') (convert_cred w cred)"

definition manager_start :: "'p webauthn \<Rightarrow> passkey_credential list \<Rightarrow> (auth_error, json \<times> 'p) result" where
  "manager_start w credentials =
     (let passkeys = map cr_passkey (filter (\<lambda>c. \<not> cr_disabled c) credentials)
      in if passkeys = [] then Inl NoPasskeysEnrolled
         else or_error (AuWebAuthn ''start'') (wa_start_authentication w passkeys))"

definition manager_finish :: "'p webauthn \<Rightarrow> json \<Rightarrow> 'p \<Rightarrow> passkey_credential \<Rightarrow> (auth_error, nat) result" where
  "manager_finish w response st credential =
     (if cr_disabled credential then Inl CredentialDisabled
      else (case wa_finish_authentication w response st of
              None \<Rightarrow> Inl (AuWebAuthn ''finish'')
            | Some result \<Rightarrow>
                if res_cred_id result \<noteq> wa_cred_id w (cr_passkey credential) then Inl CredentialNotFound
                else Inr (res_counter result)))"

definition passkey_registration_start :: "'p auth_env \<Rightarrow> int \<Rightarrow> string \<Rightarrow> string \<Rightarrow> string \<Rightarrow> ('p, json \<times> string) auth_op" where
  "passkey_registration_start env now session_id user_id email =
     (if CHR ''@'' \<notin> set email then auth_fail (AuConfig ''Invalid email address'')
      else let email = ae_lower env email in
        auth_bind (auth_of (or_error (AuWebAuthn ''start'') (wa_start_registration (ae_wa env) user_id email email None))) (\<lambda>(options, reg).
        auth_bind (auth_challenges AuConfig (store_challenge now session_id (ParkedRegistration email reg))) (\<lambda>sid.
        auth_return (options, sid))))"

definition as_registration :: "'p parked \<Rightarrow> (auth_error, string \<times> 'p) result" where
  "as_registration v = (case v of ParkedRegistration email reg \<Rightarrow> Inr (email, reg) | _ \<Rightarrow> Inl ChallengeMismatch)"

definition as_authentication :: "'p parked \<Rightarrow> (auth_error, 'p) result" where
  "as_authentication v = (case v of ParkedAuthentication a \<Rightarrow> Inr a | _ \<Rightarrow> Inl ChallengeMismatch)"

definition cred_row :: "int \<Rightarrow> passkey_credential \<Rightarrow> passkey_row" where
  "cred_row now c = \<lparr>pk_id = cr_id c, pk_account_id = cr_account_id c, pk_device_name = cr_device_name c, pk_public_key = cr_passkey c,
     pk_counter = cr_counter c, pk_backup_eligible = False, pk_backup_state = False, pk_aaguid = None, pk_created_at = now,
     pk_last_used_at = None, pk_disabled = cr_disabled c\<rparr>"

definition passkey_registration_finish :: "'p auth_env \<Rightarrow> int \<Rightarrow> string \<Rightarrow> string \<Rightarrow> json \<Rightarrow> ('p, string) auth_op" where
  "passkey_registration_finish env now session_id device_name credential =
     auth_bind (auth_challenges (\<lambda>_. ChallengeMismatch) (retrieve_challenge now session_id)) (\<lambda>v.
     auth_bind (auth_of (as_registration v)) (\<lambda>(email, reg).
     if \<not> wa_register_ok (ae_wa env) credential then auth_fail (AuWebAuthn ''Invalid credential format'')
     else auth_bind (auth_of (or_error (AuWebAuthn ''finish'') (finish_registration (ae_wa env) email device_name credential reg))) (\<lambda>c.
     auth_bind (auth_db (\<lambda>e. AuDatabase ''Failed to save credential'') (save_passkey_credential (cred_row now c))) (\<lambda>_.
     auth_return ''Passkey registered successfully''))))"

definition all_ok :: "('a \<Rightarrow> ('e, 'b) result) \<Rightarrow> 'a list \<Rightarrow> ('e, 'b list) result" where
  "all_ok f xs = foldr (\<lambda>x r. case f x of Inl e \<Rightarrow> Inl e | Inr b \<Rightarrow> map_sum id (Cons b) r) xs (Inr [])"

definition passkey_authentication_start :: "'p auth_env \<Rightarrow> int \<Rightarrow> string \<Rightarrow> string \<Rightarrow> ('p, json \<times> string) auth_op" where
  "passkey_authentication_start env now session_id email =
     (let email = ae_lower env email in
      auth_bind (auth_db (\<lambda>_. AuUnauthorized) (account_by_email email)) (\<lambda>acc.
      auth_bind (auth_of (or_error CredentialNotFound acc)) (\<lambda>_.
      auth_bind (auth_db (\<lambda>_. CredentialNotFound) (list_passkeys_for_account email)) (\<lambda>stored.
      if stored = [] then auth_fail CredentialNotFound
      else auth_bind (auth_of (all_ok (storage_cred_to_authn (ae_wa env)) stored)) (\<lambda>credentials.
      auth_bind (auth_of (manager_start (ae_wa env) credentials)) (\<lambda>(options, a).
      auth_bind (auth_challenges AuConfig (store_challenge now session_id (ParkedAuthentication a))) (\<lambda>sid.
      auth_return (options, sid))))))))"

text \<open>The answer is the session token and the account it is for.\<close>

definition passkey_authentication_finish :: "'p auth_env \<Rightarrow> int \<Rightarrow> string \<Rightarrow> string \<Rightarrow> json \<Rightarrow> ('p, string \<times> string) auth_op" where
  "passkey_authentication_finish env now random session_id credential =
     auth_bind (auth_challenges (\<lambda>_. ChallengeMismatch) (retrieve_challenge now session_id)) (\<lambda>v.
     auth_bind (auth_of (as_authentication v)) (\<lambda>a.
     auth_bind (auth_of (or_error (AuWebAuthn ''Invalid assertion format'') (wa_raw_id (ae_wa env) credential))) (\<lambda>cred_id.
     auth_bind (auth_db (\<lambda>_. CredentialNotFound) (get_passkey_credential cred_id)) (\<lambda>row.
     auth_bind (auth_of (or_error CredentialNotFound row)) (\<lambda>stored.
     auth_bind (auth_of (storage_cred_to_authn (ae_wa env) stored)) (\<lambda>c.
     auth_bind (auth_of (manager_finish (ae_wa env) credential a c)) (\<lambda>counter.
     auth_bind (auth_db (\<lambda>e. AuDatabase ''Failed to update credential'') (update_passkey_counter now cred_id counter)) (\<lambda>_.
     auth_bind (auth_token env now random (pk_account_id stored)) (\<lambda>token.
     auth_return (token, pk_account_id stored))))))))))"

subsection \<open>Recovery codes\<close>

text \<open>The code shown for a random UUID. The records built beside it are dropped.\<close>

definition shown_code :: "'p auth_env \<Rightarrow> string \<Rightarrow> string" where
  "shown_code env uuid = ae_upper env (take 19 uuid)"

definition code_record :: "'p auth_env \<Rightarrow> int \<Rightarrow> string \<Rightarrow> string \<Rightarrow> recovery_code_row" where
  "code_record env now new_id uuid = \<lparr>rc_id = new_id, rc_account_id = ''placeholder'', rc_code_hash = ae_sha256 env (shown_code env uuid),
     rc_display_code = shown_code env uuid, rc_used = False, rc_used_at = None, rc_created_at = now\<rparr>"

definition recovery_code_generate :: "'p auth_env \<Rightarrow> nat option \<Rightarrow> (nat \<Rightarrow> string) \<Rightarrow> ('p, string list) auth_op" where
  "recovery_code_generate env count uuids =
     (let n = (case count of Some n \<Rightarrow> n | None \<Rightarrow> 10)
      in if n = 0 \<or> n > 100 then auth_fail (AuConfig ''Count must be between 1 and 100'')
         else auth_return (map (\<lambda>i. shown_code env (uuids i)) [0..<n]))"

definition typed_hash :: "'p auth_env \<Rightarrow> string \<Rightarrow> string" where
  "typed_hash env code = ae_sha256 env (ae_upper env (no_dashes code))"

text \<open>Looking the code up, and redeeming it: other requests may come between the two.\<close>

definition code_lookup :: "'p auth_env \<Rightarrow> string \<Rightarrow> ('p, recovery_code_row) auth_op" where
  "code_lookup env code =
     auth_bind (auth_db (\<lambda>_. InvalidRecoveryCode) (get_recovery_code_by_hash (typed_hash env code))) (\<lambda>row.
     auth_bind (auth_of (or_error InvalidRecoveryCode row)) (\<lambda>r.
     if rc_used r then auth_fail RecoveryCodeUsed else auth_return r))"

definition code_redeem :: "'p auth_env \<Rightarrow> int \<Rightarrow> string \<Rightarrow> recovery_code_row \<Rightarrow> ('p, string) auth_op" where
  "code_redeem env now random r =
     auth_bind (auth_db (\<lambda>e. AuWebAuthn ''Failed to mark code used'') (mark_recovery_code_used now (rc_id r))) (\<lambda>_.
     auth_token env now random (rc_account_id r))"

definition recovery_code_use :: "'p auth_env \<Rightarrow> int \<Rightarrow> string \<Rightarrow> string \<Rightarrow> ('p, string) auth_op" where
  "recovery_code_use env now random code = auth_bind (code_lookup env code) (code_redeem env now random)"

subsection \<open>Approvals\<close>

definition approval_request_create :: "int \<Rightarrow> string \<Rightarrow> string \<Rightarrow> string \<Rightarrow> string \<Rightarrow> ('p, string \<times> string) auth_op" where
  "approval_request_create now request_id challenge ty source =
     auth_bind (auth_db (\<lambda>_. AuUnauthorized) (list_devices_for_account ''placeholder'')) (\<lambda>devices.
     if devices = [] then auth_fail TooManyPendingApprovals
     else auth_bind (auth_db (\<lambda>e. AuWebAuthn ''Failed to create request'') (save_approval_request
         \<lparr>aq_id = request_id, aq_account_id = ''placeholder'', aq_source_device = source, aq_request_type = ty, aq_challenge = challenge,
          aq_created_at = now, aq_expires_at = now + 600, aq_status = ''pending'', aq_approved_by_device = None, aq_approved_at = None\<rparr>)) (\<lambda>_.
     auth_return (request_id, ''Approval request sent to '' @ show_nat (length devices) @ '' enrolled devices'')))"

definition approval_request_status :: "int \<Rightarrow> string \<Rightarrow> ('p, string \<times> string option \<times> int option) auth_op" where
  "approval_request_status now request_id =
     auth_bind (auth_db (\<lambda>_. ApprovalRequestExpired) (get_approval_request request_id)) (\<lambda>row.
     auth_bind (auth_of (or_error ApprovalRequestExpired row)) (\<lambda>r.
     if now > aq_expires_at r then auth_return (''expired'', None, None)
     else auth_return (aq_status r, aq_approved_by_device r, aq_approved_at r)))"

definition approval_request_approve :: "int \<Rightarrow> string \<Rightarrow> string \<Rightarrow> ('p, string) auth_op" where
  "approval_request_approve now request_id device_id =
     auth_bind (auth_db (\<lambda>_. ApprovalRequestExpired) (get_approval_request request_id)) (\<lambda>row.
     auth_bind (auth_of (or_error ApprovalRequestExpired row)) (\<lambda>r.
     if now > aq_expires_at r then auth_fail ApprovalRequestExpired
     else auth_bind (auth_db (\<lambda>_. AuUnauthorized) (get_device_pairing device_id)) (\<lambda>dev.
     auth_bind (auth_of (or_error AuUnauthorized dev)) (\<lambda>device.
     if dp_account_id device \<noteq> aq_account_id r then auth_fail AuUnauthorized
     else if \<not> dp_can_approve device then auth_fail AuUnauthorized
     else auth_bind (auth_db (\<lambda>e. AuWebAuthn ''Failed to approve'') (update_approval_request_status now request_id ''approved'' (Some device_id))) (\<lambda>_.
     auth_bind (auth_db (\<lambda>e. AuWebAuthn ''Failed to update device'') (update_device_last_used now device_id)) (\<lambda>_.
     auth_return ''Approval request approved successfully''))))))"

subsection \<open>Pairing\<close>

definition generate_qr_code_unicode :: "string \<Rightarrow> string" where
  "generate_qr_code_unicode dat = ''QR Code ('' @ dat @ '')''"

definition qr_code_pairing :: "'p auth_env \<Rightarrow> int \<Rightarrow> string \<Rightarrow> string \<Rightarrow> ('p, string \<times> string) auth_op" where
  "qr_code_pairing env now code_id uuid =
     (let code = ae_upper env (take 8 uuid) in
      auth_bind (auth_challenges AuConfig (store_pairing_code now code_id (ParkedCode code))) (\<lambda>cid.
      auth_return (generate_qr_code_unicode (''owney://pair/'' @ cid @ ''/'' @ code), code)))"

text \<open>The pairing code of the request is not looked at.\<close>

definition qr_code_pairing_confirm :: "int \<Rightarrow> string \<Rightarrow> string \<Rightarrow> string \<Rightarrow> ('p, string) auth_op" where
  "qr_code_pairing_confirm now device_id pairing_code device_name =
     auth_bind (auth_db (\<lambda>e. AuWebAuthn ''Failed to save device'') (save_device_pairing
       \<lparr>dp_id = device_id, dp_account_id = ''placeholder'', dp_device_name = device_name, dp_device_type = ''unknown'', dp_public_key = [],
        dp_can_approve = True, dp_push_token = None, dp_paired_at = now, dp_last_used_at = None, dp_disabled = False\<rparr>)) (\<lambda>_.
     auth_return device_id)"

subsection \<open>Routes\<close>

text \<open>A request, once its body has been read.\<close>

datatype auth_request = RegisterStart string | RegisterFinish string string json | AuthenticateStart string | AuthenticateFinish string json
  | RecoveryGenerate "nat option" | RecoveryUse string | ApprovalCreate string string | ApprovalStatus string | ApprovalApprove string string
  | PairingQr | PairingConfirm string string

definition auth_routes :: "auth_request \<Rightarrow> string \<times> string" where
  "auth_routes req = (case req of
     RegisterStart _ \<Rightarrow> (''POST'', ''/auth/passkey/register/start'')
   | RegisterFinish _ _ _ \<Rightarrow> (''POST'', ''/auth/passkey/register/finish'')
   | AuthenticateStart _ \<Rightarrow> (''POST'', ''/auth/passkey/authenticate/start'')
   | AuthenticateFinish _ _ \<Rightarrow> (''POST'', ''/auth/passkey/authenticate/finish'')
   | RecoveryGenerate _ \<Rightarrow> (''POST'', ''/auth/recovery/generate'')
   | RecoveryUse _ \<Rightarrow> (''POST'', ''/auth/recovery/use'')
   | ApprovalCreate _ _ \<Rightarrow> (''POST'', ''/auth/approval/create'')
   | ApprovalStatus i \<Rightarrow> (''GET'', ''/auth/approval/'' @ i)
   | ApprovalApprove i _ \<Rightarrow> (''POST'', ''/auth/approval/'' @ i @ ''/approve'')
   | PairingQr \<Rightarrow> (''GET'', ''/auth/pairing/qr'')
   | PairingConfirm _ _ \<Rightarrow> (''POST'', ''/auth/pairing/confirm''))"

text \<open>What one request draws: its new id, the user handle, random bytes in hexadecimal, the challenge, random UUIDs.\<close>

record auth_draw =
  ad_id :: string
  ad_user :: string
  ad_random :: string
  ad_challenge :: string
  ad_uuids :: "nat \<Rightarrow> string"

definition auth_answer :: "('a \<Rightarrow> (string \<times> json) list) \<Rightarrow> ('p, 'a) auth_op \<Rightarrow> 'p auth_state \<Rightarrow> response \<times> 'p auth_state" where
  "auth_answer f m st = (case m st of
     (Inr a, st') \<Rightarrow> (\<lparr>status = 200, headers = [], resp_body = JsonBody (json_obj (f a))\<rparr>, st')
   | (Inl e, st') \<Rightarrow> (auth_error_response e, st'))"

definition started :: "json \<times> string \<Rightarrow> (string \<times> json) list" where
  "started r = [(''options'', fst r), (''session_id'', JStr (snd r))]"

definition opt_str :: "string option \<Rightarrow> json" where
  "opt_str x = (case x of Some s \<Rightarrow> JStr s | None \<Rightarrow> JNull)"

fun serve_auth :: "'p auth_env \<Rightarrow> int \<Rightarrow> auth_draw \<Rightarrow> auth_request \<Rightarrow> 'p auth_state \<Rightarrow> response \<times> 'p auth_state" where
  "serve_auth env now dr (RegisterStart email) =
     auth_answer started (passkey_registration_start env now (ad_id dr) (ad_user dr) email)"
| "serve_auth env now dr (RegisterFinish sid name cred) =
     auth_answer (\<lambda>msg. [(''success'', JBool True), (''message'', JStr msg)]) (passkey_registration_finish env now sid name cred)"
| "serve_auth env now dr (AuthenticateStart email) = auth_answer started (passkey_authentication_start env now (ad_id dr) email)"
| "serve_auth env now dr (AuthenticateFinish sid cred) =
     auth_answer (\<lambda>(token, acct). [(''success'', JBool True), (''session_token'', JStr token), (''user_id'', JStr acct)])
       (passkey_authentication_finish env now (ad_random dr) sid cred)"
| "serve_auth env now dr (RecoveryGenerate count) =
     auth_answer (\<lambda>codes. [(''codes'', JArr (map JStr codes)), (''display_format'', JStr ''XXXX-XXXX-XXXX'')])
       (recovery_code_generate env count (ad_uuids dr))"
| "serve_auth env now dr (RecoveryUse code) =
     auth_answer (\<lambda>token. [(''success'', JBool True), (''session_token'', JStr token),
         (''message'', JStr ''Recovery code accepted. Account recovered successfully.'')])
       (recovery_code_use env now (ad_random dr) code)"
| "serve_auth env now dr (ApprovalCreate ty source) =
     auth_answer (\<lambda>(i, msg). [(''request_id'', JStr i), (''expires_in_seconds'', JNum 600), (''message'', JStr msg)])
       (approval_request_create now (ad_id dr) (ad_challenge dr) ty source)"
| "serve_auth env now dr (ApprovalStatus i) =
     auth_answer (\<lambda>(s, dev, t). [(''status'', JStr s), (''approved_by_device'', opt_str dev),
         (''approved_at'', case t of Some n \<Rightarrow> JNum n | None \<Rightarrow> JNull)])
       (approval_request_status now i)"
| "serve_auth env now dr (ApprovalApprove i device) =
     auth_answer (\<lambda>msg. [(''success'', JBool True), (''message'', JStr msg)]) (approval_request_approve now i device)"
| "serve_auth env now dr PairingQr =
     auth_answer (\<lambda>(qr, code). [(''qr_code'', JStr qr), (''pairing_code'', JStr code), (''expires_in_seconds'', JNum 120)])
       (qr_code_pairing env now (ad_id dr) (ad_uuids dr 0))"
| "serve_auth env now dr (PairingConfirm code name) =
     auth_answer (\<lambda>i. [(''success'', JBool True), (''device_id'', JStr i)]) (qr_code_pairing_confirm now (ad_id dr) code name)"

fun auth_run :: "'p auth_env \<Rightarrow> (int \<times> auth_draw \<times> auth_request) list \<Rightarrow> 'p auth_state \<Rightarrow> 'p auth_state" where
  "auth_run env [] st = st"
| "auth_run env ((now, dr, req) # rest) st = auth_run env rest (snd (serve_auth env now dr req st))"

section \<open>Invariants of the handlers\<close>

text \<open>A handler keeps an invariant of the state, and what it returns satisfies a predicate.\<close>

definition auth_keeps :: "('p auth_state \<Rightarrow> bool) \<Rightarrow> ('a \<Rightarrow> bool) \<Rightarrow> ('p, 'a) auth_op \<Rightarrow> bool" where
  "auth_keeps I P m \<longleftrightarrow> (\<forall>st r st'. I st \<longrightarrow> m st = (r, st') \<longrightarrow> I st' \<and> (\<forall>a. r = Inr a \<longrightarrow> P a))"

lemma auth_keepsI: "(\<And>st r st'. I st \<Longrightarrow> m st = (r, st') \<Longrightarrow> I st' \<and> (\<forall>a. r = Inr a \<longrightarrow> P a)) \<Longrightarrow> auth_keeps I P m"
  by (simp add: auth_keeps_def)

lemma auth_keepsD: "auth_keeps I P m \<Longrightarrow> m st = (r, st') \<Longrightarrow> I st \<Longrightarrow> I st' \<and> (\<forall>a. r = Inr a \<longrightarrow> P a)"
  by (simp add: auth_keeps_def)

lemma auth_bind_cases [consumes 1, case_names fail ok]:
  assumes "auth_bind m f st = (r, st')"
  obtains e where "m st = (Inl e, st')" "r = Inl e" | a s where "m st = (Inr a, s)" "f a s = (r, st')"
proof (cases "m st")
  case (Pair x s)
  show thesis
  proof (cases x)
    case (Inl e)
    with assms Pair have "m st = (Inl e, st')" "r = Inl e" by (simp_all add: auth_bind_def)
    then show thesis by (rule that(1))
  next
    case (Inr a)
    with assms Pair have "m st = (Inr a, s)" "f a s = (r, st')" by (simp_all add: auth_bind_def)
    then show thesis by (rule that(2))
  qed
qed

lemma auth_keeps_bind:
  assumes "auth_keeps I P m" "\<And>a. P a \<Longrightarrow> auth_keeps I Q (f a)"
  shows "auth_keeps I Q (auth_bind m f)"
proof (rule auth_keepsI)
  fix st r st' assume I: "I st" and run: "auth_bind m f st = (r, st')"
  from run show "I st' \<and> (\<forall>a. r = Inr a \<longrightarrow> Q a)"
  proof (cases rule: auth_bind_cases)
    case (fail e)
    with auth_keepsD[OF assms(1) fail(1) I] show ?thesis by simp
  next
    case (ok a s)
    with auth_keepsD[OF assms(1) ok(1) I] have "I s" "P a" by auto
    with auth_keepsD[OF assms(2) ok(2)] show ?thesis by blast
  qed
qed

lemma auth_keeps_fail: "auth_keeps I P (auth_fail e)"
  by (simp add: auth_keeps_def auth_fail_def)

lemma auth_keeps_return: "auth_keeps I (\<lambda>_. True) (auth_return a)"
  by (simp add: auth_keeps_def auth_return_def)

lemma auth_keeps_of: "(\<And>a. r = Inr a \<Longrightarrow> P a) \<Longrightarrow> auth_keeps I P (auth_of r)"
  by (simp add: auth_keeps_def auth_of_def)

lemma auth_keeps_any: "auth_keeps I (\<lambda>_. True) (auth_of r)"
  by (simp add: auth_keeps_of)

lemma auth_keeps_if: "auth_keeps I P m \<Longrightarrow> auth_keeps I P n \<Longrightarrow> auth_keeps I P (if c then m else n)"
  by simp

lemma auth_answer_state: "snd (auth_answer f m st) = snd (m st)"
  by (simp add: auth_answer_def split: prod.split sum.split)

lemma auth_answer_keeps: "auth_keeps I P m \<Longrightarrow> I st \<Longrightarrow> I (snd (auth_answer f m st))"
  unfolding auth_answer_state by (cases "m st") (auto dest: auth_keepsD)

text \<open>The whole database without what use leaves behind: whether and when a recovery code was used and a device last acted, and
  the outcome of an approval request.\<close>

definition enrolled :: "db \<Rightarrow> db" where
  "enrolled d = d\<lparr>faults := [],
     recovery_codes := map (\<lambda>r. r\<lparr>rc_used := False, rc_used_at := None\<rparr>) (recovery_codes d),
     device_pairings := map (\<lambda>r. r\<lparr>dp_last_used_at := None\<rparr>) (device_pairings d),
     approval_requests := map (\<lambda>r. r\<lparr>aq_status := [], aq_approved_by_device := None, aq_approved_at := None\<rparr>) (approval_requests d)\<rparr>"

interpretation en: db_view enrolled
  by unfold_locales (simp add: enrolled_def)

lemma enrolledD:
  assumes "enrolled d = enrolled d'"
  shows "accounts d = accounts d'" "passkey_credentials d = passkey_credentials d'"
    and "length (recovery_codes d) = length (recovery_codes d')"
  using arg_cong[OF assms, of accounts] arg_cong[OF assms, of passkey_credentials]
    arg_cong[OF assms, of "\<lambda>x. length (recovery_codes x)"]
  by (simp_all add: enrolled_def)

lemma map_update_same: "(\<And>r. g (f r) = g r) \<Longrightarrow> map g (sql_update q f rows) = map g rows"
  by (simp add: sql_update_def)

lemma enrolled_ops:
  "keeps enrolled (account_by_email e)" "keeps enrolled (list_passkeys_for_account acct)" "keeps enrolled (get_passkey_credential c)"
  "keeps enrolled (get_recovery_code_by_hash h)" "keeps enrolled (mark_recovery_code_used now c)"
  "keeps enrolled (list_devices_for_account acct)" "keeps enrolled (get_approval_request i)" "keeps enrolled (get_device_pairing i)"
  "keeps enrolled (update_approval_request_status now i st dev)" "keeps enrolled (update_device_last_used now i)"
  unfolding account_by_email_def Let_def list_passkeys_for_account_def get_passkey_credential_def
    get_recovery_code_by_hash_def mark_recovery_code_used_def list_devices_for_account_def get_approval_request_def get_device_pairing_def
    update_approval_request_status_def update_device_last_used_def
  by (rule en.keeps_call, simp add: keeps_def enrolled_def map_update_same)+

text \<open>Accounts have an address with an at sign and an id without one, which is not \<open>placeholder\<close>; passkeys are those of
  accounts.\<close>

definition ids_ok :: "db \<Rightarrow> bool" where
  "ids_ok d \<longleftrightarrow> (\<forall>r \<in> set (accounts d). acc_id r \<noteq> ''placeholder'' \<and> CHR ''@'' \<notin> set (acc_id r) \<and> CHR ''@'' \<in> set (acc_email r)) \<and>
     (\<forall>r \<in> set (passkey_credentials d). has_account d (pk_account_id r))"

fun parked_good :: "'p parked \<Rightarrow> bool" where
  "parked_good (ParkedRegistration email _) = (CHR ''@'' \<in> set email)"
| "parked_good (ParkedAuthentication _) = False"
| "parked_good (ParkedCode _) = True"

definition parked_ok :: "'p parked challenge_store \<Rightarrow> bool" where
  "parked_ok s \<longleftrightarrow> (\<forall>k e. s k = Some e \<longrightarrow> parked_good (ce_data e))"

text \<open>What the API leaves as it was, from a state with the database \<open>d0\<close> and the tokens \<open>ts\<close>.\<close>

definition inert :: "db \<Rightarrow> session_tokens \<Rightarrow> 'p auth_state \<Rightarrow> bool" where
  "inert d0 ts st \<longleftrightarrow> enrolled (as_db st) = enrolled d0 \<and> parked_ok (as_challenges st) \<and> (recovery_codes d0 = [] \<longrightarrow> as_tokens st = ts)"

lemma enrolled_has_account: "enrolled d = enrolled d0 \<Longrightarrow> has_account d a = has_account d0 a"
  unfolding has_account_def by (metis enrolledD(1))

lemma ids_ok_at: "ids_ok d \<Longrightarrow> has_account d a \<Longrightarrow> a \<noteq> ''placeholder'' \<and> CHR ''@'' \<notin> set a"
  by (auto simp: ids_ok_def has_account_def)

lemma enrolled_passkeys:
  assumes "enrolled d = enrolled d0" "ids_ok d0" "r \<in> set (passkey_credentials d)"
  shows "CHR ''@'' \<notin> set (pk_account_id r)"
  using assms(2,3) ids_ok_at[OF assms(2)] unfolding enrolledD(2)[OF assms(1)] by (auto simp: ids_ok_def)

lemma inert_db: "keeps enrolled f \<Longrightarrow> auth_keeps (inert d0 ts) (\<lambda>_. True) (auth_db err f)"
proof (rule auth_keepsI)
  fix st r st' assume k: "keeps enrolled f" and i: "inert d0 ts st" and run: "auth_db err f st = (r, st')"
  obtain x d where f: "f (as_db st) = (x, d)" by fastforce
  with run have "st' = st\<lparr>as_db := d\<rparr>" by (simp add: auth_db_def)
  with i keepsD[OF k f] show "inert d0 ts st' \<and> (\<forall>a. r = Inr a \<longrightarrow> True)" by (simp add: inert_def)
qed

lemma inert_store: "parked_good v \<Longrightarrow> auth_keeps (inert d0 ts) (\<lambda>_. True) (auth_challenges err (store_challenge now sid v))"
  by (simp add: auth_keeps_def inert_def auth_challenges_def store_challenge_def parked_ok_def)

lemma inert_pairing: "auth_keeps (inert d0 ts) (\<lambda>_. True) (auth_challenges err (store_pairing_code now sid (ParkedCode c)))"
  by (simp add: auth_keeps_def inert_def auth_challenges_def store_pairing_code_def parked_ok_def)

lemma retrieve_cases:
  assumes "auth_challenges err (retrieve_challenge now sid) st = (r, st')"
  obtains (found) entry where "as_challenges st sid = Some entry" "now \<le> ce_expires_at entry" "r = Inr (ce_data entry)"
      "st' = st\<lparr>as_challenges := (as_challenges st)(sid := None)\<rparr>"
  | (failed) e where "r = Inl e" "st' = st \<or> st' = st\<lparr>as_challenges := (as_challenges st)(sid := None)\<rparr>"
proof (cases "as_challenges st sid")
  case None
  with assms have "r = Inl (err ''Challenge not found'')" "st' = st" by (simp_all add: auth_challenges_def retrieve_challenge_def)
  then show thesis using failed by blast
next
  case (Some entry)
  show thesis
  proof (cases "now > ce_expires_at entry")
    case True
    with assms Some have "r = Inl (err ''Challenge expired'')" "st' = st\<lparr>as_challenges := (as_challenges st)(sid := None)\<rparr>"
      by (simp_all add: auth_challenges_def retrieve_challenge_def)
    then show thesis using failed by blast
  next
    case False
    with assms Some have "r = Inr (ce_data entry)" "st' = st\<lparr>as_challenges := (as_challenges st)(sid := None)\<rparr>"
      by (simp_all add: auth_challenges_def retrieve_challenge_def)
    with Some False show thesis using found by simp
  qed
qed

lemma inert_taken: "inert d0 ts st \<Longrightarrow> inert d0 ts (st\<lparr>as_challenges := (as_challenges st)(sid := None)\<rparr>)"
  by (simp add: inert_def parked_ok_def)

lemma inert_retrieve: "auth_keeps (inert d0 ts) parked_good (auth_challenges err (retrieve_challenge now sid))"
proof (rule auth_keepsI)
  fix st r st' assume i: "inert d0 ts st" and run: "auth_challenges err (retrieve_challenge now sid) st = (r, st')"
  from run show "inert d0 ts st' \<and> (\<forall>a. r = Inr a \<longrightarrow> parked_good a)"
  proof (cases rule: retrieve_cases)
    case (found entry)
    with i inert_taken[OF i] show ?thesis by (auto simp: inert_def parked_ok_def)
  next
    case (failed e)
    with i inert_taken[OF i] show ?thesis by auto
  qed
qed

lemma inert_token: "recovery_codes d0 \<noteq> [] \<Longrightarrow> auth_keeps (inert d0 ts) (\<lambda>_. True) (auth_token env now random acct)"
  by (simp add: auth_keeps_def inert_def auth_token_def generate_token_def Let_def)

text \<open>A row for an account that does not exist is refused.\<close>

lemma inert_refused:
  assumes "\<not> has_account d0 acct"
    and "\<And>d. \<not> has_account d acct \<Longrightarrow> \<exists>e. f d = (Inl e, d)"
  shows "auth_keeps (inert d0 ts) P (auth_db err (db_call f))"
proof (rule auth_keepsI)
  fix st r st' assume i: "inert d0 ts st" and run: "auth_db err (db_call f) st = (r, st')"
  obtain x d where c: "db_call f (as_db st) = (x, d)" by fastforce
  have v: "enrolled ((as_db st)\<lparr>faults := fs\<rparr>) = enrolled d0" for fs using i by (simp add: inert_def en.view_faults)
  have "\<exists>e fs. x = Inl e \<and> d = (as_db st)\<lparr>faults := fs\<rparr>"
    using c
  proof (cases rule: db_call_cases)
    case (run fs)
    with assms(2)[of "(as_db st)\<lparr>faults := fs\<rparr>"] assms(1) enrolled_has_account[OF v[of fs]] show ?thesis by auto
  qed auto
  with c run v i show "inert d0 ts st' \<and> (\<forall>a. r = Inr a \<longrightarrow> P a)" by (auto simp: auth_db_def inert_def)
qed

lemma inert_saves:
  assumes "\<not> has_account d0 acct"
  shows "pk_account_id row = acct \<Longrightarrow> auth_keeps (inert d0 ts) P (auth_db err (save_passkey_credential row))"
    and "dp_account_id dev = acct \<Longrightarrow> auth_keeps (inert d0 ts) P (auth_db err (save_device_pairing dev))"
    and "aq_account_id req = acct \<Longrightarrow> auth_keeps (inert d0 ts) P (auth_db err (save_approval_request req))"
  unfolding save_passkey_credential_def save_device_pairing_def save_approval_request_def
  by (rule inert_refused[OF assms], simp)+

lemma inert_db_result:
  assumes "keeps enrolled f" "\<And>d a d'. enrolled d = enrolled d0 \<Longrightarrow> f d = (Inr a, d') \<Longrightarrow> P a"
  shows "auth_keeps (inert d0 ts) P (auth_db err f)"
proof (rule auth_keepsI)
  fix st r st' assume i: "inert d0 ts st" and run: "auth_db err f st = (r, st')"
  obtain x d where f: "f (as_db st) = (x, d)" by fastforce
  have "P a" if "r = Inr a" for a
  proof -
    from run f that have "map_sum err id x = Inr a" by (simp add: auth_db_def)
    then have "x = Inr a" by (cases x) simp_all
    with f assms(2)[of "as_db st"] i show "P a" by (simp add: inert_def)
  qed
  with auth_keepsD[OF inert_db[OF assms(1)] run i] show "inert d0 ts st' \<and> (\<forall>a. r = Inr a \<longrightarrow> P a)" by blast
qed

lemma lower_at: "lower_char c = CHR ''@'' \<longleftrightarrow> c = CHR ''@''"
proof
  assume l: "lower_char c = CHR ''@''"
  show "c = CHR ''@''"
  proof (cases "65 \<le> (of_char c :: nat) \<and> (of_char c :: nat) \<le> 90")
    case True
    with l have "(of_char (char_of ((of_char c :: nat) + 32)) :: nat) = of_char (CHR ''@'')" by (simp add: lower_char_def Let_def)
    with True show ?thesis by simp
  next
    case False
    with l show ?thesis by (auto simp: lower_char_def Let_def)
  qed
qed (simp add: lower_char_def)

lemma lowercase_at: "CHR ''@'' \<in> set (to_lowercase s) \<longleftrightarrow> CHR ''@'' \<in> set s"
  unfolding to_lowercase_def using lower_at by (metis (no_types, lifting) imageE image_eqI list.set_map)

lemma set_trim: "set (trim s) \<subseteq> set s"
  unfolding trim_def by (auto dest!: set_dropWhileD)

lemma account_at:
  assumes "ids_ok d0" "enrolled d = enrolled d0" "account_by_email email d = (Inr (Some a), d')"
  shows "CHR ''@'' \<in> set email"
proof -
  from assms(3) obtain fs where "(Inr (map_option row_to_account (sql_select (\<lambda>r. eq_ignore_ascii_case (acc_email r) (to_lowercase (trim email)) \<and>
      acc_disabled_at r = None) (accounts (d\<lparr>faults := fs\<rparr>)))), d\<lparr>faults := fs\<rparr>) = (Inr (Some a) :: (storage_error, account_t option) result, d')"
    unfolding account_by_email_def Let_def by (rule db_call_ok)
  then obtain r where "r \<in> set (accounts d)" and eq: "eq_ignore_ascii_case (acc_email r) (to_lowercase (trim email))"
    by (auto dest!: sql_select_Some)
  from this(1) assms(1) have "CHR ''@'' \<in> set (acc_email r)" by (auto simp: ids_ok_def enrolledD(1)[OF assms(2)])
  then have "CHR ''@'' \<in> set (to_lowercase (acc_email r))" by (simp add: lowercase_at)
  with eq have "CHR ''@'' \<in> set (trim email)" by (simp add: eq_ignore_ascii_case_def lowercase_at)
  with set_trim show ?thesis by blast
qed

lemma no_passkeys_by_email:
  assumes "ids_ok d0" "enrolled d = enrolled d0" "CHR ''@'' \<in> set email" "list_passkeys_for_account email d = (Inr rows, d')"
  shows "rows = []"
proof -
  from assms(4) obtain fs where "(Inr (order_desc pk_created_at (filter (\<lambda>r. pk_account_id r = email \<and> \<not> pk_disabled r)
      (passkey_credentials (d\<lparr>faults := fs\<rparr>)))), d\<lparr>faults := fs\<rparr>) = (Inr rows :: (storage_error, passkey_row list) result, d')"
    unfolding list_passkeys_for_account_def by (rule db_call_ok)
  moreover have "filter (\<lambda>r. pk_account_id r = email \<and> \<not> pk_disabled r) (passkey_credentials d) = []"
    using enrolled_passkeys[OF assms(2,1)] assms(3) by (auto simp: filter_empty_conv)
  ultimately show ?thesis by (simp add: order_desc_def)
qed

lemma codes_exist:
  assumes "enrolled d = enrolled d0" "get_recovery_code_by_hash h d = (Inr (Some r), d')"
  shows "recovery_codes d0 \<noteq> []"
proof -
  from assms(2) obtain fs where "(Inr (sql_select (\<lambda>r. rc_code_hash r = h \<and> \<not> rc_used r) (recovery_codes (d\<lparr>faults := fs\<rparr>))), d\<lparr>faults := fs\<rparr>) =
      (Inr (Some r) :: (storage_error, recovery_code_row option) result, d')"
    unfolding get_recovery_code_by_hash_def by (rule db_call_ok)
  then have "r \<in> set (recovery_codes d)" by (auto dest!: sql_select_Some)
  then have "recovery_codes d \<noteq> []" by auto
  with enrolledD(3)[OF assms(1)] show ?thesis by auto
qed

text \<open>The handlers, one by one.\<close>

definition kept :: "'p auth_env \<Rightarrow> bool" where
  "kept env \<longleftrightarrow> (\<forall>s. CHR ''@'' \<in> set s \<longrightarrow> CHR ''@'' \<in> set (ae_lower env s))"

lemma auth_keeps_pair: "(\<And>a b. x = (a, b) \<Longrightarrow> auth_keeps I P (f a b)) \<Longrightarrow> auth_keeps I P (case x of (a, b) \<Rightarrow> f a b)"
  by (cases x) simp

lemma or_error_Inr: "or_error e x = Inr a \<longleftrightarrow> x = Some a"
  by (cases x) (simp_all add: or_error_def)

lemma auth_keeps_bind_of: "(\<And>a. r = Inr a \<Longrightarrow> auth_keeps I Q (f a)) \<Longrightarrow> auth_keeps I Q (auth_bind (auth_of r) f)"
  by (rule auth_keeps_bind[where P = "\<lambda>a. r = Inr a"]) (simp_all add: auth_keeps_of)

lemmas keeps_db = auth_keeps_bind[OF inert_db]
  and keeps_taken = auth_keeps_bind[OF inert_retrieve]
  and keeps_end = auth_keeps_fail auth_keeps_return

lemma registration_start_inert:
  assumes "kept env"
  shows "auth_keeps (inert d0 ts) (\<lambda>_. True) (passkey_registration_start env now sid uid email)"
proof (cases "CHR ''@'' \<in> set email")
  case True
  with assms have at: "CHR ''@'' \<in> set (ae_lower env email)" by (simp add: kept_def)
  from True show ?thesis unfolding passkey_registration_start_def Let_def
    by simp (intro auth_keeps_bind_of auth_keeps_pair auth_keeps_bind[OF inert_store] keeps_end, simp add: at)
qed (simp add: passkey_registration_start_def auth_keeps_fail)

lemma registration_saved_inert:
  assumes "ids_ok d0" "finish_registration w email name cred reg = Some c" "CHR ''@'' \<in> set email"
  shows "auth_keeps (inert d0 ts) (\<lambda>_. True) (auth_db err (save_passkey_credential (cred_row now c)))"
proof -
  from assms(2) have "pk_account_id (cred_row now c) = email" by (auto simp: cred_row_def finish_registration_def split: option.splits)
  moreover have "\<not> has_account d0 email" using ids_ok_at[OF assms(1)] assms(3) by blast
  ultimately show ?thesis by (intro inert_saves(1))
qed

lemma registration_finish_inert:
  assumes "ids_ok d0"
  shows "auth_keeps (inert d0 ts) (\<lambda>_. True) (passkey_registration_finish env now sid name cred)"
  unfolding passkey_registration_finish_def
  by (intro keeps_taken auth_keeps_bind_of auth_keeps_pair auth_keeps_if keeps_end auth_keeps_bind[OF registration_saved_inert[OF assms]])
    (auto simp: or_error_Inr as_registration_def split: parked.splits)

lemma authentication_start_inert:
  assumes "ids_ok d0" "kept env"
  shows "auth_keeps (inert d0 ts) (\<lambda>_. True) (passkey_authentication_start env now sid email)"
  unfolding passkey_authentication_start_def Let_def
proof (rule auth_keeps_bind[where P = "\<lambda>acc. acc \<noteq> None \<longrightarrow> CHR ''@'' \<in> set (ae_lower env email)"], goal_cases)
  case 1
  show ?case
    by (rule inert_db_result[OF enrolled_ops(1)]) (use account_at[OF assms(1)] in blast)
next
  case (2 acc)
  show ?case
  proof (rule auth_keeps_bind_of, goal_cases)
    case (1 a)
    with 2 have "CHR ''@'' \<in> set (ae_lower env email)" by (simp add: or_error_Inr)
    then have "auth_keeps (inert d0 ts) (\<lambda>rows. rows = []) (auth_db (\<lambda>_. CredentialNotFound) (list_passkeys_for_account (ae_lower env email)))"
      by (intro inert_db_result[OF enrolled_ops(2)]) (use no_passkeys_by_email[OF assms(1)] in blast)
    then show ?case by (rule auth_keeps_bind) (simp add: auth_keeps_fail)
  qed
qed

lemma authentication_finish_inert: "auth_keeps (inert d0 ts) (\<lambda>_. True) (passkey_authentication_finish env now random sid cred)"
  unfolding passkey_authentication_finish_def
  by (intro keeps_taken auth_keeps_bind_of) (auto simp: as_authentication_def split: parked.splits)

lemma recovery_generate_inert: "auth_keeps (inert d0 ts) (\<lambda>_. True) (recovery_code_generate env count uuids)"
  by (simp add: recovery_code_generate_def Let_def keeps_end)

lemma recovery_use_inert: "auth_keeps (inert d0 ts) (\<lambda>_. True) (recovery_code_use env now random code)"
  unfolding recovery_code_use_def
proof (rule auth_keeps_bind)
  show "auth_keeps (inert d0 ts) (\<lambda>_. recovery_codes d0 \<noteq> []) (code_lookup env code)"
    unfolding code_lookup_def
  proof (rule auth_keeps_bind)
    show "auth_keeps (inert d0 ts) (\<lambda>x. x \<noteq> None \<longrightarrow> recovery_codes d0 \<noteq> [])
        (auth_db (\<lambda>_. InvalidRecoveryCode) (get_recovery_code_by_hash (typed_hash env code)))"
      by (rule inert_db_result[OF enrolled_ops(4)]) (use codes_exist in blast)
  next
    fix row :: "recovery_code_row option" assume "row \<noteq> None \<longrightarrow> recovery_codes d0 \<noteq> []"
    then show "auth_keeps (inert d0 ts) (\<lambda>_. recovery_codes d0 \<noteq> []) (auth_bind (auth_of (or_error InvalidRecoveryCode row))
        (\<lambda>r. if rc_used r then auth_fail RecoveryCodeUsed else auth_return r))"
      by (intro auth_keeps_bind_of auth_keeps_if auth_keeps_fail) (simp add: or_error_Inr auth_keeps_def auth_return_def)
  qed
next
  fix r assume "recovery_codes d0 \<noteq> []"
  then show "auth_keeps (inert d0 ts) (\<lambda>_. True) (code_redeem env now random r)"
    unfolding code_redeem_def by (intro keeps_db enrolled_ops inert_token)
qed

lemma approvals_inert:
  assumes "ids_ok d0"
  shows "auth_keeps (inert d0 ts) (\<lambda>_. True) (approval_request_create now i challenge ty source)"
    and "auth_keeps (inert d0 ts) (\<lambda>_. True) (approval_request_status now i)"
    and "auth_keeps (inert d0 ts) (\<lambda>_. True) (approval_request_approve now i device)"
    and "auth_keeps (inert d0 ts) (\<lambda>_. True) (qr_code_pairing env now i uuid)"
    and "auth_keeps (inert d0 ts) (\<lambda>_. True) (qr_code_pairing_confirm now i code name)"
proof -
  have none: "\<not> has_account d0 ''placeholder''" using ids_ok_at[OF assms] by blast
  show "auth_keeps (inert d0 ts) (\<lambda>_. True) (approval_request_create now i challenge ty source)"
    unfolding approval_request_create_def
    by (intro keeps_db enrolled_ops auth_keeps_if keeps_end auth_keeps_bind[OF inert_saves(3)[OF none]]) simp
  show "auth_keeps (inert d0 ts) (\<lambda>_. True) (approval_request_status now i)"
    unfolding approval_request_status_def by (intro keeps_db enrolled_ops auth_keeps_bind_of auth_keeps_if keeps_end)
  show "auth_keeps (inert d0 ts) (\<lambda>_. True) (approval_request_approve now i device)"
    unfolding approval_request_approve_def by (intro keeps_db enrolled_ops auth_keeps_bind_of auth_keeps_if keeps_end)
  show "auth_keeps (inert d0 ts) (\<lambda>_. True) (qr_code_pairing env now i uuid)"
    unfolding qr_code_pairing_def Let_def by (intro auth_keeps_bind[OF inert_pairing] keeps_end)
  show "auth_keeps (inert d0 ts) (\<lambda>_. True) (qr_code_pairing_confirm now i code name)"
    unfolding qr_code_pairing_confirm_def by (intro auth_keeps_bind[OF inert_saves(2)[OF none]] keeps_end) simp
qed

lemma serve_auth_inert:
  assumes "ids_ok d0" "kept env" "inert d0 ts st"
  shows "inert d0 ts (snd (serve_auth env now dr req st))"
  using assms by (cases req) (auto intro!: auth_answer_keeps registration_start_inert registration_finish_inert authentication_start_inert
      authentication_finish_inert recovery_generate_inert recovery_use_inert approvals_inert)

lemma auth_run_inert: "ids_ok d0 \<Longrightarrow> kept env \<Longrightarrow> inert d0 ts st \<Longrightarrow> inert d0 ts (auth_run env reqs st)"
  by (induction env reqs st rule: auth_run.induct) (auto simp: serve_auth_inert)

end
