(* ===== verification/Auth_Props.thy ===== *)
theory Auth_Props
  imports Auth_Api
begin

text \<open>
  What the passwordless API does and does not do: it enrols nothing, a session needs a factor, and a recovery code is
  single use only for requests that do not overlap.
\<close>

section \<open>Where a token is issued\<close>

text \<open>All but the last step of a handler leave the tokens alone.\<close>

definition same_tokens :: "('p, 'a) auth_op \<Rightarrow> bool" where
  "same_tokens m \<longleftrightarrow> (\<forall>st. as_tokens (snd (m st)) = as_tokens st)"

lemma same_tokens_db: "same_tokens (auth_db err f)"
  by (simp add: same_tokens_def auth_db_def split: prod.split)

lemma same_tokens_challenges: "same_tokens (auth_challenges err f)"
  by (simp add: same_tokens_def auth_challenges_def split: prod.split)

lemma same_tokens_of: "same_tokens (auth_of r)"
  by (simp add: same_tokens_def auth_of_def)

lemma same_tokens_fail: "same_tokens (auth_fail e)"
  by (simp add: same_tokens_def auth_fail_def)

lemma same_tokens_return: "same_tokens (auth_return a)"
  by (simp add: same_tokens_def auth_return_def)

lemma same_tokens_bind:
  assumes "same_tokens m" "\<And>a. same_tokens (f a)"
  shows "same_tokens (auth_bind m f)"
  unfolding same_tokens_def
proof
  fix st
  have "auth_bind m f st = (fst (auth_bind m f st), snd (auth_bind m f st))" by simp
  then show "as_tokens (snd (auth_bind m f st)) = as_tokens st"
  proof (cases rule: auth_bind_cases)
    case (fail e)
    with assms(1) show ?thesis unfolding same_tokens_def by (metis snd_conv)
  next
    case (ok a s)
    with assms show ?thesis unfolding same_tokens_def by (metis snd_conv)
  qed
qed

lemma same_tokens_if: "same_tokens m \<Longrightarrow> same_tokens n \<Longrightarrow> same_tokens (if c then m else n)"
  by simp

lemma same_tokens_pair: "(\<And>a b. same_tokens (f a b)) \<Longrightarrow> same_tokens (case x of (a, b) \<Rightarrow> f a b)"
  by (cases x) simp

lemmas same_tokens_rules = same_tokens_bind same_tokens_db same_tokens_challenges same_tokens_of same_tokens_fail same_tokens_return
  same_tokens_if same_tokens_pair

lemma handlers_same_tokens:
  "same_tokens (passkey_registration_start env now i u e)" "same_tokens (passkey_registration_finish env now i n c)"
  "same_tokens (passkey_authentication_start env now i e)" "same_tokens (recovery_code_generate env count uuids)"
  "same_tokens (approval_request_create now i ch ty source)" "same_tokens (approval_request_status now i)"
  "same_tokens (approval_request_approve now i dev)" "same_tokens (qr_code_pairing env now i uuid)"
  "same_tokens (qr_code_pairing_confirm now i code n)" "same_tokens (code_lookup env typed)"
  unfolding passkey_registration_start_def passkey_registration_finish_def passkey_authentication_start_def recovery_code_generate_def
    approval_request_create_def approval_request_status_def approval_request_approve_def qr_code_pairing_def qr_code_pairing_confirm_def
    code_lookup_def Let_def
  by (intro same_tokens_rules)+

text \<open>A handler that changed the tokens \<open>T\<close>: it got through its steps up to the one that issues a token.\<close>

definition issues :: "session_tokens \<Rightarrow> ('p, 'a) auth_op \<Rightarrow> 'p auth_state \<Rightarrow> (auth_error, 'a) result \<Rightarrow> 'p auth_state \<Rightarrow> bool" where
  "issues T m st r st' \<longleftrightarrow> m st = (r, st') \<and> as_tokens st = T \<and> as_tokens st' \<noteq> T"

lemma not_issues: "same_tokens m \<Longrightarrow> \<not> issues T m st r st'"
  unfolding issues_def same_tokens_def by (metis snd_conv)

lemma issues_bind:
  assumes "issues T (auth_bind m f) st r st'" "same_tokens m"
  obtains a s where "m st = (Inr a, s)" "issues T (f a) s r st'"
proof -
  from assms(1) have run: "auth_bind m f st = (r, st')" and T: "as_tokens st = T" "as_tokens st' \<noteq> T" by (simp_all add: issues_def)
  from run show thesis
  proof (cases rule: auth_bind_cases)
    case (fail e)
    with T have "issues T m st (Inl e) st'" by (simp add: issues_def)
    with not_issues[OF assms(2)] show thesis by blast
  next
    case (ok a s)
    with assms(2) T have "as_tokens s = T" unfolding same_tokens_def by (metis snd_conv)
    with ok T that show thesis by (simp add: issues_def)
  qed
qed

lemma issues_of:
  assumes "issues T (auth_bind (auth_of x) f) st r st'"
  obtains a where "x = Inr a" "issues T (f a) st r st'"
  using assms by (rule issues_bind[OF _ same_tokens_of]) (auto simp: auth_of_def)

lemma issues_db:
  assumes "issues T (auth_bind (auth_db err g) f) st r st'"
  obtains a d where "g (as_db st) = (Inr a, d)" "issues T (f a) (st\<lparr>as_db := d\<rparr>) r st'"
  using assms
proof (rule issues_bind[OF _ same_tokens_db])
  fix a s assume "auth_db err g st = (Inr a, s)" "issues T (f a) s r st'"
  then show thesis using that unfolding auth_db_def by (cases "g (as_db st)"; cases "fst (g (as_db st))") auto
qed

lemma issues_taken:
  assumes "issues T (auth_bind (auth_challenges err (retrieve_challenge now sid)) f) st r st'"
  obtains entry where "as_challenges st sid = Some entry" "now \<le> ce_expires_at entry"
    "issues T (f (ce_data entry)) (st\<lparr>as_challenges := (as_challenges st)(sid := None)\<rparr>) r st'"
  using assms
proof (rule issues_bind[OF _ same_tokens_challenges])
  fix a s assume "auth_challenges err (retrieve_challenge now sid) st = (Inr a, s)" "issues T (f a) s r st'"
  then show thesis using that by (cases rule: retrieve_cases) auto
qed

text \<open>The step that issues one.\<close>

definition new_token :: "int \<Rightarrow> string \<Rightarrow> string \<Rightarrow> session_tokens \<Rightarrow> session_tokens" where
  "new_token now acct tok T = T(tok \<mapsto> \<lparr>te_account_id = acct, te_expires_at = now + 86400\<rparr>)"

lemma auth_token_new: "auth_token env now random acct st = (Inr (''owk_'' @ ae_sha256 env (random @ acct @ show_int now)),
    st\<lparr>as_tokens := new_token now acct (''owk_'' @ ae_sha256 env (random @ acct @ show_int now)) (as_tokens st)\<rparr>)"
  by (simp add: auth_token_def generate_token_def new_token_def Let_def)

lemma issues_token:
  assumes "issues T (auth_bind (auth_token env now random acct) f) st r st'" "\<And>a. \<exists>b. f a = auth_return b"
  obtains tok where "st' = st\<lparr>as_tokens := new_token now acct tok T\<rparr>"
proof -
  let ?t = "''owk_'' @ ae_sha256 env (random @ acct @ show_int now)"
  obtain b where "f ?t = auth_return b" using assms(2) by blast
  with assms(1) have "st' = st\<lparr>as_tokens := new_token now acct ?t T\<rparr>" by (auto simp: issues_def auth_bind_def auth_token_new auth_return_def)
  then show thesis by (rule that)
qed

section \<open>A session needs a factor\<close>

text \<open>The two factors: an assertion by an enabled passkey of the account, answering a live challenge that is consumed, and
  an unused recovery code of the account, which is spent.\<close>

definition passkey_shown :: "'p auth_env \<Rightarrow> int \<Rightarrow> auth_request \<Rightarrow> 'p auth_state \<Rightarrow> 'p auth_state \<Rightarrow> string \<Rightarrow> bool" where
  "passkey_shown env now req st st' acct \<longleftrightarrow> (\<exists>sid cred entry a row res.
     req = AuthenticateFinish sid cred \<and> as_challenges st sid = Some entry \<and> now \<le> ce_expires_at entry \<and>
     ce_data entry = ParkedAuthentication a \<and> as_challenges st' sid = None \<and>
     row \<in> set (passkey_credentials (as_db st)) \<and> wa_raw_id (ae_wa env) cred = Some (pk_id row) \<and> pk_account_id row = acct \<and>
     \<not> pk_disabled row \<and> wa_finish_authentication (ae_wa env) cred a = Some res \<and> res_cred_id res = wa_cred_id (ae_wa env) (pk_public_key row))"

definition code_spent :: "'p auth_env \<Rightarrow> auth_request \<Rightarrow> 'p auth_state \<Rightarrow> 'p auth_state \<Rightarrow> string \<Rightarrow> bool" where
  "code_spent env req st st' acct \<longleftrightarrow> (\<exists>typed row. req = RecoveryUse typed \<and> row \<in> set (recovery_codes (as_db st)) \<and> \<not> rc_used row \<and>
     rc_code_hash row = typed_hash env typed \<and> rc_account_id row = acct \<and>
     (\<forall>r \<in> set (recovery_codes (as_db st')). rc_id r = rc_id row \<longrightarrow> rc_used r))"

lemma get_passkey_row: "get_passkey_credential c d = (Inr (Some row), d') \<Longrightarrow> row \<in> set (passkey_credentials d) \<and> pk_id row = c"
  unfolding get_passkey_credential_def by (auto dest!: db_call_okD sql_select_Some)

lemma get_code_row: "get_recovery_code_by_hash h d = (Inr (Some row), d') \<Longrightarrow>
    row \<in> set (recovery_codes d) \<and> rc_code_hash row = h \<and> \<not> rc_used row"
  unfolding get_recovery_code_by_hash_def by (auto dest!: db_call_okD sql_select_Some)

lemma manager_finish_ok:
  assumes "storage_cred_to_authn w row = Inr c" "manager_finish w cred a c = Inr n"
  shows "\<not> pk_disabled row" "\<exists>res. wa_finish_authentication w cred a = Some res \<and> res_cred_id res = wa_cred_id w (pk_public_key row)"
proof -
  from assms(1) have c: "cr_disabled c = pk_disabled row" "cr_passkey c = pk_public_key row"
    by (auto simp: storage_cred_to_authn_def or_error_Inr convert_cred_def split: if_splits)
  from assms(2) c show "\<not> pk_disabled row" "\<exists>res. wa_finish_authentication w cred a = Some res \<and> res_cred_id res = wa_cred_id w (pk_public_key row)"
    by (auto simp: manager_finish_def split: if_splits option.splits)
qed

lemma authentication_finish_token:
  assumes "issues T (passkey_authentication_finish env now random sid cred) st r st'"
  obtains acct tok where "passkey_shown env now (AuthenticateFinish sid cred) st st' acct" "as_tokens st' = new_token now acct tok T"
  using assms unfolding passkey_authentication_finish_def
proof (elim issues_taken issues_of issues_db, goal_cases)
  case (1 entry a cred_id row d stored c n u d')
  from 1(11) obtain tok where st': "st' = st\<lparr>as_challenges := (as_challenges st)(sid := None), as_db := d, as_db := d',
      as_tokens := new_token now (pk_account_id stored) tok T\<rparr>"
    by (rule issues_token) blast
  from 1 have "ce_data entry = ParkedAuthentication a" by (auto simp: as_authentication_def split: parked.splits)
  moreover from 1 have "stored \<in> set (passkey_credentials (as_db st))" "pk_id stored = cred_id" using get_passkey_row[of cred_id] by (auto simp: or_error_Inr)
  ultimately have "passkey_shown env now (AuthenticateFinish sid cred) st st' (pk_account_id stored)"
    unfolding passkey_shown_def using 1 st' manager_finish_ok[OF 1(8,9)] by (auto simp: or_error_Inr)
  with st' show ?case by (intro 1(1)) simp_all
qed

lemma code_lookup_row:
  assumes "code_lookup env typed st = (Inr row, s)"
  obtains d where "get_recovery_code_by_hash (typed_hash env typed) (as_db st) = (Inr (Some row), d)" "s = st\<lparr>as_db := d\<rparr>"
  using assms unfolding code_lookup_def
proof (cases rule: auth_bind_cases)
  case (ok x s1)
  then obtain d where d: "get_recovery_code_by_hash (typed_hash env typed) (as_db st) = (Inr x, d)" "s1 = st\<lparr>as_db := d\<rparr>"
    unfolding auth_db_def by (cases "get_recovery_code_by_hash (typed_hash env typed) (as_db st)";
      cases "fst (get_recovery_code_by_hash (typed_hash env typed) (as_db st))") auto
  from ok(2) have "x = Some row" "s = s1"
    by (cases x; auto simp: auth_bind_def auth_of_def or_error_def auth_fail_def auth_return_def split: if_splits)+
  with d that show thesis by simp
qed simp

lemma recovery_use_token:
  assumes "issues T (recovery_code_use env now random typed) st r st'"
  obtains acct tok where "code_spent env (RecoveryUse typed) st st' acct" "as_tokens st' = new_token now acct tok T"
  using assms unfolding recovery_code_use_def
proof (rule issues_bind[OF _ handlers_same_tokens(10)])
  fix row s assume look: "code_lookup env typed st = (Inr row, s)" and run: "issues T (code_redeem env now random row) s r st'"
  from look obtain d where d: "get_recovery_code_by_hash (typed_hash env typed) (as_db st) = (Inr (Some row), d)" "s = st\<lparr>as_db := d\<rparr>"
    by (rule code_lookup_row)
  from run[unfolded code_redeem_def] obtain u d' where d': "mark_recovery_code_used now (rc_id row) d = (Inr (), d')"
    and t: "issues T (auth_token env now random (rc_account_id row)) (s\<lparr>as_db := d'\<rparr>) r st'"
    by (rule issues_db) (simp add: d(2))
  from t obtain tok where st': "st' = s\<lparr>as_db := d', as_tokens := new_token now (rc_account_id row) tok T\<rparr>"
    by (auto simp: issues_def auth_token_new)
  have "code_spent env (RecoveryUse typed) st st' (rc_account_id row)"
    unfolding code_spent_def using get_code_row[OF d(1)] marked_recovery_code_spent[OF d'] st' by auto
  with st' show thesis by (intro that) simp_all
qed

text \<open>C37. A session needs a factor. Whatever request the passwordless API serves, if the session tokens change then one token
  was added, for one account, valid for a day, and either the request answered a parked challenge that had not expired, with an
  assertion that the WebAuthn library accepts by an enabled passkey of that account, and the challenge is gone; or it carried a
  code that is the hash of an unused recovery code of that account, and that code is now used.\<close>

theorem session_needs_factor:
  assumes "serve_auth env now dr req st = (resp, st')" "as_tokens st' \<noteq> as_tokens st"
  shows "\<exists>acct tok. as_tokens st' = new_token now acct tok (as_tokens st) \<and>
    (passkey_shown env now req st st' acct \<or> code_spent env req st st' acct)"
proof -
  have st': "st' = snd (serve_auth env now dr req st)" using assms(1) by simp
  have same: "as_tokens (snd (auth_answer f m st)) = as_tokens st" if "same_tokens m" for f m
    using that by (simp add: auth_answer_state same_tokens_def)
  show ?thesis
  proof (cases req)
    case (AuthenticateFinish sid cred)
    then have "st' = snd (passkey_authentication_finish env now (ad_random dr) sid cred st)" using st' by (simp add: auth_answer_state)
    then have "issues (as_tokens st) (passkey_authentication_finish env now (ad_random dr) sid cred) st
        (fst (passkey_authentication_finish env now (ad_random dr) sid cred st)) st'" using assms(2) by (simp add: issues_def)
    then show ?thesis unfolding AuthenticateFinish by (rule authentication_finish_token) blast
  next
    case (RecoveryUse typed)
    then have "st' = snd (recovery_code_use env now (ad_random dr) typed st)" using st' by (simp add: auth_answer_state)
    then have "issues (as_tokens st) (recovery_code_use env now (ad_random dr) typed) st
        (fst (recovery_code_use env now (ad_random dr) typed st)) st'" using assms(2) by (simp add: issues_def)
    then show ?thesis unfolding RecoveryUse by (rule recovery_use_token) blast
  qed (use assms(2) st' in \<open>simp_all add: same handlers_same_tokens\<close>)
qed

definition demo_wa :: "unit webauthn" where
  "demo_wa = \<lparr>wa_start_registration = (\<lambda>_ _ _ _. Some (JNull, ())), wa_finish_registration = (\<lambda>_ _. Some ''pub''),
     wa_start_authentication = (\<lambda>_. Some (JNull, ())), wa_finish_authentication = (\<lambda>_ _. Some \<lparr>res_cred_id = ''pub'', res_counter = 1\<rparr>),
     wa_raw_id = (\<lambda>_. Some ''k1''), wa_register_ok = (\<lambda>_. True), wa_passkey_ok = (\<lambda>_. True), wa_cred_id = id\<rparr>"

definition demo_auth_env :: "unit auth_env" where
  "demo_auth_env = \<lparr>ae_wa = demo_wa, ae_lower = to_lowercase, ae_upper = to_uppercase, ae_sha256 = id\<rparr>"

definition demo_auth_db :: db where
  "demo_auth_db = empty_db\<lparr>accounts := [\<lparr>acc_id = ''a1'', acc_email = ''al@x'', acc_display_name = None, acc_created_at = 0, acc_disabled_at = None\<rparr>]\<rparr>"

definition demo_auth_state :: "unit auth_state" where
  "demo_auth_state = \<lparr>as_challenges = new_store, as_tokens = Map.empty, as_db = demo_auth_db\<rparr>"

definition demo_draw :: auth_draw where
  "demo_draw = \<lparr>ad_id = ''s1'', ad_user = ''u'', ad_random = ''r'', ad_challenge = ''c'', ad_uuids = (\<lambda>_. ''0123'')\<rparr>"

definition demo_code_state :: "unit auth_state" where
  "demo_code_state = demo_auth_state\<lparr>as_db := demo_auth_db\<lparr>recovery_codes :=
     [\<lparr>rc_id = ''c1'', rc_account_id = ''a1'', rc_code_hash = ''AB'', rc_display_code = ''A-B'', rc_used = False, rc_used_at = None, rc_created_at = 0\<rparr>]\<rparr>\<rparr>"

lemma demo_lookup: "code_lookup demo_auth_env ''AB'' demo_code_state = (Inr (hd (recovery_codes (as_db demo_code_state))), demo_code_state)"
proof -
  have "typed_hash demo_auth_env ''AB'' = ''AB''" by code_simp
  then show ?thesis
    by (simp add: code_lookup_def auth_bind_def auth_db_def get_recovery_code_by_hash_def auth_of_def or_error_def auth_return_def
        demo_code_state_def demo_auth_state_def demo_auth_db_def empty_db_def sql_select_def)
qed

lemma kept_demo: "kept demo_auth_env"
  by (simp add: kept_def demo_auth_env_def lowercase_at)

theorem session_needs_factor_witness:
  "\<exists>acct tok. as_tokens (snd (serve_auth demo_auth_env 5 demo_draw (RecoveryUse ''a-b'') demo_code_state)) =
       new_token 5 acct tok (as_tokens demo_code_state) \<and>
     (passkey_shown demo_auth_env 5 (RecoveryUse ''a-b'') demo_code_state (snd (serve_auth demo_auth_env 5 demo_draw (RecoveryUse ''a-b'') demo_code_state)) acct \<or>
      code_spent demo_auth_env (RecoveryUse ''a-b'') demo_code_state (snd (serve_auth demo_auth_env 5 demo_draw (RecoveryUse ''a-b'') demo_code_state)) acct)"
proof (rule session_needs_factor)
  let ?r = "serve_auth demo_auth_env 5 demo_draw (RecoveryUse ''a-b'') demo_code_state"
  show "?r = (fst ?r, snd ?r)" by simp
  have "as_tokens (snd ?r) (''owk_ra15'') \<noteq> None" by code_simp
  moreover have "as_tokens demo_code_state = Map.empty" by (simp add: demo_code_state_def demo_auth_state_def)
  ultimately show "as_tokens (snd ?r) \<noteq> as_tokens demo_code_state" by auto
qed

text \<open>C38. The passwordless API enrols nothing. From an empty challenge store and a database in which accounts have an address
  and an id without an at sign, ids other than \<open>placeholder\<close>, and passkeys belong to accounts, no sequence of requests to its
  eleven routes changes anything in the database apart from whether and when a recovery code was used, when a device last
  acted, and the status, approver and time of approval of an approval request: no account, passkey, code, device or request
  is added, altered or removed. Where no recovery code is stored no session token is ever issued. A registration is
  keyed by the address and approvals and pairings by \<open>placeholder\<close>, which the foreign keys refuse. (It is assumed that lower-casing
  an address keeps its at sign.)\<close>

theorem auth_api_enrols_nothing:
  assumes "kept env" "ids_ok (as_db st)" "as_challenges st = new_store"
  shows "enrolled (as_db (auth_run env reqs st)) = enrolled (as_db st) \<and>
    (recovery_codes (as_db st) = [] \<longrightarrow> as_tokens (auth_run env reqs st) = as_tokens st)"
proof -
  have "inert (as_db st) (as_tokens st) st" using assms(3) by (simp add: inert_def parked_ok_def new_store_def)
  from auth_run_inert[OF assms(2,1) this] show ?thesis by (simp add: inert_def)
qed

theorem auth_api_enrols_nothing_witness:
  "enrolled (as_db (auth_run demo_auth_env [(1, demo_draw, RegisterStart ''Al@x''), (2, demo_draw, RegisterFinish ''s1'' ''phone'' JNull),
       (3, demo_draw, PairingConfirm ''ABCD'' ''phone'')] demo_auth_state)) = enrolled demo_auth_db \<and>
     as_tokens (auth_run demo_auth_env [(1, demo_draw, RegisterStart ''Al@x''), (2, demo_draw, RegisterFinish ''s1'' ''phone'' JNull),
       (3, demo_draw, PairingConfirm ''ABCD'' ''phone'')] demo_auth_state) = Map.empty"
proof -
  have e: "as_db demo_auth_state = demo_auth_db" "recovery_codes demo_auth_db = []" "as_tokens demo_auth_state = Map.empty"
    "as_challenges demo_auth_state = new_store" "ids_ok demo_auth_db"
    by (simp_all add: demo_auth_state_def demo_auth_db_def empty_db_def ids_ok_def)
  with auth_api_enrols_nothing[OF kept_demo, of demo_auth_state] show ?thesis by (simp del: auth_run.simps)
qed

text \<open>C39. Recovery codes are single use only for requests that do not overlap. Two requests look the same unused code up, as both
  may before either goes on. The first redeems it, and from then on a new request with the code is refused; but the second, which
  already holds the row, redeems it as well and gets a session token for the account, because marking the code does not ask
  whether it is still unused. (The database calls do not fail, and no other row has the hash of the code.)\<close>

theorem recovery_code_race:
  assumes "faults (as_db st) = []" "code_lookup env typed st = (Inr row, st1)"
    and "\<And>r. r \<in> set (recovery_codes (as_db st)) \<Longrightarrow> rc_code_hash r = typed_hash env typed \<Longrightarrow> rc_id r = rc_id row"
  shows "\<exists>tok st2 tok' st3. code_lookup env typed st1 = (Inr row, st1) \<and> code_redeem env now random row st1 = (Inr tok, st2) \<and>
    fst (recovery_code_use env now'' random'' typed st2) = Inl InvalidRecoveryCode \<and>
    code_redeem env now' random' row st2 = (Inr tok', st3) \<and>
    as_tokens st3 tok' = Some \<lparr>te_account_id = rc_account_id row, te_expires_at = now' + 86400\<rparr>"
proof -
  from assms(2) obtain d where "get_recovery_code_by_hash (typed_hash env typed) (as_db st) = (Inr (Some row), d)" "st1 = st\<lparr>as_db := d\<rparr>"
    by (rule code_lookup_row)
  with assms(1) have st1: "st1 = st" by (simp add: get_recovery_code_by_hash_def)
  let ?db = "\<lambda>t d. d\<lparr>recovery_codes := sql_update (\<lambda>r. rc_id r = rc_id row) (\<lambda>r. r\<lparr>rc_used := True, rc_used_at := Some t\<rparr>) (recovery_codes d)\<rparr>"
  have redeem: "\<exists>tok. code_redeem env t rnd row s =
      (Inr tok, s\<lparr>as_db := ?db t (as_db s), as_tokens := new_token t (rc_account_id row) tok (as_tokens s)\<rparr>)"
    if "faults (as_db s) = []" for t rnd s
    using that by (auto simp: code_redeem_def auth_bind_def auth_db_def mark_recovery_code_used_def auth_token_new)
  obtain tok st2 where r1: "code_redeem env now random row st = (Inr tok, st2)" "as_db st2 = ?db now (as_db st)"
    using redeem[OF assms(1)] by force
  with assms(1) obtain tok' st3 where r2: "code_redeem env now' random' row st2 = (Inr tok', st3)"
      "as_tokens st3 = new_token now' (rc_account_id row) tok' (as_tokens st2)"
    using redeem[of st2] by force
  have "sql_select (\<lambda>r. rc_code_hash r = typed_hash env typed \<and> \<not> rc_used r) (recovery_codes (as_db st2)) = None"
    unfolding sql_select_None r1(2) using assms(3) by (auto elim!: sql_updateE)
  then have "fst (code_lookup env typed st2) = Inl InvalidRecoveryCode"
    using assms(1) r1(2) by (simp add: code_lookup_def auth_bind_def auth_db_def get_recovery_code_by_hash_def auth_of_def or_error_def)
  then have "fst (recovery_code_use env now'' random'' typed st2) = Inl InvalidRecoveryCode"
    unfolding recovery_code_use_def auth_bind_def by (cases "code_lookup env typed st2") simp
  with r1(1) r2 assms(2) st1 show ?thesis by (auto simp: new_token_def)
qed

theorem recovery_code_race_witness:
  "\<exists>tok st2 tok' st3. code_redeem demo_auth_env 5 ''r1'' (hd (recovery_codes (as_db demo_code_state))) demo_code_state = (Inr tok, st2) \<and>
    fst (recovery_code_use demo_auth_env 5 ''r3'' ''AB'' st2) = Inl InvalidRecoveryCode \<and>
    code_redeem demo_auth_env 6 ''r2'' (hd (recovery_codes (as_db demo_code_state))) st2 = (Inr tok', st3) \<and>
    as_tokens st3 tok' = Some \<lparr>te_account_id = ''a1'', te_expires_at = 86406\<rparr>"
proof -
  have "faults (as_db demo_code_state) = []" "rc_account_id (hd (recovery_codes (as_db demo_code_state))) = ''a1''"
    by (simp_all add: demo_code_state_def demo_auth_state_def demo_auth_db_def empty_db_def)
  moreover have "rc_id r = rc_id (hd (recovery_codes (as_db demo_code_state)))" if "r \<in> set (recovery_codes (as_db demo_code_state))" for r
    using that by (simp add: demo_code_state_def)
  ultimately show ?thesis
    using recovery_code_race[OF _ demo_lookup, of 5 "''r1''" 5 "''r3''" 6 "''r2''"] by simp
qed

end
