(* ===== verification/Spec2Isabelle.thy ===== *)
theory Spec2Isabelle
  imports Jmap_Dispatcher Smtp_Session OAuth_Props Oidc_Codes Oidc_Props Delivery_Worker Passwordless Schedule_Props Fed_Runs Server_Core Jmap_Answers Auth_Props
begin

text \<open>
  Owney is a mail server in Rust: it receives mail over SMTP, stores it in SQLite, serves it over JMAP,
  delivers outgoing mail from a durable queue, shares calendars with other servers, and is an OpenID
  provider with passkey logins. This
  development models the parts that carry its own logic and proves what makes them correct. Paths below
  are relative to \<open>src/crates\<close>.

  \<^bold>\<open>Theories, bottom up.\<close>

  \<^item> \<open>Prelude\<close>: Rust strings as HOL strings (splitting, trimming, case, numbers), \<open>BTreeMap\<close> as an ordered
    association list, SQL on lists of rows (select, update, delete, insert under a key), the simp
    collections. \<open>Json\<close>: \<open>serde_json::Value\<close>.
  \<^item> \<open>Jmap_Envelope\<close>, \<open>Jmap_Refs\<close>, \<open>Jmap_Dispatcher\<close>: \<open>jmap-core/src/envelope.rs\<close>, \<open>refs.rs\<close>, \<open>lib.rs\<close> and
    \<open>session.rs\<close>. A handler is a function on an unspecified world that returns, fails, panics or runs
    out of time. Result: path evaluation agrees with RFC 6901 where that has a value (C1),
    wildcards flatten once, references resolve exactly as specified and never panic (C2, \<open>process_no_panic\<close>), which requests are rejected
    (\<open>process_rejects_iff\<close>), each call is answered in order (C3) and independently of later calls (\<open>process_prefix\<close>), a method outside
    \<open>using\<close> never runs (\<open>process_capability_gate\<close>).
  \<^item> \<open>Smtp_Session\<close>: \<open>owney-smtp-in/src/session.rs\<close>. The protocol parsers are the record \<open>smtp_proto\<close>, the
    socket is a list of reads with elapsed times, the policy a \<open>mail_handler\<close>. Result: the session
    ends (C4), only accepted recipients and bounded messages reach the policy (C5), the trace header
    cannot be split (\<open>received_header_lines\<close>), one TLS upgrade at most (\<open>no_second_starttls\<close>).
  \<^item> \<open>Storage_Db\<close>: \<open>owney-storage/src/db.rs\<close> and the tables of \<open>migrations.rs\<close>. \<open>'a op\<close> is a call on the
    writer thread: a result or an error, and the new database. The field \<open>faults\<close> is a schedule that
    makes calls fail; every result holds for every schedule unless it says \<open>faults d = []\<close>.
    \<open>Accounts\<close>, \<open>Tokens\<close>, \<open>OAuth_Store\<close>, \<open>Passwordless\<close>, \<open>Queue_Store\<close>: \<open>owney-storage/src/lib.rs\<close>,
    \<open>tokens.rs\<close>, \<open>aliases.rs\<close>, \<open>oauth.rs\<close>, \<open>passwordless.rs\<close>, \<open>queue.rs\<close>. \<open>OAuth_Props\<close> holds results on
    the stores. Result: over any history of store operations, \<open>oauth_step\<close>, a refresh-token family has
    one live token, of one account and client (C6), and a token is rotated once (\<open>rotation_single_use\<close>); revocation and
    disabling take effect (\<open>revoke_family_kills\<close>, \<open>disable_client_shuts_out\<close>); consent only widens (\<open>upsert_grant_union\<close>); who a token speaks for (\<open>account_by_token_sound\<close>);
    an account operation that never succeeds (\<open>delete_account_never_works\<close>); a queued delivery goes to one worker (\<open>claims_exclusive\<close>).
  \<^item> \<open>Challenge_Store\<close>: \<open>owney-api/src/challenge_store.rs\<close>. The locale \<open>single_use_store\<close> states what its
    clients rely on; both of its stores are interpretations. Result: C7.
  \<^item> \<open>Oidc_Session\<close>, \<open>Oidc_Token\<close>, \<open>Oidc_Authorize\<close>: the handlers of \<open>owney-api/src/oidc\<close>. Hashes,
    signatures, URL encoding and webauthn-rs are the records \<open>oidc_env\<close> and \<open>webauthn\<close>. \<open>Oidc_Props\<close>,
    \<open>Oidc_Flow\<close> and \<open>Oidc_Codes\<close> hold the results: tokens are minted only for a redeemed code or a live refresh token of
    an enabled client (C8), a code is good once, whatever is served in between (C9), reuse burns the family (C10) but not the access tokens no row records (\<open>unrecorded_token_survives\<close>), a refresh that
    drops offline access leaves the token live (\<open>dropped_offline_keeps_token_live\<close>), the token endpoint is a run of store operations,
    so C6 holds after every request (C11), userinfo releases claims by scope (\<open>userinfo_releases_by_scope\<close>), redirects go to registered addresses only (C12),
    a login needs an assertion by a passkey of the account (C13), and codes come from approved consent
    (C14).
  \<^item> \<open>Delivery_Worker\<close>: \<open>owney-delivery/src/router.rs\<close>, \<open>worker.rs\<close>, \<open>lib.rs\<close>. DNS and the SMTP client are
    parameters; the locale \<open>mail_router\<close> is the contract of a router and is interpreted on the three
    routers of the code. Result: at most ten attempts at a delivery (C15), the relay that settles an attempt (\<open>attempt_first_settling_relay\<close>),
    everything due is delivered when relays accept (C16), bounces cannot be forged into (C17).

  \<^item> \<open>Core_Time\<close>: \<open>owney-core/src/time.rs\<close>. Result: day numbers become the right dates (C22).
  \<^item> \<open>Mail_Store\<close>: \<open>owney-storage/src/ingest.rs\<close>, \<open>mail_queries.rs\<close>, \<open>attributes.rs\<close>. The MIME parser and the
    blob directory are the record \<open>ingest_env\<close>. Result, over any run \<open>mail_step\<close> of the store: a client that
    synchronizes is told of exactly what changed (C18) unless the answer is cut off, when changes are lost
    (C19).
  \<^item> \<open>Calendar_Store\<close>, \<open>Scheduling_Store\<close>, \<open>Slots\<close>, \<open>Schedule_Api\<close>: \<open>owney-storage/src/calendar.rs\<close>,
    \<open>scheduling.rs\<close> and \<open>owney-api/src/schedule\<close>. The calendar library is the record \<open>chrono\<close>. \<open>Schedule_Props\<close>
    holds results. Result: the slots a page offers are exactly the free ones on its grid (C21), and over any
    run \<open>sched_step\<close> confirmed bookings of an account never overlap (C20). The locale \<open>db_view\<close> of
    \<open>Storage_Db\<close> carries what an operation leaves alone through calls, transactions and sequences.

  \<^item> \<open>Account_Data\<close>: \<open>owney-storage/src/contacts.rs\<close>, \<open>chat_preferences.rs\<close>, \<open>spam_store.rs\<close>, \<open>pgp_store.rs\<close>,
    \<open>ai_store.rs\<close>. \<open>Pgp\<close>: \<open>owney-pgp/src/lib.rs\<close>, \<open>ops.rs\<close>, \<open>autocrypt.rs\<close>, \<open>pipeline.rs\<close> over the record \<open>openpgp\<close>, which
    stands for sequoia.
  \<^item> \<open>Fed_Store\<close>, \<open>Fed_Sig\<close>, \<open>Fed_Sync\<close>, \<open>Fed_Http\<close>: the sharing of calendars between servers,
    \<open>owney-storage/src/calendar_sharing.rs\<close> and \<open>federation_store.rs\<close>, \<open>owney-api/src/fed_sig.rs\<close>, \<open>federation.rs\<close>,
    \<open>fed_apply.rs\<close>, \<open>calendar_sync.rs\<close>, \<open>fed_worker.rs\<close>, \<open>wellknown.rs\<close>. The network is a function on an unspecified
    world; a pull that a peer keeps going forever is the value \<open>None\<close>. \<open>Fed_Props\<close>, \<open>Fed_Serve\<close> and \<open>Fed_Runs\<close> hold the
    results: a peer reaches only the events it brought in (C23), events are served only to the signed peer
    with the capability (C24), a signed request is accepted once while its nonce is remembered
    (C25), a pinned key stays pinned (C26), and one failed pull ends a subscription (C27).

  \<^item> \<open>F32\<close>, \<open>Spam\<close>, \<open>Mail_Auth\<close>, \<open>Server_Core\<close>: \<open>f32\<close> arithmetic, \<open>owney-spam\<close>, \<open>owney-authn\<close> and the mail policy
    \<open>bin/owneyd/src/handler.rs\<close>, which is a handler of the SMTP session and satisfies the contract \<open>mail_policy\<close> of
    \<open>Smtp_Session\<close>. Result: a session cannot make the server relay (C28), accepted mail is stored for each
    recipient (C29), and the spam filter neither rejects nor quarantines anything (C30).
    The locales \<open>mail_free\<close> and \<open>key_free\<close> say what ingest and the handling of keys leave alone.

  \<^item> \<open>Jmap_Methods\<close>, \<open>Jmap_Mail\<close>, \<open>Jmap_Calendar\<close>, \<open>Jmap_Server\<close>, \<open>Wkd\<close>: the JMAP methods of \<open>owney-jmap-mail\<close>
    (\<open>lib.rs\<close>, \<open>attribute_methods.rs\<close>, \<open>calendar_methods.rs\<close>, \<open>scheduling_methods.rs\<close>), the endpoints over them
    (\<open>owney-api/src/lib.rs\<close>: session, API, upload, download, key directory; \<open>push.rs\<close>: event source and WebSocket), blob ids
    (\<open>owney-core/src/id.rs\<close>) and \<open>owney-pgp/src/wkd.rs\<close>. A method is a \<open>step\<close>: it returns, fails or panics over a world
    that is the store and a count, from which the clock and random values are drawn; the same world runs through the
    dispatcher. \<open>Account_View\<close> says what the data of an account is, with the locale \<open>db_rel\<close> of relations that operations
    respect; \<open>Jmap_Props\<close> and \<open>Jmap_Answers\<close> hold the results: requests of others leave an account's data alone, through every method and
    endpoint and down to the tables (C31), a method called with another account's id does nothing
    (C32), the answer of a \<open>/set\<close> accounts for every entry (C33), a WebSocket carries only what is the account's own (C34), a failed remote
    share blocks its repetition (C35), blob ids read back (\<open>blob_id_roundtrip\<close>), and the bit-shifting base-32
    encoder agrees with five-bit groups (C36). Also: a download is not tied to the owner of the blob
    (\<open>download_ignores_owner\<close>) and can panic (\<open>download_panics\<close>); \<open>SchedulingPage/set\<close> reports an error after it has written
    (\<open>page_destroy_error\<close>).

  \<^item> \<open>Recovery\<close>, \<open>Auth_Api\<close>: the passwordless logins, \<open>owney-authn-v2\<close> (\<open>recovery.rs\<close>, \<open>approval.rs\<close>, \<open>qr.rs\<close>, \<open>lib.rs\<close>,
    \<open>error.rs\<close>) and the handlers of \<open>owney-api/src/auth.rs\<close>, whose module text says that they must not be mounted. A handler is
    an \<open>auth_op\<close> over the challenge store, the session tokens and the database; \<open>serve_auth\<close> is one request with its answer.
    \<open>Auth_Props\<close> holds the results: a session token is issued only for an assertion by an enabled passkey or an unused recovery
    code (C37), no sequence of requests enrols or alters anything (C38), and overlapping requests
    redeem one recovery code twice (C39). In \<open>owney-authn-v2\<close>, a generated recovery code works once, however
    it is typed (C40), and a request or a pairing is settled once (\<open>approval_once\<close>, \<open>pairing_once\<close>).

  \<^bold>\<open>Conventions.\<close> Machine integers are \<open>nat\<close> or \<open>int\<close> where the values are bounded far below their width
  (counters, seconds); strings are lists of characters, one per byte. Random values, new ids and clock
  readings are arguments; a request reads the clock once. The order of the rows of \<open>UPDATE ... RETURNING\<close>
  and of ties of \<open>ORDER BY\<close> is the table's order.

  \<^bold>\<open>Fuel.\<close> Only the inner loop of the SMTP session has fuel: one more than the bytes read, and C4 shows
  that it is enough. Loops of tasks that run forever, the SMTP session and the delivery worker, run over
  a list of reads or of clock readings.

  \<^bold>\<open>Not modelled.\<close> Third-party code and pure I/O: MIME parsing, full-text search, the OpenPGP library, DKIM
  keys, TLS, ACME, backup, the AI providers, the command line. Of the repository's own logic: the
  IMAP server.
\<close>

end
